(* ===== verification/Prelude.thy ===== *)
theory Prelude
  imports Main "HOL-Library.Multiset" "HOL-Library.AList"
begin

text \<open>
  Shared vocabulary of the development: Go values and errors, the small part of Go's
  \<open>strings\<close> package the sources use, Go maps as association lists, and a generic
  notion of reachable states with its invariant rule.
\<close>

section \<open>Errors and results\<close>

text \<open>
  A Go function that returns only an \<open>error\<close> is modelled by \<open>'e option\<close>
  (\<open>None\<close> is \<open>nil\<close>); one that returns \<open>(value, error)\<close> is modelled by
  \<open>'e + 'a\<close>.  The wrapper \<open>maskAny\<close> (\<open>errors.WithStack\<close>) adds a stack trace to an
  error and keeps the error itself, so it is the identity here.
\<close>

type_synonym 'e error_only = "'e option"
type_synonym ('e, 'a) go_result = "'e + 'a"

text \<open>When a sequence of early returns yields \<open>nil\<close>.\<close>

lemma chain_None [simp]:
  "(case a of Some e \<Rightarrow> Some e | None \<Rightarrow> b) = None \<longleftrightarrow> a = None \<and> b = None"
  by (cases a) auto

lemma lookup_None [simp]:
  "(case a of None \<Rightarrow> Some e | Some x \<Rightarrow> f x) = None \<longleftrightarrow> (\<exists>x. a = Some x \<and> f x = None)"
  by (cases a) auto

lemma guard_None [simp]: "(if c then Some e else b) = None \<longleftrightarrow> \<not> c \<and> b = None"
  by simp

lemma check_None [simp]: "(if c then None else Some e) = None \<longleftrightarrow> c"
  by simp

text \<open>
  A loop of the form \<open>for _, x := range xs { if err := f(x); err != nil { return err } }\<close>.
\<close>

fun first_error :: "('a \<Rightarrow> 'e option) \<Rightarrow> 'a list \<Rightarrow> 'e option" where
  "first_error f [] = None"
| "first_error f (x # xs) = (case f x of Some e \<Rightarrow> Some e | None \<Rightarrow> first_error f xs)"

lemma first_error_None [simp]: "first_error f xs = None \<longleftrightarrow> (\<forall>x \<in> set xs. f x = None)"
  by (induction xs) (auto split: option.splits)

lemma first_error_SomeD: "first_error f xs = Some e \<Longrightarrow> \<exists>x \<in> set xs. f x = Some e"
  by (induction xs) (auto split: option.splits)

lemma first_error_append:
  "first_error f (xs @ ys) =
     (case first_error f xs of Some e \<Rightarrow> Some e | None \<Rightarrow> first_error f ys)"
  by (induction xs) (auto simp del: first_error_None split: option.splits)

lemma find_SomeD: "find P xs = Some x \<Longrightarrow> x \<in> set xs \<and> P x"
  by (induction xs) (auto split: if_splits)

lemma find_None_all: "find P xs = None \<longleftrightarrow> (\<forall>x \<in> set xs. \<not> P x)"
  by (induction xs) auto

lemma distinct_same_element:
  "distinct (map f xs) \<Longrightarrow> x \<in> set xs \<Longrightarrow> y \<in> set xs \<Longrightarrow> f x = f y \<Longrightarrow> x = y"
  by (simp add: distinct_map inj_on_def)

section \<open>Strings\<close>

text \<open>
  A Go string is a sequence of bytes, here a \<open>char list\<close>.  \<open>strings.ToLower\<close> is
  modelled on ASCII; Kubernetes names, DNS labels and the identifiers of a pipeline are ASCII.
\<close>

definition lower_char :: "char \<Rightarrow> char" where
  "lower_char c = (if 65 \<le> (of_char c :: nat) \<and> (of_char c :: nat) \<le> 90
                   then char_of ((of_char c :: nat) + 32) else c)"

definition to_lower :: "string \<Rightarrow> string" where
  "to_lower s = map lower_char s"

lemma length_to_lower [simp]: "length (to_lower s) = length s"
  by (simp add: to_lower_def)

lemma lower_char_idem [simp]: "lower_char (lower_char c) = lower_char c"
  by (auto simp: lower_char_def)

lemma to_lower_idem [simp]: "to_lower (to_lower s) = to_lower s"
  by (simp add: to_lower_def)

lemma to_lower_append: "to_lower (s @ t) = to_lower s @ to_lower t"
  by (simp add: to_lower_def)

lemma to_lower_take: "to_lower (take n s) = take n (to_lower s)"
  by (simp add: to_lower_def take_map)

text \<open>\<open>strings.Split\<close> with a one byte separator.\<close>

fun split_on :: "char \<Rightarrow> string \<Rightarrow> string list" where
  "split_on c [] = [[]]"
| "split_on c (x # xs) =
     (if x = c then [] # split_on c xs
      else (case split_on c xs of [] \<Rightarrow> [[x]] | p # ps \<Rightarrow> (x # p) # ps))"

text \<open>\<open>strings.Join\<close>.\<close>

fun join_with :: "string \<Rightarrow> string list \<Rightarrow> string" where
  "join_with sep [] = []"
| "join_with sep [s] = s"
| "join_with sep (s # t # ss) = s @ sep @ join_with sep (t # ss)"

lemma split_on_nonempty [simp]: "split_on c s \<noteq> []"
  by (induction s) (auto split: list.splits)

lemma split_on_no_sep: "c \<notin> set s \<Longrightarrow> split_on c s = [s]"
  by (induction s) auto

lemma split_on_append_sep:
  "c \<notin> set a \<Longrightarrow> split_on c (a @ c # b) = a # split_on c b"
  by (induction a) auto

lemma split_on_parts: "p \<in> set (split_on c s) \<Longrightarrow> c \<notin> set p"
  by (induction s arbitrary: p) (auto split: if_splits list.splits)

lemma join_split: "join_with [c] (split_on c s) = s"
proof (induction s)
  case Nil
  then show ?case by simp
next
  case (Cons x s)
  obtain p ps where sp: "split_on c s = p # ps"
    by (cases "split_on c s") auto
  with Cons.IH show ?case by (cases ps) auto
qed

lemma split_join:
  assumes "ss \<noteq> []" and "\<forall>s \<in> set ss. c \<notin> set s"
  shows "split_on c (join_with [c] ss) = ss"
  using assms
  by (induction "[c]" ss rule: join_with.induct)
     (auto simp: split_on_no_sep split_on_append_sep)

text \<open>\<open>strings.Index\<close> for a one byte pattern.\<close>

fun index_of :: "char \<Rightarrow> string \<Rightarrow> nat option" where
  "index_of c [] = None"
| "index_of c (x # xs) = (if x = c then Some 0 else map_option Suc (index_of c xs))"

lemma index_of_None [simp]: "index_of c s = None \<longleftrightarrow> c \<notin> set s"
  by (induction s) auto

lemma index_of_Some:
  "index_of c s = Some i \<Longrightarrow> i < length s \<and> s ! i = c \<and> c \<notin> set (take i s)"
  by (induction s arbitrary: i) (auto split: if_splits)

lemma index_of_append: "c \<notin> set a \<Longrightarrow> index_of c (a @ c # b) = Some (length a)"
  by (induction a) auto

text \<open>Decimal rendering of non-negative numbers, as \<open>strconv.Itoa\<close> and \<open>%d\<close> print them.\<close>

definition digit_char :: "nat \<Rightarrow> char" where
  "digit_char d = char_of (48 + d)"

fun itoa :: "nat \<Rightarrow> string" where
  "itoa n = (if n < 10 then [digit_char n] else itoa (n div 10) @ [digit_char (n mod 10)])"

declare itoa.simps [simp del]

definition itoa_int :: "int \<Rightarrow> string" where
  "itoa_int i = (if i < 0 then CHR ''-'' # itoa (nat (- i)) else itoa (nat i))"

section \<open>Go maps\<close>

text \<open>
  A Go map is an association list with distinct keys.  The runtime ranges over a map in an
  unspecified order, so a loop over a map takes the entries in the order of its list argument,
  and a property of such a loop is stated for every list with the same entries
  (\<open>map_order\<close>).
\<close>

type_synonym ('k, 'v) gomap = "('k \<times> 'v) list"

definition gomap_ok :: "('k, 'v) gomap \<Rightarrow> bool" where
  "gomap_ok m \<longleftrightarrow> distinct (map fst m)"

definition map_order :: "('k, 'v) gomap \<Rightarrow> ('k, 'v) gomap \<Rightarrow> bool" where
  "map_order es m \<longleftrightarrow> mset es = mset m"

lemma gomap_ok_Nil [simp]: "gomap_ok []"
  by (simp add: gomap_ok_def)

lemma gomap_ok_update [simp]: "gomap_ok m \<Longrightarrow> gomap_ok (AList.update k v m)"
  by (simp add: gomap_ok_def distinct_update)

lemma gomap_ok_delete [simp]: "gomap_ok m \<Longrightarrow> gomap_ok (AList.delete k m)"
  by (simp add: gomap_ok_def distinct_delete)

lemma map_order_refl [simp]: "map_order m m"
  by (simp add: map_order_def)

lemma map_order_set: "map_order es m \<Longrightarrow> set es = set m"
  by (metis map_order_def set_mset_mset)

lemma map_order_length: "map_order es m \<Longrightarrow> length es = length m"
  by (metis map_order_def size_mset)

lemma map_order_ok: "map_order es m \<Longrightarrow> gomap_ok m \<Longrightarrow> gomap_ok es"
  by (metis (no_types) map_order_def gomap_ok_def mset_map mset_eq_imp_distinct_iff)

lemma map_order_map_of: "map_order es m \<Longrightarrow> gomap_ok m \<Longrightarrow> map_of es = map_of m"
proof
  fix k
  assume o: "map_order es m" and ok: "gomap_ok m"
  have d: "distinct (map fst es)" "distinct (map fst m)" "set es = set m"
    using map_order_ok [OF o ok] ok map_order_set [OF o] by (simp_all add: gomap_ok_def)
  show "map_of es k = map_of m k"
    using d by (metis map_of_eq_None_iff map_of_is_SomeI map_of_SomeD not_Some_eq)
qed

lemma keys_update: "fst ` set (AList.update k v m) = insert k (fst ` set m)"
  by (simp add: dom_update)

lemma keys_delete: "fst ` set (AList.delete k m) = fst ` set m - {k}"
  by (auto simp: AList.delete_eq)

lemma in_update:
  "gomap_ok m \<Longrightarrow> (j, w) \<in> set (AList.update k v m) \<Longrightarrow> j = k \<and> w = v \<or> j \<noteq> k \<and> (j, w) \<in> set m"
  by (induction m) (auto simp: gomap_ok_def image_iff split: if_splits)

text \<open>The elements of the lists a map holds, as a multiset, and how updates change them.\<close>

definition contents :: "('v \<Rightarrow> 'a list) \<Rightarrow> ('k, 'v) gomap \<Rightarrow> 'a multiset" where
  "contents f m = mset (concat (map (\<lambda>(k, v). f v) m))"

lemma contents_Nil [simp]: "contents f [] = {#}"
  by (simp add: contents_def)

lemma contents_Cons [simp]: "contents f ((k, v) # m) = mset (f v) + contents f m"
  by (simp add: contents_def)

lemma update_new: "map_of m k = None \<Longrightarrow> AList.update k v m = m @ [(k, v)]"
  by (induction m) auto

lemma contents_update_new:
  "map_of m k = None \<Longrightarrow> contents f (AList.update k v m) = contents f m + mset (f v)"
  by (simp add: update_new contents_def)

lemma contents_update:
  "map_of m k = Some v0 \<Longrightarrow>
     contents f (AList.update k v m) + mset (f v0) = contents f m + mset (f v)"
  by (induction m) (auto simp: ac_simps split: if_splits)

lemma contents_update_same:
  assumes "map_of m k = Some v0" and "f v = f v0"
  shows "contents f (AList.update k v m) = contents f m"
  using contents_update [OF assms(1), of f v] assms(2) by simp

lemma delete_missing: "map_of m k = None \<Longrightarrow> AList.delete k m = m"
  by (induction m) auto

lemma contents_delete:
  "gomap_ok m \<Longrightarrow> map_of m k = Some v0 \<Longrightarrow>
     contents f (AList.delete k m) + mset (f v0) = contents f m"
proof (induction m)
  case (Cons x m)
  obtain j v where x: "x = (j, v)" by (cases x)
  show ?case
  proof (cases "j = k")
    case True
    then have "map_of m k = None" using Cons.prems(1) x by (simp add: gomap_ok_def map_of_eq_None_iff)
    with True x Cons.prems(2) show ?thesis by (simp add: delete_missing ac_simps)
  next
    case False
    with Cons x show ?thesis by (simp add: gomap_ok_def ac_simps)
  qed
qed simp

section \<open>Reachable states\<close>

text \<open>
  A component with interleaved operations is given by its initial states and a labelled step
  relation; an invariant that holds initially and is kept by every step holds in every reachable
  state.
\<close>

inductive reach :: "('s \<Rightarrow> bool) \<Rightarrow> ('s \<Rightarrow> 'e \<Rightarrow> 's \<Rightarrow> bool) \<Rightarrow> 's \<Rightarrow> bool"
  for init and trans where
  reach_init: "init s \<Longrightarrow> reach init trans s"
| reach_step: "reach init trans s \<Longrightarrow> trans s e t \<Longrightarrow> reach init trans t"

locale step_invariant =
  fixes init :: "'s \<Rightarrow> bool"
    and trans :: "'s \<Rightarrow> 'e \<Rightarrow> 's \<Rightarrow> bool"
    and inv :: "'s \<Rightarrow> bool"
  assumes inv_init: "init s \<Longrightarrow> inv s"
    and inv_step: "trans s e t \<Longrightarrow> inv s \<Longrightarrow> inv t"
begin

lemma reach_inv: "reach init trans s \<Longrightarrow> inv s"
  by (induction rule: reach.induct) (auto intro: inv_init inv_step)

lemma reach_from_inv:
  assumes "reach init trans s" and "\<And>s. inv s \<Longrightarrow> P s"
  shows "P s"
  using assms by (auto intro: reach_inv)

end

end
