(* ===== verification/Kube_Types.thy ===== *)
theory Kube_Types
  imports Prelude
begin

text \<open>
  The fields of the Kubernetes API objects that the sources read or write.  The objects are plain
  data; what the API server does with them is never assumed here.
\<close>

record env_var =
  ev_Name :: string
  ev_Value :: string
  ev_FieldPath :: "string option"

record container_port =
  cp_Name :: string
  cp_ContainerPort :: int
  cp_Protocol :: string

record volume_mount =
  vm_Name :: string
  vm_ReadOnly :: bool
  vm_MountPath :: string
  vm_SubPath :: string

record container =
  c_Name :: string
  c_Image :: string
  c_Command :: "string list option"
  c_Args :: "string list option"
  c_Env :: "env_var list"
  c_Ports :: "container_port list"
  c_VolumeMounts :: "volume_mount list"
  c_Privileged :: "bool option"

record object_meta =
  om_Name :: string
  om_Namespace :: string
  om_Labels :: "(string, string) gomap"
  om_Annotations :: "(string, string) gomap"
  om_Owners :: "string list"

definition empty_container :: container where
  "empty_container = \<lparr>c_Name = [], c_Image = [], c_Command = None, c_Args = None, c_Env = [],
     c_Ports = [], c_VolumeMounts = [], c_Privileged = None\<rparr>"

record service_port =
  sp_Name :: string
  sp_Protocol :: string
  sp_Port :: int
  sp_TargetPort :: string
  sp_NodePort :: int

record service_spec =
  ss_Type :: string
  ss_ClusterIP :: string
  ss_PublishNotReadyAddresses :: bool
  ss_Selector :: "(string, string) gomap"
  ss_Ports :: "service_port list"

record service =
  sv_Meta :: object_meta
  sv_Spec :: service_spec

record policy_rule =
  pr_Verbs :: "string list option"
  pr_APIGroups :: "string list option"
  pr_Resources :: "string list option"
  pr_ResourceNames :: "string list option"
  pr_NonResourceURLs :: "string list option"

record role =
  ro_Meta :: object_meta
  ro_Rules :: "policy_rule list"

record rbac_subject =
  su_APIGroup :: string
  su_Kind :: string
  su_Name :: string
  su_Namespace :: string

record role_ref =
  rr_APIGroup :: string
  rr_Kind :: string
  rr_Name :: string

record role_binding =
  rb_Meta :: object_meta
  rb_Subjects :: "rbac_subject list"
  rb_RoleRef :: role_ref

record config_map =
  cm_Meta :: object_meta
  cm_Data :: "(string, string) gomap"
  cm_BinaryData :: "(string, nat list) gomap"

record service_account =
  sa_Meta :: object_meta
  sa_Secrets :: "string list"
  sa_ImagePullSecrets :: "string list"
  sa_AutomountServiceAccountToken :: "bool option"

text \<open>Volumes of a pod; a host path is a directory that is made when it is not there.\<close>

datatype volume_source =
    VS_PersistentVolumeClaim string bool
  | VS_HostPath string
  | VS_ConfigMap string "int option"

record volume =
  vol_Name :: string
  vol_Source :: volume_source

record pod_spec =
  pod_InitContainers :: "container list"
  pod_Containers :: "container list"
  pod_ServiceAccountName :: string
  pod_RestartPolicy :: string
  pod_Volumes :: "volume list"

record pod_template =
  pt_Meta :: object_meta
  pt_Spec :: pod_spec

text \<open>Stateful sets and daemon sets, of which the sources compare the pod template only.\<close>

record workload_spec =
  ws_Template :: pod_template
  ws_ServiceName :: string
  ws_Replicas :: "int option"
  ws_Selector :: "(string, string) gomap"

record workload =
  wl_Meta :: object_meta
  wl_Spec :: workload_spec

text \<open>
  Persistent volumes; the source is a flex volume with its driver, its secret (name and namespace)
  and its options, or the opaque text of another definition.
\<close>

datatype pv_source =
    FlexVolume string string string "(string, string) gomap"
  | OtherVolume string

record pv_spec =
  pv_AccessModes :: "string list"
  pv_Source :: pv_source
  pv_Capacity :: string
  pv_StorageClassName :: string

record persistent_volume =
  pv_Meta :: object_meta
  pv_Spec :: pv_spec

record pvc_spec =
  pvc_AccessModes :: "string list"
  pvc_VolumeName :: string
  pvc_StorageClassName :: "string option"
  pvc_Requests :: string

record pv_claim =
  pvc_Meta :: object_meta
  pvc_Spec :: pvc_spec

text \<open>Contour ingress routes.\<close>

record contour_tls =
  tls_SecretName :: string
  tls_MinimumProtocolVersion :: string

record virtual_host =
  vh_Fqdn :: string
  vh_TLS :: "contour_tls option"

record contour_service =
  cs_Name :: string
  cs_Port :: int
  cs_Weight :: int
  cs_Strategy :: string

record contour_route =
  cr_Match :: string
  cr_EnableWebsockets :: bool
  cr_PermitInsecure :: bool
  cr_PrefixRewrite :: string
  cr_Services :: "contour_service list"

record ingress_route_spec =
  ir_VirtualHost :: "virtual_host option"
  ir_Routes :: "contour_route list"

record ingress_route =
  ir_Meta :: object_meta
  ir_Spec :: ingress_route_spec

end
