(* ===== verification/Koalja_API.thy ===== *)
theory Koalja_API
  imports Kube_Types
begin

text \<open>
  The pipeline specification of \<open>pkg/apis/koalja/v1alpha1\<close>: pipelines, tasks, task inputs and
  outputs, links and types, with the lookups the agents use and the validation the controller runs
  before it creates any resource.  Every \<open>Validate\<close> returns its first error, as the code does.
\<close>

section \<open>Data\<close>

record TaskInputSpec =
  tis_Name :: string
  tis_TypeRef :: string
  tis_RequiredSequenceLength :: "int option"
  tis_MinSequenceLength :: "int option"
  tis_MaxSequenceLength :: "int option"
  tis_Slide :: "int option"
  tis_MergeInto :: string

record TaskOutputSpec =
  tos_Name :: string
  tos_TypeRef :: string
  tos_Ready :: string
  tos_Options :: "(string, string) gomap"

record ServicePortSpec =
  sps_Name :: string
  sps_Port :: int
  sps_LocalPort :: int

record ServiceSpec =
  svc_Ports :: "ServicePortSpec list"

record TaskSpec =
  ts_Name :: string
  ts_Type :: string
  ts_Inputs :: "TaskInputSpec list"
  ts_Outputs :: "TaskOutputSpec list"
  ts_Executor :: "container option"
  ts_SnapshotPolicy :: string
  ts_LaunchPolicy :: string
  ts_Service :: "ServiceSpec option"

record LinkSpec =
  lk_Name :: string
  lk_SourceRef :: string
  lk_DestinationRef :: string

record TypeSpec =
  ty_Name :: string
  ty_Protocol :: string
  ty_Format :: string

record PipelineSpec =
  ps_Tasks :: "TaskSpec list"
  ps_Links :: "LinkSpec list"
  ps_Types :: "TypeSpec list"

record PipelineStatus =
  pst_Domain :: string
  pst_Revision :: string

record Pipeline =
  pl_Name :: string
  pl_Namespace :: string
  pl_Labels :: "(string, string) gomap"
  pl_Spec :: PipelineSpec
  pl_Status :: PipelineStatus

text \<open>One constructor per message built with \<open>errors.Wrapf(ErrValidation, ...)\<close>.\<close>

datatype validation_error =
    VE_NameExpected
  | VE_InvalidName string
  | VE_TypeRefExpected
  | VE_MinSequenceLength
  | VE_MaxSequenceLength
  | VE_MinMustBeOne
  | VE_MaxMustBeOne
  | VE_MaxMustBeMin
  | VE_SlideTooSmall
  | VE_SlideTooLarge
  | VE_TypeRefNotFound string
  | VE_MergeIntoNotFound string
  | VE_MergeIntoChained string
  | VE_MergeIntoOtherType string
  | VE_MergeIntoSelf string
  | VE_InvalidOutputReadiness string
  | VE_InvalidLaunchPolicy string
  | VE_InvalidSnapshotPolicy string
  | VE_ExecutorOrTypeExpected string
  | VE_NoInputsOrOutputs string
  | VE_DuplicateInput string string
  | VE_DuplicateOutput string string
  | VE_ExecutorImage string
  | VE_PortRange int
  | VE_LocalPortRange int
  | VE_NoPorts
  | VE_SourceRefExpected string
  | VE_DestinationRefExpected string
  | VE_TaskRefFormat string
  | VE_TaskRefNoName string
  | VE_TaskRefNoIO string

section \<open>Names and references\<close>

definition is_name_start :: "char \<Rightarrow> bool" where
  "is_name_start c \<longleftrightarrow>
     (let n = (of_char c :: nat) in (97 \<le> n \<and> n \<le> 122) \<or> (65 \<le> n \<and> n \<le> 90))"

definition is_name_char :: "char \<Rightarrow> bool" where
  "is_name_char c \<longleftrightarrow>
     is_name_start c \<or> c = CHR ''_'' \<or> (let n = (of_char c :: nat) in 48 \<le> n \<and> n \<le> 57)"

text \<open>
  \<open>namePattern\<close> is the regular expression \<open>[a-zA-Z][a-zA-Z_0-9]*\<close>.  \<open>name_match_at\<close> is its
  leftmost-longest match at the start of a string; \<open>MatchString\<close>, as in Go's \<open>regexp\<close>, looks for
  a match at any position because the expression has no anchors.
\<close>

fun name_match_at :: "string \<Rightarrow> string option" where
  "name_match_at [] = None"
| "name_match_at (c # cs) =
     (if is_name_start c then Some (c # takeWhile is_name_char cs) else None)"

fun namePattern_MatchString :: "string \<Rightarrow> bool" where
  "namePattern_MatchString [] = (name_match_at [] \<noteq> None)"
| "namePattern_MatchString (c # cs) =
     (name_match_at (c # cs) \<noteq> None \<or> namePattern_MatchString cs)"

definition ValidateName :: "string \<Rightarrow> validation_error error_only" where
  "ValidateName name =
     (if name = [] then Some VE_NameExpected
      else if \<not> namePattern_MatchString name then Some (VE_InvalidName name)
      else None)"

definition SplitTaskRef :: "string \<Rightarrow> (validation_error, string \<times> string) go_result" where
  "SplitTaskRef ref =
     (let parts = split_on (CHR ''/'') ref in
      if length parts \<noteq> 2 then Inl (VE_TaskRefFormat ref)
      else if length (parts ! 0) = 0 then Inl (VE_TaskRefNoName ref)
      else if length (parts ! 1) = 0 then Inl (VE_TaskRefNoIO ref)
      else Inr (parts ! 0, parts ! 1))"

section \<open>Lookups\<close>

definition Int64OrDefault :: "int option \<Rightarrow> int \<Rightarrow> int" where
  "Int64OrDefault valueRef defaultValue =
     (case valueRef of None \<Rightarrow> defaultValue | Some v \<Rightarrow> v)"

definition StringOrDefault :: "string option \<Rightarrow> string \<Rightarrow> string" where
  "StringOrDefault valueRef defaultValue =
     (case valueRef of None \<Rightarrow> defaultValue | Some v \<Rightarrow> v)"

definition GetMinSequenceLength :: "TaskInputSpec \<Rightarrow> int" where
  "GetMinSequenceLength tis =
     (case tis_RequiredSequenceLength tis of
        Some r \<Rightarrow> r
      | None \<Rightarrow> Int64OrDefault (tis_MinSequenceLength tis) 1)"

definition GetMaxSequenceLength :: "TaskInputSpec \<Rightarrow> int" where
  "GetMaxSequenceLength tis =
     (case tis_RequiredSequenceLength tis of
        Some r \<Rightarrow> r
      | None \<Rightarrow> Int64OrDefault (tis_MaxSequenceLength tis) (GetMinSequenceLength tis))"

definition GetSlide :: "TaskInputSpec \<Rightarrow> int" where
  "GetSlide tis = Int64OrDefault (tis_Slide tis) 1"

definition HasMergeInto :: "TaskInputSpec \<Rightarrow> bool" where
  "HasMergeInto tis \<longleftrightarrow> tis_MergeInto tis \<noteq> []"

definition TaskByName :: "PipelineSpec \<Rightarrow> string \<Rightarrow> TaskSpec option" where
  "TaskByName ps name = find (\<lambda>x. ts_Name x = name) (ps_Tasks ps)"

definition LinkByName :: "PipelineSpec \<Rightarrow> string \<Rightarrow> LinkSpec option" where
  "LinkByName ps name = find (\<lambda>x. lk_Name x = name) (ps_Links ps)"

definition LinksBySourceRef :: "PipelineSpec \<Rightarrow> string \<Rightarrow> LinkSpec list" where
  "LinksBySourceRef ps ref = filter (\<lambda>x. lk_SourceRef x = ref) (ps_Links ps)"

definition LinkByDestinationRef :: "PipelineSpec \<Rightarrow> string \<Rightarrow> LinkSpec option" where
  "LinkByDestinationRef ps ref = find (\<lambda>x. lk_DestinationRef x = ref) (ps_Links ps)"

definition TypeByName :: "PipelineSpec \<Rightarrow> string \<Rightarrow> TypeSpec option" where
  "TypeByName ps name = find (\<lambda>x. ty_Name x = name) (ps_Types ps)"

definition InputByName :: "TaskSpec \<Rightarrow> string \<Rightarrow> TaskInputSpec option" where
  "InputByName ts name = find (\<lambda>x. tis_Name x = name) (ts_Inputs ts)"

definition OutputByName :: "TaskSpec \<Rightarrow> string \<Rightarrow> TaskOutputSpec option" where
  "OutputByName ts name = find (\<lambda>x. tos_Name x = name) (ts_Outputs ts)"

definition SnapshotInputs :: "TaskSpec \<Rightarrow> TaskInputSpec list" where
  "SnapshotInputs ts = filter (\<lambda>i. \<not> HasMergeInto i) (ts_Inputs ts)"

section \<open>Policies\<close>

definition SnapshotPolicySwapNew4Old :: string where
  "SnapshotPolicySwapNew4Old = ''SwapNew4Old''"
definition SnapshotPolicyAllNew :: string where
  "SnapshotPolicyAllNew = ''AllNew''"
definition SnapshotPolicySlidingWindow :: string where
  "SnapshotPolicySlidingWindow = ''SlidingWindow''"
definition LaunchPolicyAuto :: string where
  "LaunchPolicyAuto = ''Auto''"
definition LaunchPolicyCustom :: string where
  "LaunchPolicyCustom = ''Custom''"
definition LaunchPolicyRestart :: string where
  "LaunchPolicyRestart = ''Restart''"
definition OutputReadyAuto :: string where
  "OutputReadyAuto = ''Auto''"
definition OutputReadySucceeded :: string where
  "OutputReadySucceeded = ''Succeeded''"

lemmas policy_names =
  SnapshotPolicySwapNew4Old_def SnapshotPolicyAllNew_def SnapshotPolicySlidingWindow_def
  LaunchPolicyAuto_def LaunchPolicyCustom_def LaunchPolicyRestart_def
  OutputReadyAuto_def OutputReadySucceeded_def

definition IsSwapNew4Old :: "string \<Rightarrow> bool" where
  "IsSwapNew4Old sp \<longleftrightarrow> sp = SnapshotPolicySwapNew4Old"

definition IsAllNew :: "string \<Rightarrow> bool" where
  "IsAllNew sp \<longleftrightarrow> sp = SnapshotPolicyAllNew \<or> sp = []"

definition IsSlidingWindow :: "string \<Rightarrow> bool" where
  "IsSlidingWindow sp \<longleftrightarrow> sp = SnapshotPolicySlidingWindow"

definition IsAuto :: "string \<Rightarrow> bool" where
  "IsAuto ready \<longleftrightarrow> ready = OutputReadyAuto"

definition IsSucceeded :: "string \<Rightarrow> bool" where
  "IsSucceeded ready \<longleftrightarrow> ready = OutputReadySucceeded \<or> ready = []"

definition OutputReadiness_Validate :: "string \<Rightarrow> validation_error error_only" where
  "OutputReadiness_Validate ready =
     (if ready = OutputReadyAuto \<or> ready = OutputReadySucceeded \<or> ready = [] then None
      else Some (VE_InvalidOutputReadiness ready))"

definition LaunchPolicy_Validate :: "string \<Rightarrow> validation_error error_only" where
  "LaunchPolicy_Validate lp =
     (if lp = LaunchPolicyAuto \<or> lp = LaunchPolicyCustom \<or> lp = LaunchPolicyRestart \<or> lp = []
      then None else Some (VE_InvalidLaunchPolicy lp))"

definition SnapshotPolicy_Validate :: "string \<Rightarrow> validation_error error_only" where
  "SnapshotPolicy_Validate sp =
     (if sp = SnapshotPolicySwapNew4Old \<or> sp = SnapshotPolicyAllNew
         \<or> sp = SnapshotPolicySlidingWindow \<or> sp = []
      then None else Some (VE_InvalidSnapshotPolicy sp))"

definition HasLaunchPolicyAuto :: "TaskSpec \<Rightarrow> bool" where
  "HasLaunchPolicyAuto ts \<longleftrightarrow>
     (if ts_LaunchPolicy ts = [] then length (ts_Inputs ts) > 0
      else ts_LaunchPolicy ts = LaunchPolicyAuto)"

definition HasLaunchPolicyCustom :: "TaskSpec \<Rightarrow> bool" where
  "HasLaunchPolicyCustom ts \<longleftrightarrow>
     (if ts_LaunchPolicy ts = [] then length (ts_Inputs ts) = 0
      else ts_LaunchPolicy ts = LaunchPolicyCustom)"

definition HasLaunchPolicyRestart :: "TaskSpec \<Rightarrow> bool" where
  "HasLaunchPolicyRestart ts \<longleftrightarrow> ts_LaunchPolicy ts = LaunchPolicyRestart"

section \<open>Validation\<close>

definition ServicePortSpec_Validate :: "ServicePortSpec \<Rightarrow> validation_error error_only" where
  "ServicePortSpec_Validate sps =
     (case ValidateName (sps_Name sps) of Some e \<Rightarrow> Some e | None \<Rightarrow>
      if sps_Port sps < 1 \<or> sps_Port sps > 32 * 1024 then Some (VE_PortRange (sps_Port sps))
      else if sps_LocalPort sps < 0 \<or> sps_LocalPort sps > 32 * 1024
        then Some (VE_LocalPortRange (sps_LocalPort sps))
      else None)"

definition NeedsProxy :: "ServicePortSpec \<Rightarrow> bool" where
  "NeedsProxy sps \<longleftrightarrow> sps_LocalPort sps > 0 \<and> sps_LocalPort sps \<noteq> sps_Port sps"

definition ServiceSpec_Validate :: "ServiceSpec \<Rightarrow> validation_error error_only" where
  "ServiceSpec_Validate s =
     (case first_error ServicePortSpec_Validate (svc_Ports s) of Some e \<Rightarrow> Some e | None \<Rightarrow>
      if length (svc_Ports s) = 0 then Some VE_NoPorts else None)"

definition TypeSpec_Validate :: "TypeSpec \<Rightarrow> PipelineSpec \<Rightarrow> validation_error error_only" where
  "TypeSpec_Validate ts ps = ValidateName (ty_Name ts)"

definition LinkSpec_Validate :: "LinkSpec \<Rightarrow> PipelineSpec \<Rightarrow> validation_error error_only" where
  "LinkSpec_Validate ls ps =
     (case ValidateName (lk_Name ls) of Some e \<Rightarrow> Some e | None \<Rightarrow>
      (case (if lk_SourceRef ls = [] then Some (VE_SourceRefExpected (lk_Name ls))
             else case SplitTaskRef (lk_SourceRef ls) of Inl e \<Rightarrow> Some e | Inr _ \<Rightarrow> None) of
         Some e \<Rightarrow> Some e
       | None \<Rightarrow>
         (if lk_DestinationRef ls = [] then Some (VE_DestinationRefExpected (lk_Name ls))
          else case SplitTaskRef (lk_DestinationRef ls) of Inl e \<Rightarrow> Some e | Inr _ \<Rightarrow> None)))"

text \<open>The \<open>switch ts.SnapshotPolicy\<close> of the input's validation; other policies have no case.\<close>

definition policy_bounds_check :: "string \<Rightarrow> TaskInputSpec \<Rightarrow> validation_error error_only" where
  "policy_bounds_check sp tis =
     (if sp = SnapshotPolicyAllNew then None
      else if sp = SnapshotPolicySwapNew4Old then
        (if GetMinSequenceLength tis \<noteq> 1 then Some VE_MinMustBeOne
         else if GetMaxSequenceLength tis \<noteq> 1 then Some VE_MaxMustBeOne
         else None)
      else if sp = SnapshotPolicySlidingWindow then
        (if GetMinSequenceLength tis \<noteq> GetMaxSequenceLength tis then Some VE_MaxMustBeMin
         else None)
      else None)"

definition merge_into_check :: "TaskInputSpec \<Rightarrow> TaskSpec \<Rightarrow> validation_error error_only" where
  "merge_into_check tis ts =
     (if HasMergeInto tis then
        (case InputByName ts (tis_MergeInto tis) of
           None \<Rightarrow> Some (VE_MergeIntoNotFound (tis_MergeInto tis))
         | Some mergeInto \<Rightarrow>
             if HasMergeInto mergeInto then Some (VE_MergeIntoChained (tis_MergeInto tis))
             else if tis_TypeRef tis \<noteq> tis_TypeRef mergeInto
               then Some (VE_MergeIntoOtherType (tis_MergeInto tis))
             else if tis_MergeInto tis = tis_Name tis
               then Some (VE_MergeIntoSelf (tis_MergeInto tis))
             else None)
      else None)"

definition TaskInputSpec_Validate ::
  "TaskInputSpec \<Rightarrow> PipelineSpec \<Rightarrow> TaskSpec \<Rightarrow> validation_error error_only" where
  "TaskInputSpec_Validate tis ps ts =
     (case ValidateName (tis_Name tis) of Some e \<Rightarrow> Some e | None \<Rightarrow>
      if tis_TypeRef tis = [] then Some VE_TypeRefExpected
      else if GetMinSequenceLength tis < 1 then Some VE_MinSequenceLength
      else if GetMaxSequenceLength tis < GetMinSequenceLength tis then Some VE_MaxSequenceLength
      else (case policy_bounds_check (ts_SnapshotPolicy ts) tis of Some e \<Rightarrow> Some e | None \<Rightarrow>
        if GetSlide tis < 1 then Some VE_SlideTooSmall
        else if GetSlide tis > GetMinSequenceLength tis then Some VE_SlideTooLarge
        else (case TypeByName ps (tis_TypeRef tis) of
            None \<Rightarrow> Some (VE_TypeRefNotFound (tis_TypeRef tis))
          | Some _ \<Rightarrow> merge_into_check tis ts)))"

definition TaskOutputSpec_Validate ::
  "TaskOutputSpec \<Rightarrow> PipelineSpec \<Rightarrow> validation_error error_only" where
  "TaskOutputSpec_Validate tos ps =
     (case ValidateName (tos_Name tos) of Some e \<Rightarrow> Some e | None \<Rightarrow>
      if tos_TypeRef tos = [] then Some VE_TypeRefExpected
      else (case TypeByName ps (tos_TypeRef tos) of
          None \<Rightarrow> Some (VE_TypeRefNotFound (tos_TypeRef tos))
        | Some _ \<Rightarrow> OutputReadiness_Validate (tos_Ready tos)))"

text \<open>
  The two loops over \<open>ts.Inputs\<close> and \<open>ts.Outputs\<close>, with the set of names already seen
  (the Go map \<open>names\<close>).
\<close>

fun validate_inputs ::
  "PipelineSpec \<Rightarrow> TaskSpec \<Rightarrow> string set \<Rightarrow> TaskInputSpec list \<Rightarrow> validation_error error_only" where
  "validate_inputs ps ts names [] = None"
| "validate_inputs ps ts names (x # xs) =
     (if tis_Name x \<in> names then Some (VE_DuplicateInput (tis_Name x) (ts_Name ts))
      else (case TaskInputSpec_Validate x ps ts of
          Some e \<Rightarrow> Some e
        | None \<Rightarrow> validate_inputs ps ts (insert (tis_Name x) names) xs))"

fun validate_outputs ::
  "PipelineSpec \<Rightarrow> TaskSpec \<Rightarrow> string set \<Rightarrow> TaskOutputSpec list \<Rightarrow> validation_error error_only" where
  "validate_outputs ps ts names [] = None"
| "validate_outputs ps ts names (x # xs) =
     (if tos_Name x \<in> names then Some (VE_DuplicateOutput (tos_Name x) (ts_Name ts))
      else (case TaskOutputSpec_Validate x ps of
          Some e \<Rightarrow> Some e
        | None \<Rightarrow> validate_outputs ps ts (insert (tos_Name x) names) xs))"

definition TaskSpec_Validate :: "TaskSpec \<Rightarrow> PipelineSpec \<Rightarrow> validation_error error_only" where
  "TaskSpec_Validate ts ps =
     (case ValidateName (ts_Name ts) of Some e \<Rightarrow> Some e | None \<Rightarrow>
      if ts_Executor ts = None \<and> ts_Type ts = [] then Some (VE_ExecutorOrTypeExpected (ts_Name ts))
      else if length (ts_Inputs ts) = 0 \<and> length (ts_Outputs ts) = 0
        then Some (VE_NoInputsOrOutputs (ts_Name ts))
      else (case SnapshotPolicy_Validate (ts_SnapshotPolicy ts) of Some e \<Rightarrow> Some e | None \<Rightarrow>
        (case LaunchPolicy_Validate (ts_LaunchPolicy ts) of Some e \<Rightarrow> Some e | None \<Rightarrow>
        (case validate_inputs ps ts {} (ts_Inputs ts) of Some e \<Rightarrow> Some e | None \<Rightarrow>
        (case validate_outputs ps ts {} (ts_Outputs ts) of Some e \<Rightarrow> Some e | None \<Rightarrow>
        (case (case ts_Executor ts of
                 None \<Rightarrow> None
               | Some c \<Rightarrow> if c_Image c = [] then Some (VE_ExecutorImage (ts_Name ts)) else None) of
           Some e \<Rightarrow> Some e
         | None \<Rightarrow>
           (case ts_Service ts of None \<Rightarrow> None | Some svc \<Rightarrow> ServiceSpec_Validate svc)))))))"

definition PipelineSpec_Validate :: "PipelineSpec \<Rightarrow> validation_error error_only" where
  "PipelineSpec_Validate ps =
     (case first_error (\<lambda>x. TaskSpec_Validate x ps) (ps_Tasks ps) of Some e \<Rightarrow> Some e | None \<Rightarrow>
     (case first_error (\<lambda>x. LinkSpec_Validate x ps) (ps_Links ps) of Some e \<Rightarrow> Some e | None \<Rightarrow>
      first_error (\<lambda>x. TypeSpec_Validate x ps) (ps_Types ps)))"

section \<open>Names and references: lemmas\<close>

lemma name_match_at_not_None: "name_match_at s \<noteq> None \<longleftrightarrow> (\<exists>c cs. s = c # cs \<and> is_name_start c)"
  by (cases s) auto

lemma namePattern_letter: "namePattern_MatchString s \<longleftrightarrow> (\<exists>c \<in> set s. is_name_start c)"
  by (induction s) auto

lemma ValidateName_None: "ValidateName s = None \<longleftrightarrow> (\<exists>c \<in> set s. is_name_start c)"
  by (auto simp: ValidateName_def namePattern_letter)

lemma split_on_two:
  "split_on c s = [a, b] \<longleftrightarrow> s = a @ c # b \<and> c \<notin> set a \<and> c \<notin> set b"
proof
  assume sp: "split_on c s = [a, b]"
  have "join_with [c] [a, b] = s" using join_split [of c s] sp by simp
  moreover have "c \<notin> set a" "c \<notin> set b"
    using split_on_parts [of _ c s] sp by auto
  ultimately show "s = a @ c # b \<and> c \<notin> set a \<and> c \<notin> set b" by simp
next
  assume "s = a @ c # b \<and> c \<notin> set a \<and> c \<notin> set b"
  then show "split_on c s = [a, b]" by (simp add: split_on_append_sep split_on_no_sep)
qed

lemma length_two: "length xs = 2 \<longleftrightarrow> (\<exists>a b. xs = [a, b])"
  by (auto simp: length_Suc_conv numeral_2_eq_2)

lemma SplitTaskRef_parts:
  "SplitTaskRef ref = Inr (t, io) \<longleftrightarrow> split_on (CHR ''/'') ref = [t, io] \<and> t \<noteq> [] \<and> io \<noteq> []"
  by (auto simp: SplitTaskRef_def Let_def length_two)

lemma SplitTaskRef_Inr:
  "SplitTaskRef ref = Inr (t, io) \<longleftrightarrow>
     ref = t @ CHR ''/'' # io \<and> t \<noteq> [] \<and> io \<noteq> [] \<and> CHR ''/'' \<notin> set t \<and> CHR ''/'' \<notin> set io"
  by (auto simp: SplitTaskRef_parts split_on_two)

section \<open>Well-formed pipelines\<close>

text \<open>
  What a pipeline has to satisfy, stated without reference to the order of the checks: the
  names, the references, the sequence bounds an input loop relies on, and the merge relation
  between inputs.
\<close>

definition name_ok :: "string \<Rightarrow> bool" where
  "name_ok s \<longleftrightarrow> (\<exists>c \<in> set s. is_name_start c)"

definition ref_ok :: "string \<Rightarrow> bool" where
  "ref_ok ref \<longleftrightarrow> (\<exists>t io. SplitTaskRef ref = Inr (t, io))"

definition sequence_ok :: "string \<Rightarrow> TaskInputSpec \<Rightarrow> bool" where
  "sequence_ok policy tis \<longleftrightarrow>
     1 \<le> GetSlide tis \<and> GetSlide tis \<le> GetMinSequenceLength tis
     \<and> GetMinSequenceLength tis \<le> GetMaxSequenceLength tis
     \<and> (IsSwapNew4Old policy \<longrightarrow> GetMaxSequenceLength tis = 1)
     \<and> (IsSlidingWindow policy \<longrightarrow> GetMinSequenceLength tis = GetMaxSequenceLength tis)"

definition merge_ok :: "TaskSpec \<Rightarrow> TaskInputSpec \<Rightarrow> bool" where
  "merge_ok ts tis \<longleftrightarrow>
     (HasMergeInto tis \<longrightarrow>
       tis_MergeInto tis \<noteq> tis_Name tis
       \<and> (\<exists>m. InputByName ts (tis_MergeInto tis) = Some m
              \<and> m \<in> set (SnapshotInputs ts) \<and> tis_TypeRef m = tis_TypeRef tis))"

definition input_ok :: "PipelineSpec \<Rightarrow> TaskSpec \<Rightarrow> TaskInputSpec \<Rightarrow> bool" where
  "input_ok ps ts tis \<longleftrightarrow>
     name_ok (tis_Name tis) \<and> tis_TypeRef tis \<noteq> []
     \<and> sequence_ok (ts_SnapshotPolicy ts) tis
     \<and> tis_TypeRef tis \<in> ty_Name ` set (ps_Types ps)
     \<and> merge_ok ts tis"

definition output_ok :: "PipelineSpec \<Rightarrow> TaskOutputSpec \<Rightarrow> bool" where
  "output_ok ps tos \<longleftrightarrow>
     name_ok (tos_Name tos) \<and> tos_TypeRef tos \<noteq> []
     \<and> tos_TypeRef tos \<in> ty_Name ` set (ps_Types ps)
     \<and> (IsAuto (tos_Ready tos) \<or> IsSucceeded (tos_Ready tos))"

definition port_ok :: "ServicePortSpec \<Rightarrow> bool" where
  "port_ok p \<longleftrightarrow> name_ok (sps_Name p) \<and> sps_Port p \<in> {1..32768} \<and> sps_LocalPort p \<in> {0..32768}"

definition task_ok :: "PipelineSpec \<Rightarrow> TaskSpec \<Rightarrow> bool" where
  "task_ok ps ts \<longleftrightarrow>
     name_ok (ts_Name ts)
     \<and> (ts_Executor ts \<noteq> None \<or> ts_Type ts \<noteq> [])
     \<and> (ts_Inputs ts \<noteq> [] \<or> ts_Outputs ts \<noteq> [])
     \<and> (IsAllNew (ts_SnapshotPolicy ts) \<or> IsSwapNew4Old (ts_SnapshotPolicy ts)
        \<or> IsSlidingWindow (ts_SnapshotPolicy ts))
     \<and> ts_LaunchPolicy ts \<in> {LaunchPolicyAuto, LaunchPolicyCustom, LaunchPolicyRestart, []}
     \<and> distinct (map tis_Name (ts_Inputs ts)) \<and> list_all (input_ok ps ts) (ts_Inputs ts)
     \<and> distinct (map tos_Name (ts_Outputs ts)) \<and> list_all (output_ok ps) (ts_Outputs ts)
     \<and> (\<forall>c. ts_Executor ts = Some c \<longrightarrow> c_Image c \<noteq> [])
     \<and> (\<forall>s. ts_Service ts = Some s \<longrightarrow> svc_Ports s \<noteq> [] \<and> list_all port_ok (svc_Ports s))"

definition link_ok :: "LinkSpec \<Rightarrow> bool" where
  "link_ok l \<longleftrightarrow> name_ok (lk_Name l) \<and> ref_ok (lk_SourceRef l) \<and> ref_ok (lk_DestinationRef l)"

definition pipeline_ok :: "PipelineSpec \<Rightarrow> bool" where
  "pipeline_ok ps \<longleftrightarrow>
     list_all (task_ok ps) (ps_Tasks ps) \<and> list_all link_ok (ps_Links ps)
     \<and> list_all (\<lambda>t. name_ok (ty_Name t)) (ps_Types ps)"

section \<open>Validation decides well-formedness\<close>

lemma name_valid: "ValidateName s = None \<longleftrightarrow> name_ok s"
  by (simp add: ValidateName_None name_ok_def)

lemma find_name_None [simp]: "find (\<lambda>x. f x = n) xs = None \<longleftrightarrow> n \<notin> f ` set xs"
  by (auto simp: find_None_iff)

lemma find_name_Some: "find (\<lambda>x. f x = n) xs = Some x \<Longrightarrow> x \<in> set xs \<and> f x = n"
  by (rule find_SomeD)

lemma type_found: "(\<exists>t. TypeByName ps n = Some t) \<longleftrightarrow> n \<in> ty_Name ` set (ps_Types ps)"
  by (simp add: TypeByName_def not_None_eq [symmetric] del: not_None_eq)

lemma policy_bounds_valid:
  assumes "GetMinSequenceLength tis \<ge> 1"
    and "GetMaxSequenceLength tis \<ge> GetMinSequenceLength tis"
  shows "policy_bounds_check sp tis = None \<longleftrightarrow>
     (IsSwapNew4Old sp \<longrightarrow> GetMaxSequenceLength tis = 1)
     \<and> (IsSlidingWindow sp \<longrightarrow> GetMinSequenceLength tis = GetMaxSequenceLength tis)"
  using assms
  by (auto simp: policy_bounds_check_def IsSwapNew4Old_def IsSlidingWindow_def policy_names)

lemma merge_valid: "merge_into_check tis ts = None \<longleftrightarrow> merge_ok ts tis"
proof (cases "HasMergeInto tis")
  case True
  show ?thesis
  proof (cases "InputByName ts (tis_MergeInto tis)")
    case None
    with True show ?thesis by (simp add: merge_into_check_def merge_ok_def)
  next
    case (Some m)
    then have "m \<in> set (ts_Inputs ts)" by (auto simp: InputByName_def dest: find_name_Some)
    with True Some show ?thesis
      by (auto simp: merge_into_check_def merge_ok_def SnapshotInputs_def)
  qed
qed (simp add: merge_into_check_def merge_ok_def)

lemma input_valid: "TaskInputSpec_Validate tis ps ts = None \<longleftrightarrow> input_ok ps ts tis"
proof (cases "GetMinSequenceLength tis \<ge> 1 \<and> GetMaxSequenceLength tis \<ge> GetMinSequenceLength tis")
  case True
  then show ?thesis
    by (auto simp: TaskInputSpec_Validate_def input_ok_def sequence_ok_def name_valid
        policy_bounds_valid merge_valid type_found)
qed (auto simp: TaskInputSpec_Validate_def input_ok_def sequence_ok_def)

lemma output_valid: "TaskOutputSpec_Validate tos ps = None \<longleftrightarrow> output_ok ps tos"
  by (auto simp: TaskOutputSpec_Validate_def output_ok_def name_valid type_found
      OutputReadiness_Validate_def IsAuto_def IsSucceeded_def)

lemma inputs_valid:
  "validate_inputs ps ts names xs = None \<longleftrightarrow>
     distinct (map tis_Name xs) \<and> names \<inter> tis_Name ` set xs = {} \<and> list_all (input_ok ps ts) xs"
  by (induction xs arbitrary: names)
     (auto simp: input_valid)

lemma outputs_valid:
  "validate_outputs ps ts names xs = None \<longleftrightarrow>
     distinct (map tos_Name xs) \<and> names \<inter> tos_Name ` set xs = {} \<and> list_all (output_ok ps) xs"
  by (induction xs arbitrary: names)
     (auto simp: output_valid)

lemma port_valid: "ServicePortSpec_Validate p = None \<longleftrightarrow> port_ok p"
  by (auto simp: ServicePortSpec_Validate_def port_ok_def name_valid)

lemma service_valid:
  "ServiceSpec_Validate s = None \<longleftrightarrow> svc_Ports s \<noteq> [] \<and> list_all port_ok (svc_Ports s)"
  by (auto simp: ServiceSpec_Validate_def list_all_iff port_valid)

lemma policies_valid:
  "SnapshotPolicy_Validate sp = None \<longleftrightarrow> IsAllNew sp \<or> IsSwapNew4Old sp \<or> IsSlidingWindow sp"
  "LaunchPolicy_Validate lp = None \<longleftrightarrow>
     lp \<in> {LaunchPolicyAuto, LaunchPolicyCustom, LaunchPolicyRestart, []}"
  by (auto simp: SnapshotPolicy_Validate_def LaunchPolicy_Validate_def IsAllNew_def
      IsSwapNew4Old_def IsSlidingWindow_def)

lemma task_valid: "TaskSpec_Validate ts ps = None \<longleftrightarrow> task_ok ps ts"
  unfolding TaskSpec_Validate_def task_ok_def
  by (auto simp: name_valid policies_valid inputs_valid outputs_valid service_valid
      split: option.split)

lemma ref_valid:
  "(case SplitTaskRef r of Inl e \<Rightarrow> Some e | Inr _ \<Rightarrow> None) = None \<longleftrightarrow> ref_ok r"
  by (auto simp: ref_ok_def split: sum.splits)

lemma ref_ok_nonempty: "ref_ok r \<Longrightarrow> r \<noteq> []"
  by (auto simp: ref_ok_def SplitTaskRef_Inr)

lemma link_valid: "LinkSpec_Validate l ps = None \<longleftrightarrow> link_ok l"
  using ref_ok_nonempty [of "lk_SourceRef l"] ref_ok_nonempty [of "lk_DestinationRef l"]
  by (auto simp: LinkSpec_Validate_def link_ok_def name_valid ref_valid)

lemma merge_ok_named:
  assumes "merge_ok ts i" "HasMergeInto i"
  shows "\<exists>m. m \<in> set (SnapshotInputs ts) \<and> tis_Name m = tis_MergeInto i
    \<and> tis_Name m \<noteq> tis_Name i \<and> tis_TypeRef m = tis_TypeRef i"
proof -
  obtain m where "InputByName ts (tis_MergeInto i) = Some m" "m \<in> set (SnapshotInputs ts)"
    "tis_TypeRef m = tis_TypeRef i" "tis_MergeInto i \<noteq> tis_Name i"
    using assms by (auto simp: merge_ok_def)
  then show ?thesis by (auto simp: InputByName_def dest!: find_name_Some)
qed

section \<open>Properties\<close>

text \<open>C9: The pipeline controller's validation accepts a specification exactly when it is
  well-formed: the sequence of first-error checks in \<open>PipelineSpec.Validate\<close> and everything it
  calls decides the declarative conditions of \<open>pipeline_ok\<close>.\<close>

theorem pipeline_validate_iff: "PipelineSpec_Validate ps = None \<longleftrightarrow> pipeline_ok ps"
  by (auto simp: PipelineSpec_Validate_def pipeline_ok_def list_all_iff task_valid link_valid
      TypeSpec_Validate_def name_valid)

text \<open>What an input loop may rely on for a task of an accepted pipeline: every input has
  1 <= slide <= min <= max, exactly one value under SwapNew4Old, equal bounds under
  SlidingWindow, and an input merged into another one is merged into a different input of the
  same task that takes part in the snapshot itself (so no chain of merges).\<close>

theorem validated_input_bounds:
  assumes "PipelineSpec_Validate ps = None" and "t \<in> set (ps_Tasks ps)" and "i \<in> set (ts_Inputs t)"
  shows "1 \<le> GetSlide i \<and> GetSlide i \<le> GetMinSequenceLength i
    \<and> GetMinSequenceLength i \<le> GetMaxSequenceLength i
    \<and> (IsSwapNew4Old (ts_SnapshotPolicy t) \<longrightarrow> GetMaxSequenceLength i = 1)
    \<and> (IsSlidingWindow (ts_SnapshotPolicy t) \<longrightarrow> GetMinSequenceLength i = GetMaxSequenceLength i)
    \<and> (HasMergeInto i \<longrightarrow>
         (\<exists>m. m \<in> set (SnapshotInputs t) \<and> tis_Name m = tis_MergeInto i
              \<and> tis_Name m \<noteq> tis_Name i \<and> tis_TypeRef m = tis_TypeRef i))"
proof -
  have "input_ok ps t i"
    using assms by (auto simp: PipelineSpec_Validate_def list_all_iff task_valid task_ok_def)
  then have "sequence_ok (ts_SnapshotPolicy t) i" and "merge_ok t i"
    by (simp_all add: input_ok_def)
  then show ?thesis
    using merge_ok_named [of t i] by (auto simp: sequence_ok_def)
qed

definition example_input :: "string \<Rightarrow> string \<Rightarrow> TaskInputSpec" where
  "example_input name merge = \<lparr>tis_Name = name, tis_TypeRef = ''txt'',
     tis_RequiredSequenceLength = None, tis_MinSequenceLength = Some 3,
     tis_MaxSequenceLength = Some 3, tis_Slide = Some 2, tis_MergeInto = merge\<rparr>"

definition example_task :: TaskSpec where
  "example_task = \<lparr>ts_Name = ''join'', ts_Type = ''Join'',
     ts_Inputs = [example_input ''a'' [], example_input ''b'' ''a''],
     ts_Outputs = [\<lparr>tos_Name = ''out'', tos_TypeRef = ''txt'', tos_Ready = [], tos_Options = []\<rparr>],
     ts_Executor = None, ts_SnapshotPolicy = ''SlidingWindow'', ts_LaunchPolicy = [],
     ts_Service = None\<rparr>"

definition example_pipeline :: PipelineSpec where
  "example_pipeline = \<lparr>ps_Tasks = [example_task],
     ps_Links = [\<lparr>lk_Name = ''l'', lk_SourceRef = ''src/out'', lk_DestinationRef = ''join/a''\<rparr>],
     ps_Types = [\<lparr>ty_Name = ''txt'', ty_Protocol = ''File'', ty_Format = ''Text''\<rparr>]\<rparr>"

lemma example_pipeline_valid: "PipelineSpec_Validate example_pipeline = None"
  by code_simp

lemma validated_input_bounds_witness:
  "GetSlide (example_input ''b'' ''a'') \<le> GetMinSequenceLength (example_input ''b'' ''a'')
   \<and> HasMergeInto (example_input ''b'' ''a'')"
proof -
  have "example_task \<in> set (ps_Tasks example_pipeline)"
    and "example_input ''b'' ''a'' \<in> set (ts_Inputs example_task)"
    by (simp_all add: example_pipeline_def example_task_def)
  from validated_input_bounds [OF example_pipeline_valid this] show ?thesis
    by (simp add: HasMergeInto_def example_input_def)
qed

text \<open>\<open>SplitTaskRef\<close> accepts exactly the references of the form task/name with two
  non-empty parts free of slashes, and returns these parts: it inverts the concatenation the
  agents use to build a reference.\<close>

theorem split_task_ref_iff:
  "SplitTaskRef ref = Inr (t, io) \<longleftrightarrow>
     ref = t @ ''/'' @ io \<and> t \<noteq> [] \<and> io \<noteq> [] \<and> CHR ''/'' \<notin> set t \<and> CHR ''/'' \<notin> set io"
  by (simp add: SplitTaskRef_Inr)

text \<open>Whatever the inputs of a task are, a launch policy the validation accepts selects
  exactly one of the three ways the task agent runs the task.\<close>

theorem launch_policy_unique:
  assumes "LaunchPolicy_Validate (ts_LaunchPolicy ts) = None"
  shows "length (filter id [HasLaunchPolicyAuto ts, HasLaunchPolicyCustom ts,
     HasLaunchPolicyRestart ts]) = 1"
  using assms
  by (auto simp: LaunchPolicy_Validate_def HasLaunchPolicyAuto_def HasLaunchPolicyCustom_def
      HasLaunchPolicyRestart_def policy_names)

lemma launch_policy_unique_witness:
  "length (filter id [HasLaunchPolicyAuto example_task, HasLaunchPolicyCustom example_task,
     HasLaunchPolicyRestart example_task]) = 1"
  by (rule launch_policy_unique) code_simp

text \<open>The name check accepts a string exactly when an ASCII letter occurs somewhere in it:
  the regular expression has no anchors, so characters outside the documented alphabet are not
  rejected.\<close>

theorem validate_name_iff_letter:
  "ValidateName s = None \<longleftrightarrow> (\<exists>c \<in> set s. is_name_start c)"
  by (rule ValidateName_None)

end
