(* ===== verification/Statistics.thy ===== *)
theory Statistics
  imports Prelude "HOL-Library.List_Lexorder" "HOL-Library.Char_ord"
begin

text \<open>
  The counters the agents report (\<open>pkg/tracking\<close>): link, task, task input and task output
  statistics, and how the pipeline agent adds the reports of several agents.  Counters are
  \<open>int64\<close> in the code and \<open>int\<close> here; pointers into a list of counters are positions.
\<close>

section \<open>Data\<close>

record LinkStatistics =
  ls_Name :: string
  ls_URI :: string
  ls_AnnotatedValuesWaiting :: int
  ls_AnnotatedValuesInProgress :: int
  ls_AnnotatedValuesAcknowledged :: int

record TaskInputStatistics =
  tin_Name :: string
  tin_AnnotatedValuesReceived :: int
  tin_AnnotatedValuesInProgress :: int
  tin_AnnotatedValuesProcessed :: int
  tin_AnnotatedValuesSkipped :: int

record TaskOutputStatistics =
  tout_Name :: string
  tout_AnnotatedValuesPublished :: int

record TaskStatistics =
  tst_Name :: string
  tst_URI :: string
  tst_SnapshotsWaiting :: int
  tst_SnapshotsInProgress :: int
  tst_SnapshotsSucceeded :: int
  tst_SnapshotsFailed :: int
  tst_Inputs :: "TaskInputStatistics list"
  tst_Outputs :: "TaskOutputStatistics list"

section \<open>Adding statistics\<close>

definition LinkStatistics_Add :: "LinkStatistics \<Rightarrow> LinkStatistics \<Rightarrow> LinkStatistics" where
  "LinkStatistics_Add target source = target
     \<lparr>ls_Name := (if ls_Name target = [] then ls_Name source else ls_Name target),
      ls_URI := (if ls_URI target = [] then ls_URI source else ls_URI target),
      ls_AnnotatedValuesWaiting :=
        ls_AnnotatedValuesWaiting target + ls_AnnotatedValuesWaiting source,
      ls_AnnotatedValuesInProgress :=
        ls_AnnotatedValuesInProgress target + ls_AnnotatedValuesInProgress source,
      ls_AnnotatedValuesAcknowledged :=
        ls_AnnotatedValuesAcknowledged target + ls_AnnotatedValuesAcknowledged source\<rparr>"

definition TaskInputStatistics_Add ::
  "TaskInputStatistics \<Rightarrow> TaskInputStatistics \<Rightarrow> TaskInputStatistics" where
  "TaskInputStatistics_Add target source = target
     \<lparr>tin_Name := (if tin_Name target = [] then tin_Name source else tin_Name target),
      tin_AnnotatedValuesReceived :=
        tin_AnnotatedValuesReceived target + tin_AnnotatedValuesReceived source,
      tin_AnnotatedValuesInProgress :=
        tin_AnnotatedValuesInProgress target + tin_AnnotatedValuesInProgress source,
      tin_AnnotatedValuesProcessed :=
        tin_AnnotatedValuesProcessed target + tin_AnnotatedValuesProcessed source,
      tin_AnnotatedValuesSkipped :=
        tin_AnnotatedValuesSkipped target + tin_AnnotatedValuesSkipped source\<rparr>"

definition TaskOutputStatistics_Add ::
  "TaskOutputStatistics \<Rightarrow> TaskOutputStatistics \<Rightarrow> TaskOutputStatistics" where
  "TaskOutputStatistics_Add target source = target
     \<lparr>tout_Name := (if tout_Name target = [] then tout_Name source else tout_Name target),
      tout_AnnotatedValuesPublished :=
        tout_AnnotatedValuesPublished target + tout_AnnotatedValuesPublished source\<rparr>"

definition new_input_stat :: "string \<Rightarrow> TaskInputStatistics" where
  "new_input_stat n = \<lparr>tin_Name = n, tin_AnnotatedValuesReceived = 0,
     tin_AnnotatedValuesInProgress = 0, tin_AnnotatedValuesProcessed = 0,
     tin_AnnotatedValuesSkipped = 0\<rparr>"

definition new_output_stat :: "string \<Rightarrow> TaskOutputStatistics" where
  "new_output_stat n = \<lparr>tout_Name = n, tout_AnnotatedValuesPublished = 0\<rparr>"

fun position :: "('a \<Rightarrow> bool) \<Rightarrow> 'a list \<Rightarrow> nat option" where
  "position p [] = None"
| "position p (x # xs) = (if p x then Some 0 else map_option Suc (position p xs))"

text \<open>
  The two lookups create a missing entry, sort the slice by name and return a pointer to the
  entry: here the position of the entry and the new slice.
\<close>

definition find_or_create ::
  "('a \<Rightarrow> string) \<Rightarrow> (string \<Rightarrow> 'a) \<Rightarrow> string \<Rightarrow> 'a list \<Rightarrow> nat \<times> 'a list" where
  "find_or_create nm mk n xs =
     (case position (\<lambda>x. nm x = n) xs of
        Some i \<Rightarrow> (i, xs)
      | None \<Rightarrow>
          let ys = sort_key nm (xs @ [mk n])
          in (the (position (\<lambda>x. nm x = n) ys), ys))"

definition stat_InputByName ::
  "TaskStatistics \<Rightarrow> string \<Rightarrow> nat \<times> TaskStatistics" where
  "stat_InputByName target name =
     (let (i, ys) = find_or_create tin_Name new_input_stat name (tst_Inputs target)
      in (i, target\<lparr>tst_Inputs := ys\<rparr>))"

definition stat_OutputByName ::
  "TaskStatistics \<Rightarrow> string \<Rightarrow> nat \<times> TaskStatistics" where
  "stat_OutputByName target name =
     (let (i, ys) = find_or_create tout_Name new_output_stat name (tst_Outputs target)
      in (i, target\<lparr>tst_Outputs := ys\<rparr>))"

definition add_input :: "TaskInputStatistics \<Rightarrow> TaskStatistics \<Rightarrow> TaskStatistics" where
  "add_input s target =
     (let (i, t) = stat_InputByName target (tin_Name s)
      in t\<lparr>tst_Inputs := (tst_Inputs t)[i := TaskInputStatistics_Add (tst_Inputs t ! i) s]\<rparr>)"

definition add_output :: "TaskOutputStatistics \<Rightarrow> TaskStatistics \<Rightarrow> TaskStatistics" where
  "add_output s target =
     (let (i, t) = stat_OutputByName target (tout_Name s)
      in t\<lparr>tst_Outputs := (tst_Outputs t)[i := TaskOutputStatistics_Add (tst_Outputs t ! i) s]\<rparr>)"

definition TaskStatistics_Add :: "TaskStatistics \<Rightarrow> TaskStatistics \<Rightarrow> TaskStatistics" where
  "TaskStatistics_Add target source =
     (let t = target
        \<lparr>tst_Name := (if tst_Name target = [] then tst_Name source else tst_Name target),
         tst_URI := (if tst_URI target = [] then tst_URI source else tst_URI target),
         tst_SnapshotsWaiting := tst_SnapshotsWaiting target + tst_SnapshotsWaiting source,
         tst_SnapshotsInProgress := tst_SnapshotsInProgress target + tst_SnapshotsInProgress source,
         tst_SnapshotsSucceeded := tst_SnapshotsSucceeded target + tst_SnapshotsSucceeded source,
         tst_SnapshotsFailed := tst_SnapshotsFailed target + tst_SnapshotsFailed source\<rparr>
      in fold add_output (tst_Outputs source) (fold add_input (tst_Inputs source) t))"

section \<open>Named counters\<close>

text \<open>
  What the two slices of a task's statistics have in common: entries with a name, an empty entry
  for every name, and an addition that keeps the name and does not depend on the order.
\<close>

definition add_named ::
  "('a \<Rightarrow> string) \<Rightarrow> (string \<Rightarrow> 'a) \<Rightarrow> ('a \<Rightarrow> 'a \<Rightarrow> 'a) \<Rightarrow> 'a \<Rightarrow> 'a list \<Rightarrow> 'a list" where
  "add_named nm mk add s xs =
     (let (i, ys) = find_or_create nm mk (nm s) xs in ys[i := add (ys ! i) s])"

definition by_name_sorted :: "('a \<Rightarrow> string) \<Rightarrow> 'a list \<Rightarrow> bool" where
  "by_name_sorted nm xs \<longleftrightarrow> distinct (map nm xs) \<and> sorted (map nm xs)"

definition entry :: "('a \<Rightarrow> string) \<Rightarrow> 'a list \<Rightarrow> string \<Rightarrow> 'a option" where
  "entry nm xs n = find (\<lambda>x. nm x = n) xs"

definition entry_or ::
  "('a \<Rightarrow> string) \<Rightarrow> (string \<Rightarrow> 'a) \<Rightarrow> 'a list \<Rightarrow> string \<Rightarrow> 'a" where
  "entry_or nm mk xs n = (case entry nm xs n of Some x \<Rightarrow> x | None \<Rightarrow> mk n)"

lemma entry_or_upd:
  "entry nm ys = (entry nm xs)(k := Some x) \<Longrightarrow>
     entry_or nm mk ys n = (if n = k then x else entry_or nm mk xs n)"
  by (simp add: entry_or_def)

lemma position_None [simp]: "position p xs = None \<longleftrightarrow> (\<forall>x \<in> set xs. \<not> p x)"
  by (induction xs) auto

lemma position_Some: "position p xs = Some i \<Longrightarrow> i < length xs \<and> p (xs ! i)"
  by (induction xs arbitrary: i) (auto split: if_splits)

lemma entry_Some: "distinct (map nm xs) \<Longrightarrow> entry nm xs n = Some x \<longleftrightarrow> x \<in> set xs \<and> nm x = n"
  unfolding entry_def by (induction xs) auto

lemma entry_None: "entry nm xs n = None \<longleftrightarrow> n \<notin> nm ` set xs"
  by (auto simp: entry_def find_None_iff)

lemma by_name_sorted_ext:
  assumes "by_name_sorted nm xs" "by_name_sorted nm ys" "entry nm xs = entry nm ys"
  shows "xs = ys"
proof -
  have d: "distinct (map nm xs)" "distinct (map nm ys)" and s: "sorted (map nm xs)" "sorted (map nm ys)"
    using assms by (auto simp: by_name_sorted_def)
  have set_eq: "set xs = set ys"
    using entry_Some [OF d(1)] entry_Some [OF d(2)] assms(3) by auto
  then have "map nm xs = map nm ys"
    by (intro sorted_distinct_set_unique s d) simp
  moreover have "inj_on nm (set xs \<union> set ys)"
    using d(1) set_eq by (simp add: distinct_map)
  ultimately show ?thesis by (rule map_inj_on)
qed

lemma entry_update:
  assumes "distinct (map nm ys)" "i < length ys" "nm y = nm (ys ! i)"
  shows "entry nm (ys[i := y]) = (entry nm ys)(nm (ys ! i) := Some y)"
proof
  fix n
  have m: "map nm (ys[i := y]) = map nm ys"
    using assms by (metis list_update_id map_update)
  then have d: "distinct (map nm (ys[i := y]))" using assms(1) by simp
  show "entry nm (ys[i := y]) n = ((entry nm ys)(nm (ys ! i) := Some y)) n"
  proof (cases "n = nm (ys ! i)")
    case True
    then have "entry nm (ys[i := y]) n = Some y"
      using assms by (auto simp: entry_Some [OF d] set_update_memI)
    with True show ?thesis by simp
  next
    case False
    have "x \<in> set (ys[i := y]) \<and> nm x = n \<longleftrightarrow> x \<in> set ys \<and> nm x = n" for x
      using False assms by (auto simp: in_set_conv_nth nth_list_update)
    then have "entry nm (ys[i := y]) n = entry nm ys n"
      using entry_Some [OF d] entry_Some [OF assms(1)] by (metis option.exhaust)
    with False show ?thesis by simp
  qed
qed

locale named_counter =
  fixes nm :: "'a \<Rightarrow> string" and mk :: "string \<Rightarrow> 'a" and add :: "'a \<Rightarrow> 'a \<Rightarrow> 'a"
  assumes nm_mk: "nm (mk n) = n"
    and nm_add: "nm x = nm s \<Longrightarrow> nm (add x s) = nm s"
    and add_swap: "nm x = nm s \<Longrightarrow> nm s = nm t \<Longrightarrow> add (add x s) t = add (add x t) s"
begin

lemma find_or_create_wf:
  assumes "by_name_sorted nm xs" and "find_or_create nm mk n xs = (i, ys)"
  shows "by_name_sorted nm ys \<and> i < length ys \<and> nm (ys ! i) = n
    \<and> entry nm ys = (entry nm xs)(n := Some (entry_or nm mk xs n))"
proof (cases "position (\<lambda>x. nm x = n) xs")
  case None
  let ?ys = "sort_key nm (xs @ [mk n])"
  have ys: "ys = ?ys" and i: "i = the (position (\<lambda>x. nm x = n) ?ys)"
    using assms(2) unfolding find_or_create_def None by (auto simp: Let_def)
  have new: "n \<notin> nm ` set xs" using None by auto
  have "distinct (map nm (xs @ [mk n]))"
    using assms(1) new by (auto simp: by_name_sorted_def nm_mk)
  then have d: "distinct (map nm ?ys)" and d': "distinct (map nm xs)"
    by (auto simp: distinct_map)
  have "position (\<lambda>x. nm x = n) ?ys \<noteq> None" by (auto simp: nm_mk)
  then have "i < length ys \<and> nm (ys ! i) = n"
    using position_Some [of "\<lambda>x. nm x = n" ?ys] i ys by auto
  moreover have "entry nm ?ys k =
      ((entry nm xs)(n := Some (entry_or nm mk xs n))) k" for k
  proof (cases "k = n")
    case True
    have "entry nm xs n = None" using new by (simp add: entry_None)
    then show ?thesis using d True by (simp add: entry_Some nm_mk entry_or_def)
  next
    case False
    then have "entry nm ?ys k = Some x \<longleftrightarrow> entry nm xs k = Some x" for x
      using d d' by (auto simp: entry_Some nm_mk)
    with False show ?thesis by (metis fun_upd_other option.exhaust)
  qed
  ultimately show ?thesis using d ys by (auto simp: by_name_sorted_def)
next
  case (Some j)
  then have ij: "j = i" "ys = xs" using assms(2) by (auto simp: find_or_create_def)
  have p: "i < length xs" "nm (xs ! i) = n"
    using position_Some [OF Some] ij by auto
  then have "entry nm xs n = Some (xs ! i)"
    using assms(1) by (simp add: entry_Some by_name_sorted_def)
  moreover from this have "entry_or nm mk xs n = xs ! i" by (simp add: entry_or_def)
  ultimately show ?thesis using p ij assms(1) by (simp add: fun_upd_idem)
qed

lemma add_named_wf:
  assumes "by_name_sorted nm xs"
  shows "by_name_sorted nm (add_named nm mk add s xs)
    \<and> entry nm (add_named nm mk add s xs) =
        (entry nm xs)(nm s := Some (add (entry_or nm mk xs (nm s)) s))"
proof -
  obtain i ys where f: "find_or_create nm mk (nm s) xs = (i, ys)" by fastforce
  note w = find_or_create_wf [OF assms f]
  have e: "entry nm ys (nm s) = Some (ys ! i)"
    using w entry_Some [of nm ys] unfolding by_name_sorted_def by (metis nth_mem)
  then have at: "entry_or nm mk xs (nm s) = ys ! i"
    using w by (metis fun_upd_same option.inject)
  have "map nm (ys[i := add (ys ! i) s]) = map nm ys"
    using w by (metis list_update_id map_update nm_add)
  moreover have "entry nm (ys[i := add (ys ! i) s]) = (entry nm ys)(nm s := Some (add (ys ! i) s))"
    using w entry_update [of nm ys i "add (ys ! i) s"] by (simp add: by_name_sorted_def nm_add)
  ultimately show ?thesis using w at
    by (simp add: add_named_def f by_name_sorted_def)
qed

lemma entry_name: "by_name_sorted nm xs \<Longrightarrow> entry nm xs n = Some x \<Longrightarrow> nm x = n"
  by (simp add: by_name_sorted_def entry_Some)

lemma add_named_swap:
  assumes "by_name_sorted nm xs"
  shows "add_named nm mk add s (add_named nm mk add t xs) = add_named nm mk add t (add_named nm mk add s xs)"
proof (rule by_name_sorted_ext)
  note w = add_named_wf [OF assms]
  show "by_name_sorted nm (add_named nm mk add s (add_named nm mk add t xs))"
    "by_name_sorted nm (add_named nm mk add t (add_named nm mk add s xs))"
    using add_named_wf w by blast+
  have same: "nm (entry_or nm mk xs n) = n" for n
    using entry_name [OF assms] by (auto simp: entry_or_def nm_mk split: option.split)
  have eo: "entry_or nm mk (add_named nm mk add v xs) n =
      (if n = nm v then add (entry_or nm mk xs n) v else entry_or nm mk xs n)" for v n
    using w [of v] by (auto simp: entry_or_upd)
  have st: "entry nm (add_named nm mk add u (add_named nm mk add v xs)) =
      (entry nm xs)(nm v := Some (add (entry_or nm mk xs (nm v)) v),
        nm u := Some (add (entry_or nm mk (add_named nm mk add v xs) (nm u)) u))" for u v
    using add_named_wf w by metis
  show "entry nm (add_named nm mk add s (add_named nm mk add t xs)) =
      entry nm (add_named nm mk add t (add_named nm mk add s xs))"
    unfolding st eo
    using same add_swap [of "entry_or nm mk xs (nm s)" s t] by (auto simp: fun_upd_twist)
qed

lemma add_all_wf:
  "by_name_sorted nm xs \<Longrightarrow> by_name_sorted nm (fold (add_named nm mk add) ss xs)"
  by (induction ss arbitrary: xs) (auto simp: add_named_wf)

lemma add_all_order:
  assumes "by_name_sorted nm xs" and "mset ss = mset ss'"
  shows "fold (add_named nm mk add) ss xs = fold (add_named nm mk add) ss' xs"
  by (rule fold_permuted_eq [where P = "by_name_sorted nm"])
     (use assms in \<open>auto simp: add_named_wf intro: add_named_swap\<close>)

end

interpretation inputs: named_counter tin_Name new_input_stat TaskInputStatistics_Add
  by unfold_locales (auto simp: new_input_stat_def TaskInputStatistics_Add_def)

interpretation outputs: named_counter tout_Name new_output_stat TaskOutputStatistics_Add
  by unfold_locales (auto simp: new_output_stat_def TaskOutputStatistics_Add_def)

section \<open>Task statistics\<close>

definition stats_sorted :: "TaskStatistics \<Rightarrow> bool" where
  "stats_sorted t \<longleftrightarrow> by_name_sorted tin_Name (tst_Inputs t) \<and> by_name_sorted tout_Name (tst_Outputs t)"

lemma add_input_named:
  "add_input s t =
     t\<lparr>tst_Inputs := add_named tin_Name new_input_stat TaskInputStatistics_Add s (tst_Inputs t)\<rparr>"
  by (simp add: add_input_def stat_InputByName_def add_named_def split: prod.splits)

lemma add_output_named:
  "add_output s t =
     t\<lparr>tst_Outputs := add_named tout_Name new_output_stat TaskOutputStatistics_Add s (tst_Outputs t)\<rparr>"
  by (simp add: add_output_def stat_OutputByName_def add_named_def split: prod.splits)

abbreviation all_inputs ::
  "TaskInputStatistics list \<Rightarrow> TaskInputStatistics list \<Rightarrow> TaskInputStatistics list" where
  "all_inputs \<equiv> fold (add_named tin_Name new_input_stat TaskInputStatistics_Add)"

abbreviation all_outputs ::
  "TaskOutputStatistics list \<Rightarrow> TaskOutputStatistics list \<Rightarrow> TaskOutputStatistics list" where
  "all_outputs \<equiv> fold (add_named tout_Name new_output_stat TaskOutputStatistics_Add)"

lemma fold_add_input: "fold add_input ss t = t\<lparr>tst_Inputs := all_inputs ss (tst_Inputs t)\<rparr>"
  by (induction ss arbitrary: t) (simp_all add: add_input_named)

lemma fold_add_output: "fold add_output ss t = t\<lparr>tst_Outputs := all_outputs ss (tst_Outputs t)\<rparr>"
  by (induction ss arbitrary: t) (simp_all add: add_output_named)

text \<open>The statistics of a task without the name and URI of the agent that reported them.\<close>

definition counters :: "TaskStatistics \<Rightarrow> TaskStatistics" where
  "counters t = t\<lparr>tst_Name := [], tst_URI := []\<rparr>"

definition add_counters :: "TaskStatistics \<Rightarrow> TaskStatistics \<Rightarrow> TaskStatistics" where
  "add_counters s t = counters (TaskStatistics_Add t s)"

lemma add_counters_eq:
  "add_counters s t = \<lparr>tst_Name = [], tst_URI = [],
     tst_SnapshotsWaiting = tst_SnapshotsWaiting t + tst_SnapshotsWaiting s,
     tst_SnapshotsInProgress = tst_SnapshotsInProgress t + tst_SnapshotsInProgress s,
     tst_SnapshotsSucceeded = tst_SnapshotsSucceeded t + tst_SnapshotsSucceeded s,
     tst_SnapshotsFailed = tst_SnapshotsFailed t + tst_SnapshotsFailed s,
     tst_Inputs = all_inputs (tst_Inputs s) (tst_Inputs t),
     tst_Outputs = all_outputs (tst_Outputs s) (tst_Outputs t)\<rparr>"
  by (simp add: add_counters_def counters_def TaskStatistics_Add_def Let_def fold_add_input
      fold_add_output)

lemma stats_sorted_add: "stats_sorted t \<Longrightarrow> stats_sorted (TaskStatistics_Add t s)"
  by (simp add: stats_sorted_def TaskStatistics_Add_def Let_def fold_add_input fold_add_output
      inputs.add_all_wf outputs.add_all_wf)

lemma add_all_twice:
  assumes "stats_sorted t"
  shows "all_inputs xs (all_inputs ys (tst_Inputs t)) = all_inputs ys (all_inputs xs (tst_Inputs t))"
    and "all_outputs us (all_outputs vs (tst_Outputs t)) = all_outputs vs (all_outputs us (tst_Outputs t))"
  using inputs.add_all_order [of "tst_Inputs t" "ys @ xs" "xs @ ys"]
    outputs.add_all_order [of "tst_Outputs t" "vs @ us" "us @ vs"] assms
  by (simp_all add: stats_sorted_def)

lemma add_counters_swap:
  "stats_sorted t \<Longrightarrow> add_counters x (add_counters y t) = add_counters y (add_counters x t)"
  by (simp add: add_counters_eq add_all_twice)

lemma stats_sorted_add_counters: "stats_sorted t \<Longrightarrow> stats_sorted (add_counters s t)"
  by (simp add: stats_sorted_def add_counters_eq inputs.add_all_wf outputs.add_all_wf)

lemma counters_fold:
  "counters (fold (\<lambda>s t. TaskStatistics_Add t s) ss t) = fold add_counters ss (counters t)"
proof (induction ss arbitrary: t)
  case (Cons s ss)
  have "counters (TaskStatistics_Add t s) = add_counters s (counters t)"
    by (simp only: add_counters_def [symmetric] add_counters_eq) (simp add: counters_def)
  with Cons show ?case by simp
qed simp

section \<open>Properties\<close>

text \<open>Adding the reports of several agents to the statistics of a task gives the same
  counters and the same sorted lists of inputs and outputs whatever the order of the reports;
  only the name and URI, taken from the first report that has one, may differ.\<close>

theorem add_statistics_order:
  assumes "stats_sorted t" and "mset ss = mset ss'"
  shows "counters (fold (\<lambda>s t. TaskStatistics_Add t s) ss t) =
         counters (fold (\<lambda>s t. TaskStatistics_Add t s) ss' t)"
proof -
  have "stats_sorted (counters t)" using assms(1) by (simp add: stats_sorted_def counters_def)
  then show ?thesis unfolding counters_fold
    by (intro fold_permuted_eq [where P = stats_sorted])
       (auto simp: assms stats_sorted_add_counters intro: add_counters_swap)
qed

definition example_report :: "string \<Rightarrow> int \<Rightarrow> TaskStatistics" where
  "example_report n k = \<lparr>tst_Name = ''task'', tst_URI = n, tst_SnapshotsWaiting = k,
     tst_SnapshotsInProgress = 0, tst_SnapshotsSucceeded = 1, tst_SnapshotsFailed = 0,
     tst_Inputs = [\<lparr>tin_Name = n, tin_AnnotatedValuesReceived = k,
       tin_AnnotatedValuesInProgress = 0, tin_AnnotatedValuesProcessed = 1,
       tin_AnnotatedValuesSkipped = 0\<rparr>],
     tst_Outputs = [\<lparr>tout_Name = ''out'', tout_AnnotatedValuesPublished = k\<rparr>]\<rparr>"

lemma add_statistics_order_witness:
  "counters (fold (\<lambda>s t. TaskStatistics_Add t s) [example_report ''b'' 2, example_report ''a'' 3]
     (example_report ''c'' 1)) =
   counters (fold (\<lambda>s t. TaskStatistics_Add t s) [example_report ''a'' 3, example_report ''b'' 2]
     (example_report ''c'' 1))"
  by (rule add_statistics_order) (simp_all add: stats_sorted_def by_name_sorted_def example_report_def)

definition received :: "TaskInputStatistics list \<Rightarrow> string \<Rightarrow> int" where
  "received xs n = (\<Sum>x \<leftarrow> filter (\<lambda>x. tin_Name x = n) xs. tin_AnnotatedValuesReceived x)"

lemma received_entry:
  assumes "by_name_sorted tin_Name xs"
  shows "received xs n = tin_AnnotatedValuesReceived (entry_or tin_Name new_input_stat xs n)"
proof -
  have "received xs n = (case entry tin_Name xs n of None \<Rightarrow> 0 | Some x \<Rightarrow> tin_AnnotatedValuesReceived x)"
    if "distinct (map tin_Name xs)" for xs
    using that
  proof (induction xs)
    case (Cons x xs)
    have "filter (\<lambda>y. tin_Name y = tin_Name x) xs = []"
      using Cons.prems by (auto simp: filter_empty_conv image_iff)
    with Cons show ?case by (auto simp: received_def entry_def)
  qed (simp add: received_def entry_def)
  then show ?thesis using assms
    by (auto simp: by_name_sorted_def entry_or_def new_input_stat_def split: option.split)
qed

lemma received_add_all:
  "by_name_sorted tin_Name xs \<Longrightarrow> received (all_inputs ss xs) n = received xs n + received ss n"
proof (induction ss arbitrary: xs)
  case (Cons s ss)
  let ?ys = "add_named tin_Name new_input_stat TaskInputStatistics_Add s xs"
  have wf: "by_name_sorted tin_Name ?ys"
    and e: "entry tin_Name ?ys = (entry tin_Name xs)
      (tin_Name s := Some (TaskInputStatistics_Add (entry_or tin_Name new_input_stat xs (tin_Name s)) s))"
    using inputs.add_named_wf [OF Cons.prems] by auto
  have "received ?ys n = received xs n + received [s] n"
    using Cons.prems wf
    by (auto simp: received_entry entry_or_upd [OF e]) (simp_all add: received_def TaskInputStatistics_Add_def)
  then show ?case using Cons.IH [OF wf] by (simp add: received_def)
qed (simp add: received_def)

text \<open>Adding a report keeps the inputs and outputs sorted and without duplicate names, and
  every input's counter becomes the sum of the old counter (zero when the input is new) and of
  all entries of the report with that name.\<close>

theorem add_statistics_sums:
  assumes "stats_sorted t"
  shows "stats_sorted (TaskStatistics_Add t s)
    \<and> received (tst_Inputs (TaskStatistics_Add t s)) n =
        received (tst_Inputs t) n + received (tst_Inputs s) n"
  using assms stats_sorted_add [OF assms, of s]
  by (simp add: TaskStatistics_Add_def Let_def fold_add_input fold_add_output received_add_all
      stats_sorted_def)

lemma add_statistics_sums_witness:
  "received (tst_Inputs (TaskStatistics_Add (example_report ''c'' 1) (example_report ''c'' 4))) ''c'' = 5"
  using add_statistics_sums [of "example_report ''c'' 1" "example_report ''c'' 4" "''c''"]
  by (simp add: stats_sorted_def by_name_sorted_def example_report_def received_def)

end
