(* ===== verification/Annotated_Value.thy ===== *)
theory Annotated_Value
  imports Prelude
begin

text \<open>
  Annotated values, the messages of a pipeline (\<open>pkg/annotatedvalue\<close>): matching a value
  against a query, the in-memory registry (\<open>registry/stub\<close>) and the tree of a value with all
  values it was made from (\<open>tree\<close>).
\<close>

section \<open>Data\<close>

record Timestamp =
  tm_Seconds :: int
  tm_Nanos :: int

record AnnotatedValueSourceInput =
  avi_IDs :: "string list"
  avi_InputName :: string

record AnnotatedValue =
  av_ID :: string
  av_SourceTask :: string
  av_SourceTaskOutput :: string
  av_Link :: string
  av_SourceInputs :: "AnnotatedValueSourceInput list"
  av_Data :: string
  av_CreatedAt :: "Timestamp option"

record GetRequest =
  gr_IDs :: "string list"
  gr_SourceTasks :: "string list"
  gr_Data :: "string list"
  gr_CreatedAfter :: "Timestamp option"
  gr_CreatedBefore :: "Timestamp option"

section \<open>Helpers\<close>

definition SchemeFile :: string where
  "SchemeFile = ''koalja-file''"

definition SchemeData :: string where
  "SchemeData = ''data''"

definition GetDataScheme :: "string \<Rightarrow> string" where
  "GetDataScheme d = (case index_of (CHR '':'') d of
     Some idx \<Rightarrow> if idx > 0 then take idx d else []
   | None \<Rightarrow> [])"

text \<open>
  \<open>types.TimestampFromProto\<close> of the vendored protobuf library: the time in nanoseconds since
  the epoch, or an error for a missing or invalid timestamp.
\<close>

definition TimestampFromProto :: "Timestamp option \<Rightarrow> int option" where
  "TimestampFromProto ts = (case ts of
     None \<Rightarrow> None
   | Some t \<Rightarrow>
       if tm_Seconds t < - 62135596800 \<or> tm_Seconds t \<ge> 253402300800 \<or> tm_Nanos t < 0
          \<or> tm_Nanos t \<ge> 1000000000
       then None else Some (tm_Seconds t * 1000000000 + tm_Nanos t))"

text \<open>The search loops of \<open>IsMatch\<close>, with their \<open>found\<close> flag and \<open>break\<close>.\<close>

fun found_in :: "'a list \<Rightarrow> 'a \<Rightarrow> bool" where
  "found_in [] x = False"
| "found_in (y # ys) x = (if y = x then True else found_in ys x)"

definition IsMatch :: "AnnotatedValue \<Rightarrow> GetRequest \<Rightarrow> bool" where
  "IsMatch av req =
     (if length (gr_IDs req) > 0 \<and> \<not> found_in (gr_IDs req) (av_ID av) then False
      else if length (gr_SourceTasks req) > 0 \<and> \<not> found_in (gr_SourceTasks req) (av_SourceTask av)
        then False
      else if length (gr_Data req) > 0 \<and> \<not> found_in (gr_Data req) (av_Data av) then False
      else if gr_CreatedAfter req \<noteq> None \<and>
          (case (TimestampFromProto (gr_CreatedAfter req), TimestampFromProto (av_CreatedAt av)) of
             (Some ts, Some created) \<Rightarrow> created < ts
           | _ \<Rightarrow> True) then False
      else if gr_CreatedBefore req \<noteq> None \<and>
          (case (TimestampFromProto (gr_CreatedBefore req), TimestampFromProto (av_CreatedAt av)) of
             (Some ts, Some created) \<Rightarrow> created > ts
           | _ \<Rightarrow> True) then False
      else True)"

section \<open>The in-memory registry\<close>

datatype registry_error = RE_NotFound string | RE_NoSuchValue

type_synonym registry = "(string, AnnotatedValue) gomap"

definition NewStub_registry :: registry where
  "NewStub_registry = []"

definition Record :: "registry \<Rightarrow> AnnotatedValue \<Rightarrow> registry" where
  "Record s e = AList.update (av_ID e) e s"

definition GetByID :: "registry \<Rightarrow> string \<Rightarrow> (registry_error, AnnotatedValue) go_result" where
  "GetByID s i = (case map_of s i of Some av \<Rightarrow> Inr av | None \<Rightarrow> Inl (RE_NotFound i))"

text \<open>\<open>es\<close> is the order in which the runtime ranges over the map.\<close>

definition GetByTaskAndData ::
  "(string \<times> AnnotatedValue) list \<Rightarrow> string \<Rightarrow> string \<Rightarrow> (registry_error, AnnotatedValue) go_result" where
  "GetByTaskAndData es task data' =
     (case find (\<lambda>(k, av). av_SourceTask av = task \<and> av_Data av = data') es of
        Some (k, av) \<Rightarrow> Inr av | None \<Rightarrow> Inl RE_NoSuchValue)"

fun Get :: "(string \<times> AnnotatedValue) list \<Rightarrow> GetRequest \<Rightarrow> AnnotatedValue list" where
  "Get [] req = []"
| "Get ((k, av) # es) req = (if IsMatch av req then av # Get es req else Get es req)"

section \<open>Trees\<close>

datatype AnnotatedValueTree =
  Tree (tree_AnnotatedValue: AnnotatedValue) (tree_Inputs: "(string \<times> AnnotatedValueTree list) list")

text \<open>
  The two loops of \<open>Build\<close>; \<open>child\<close> is the recursive call for one ID, \<open>None\<close> when the
  recursion has not returned within the fuel.
\<close>

fun build_seq ::
  "(string \<Rightarrow> ('e, AnnotatedValueTree) go_result option) \<Rightarrow> string list
    \<Rightarrow> ('e, AnnotatedValueTree list) go_result option" where
  "build_seq child [] = Some (Inr [])"
| "build_seq child (i # ids) =
     (case child i of
        None \<Rightarrow> None
      | Some (Inl e) \<Rightarrow> Some (Inl e)
      | Some (Inr t) \<Rightarrow>
          (case build_seq child ids of
             None \<Rightarrow> None
           | Some (Inl e) \<Rightarrow> Some (Inl e)
           | Some (Inr ts) \<Rightarrow> Some (Inr (t # ts))))"

fun build_inputs ::
  "(string \<Rightarrow> ('e, AnnotatedValueTree) go_result option) \<Rightarrow> AnnotatedValueSourceInput list
    \<Rightarrow> (string, AnnotatedValueTree list) gomap
    \<Rightarrow> ('e, (string, AnnotatedValueTree list) gomap) go_result option" where
  "build_inputs child [] m = Some (Inr m)"
| "build_inputs child (inp # inps) m =
     (case build_seq child (avi_IDs inp) of
        None \<Rightarrow> None
      | Some (Inl e) \<Rightarrow> Some (Inl e)
      | Some (Inr ts) \<Rightarrow> build_inputs child inps (AList.update (avi_InputName inp) ts m))"

fun Build ::
  "nat \<Rightarrow> (string \<Rightarrow> ('e, AnnotatedValue) go_result) \<Rightarrow> AnnotatedValue
    \<Rightarrow> ('e, AnnotatedValueTree) go_result option" where
  "Build 0 getByID av = None"
| "Build (Suc n) getByID av =
     (if length (av_SourceInputs av) > 0 then
        (case build_inputs
                (\<lambda>i. case getByID i of Inl e \<Rightarrow> Some (Inl e) | Inr child \<Rightarrow> Build n getByID child)
                (av_SourceInputs av) [] of
           None \<Rightarrow> None
         | Some (Inl e) \<Rightarrow> Some (Inl e)
         | Some (Inr m) \<Rightarrow> Some (Inr (Tree av m)))
      else Some (Inr (Tree av [])))"

fun ContainsID :: "AnnotatedValueTree \<Rightarrow> string \<Rightarrow> bool" where
  "ContainsID (Tree av inputs) i =
     (if av_ID av = i then True
      else list_ex (\<lambda>(k, childSeq). list_ex (\<lambda>child. ContainsID child i) childSeq) inputs)"

section \<open>Matching\<close>

lemma found_in_set [simp]: "found_in ys x \<longleftrightarrow> x \<in> set ys"
  by (induction ys) auto

definition in_window :: "Timestamp option \<Rightarrow> Timestamp option \<Rightarrow> Timestamp option \<Rightarrow> bool" where
  "in_window after before created \<longleftrightarrow>
     (\<forall>a. after = Some a \<longrightarrow> (\<exists>l c. TimestampFromProto (Some a) = Some l
        \<and> TimestampFromProto created = Some c \<and> l \<le> c))
     \<and> (\<forall>b. before = Some b \<longrightarrow> (\<exists>u c. TimestampFromProto (Some b) = Some u
        \<and> TimestampFromProto created = Some c \<and> c \<le> u))"

definition selects :: "GetRequest \<Rightarrow> AnnotatedValue \<Rightarrow> bool" where
  "selects req av \<longleftrightarrow>
     gr_IDs req \<in> {ids. ids = [] \<or> av_ID av \<in> set ids}
     \<and> gr_SourceTasks req \<in> {ts. ts = [] \<or> av_SourceTask av \<in> set ts}
     \<and> gr_Data req \<in> {ds. ds = [] \<or> av_Data av \<in> set ds}
     \<and> in_window (gr_CreatedAfter req) (gr_CreatedBefore req) (av_CreatedAt av)"

lemma IsMatch_selects: "IsMatch av req \<longleftrightarrow> selects req av"
  unfolding IsMatch_def selects_def in_window_def
  by (cases "gr_CreatedAfter req"; cases "gr_CreatedBefore req")
     (auto split: option.splits)

lemma Get_filter: "Get es req = filter (selects req) (map snd es)"
  by (induction es req rule: Get.induct) (auto simp: IsMatch_selects)

section \<open>The registry as an interface\<close>

text \<open>
  What the agents rely on: a recorded value is returned by its ID until another value with that
  ID is recorded.
\<close>

locale av_registry =
  fixes empty :: 'r
    and record_av :: "'r \<Rightarrow> AnnotatedValue \<Rightarrow> 'r"
    and get_by_id :: "'r \<Rightarrow> string \<Rightarrow> ('e, AnnotatedValue) go_result"
  assumes get_empty: "\<exists>e. get_by_id empty i = Inl e"
    and get_recorded: "get_by_id (record_av r av) (av_ID av) = Inr av"
    and get_other: "i \<noteq> av_ID av \<Longrightarrow> get_by_id (record_av r av) i = get_by_id r i"
begin

lemma get_record:
  "get_by_id (record_av r av) i = (if i = av_ID av then Inr av else get_by_id r i)"
  by (simp add: get_recorded get_other)

lemma get_latest:
  "get_by_id (foldl record_av empty avs) i = Inr av \<longleftrightarrow>
     find (\<lambda>a. av_ID a = i) (rev avs) = Some av"
proof (induction avs rule: rev_induct)
  case Nil
  then show ?case using get_empty [of i] by auto
next
  case (snoc a avs)
  then show ?case by (auto simp: get_record)
qed

lemma get_mem:
  assumes "get_by_id (foldl record_av empty avs) i = Inr av"
  shows "av \<in> set avs \<and> av_ID av = i"
  using assms by (auto simp: get_latest dest: find_SomeD)

lemma get_total:
  assumes "i \<in> av_ID ` set avs"
  shows "\<exists>av. get_by_id (foldl record_av empty avs) i = Inr av"
proof (rule ccontr)
  assume "\<not> ?thesis"
  then have "find (\<lambda>a. av_ID a = i) (rev avs) = None" by (auto simp: get_latest)
  with assms show False by (auto simp: find_None_iff)
qed

end

interpretation registry: av_registry NewStub_registry Record GetByID
  by unfold_locales (auto simp: NewStub_registry_def Record_def GetByID_def map_of_Cons_code update_conv')

lemma Record_ok [simp]: "gomap_ok s \<Longrightarrow> gomap_ok (Record s av)"
  by (simp add: Record_def)

lemma records_ok: "gomap_ok s \<Longrightarrow> gomap_ok (foldl Record s avs)"
  by (induction avs arbitrary: s) auto

lemma records_entries:
  assumes "map_order es (foldl Record NewStub_registry avs)"
  shows "(i, av) \<in> set es \<longleftrightarrow> find (\<lambda>a. av_ID a = i) (rev avs) = Some av"
proof -
  have ok: "gomap_ok (foldl Record NewStub_registry avs)"
    by (simp add: records_ok NewStub_registry_def)
  have "(i, av) \<in> set es \<longleftrightarrow> map_of (foldl Record NewStub_registry avs) i = Some av"
    using map_order_set [OF assms] ok by (simp add: gomap_ok_def map_of_eq_Some_iff)
  also have "\<dots> \<longleftrightarrow> GetByID (foldl Record NewStub_registry avs) i = Inr av"
    by (auto simp: GetByID_def split: option.splits)
  finally show ?thesis by (simp add: registry.get_latest)
qed

section \<open>Provenance\<close>

text \<open>
  \<open>derives get av i\<close>: the value with ID \<open>i\<close> is \<open>av\<close> or one of the values it was made from,
  directly or through other values.
\<close>

definition source_ids :: "AnnotatedValue \<Rightarrow> string list" where
  "source_ids av = concat (map avi_IDs (av_SourceInputs av))"

inductive derives ::
  "(string \<Rightarrow> ('e, AnnotatedValue) go_result) \<Rightarrow> AnnotatedValue \<Rightarrow> string \<Rightarrow> bool" for get where
  derives_self: "derives get av (av_ID av)"
| derives_source:
    "i \<in> set (source_ids av) \<Longrightarrow> get i = Inr src \<Longrightarrow> derives get src x \<Longrightarrow> derives get av x"

inductive_simps derives_cases: "derives get av x"

definition distinct_inputs :: "AnnotatedValue \<Rightarrow> bool" where
  "distinct_inputs av \<longleftrightarrow> distinct (map avi_InputName (av_SourceInputs av))"

text \<open>
  Values recorded in the order of their creation: the sources of a new value come first.  A value
  that goes to several links is recorded by each of them, with other links but the same sources.
\<close>

fun recorded_in_order ::
  "(string \<Rightarrow> AnnotatedValueSourceInput list option) \<Rightarrow> AnnotatedValue list \<Rightarrow> bool" where
  "recorded_in_order known [] = True"
| "recorded_in_order known (av # avs) =
     ((case known (av_ID av) of
         Some inputs \<Rightarrow> av_SourceInputs av = inputs
       | None \<Rightarrow> distinct_inputs av \<and> list_all (\<lambda>i. known i \<noteq> None) (source_ids av))
      \<and> recorded_in_order (known(av_ID av \<mapsto> av_SourceInputs av)) avs)"

definition recorded :: "AnnotatedValue list \<Rightarrow> string \<Rightarrow> AnnotatedValueSourceInput list option" where
  "recorded avs = foldl (\<lambda>known av. known(av_ID av \<mapsto> av_SourceInputs av)) Map.empty avs"

lemma build_seq_ok:
  assumes "\<And>i. i \<in> set ids \<Longrightarrow> \<exists>t. child i = Some (Inr t)"
  shows "build_seq child ids = Some (Inr (map (\<lambda>i. projr (the (child i))) ids))"
  using assms
proof (induction ids)
  case (Cons i ids)
  from Cons.prems [of i] obtain t where "child i = Some (Inr t)" by auto
  moreover have "\<exists>t. child j = Some (Inr t)" if "j \<in> set ids" for j
    using Cons.prems that by auto
  ultimately show ?case using Cons.IH by simp
qed simp

lemma build_inputs_ok:
  assumes "\<And>i. i \<in> set (concat (map avi_IDs inps)) \<Longrightarrow> \<exists>t. child i = Some (Inr t)"
    and "distinct (map fst m @ map avi_InputName inps)"
  shows "build_inputs child inps m = Some (Inr
    (m @ map (\<lambda>inp. (avi_InputName inp, map (\<lambda>i. projr (the (child i))) (avi_IDs inp))) inps))"
  using assms
proof (induction inps arbitrary: m)
  case (Cons inp inps)
  have s: "build_seq child (avi_IDs inp) = Some (Inr (map (\<lambda>i. projr (the (child i))) (avi_IDs inp)))"
    by (rule build_seq_ok) (use Cons.prems(1) in auto)
  have u: "AList.update (avi_InputName inp) ts m = m @ [(avi_InputName inp, ts)]" for ts
    using Cons.prems(2) by (induction m) auto
  show ?case
    using Cons.prems by (simp add: s u, subst Cons.IH) auto
qed simp

text \<open>The tree of a value whose sources can all be built.\<close>

lemma Build_ok:
  assumes "\<And>i. i \<in> set (source_ids av) \<Longrightarrow> \<exists>src t. get i = Inr src \<and> Build n get src = Some (Inr t)"
    and "distinct_inputs av"
  shows "Build (Suc n) get av = Some (Inr (Tree av (map (\<lambda>inp. (avi_InputName inp,
    map (\<lambda>i. projr (the (Build n get (projr (get i))))) (avi_IDs inp))) (av_SourceInputs av))))"
proof -
  let ?child = "\<lambda>i. case get i of Inl e \<Rightarrow> Some (Inl e) | Inr child \<Rightarrow> Build n get child"
  have c: "?child i = Build n get (projr (get i))"
    if "inp \<in> set (av_SourceInputs av)" "i \<in> set (avi_IDs inp)" for inp i
  proof -
    have "i \<in> set (source_ids av)" using that by (auto simp: source_ids_def)
    from assms(1) [OF this] show ?thesis by auto
  qed
  have "build_inputs ?child (av_SourceInputs av) [] = Some (Inr ([] @ map (\<lambda>inp. (avi_InputName inp,
      map (\<lambda>i. projr (the (?child i))) (avi_IDs inp))) (av_SourceInputs av)))"
  proof (rule build_inputs_ok)
    fix i assume "i \<in> set (concat (map avi_IDs (av_SourceInputs av)))"
    then show "\<exists>t. ?child i = Some (Inr t)"
      using assms(1) [of i] by (auto simp: source_ids_def)
  qed (use assms(2) in \<open>simp add: distinct_inputs_def\<close>)
  moreover have "map (\<lambda>inp. (avi_InputName inp, map (\<lambda>i. projr (the (?child i))) (avi_IDs inp)))
      (av_SourceInputs av) = map (\<lambda>inp. (avi_InputName inp,
    map (\<lambda>i. projr (the (Build n get (projr (get i))))) (avi_IDs inp))) (av_SourceInputs av)"
    by (simp add: c cong: map_cong)
  ultimately show ?thesis by auto
qed

declare Build.simps [simp del]

lemma Build_contains:
  assumes "\<And>i. i \<in> set (source_ids av) \<Longrightarrow> \<exists>src t. get i = Inr src \<and> Build n get src = Some (Inr t)
      \<and> (\<forall>x. ContainsID t x \<longleftrightarrow> derives get src x)"
    and "distinct_inputs av"
  shows "\<exists>t. Build (Suc n) get av = Some (Inr t) \<and> (\<forall>x. ContainsID t x \<longleftrightarrow> derives get av x)"
proof -
  have c: "ContainsID (projr (the (Build n get (projr (get i))))) x \<longleftrightarrow>
      (\<exists>src. get i = Inr src \<and> derives get src x)" if "i \<in> set (source_ids av)" for i x
    using assms(1) [OF that] by auto
  have "Build (Suc n) get av = Some (Inr (Tree av (map (\<lambda>inp. (avi_InputName inp,
    map (\<lambda>i. projr (the (Build n get (projr (get i))))) (avi_IDs inp))) (av_SourceInputs av))))"
    by (rule Build_ok) (use assms in blast)+
  moreover have "ContainsID (Tree av (map (\<lambda>inp. (avi_InputName inp,
    map (\<lambda>i. projr (the (Build n get (projr (get i))))) (avi_IDs inp))) (av_SourceInputs av))) x
      \<longleftrightarrow> derives get av x" for x
  proof -
    have "ContainsID (Tree av (map (\<lambda>inp. (avi_InputName inp,
      map (\<lambda>i. projr (the (Build n get (projr (get i))))) (avi_IDs inp))) (av_SourceInputs av))) x
      \<longleftrightarrow> av_ID av = x \<or> (\<exists>i \<in> set (source_ids av). ContainsID (projr (the (Build n get (projr (get i))))) x)"
      by (auto simp: list_ex_iff source_ids_def)
    also have "\<dots> \<longleftrightarrow> derives get av x"
      unfolding derives_cases [of get av x] using c by auto
    finally show ?thesis .
  qed
  ultimately show ?thesis by blast
qed

lemma recorded_in_order_append:
  "recorded_in_order known (xs @ ys) \<longleftrightarrow> recorded_in_order known xs
     \<and> recorded_in_order (foldl (\<lambda>known av. known(av_ID av \<mapsto> av_SourceInputs av)) known xs) ys"
  by (induction xs arbitrary: known) auto

text \<open>
  A registry is layered when every value has a rank above those of its sources, which are all
  registered.
\<close>

definition layered :: "(string \<Rightarrow> ('e, AnnotatedValue) go_result) \<Rightarrow> (string \<Rightarrow> nat) \<Rightarrow> bool" where
  "layered get rank \<longleftrightarrow> (\<forall>i av. get i = Inr av \<longrightarrow> distinct_inputs av
     \<and> (\<forall>j \<in> set (source_ids av). rank j < rank i \<and> (\<exists>src. get j = Inr src)))"

lemma layered_tree:
  assumes "layered get rank" and "get i = Inr av" and "rank i < n"
  shows "\<exists>t. Build n get av = Some (Inr t) \<and> (\<forall>x. ContainsID t x \<longleftrightarrow> derives get av x)"
  using assms(2,3)
proof (induction n arbitrary: i av)
  case (Suc n)
  show ?case
  proof (rule Build_contains)
    fix j assume j: "j \<in> set (source_ids av)"
    then obtain src where "get j = Inr src" "rank j < n"
      using assms(1) Suc.prems unfolding layered_def by fastforce
    with Suc.IH [of j src] show "\<exists>src t. get j = Inr src \<and> Build n get src = Some (Inr t)
        \<and> (\<forall>x. ContainsID t x \<longleftrightarrow> derives get src x)" by blast
  qed (use assms(1) Suc.prems in \<open>simp add: layered_def\<close>)
qed simp

context av_registry
begin

lemma records_layered:
  assumes "recorded_in_order Map.empty avs"
  shows "(\<forall>i. recorded avs i = (case get_by_id (foldl record_av empty avs) i of
       Inr av \<Rightarrow> Some (av_SourceInputs av) | Inl e \<Rightarrow> None))
    \<and> (\<exists>rank. layered (get_by_id (foldl record_av empty avs)) rank \<and> (\<forall>i. rank i < Suc (length avs))
         \<and> (\<forall>i av. get_by_id (foldl record_av empty avs) i = Inr av \<longrightarrow> rank i < length avs))"
  using assms
proof (induction avs rule: rev_induct)
  case Nil
  have e: "get_by_id empty i \<noteq> Inr av" for i av using get_empty [of i] by auto
  then have "layered (get_by_id empty) (\<lambda>i. 0)" by (simp add: layered_def)
  with e show ?case by (auto simp: recorded_def split: sum.split)
next
  case (snoc av avs)
  let ?get = "get_by_id (foldl record_av empty avs)"
  let ?get' = "get_by_id (foldl record_av empty (avs @ [av]))"
  have pre: "recorded_in_order Map.empty avs" and now: "case recorded avs (av_ID av) of
      Some inputs \<Rightarrow> av_SourceInputs av = inputs
    | None \<Rightarrow> distinct_inputs av \<and> list_all (\<lambda>i. recorded avs i \<noteq> None) (source_ids av)"
    using snoc.prems by (simp_all add: recorded_in_order_append flip: recorded_def)
  from snoc.IH [OF pre] obtain rank where rec: "\<And>i. recorded avs i = (case ?get i of
       Inr av \<Rightarrow> Some (av_SourceInputs av) | Inl e \<Rightarrow> None)"
    and lay: "layered ?get rank" and rank: "\<And>i. rank i < Suc (length avs)"
      "\<And>i av. ?get i = Inr av \<Longrightarrow> rank i < length avs" by blast
  have get': "?get' i = (if i = av_ID av then Inr av else ?get i)" for i by (simp add: get_record)
  have rec': "recorded (avs @ [av]) i = (case ?get' i of Inr av \<Rightarrow> Some (av_SourceInputs av) | Inl e \<Rightarrow> None)" for i
    using rec [of i] by (simp add: recorded_def get_record)
  have known: "recorded avs j \<noteq> None \<longleftrightarrow> (\<exists>src. ?get j = Inr src)" for j
    by (simp add: rec split: sum.split)
  show ?case
  proof (cases "recorded avs (av_ID av)")
    case None
    define rank' where "rank' = rank(av_ID av := length avs)"
    have src: "rank j < length avs \<and> j \<noteq> av_ID av \<and> (\<exists>src. ?get j = Inr src)"
      if "j \<in> set (source_ids av)" for j
      using that now None known [of j] rank(2) by (auto simp: list_all_iff)
    have ne: "j \<noteq> av_ID av" if "?get j = Inr b" for j b using that known [of j] None by auto
    have "layered ?get' rank'"
      using lay src ne now None unfolding layered_def rank'_def get' by (auto split: if_splits) blast+
    moreover have "rank' i < Suc (length (avs @ [av]))" for i using rank(1) [of i] by (simp add: rank'_def)
    moreover have "rank' i < length (avs @ [av])" for i using rank(1) [of i] by (simp add: rank'_def)
    ultimately show ?thesis using rec' by blast
  next
    case (Some inputs)
    then obtain b where b: "?get (av_ID av) = Inr b" "av_SourceInputs b = av_SourceInputs av"
      using now known [of "av_ID av"] rec [of "av_ID av"] by auto
    then have "source_ids b = source_ids av" "distinct_inputs b = distinct_inputs av"
      by (simp_all add: source_ids_def distinct_inputs_def)
    then have "layered ?get' rank"
      using lay b(1) unfolding layered_def get' by (auto split: if_splits)
    moreover have "rank i < Suc (length (avs @ [av]))" for i using rank(1) [of i] by simp
    moreover have "rank i < length (avs @ [av])" for i using rank(1) [of i] by simp
    ultimately show ?thesis using rec' by blast
  qed
qed

text \<open>Any recorded value has the sources of the value its ID stands for.\<close>

lemma recorded_sources:
  assumes "recorded_in_order Map.empty avs" and "av \<in> set avs"
  shows "\<exists>b. get_by_id (foldl record_av empty avs) (av_ID av) = Inr b
    \<and> av_SourceInputs b = av_SourceInputs av"
proof -
  have "recorded avs (av_ID av) = Some (av_SourceInputs av)"
    using assms
  proof (induction avs rule: rev_induct)
    case (snoc c avs)
    then show ?case
      by (auto simp: recorded_in_order_append recorded_def split: option.splits)
  qed simp
  moreover have "recorded avs (av_ID av) = (case get_by_id (foldl record_av empty avs) (av_ID av) of
      Inr av \<Rightarrow> Some (av_SourceInputs av) | Inl e \<Rightarrow> None)"
    using records_layered [OF assms(1)] by blast
  ultimately show ?thesis by (auto split: sum.splits)
qed

lemma tree_complete:
  assumes "recorded_in_order Map.empty avs" and "av \<in> set avs" and "length avs \<le> n"
  shows "\<exists>t. Build n (get_by_id (foldl record_av empty avs)) av = Some (Inr t)
    \<and> (\<forall>x. ContainsID t x \<longleftrightarrow> derives (get_by_id (foldl record_av empty avs)) av x)"
proof -
  let ?get = "get_by_id (foldl record_av empty avs)"
  obtain rank where lay: "layered ?get rank" and rank: "\<And>i av. ?get i = Inr av \<Longrightarrow> rank i < length avs"
    using records_layered [OF assms(1)] by blast
  obtain b where b: "?get (av_ID av) = Inr b" "av_SourceInputs b = av_SourceInputs av"
    using recorded_sources [OF assms(1,2)] by blast
  then have "distinct_inputs b" using lay unfolding layered_def by blast
  with b(2) have src: "source_ids av = source_ids b" "distinct_inputs av"
    by (simp_all add: source_ids_def distinct_inputs_def)
  obtain m where m: "n = Suc m" using assms(2,3) by (cases avs; cases n) auto
  show ?thesis unfolding m
  proof (rule Build_contains)
    fix j assume "j \<in> set (source_ids av)"
    then obtain s where "?get j = Inr s" "rank j < rank (av_ID av)"
      using lay b(1) src(1) unfolding layered_def by fastforce
    moreover have "rank (av_ID av) < Suc m" using rank [OF b(1)] m assms(3) by simp
    ultimately show "\<exists>src t. ?get j = Inr src \<and> Build m ?get src = Some (Inr t)
        \<and> (\<forall>x. ContainsID t x \<longleftrightarrow> derives ?get src x)"
      using layered_tree [OF lay, of j s m] by auto
  qed (rule src(2))
qed

end

section \<open>Properties\<close>

text \<open>A query to the in-memory registry returns exactly the values that the request
  selects among those recorded last under their ID, whatever the order in which the runtime
  ranges over the registry's map, and no ID twice.\<close>

theorem registry_query:
  assumes "map_order es (foldl Record NewStub_registry avs)"
  shows "set (Get es req) =
      {av. find (\<lambda>a. av_ID a = av_ID av) (rev avs) = Some av \<and> selects req av}
    \<and> distinct (map av_ID (Get es req))"
proof
  have keys: "k = av_ID av" if "(k, av) \<in> set es" for k av
    using that records_entries [OF assms] by (auto dest: find_SomeD)
  then have ids: "map fst es = map (\<lambda>e. av_ID (snd e)) es" by auto
  show "set (Get es req) =
      {av. find (\<lambda>a. av_ID a = av_ID av) (rev avs) = Some av \<and> selects req av}"
  proof (rule set_eqI)
    fix av
    have "av \<in> set (Get es req) \<longleftrightarrow> (\<exists>k. (k, av) \<in> set es) \<and> selects req av"
      by (force simp: Get_filter)
    also have "(\<exists>k. (k, av) \<in> set es) \<longleftrightarrow> (av_ID av, av) \<in> set es" using keys by auto
    finally show "av \<in> set (Get es req) \<longleftrightarrow>
        av \<in> {av. find (\<lambda>a. av_ID a = av_ID av) (rev avs) = Some av \<and> selects req av}"
      using records_entries [OF assms, of "av_ID av" av] by simp
  qed
  have "gomap_ok es"
    using map_order_ok [OF assms] by (simp add: records_ok NewStub_registry_def)
  then have "distinct (map av_ID (map snd es))" using ids by (simp add: gomap_ok_def comp_def)
  then show "distinct (map av_ID (Get es req))"
    unfolding Get_filter by (rule distinct_map_filter)
qed

definition example_av :: "string \<Rightarrow> string list \<Rightarrow> AnnotatedValue" where
  "example_av i srcs = \<lparr>av_ID = i, av_SourceTask = ''task'', av_SourceTaskOutput = ''out'',
     av_Link = [], av_SourceInputs = [\<lparr>avi_IDs = srcs, avi_InputName = ''in''\<rparr>],
     av_Data = ''data:x'', av_CreatedAt = Some \<lparr>tm_Seconds = 5, tm_Nanos = 0\<rparr>\<rparr>"

definition example_request :: GetRequest where
  "example_request = \<lparr>gr_IDs = [''a''], gr_SourceTasks = [], gr_Data = [],
     gr_CreatedAfter = Some \<lparr>tm_Seconds = 5, tm_Nanos = 0\<rparr>, gr_CreatedBefore = None\<rparr>"

lemma registry_query_witness:
  "distinct (map av_ID (Get [(''b'', example_av ''b'' [''a'']), (''a'', example_av ''a'' [])]
     example_request))"
proof -
  have "map_order [(''b'', example_av ''b'' [''a'']), (''a'', example_av ''a'' [])]
      (foldl Record NewStub_registry [example_av ''a'' [], example_av ''b'' [''a'']])"
    by (simp add: map_order_def NewStub_registry_def Record_def example_av_def)
  from registry_query [OF this] show ?thesis by simp
qed

text \<open>When every value is recorded after the values it was made from (and again, by every
  link it goes to, with the same sources), building the tree of any recorded value ends successfully
  (with as many levels of recursion as there are records), and the tree contains exactly the IDs of
  the values it derives from.\<close>

theorem tree_of_recorded_value:
  assumes "recorded_in_order Map.empty avs" and "av \<in> set avs"
  shows "\<exists>t. Build (length avs) (GetByID (foldl Record NewStub_registry avs)) av = Some (Inr t)
    \<and> (\<forall>x. ContainsID t x \<longleftrightarrow> derives (GetByID (foldl Record NewStub_registry avs)) av x)"
  by (rule registry.tree_complete [OF assms order_refl])

definition example_values :: "AnnotatedValue list" where
  "example_values = [example_av ''a'' [], example_av ''b'' [''a'']]"

lemma example_values_facts:
  "recorded_in_order Map.empty example_values"
  "GetByID (foldl Record NewStub_registry example_values) ''a'' = Inr (example_av ''a'' [])"
  by (simp_all add: example_values_def example_av_def source_ids_def distinct_inputs_def
      GetByID_def Record_def NewStub_registry_def)

lemma example_derives:
  "derives (GetByID (foldl Record NewStub_registry example_values)) (example_av ''b'' [''a'']) ''a''"
proof (rule derives_source)
  show "''a'' \<in> set (source_ids (example_av ''b'' [''a'']))"
    by (simp add: source_ids_def example_av_def)
  show "derives (GetByID (foldl Record NewStub_registry example_values)) (example_av ''a'' []) ''a''"
    using derives_self [of _ "example_av ''a'' []"] by (simp add: example_av_def)
qed (rule example_values_facts)

lemma tree_of_recorded_value_witness:
  "\<exists>t. Build (length example_values) (GetByID (foldl Record NewStub_registry example_values))
     (example_av ''b'' [''a'']) = Some (Inr t) \<and> ContainsID t ''a''"
proof -
  have "example_av ''b'' [''a''] \<in> set example_values" by (simp add: example_values_def)
  from tree_of_recorded_value [OF example_values_facts(1) this] example_derives
  show ?thesis by blast
qed

end
