(* ===== verification/Link_Stub.thy ===== *)
theory Link_Stub
  imports Annotated_Value Statistics
begin

text \<open>
  The in-memory link between two tasks (\<open>pkg/agent/link/stub\<close>): publishers put values into a
  bounded queue, subscribers take them out, acknowledge them, and give back what they have not
  acknowledged when they close their subscription.

  Every operation is split at the points where the code holds no lock: each definition of the
  section on operations is one atomic section, and the handlers compose them.  The step relation
  at the end interleaves the atomic sections of any number of concurrent calls.  Times are
  nanoseconds; a \<open>select\<close> takes the branch to follow as an argument.
\<close>

section \<open>State\<close>

record subscription =
  sub_id :: int
  sub_clientID :: string
  sub_expiresAt :: int
  sub_inflight :: "AnnotatedValue list"

record link_stub =
  st_uri :: string
  st_queue :: "AnnotatedValue list"
  st_retryQueue :: "AnnotatedValue list"
  st_subscriptions :: "(int, subscription) gomap"
  st_lastSubscriptionID :: int
  st_statistics :: LinkStatistics

definition queueSize :: nat where "queueSize = 1024"
definition retryQueueSize :: nat where "retryQueueSize = 32"
definition subscriptionTTL :: int where "subscriptionTTL = 60 * 1000000000"
definition maxAnnotatedValuesWaiting :: int where "maxAnnotatedValuesWaiting = 10"

datatype link_error =
    LE_Record
  | LE_Context
  | LE_SubscriptionNotFound int
  | LE_SubscriptionGone int
  | LE_RetryQueueFull
  | LE_NotInflight int string

definition NewStub_link :: "string \<Rightarrow> LinkStatistics \<Rightarrow> link_stub" where
  "NewStub_link uri stats = \<lparr>st_uri = uri, st_queue = [], st_retryQueue = [],
     st_subscriptions = [], st_lastSubscriptionID = 0, st_statistics = stats\<rparr>"

section \<open>Operations\<close>

definition add_waiting :: "int \<Rightarrow> LinkStatistics \<Rightarrow> LinkStatistics" where
  "add_waiting d st =
     st\<lparr>ls_AnnotatedValuesWaiting := ls_AnnotatedValuesWaiting st + d\<rparr>"

definition add_in_progress :: "int \<Rightarrow> LinkStatistics \<Rightarrow> LinkStatistics" where
  "add_in_progress d st =
     st\<lparr>ls_AnnotatedValuesInProgress := ls_AnnotatedValuesInProgress st + d\<rparr>"

definition add_acknowledged :: "int \<Rightarrow> LinkStatistics \<Rightarrow> LinkStatistics" where
  "add_acknowledged d st =
     st\<lparr>ls_AnnotatedValuesAcknowledged := ls_AnnotatedValuesAcknowledged st + d\<rparr>"

definition RenewExpiresAt :: "int \<Rightarrow> subscription \<Rightarrow> subscription" where
  "RenewExpiresAt now s = s\<lparr>sub_expiresAt := now + subscriptionTTL\<rparr>"

definition put_subscription :: "subscription \<Rightarrow> link_stub \<Rightarrow> link_stub" where
  "put_subscription sub s =
     s\<lparr>st_subscriptions := AList.update (sub_id sub) sub (st_subscriptions s)\<rparr>"

definition CanPublish :: "link_stub \<Rightarrow> bool" where
  "CanPublish s \<longleftrightarrow> ls_AnnotatedValuesWaiting (st_statistics s) < maxAnnotatedValuesWaiting"

text \<open>
  \<open>Publish\<close>: the copy of the value with the link's URI is recorded in the registry (an external
  service, the argument \<open>record_av\<close>), counted as waiting and then sent to the queue, which blocks
  while the queue is full.
\<close>

definition publish_copy :: "link_stub \<Rightarrow> AnnotatedValue \<Rightarrow> AnnotatedValue" where
  "publish_copy s av = av\<lparr>av_Link := st_uri s\<rparr>"

definition publish_count :: "link_stub \<Rightarrow> link_stub" where
  "publish_count s = s\<lparr>st_statistics := add_waiting 1 (st_statistics s)\<rparr>"

definition publish_send :: "AnnotatedValue \<Rightarrow> link_stub \<Rightarrow> link_stub option" where
  "publish_send av s =
     (if length (st_queue s) < queueSize then Some (s\<lparr>st_queue := st_queue s @ [av]\<rparr>) else None)"

datatype publish_choice = SendToQueue | PublishCtxDone

definition Publish ::
  "('w \<Rightarrow> AnnotatedValue \<Rightarrow> 'w option) \<Rightarrow> publish_choice \<Rightarrow> AnnotatedValue \<Rightarrow> link_stub \<Rightarrow> 'w
    \<Rightarrow> (link_error error_only \<times> link_stub \<times> 'w) option" where
  "Publish record_av choice av s w =
     (let av' = publish_copy s av in
      case record_av w av' of
        None \<Rightarrow> Some (Some LE_Record, s, w)
      | Some w' \<Rightarrow>
          let s' = publish_count s in
          (case choice of
             SendToQueue \<Rightarrow> map_option (\<lambda>s''. (None, s'', w')) (publish_send av' s')
           | PublishCtxDone \<Rightarrow> Some (Some LE_Context, s', w')))"

text \<open>\<open>es\<close> is the order in which the runtime ranges over the subscriptions.  The answer is the
  ID of the subscription and the TTL, which only a renewed subscription reports.\<close>

definition Subscribe ::
  "int \<Rightarrow> (int \<times> subscription) list \<Rightarrow> string \<Rightarrow> link_stub \<Rightarrow> (int \<times> int option) \<times> link_stub" where
  "Subscribe now es clientID s =
     (case find (\<lambda>(k, sub). sub_clientID sub = clientID) es of
        Some (k, sub) \<Rightarrow>
          ((sub_id sub, Some subscriptionTTL), put_subscription (RenewExpiresAt now sub) s)
      | None \<Rightarrow>
          let i = st_lastSubscriptionID s + 1;
              sub = \<lparr>sub_id = i, sub_clientID = clientID, sub_expiresAt = now + subscriptionTTL,
                     sub_inflight = []\<rparr>
          in ((i, None), put_subscription sub (s\<lparr>st_lastSubscriptionID := i\<rparr>)))"

definition Ping :: "int \<Rightarrow> int \<Rightarrow> link_stub \<Rightarrow> link_error error_only \<times> link_stub" where
  "Ping now i s =
     (case map_of (st_subscriptions s) i of
        Some sub \<Rightarrow> (None, put_subscription (RenewExpiresAt now sub) s)
      | None \<Rightarrow> (Some (LE_SubscriptionNotFound i), s))"

text \<open>
  \<open>Close\<close>: the loop over the values in flight with its three-way \<open>select\<close>.  \<open>ctx_done k\<close> says
  whether the k-th \<open>select\<close> takes the branch of the expired context.
\<close>

fun close_loop ::
  "(nat \<Rightarrow> bool) \<Rightarrow> nat \<Rightarrow> AnnotatedValue list \<Rightarrow> subscription \<Rightarrow> link_stub
    \<Rightarrow> link_error error_only \<times> subscription \<times> link_stub" where
  "close_loop ctx_done k [] sub s = (None, sub, s)"
| "close_loop ctx_done k (av # avs) sub s =
     (if ctx_done k then (Some LE_Context, sub, s)
      else if length (st_retryQueue s) < retryQueueSize then
        close_loop ctx_done (Suc k) avs
          (sub\<lparr>sub_inflight := drop 1 (sub_inflight sub)\<rparr>)
          (s\<lparr>st_retryQueue := st_retryQueue s @ [av],
             st_statistics := add_waiting 1 (add_in_progress (-1) (st_statistics s))\<rparr>)
      else (Some LE_RetryQueueFull, sub, s))"

definition Close ::
  "(nat \<Rightarrow> bool) \<Rightarrow> int \<Rightarrow> link_stub \<Rightarrow> link_error error_only \<times> link_stub" where
  "Close ctx_done i s =
     (case map_of (st_subscriptions s) i of
        None \<Rightarrow> (Some (LE_SubscriptionNotFound i), s)
      | Some sub \<Rightarrow>
          (let (err, sub', s') = close_loop ctx_done 0 (sub_inflight sub) sub s in
           case err of
             Some e \<Rightarrow> (Some e, put_subscription sub' s')
           | None \<Rightarrow> (None, s'\<lparr>st_subscriptions := AList.delete i (st_subscriptions s')\<rparr>)))"

text \<open>\<open>Next\<close>: renew the subscription, wait for a value, put it in flight.\<close>

definition next_lookup :: "int \<Rightarrow> int \<Rightarrow> link_stub \<Rightarrow> link_error error_only \<times> link_stub" where
  "next_lookup now i s =
     (case map_of (st_subscriptions s) i of
        None \<Rightarrow> (Some (LE_SubscriptionNotFound i), s)
      | Some sub \<Rightarrow> (None, put_subscription (RenewExpiresAt now sub) s))"

definition receive_retry :: "link_stub \<Rightarrow> (AnnotatedValue \<times> link_stub) option" where
  "receive_retry s =
     (case st_retryQueue s of [] \<Rightarrow> None | e # q \<Rightarrow> Some (e, s\<lparr>st_retryQueue := q\<rparr>))"

definition receive_queue :: "link_stub \<Rightarrow> (AnnotatedValue \<times> link_stub) option" where
  "receive_queue s =
     (case st_queue s of [] \<Rightarrow> None | e # q \<Rightarrow> Some (e, s\<lparr>st_queue := q\<rparr>))"

definition set_inflight ::
  "int \<Rightarrow> int \<Rightarrow> AnnotatedValue \<Rightarrow> link_stub
    \<Rightarrow> (link_error, AnnotatedValue option) go_result \<times> link_stub" where
  "set_inflight now i av s =
     (case map_of (st_subscriptions s) i of
        None \<Rightarrow> (Inl (LE_SubscriptionGone i), s)
      | Some sub \<Rightarrow>
          let sub' = (RenewExpiresAt now sub)\<lparr>sub_inflight := sub_inflight sub @ [av]\<rparr> in
          (Inr (Some av),
           (put_subscription sub' s)
             \<lparr>st_statistics := add_waiting (-1) (add_in_progress 1 (st_statistics s))\<rparr>))"

datatype next_choice = FromRetryQueue | FromQueue | WaitTimedOut | NextCtxDone

text \<open>A call of \<open>Next\<close> that no other call interrupts; \<open>None\<close> when the chosen channel is empty.\<close>

definition Next ::
  "int \<Rightarrow> next_choice \<Rightarrow> int \<Rightarrow> link_stub
    \<Rightarrow> ((link_error, AnnotatedValue option) go_result \<times> link_stub) option" where
  "Next now choice i s =
     (case next_lookup now i s of
        (Some e, s') \<Rightarrow> Some (Inl e, s')
      | (None, s') \<Rightarrow>
          (case choice of
             FromRetryQueue \<Rightarrow>
               map_option (\<lambda>(e, s''). set_inflight now i e s'') (receive_retry s')
           | FromQueue \<Rightarrow> map_option (\<lambda>(e, s''). set_inflight now i e s'') (receive_queue s')
           | WaitTimedOut \<Rightarrow> Some (Inr None, s')
           | NextCtxDone \<Rightarrow> Some (Inl LE_Context, s')))"

text \<open>The loop of \<open>Ack\<close> over the values in flight: the list without the first value that has the
  ID, or \<open>None\<close> when there is none.\<close>

fun remove_inflight :: "string \<Rightarrow> AnnotatedValue list \<Rightarrow> AnnotatedValue list option" where
  "remove_inflight avID [] = None"
| "remove_inflight avID (av # avs) =
     (if av_ID av = avID then Some avs else map_option ((#) av) (remove_inflight avID avs))"

definition Ack :: "int \<Rightarrow> int \<Rightarrow> string \<Rightarrow> link_stub \<Rightarrow> link_error error_only \<times> link_stub" where
  "Ack now i avID s =
     (case map_of (st_subscriptions s) i of
        None \<Rightarrow> (Some (LE_SubscriptionNotFound i), s)
      | Some sub \<Rightarrow>
          (case remove_inflight avID (sub_inflight sub) of
             Some avs \<Rightarrow>
               (None, (put_subscription ((RenewExpiresAt now sub)\<lparr>sub_inflight := avs\<rparr>) s)
                  \<lparr>st_statistics := add_acknowledged 1 (add_in_progress (-1) (st_statistics s))\<rparr>)
           | None \<Rightarrow>
               (Some (LE_NotInflight i avID), put_subscription (RenewExpiresAt now sub) s)))"

section \<open>Well-formed subscriptions\<close>

definition subs_wf :: "link_stub \<Rightarrow> bool" where
  "subs_wf s \<longleftrightarrow>
     gomap_ok (st_subscriptions s)
     \<and> (\<forall>(k, sub) \<in> set (st_subscriptions s). sub_id sub = k \<and> 0 < k \<and> k \<le> st_lastSubscriptionID s)
     \<and> distinct (map (\<lambda>(k, sub). sub_clientID sub) (st_subscriptions s))
     \<and> 0 \<le> st_lastSubscriptionID s"

definition queues_wf :: "link_stub \<Rightarrow> bool" where
  "queues_wf s \<longleftrightarrow> length (st_queue s) \<le> queueSize \<and> length (st_retryQueue s) \<le> retryQueueSize"

definition in_flight :: "link_stub \<Rightarrow> AnnotatedValue multiset" where
  "in_flight s = contents sub_inflight (st_subscriptions s)"

definition queued :: "link_stub \<Rightarrow> AnnotatedValue multiset" where
  "queued s = mset (st_queue s) + mset (st_retryQueue s)"

text \<open>
  \<open>ledger s\<close> compares two states of a link: values queued or in flight, the counters, and
  their differences.
\<close>

definition waiting :: "link_stub \<Rightarrow> int" where
  "waiting s = ls_AnnotatedValuesWaiting (st_statistics s)"

definition in_progress :: "link_stub \<Rightarrow> int" where
  "in_progress s = ls_AnnotatedValuesInProgress (st_statistics s)"

definition acknowledged :: "link_stub \<Rightarrow> int" where
  "acknowledged s = ls_AnnotatedValuesAcknowledged (st_statistics s)"

lemmas link_views = in_flight_def queued_def waiting_def in_progress_def acknowledged_def
lemmas counter_defs = add_waiting_def add_in_progress_def add_acknowledged_def

lemma subs_wf_lookup:
  "subs_wf s \<Longrightarrow> map_of (st_subscriptions s) i = Some sub \<Longrightarrow>
     sub_id sub = i \<and> 0 < i \<and> i \<le> st_lastSubscriptionID s"
  by (fastforce simp: subs_wf_def dest: map_of_SomeD)

lemma distinct_clients_update:
  assumes "map_of m i = Some sub" and "sub_clientID sub' = sub_clientID sub"
  shows "map (\<lambda>(k, sub). sub_clientID sub) (AList.update i sub' m) = map (\<lambda>(k, sub). sub_clientID sub) m"
  using assms by (induction m) (auto split: if_splits)

text \<open>Storing a changed subscription back keeps the table of subscriptions well-formed.\<close>

lemma put_subscription_wf:
  assumes "subs_wf s" and "map_of (st_subscriptions s) i = Some sub"
    and "sub_id sub' = sub_id sub" and "sub_clientID sub' = sub_clientID sub"
  shows "subs_wf (put_subscription sub' s)"
proof -
  have i: "sub_id sub' = i \<and> 0 < i \<and> i \<le> st_lastSubscriptionID s"
    using subs_wf_lookup [OF assms(1,2)] assms(3) by simp
  have ok: "gomap_ok (st_subscriptions s)" using assms(1) by (simp add: subs_wf_def)
  have "\<forall>(k, sub) \<in> set (AList.update i sub' (st_subscriptions s)).
      sub_id sub = k \<and> 0 < k \<and> k \<le> st_lastSubscriptionID s"
    using assms(1) i by (auto simp: subs_wf_def dest!: in_update [OF ok])
  then show ?thesis
    using assms(1) i ok
    by (simp add: subs_wf_def put_subscription_def distinct_clients_update [OF assms(2,4)])
qed

lemma put_subscription_in_flight:
  assumes "subs_wf s" and "map_of (st_subscriptions s) i = Some sub" and "sub_id sub' = sub_id sub"
  shows "in_flight (put_subscription sub' s) + mset (sub_inflight sub) =
     in_flight s + mset (sub_inflight sub')"
  using contents_update [OF assms(2)] subs_wf_lookup [OF assms(1,2)] assms(3)
  by (simp add: in_flight_def put_subscription_def)

lemma put_subscription_other [simp]:
  "st_queue (put_subscription sub s) = st_queue s"
  "st_retryQueue (put_subscription sub s) = st_retryQueue s"
  "st_statistics (put_subscription sub s) = st_statistics s"
  "st_lastSubscriptionID (put_subscription sub s) = st_lastSubscriptionID s"
  "st_uri (put_subscription sub s) = st_uri s"
  by (simp_all add: put_subscription_def)

lemma RenewExpiresAt_simps [simp]:
  "sub_id (RenewExpiresAt now sub) = sub_id sub"
  "sub_clientID (RenewExpiresAt now sub) = sub_clientID sub"
  "sub_inflight (RenewExpiresAt now sub) = sub_inflight sub"
  by (simp_all add: RenewExpiresAt_def)

text \<open>Renewing a subscription changes nothing but its expiration time.\<close>

definition same_link :: "link_stub \<Rightarrow> link_stub \<Rightarrow> bool" where
  "same_link s t \<longleftrightarrow> st_queue t = st_queue s \<and> st_retryQueue t = st_retryQueue s
     \<and> st_statistics t = st_statistics s \<and> in_flight t = in_flight s"

lemma renew_wf:
  assumes "subs_wf s" and "map_of (st_subscriptions s) i = Some sub"
  shows "subs_wf (put_subscription (RenewExpiresAt now sub) s)
    \<and> same_link s (put_subscription (RenewExpiresAt now sub) s)"
  using put_subscription_wf [OF assms, of "RenewExpiresAt now sub"]
    put_subscription_in_flight [OF assms, of "RenewExpiresAt now sub"]
  by (simp add: same_link_def)

lemma same_link_refl [simp]: "same_link s s"
  by (simp add: same_link_def)

lemma Ping_keeps: "subs_wf s \<Longrightarrow> Ping now i s = (err, t) \<Longrightarrow> subs_wf t \<and> same_link s t"
  by (auto simp: Ping_def renew_wf split: option.splits)

lemma next_lookup_keeps:
  "subs_wf s \<Longrightarrow> next_lookup now i s = (err, t) \<Longrightarrow> subs_wf t \<and> same_link s t"
  by (auto simp: next_lookup_def renew_wf split: option.splits)

lemma Subscribe_keeps:
  assumes "subs_wf s" and "map_order es (st_subscriptions s)" and "Subscribe now es c s = (resp, t)"
  shows "subs_wf t \<and> same_link s t"
proof (cases "find (\<lambda>(k, sub). sub_clientID sub = c) es")
  case (Some e)
  obtain k sub where e: "e = (k, sub)" by (cases e)
  have "(k, sub) \<in> set (st_subscriptions s)"
    using find_SomeD [OF Some] map_order_set [OF assms(2)] e by auto
  then have "map_of (st_subscriptions s) k = Some sub"
    using assms(1) by (simp add: subs_wf_def gomap_ok_def)
  from renew_wf [OF assms(1) this] show ?thesis
    using assms(3) Some e by (auto simp: Subscribe_def)
next
  case None
  let ?i = "st_lastSubscriptionID s + 1"
  have fresh: "map_of (st_subscriptions s) ?i = None"
    using assms(1) by (fastforce simp: subs_wf_def map_of_eq_None_iff)
  have "\<forall>(k, sub) \<in> set (st_subscriptions s). sub_clientID sub \<noteq> c"
    using None map_order_set [OF assms(2)] by (auto simp: find_None_all)
  then show ?thesis
    using assms(1,3) None fresh
    by (fastforce simp: Subscribe_def Let_def put_subscription_def subs_wf_def same_link_def
        in_flight_def update_new contents_def gomap_ok_def map_of_eq_None_iff)
qed

section \<open>Effect of each operation\<close>

definition same_counters :: "link_stub \<Rightarrow> link_stub \<Rightarrow> int \<Rightarrow> int \<Rightarrow> int \<Rightarrow> bool" where
  "same_counters s t dw dp da \<longleftrightarrow> waiting t = waiting s + dw \<and> in_progress t = in_progress s + dp
     \<and> acknowledged t = acknowledged s + da"

lemma set_inflight_ok:
  assumes "subs_wf s" and "set_inflight now i av s = (Inr r, t)"
  shows "r = Some av \<and> subs_wf t \<and> in_flight t = add_mset av (in_flight s)
    \<and> st_queue t = st_queue s \<and> st_retryQueue t = st_retryQueue s \<and> same_counters s t (-1) 1 0"
proof -
  obtain sub where sub: "map_of (st_subscriptions s) i = Some sub"
    using assms(2) by (auto simp: set_inflight_def split: option.splits)
  let ?sub = "(RenewExpiresAt now sub)\<lparr>sub_inflight := sub_inflight sub @ [av]\<rparr>"
  have t: "r = Some av" "t = (put_subscription ?sub s)
      \<lparr>st_statistics := add_waiting (-1) (add_in_progress 1 (st_statistics s))\<rparr>"
    using assms(2) sub by (auto simp: set_inflight_def Let_def)
  have "subs_wf (put_subscription ?sub s)"
    by (rule put_subscription_wf [OF assms(1) sub]) simp_all
  then show ?thesis
    using put_subscription_in_flight [OF assms(1) sub, of ?sub] t
    by (auto simp: subs_wf_def in_flight_def same_counters_def link_views counter_defs)
qed

lemma set_inflight_gone: "set_inflight now i av s = (Inl e, t) \<Longrightarrow> t = s"
  by (auto simp: set_inflight_def Let_def split: option.splits)

lemma remove_inflight_Some:
  "remove_inflight i avs = Some rest \<Longrightarrow> \<exists>av. av_ID av = i \<and> mset avs = add_mset av (mset rest)"
  by (induction avs arbitrary: rest) (auto split: if_splits)

lemma Ack_ok:
  assumes "subs_wf s" and "Ack now i avID s = (None, t)"
  shows "\<exists>av. av_ID av = avID \<and> subs_wf t \<and> in_flight s = add_mset av (in_flight t)
    \<and> st_queue t = st_queue s \<and> st_retryQueue t = st_retryQueue s \<and> same_counters s t 0 (-1) 1"
proof -
  obtain sub avs where sub: "map_of (st_subscriptions s) i = Some sub"
    and avs: "remove_inflight avID (sub_inflight sub) = Some avs"
    using assms(2) by (auto simp: Ack_def split: option.splits)
  obtain av where av: "av_ID av = avID" "mset (sub_inflight sub) = add_mset av (mset avs)"
    using remove_inflight_Some [OF avs] by auto
  let ?sub = "(RenewExpiresAt now sub)\<lparr>sub_inflight := avs\<rparr>"
  have t: "t = (put_subscription ?sub s)
      \<lparr>st_statistics := add_acknowledged 1 (add_in_progress (-1) (st_statistics s))\<rparr>"
    using assms(2) sub avs by (simp add: Ack_def)
  have "subs_wf (put_subscription ?sub s)"
    by (rule put_subscription_wf [OF assms(1) sub]) simp_all
  then show ?thesis
    using put_subscription_in_flight [OF assms(1) sub, of ?sub] t av
    by (auto simp: subs_wf_def in_flight_def same_counters_def link_views counter_defs)
qed

lemma Ack_error:
  assumes "subs_wf s" and "Ack now i avID s = (Some e, t)"
  shows "subs_wf t \<and> same_link s t"
  using assms renew_wf [OF assms(1)] by (auto simp: Ack_def split: option.splits)

text \<open>The loop of \<open>Close\<close> moves a prefix of the values in flight to the retry queue.\<close>

lemma close_loop_moves:
  assumes "close_loop ctx_done k avs sub s = (err, sub', s')" and "sub_inflight sub = avs @ rest"
    and "length (st_retryQueue s) \<le> retryQueueSize"
  shows "\<exists>moved left. avs = moved @ left \<and> sub' = sub\<lparr>sub_inflight := left @ rest\<rparr>
    \<and> (err = None \<longrightarrow> left = [])
    \<and> st_retryQueue s' = st_retryQueue s @ moved \<and> length (st_retryQueue s') \<le> retryQueueSize
    \<and> st_queue s' = st_queue s \<and> st_subscriptions s' = st_subscriptions s
    \<and> st_lastSubscriptionID s' = st_lastSubscriptionID s
    \<and> same_counters s s' (int (length moved)) (- int (length moved)) 0"
  using assms
proof (induction avs arbitrary: k sub s)
  case Nil
  then show ?case by (auto simp: same_counters_def)
next
  case (Cons av avs)
  show ?case
  proof (cases "\<not> ctx_done k \<and> length (st_retryQueue s) < retryQueueSize")
    case False
    then have "sub' = sub" "s' = s" "err \<noteq> None" using Cons.prems by (auto split: if_splits)
    then show ?thesis using Cons.prems
      by (intro exI [of _ "[]"] exI [of _ "av # avs"]) (auto simp: same_counters_def)
  next
    case True
    let ?sub = "sub\<lparr>sub_inflight := drop 1 (sub_inflight sub)\<rparr>"
    let ?s = "s\<lparr>st_retryQueue := st_retryQueue s @ [av],
      st_statistics := add_waiting 1 (add_in_progress (-1) (st_statistics s))\<rparr>"
    have "close_loop ctx_done (Suc k) avs ?sub ?s = (err, sub', s')" using True Cons.prems(1) by simp
    from Cons.IH [OF this] True Cons.prems(2) obtain moved left where
      "avs = moved @ left" "sub' = ?sub\<lparr>sub_inflight := left @ rest\<rparr>" "err = None \<longrightarrow> left = []"
      "st_retryQueue s' = st_retryQueue ?s @ moved" "length (st_retryQueue s') \<le> retryQueueSize"
      "st_queue s' = st_queue s" "st_subscriptions s' = st_subscriptions s"
      "st_lastSubscriptionID s' = st_lastSubscriptionID s"
      "same_counters ?s s' (int (length moved)) (- int (length moved)) 0"
      by auto
    then show ?thesis
      by (intro exI [of _ "av # moved"] exI [of _ left])
         (auto simp: same_counters_def link_views counter_defs)
  qed
qed

lemma subs_wf_same_table:
  "st_subscriptions t = st_subscriptions s \<Longrightarrow> st_lastSubscriptionID t = st_lastSubscriptionID s \<Longrightarrow>
     subs_wf t \<longleftrightarrow> subs_wf s"
  by (simp add: subs_wf_def)

lemma delete_subscription_wf:
  "subs_wf s \<Longrightarrow> subs_wf (s\<lparr>st_subscriptions := AList.delete i (st_subscriptions s)\<rparr>)"
  by (auto simp: subs_wf_def AList.delete_eq gomap_ok_def intro: distinct_map_filter)

lemma Close_effect:
  assumes "subs_wf s" and "length (st_retryQueue s) \<le> retryQueueSize" and "Close ctx_done i s = (err, t)"
  shows "\<exists>moved. subs_wf t \<and> in_flight s = in_flight t + mset moved
    \<and> st_queue t = st_queue s \<and> st_retryQueue t = st_retryQueue s @ moved
    \<and> length (st_retryQueue t) \<le> retryQueueSize
    \<and> same_counters s t (int (length moved)) (- int (length moved)) 0
    \<and> (err = None \<longrightarrow> (\<exists>sub. map_of (st_subscriptions s) i = Some sub \<and> moved = sub_inflight sub)
         \<and> map_of (st_subscriptions t) i = None)"
proof (cases "map_of (st_subscriptions s) i")
  case None
  then show ?thesis using assms by (auto simp: Close_def same_counters_def)
next
  case (Some sub)
  obtain err' sub' s' where c: "close_loop ctx_done 0 (sub_inflight sub) sub s = (err', sub', s')"
    using prod_cases3 by blast
  from close_loop_moves [OF c, of "[]"] assms(2) obtain moved left where
    ml: "sub_inflight sub = moved @ left" "sub' = sub\<lparr>sub_inflight := left\<rparr>" "err' = None \<longrightarrow> left = []"
    and s': "st_retryQueue s' = st_retryQueue s @ moved" "length (st_retryQueue s') \<le> retryQueueSize"
      "st_queue s' = st_queue s" "st_subscriptions s' = st_subscriptions s"
      "st_lastSubscriptionID s' = st_lastSubscriptionID s"
      "same_counters s s' (int (length moved)) (- int (length moved)) 0"
    by auto
  have wf': "subs_wf s'" "in_flight s' = in_flight s" and sub': "map_of (st_subscriptions s') i = Some sub"
    using assms(1) s' Some subs_wf_same_table [of s' s] by (simp_all add: in_flight_def)
  show ?thesis
  proof (cases err')
    case None
    then have t: "err = None" "t = s'\<lparr>st_subscriptions := AList.delete i (st_subscriptions s')\<rparr>"
      using assms(3) Some c by (auto simp: Close_def)
    have "in_flight t + mset (sub_inflight sub) = in_flight s"
      using contents_delete [OF _ sub', of sub_inflight] wf' t by (simp add: in_flight_def subs_wf_def)
    with t None ml s' Some delete_subscription_wf [OF wf'(1)] show ?thesis
      by (intro exI [of _ moved]) (auto simp: same_counters_def link_views delete_conv')
  next
    case e: (Some e)
    then have t: "err = Some e" "t = put_subscription sub' s'"
      using assms(3) Some c by (auto simp: Close_def)
    have "subs_wf t" unfolding t(2)
      by (rule put_subscription_wf [OF wf'(1) sub']) (simp_all add: ml)
    moreover have "in_flight t + mset (sub_inflight sub) = in_flight s + mset left"
      using put_subscription_in_flight [OF wf'(1) sub', of sub'] t ml wf'(2) by simp
    ultimately show ?thesis using t ml s' by (intro exI [of _ moved]) (auto simp: same_counters_def link_views)
  qed
qed

section \<open>Concurrent calls\<close>

text \<open>
  The link with the calls that are between two of their atomic sections: values counted but not
  yet sent by \<open>Publish\<close>, subscriptions whose \<open>Next\<close> waits for a value, values received by
  \<open>Next\<close> but not yet in flight.  The remaining fields record the history: every value accepted
  for publication, every value given up, acknowledged, sent to and taken from the queue.
\<close>

record link_system =
  sys_stub :: link_stub
  sys_publishing :: "AnnotatedValue multiset"
  sys_calls :: "int multiset"
  sys_receiving :: "(int \<times> AnnotatedValue) multiset"
  sys_published :: "AnnotatedValue multiset"
  sys_dropped :: "AnnotatedValue multiset"
  sys_acked :: "AnnotatedValue multiset"
  sys_sent :: "AnnotatedValue list"
  sys_taken :: "AnnotatedValue list"

datatype link_step =
    LPublish AnnotatedValue
  | LSend AnnotatedValue
  | LPublishCancelled AnnotatedValue
  | LSubscribe string
  | LPing int
  | LClose int
  | LNext int
  | LGiveUp int
  | LReceiveRetry int
  | LReceiveQueue int
  | LSetInflight int AnnotatedValue
  | LAck int string

inductive link_trans :: "link_system \<Rightarrow> link_step \<Rightarrow> link_system \<Rightarrow> bool" where
  step_publish:
    "av' = publish_copy (sys_stub c) av \<Longrightarrow>
     link_trans c (LPublish av) (c\<lparr>sys_stub := publish_count (sys_stub c),
       sys_publishing := add_mset av' (sys_publishing c),
       sys_published := add_mset av' (sys_published c)\<rparr>)"
| step_send:
    "av \<in># sys_publishing c \<Longrightarrow> publish_send av (sys_stub c) = Some s' \<Longrightarrow>
     link_trans c (LSend av) (c\<lparr>sys_stub := s', sys_publishing := sys_publishing c - {#av#},
       sys_sent := sys_sent c @ [av]\<rparr>)"
| step_publish_cancelled:
    "av \<in># sys_publishing c \<Longrightarrow>
     link_trans c (LPublishCancelled av) (c\<lparr>sys_publishing := sys_publishing c - {#av#},
       sys_dropped := add_mset av (sys_dropped c)\<rparr>)"
| step_subscribe:
    "map_order es (st_subscriptions (sys_stub c)) \<Longrightarrow>
     Subscribe now es client (sys_stub c) = (resp, s') \<Longrightarrow>
     link_trans c (LSubscribe client) (c\<lparr>sys_stub := s'\<rparr>)"
| step_ping:
    "Ping now i (sys_stub c) = (err, s') \<Longrightarrow> link_trans c (LPing i) (c\<lparr>sys_stub := s'\<rparr>)"
| step_close:
    "Close ctx_done i (sys_stub c) = (err, s') \<Longrightarrow> link_trans c (LClose i) (c\<lparr>sys_stub := s'\<rparr>)"
| step_next:
    "next_lookup now i (sys_stub c) = (None, s') \<Longrightarrow>
     link_trans c (LNext i) (c\<lparr>sys_stub := s', sys_calls := add_mset i (sys_calls c)\<rparr>)"
| step_give_up:
    "i \<in># sys_calls c \<Longrightarrow> link_trans c (LGiveUp i) (c\<lparr>sys_calls := sys_calls c - {#i#}\<rparr>)"
| step_receive_retry:
    "i \<in># sys_calls c \<Longrightarrow> receive_retry (sys_stub c) = Some (av, s') \<Longrightarrow>
     link_trans c (LReceiveRetry i) (c\<lparr>sys_stub := s', sys_calls := sys_calls c - {#i#},
       sys_receiving := add_mset (i, av) (sys_receiving c)\<rparr>)"
| step_receive_queue:
    "i \<in># sys_calls c \<Longrightarrow> receive_queue (sys_stub c) = Some (av, s') \<Longrightarrow>
     link_trans c (LReceiveQueue i) (c\<lparr>sys_stub := s', sys_calls := sys_calls c - {#i#},
       sys_receiving := add_mset (i, av) (sys_receiving c), sys_taken := sys_taken c @ [av]\<rparr>)"
| step_set_inflight:
    "(i, av) \<in># sys_receiving c \<Longrightarrow> set_inflight now i av (sys_stub c) = (Inr r, s') \<Longrightarrow>
     link_trans c (LSetInflight i av) (c\<lparr>sys_stub := s',
       sys_receiving := sys_receiving c - {#(i, av)#}\<rparr>)"
| step_subscription_gone:
    "(i, av) \<in># sys_receiving c \<Longrightarrow> set_inflight now i av (sys_stub c) = (Inl e, s') \<Longrightarrow>
     link_trans c (LSetInflight i av) (c\<lparr>sys_stub := s',
       sys_receiving := sys_receiving c - {#(i, av)#}, sys_dropped := add_mset av (sys_dropped c)\<rparr>)"
| step_ack:
    "Ack now i avID (sys_stub c) = (None, s') \<Longrightarrow>
     link_trans c (LAck i avID) (c\<lparr>sys_stub := s',
       sys_acked := sys_acked c + (in_flight (sys_stub c) - in_flight s')\<rparr>)"
| step_ack_error:
    "Ack now i avID (sys_stub c) = (Some e, s') \<Longrightarrow>
     link_trans c (LAck i avID) (c\<lparr>sys_stub := s'\<rparr>)"

definition link_init :: "link_system \<Rightarrow> bool" where
  "link_init c \<longleftrightarrow> (\<exists>uri name. c = \<lparr>sys_stub = NewStub_link uri \<lparr>ls_Name = name, ls_URI = uri,
     ls_AnnotatedValuesWaiting = 0, ls_AnnotatedValuesInProgress = 0,
     ls_AnnotatedValuesAcknowledged = 0\<rparr>, sys_publishing = {#}, sys_calls = {#},
     sys_receiving = {#}, sys_published = {#}, sys_dropped = {#}, sys_acked = {#},
     sys_sent = [], sys_taken = []\<rparr>)"

definition conserved :: "link_system \<Rightarrow> bool" where
  "conserved c \<longleftrightarrow> sys_published c =
     sys_publishing c + queued (sys_stub c) + image_mset snd (sys_receiving c)
     + in_flight (sys_stub c) + sys_acked c + sys_dropped c"

definition counters_exact :: "link_system \<Rightarrow> bool" where
  "counters_exact c \<longleftrightarrow>
     waiting (sys_stub c) = int (size (sys_publishing c) + size (queued (sys_stub c))
       + size (sys_receiving c) + size (sys_dropped c))
     \<and> in_progress (sys_stub c) = int (size (in_flight (sys_stub c)))
     \<and> acknowledged (sys_stub c) = int (size (sys_acked c))"

definition link_inv :: "link_system \<Rightarrow> bool" where
  "link_inv c \<longleftrightarrow> subs_wf (sys_stub c) \<and> queues_wf (sys_stub c) \<and> conserved c \<and> counters_exact c
     \<and> sys_sent c = sys_taken c @ st_queue (sys_stub c)"

lemmas link_inv_defs = link_inv_def conserved_def counters_exact_def queues_wf_def

lemma link_inv_init: "link_init c \<Longrightarrow> link_inv c"
  by (auto simp: link_init_def link_inv_defs NewStub_link_def subs_wf_def link_views)

lemma same_link_inv:
  assumes "link_inv c" and "subs_wf s'" and "same_link (sys_stub c) s'"
  shows "link_inv (c\<lparr>sys_stub := s'\<rparr>)"
  using assms by (simp add: link_inv_defs same_link_def link_views)

lemma link_inv_step: "link_trans c e d \<Longrightarrow> link_inv c \<Longrightarrow> link_inv d"
proof (induction rule: link_trans.induct)
  case (step_publish av' c av)
  then show ?case by (simp add: link_inv_defs publish_count_def link_views counter_defs subs_wf_def)
next
  case (step_send av c s')
  then show ?case
    by (auto simp: link_inv_defs publish_send_def link_views subs_wf_def dest!: multi_member_split
        split: if_splits)
next
  case (step_publish_cancelled av c)
  then show ?case by (auto simp: link_inv_defs dest!: multi_member_split)
next
  case (step_subscribe es c now client resp s')
  then show ?case using Subscribe_keeps same_link_inv link_inv_def by metis
next
  case (step_ping now i c err s')
  then show ?case using Ping_keeps same_link_inv link_inv_def by metis
next
  case (step_close ctx_done i c err s')
  then obtain moved where "subs_wf s'" "in_flight (sys_stub c) = in_flight s' + mset moved"
    "st_queue s' = st_queue (sys_stub c)" "st_retryQueue s' = st_retryQueue (sys_stub c) @ moved"
    "length (st_retryQueue s') \<le> retryQueueSize"
    "same_counters (sys_stub c) s' (int (length moved)) (- int (length moved)) 0"
    using Close_effect [of "sys_stub c" ctx_done i err s'] by (auto simp: link_inv_def queues_wf_def)
  with step_close(2) show ?case by (simp add: link_inv_defs same_counters_def queued_def)
next
  case (step_next now i c s')
  then show ?case
    using next_lookup_keeps [of "sys_stub c" now i None s']
    by (auto simp: link_inv_defs same_link_def link_views)
next
  case (step_give_up i c)
  then show ?case by (simp add: link_inv_defs)
next
  case (step_receive_retry i c av s')
  then show ?case
    by (auto simp: link_inv_defs receive_retry_def link_views subs_wf_def split: list.splits)
next
  case (step_receive_queue i c av s')
  then show ?case
    by (auto simp: link_inv_defs receive_queue_def link_views subs_wf_def split: list.splits)
next
  case (step_set_inflight i av c now r s')
  then show ?case
    using set_inflight_ok [of "sys_stub c" now i av r s']
    by (auto simp: link_inv_defs same_counters_def queued_def dest!: multi_member_split)
next
  case (step_subscription_gone i av c now e s')
  then show ?case
    using set_inflight_gone [of now i av "sys_stub c" e s']
    by (auto simp: link_inv_defs dest!: multi_member_split)
next
  case (step_ack now i avID c s')
  then obtain av where "subs_wf s'" "in_flight (sys_stub c) = add_mset av (in_flight s')"
    "st_queue s' = st_queue (sys_stub c)" "st_retryQueue s' = st_retryQueue (sys_stub c)"
    "same_counters (sys_stub c) s' 0 (-1) 1"
    using Ack_ok [of "sys_stub c" now i avID s'] by (auto simp: link_inv_def)
  with step_ack(2) show ?case by (simp add: link_inv_defs same_counters_def queued_def)
next
  case (step_ack_error now i avID c e s')
  then show ?case using Ack_error same_link_inv link_inv_def by metis
qed

interpretation link: step_invariant link_init link_trans link_inv
  by unfold_locales (auto intro: link_inv_init link_inv_step)

lemmas link_reach_inv = link.reach_inv

lemma one_subscription_per_client:
  assumes "subs_wf s" and "(k, a) \<in> set (st_subscriptions s)" and "(j, b) \<in> set (st_subscriptions s)"
    and "sub_clientID a = sub_clientID b"
  shows "k = j \<and> a = b"
  using distinct_same_element [of "\<lambda>(k, sub). sub_clientID sub" "st_subscriptions s" "(k, a)" "(j, b)"] assms
  by (simp add: subs_wf_def)

lemma Subscribe_entry:
  assumes "subs_wf s" and "map_order es (st_subscriptions s)" and "Subscribe now es c s = ((i, ttl), t)"
  shows "\<exists>sub. map_of (st_subscriptions t) i = Some sub \<and> sub_clientID sub = c
    \<and> sub_expiresAt sub = now + subscriptionTTL"
proof (cases "find (\<lambda>(k, sub). sub_clientID sub = c) es")
  case (Some e)
  then show ?thesis using assms(3) find_SomeD [OF Some]
    by (auto simp: Subscribe_def put_subscription_def update_conv' RenewExpiresAt_def)
next
  case None
  then show ?thesis using assms(3)
    by (auto simp: Subscribe_def Let_def put_subscription_def update_conv')
qed

lemma Subscribe_same:
  assumes "subs_wf s" and "map_order es (st_subscriptions s)"
    and "map_of (st_subscriptions s) i = Some sub" and "sub_clientID sub = c"
  shows "fst (Subscribe now es c s) = (i, Some subscriptionTTL)"
proof -
  have mem: "(i, sub) \<in> set es"
    using map_of_SomeD [OF assms(3)] map_order_set [OF assms(2)] by simp
  then have "find (\<lambda>(k, sub). sub_clientID sub = c) es \<noteq> None"
    using assms(4) by (auto simp: find_None_all)
  then obtain k sub' where f: "find (\<lambda>(k, sub). sub_clientID sub = c) es = Some (k, sub')" by auto
  have "(k, sub') = (i, sub)"
    using one_subscription_per_client [OF assms(1), of k sub' i sub] find_SomeD [OF f] mem assms(4)
      map_order_set [OF assms(2)] by auto
  with f subs_wf_lookup [OF assms(1,3)] show ?thesis by (simp add: Subscribe_def)
qed

text \<open>A schedule that gives up \<open>n\<close> values, for the examples below.\<close>

definition stuck_after :: "nat \<Rightarrow> link_system \<Rightarrow> bool" where
  "stuck_after n c \<longleftrightarrow> reach link_init link_trans c \<and> size (sys_dropped c) = n
     \<and> sys_publishing c = {#} \<and> queued (sys_stub c) = {#}"

definition empty_statistics :: LinkStatistics where
  "empty_statistics = \<lparr>ls_Name = ''l'', ls_URI = ''u'', ls_AnnotatedValuesWaiting = 0,
     ls_AnnotatedValuesInProgress = 0, ls_AnnotatedValuesAcknowledged = 0\<rparr>"

definition initial_system :: link_system where
  "initial_system = \<lparr>sys_stub = NewStub_link ''u'' empty_statistics, sys_publishing = {#},
     sys_calls = {#}, sys_receiving = {#}, sys_published = {#}, sys_dropped = {#}, sys_acked = {#},
     sys_sent = [], sys_taken = []\<rparr>"

lemma initial_reachable: "reach link_init link_trans initial_system"
  by (rule reach_init) (auto simp: link_init_def initial_system_def empty_statistics_def)

lemma stuck_reachable: "\<exists>c. stuck_after n c"
proof (induction n)
  case 0
  have "stuck_after 0 initial_system"
    using initial_reachable by (simp add: stuck_after_def initial_system_def NewStub_link_def queued_def)
  then show ?case by blast
next
  case (Suc n)
  then obtain c where c: "stuck_after n c" by blast
  let ?av = "publish_copy (sys_stub c) (example_av ''x'' [])"
  let ?c1 = "c\<lparr>sys_stub := publish_count (sys_stub c),
       sys_publishing := add_mset ?av (sys_publishing c),
       sys_published := add_mset ?av (sys_published c)\<rparr>"
  have "reach link_init link_trans c" using c by (simp add: stuck_after_def)
  then have "reach link_init link_trans ?c1"
    by (rule reach_step) (rule step_publish, rule refl)
  then have "reach link_init link_trans (?c1\<lparr>sys_publishing := sys_publishing ?c1 - {#?av#},
       sys_dropped := add_mset ?av (sys_dropped ?c1)\<rparr>)" (is "reach _ _ ?c2")
    by (rule reach_step) (rule step_publish_cancelled, simp)
  moreover have "size (sys_dropped ?c2) = Suc n \<and> sys_publishing ?c2 = {#} \<and> queued (sys_stub ?c2) = {#}"
    using c by (simp add: stuck_after_def publish_count_def queued_def)
  ultimately show ?case unfolding stuck_after_def by blast
qed

section \<open>Properties\<close>

text \<open>C2: Under every interleaving of the calls of any number of publishers and subscribers, each
  published value is in exactly one place (being published, queued, being delivered, in flight,
  acknowledged or given up), the three counters of the link count these places exactly, and the
  two queues stay within their capacity.\<close>

theorem link_conservation:
  assumes "reach link_init link_trans c"
  shows "sys_published c = sys_publishing c + queued (sys_stub c) + image_mset snd (sys_receiving c)
      + in_flight (sys_stub c) + sys_acked c + sys_dropped c
    \<and> counters_exact c
    \<and> length (st_queue (sys_stub c)) \<le> 1024 \<and> length (st_retryQueue (sys_stub c)) \<le> 32"
  using link_reach_inv [OF assms] by (simp add: link_inv_defs queueSize_def retryQueueSize_def)

lemma link_conservation_witness: "counters_exact initial_system"
  using link_conservation [OF initial_reachable] by simp



text \<open>A client has at most one subscription: subscribing again, in any reachable state and
  whatever the map order, returns the same subscription with its lifetime renewed.\<close>

theorem subscribe_idempotent:
  assumes "reach link_init link_trans c" and "map_order es (st_subscriptions (sys_stub c))"
    and "Subscribe now es client (sys_stub c) = ((i, ttl), s')"
    and "map_order es' (st_subscriptions s')"
  shows "fst (Subscribe now' es' client s') = (i, Some subscriptionTTL)
    \<and> (\<exists>sub. map_of (st_subscriptions s') i = Some sub \<and> sub_expiresAt sub = now + subscriptionTTL)"
proof -
  have wf: "subs_wf (sys_stub c)" using link_reach_inv [OF assms(1)] by (simp add: link_inv_def)
  obtain sub where "map_of (st_subscriptions s') i = Some sub" "sub_clientID sub = client"
    "sub_expiresAt sub = now + subscriptionTTL"
    using Subscribe_entry [OF wf assms(2,3)] by blast
  moreover have "subs_wf s'" using Subscribe_keeps [OF wf assms(2,3)] by simp
  ultimately show ?thesis using Subscribe_same assms(4) by blast
qed

lemma subscribe_idempotent_witness:
  "fst (Subscribe 7 (st_subscriptions (snd (Subscribe 5 [] ''me'' (sys_stub initial_system)))) ''me''
     (snd (Subscribe 5 [] ''me'' (sys_stub initial_system)))) = (1, Some subscriptionTTL)"
proof -
  have "map_order [] (st_subscriptions (sys_stub initial_system))"
    by (simp add: initial_system_def NewStub_link_def)
  moreover have "Subscribe 5 [] ''me'' (sys_stub initial_system) =
      ((1, None), snd (Subscribe 5 [] ''me'' (sys_stub initial_system)))"
    by (simp add: Subscribe_def Let_def initial_system_def NewStub_link_def)
  ultimately show ?thesis
    using subscribe_idempotent [OF initial_reachable, of "[]" 5 "''me''" 1 None] map_order_refl by blast
qed

text \<open>Closing a subscription never loses a value: it moves values in flight to the end of the
  retry queue in their order; when it succeeds these are all values of the subscription, which is
  gone, and when it fails (context expired or retry queue full) the values not moved are still in
  flight.  Values and counters of all other subscriptions are unchanged.\<close>

theorem close_gives_back:
  assumes "subs_wf s" and "length (st_retryQueue s) \<le> 32" and "Close ctx_done i s = (err, t)"
  shows "\<exists>moved. in_flight s = in_flight t + mset moved
    \<and> st_retryQueue t = st_retryQueue s @ moved \<and> st_queue t = st_queue s
    \<and> waiting t = waiting s + int (length moved) \<and> in_progress t = in_progress s - int (length moved)
    \<and> (err = None \<longrightarrow> (\<exists>sub. map_of (st_subscriptions s) i = Some sub \<and> moved = sub_inflight sub)
         \<and> map_of (st_subscriptions t) i = None)"
  using Close_effect [OF assms(1) _ assms(3)] assms(2)
  by (auto simp: same_counters_def retryQueueSize_def)

definition example_link :: link_stub where
  "example_link = \<lparr>st_uri = ''u'', st_queue = [], st_retryQueue = [],
     st_subscriptions = [(1, \<lparr>sub_id = 1, sub_clientID = ''me'', sub_expiresAt = 0,
       sub_inflight = [example_av ''a'' [], example_av ''b'' []]\<rparr>)],
     st_lastSubscriptionID = 1, st_statistics = add_in_progress 2 empty_statistics\<rparr>"

lemma close_gives_back_witness:
  "map_of (st_subscriptions (snd (Close (\<lambda>k. False) 1 example_link))) 1 = None
   \<and> in_progress (snd (Close (\<lambda>k. False) 1 example_link)) = 0"
proof -
  have wf: "subs_wf example_link" "length (st_retryQueue example_link) \<le> 32"
    by (simp_all add: subs_wf_def example_link_def gomap_ok_def)
  have "fst (Close (\<lambda>k. False) 1 example_link) = None"
    by (simp add: Close_def example_link_def retryQueueSize_def)
  then have "Close (\<lambda>k. False) 1 example_link = (None, snd (Close (\<lambda>k. False) 1 example_link))"
    by (metis prod.collapse)
  from close_gives_back [OF wf this] show ?thesis
    by (auto simp: example_link_def in_progress_def counter_defs empty_statistics_def)
qed

text \<open>A value received for a subscription that was closed in the meantime is dropped, and a
  dropped value (also one whose publication was cancelled) is counted as waiting forever: once ten
  values are lost this way, the link refuses to publish in that and every later state, even when
  its queues are empty.\<close>

theorem losses_block_link:
  assumes "reach link_init link_trans c" and "10 \<le> size (sys_dropped c)" and "reach (\<lambda>d. d = c) link_trans d"
  shows "\<not> CanPublish (sys_stub d)"
proof -
  have "reach link_init link_trans d \<and> 10 \<le> size (sys_dropped d)"
    using assms(3)
  proof (induction rule: reach.induct)
    case (reach_init s)
    then show ?case using assms by simp
  next
    case (reach_step s e t)
    have "size (sys_dropped s) \<le> size (sys_dropped t)"
      using reach_step.hyps(2) by (cases rule: link_trans.cases) auto
    with reach_step show ?case by (auto intro: reach.reach_step)
  qed
  then have "link_inv d" "10 \<le> size (sys_dropped d)" using link_reach_inv by auto
  then show ?thesis
    by (simp add: CanPublish_def link_inv_defs waiting_def maxAnnotatedValuesWaiting_def)
qed

lemma losses_block_link_witness:
  "\<exists>c. reach link_init link_trans c \<and> queued (sys_stub c) = {#} \<and> sys_publishing c = {#}
     \<and> \<not> CanPublish (sys_stub c)"
proof -
  obtain c where c: "stuck_after 10 c" using stuck_reachable by blast
  then have "\<not> CanPublish (sys_stub c)"
    using losses_block_link [of c c] by (simp add: stuck_after_def reach.reach_init)
  with c show ?thesis by (auto simp: stuck_after_def)
qed

end
