(* ===== verification/Input_Snapshot.thy ===== *)
theory Input_Snapshot
  imports Annotated_Value Statistics
begin

text \<open>
  The snapshot of a task's inputs (\<open>pkg/agent/task/input_snapshot.go\<close>): for every input a
  sequence of annotated values, each with the callback that acknowledges it (if it still has to be
  acknowledged).  A callback is an identifier of type \<open>'a\<close>; calling it is the argument
  \<open>do_ack\<close>, which acts on the outside world \<open>'w\<close>.  A pointer to the statistics of an
  input is the name of the input (\<open>None\<close> is \<open>nil\<close>); using a nil pointer is a panic.
\<close>

section \<open>Data\<close>

type_synonym 'a avActPair = "AnnotatedValue \<times> 'a option"

record 'a inputPair =
  ip_sequence :: "'a avActPair list"
  ip_stats :: "string option"
  ip_minSeqLen :: int

type_synonym 'a InputSnapshot = "(string, 'a inputPair) gomap"

type_synonym ('a, 'w, 'e) ack_fun = "'a \<Rightarrow> AnnotatedValue \<Rightarrow> 'w \<Rightarrow> 'e error_only \<times> 'w"

section \<open>Statistics of an input\<close>

definition upd_input ::
  "string \<Rightarrow> (TaskInputStatistics \<Rightarrow> TaskInputStatistics) \<Rightarrow> TaskStatistics \<Rightarrow> TaskStatistics" where
  "upd_input n f st =
     st\<lparr>tst_Inputs := map (\<lambda>x. if tin_Name x = n then f x else x) (tst_Inputs st)\<rparr>"

definition add_skipped :: "int \<Rightarrow> TaskInputStatistics \<Rightarrow> TaskInputStatistics" where
  "add_skipped d x = x\<lparr>tin_AnnotatedValuesSkipped := tin_AnnotatedValuesSkipped x + d\<rparr>"

definition add_received :: "int \<Rightarrow> TaskInputStatistics \<Rightarrow> TaskInputStatistics" where
  "add_received d x = x\<lparr>tin_AnnotatedValuesReceived := tin_AnnotatedValuesReceived x + d\<rparr>"

definition add_in_progress_input :: "int \<Rightarrow> TaskInputStatistics \<Rightarrow> TaskInputStatistics" where
  "add_in_progress_input d x =
     x\<lparr>tin_AnnotatedValuesInProgress := tin_AnnotatedValuesInProgress x + d\<rparr>"

definition add_processed :: "int \<Rightarrow> TaskInputStatistics \<Rightarrow> TaskInputStatistics" where
  "add_processed d x =
     x\<lparr>tin_AnnotatedValuesProcessed := tin_AnnotatedValuesProcessed x + d\<rparr>"

section \<open>Operations on one input\<close>

definition pair_IsReadyForExecution :: "'a inputPair \<Rightarrow> bool" where
  "pair_IsReadyForExecution ip \<longleftrightarrow> int (length (ip_sequence ip)) \<ge> ip_minSeqLen ip"

definition pair_GetSequence :: "'a inputPair \<Rightarrow> AnnotatedValue list" where
  "pair_GetSequence ip = map fst (ip_sequence ip)"

text \<open>The clone does not copy the minimum length, so that of the clone is zero.\<close>

definition pair_Clone :: "'a inputPair \<Rightarrow> 'a inputPair" where
  "pair_Clone ip = \<lparr>ip_sequence = ip_sequence ip, ip_stats = ip_stats ip, ip_minSeqLen = 0\<rparr>"

text \<open>The loop of \<open>Add\<close> that acknowledges and removes the first values of a full sequence.\<close>

fun add_make_room ::
  "('a, 'w, 'e) ack_fun \<Rightarrow> int \<Rightarrow> string \<Rightarrow> 'a avActPair list \<Rightarrow> TaskStatistics \<Rightarrow> 'w
    \<Rightarrow> 'e error_only \<times> 'a avActPair list \<times> TaskStatistics \<times> 'w" where
  "add_make_room do_ack maxLen stats [] st w = (None, [], st, w)"
| "add_make_room do_ack maxLen stats ((av, ack) # rest) st w =
     (if int (length ((av, ack) # rest)) < maxLen then (None, (av, ack) # rest, st, w)
      else
        (case (case ack of None \<Rightarrow> (None, w) | Some a \<Rightarrow> do_ack a av w) of
           (Some e, w') \<Rightarrow> (Some e, (av, ack) # rest, st, w')
         | (None, w') \<Rightarrow>
             add_make_room do_ack maxLen stats rest (upd_input stats (add_skipped 1) st) w'))"

definition pair_Add ::
  "('a, 'w, 'e) ack_fun \<Rightarrow> AnnotatedValue option \<Rightarrow> int \<Rightarrow> string \<Rightarrow> 'a option
    \<Rightarrow> 'a inputPair \<Rightarrow> TaskStatistics \<Rightarrow> 'w
    \<Rightarrow> 'e error_only \<times> 'a inputPair \<times> TaskStatistics \<times> 'w" where
  "pair_Add do_ack av maxLen stats ack ip st w =
     (case add_make_room do_ack maxLen stats (ip_sequence ip) st w of
        (Some e, seq, st', w') \<Rightarrow> (Some e, ip\<lparr>ip_sequence := seq\<rparr>, st', w')
      | (None, seq, st', w') \<Rightarrow>
          (None, ip\<lparr>ip_sequence := (case av of None \<Rightarrow> seq | Some x \<Rightarrow> seq @ [(x, ack)])\<rparr>, st', w'))"

text \<open>
  \<open>AckAll\<close> sets \<open>v.ack = nil\<close> on the loop variable, a copy, so the sequence keeps its
  callbacks.
\<close>

fun seq_AckAll ::
  "('a, 'w, 'e) ack_fun \<Rightarrow> 'a avActPair list \<Rightarrow> 'w \<Rightarrow> 'e error_only \<times> 'w" where
  "seq_AckAll do_ack [] w = (None, w)"
| "seq_AckAll do_ack ((av, ack) # vs) w =
     (case ack of
        None \<Rightarrow> seq_AckAll do_ack vs w
      | Some a \<Rightarrow>
          (case do_ack a av w of
             (Some e, w') \<Rightarrow> (Some e, w')
           | (None, w') \<Rightarrow> seq_AckAll do_ack vs w'))"

definition pair_AckAll ::
  "('a, 'w, 'e) ack_fun \<Rightarrow> 'a inputPair \<Rightarrow> 'w \<Rightarrow> 'e error_only \<times> 'w" where
  "pair_AckAll do_ack ip w = seq_AckAll do_ack (ip_sequence ip) w"

text \<open>A negative count would panic in the code; an accepted pipeline has a slide of at least 1.\<close>

definition pair_Slide :: "int \<Rightarrow> 'a inputPair \<Rightarrow> 'a inputPair" where
  "pair_Slide cnt ip =
     (if cnt < int (length (ip_sequence ip))
      then ip\<lparr>ip_sequence := drop (nat cnt) (ip_sequence ip)\<rparr>
      else ip\<lparr>ip_sequence := []\<rparr>)"

definition pair_RemoveAck :: "'a inputPair \<Rightarrow> 'a inputPair" where
  "pair_RemoveAck ip = ip\<lparr>ip_sequence := map (\<lambda>(av, ack). (av, None)) (ip_sequence ip)\<rparr>"

section \<open>Operations on the snapshot\<close>

definition IsReadyForExecution :: "'a InputSnapshot \<Rightarrow> int \<Rightarrow> bool" where
  "IsReadyForExecution s expectedInputs \<longleftrightarrow>
     int (length s) = expectedInputs \<and> list_all (\<lambda>(k, ip). pair_IsReadyForExecution ip) s"

definition GetSequenceLengthForInput :: "'a InputSnapshot \<Rightarrow> string \<Rightarrow> int" where
  "GetSequenceLengthForInput s inputName =
     (case map_of s inputName of Some ip \<Rightarrow> int (length (ip_sequence ip)) | None \<Rightarrow> 0)"

definition GetSequence :: "'a InputSnapshot \<Rightarrow> string \<Rightarrow> AnnotatedValue list" where
  "GetSequence s inputName =
     (case map_of s inputName of Some ip \<Rightarrow> pair_GetSequence ip | None \<Rightarrow> [])"

definition snapshot_Clone :: "'a InputSnapshot \<Rightarrow> 'a InputSnapshot" where
  "snapshot_Clone s = map (\<lambda>(k, v). (k, pair_Clone v)) s"

definition snapshot_Set ::
  "('a, 'w, 'e) ack_fun \<Rightarrow> string \<Rightarrow> AnnotatedValue option \<Rightarrow> int \<Rightarrow> int \<Rightarrow> string \<Rightarrow> 'a option
    \<Rightarrow> 'a InputSnapshot \<Rightarrow> TaskStatistics \<Rightarrow> 'w
    \<Rightarrow> 'e error_only \<times> 'a InputSnapshot \<times> TaskStatistics \<times> 'w" where
  "snapshot_Set do_ack inputName av minSeqLen maxSeqLen stats ack s st w =
     (let ip = (case map_of s inputName of
                  Some ip \<Rightarrow> ip
                | None \<Rightarrow> \<lparr>ip_sequence = [], ip_stats = Some stats, ip_minSeqLen = minSeqLen\<rparr>);
          (err, ip', st', w') = pair_Add do_ack av maxSeqLen stats ack ip st w
      in (err, AList.update inputName ip' s, st', w'))"

definition snapshot_Delete :: "string \<Rightarrow> 'a InputSnapshot \<Rightarrow> 'a InputSnapshot" where
  "snapshot_Delete inputName s = AList.delete inputName s"

definition snapshot_Slide :: "string \<Rightarrow> int \<Rightarrow> 'a InputSnapshot \<Rightarrow> 'a InputSnapshot" where
  "snapshot_Slide inputName cnt s =
     (case map_of s inputName of
        Some x \<Rightarrow> AList.update inputName (pair_Slide cnt x) s | None \<Rightarrow> s)"

definition snapshot_RemoveAck :: "string \<Rightarrow> 'a InputSnapshot \<Rightarrow> 'a InputSnapshot" where
  "snapshot_RemoveAck inputName s =
     (case map_of s inputName of
        Some x \<Rightarrow> AList.update inputName (pair_RemoveAck x) s | None \<Rightarrow> s)"

text \<open>The loops over the members; \<open>es\<close> is the order in which the runtime ranges over them.\<close>

fun snapshot_AckAll ::
  "('a, 'w, 'e) ack_fun \<Rightarrow> (string \<times> 'a inputPair) list \<Rightarrow> 'w \<Rightarrow> 'e error_only \<times> 'w" where
  "snapshot_AckAll do_ack [] w = (None, w)"
| "snapshot_AckAll do_ack ((k, v) # es) w =
     (case pair_AckAll do_ack v w of
        (Some e, w') \<Rightarrow> (Some e, w')
      | (None, w') \<Rightarrow> snapshot_AckAll do_ack es w')"

fun AddInProgressStatistics ::
  "int \<Rightarrow> (string \<times> 'a inputPair) list \<Rightarrow> TaskStatistics \<Rightarrow> TaskStatistics option" where
  "AddInProgressStatistics delta [] st = Some st"
| "AddInProgressStatistics delta ((k, v) # es) st =
     (case ip_stats v of
        None \<Rightarrow> None
      | Some n \<Rightarrow> AddInProgressStatistics delta es
          (upd_input n (add_in_progress_input (delta * int (length (ip_sequence v)))) st))"

fun AddProcessedStatistics ::
  "int \<Rightarrow> (string \<times> 'a inputPair) list \<Rightarrow> TaskStatistics \<Rightarrow> TaskStatistics option" where
  "AddProcessedStatistics delta [] st = Some st"
| "AddProcessedStatistics delta ((k, v) # es) st =
     (case ip_stats v of
        None \<Rightarrow> None
      | Some n \<Rightarrow> AddProcessedStatistics delta es
          (upd_input n (add_processed (delta * int (length (ip_sequence v)))) st))"

text \<open>The snapshot built from a request of the template service; the entries have no statistics.\<close>

fun inputSnapshotForTaskSnapshot ::
  "(string \<times> AnnotatedValue list) list option \<Rightarrow> 'a InputSnapshot option" where
  "inputSnapshotForTaskSnapshot None = None"
| "inputSnapshotForTaskSnapshot (Some inputs) =
     Some (foldl (\<lambda>s (name, avs). AList.update name
       \<lparr>ip_sequence = map (\<lambda>x. (x, None)) avs, ip_stats = None, ip_minSeqLen = 0\<rparr> s) [] inputs)"

section \<open>Lemmas\<close>

text \<open>Adding to a sequence that has room acknowledges nothing and skips nothing.\<close>

lemma add_make_room_free:
  "int (length seq) < maxLen \<Longrightarrow> add_make_room do_ack maxLen stats seq st w = (None, seq, st, w)"
  by (cases seq) auto

lemma pair_Add_free:
  assumes "int (length (ip_sequence ip)) < maxLen"
  shows "pair_Add do_ack (Some av) maxLen stats ack ip st w =
    (None, ip\<lparr>ip_sequence := ip_sequence ip @ [(av, ack)]\<rparr>, st, w)"
  by (simp add: pair_Add_def add_make_room_free [OF assms])

text \<open>A sequence at its maximum gives up exactly its first value, after acknowledging it.\<close>

lemma pair_Add_full:
  assumes "ip_sequence ip = (x, a) # rest" and "int (length (ip_sequence ip)) = maxLen"
    and "(case a of None \<Rightarrow> (None, w) | Some b \<Rightarrow> do_ack b x w) = (None, w')"
  shows "pair_Add do_ack (Some av) maxLen stats ack ip st w =
    (None, ip\<lparr>ip_sequence := rest @ [(av, ack)]\<rparr>, upd_input stats (add_skipped 1) st, w')"
  using assms by (simp add: pair_Add_def add_make_room_free)

lemma snapshot_Clone_map_of: "map_of (snapshot_Clone s) n = map_option pair_Clone (map_of s n)"
  by (induction s) (auto simp: snapshot_Clone_def)

lemma snapshot_Clone_ok [simp]: "gomap_ok (snapshot_Clone s) = gomap_ok s"
  by (simp add: gomap_ok_def snapshot_Clone_def comp_def case_prod_beta)

end
