(* ===== verification/Names.thy ===== *)
theory Names
  imports Prelude
begin

text \<open>
  Names of the Kubernetes resources of a pipeline and the addresses built from them
  (\<open>pkg/util/names.go\<close>, \<open>pkg/constants\<close> and the naming functions of
  \<open>pkg/controller/pipeline/reconcile_util.go\<close>).  The hexadecimal SHA-1 of a string is the
  parameter \<open>sha1_hex\<close>; a digest has 40 digits.
\<close>

section \<open>Constants\<close>

definition AgentAPIPort :: nat where "AgentAPIPort = 6275"
definition AgentAPIHTTPPort :: nat where "AgentAPIHTTPPort = 8080"
definition AnnotatedValueRegistryAPIPort :: nat where "AnnotatedValueRegistryAPIPort = 6276"
definition EnvNamespace :: string where "EnvNamespace = ''KOALJA_NAMESPACE''"
definition EnvPodName :: string where "EnvPodName = ''KOALJA_POD_NAME''"

definition EnvAPIPort :: string where "EnvAPIPort = ''KOALJA_API_PORT''"
definition EnvAPIHTTPPort :: string where "EnvAPIHTTPPort = ''KOALJA_API_HTTP_PORT''"
definition EnvDNSName :: string where "EnvDNSName = ''KOALJA_DNS_NAME''"
definition EnvPipelineName :: string where "EnvPipelineName = ''KOALJA_PIPELINE_NAME''"
definition EnvPipelineRevision :: string where "EnvPipelineRevision = ''KOALJA_PIPELINE_REVISION''"
definition EnvAgentRegistryAddress :: string where
  "EnvAgentRegistryAddress = ''KOALJA_AGENT_REGISTRY_ADDRESS''"
definition EnvStatisticsSinkAddress :: string where
  "EnvStatisticsSinkAddress = ''KOALJA_STATISTICS_SINK_ADDRESS''"
definition EnvAnnotatedValueRegistryAddress :: string where
  "EnvAnnotatedValueRegistryAddress = ''KOALJA_ANNOTATED_VALUE_REGISTRY_ADDRESS''"
definition EnvFileSystemAddress :: string where "EnvFileSystemAddress = ''KOALJA_FILESYSTEM_ADDRESS''"
definition EnvLinkName :: string where "EnvLinkName = ''KOALJA_LINK_NAME''"
definition EnvServiceAccountName :: string where "EnvServiceAccountName = ''KOALJA_SERVICEACCOUNT_NAME''"
definition EnvTaskName :: string where "EnvTaskName = ''KOALJA_TASK_NAME''"

lemmas env_constants =
  EnvNamespace_def EnvPodName_def EnvAPIPort_def EnvAPIHTTPPort_def EnvDNSName_def EnvPipelineName_def
  EnvPipelineRevision_def EnvAgentRegistryAddress_def EnvStatisticsSinkAddress_def
  EnvAnnotatedValueRegistryAddress_def EnvFileSystemAddress_def EnvLinkName_def
  EnvServiceAccountName_def EnvTaskName_def

definition AnnTaskExecutorContainer :: string where
  "AnnTaskExecutorContainer = ''koalja.aljabr.io/task-executor-container''"

definition AnnTaskExecutorLabels :: string where
  "AnnTaskExecutorLabels = ''koalja.aljabr.io/task-executor-labels''"

definition AnnInputLinkAddressPrefix :: string where
  "AnnInputLinkAddressPrefix = ''koalja.aljabr.io/input-link-address-''"

definition AnnOutputLinkAddressesPrefix :: string where
  "AnnOutputLinkAddressesPrefix = ''koalja.aljabr.io/output-link-addresses-''"

definition NamespaceKoaljaSystem :: string where
  "NamespaceKoaljaSystem = ''koalja-system''"

section \<open>Kubernetes names\<close>

definition maxNameLength :: nat where "maxNameLength = 63"

definition name_suffix :: "(string \<Rightarrow> string) \<Rightarrow> string \<Rightarrow> string" where
  "name_suffix sha1_hex name = take 8 (''-'' @ sha1_hex name)"

definition FixupKubernetesName :: "(string \<Rightarrow> string) \<Rightarrow> string \<Rightarrow> string" where
  "FixupKubernetesName sha1_hex name =
     (let result = to_lower name in
      if result \<noteq> name \<or> length result > maxNameLength then
        let suffix = name_suffix sha1_hex name;
            result = (if length result + length suffix > maxNameLength
                      then take (maxNameLength - length suffix) result else result)
        in result @ suffix
      else result)"

definition CreateInputLinkAddressAnnotationName :: "(string \<Rightarrow> string) \<Rightarrow> string \<Rightarrow> string" where
  "CreateInputLinkAddressAnnotationName h inputName =
     AnnInputLinkAddressPrefix @ FixupKubernetesName h inputName"

definition CreateOutputLinkAddressesAnnotationName :: "(string \<Rightarrow> string) \<Rightarrow> string \<Rightarrow> string" where
  "CreateOutputLinkAddressesAnnotationName h inputName =
     AnnOutputLinkAddressesPrefix @ FixupKubernetesName h inputName"

section \<open>Names of a pipeline's resources\<close>

definition CreatePipelineAgentName :: "(string \<Rightarrow> string) \<Rightarrow> string \<Rightarrow> string" where
  "CreatePipelineAgentName h pipelineName = FixupKubernetesName h (pipelineName @ ''-p'')"

definition CreatePipelineRevisionName :: "(string \<Rightarrow> string) \<Rightarrow> string \<Rightarrow> string \<Rightarrow> string" where
  "CreatePipelineRevisionName h pipelineName hash =
     FixupKubernetesName h (pipelineName @ ''-'' @ hash)"

definition CreateLinkAgentName :: "(string \<Rightarrow> string) \<Rightarrow> string \<Rightarrow> string \<Rightarrow> string" where
  "CreateLinkAgentName h pipelineName linkName =
     FixupKubernetesName h (pipelineName @ ''-l-'' @ linkName)"

definition CreateTaskAgentName :: "(string \<Rightarrow> string) \<Rightarrow> string \<Rightarrow> string \<Rightarrow> string" where
  "CreateTaskAgentName h pipelineName taskName =
     FixupKubernetesName h (pipelineName @ ''-t-'' @ taskName)"

definition CreateTaskExecutorServiceName :: "(string \<Rightarrow> string) \<Rightarrow> string \<Rightarrow> string \<Rightarrow> string" where
  "CreateTaskExecutorServiceName h pipelineName taskName =
     FixupKubernetesName h (pipelineName @ ''-x-'' @ taskName)"

definition CreatePipelineAgentsServiceAccountName :: "(string \<Rightarrow> string) \<Rightarrow> string \<Rightarrow> string" where
  "CreatePipelineAgentsServiceAccountName h pipelineName =
     FixupKubernetesName h (pipelineName @ ''-agents'')"

definition CreatePipelineExecutorsServiceAccountName :: "(string \<Rightarrow> string) \<Rightarrow> string \<Rightarrow> string" where
  "CreatePipelineExecutorsServiceAccountName h pipelineName =
     FixupKubernetesName h (pipelineName @ ''-executors'')"

definition CreatePipelineAgentsRoleName :: "(string \<Rightarrow> string) \<Rightarrow> string \<Rightarrow> string" where
  "CreatePipelineAgentsRoleName h pipelineName =
     FixupKubernetesName h (pipelineName @ ''-agents'')"

definition CreatePipelineAgentsClusterRoleName ::
  "(string \<Rightarrow> string) \<Rightarrow> string \<Rightarrow> string \<Rightarrow> string" where
  "CreatePipelineAgentsClusterRoleName h pipelineName namespace =
     FixupKubernetesName h (pipelineName @ ''-agents-'' @ namespace)"

definition CreatePipelineExecutorsRoleName :: "(string \<Rightarrow> string) \<Rightarrow> string \<Rightarrow> string" where
  "CreatePipelineExecutorsRoleName h pipelineName =
     FixupKubernetesName h (pipelineName @ ''-executors'')"

definition CreatePipelineAgentsRoleBindingName :: "(string \<Rightarrow> string) \<Rightarrow> string \<Rightarrow> string" where
  "CreatePipelineAgentsRoleBindingName h pipelineName =
     FixupKubernetesName h (pipelineName @ ''-agents'')"

definition CreatePipelineAgentsClusterRoleBindingName ::
  "(string \<Rightarrow> string) \<Rightarrow> string \<Rightarrow> string \<Rightarrow> string" where
  "CreatePipelineAgentsClusterRoleBindingName h pipelineName namespace =
     FixupKubernetesName h (pipelineName @ ''-agents-'' @ namespace)"

definition CreatePipelineExecutorsRoleBindingName :: "(string \<Rightarrow> string) \<Rightarrow> string \<Rightarrow> string" where
  "CreatePipelineExecutorsRoleBindingName h pipelineName =
     FixupKubernetesName h (pipelineName @ ''-executors'')"

section \<open>DNS names and addresses\<close>

definition svc_dns :: "string \<Rightarrow> string \<Rightarrow> string" where
  "svc_dns name namespace = name @ ''.'' @ namespace @ ''.svc''"

text \<open>\<open>net.JoinHostPort\<close>: a host with a colon is put in brackets.\<close>

definition JoinHostPort :: "string \<Rightarrow> string \<Rightarrow> string" where
  "JoinHostPort host port =
     (if index_of (CHR '':'') host \<noteq> None then ''['' @ host @ '']:'' @ port
      else host @ '':'' @ port)"

definition CreatePipelineAgentDNSName :: "(string \<Rightarrow> string) \<Rightarrow> string \<Rightarrow> string \<Rightarrow> string" where
  "CreatePipelineAgentDNSName h pipelineName namespace =
     svc_dns (CreatePipelineAgentName h pipelineName) namespace"

definition CreateLinkAgentDNSName ::
  "(string \<Rightarrow> string) \<Rightarrow> string \<Rightarrow> string \<Rightarrow> string \<Rightarrow> string" where
  "CreateLinkAgentDNSName h pipelineName linkName namespace =
     svc_dns (CreateLinkAgentName h pipelineName linkName) namespace"

definition CreateTaskAgentDNSName ::
  "(string \<Rightarrow> string) \<Rightarrow> string \<Rightarrow> string \<Rightarrow> string \<Rightarrow> string" where
  "CreateTaskAgentDNSName h pipelineName taskName namespace =
     svc_dns (CreateTaskAgentName h pipelineName taskName) namespace"

definition CreateTaskExecutorDNSName ::
  "(string \<Rightarrow> string) \<Rightarrow> string \<Rightarrow> string \<Rightarrow> string \<Rightarrow> string" where
  "CreateTaskExecutorDNSName h pipelineName taskName namespace =
     svc_dns (CreateTaskExecutorServiceName h pipelineName taskName) namespace"

definition CreateLinkAgentAnnotatedValueSourceAddress ::
  "(string \<Rightarrow> string) \<Rightarrow> string \<Rightarrow> string \<Rightarrow> string \<Rightarrow> string" where
  "CreateLinkAgentAnnotatedValueSourceAddress h pipelineName linkName namespace =
     JoinHostPort (CreateLinkAgentDNSName h pipelineName linkName namespace) (itoa AgentAPIPort)"

definition CreateLinkAgentAnnotatedValuePublisherAddress ::
  "(string \<Rightarrow> string) \<Rightarrow> string \<Rightarrow> string \<Rightarrow> string \<Rightarrow> string" where
  "CreateLinkAgentAnnotatedValuePublisherAddress h pipelineName linkName namespace =
     JoinHostPort (CreateLinkAgentDNSName h pipelineName linkName namespace) (itoa AgentAPIPort)"

definition CreateAgentRegistryAddress :: "(string \<Rightarrow> string) \<Rightarrow> string \<Rightarrow> string \<Rightarrow> string" where
  "CreateAgentRegistryAddress h pipelineName namespace =
     JoinHostPort (CreatePipelineAgentDNSName h pipelineName namespace) (itoa AgentAPIPort)"

definition CreateAnnotatedValueRegistryAddress ::
  "(string \<Rightarrow> string) \<Rightarrow> string \<Rightarrow> string \<Rightarrow> string" where
  "CreateAnnotatedValueRegistryAddress h pipelineName namespace =
     JoinHostPort (CreatePipelineAgentDNSName h pipelineName namespace)
       (itoa AnnotatedValueRegistryAPIPort)"

definition CreatePipelineAgentAnnotatedValuePublisherAddress ::
  "(string \<Rightarrow> string) \<Rightarrow> string \<Rightarrow> string \<Rightarrow> string" where
  "CreatePipelineAgentAnnotatedValuePublisherAddress h pipelineName namespace =
     JoinHostPort (CreatePipelineAgentDNSName h pipelineName namespace) (itoa AgentAPIPort)"

text \<open>A service is given by its name, its namespace and the numbers of its ports; a service
  without ports makes \<open>CreateServiceAddress\<close> panic (\<open>None\<close>).\<close>

definition CreateServiceDNSName :: "string \<Rightarrow> string \<Rightarrow> string" where
  "CreateServiceDNSName name namespace = svc_dns name namespace"

definition CreateServiceAddress :: "string \<Rightarrow> string \<Rightarrow> nat list \<Rightarrow> string option" where
  "CreateServiceAddress name namespace ports =
     (case ports of [] \<Rightarrow> None
      | p # ps \<Rightarrow> Some (JoinHostPort (CreateServiceDNSName name namespace) (itoa p)))"

section \<open>Lemmas\<close>

text \<open>A name that is in lower case and short enough is kept.\<close>

definition plain_name :: "string \<Rightarrow> bool" where
  "plain_name s \<longleftrightarrow> to_lower s = s \<and> length s \<le> maxNameLength"

lemma Fixup_plain: "plain_name s \<Longrightarrow> FixupKubernetesName h s = s"
  by (simp add: plain_name_def FixupKubernetesName_def)

lemma name_suffix_length: "length (sha1_hex s) = 40 \<Longrightarrow> length (name_suffix sha1_hex s) = 8"
  by (simp add: name_suffix_def)

lemma Fixup_hashed:
  assumes "\<not> plain_name s" and "length (sha1_hex s) = 40"
  shows "FixupKubernetesName sha1_hex s =
     take 55 (to_lower s) @ CHR ''-'' # take 7 (sha1_hex s)"
  using assms name_suffix_length [of sha1_hex s]
  by (auto simp: FixupKubernetesName_def Let_def plain_name_def maxNameLength_def name_suffix_def)

lemma to_lower_fixed: "\<forall>c \<in> set s. lower_char c = c \<Longrightarrow> to_lower s = s"
  by (simp add: to_lower_def map_idI)

section \<open>Properties\<close>

text \<open>The name of a resource is never longer than the 63 characters a DNS label may have, it is
  a fixed point of the conversion to lower case when the digest is, and a name that needs no
  change is kept.\<close>

theorem fixup_name_fits:
  assumes "length (sha1_hex s) = 40" and "to_lower (sha1_hex s) = sha1_hex s"
  shows "length (FixupKubernetesName sha1_hex s) \<le> 63
    \<and> to_lower (FixupKubernetesName sha1_hex s) = FixupKubernetesName sha1_hex s
    \<and> (plain_name s \<longrightarrow> FixupKubernetesName sha1_hex s = s)"
proof (cases "plain_name s")
  case True
  then show ?thesis by (simp add: Fixup_plain) (simp add: plain_name_def maxNameLength_def)
next
  case False
  have "to_lower [CHR ''-''] = [CHR ''-'']" by (simp add: to_lower_def lower_char_def)
  then have "to_lower (CHR ''-'' # t) = CHR ''-'' # to_lower t" for t by (simp add: to_lower_def)
  then show ?thesis
    using Fixup_hashed [of s sha1_hex] False assms
    by (simp add: to_lower_append to_lower_take)
qed

definition example_digest :: "string \<Rightarrow> string" where
  "example_digest s = replicate 40 (CHR ''a'')"

lemma fixup_name_fits_witness:
  "length (FixupKubernetesName example_digest ''My-Task'') \<le> 63
   \<and> FixupKubernetesName example_digest ''My-Task'' = ''my-task-aaaaaaa''"
proof
  show "length (FixupKubernetesName example_digest ''My-Task'') \<le> 63"
    by (rule conjunct1 [OF fixup_name_fits])
       (simp_all add: example_digest_def to_lower_def lower_char_def)
qed code_simp

text \<open>Within one pipeline the agents have different names: as long as no name has to be
  shortened or changed to lower case, two links never share an agent name, nor do two tasks, and
  the agents of the pipeline, of a link and of a task and the executor service are pairwise
  different.\<close>

theorem agent_names_distinct:
  assumes "plain_name (p @ ''-l-'' @ x)" and "plain_name (p @ ''-t-'' @ y)"
    and "plain_name (p @ ''-x-'' @ z)" and "plain_name (p @ ''-l-'' @ x')"
  shows "(CreateLinkAgentName h p x = CreateLinkAgentName h p x' \<longleftrightarrow> x = x')
    \<and> CreateLinkAgentName h p x \<noteq> CreateTaskAgentName h p y
    \<and> CreateLinkAgentName h p x \<noteq> CreateTaskExecutorServiceName h p z
    \<and> CreateTaskAgentName h p y \<noteq> CreateTaskExecutorServiceName h p z
    \<and> CreateLinkAgentName h p x \<noteq> CreatePipelineAgentName h p"
proof -
  have "plain_name (p @ ''-p'')"
    using assms(1) by (auto simp: plain_name_def to_lower_append to_lower_def lower_char_def maxNameLength_def)
  then show ?thesis
    using assms by (simp add: CreateLinkAgentName_def CreateTaskAgentName_def Fixup_plain
        CreateTaskExecutorServiceName_def CreatePipelineAgentName_def)
qed

lemma agent_names_distinct_witness:
  "CreateLinkAgentName example_digest ''pipe'' ''a'' \<noteq> CreateTaskAgentName example_digest ''pipe'' ''a''"
proof -
  have "plain_name (''pipe'' @ ''-l-'' @ ''a'')" "plain_name (''pipe'' @ ''-t-'' @ ''a'')"
    "plain_name (''pipe'' @ ''-x-'' @ ''a'')"
    by (simp_all add: plain_name_def to_lower_def lower_char_def maxNameLength_def)
  from agent_names_distinct [OF this this(1)] show ?thesis by blast
qed

text \<open>Across pipelines of one namespace agent names do collide: a pipeline with the name of
  another pipeline followed by -l- and a link prefix shares an agent name with it.\<close>

theorem agent_names_collide:
  "CreateTaskAgentName h (p @ ''-l-'' @ x) y = CreateLinkAgentName h p (x @ ''-t-'' @ y)
   \<and> CreatePipelineAgentName h (p @ ''-l-'' @ x) = CreateLinkAgentName h p (x @ ''-p'')"
  by (simp add: CreateTaskAgentName_def CreateLinkAgentName_def CreatePipelineAgentName_def)

end
