(* ===== verification/Input_Loop.thy ===== *)
theory Input_Loop
  imports Input_Snapshot Koalja_API Names
begin

text \<open>
  The input loop of a task agent (\<open>pkg/agent/task/input_loop.go\<close>).  One goroutine per input
  takes values from its link and puts them into the shared snapshot; when the snapshot is complete
  a copy of it is sent to the execution queue and the snapshot is prepared for the next round
  according to the snapshot policy; another goroutine executes the task on the queued snapshots.

  The handlers are given first.  The step relation interleaves them at the points where the code
  releases the mutex of the loop, for a specification the validation accepts.
\<close>

section \<open>State\<close>

record 'a input_loop =
  il_snapshot :: "'a InputSnapshot"
  il_executionCount :: int
  il_statistics :: TaskStatistics

text \<open>Making the loop: the address of the link of every input, from the annotations of the pod.\<close>

fun input_addresses ::
  "(string \<Rightarrow> string) \<Rightarrow> TaskInputSpec list \<Rightarrow> (string, string) gomap \<Rightarrow> (string, string) gomap
    \<Rightarrow> (string, (string, string) gomap) go_result" where
  "input_addresses hash [] annotations m = Inr m"
| "input_addresses hash (tis # inputs) annotations m =
     (let address = (case map_of annotations (CreateInputLinkAddressAnnotationName hash (tis_Name tis)) of
          Some a \<Rightarrow> a | None \<Rightarrow> [])
      in if address = [] then Inl (tis_Name tis)
         else input_addresses hash inputs annotations (AList.update (tis_Name tis) address m))"

definition newInputLoop ::
  "(string \<Rightarrow> string) \<Rightarrow> TaskSpec \<Rightarrow> (string, string) gomap \<Rightarrow> TaskStatistics
    \<Rightarrow> (string, (string, string) gomap \<times> 'a input_loop) go_result" where
  "newInputLoop hash spec annotations statistics =
     (case input_addresses hash (ts_Inputs spec) annotations [] of
        Inl e \<Rightarrow> Inl e
      | Inr addrs \<Rightarrow> Inr (addrs, \<lparr>il_snapshot = [], il_executionCount = 0, il_statistics = statistics\<rparr>))"

section \<open>Taking a value into the snapshot\<close>

text \<open>The waiting condition of \<open>processAnnotatedValue\<close>: there is a place in the sequence.\<close>

definition has_room :: "'a input_loop \<Rightarrow> TaskInputSpec \<Rightarrow> bool" where
  "has_room il tis \<longleftrightarrow>
     GetSequenceLengthForInput (il_snapshot il) (tis_Name tis) < GetMaxSequenceLength tis"

text \<open>The preparation of the snapshot for the next execution, for one input and for all.\<close>

definition prepare_input ::
  "string \<Rightarrow> TaskInputSpec \<Rightarrow> 'a InputSnapshot \<Rightarrow> 'a InputSnapshot" where
  "prepare_input snapshotPolicy inp s =
     (if IsAllNew snapshotPolicy then snapshot_Delete (tis_Name inp) s
      else if IsSlidingWindow snapshotPolicy then
        snapshot_RemoveAck (tis_Name inp) (snapshot_Slide (tis_Name inp) (GetSlide inp) s)
      else if IsSwapNew4Old snapshotPolicy then snapshot_RemoveAck (tis_Name inp) s
      else s)"

definition prepare_next ::
  "string \<Rightarrow> TaskInputSpec list \<Rightarrow> 'a InputSnapshot \<Rightarrow> 'a InputSnapshot" where
  "prepare_next snapshotPolicy inps s = foldl (\<lambda>s inp. prepare_input snapshotPolicy inp s) s inps"

text \<open>
  The part of \<open>processAnnotatedValue\<close> that runs under the mutex once there is room: it returns
  the error, if any, and the snapshot to push into the execution queue, if any.
\<close>

definition process_locked ::
  "('a, 'w, 'e) ack_fun \<Rightarrow> TaskSpec \<Rightarrow> AnnotatedValue \<Rightarrow> TaskInputSpec \<Rightarrow> string \<Rightarrow> 'a
    \<Rightarrow> 'a input_loop \<Rightarrow> 'w
    \<Rightarrow> ('e, 'a InputSnapshot option) go_result \<times> 'a input_loop \<times> 'w" where
  "process_locked do_ack spec av tis stats ack il w =
     (case snapshot_Set do_ack (tis_Name tis) (Some av) (GetMinSequenceLength tis)
             (GetMaxSequenceLength tis) stats (Some ack) (il_snapshot il) (il_statistics il) w of
        (Some e, s, st, w') \<Rightarrow> (Inl e, il\<lparr>il_snapshot := s, il_statistics := st\<rparr>, w')
      | (None, s, st, w') \<Rightarrow>
          let snapshotInputs = SnapshotInputs spec in
          if \<not> IsReadyForExecution s (int (length snapshotInputs)) then
            (Inr None, il\<lparr>il_snapshot := s, il_statistics := st\<rparr>, w')
          else
            (Inr (Some (snapshot_Clone s)),
             il\<lparr>il_snapshot := prepare_next (ts_SnapshotPolicy spec) snapshotInputs s,
                il_executionCount := il_executionCount il + 1,
                il_statistics := st\<lparr>tst_SnapshotsWaiting := tst_SnapshotsWaiting st + 1\<rparr>\<rparr>,
             w'))"

text \<open>
  One turn of \<open>processAnnotatedValue\<close>: with room it does its work, without room it goes on
  waiting (\<open>None\<close>) until the context is cancelled.
\<close>

datatype 'e process_error = PE_Context | PE_Ack 'e

definition processAnnotatedValue ::
  "('a, 'w, 'e) ack_fun \<Rightarrow> bool \<Rightarrow> TaskSpec \<Rightarrow> AnnotatedValue \<Rightarrow> TaskInputSpec \<Rightarrow> string \<Rightarrow> 'a
    \<Rightarrow> 'a input_loop \<Rightarrow> 'w
    \<Rightarrow> (('e process_error, 'a InputSnapshot option) go_result \<times> 'a input_loop \<times> 'w) option" where
  "processAnnotatedValue do_ack ctx_done spec av tis stats ack il w =
     (if has_room il tis then
        (case process_locked do_ack spec av tis stats ack il w of
           (Inl e, il', w') \<Rightarrow> Some (Inl (PE_Ack e), il', w')
         | (Inr r, il', w') \<Rightarrow> Some (Inr r, il', w'))
      else if ctx_done then Some (Inl PE_Context, il, w)
      else None)"

text \<open>\<open>watchInput\<close>: the input whose sequence takes the values, and the count of a received value.\<close>

definition target_input :: "TaskSpec \<Rightarrow> TaskInputSpec \<Rightarrow> TaskInputSpec" where
  "target_input spec tis =
     (if HasMergeInto tis then
        (case InputByName spec (tis_MergeInto tis) of
           Some x \<Rightarrow> x
         | None \<Rightarrow> \<lparr>tis_Name = [], tis_TypeRef = [], tis_RequiredSequenceLength = None,
             tis_MinSequenceLength = None, tis_MaxSequenceLength = None, tis_Slide = None,
             tis_MergeInto = []\<rparr>)
      else tis)"

definition count_received :: "TaskInputSpec \<Rightarrow> 'a input_loop \<Rightarrow> 'a input_loop" where
  "count_received tis il =
     il\<lparr>il_statistics := upd_input (tis_Name tis) (add_received 1) (il_statistics il)\<rparr>"

section \<open>Executing a snapshot\<close>

datatype 'e exec_outcome = ExecCanceled | ExecFailed 'e | ExecSucceeded

text \<open>The updates before and after the call of the executor, including the deferred ones.\<close>

definition exec_begin ::
  "(string \<times> 'a inputPair) list \<Rightarrow> TaskStatistics \<Rightarrow> TaskStatistics option" where
  "exec_begin es st = AddInProgressStatistics 1 es
     (st\<lparr>tst_SnapshotsWaiting := tst_SnapshotsWaiting st - 1,
         tst_SnapshotsInProgress := tst_SnapshotsInProgress st + 1\<rparr>)"

definition exec_deferred ::
  "(string \<times> 'a inputPair) list \<Rightarrow> TaskStatistics \<Rightarrow> TaskStatistics option" where
  "exec_deferred es st =
     (case AddInProgressStatistics (-1) es st of
        None \<Rightarrow> None
      | Some st1 \<Rightarrow>
          (case AddProcessedStatistics 1 es st1 of
             None \<Rightarrow> None
           | Some st2 \<Rightarrow>
               Some (st2\<lparr>tst_SnapshotsInProgress := tst_SnapshotsInProgress st2 - 1\<rparr>)))"

definition exec_end ::
  "('a, 'w, 'e) ack_fun \<Rightarrow> (string \<times> 'a inputPair) list \<Rightarrow> 'e exec_outcome \<Rightarrow> TaskStatistics
    \<Rightarrow> 'w \<Rightarrow> TaskStatistics option \<times> 'w" where
  "exec_end do_ack es outcome st w =
     (case outcome of
        ExecSucceeded \<Rightarrow>
          (let st' = st\<lparr>tst_SnapshotsSucceeded := tst_SnapshotsSucceeded st + 1\<rparr>;
               (err, w') = snapshot_AckAll do_ack es w
           in (exec_deferred es st', w'))
      | _ \<Rightarrow>
          (exec_deferred es (st\<lparr>tst_SnapshotsFailed := tst_SnapshotsFailed st + 1\<rparr>), w))"

text \<open>
  \<open>execOnSnapshot\<close>: the executor is an external call that returns its outcome; \<open>es\<close> is the
  snapshot in the order in which the runtime ranges over it.  \<open>None\<close> is the panic of a nil
  statistics pointer.
\<close>

definition execOnSnapshot ::
  "('a, 'w, 'e) ack_fun \<Rightarrow> (('a InputSnapshot) \<Rightarrow> 'w \<Rightarrow> 'e exec_outcome \<times> 'w)
    \<Rightarrow> (string \<times> 'a inputPair) list \<Rightarrow> TaskStatistics \<Rightarrow> 'w
    \<Rightarrow> ('e exec_outcome \<times> TaskStatistics \<times> 'w) option" where
  "execOnSnapshot do_ack execute es st w =
     (case exec_begin es st of
        None \<Rightarrow> None
      | Some st1 \<Rightarrow>
          (let (outcome, w1) = execute es w; (st2, w2) = exec_end do_ack es outcome st1 w1
           in map_option (\<lambda>st. (outcome, st, w2)) st2))"

section \<open>Sequences of an input\<close>

definition seq_of :: "'a InputSnapshot \<Rightarrow> string \<Rightarrow> 'a avActPair list" where
  "seq_of s n = (case map_of s n of Some ip \<Rightarrow> ip_sequence ip | None \<Rightarrow> [])"

definition drop_acks :: "'a avActPair list \<Rightarrow> 'a avActPair list" where
  "drop_acks seq = map (\<lambda>(av, ack). (av, None)) seq"

text \<open>The values of a sequence that still have to be acknowledged, with their callbacks.\<close>

fun owed :: "'a avActPair list \<Rightarrow> (AnnotatedValue \<times> 'a) list" where
  "owed [] = []"
| "owed ((av, None) # seq) = owed seq"
| "owed ((av, Some a) # seq) = (av, a) # owed seq"

definition seq_after :: "string \<Rightarrow> TaskInputSpec \<Rightarrow> 'a avActPair list \<Rightarrow> 'a avActPair list" where
  "seq_after pol inp seq =
     (if IsAllNew pol then []
      else if IsSlidingWindow pol then drop_acks (drop (nat (GetSlide inp)) seq)
      else if IsSwapNew4Old pol then drop_acks seq else seq)"

lemma owed_append [simp]: "owed (xs @ ys) = owed xs @ owed ys"
  by (induction xs rule: owed.induct) auto

lemma owed_drop_acks [simp]: "owed (drop_acks seq) = []"
  by (induction seq) (auto simp: drop_acks_def)

lemma drop_acks_simps [simp]:
  "length (drop_acks seq) = length seq" "map fst (drop_acks seq) = map fst seq"
  by (auto simp: drop_acks_def comp_def case_prod_beta)

lemma GetSequenceLength_seq: "GetSequenceLengthForInput s n = int (length (seq_of s n))"
  by (simp add: GetSequenceLengthForInput_def seq_of_def split: option.split)

lemma seq_of_Clone [simp]: "seq_of (snapshot_Clone s) n = seq_of s n"
  by (simp add: seq_of_def snapshot_Clone_map_of pair_Clone_def split: option.split)

lemma prepare_input_ok [simp]: "gomap_ok s \<Longrightarrow> gomap_ok (prepare_input pol inp s)"
  by (auto simp: prepare_input_def snapshot_Delete_def snapshot_Slide_def snapshot_RemoveAck_def
      split: option.split)

definition pair_after :: "string \<Rightarrow> TaskInputSpec \<Rightarrow> 'a inputPair option \<Rightarrow> 'a inputPair option" where
  "pair_after pol inp ip =
     (if IsAllNew pol then None
      else map_option (\<lambda>ip. ip\<lparr>ip_sequence := seq_after pol inp (ip_sequence ip)\<rparr>) ip)"

lemma policies_disjoint:
  "IsSwapNew4Old pol \<Longrightarrow> \<not> IsAllNew pol \<and> \<not> IsSlidingWindow pol"
  "IsSlidingWindow pol \<Longrightarrow> \<not> IsAllNew pol"
  by (auto simp: IsSwapNew4Old_def IsAllNew_def IsSlidingWindow_def policy_names)

lemma pair_Slide_drop: "pair_Slide c ip = ip\<lparr>ip_sequence := drop (nat c) (ip_sequence ip)\<rparr>"
  by (simp add: pair_Slide_def)

lemma pair_RemoveAck_drop: "pair_RemoveAck ip = ip\<lparr>ip_sequence := drop_acks (ip_sequence ip)\<rparr>"
  by (simp add: pair_RemoveAck_def drop_acks_def)

lemma prepare_input_map_of:
  "map_of (prepare_input pol inp s) =
     (map_of s)(tis_Name inp := pair_after pol inp (map_of s (tis_Name inp)))"
proof (cases "map_of s (tis_Name inp)")
  case None
  then show ?thesis
    by (auto simp: prepare_input_def pair_after_def snapshot_Delete_def snapshot_Slide_def
        snapshot_RemoveAck_def delete_conv' fun_upd_idem)
next
  case (Some ip)
  then show ?thesis
    by (auto simp: prepare_input_def pair_after_def seq_after_def snapshot_Delete_def
        snapshot_Slide_def snapshot_RemoveAck_def delete_conv' update_conv' pair_Slide_drop
        pair_RemoveAck_drop fun_upd_idem)
qed

lemma prepare_next_ok [simp]: "gomap_ok s \<Longrightarrow> gomap_ok (prepare_next pol inps s)"
  by (induction inps arbitrary: s) (auto simp: prepare_next_def)

lemma prepare_next_map_of:
  "distinct (map tis_Name inps) \<Longrightarrow> map_of (prepare_next pol inps s) n =
     (case find (\<lambda>i. tis_Name i = n) inps of
        Some inp \<Rightarrow> pair_after pol inp (map_of s n) | None \<Rightarrow> map_of s n)"
proof (induction inps arbitrary: s)
  case (Cons i inps)
  have step: "prepare_next pol (i # inps) s = prepare_next pol inps (prepare_input pol i s)"
    by (simp add: prepare_next_def)
  show ?case
  proof (cases "tis_Name i = n")
    case True
    then have "find (\<lambda>i. tis_Name i = n) inps = None" using Cons.prems by auto
    with True Cons show ?thesis by (simp add: step prepare_input_map_of)
  next
    case False
    with Cons show ?thesis
      by (simp add: step prepare_input_map_of del: find_name_None split: option.split)
  qed
qed (simp add: prepare_next_def)

section \<open>The history of an input\<close>

text \<open>
  For one input: the values accepted so far (\<open>acc\<close>, with their callbacks), its sequence in each
  snapshot made so far (\<open>hist\<close>) and its current sequence.  \<open>consumed\<close> is the number of values
  that have left the current sequence.
\<close>

definition consumed :: "string \<Rightarrow> TaskInputSpec \<Rightarrow> 'a avActPair list list \<Rightarrow> nat" where
  "consumed pol inp hist =
     (if IsAllNew pol then length (concat hist)
      else if IsSlidingWindow pol then nat (GetSlide inp) * length hist else 0)"

definition window :: "TaskInputSpec \<Rightarrow> 'a avActPair list \<Rightarrow> nat \<Rightarrow> (AnnotatedValue \<times> 'a) list \<Rightarrow> bool" where
  "window inp seq c acc \<longleftrightarrow>
     map fst seq = take (length seq) (drop c (map fst acc))
     \<and> GetMinSequenceLength inp \<le> int (length seq) \<and> int (length seq) \<le> GetMaxSequenceLength inp"

definition track ::
  "string \<Rightarrow> TaskInputSpec \<Rightarrow> (AnnotatedValue \<times> 'a) list \<Rightarrow> 'a avActPair list list
    \<Rightarrow> 'a avActPair list \<Rightarrow> bool" where
  "track pol inp acc hist cur \<longleftrightarrow>
     consumed pol inp hist \<le> length acc
     \<and> map fst cur = drop (consumed pol inp hist) (map fst acc)
     \<and> (\<forall>k < length hist. window inp (hist ! k) (consumed pol inp (take k hist)) acc)
     \<and> concat (map owed hist) @ owed cur = acc"

lemma window_snoc: "window inp seq c acc \<Longrightarrow> window inp seq c (acc @ [x])"
proof -
  assume w: "window inp seq c acc"
  then have "length seq = length (take (length seq) (drop c (map fst acc)))"
    by (metis length_map window_def)
  then have "length seq \<le> length acc - c" by simp
  then show ?thesis using w by (simp add: window_def)
qed

lemma track_accept:
  assumes "track pol inp acc hist cur"
  shows "track pol inp (acc @ [(av, a)]) hist (cur @ [(av, Some a)])"
  using assms by (auto simp: track_def window_snoc)

lemma track_snapshot:
  assumes t: "track pol inp acc hist cur" and seq: "sequence_ok pol inp"
    and min: "GetMinSequenceLength inp \<le> int (length cur)"
    and max: "int (length cur) \<le> GetMaxSequenceLength inp"
    and pol: "IsAllNew pol \<or> IsSwapNew4Old pol \<or> IsSlidingWindow pol"
  shows "track pol inp acc (hist @ [cur]) (seq_after pol inp cur)"
proof -
  have cur: "map fst cur = drop (consumed pol inp hist) (map fst acc)"
    and c: "consumed pol inp hist \<le> length acc" using t by (auto simp: track_def)
  have len: "length cur = length acc - consumed pol inp hist"
    using arg_cong [OF cur, of length] by simp
  have slide: "nat (GetSlide inp) \<le> length cur" using seq min by (auto simp: sequence_ok_def)
  have "window inp ((hist @ [cur]) ! k) (consumed pol inp (take k (hist @ [cur]))) acc"
    if "k < length (hist @ [cur])" for k
  proof (cases "k = length hist")
    case True
    then show ?thesis using cur min max len by (simp add: window_def)
  next
    case False
    then show ?thesis using that t by (simp add: track_def nth_append)
  qed
  moreover have "consumed pol inp (hist @ [cur]) \<le> length acc
      \<and> map fst (seq_after pol inp cur) = drop (consumed pol inp (hist @ [cur])) (map fst acc)"
  proof -
    consider "IsAllNew pol" | "IsSlidingWindow pol" "\<not> IsAllNew pol"
      | "\<not> IsSlidingWindow pol" "\<not> IsAllNew pol" "IsSwapNew4Old pol" using pol by blast
    then show ?thesis
    proof cases
      case 1
      then show ?thesis using c len by (auto simp: consumed_def seq_after_def)
    next
      case 2
      then have "map fst (drop (nat (GetSlide inp)) cur) =
          drop (nat (GetSlide inp) + consumed pol inp hist) (map fst acc)"
        using cur by (simp add: drop_map [symmetric] add.commute)
      with 2 show ?thesis using c len slide by (auto simp: consumed_def seq_after_def)
    next
      case 3
      then show ?thesis using c cur by (simp add: consumed_def seq_after_def)
    qed
  qed
  moreover have "concat (map owed (hist @ [cur])) @ owed (seq_after pol inp cur) = acc"
    using t pol by (auto simp: track_def seq_after_def)
  ultimately show ?thesis by (simp add: track_def)
qed

section \<open>Accepting a value\<close>

definition put_value ::
  "TaskInputSpec \<Rightarrow> string \<Rightarrow> AnnotatedValue \<Rightarrow> 'a \<Rightarrow> 'a InputSnapshot \<Rightarrow> 'a InputSnapshot" where
  "put_value tis stats av a s =
     (let ip = (case map_of s (tis_Name tis) of
                  Some ip \<Rightarrow> ip
                | None \<Rightarrow> \<lparr>ip_sequence = [], ip_stats = Some stats,
                    ip_minSeqLen = GetMinSequenceLength tis\<rparr>)
      in AList.update (tis_Name tis) (ip\<lparr>ip_sequence := ip_sequence ip @ [(av, Some a)]\<rparr>) s)"

lemma snapshot_Set_room:
  assumes "int (length (seq_of s (tis_Name tis))) < maxLen" and "0 < maxLen"
  shows "snapshot_Set do_ack (tis_Name tis) (Some av) (GetMinSequenceLength tis) maxLen stats (Some a)
     s st w = (None, put_value tis stats av a s, st, w)"
  using assms
  by (auto simp: snapshot_Set_def put_value_def seq_of_def Let_def pair_Add_free split: option.splits)

lemma seq_of_put_value:
  "seq_of (put_value tis stats av a s) n =
     (if n = tis_Name tis then seq_of s n @ [(av, Some a)] else seq_of s n)"
  by (auto simp: put_value_def seq_of_def Let_def update_conv' split: option.split)

text \<open>With room for the value, \<open>processAnnotatedValue\<close> calls no callback and cannot fail.\<close>

lemma process_locked_room:
  assumes "has_room il tis" and "0 < GetMaxSequenceLength tis"
  shows "process_locked do_ack spec av tis stats a il w =
    (let s = put_value tis stats av a (il_snapshot il) in
     if IsReadyForExecution s (int (length (SnapshotInputs spec))) then
       (Inr (Some (snapshot_Clone s)),
        il\<lparr>il_snapshot := prepare_next (ts_SnapshotPolicy spec) (SnapshotInputs spec) s,
           il_executionCount := il_executionCount il + 1,
           il_statistics := (il_statistics il)
             \<lparr>tst_SnapshotsWaiting := tst_SnapshotsWaiting (il_statistics il) + 1\<rparr>\<rparr>, w)
     else (Inr None, il\<lparr>il_snapshot := s\<rparr>, w))"
proof -
  have "snapshot_Set do_ack (tis_Name tis) (Some av) (GetMinSequenceLength tis)
      (GetMaxSequenceLength tis) stats (Some a) (il_snapshot il) (il_statistics il) w =
      (None, put_value tis stats av a (il_snapshot il), il_statistics il, w)"
    using assms by (intro snapshot_Set_room) (simp_all add: has_room_def GetSequenceLength_seq)
  then show ?thesis by (simp add: process_locked_def Let_def)
qed

section \<open>Well-formed snapshots\<close>

definition snapshot_wf :: "TaskSpec \<Rightarrow> 'a InputSnapshot \<Rightarrow> bool" where
  "snapshot_wf ts s \<longleftrightarrow> gomap_ok s
     \<and> (\<forall>n ip. map_of s n = Some ip \<longrightarrow> ip_stats ip \<noteq> None
         \<and> (\<exists>inp \<in> set (SnapshotInputs ts). tis_Name inp = n \<and> ip_minSeqLen ip = GetMinSequenceLength inp))
     \<and> (\<forall>inp \<in> set (SnapshotInputs ts). int (length (seq_of s (tis_Name inp))) \<le> GetMaxSequenceLength inp)"

lemma task_inputs:
  assumes "task_ok ps ts"
  shows "distinct (map tis_Name (ts_Inputs ts))" and "distinct (map tis_Name (SnapshotInputs ts))"
    and "\<And>inp. inp \<in> set (ts_Inputs ts) \<Longrightarrow> sequence_ok (ts_SnapshotPolicy ts) inp \<and> merge_ok ts inp"
    and "IsAllNew (ts_SnapshotPolicy ts) \<or> IsSwapNew4Old (ts_SnapshotPolicy ts)
      \<or> IsSlidingWindow (ts_SnapshotPolicy ts)"
  using assms
  by (auto simp: task_ok_def SnapshotInputs_def list_all_iff input_ok_def intro: distinct_map_filter)

lemma target_snapshot_input:
  assumes "task_ok ps ts" and "inp \<in> set (ts_Inputs ts)"
  shows "target_input ts inp \<in> set (SnapshotInputs ts)"
  using assms(2) task_inputs(3) [OF assms]
  by (auto simp: target_input_def merge_ok_def SnapshotInputs_def)

lemma SnapshotInputs_sub: "inp \<in> set (SnapshotInputs ts) \<Longrightarrow> inp \<in> set (ts_Inputs ts)"
  by (simp add: SnapshotInputs_def)

lemma sequence_ok_pos: "sequence_ok pol inp \<Longrightarrow> 0 < GetMaxSequenceLength inp"
  by (auto simp: sequence_ok_def)

lemma ready_lengths:
  assumes "snapshot_wf ts s" and "distinct (map tis_Name (SnapshotInputs ts))"
    and "IsReadyForExecution s (int (length (SnapshotInputs ts)))"
    and "inp \<in> set (SnapshotInputs ts)"
  shows "GetMinSequenceLength inp \<le> int (length (seq_of s (tis_Name inp)))"
proof -
  have d: "distinct (map fst s)" using assms(1) by (simp add: snapshot_wf_def gomap_ok_def)
  have sub: "fst ` set s \<subseteq> tis_Name ` set (SnapshotInputs ts)"
    using assms(1) d by (force simp: snapshot_wf_def)
  have "card (fst ` set s) = card (tis_Name ` set (SnapshotInputs ts))"
    using d assms(2,3) distinct_card [of "map fst s"] distinct_card [of "map tis_Name (SnapshotInputs ts)"]
    by (simp add: IsReadyForExecution_def)
  then have "fst ` set s = tis_Name ` set (SnapshotInputs ts)"
    by (intro card_subset_eq sub) simp_all
  then obtain ip where ip: "(tis_Name inp, ip) \<in> set s" using assms(4) by force
  then have m: "map_of s (tis_Name inp) = Some ip" using d by simp
  then obtain inp' where "inp' \<in> set (SnapshotInputs ts)" "tis_Name inp' = tis_Name inp"
    "ip_minSeqLen ip = GetMinSequenceLength inp'"
    using assms(1) unfolding snapshot_wf_def by blast
  then have "ip_minSeqLen ip = GetMinSequenceLength inp"
    using distinct_same_element [OF assms(2)] assms(4) by blast
  then show ?thesis using ip m assms(3)
    by (auto simp: IsReadyForExecution_def list_all_iff pair_IsReadyForExecution_def seq_of_def)
qed

lemma put_value_wf:
  assumes "snapshot_wf ts s" and "tis \<in> set (SnapshotInputs ts)"
    and "distinct (map tis_Name (SnapshotInputs ts))"
    and "int (length (seq_of s (tis_Name tis))) < GetMaxSequenceLength tis"
  shows "snapshot_wf ts (put_value tis stats av a s)"
proof -
  have "int (length (seq_of (put_value tis stats av a s) (tis_Name inp))) \<le> GetMaxSequenceLength inp"
    if "inp \<in> set (SnapshotInputs ts)" for inp
    using assms that distinct_same_element [OF assms(3,2) that]
    by (auto simp: seq_of_put_value snapshot_wf_def)
  moreover have "ip_stats ip \<noteq> None \<and> (\<exists>inp \<in> set (SnapshotInputs ts). tis_Name inp = n
      \<and> ip_minSeqLen ip = GetMinSequenceLength inp)"
    if "map_of (put_value tis stats av a s) n = Some ip" for n ip
  proof (cases "n = tis_Name tis")
    case True
    then show ?thesis using that assms(1,2)
      by (auto simp: put_value_def Let_def update_conv' snapshot_wf_def split: option.splits)
  next
    case False
    then show ?thesis using that assms(1)
      by (auto simp: put_value_def Let_def update_conv' snapshot_wf_def)
  qed
  ultimately show ?thesis using assms(1) by (simp add: snapshot_wf_def put_value_def Let_def)
qed

lemma find_snapshot_input:
  assumes "distinct (map tis_Name (SnapshotInputs ts))" and "inp \<in> set (SnapshotInputs ts)"
  shows "find (\<lambda>i. tis_Name i = tis_Name inp) (SnapshotInputs ts) = Some inp"
proof -
  have "find (\<lambda>i. tis_Name i = tis_Name inp) (SnapshotInputs ts) \<noteq> None"
    using assms(2) by (simp add: find_None_all del: find_name_None) blast
  then obtain i where i: "find (\<lambda>i. tis_Name i = tis_Name inp) (SnapshotInputs ts) = Some i"
    by (meson option.exhaust)
  have "i = inp"
    using distinct_same_element [OF assms(1), of i inp] find_SomeD [OF i] assms(2) by simp
  with i show ?thesis by simp
qed

lemma seq_of_prepare:
  assumes "distinct (map tis_Name (SnapshotInputs ts))" and "inp \<in> set (SnapshotInputs ts)"
  shows "seq_of (prepare_next pol (SnapshotInputs ts) s) (tis_Name inp) =
     seq_after pol inp (seq_of s (tis_Name inp))"
  unfolding seq_of_def prepare_next_map_of [OF assms(1)] find_snapshot_input [OF assms]
  by (auto simp: pair_after_def seq_after_def drop_acks_def split: option.split)

lemma seq_after_length: "length (seq_after pol inp seq) \<le> length seq"
  by (simp add: seq_after_def)

lemma prepare_wf:
  assumes "snapshot_wf ts s" and "distinct (map tis_Name (SnapshotInputs ts))"
  shows "snapshot_wf ts (prepare_next pol (SnapshotInputs ts) s)"
proof -
  have "int (length (seq_of (prepare_next pol (SnapshotInputs ts) s) (tis_Name inp))) \<le> GetMaxSequenceLength inp"
    if "inp \<in> set (SnapshotInputs ts)" for inp
    using assms(1) that seq_after_length [of pol inp "seq_of s (tis_Name inp)"]
    by (fastforce simp: seq_of_prepare [OF assms(2) that] snapshot_wf_def)
  moreover have "\<exists>ip0. map_of s n = Some ip0 \<and> ip_stats ip = ip_stats ip0 \<and> ip_minSeqLen ip = ip_minSeqLen ip0"
    if "map_of (prepare_next pol (SnapshotInputs ts) s) n = Some ip" for n ip
    using that prepare_next_map_of [OF assms(2), of pol s n]
    by (auto simp: pair_after_def simp del: find_name_None split: option.splits if_splits)
  ultimately show ?thesis using assms(1) by (fastforce simp: snapshot_wf_def)
qed

section \<open>The running loop\<close>

text \<open>
  The loop with its goroutines: values whose \<open>processAnnotatedValue\<close> waits for room, snapshots on
  their way to the execution queue, snapshots being executed, snapshots handed to the snapshot
  service of a custom task.  The history records, for every snapshot input, the values accepted,
  and all snapshots in the order in which they were made; \<open>ly_finished\<close> counts executions.
\<close>

record 'a loop_system =
  ly_loop :: "'a input_loop"
  ly_waiting :: "(string \<times> AnnotatedValue \<times> 'a) multiset"
  ly_pushing :: "'a InputSnapshot multiset"
  ly_running :: "'a InputSnapshot multiset"
  ly_accepted :: "string \<Rightarrow> (AnnotatedValue \<times> 'a) list"
  ly_snapshots :: "'a InputSnapshot list"
  ly_delivered :: nat
  ly_custom_runs :: nat
  ly_finished :: nat

datatype 'a loop_step =
    LoopReceive string AnnotatedValue
  | LoopAccept string AnnotatedValue
  | LoopSnapshot string AnnotatedValue
  | LoopCancel string AnnotatedValue
  | LoopExecute "'a InputSnapshot"
  | LoopDone "'a InputSnapshot"
  | LoopDeliver "'a InputSnapshot"
  | LoopCustomRun

definition accept :: "string \<Rightarrow> 'x \<Rightarrow> (string \<Rightarrow> 'x list) \<Rightarrow> string \<Rightarrow> 'x list" where
  "accept n x acc = acc(n := acc n @ [x])"

inductive loop_trans ::
  "TaskSpec \<Rightarrow> ('a, 'w, 'e) ack_fun \<Rightarrow> 'a loop_system \<Rightarrow> 'a loop_step \<Rightarrow> 'a loop_system \<Rightarrow> bool"
  for ts :: TaskSpec and do_ack :: "('a, 'w, 'e) ack_fun" where
  loop_receive:
    "inp \<in> set (ts_Inputs ts) \<Longrightarrow>
     loop_trans ts do_ack c (LoopReceive (tis_Name inp) av)
       (c\<lparr>ly_loop := count_received inp (ly_loop c),
          ly_waiting := add_mset (tis_Name inp, av, a) (ly_waiting c)\<rparr>)"
| loop_accept:
    "inp \<in> set (ts_Inputs ts) \<Longrightarrow> (tis_Name inp, av, a) \<in># ly_waiting c \<Longrightarrow>
     has_room (ly_loop c) (target_input ts inp) \<Longrightarrow>
     process_locked do_ack ts av (target_input ts inp) (tis_Name inp) a (ly_loop c) w = (Inr None, il, w') \<Longrightarrow>
     loop_trans ts do_ack c (LoopAccept (tis_Name inp) av)
       (c\<lparr>ly_loop := il, ly_waiting := ly_waiting c - {#(tis_Name inp, av, a)#},
          ly_accepted := accept (tis_Name (target_input ts inp)) (av, a) (ly_accepted c)\<rparr>)"
| loop_snapshot:
    "inp \<in> set (ts_Inputs ts) \<Longrightarrow> (tis_Name inp, av, a) \<in># ly_waiting c \<Longrightarrow>
     has_room (ly_loop c) (target_input ts inp) \<Longrightarrow>
     process_locked do_ack ts av (target_input ts inp) (tis_Name inp) a (ly_loop c) w = (Inr (Some s), il, w') \<Longrightarrow>
     loop_trans ts do_ack c (LoopSnapshot (tis_Name inp) av)
       (c\<lparr>ly_loop := il, ly_waiting := ly_waiting c - {#(tis_Name inp, av, a)#},
          ly_accepted := accept (tis_Name (target_input ts inp)) (av, a) (ly_accepted c),
          ly_snapshots := ly_snapshots c @ [s], ly_pushing := add_mset s (ly_pushing c)\<rparr>)"
| loop_cancel:
    "(n, av, a) \<in># ly_waiting c \<Longrightarrow>
     loop_trans ts do_ack c (LoopCancel n av)
       (c\<lparr>ly_waiting := ly_waiting c - {#(n, av, a)#}\<rparr>)"
| loop_execute:
    "HasLaunchPolicyAuto ts \<or> HasLaunchPolicyRestart ts \<Longrightarrow> s \<in># ly_pushing c \<Longrightarrow> map_order es s \<Longrightarrow>
     exec_begin es (il_statistics (ly_loop c)) = Some st \<Longrightarrow>
     loop_trans ts do_ack c (LoopExecute s)
       (c\<lparr>ly_loop := (ly_loop c)\<lparr>il_statistics := st\<rparr>, ly_pushing := ly_pushing c - {#s#},
          ly_running := add_mset s (ly_running c)\<rparr>)"
| loop_done:
    "s \<in># ly_running c \<Longrightarrow> map_order es s \<Longrightarrow>
     exec_end do_ack es outcome (il_statistics (ly_loop c)) w = (Some st, w') \<Longrightarrow>
     loop_trans ts do_ack c (LoopDone s)
       (c\<lparr>ly_loop := (ly_loop c)\<lparr>il_statistics := st\<rparr>, ly_running := ly_running c - {#s#},
          ly_finished := ly_finished c + 1\<rparr>)"
| loop_deliver:
    "HasLaunchPolicyCustom ts \<Longrightarrow> s \<in># ly_pushing c \<Longrightarrow>
     loop_trans ts do_ack c (LoopDeliver s)
       (c\<lparr>ly_pushing := ly_pushing c - {#s#}, ly_delivered := ly_delivered c + 1\<rparr>)"
| loop_custom_run:
    "HasLaunchPolicyCustom ts \<Longrightarrow> exec_begin ([] :: (string \<times> 'a inputPair) list) (il_statistics (ly_loop c)) = Some st \<Longrightarrow>
     loop_trans ts do_ack c LoopCustomRun
       (c\<lparr>ly_loop := (ly_loop c)\<lparr>il_statistics := st\<rparr>, ly_running := add_mset [] (ly_running c),
          ly_custom_runs := ly_custom_runs c + 1\<rparr>)"

text \<open>The start: an empty snapshot and fresh statistics with one entry per input, for a task
  that the validation accepts.\<close>

definition start_statistics :: "TaskSpec \<Rightarrow> TaskStatistics" where
  "start_statistics ts = \<lparr>tst_Name = ts_Name ts, tst_URI = [], tst_SnapshotsWaiting = 0,
     tst_SnapshotsInProgress = 0, tst_SnapshotsSucceeded = 0, tst_SnapshotsFailed = 0,
     tst_Inputs = map (\<lambda>inp. new_input_stat (tis_Name inp)) (ts_Inputs ts), tst_Outputs = []\<rparr>"

definition start_system :: "TaskSpec \<Rightarrow> 'a loop_system" where
  "start_system ts = \<lparr>ly_loop = \<lparr>il_snapshot = [], il_executionCount = 0,
       il_statistics = start_statistics ts\<rparr>,
     ly_waiting = {#}, ly_pushing = {#}, ly_running = {#}, ly_accepted = (\<lambda>n. []),
     ly_snapshots = [], ly_delivered = 0, ly_custom_runs = 0, ly_finished = 0\<rparr>"

definition loop_init :: "PipelineSpec \<Rightarrow> TaskSpec \<Rightarrow> 'a loop_system \<Rightarrow> bool" where
  "loop_init ps ts c \<longleftrightarrow> TaskSpec_Validate ts ps = None \<and> c = start_system ts"

section \<open>Invariants of the loop\<close>

abbreviation snap :: "'a loop_system \<Rightarrow> 'a InputSnapshot" where
  "snap c \<equiv> il_snapshot (ly_loop c)"

definition tracked :: "TaskSpec \<Rightarrow> 'a loop_system \<Rightarrow> bool" where
  "tracked ts c \<longleftrightarrow> (\<forall>inp \<in> set (SnapshotInputs ts).
     track (ts_SnapshotPolicy ts) inp (ly_accepted c (tis_Name inp))
       (map (\<lambda>s. seq_of s (tis_Name inp)) (ly_snapshots c)) (seq_of (snap c) (tis_Name inp)))"

text \<open>The counters of snapshots, for tasks with and without a custom launch policy.\<close>

definition snapshot_counters :: "'a loop_system \<Rightarrow> bool" where
  "snapshot_counters c \<longleftrightarrow>
     (let st = il_statistics (ly_loop c) in
      tst_SnapshotsWaiting st =
        int (size (ly_pushing c)) + int (ly_delivered c) - int (ly_custom_runs c)
      \<and> tst_SnapshotsInProgress st = int (size (ly_running c))
      \<and> tst_SnapshotsSucceeded st + tst_SnapshotsFailed st = int (ly_finished c))"

text \<open>A complete snapshot never stays in the loop (unless the policy keeps its values).\<close>

definition not_ready :: "TaskSpec \<Rightarrow> 'a loop_system \<Rightarrow> bool" where
  "not_ready ts c \<longleftrightarrow> \<not> IsSwapNew4Old (ts_SnapshotPolicy ts) \<and> SnapshotInputs ts \<noteq> [] \<longrightarrow>
     \<not> IsReadyForExecution (snap c) (int (length (SnapshotInputs ts)))"

text \<open>Under SwapNew4Old the values of the first snapshot fill all sequences for good.\<close>

definition swap_full :: "TaskSpec \<Rightarrow> 'a loop_system \<Rightarrow> bool" where
  "swap_full ts c \<longleftrightarrow> IsSwapNew4Old (ts_SnapshotPolicy ts) \<longrightarrow> length (ly_snapshots c) \<le> 1
     \<and> (ly_snapshots c \<noteq> [] \<longrightarrow> (\<forall>inp \<in> set (SnapshotInputs ts).
          GetMaxSequenceLength inp \<le> int (length (seq_of (snap c) (tis_Name inp)))))"

definition loop_inv :: "PipelineSpec \<Rightarrow> TaskSpec \<Rightarrow> 'a loop_system \<Rightarrow> bool" where
  "loop_inv ps ts c \<longleftrightarrow> task_ok ps ts \<and> snapshot_wf ts (snap c) \<and> tracked ts c \<and> snapshot_counters c
     \<and> not_ready ts c \<and> swap_full ts c
     \<and> int (length (ly_snapshots c)) = il_executionCount (ly_loop c)
     \<and> (\<not> HasLaunchPolicyCustom ts \<longrightarrow> ly_delivered c = 0 \<and> ly_custom_runs c = 0)
     \<and> (HasLaunchPolicyCustom ts \<longrightarrow> set_mset (ly_running c) \<subseteq> {[]})"

lemma snapshot_wf_empty: "task_ok ps ts \<Longrightarrow> snapshot_wf ts []"
  using task_inputs(3) [of ps ts] SnapshotInputs_sub
  by (fastforce simp: snapshot_wf_def seq_of_def sequence_ok_def)

lemma loop_inv_init: "loop_init ps ts c \<Longrightarrow> loop_inv ps ts c"
  by (auto simp: loop_init_def loop_inv_def start_system_def task_valid snapshot_wf_empty tracked_def
      not_ready_def swap_full_def IsReadyForExecution_def track_def consumed_def seq_of_def snapshot_counters_def start_statistics_def)

text \<open>Updating the statistics of inputs does not touch the counters of snapshots.\<close>

definition same_snapshot_counters :: "TaskStatistics \<Rightarrow> TaskStatistics \<Rightarrow> bool" where
  "same_snapshot_counters a b \<longleftrightarrow> tst_SnapshotsWaiting b = tst_SnapshotsWaiting a
     \<and> tst_SnapshotsInProgress b = tst_SnapshotsInProgress a
     \<and> tst_SnapshotsSucceeded b = tst_SnapshotsSucceeded a
     \<and> tst_SnapshotsFailed b = tst_SnapshotsFailed a"

lemma upd_input_counters [simp]: "same_snapshot_counters st (upd_input n f st)"
  by (simp add: same_snapshot_counters_def upd_input_def)

lemma same_snapshot_counters_trans:
  "same_snapshot_counters a b \<Longrightarrow> same_snapshot_counters b c \<Longrightarrow> same_snapshot_counters a c"
  by (simp add: same_snapshot_counters_def)

lemma AddInProgress_counters:
  "AddInProgressStatistics d es st = Some st' \<Longrightarrow> same_snapshot_counters st st'"
proof (induction d es st rule: AddInProgressStatistics.induct)
  case (2 d k v es st)
  then show ?case
    by (auto split: option.splits intro: same_snapshot_counters_trans [OF upd_input_counters])
qed (simp add: same_snapshot_counters_def)

lemma AddProcessed_counters:
  "AddProcessedStatistics d es st = Some st' \<Longrightarrow> same_snapshot_counters st st'"
proof (induction d es st rule: AddProcessedStatistics.induct)
  case (2 d k v es st)
  then show ?case
    by (auto split: option.splits intro: same_snapshot_counters_trans [OF upd_input_counters])
qed (simp add: same_snapshot_counters_def)

lemma exec_begin_counters:
  "exec_begin es st = Some st' \<Longrightarrow>
     tst_SnapshotsWaiting st' = tst_SnapshotsWaiting st - 1
     \<and> tst_SnapshotsInProgress st' = tst_SnapshotsInProgress st + 1
     \<and> tst_SnapshotsSucceeded st' = tst_SnapshotsSucceeded st
     \<and> tst_SnapshotsFailed st' = tst_SnapshotsFailed st"
  unfolding exec_begin_def by (drule AddInProgress_counters) (simp add: same_snapshot_counters_def)

lemma exec_deferred_counters:
  assumes "exec_deferred es st = Some st'"
  shows "tst_SnapshotsWaiting st' = tst_SnapshotsWaiting st
     \<and> tst_SnapshotsInProgress st' = tst_SnapshotsInProgress st - 1
     \<and> tst_SnapshotsSucceeded st' = tst_SnapshotsSucceeded st
     \<and> tst_SnapshotsFailed st' = tst_SnapshotsFailed st"
proof -
  obtain st1 st2 where "AddInProgressStatistics (-1) es st = Some st1"
    "AddProcessedStatistics 1 es st1 = Some st2"
    "st' = st2\<lparr>tst_SnapshotsInProgress := tst_SnapshotsInProgress st2 - 1\<rparr>"
    using assms by (auto simp: exec_deferred_def split: option.splits)
  then show ?thesis
    using AddInProgress_counters [of "-1" es st st1] AddProcessed_counters [of 1 es st1 st2]
    by (simp add: same_snapshot_counters_def)
qed

lemma exec_end_counters:
  assumes "exec_end do_ack es outcome st w = (Some st', w')"
  shows "tst_SnapshotsWaiting st' = tst_SnapshotsWaiting st
     \<and> tst_SnapshotsInProgress st' = tst_SnapshotsInProgress st - 1
     \<and> tst_SnapshotsSucceeded st' + tst_SnapshotsFailed st' =
         tst_SnapshotsSucceeded st + tst_SnapshotsFailed st + 1"
  using assms
  by (auto simp: exec_end_def Let_def dest!: exec_deferred_counters
      split: exec_outcome.splits prod.splits)

lemma count_received_simps [simp]:
  "il_snapshot (count_received inp il) = il_snapshot il"
  "il_executionCount (count_received inp il) = il_executionCount il"
  by (simp_all add: count_received_def)

lemma count_received_counters:
  "same_snapshot_counters (il_statistics il) (il_statistics (count_received inp il))"
  by (simp add: count_received_def)

lemma track_accepted:
  assumes "task_ok ps ts" and "tracked ts c" and "t \<in> set (SnapshotInputs ts)"
    and "inp \<in> set (SnapshotInputs ts)"
  shows "track (ts_SnapshotPolicy ts) inp (accept (tis_Name t) (av, a) (ly_accepted c) (tis_Name inp))
     (map (\<lambda>s. seq_of s (tis_Name inp)) (ly_snapshots c))
     (seq_of (put_value t stats av a (snap c)) (tis_Name inp))"
proof -
  have t: "track (ts_SnapshotPolicy ts) inp (ly_accepted c (tis_Name inp))
     (map (\<lambda>s. seq_of s (tis_Name inp)) (ly_snapshots c)) (seq_of (snap c) (tis_Name inp))"
    using assms(2,4) by (simp add: tracked_def)
  show ?thesis
  proof (cases "tis_Name inp = tis_Name t")
    case True
    then show ?thesis using track_accept [OF t, of av a] by (simp add: accept_def seq_of_put_value)
  next
    case False
    then show ?thesis using t by (simp add: accept_def seq_of_put_value)
  qed
qed

text \<open>Accepting a value keeps the invariant, with and without a new snapshot.\<close>

lemma accept_keeps:
  assumes inv: "loop_inv ps ts c" and inp: "inp \<in> set (ts_Inputs ts)"
    and room: "has_room (ly_loop c) (target_input ts inp)"
    and proc: "process_locked do_ack ts av (target_input ts inp) n a (ly_loop c) w = (Inr None, il, w')"
  shows "loop_inv ps ts (c\<lparr>ly_loop := il, ly_waiting := W,
     ly_accepted := accept (tis_Name (target_input ts inp)) (av, a) (ly_accepted c)\<rparr>)"
proof -
  let ?t = "target_input ts inp"
  have ok: "task_ok ps ts" using inv by (simp add: loop_inv_def)
  have t: "?t \<in> set (SnapshotInputs ts)" by (rule target_snapshot_input [OF ok inp])
  have pos: "0 < GetMaxSequenceLength ?t"
    using task_inputs(3) [OF ok] t SnapshotInputs_sub sequence_ok_pos by blast
  have il: "il = (ly_loop c)\<lparr>il_snapshot := put_value ?t n av a (snap c)\<rparr>"
    and nr: "\<not> IsReadyForExecution (put_value ?t n av a (snap c)) (int (length (SnapshotInputs ts)))"
    using proc [unfolded process_locked_room [OF room pos]] by (auto simp: Let_def split: if_splits)
  have "snapshot_wf ts (put_value ?t n av a (snap c))"
    using inv room t task_inputs(2) [OF ok]
    by (intro put_value_wf) (simp_all add: loop_inv_def has_room_def GetSequenceLength_seq)
  moreover have "tracked ts (c\<lparr>ly_loop := il, ly_waiting := W,
     ly_accepted := accept (tis_Name ?t) (av, a) (ly_accepted c)\<rparr>)"
    using track_accepted [OF ok _ t, of c] inv il by (auto simp: tracked_def loop_inv_def)
  moreover have "\<not> (IsSwapNew4Old (ts_SnapshotPolicy ts) \<and> ly_snapshots c \<noteq> [])"
    using inv room t by (auto simp: loop_inv_def swap_full_def has_room_def GetSequenceLength_seq)
  ultimately show ?thesis using inv il nr
    by (simp add: loop_inv_def snapshot_counters_def not_ready_def swap_full_def)
qed

lemma seq_after_swap: "IsSwapNew4Old pol \<Longrightarrow> length (seq_after pol inp seq) = length seq"
  using policies_disjoint [of pol] by (simp add: seq_after_def)

lemma not_ready_prepare:
  assumes ok: "task_ok ps ts" and wf: "snapshot_wf ts s" and t: "t \<in> set (SnapshotInputs ts)"
    and pol: "\<not> IsSwapNew4Old (ts_SnapshotPolicy ts)"
  shows "\<not> IsReadyForExecution (prepare_next (ts_SnapshotPolicy ts) (SnapshotInputs ts) s)
     (int (length (SnapshotInputs ts)))"
proof
  let ?pol = "ts_SnapshotPolicy ts"
  note d = task_inputs(2) [OF ok]
  assume "IsReadyForExecution (prepare_next ?pol (SnapshotInputs ts) s) (int (length (SnapshotInputs ts)))"
  from ready_lengths [OF prepare_wf [OF wf d] d this t]
  have len: "GetMinSequenceLength t \<le> int (length (seq_after ?pol t (seq_of s (tis_Name t))))"
    by (simp add: seq_of_prepare [OF d t])
  have "sequence_ok ?pol t" using task_inputs(3) [OF ok SnapshotInputs_sub [OF t]] by simp
  moreover have "int (length (seq_of s (tis_Name t))) \<le> GetMaxSequenceLength t"
    using wf t by (simp add: snapshot_wf_def)
  ultimately show False
    using len pol task_inputs(4) [OF ok] by (auto simp: seq_after_def sequence_ok_def split: if_splits)
qed

lemma snapshot_keeps:
  assumes inv: "loop_inv ps ts c" and inp: "inp \<in> set (ts_Inputs ts)"
    and room: "has_room (ly_loop c) (target_input ts inp)"
    and proc: "process_locked do_ack ts av (target_input ts inp) n a (ly_loop c) w = (Inr (Some s), il, w')"
  shows "loop_inv ps ts (c\<lparr>ly_loop := il, ly_waiting := W,
     ly_accepted := accept (tis_Name (target_input ts inp)) (av, a) (ly_accepted c),
     ly_snapshots := ly_snapshots c @ [s], ly_pushing := add_mset s (ly_pushing c)\<rparr>)" (is "loop_inv ps ts ?d")
proof -
  let ?t = "target_input ts inp"
  let ?pol = "ts_SnapshotPolicy ts"
  let ?s = "put_value ?t n av a (snap c)"
  have ok: "task_ok ps ts" using inv by (simp add: loop_inv_def)
  note d = task_inputs(2) [OF ok]
  have t: "?t \<in> set (SnapshotInputs ts)" by (rule target_snapshot_input [OF ok inp])
  have pos: "0 < GetMaxSequenceLength ?t"
    using task_inputs(3) [OF ok] t SnapshotInputs_sub sequence_ok_pos by blast
  have ready: "IsReadyForExecution ?s (int (length (SnapshotInputs ts)))"
    and s: "s = snapshot_Clone ?s"
    and il: "il = (ly_loop c)\<lparr>il_snapshot := prepare_next ?pol (SnapshotInputs ts) ?s,
       il_executionCount := il_executionCount (ly_loop c) + 1,
       il_statistics := (il_statistics (ly_loop c))
         \<lparr>tst_SnapshotsWaiting := tst_SnapshotsWaiting (il_statistics (ly_loop c)) + 1\<rparr>\<rparr>"
    using proc [unfolded process_locked_room [OF room pos]] by (auto simp: Let_def split: if_splits)
  have wf: "snapshot_wf ts ?s"
    using inv room t d
    by (intro put_value_wf) (simp_all add: loop_inv_def has_room_def GetSequenceLength_seq)
  have "track ?pol i (accept (tis_Name ?t) (av, a) (ly_accepted c) (tis_Name i))
      (map (\<lambda>s. seq_of s (tis_Name i)) (ly_snapshots c) @ [seq_of ?s (tis_Name i)])
      (seq_after ?pol i (seq_of ?s (tis_Name i)))" if i: "i \<in> set (SnapshotInputs ts)" for i
  proof (rule track_snapshot)
    show "track ?pol i (accept (tis_Name ?t) (av, a) (ly_accepted c) (tis_Name i))
      (map (\<lambda>s. seq_of s (tis_Name i)) (ly_snapshots c)) (seq_of ?s (tis_Name i))"
      by (rule track_accepted [OF ok _ t i]) (use inv in \<open>simp add: loop_inv_def\<close>)
    show "sequence_ok ?pol i" using task_inputs(3) [OF ok SnapshotInputs_sub [OF i]] by simp
    show "GetMinSequenceLength i \<le> int (length (seq_of ?s (tis_Name i)))"
      by (rule ready_lengths [OF wf d ready i])
    show "int (length (seq_of ?s (tis_Name i))) \<le> GetMaxSequenceLength i"
      using wf i by (simp add: snapshot_wf_def)
  qed (use task_inputs(4) [OF ok] in blast)
  then have "tracked ts ?d" using il s by (simp add: tracked_def seq_of_prepare [OF d])
  moreover have "snapshot_wf ts (snap ?d)" using prepare_wf [OF wf d] il by simp
  moreover have "not_ready ts ?d"
    using not_ready_prepare [OF ok wf t] il by (simp add: not_ready_def)
  moreover have "swap_full ts ?d"
    using inv room t il ready_lengths [OF wf d ready] task_inputs(3) [OF ok SnapshotInputs_sub]
    by (fastforce simp: loop_inv_def swap_full_def has_room_def GetSequenceLength_seq
        seq_of_prepare [OF d] seq_after_swap sequence_ok_def)
  ultimately show ?thesis using inv il by (auto simp: loop_inv_def snapshot_counters_def Let_def)
qed

lemma loop_inv_step: "loop_trans ts do_ack c e d \<Longrightarrow> loop_inv ps ts c \<Longrightarrow> loop_inv ps ts d"
proof (induction rule: loop_trans.induct)
  case (loop_receive inp c av a)
  then show ?case
    using count_received_counters [of "ly_loop c" inp]
    by (simp add: loop_inv_def tracked_def snapshot_counters_def same_snapshot_counters_def Let_def
        not_ready_def swap_full_def)
next
  case (loop_accept inp av a c w il w')
  then show ?case by (intro accept_keeps)
next
  case (loop_snapshot inp av a c w s il w')
  then show ?case by (intro snapshot_keeps)
next
  case (loop_cancel n av a c)
  then show ?case
    by (simp add: loop_inv_def tracked_def snapshot_counters_def not_ready_def swap_full_def)
next
  case (loop_execute s c es st)
  then show ?case
    using exec_begin_counters [of es _ st]
    by (auto simp: loop_inv_def tracked_def snapshot_counters_def not_ready_def swap_full_def Let_def HasLaunchPolicyAuto_def
        HasLaunchPolicyCustom_def HasLaunchPolicyRestart_def policy_names dest!: multi_member_split
        split: if_splits)
next
  case (loop_done s c es outcome w st w')
  then show ?case
    using exec_end_counters [of do_ack es outcome _ w st w']
    by (auto simp: loop_inv_def tracked_def snapshot_counters_def not_ready_def swap_full_def Let_def dest!: multi_member_split)
next
  case (loop_deliver s c)
  then show ?case
    by (auto simp: loop_inv_def tracked_def snapshot_counters_def not_ready_def swap_full_def Let_def dest!: multi_member_split)
next
  case (loop_custom_run c st)
  then show ?case
    using exec_begin_counters [OF loop_custom_run(2)]
    by (auto simp: loop_inv_def tracked_def snapshot_counters_def not_ready_def swap_full_def Let_def)
qed

interpretation input_loop: step_invariant "loop_init ps ts" "loop_trans ts do_ack" "loop_inv ps ts"
  for ps ts do_ack
  by unfold_locales (auto intro: loop_inv_init loop_inv_step)

section \<open>What the invariants say about the snapshots\<close>

lemma loop_reach_inv: "reach (loop_init ps ts) (loop_trans ts do_ack) c \<Longrightarrow> loop_inv ps ts c"
  by (rule input_loop.reach_inv)

lemma GetSequence_seq: "GetSequence s n = map fst (seq_of s n)"
  by (simp add: GetSequence_def seq_of_def pair_GetSequence_def split: option.split)

lemma loop_track:
  assumes "reach (loop_init ps ts) (loop_trans ts do_ack) c" and "inp \<in> set (SnapshotInputs ts)"
  shows "track (ts_SnapshotPolicy ts) inp (ly_accepted c (tis_Name inp))
     (map (\<lambda>s. seq_of s (tis_Name inp)) (ly_snapshots c)) (seq_of (snap c) (tis_Name inp))"
  using loop_reach_inv [OF assms(1)] assms(2) by (simp add: loop_inv_def tracked_def)

text \<open>Consecutive windows that each start where the previous one ends make up a prefix.\<close>

lemma windows_concat:
  assumes "\<forall>k < length hist. map fst (hist ! k) =
      take (length (hist ! k)) (drop (length (concat (take k hist))) xs)"
  shows "map fst (concat hist) = take (length (concat hist)) xs"
  using assms
proof (induction hist rule: rev_induct)
  case (snoc h hist)
  have "map fst (concat hist) = take (length (concat hist)) xs"
  proof (rule snoc.IH, intro allI impI)
    fix k assume "k < length hist"
    then show "map fst (hist ! k) = take (length (hist ! k)) (drop (length (concat (take k hist))) xs)"
      using snoc.prems [rule_format, of k] by (simp add: nth_append)
  qed
  moreover have "map fst h = take (length h) (drop (length (concat hist)) xs)"
    using snoc.prems [rule_format, of "length hist"] by simp
  ultimately show ?case by (simp add: take_add)
qed simp

text \<open>A schedule for the examples: one value is received on an input and accepted at once.\<close>

definition no_ack :: "(string, unit, unit) ack_fun" where
  "no_ack a av w = (None, w)"

definition deliver ::
  "TaskSpec \<Rightarrow> TaskInputSpec \<Rightarrow> AnnotatedValue \<Rightarrow> string \<Rightarrow> string loop_system \<Rightarrow> string loop_system" where
  "deliver ts inp av a c =
     (let il0 = count_received inp (ly_loop c);
          acc = accept (tis_Name (target_input ts inp)) (av, a) (ly_accepted c)
      in case process_locked no_ack ts av (target_input ts inp) (tis_Name inp) a il0 () of
           (Inl e, il, w) \<Rightarrow> c
         | (Inr None, il, w) \<Rightarrow> c\<lparr>ly_loop := il, ly_accepted := acc\<rparr>
         | (Inr (Some s), il, w) \<Rightarrow> c\<lparr>ly_loop := il, ly_accepted := acc,
             ly_snapshots := ly_snapshots c @ [s], ly_pushing := add_mset s (ly_pushing c)\<rparr>)"

lemma deliver_reach:
  assumes r: "reach (loop_init ps ts) (loop_trans ts no_ack) c" and inp: "inp \<in> set (ts_Inputs ts)"
    and room: "has_room (ly_loop c) (target_input ts inp)"
  shows "reach (loop_init ps ts) (loop_trans ts no_ack) (deliver ts inp av a c)"
proof -
  let ?c1 = "c\<lparr>ly_loop := count_received inp (ly_loop c),
          ly_waiting := add_mset (tis_Name inp, av, a) (ly_waiting c)\<rparr>"
  have r1: "reach (loop_init ps ts) (loop_trans ts no_ack) ?c1"
    by (rule reach_step [OF r]) (rule loop_receive [OF inp])
  have room1: "has_room (ly_loop ?c1) (target_input ts inp)" using room by (simp add: has_room_def)
  have wait: "(tis_Name inp, av, a) \<in># ly_waiting ?c1" by simp
  obtain r il w where p: "process_locked no_ack ts av (target_input ts inp) (tis_Name inp) a
      (ly_loop ?c1) () = (r, il, w)" using prod_cases3 by blast
  then have p': "process_locked no_ack ts av (target_input ts inp) (tis_Name inp) a
      (count_received inp (ly_loop c)) () = (r, il, w)" by simp
  consider e where "r = Inl e" | "r = Inr None" | s where "r = Inr (Some s)"
    by (metis not_None_eq sum.exhaust)
  then show ?thesis
  proof cases
    case 1
    then show ?thesis using r p' by (simp add: deliver_def)
  next
    case 2
    have "reach (loop_init ps ts) (loop_trans ts no_ack) (?c1\<lparr>ly_loop := il,
        ly_waiting := ly_waiting ?c1 - {#(tis_Name inp, av, a)#},
        ly_accepted := accept (tis_Name (target_input ts inp)) (av, a) (ly_accepted ?c1)\<rparr>)"
      by (rule reach_step [OF r1], rule loop_accept [OF inp wait room1], use p 2 in blast)
    then show ?thesis
      by (rule back_subst [where P = "reach _ _"])
         (rule loop_system.equality; simp add: deliver_def p' 2)
  next
    case (3 s)
    have "reach (loop_init ps ts) (loop_trans ts no_ack) (?c1\<lparr>ly_loop := il,
        ly_waiting := ly_waiting ?c1 - {#(tis_Name inp, av, a)#},
        ly_accepted := accept (tis_Name (target_input ts inp)) (av, a) (ly_accepted ?c1),
        ly_snapshots := ly_snapshots ?c1 @ [s], ly_pushing := add_mset s (ly_pushing ?c1)\<rparr>)"
      by (rule reach_step [OF r1], rule loop_snapshot [OF inp wait room1], use p 3 in blast)
    then show ?thesis
      by (rule back_subst [where P = "reach _ _"])
         (rule loop_system.equality; simp add: deliver_def p' 3)
  qed
qed

lemma start_reach:
  "TaskSpec_Validate ts ps = None \<Longrightarrow> reach (loop_init ps ts) (loop_trans ts do_ack) (start_system ts)"
  by (rule reach_init) (simp add: loop_init_def)

section \<open>Example tasks\<close>

definition loop_input :: "string \<Rightarrow> int \<Rightarrow> int \<Rightarrow> TaskInputSpec" where
  "loop_input name len slide = \<lparr>tis_Name = name, tis_TypeRef = ''txt'',
     tis_RequiredSequenceLength = Some len, tis_MinSequenceLength = None,
     tis_MaxSequenceLength = None, tis_Slide = Some slide, tis_MergeInto = []\<rparr>"

definition loop_task :: "string \<Rightarrow> string \<Rightarrow> TaskInputSpec list \<Rightarrow> TaskSpec" where
  "loop_task policy launch inps = \<lparr>ts_Name = ''t'', ts_Type = ''T'', ts_Inputs = inps,
     ts_Outputs = [], ts_Executor = None, ts_SnapshotPolicy = policy, ts_LaunchPolicy = launch,
     ts_Service = None\<rparr>"

definition value_av :: "string \<Rightarrow> AnnotatedValue" where
  "value_av i = example_av i []"

definition pairs_task :: TaskSpec where
  "pairs_task = loop_task ''AllNew'' ''Auto'' [loop_input ''a'' 2 1]"

definition window_task :: TaskSpec where
  "window_task = loop_task ''SlidingWindow'' ''Auto'' [loop_input ''a'' 2 1]"

definition swap_task :: TaskSpec where
  "swap_task = loop_task ''SwapNew4Old'' ''Auto'' [loop_input ''a'' 1 1]"

definition custom_task :: TaskSpec where
  "custom_task = loop_task ''AllNew'' ''Custom'' [loop_input ''a'' 1 1]"

text \<open>A schedule that delivers a list of values to the only input of a task.\<close>

fun deliver_all :: "TaskSpec \<Rightarrow> string list \<Rightarrow> string loop_system \<Rightarrow> string loop_system" where
  "deliver_all ts [] c = c"
| "deliver_all ts (i # is) c =
     (let inp = hd (ts_Inputs ts) in
      if has_room (ly_loop c) (target_input ts inp)
      then deliver_all ts is (deliver ts inp (value_av i) i c) else c)"

lemma deliver_all_reach:
  assumes "ts_Inputs ts \<noteq> []"
  shows "reach (loop_init ps ts) (loop_trans ts no_ack) c \<Longrightarrow>
     reach (loop_init ps ts) (loop_trans ts no_ack) (deliver_all ts is c)"
  using assms
proof (induction ts "is" c rule: deliver_all.induct)
  case (2 ts i "is" c)
  then show ?case by (simp add: Let_def deliver_reach)
qed simp

lemma example_tasks_valid:
  "TaskSpec_Validate pairs_task example_pipeline = None"
  "TaskSpec_Validate window_task example_pipeline = None"
  "TaskSpec_Validate swap_task example_pipeline = None"
  "TaskSpec_Validate custom_task example_pipeline = None"
  by code_simp+

declare deliver_all.simps [simp del]

definition pairs_run :: "string loop_system" where
  "pairs_run = deliver_all pairs_task [''1'', ''2'', ''3'', ''4''] (start_system pairs_task)"

definition window_run :: "string loop_system" where
  "window_run = deliver_all window_task [''1'', ''2'', ''3''] (start_system window_task)"

definition swap_run :: "string loop_system" where
  "swap_run = deliver_all swap_task [''1''] (start_system swap_task)"

definition custom_run :: "string loop_system" where
  "custom_run = deliver_all custom_task [''1''] (start_system custom_task)"

lemma run_reach:
  assumes "TaskSpec_Validate ts ps = None" and "ts_Inputs ts \<noteq> []"
  shows "reach (loop_init ps ts) (loop_trans ts no_ack) (deliver_all ts is (start_system ts))"
  by (rule deliver_all_reach [OF assms(2)]) (rule start_reach [OF assms(1)])

lemma example_task_inputs:
  "ts_Inputs pairs_task \<noteq> []" "ts_Inputs window_task \<noteq> []" "ts_Inputs swap_task \<noteq> []"
  "ts_Inputs custom_task \<noteq> []"
  by (simp_all add: pairs_task_def window_task_def swap_task_def custom_task_def loop_task_def)

lemma example_reach:
  "reach (loop_init example_pipeline pairs_task) (loop_trans pairs_task no_ack) pairs_run"
  "reach (loop_init example_pipeline window_task) (loop_trans window_task no_ack) window_run"
  "reach (loop_init example_pipeline swap_task) (loop_trans swap_task no_ack) swap_run"
  "reach (loop_init example_pipeline custom_task) (loop_trans custom_task no_ack) custom_run"
  unfolding pairs_run_def window_run_def swap_run_def custom_run_def
  by (simp_all add: run_reach example_tasks_valid example_task_inputs)

lemma example_inputs:
  "loop_input ''a'' 2 1 \<in> set (SnapshotInputs pairs_task)"
  "loop_input ''a'' 2 1 \<in> set (SnapshotInputs window_task)"
  "loop_input ''a'' 1 1 \<in> set (SnapshotInputs swap_task)"
  "loop_input ''a'' 1 1 \<in> set (SnapshotInputs custom_task)"
  by code_simp+

lemma example_policies:
  "IsAllNew (ts_SnapshotPolicy pairs_task)" "IsSlidingWindow (ts_SnapshotPolicy window_task)"
  "IsSwapNew4Old (ts_SnapshotPolicy swap_task)" "HasLaunchPolicyCustom custom_task"
  by code_simp+

section \<open>Properties\<close>

text \<open>C7: Under AllNew every accepted value of an input is used in exactly one snapshot, in the
  order of arrival: the sequences of the input in the snapshots made so far, put one after the
  other and followed by its current sequence, are the values accepted; and each snapshot holds
  between min and max values of each input.\<close>

theorem allnew_partitions_input:
  assumes "reach (loop_init ps ts) (loop_trans ts do_ack) c" and "inp \<in> set (SnapshotInputs ts)"
    and "IsAllNew (ts_SnapshotPolicy ts)"
  shows "concat (map (\<lambda>s. GetSequence s (tis_Name inp)) (ly_snapshots c)) @ GetSequence (snap c) (tis_Name inp)
      = map fst (ly_accepted c (tis_Name inp))
    \<and> (\<forall>s \<in> set (ly_snapshots c).
         int (length (GetSequence s (tis_Name inp))) \<in> {GetMinSequenceLength inp..GetMaxSequenceLength inp})"
proof -
  let ?hist = "map (\<lambda>s. seq_of s (tis_Name inp)) (ly_snapshots c)"
  note t = loop_track [OF assms(1,2)]
  have "map fst (concat ?hist) = take (length (concat ?hist)) (map fst (ly_accepted c (tis_Name inp)))"
    using t assms(3) by (intro windows_concat) (simp add: track_def window_def consumed_def)
  moreover have "map fst (seq_of (snap c) (tis_Name inp)) =
      drop (length (concat ?hist)) (map fst (ly_accepted c (tis_Name inp)))"
    using t assms(3) by (simp add: track_def consumed_def)
  moreover have "\<forall>s \<in> set (ly_snapshots c). int (length (seq_of s (tis_Name inp))) \<in>
      {GetMinSequenceLength inp..GetMaxSequenceLength inp}"
    using t by (auto simp: track_def window_def in_set_conv_nth)
  ultimately show ?thesis
    by (simp add: GetSequence_seq map_concat comp_def)
qed

lemma allnew_partitions_input_witness:
  "map (\<lambda>s. map av_ID (GetSequence s ''a'')) (ly_snapshots pairs_run) = [[''1'', ''2''], [''3'', ''4'']]
   \<and> concat (map (\<lambda>s. GetSequence s ''a'') (ly_snapshots pairs_run)) @ GetSequence (snap pairs_run) ''a''
     = map fst (ly_accepted pairs_run ''a'')"
proof
  show "map (\<lambda>s. map av_ID (GetSequence s ''a'')) (ly_snapshots pairs_run) = [[''1'', ''2''], [''3'', ''4'']]"
    by code_simp
  show "concat (map (\<lambda>s. GetSequence s ''a'') (ly_snapshots pairs_run)) @ GetSequence (snap pairs_run) ''a''
     = map fst (ly_accepted pairs_run ''a'')"
    using allnew_partitions_input [OF example_reach(1) example_inputs(1) example_policies(1)]
    by (simp add: loop_input_def)
qed

text \<open>C24: Under SlidingWindow the k-th snapshot (from 0) holds for each input exactly the window
  of min accepted values that starts at the value number k * slide.\<close>

theorem sliding_window_snapshots:
  assumes "reach (loop_init ps ts) (loop_trans ts do_ack) c" and "inp \<in> set (SnapshotInputs ts)"
    and "IsSlidingWindow (ts_SnapshotPolicy ts)" and "k < length (ly_snapshots c)"
  shows "GetSequence (ly_snapshots c ! k) (tis_Name inp) =
      take (nat (GetMinSequenceLength inp))
        (drop (k * nat (GetSlide inp)) (map fst (ly_accepted c (tis_Name inp))))
    \<and> length (GetSequence (ly_snapshots c ! k) (tis_Name inp)) = nat (GetMinSequenceLength inp)"
proof -
  have ok: "task_ok ps ts" using loop_reach_inv [OF assms(1)] by (simp add: loop_inv_def)
  have "GetMinSequenceLength inp = GetMaxSequenceLength inp"
    using task_inputs(3) [OF ok SnapshotInputs_sub [OF assms(2)]] assms(3) by (simp add: sequence_ok_def)
  moreover have "window inp (seq_of (ly_snapshots c ! k) (tis_Name inp))
      (nat (GetSlide inp) * k) (ly_accepted c (tis_Name inp))"
    using loop_track [OF assms(1,2)] assms(3,4) policies_disjoint
    by (simp add: track_def consumed_def)
  ultimately have l: "length (seq_of (ly_snapshots c ! k) (tis_Name inp)) = nat (GetMinSequenceLength inp)"
    and m: "map fst (seq_of (ly_snapshots c ! k) (tis_Name inp)) =
      take (length (seq_of (ly_snapshots c ! k) (tis_Name inp)))
        (drop (k * nat (GetSlide inp)) (map fst (ly_accepted c (tis_Name inp))))"
    by (auto simp: window_def mult.commute)
  show ?thesis
    unfolding GetSequence_seq length_map by (rule conjI) (use l m in simp, rule l)
qed

lemma sliding_window_snapshots_witness:
  "map av_ID (GetSequence (ly_snapshots window_run ! 1) ''a'') = [''2'', ''3'']
   \<and> length (GetSequence (ly_snapshots window_run ! 1) ''a'') = 2"
proof
  show "map av_ID (GetSequence (ly_snapshots window_run ! 1) ''a'') = [''2'', ''3'']" by code_simp
  have "1 < length (ly_snapshots window_run)" by code_simp
  from conjunct2 [OF sliding_window_snapshots [OF example_reach(2) example_inputs(2) example_policies(2) this]]
  show "length (GetSequence (ly_snapshots window_run ! 1) ''a'') = 2"
    by (simp add: loop_input_def GetMinSequenceLength_def)
qed

text \<open>C17: Under every policy each accepted value has exactly one owner that will acknowledge it:
  the values with a callback in the snapshots made so far, followed by those in the current
  sequence, are the accepted values with their own callbacks, each once and in order.\<close>

theorem acknowledged_once:
  assumes "reach (loop_init ps ts) (loop_trans ts do_ack) c" and "inp \<in> set (SnapshotInputs ts)"
  shows "concat (map (\<lambda>s. owed (seq_of s (tis_Name inp))) (ly_snapshots c))
      @ owed (seq_of (snap c) (tis_Name inp)) = ly_accepted c (tis_Name inp)"
  using loop_track [OF assms] by (simp add: track_def comp_def)

lemma acknowledged_once_witness:
  "map (\<lambda>s. map snd (owed (seq_of s ''a''))) (ly_snapshots window_run) = [[''1'', ''2''], [''3'']]
   \<and> concat (map (\<lambda>s. owed (seq_of s ''a'')) (ly_snapshots window_run))
       @ owed (seq_of (snap window_run) ''a'') = ly_accepted window_run ''a''"
proof
  show "map (\<lambda>s. map snd (owed (seq_of s ''a''))) (ly_snapshots window_run) = [[''1'', ''2''], [''3'']]"
    by code_simp
  show "concat (map (\<lambda>s. owed (seq_of s ''a'')) (ly_snapshots window_run))
       @ owed (seq_of (snap window_run) ''a'') = ly_accepted window_run ''a''"
    using acknowledged_once [OF example_reach(2) example_inputs(2)] by (simp add: loop_input_def)
qed

text \<open>No execution is forgotten: in no reachable state does the loop of an AllNew or
  SlidingWindow task hold a snapshot that is complete; as soon as the last missing value is
  accepted the snapshot goes to the execution queue.\<close>

theorem complete_snapshot_leaves:
  assumes "reach (loop_init ps ts) (loop_trans ts do_ack) c" and "SnapshotInputs ts \<noteq> []"
    and "\<not> IsSwapNew4Old (ts_SnapshotPolicy ts)"
  shows "\<not> IsReadyForExecution (snap c) (int (length (SnapshotInputs ts)))
    \<and> int (length (ly_snapshots c)) = il_executionCount (ly_loop c)"
  using loop_reach_inv [OF assms(1)] assms(2,3) by (simp add: loop_inv_def not_ready_def)

lemma complete_snapshot_leaves_witness:
  "\<not> IsReadyForExecution (snap window_run) (int (length (SnapshotInputs window_task)))"
proof -
  have "SnapshotInputs window_task \<noteq> []" "\<not> IsSwapNew4Old (ts_SnapshotPolicy window_task)"
    by code_simp+
  from complete_snapshot_leaves [OF example_reach(2) this] show ?thesis by simp
qed

text \<open>A SwapNew4Old task executes at most once: after its first snapshot every input is full,
  because the old values stay in the snapshot and \<open>processAnnotatedValue\<close> waits for room
  instead of replacing them, so no input accepts a further value.\<close>

theorem swap_executes_once:
  assumes "reach (loop_init ps ts) (loop_trans ts do_ack) c" and "IsSwapNew4Old (ts_SnapshotPolicy ts)"
  shows "il_executionCount (ly_loop c) \<le> 1
    \<and> (il_executionCount (ly_loop c) = 1 \<longrightarrow>
         (\<forall>inp \<in> set (ts_Inputs ts). \<not> has_room (ly_loop c) (target_input ts inp)))"
proof -
  have inv: "loop_inv ps ts c" by (rule loop_reach_inv [OF assms(1)])
  then have "task_ok ps ts" by (simp add: loop_inv_def)
  then show ?thesis
    using inv assms(2) target_snapshot_input [of ps ts]
    by (fastforce simp: loop_inv_def swap_full_def has_room_def GetSequenceLength_seq)
qed

lemma swap_executes_once_witness:
  "il_executionCount (ly_loop swap_run) = 1
   \<and> \<not> has_room (ly_loop swap_run) (target_input swap_task (loop_input ''a'' 1 1))"
proof -
  have "il_executionCount (ly_loop swap_run) = 1" by code_simp
  moreover have "loop_input ''a'' 1 1 \<in> set (ts_Inputs swap_task)"
    by (simp add: swap_task_def loop_task_def)
  ultimately show ?thesis using swap_executes_once [OF example_reach(3) example_policies(3)] by blast
qed



text \<open>For a task with a custom launch policy no value is ever acknowledged: the only snapshots
  whose execution ends are empty, and the waiting counter is never lowered by a delivered snapshot
  but once by each run of the executor.\<close>

theorem custom_task_never_acks:
  assumes "reach (loop_init ps ts) (loop_trans ts do_ack) c" and "HasLaunchPolicyCustom ts"
  shows "(\<forall>s \<in># ly_running c. \<forall>es. map_order es s \<longrightarrow> snapshot_AckAll do_ack es w = (None, w))
    \<and> tst_SnapshotsWaiting (il_statistics (ly_loop c)) =
        int (size (ly_pushing c)) + int (ly_delivered c) - int (ly_custom_runs c)"
proof
  have inv: "loop_inv ps ts c" by (rule loop_reach_inv [OF assms(1)])
  then have "set_mset (ly_running c) \<subseteq> {[]}" using assms(2) by (simp add: loop_inv_def)
  then show "\<forall>s \<in># ly_running c. \<forall>es. map_order es s \<longrightarrow> snapshot_AckAll do_ack es w = (None, w)"
    by (auto simp: map_order_def)
  show "tst_SnapshotsWaiting (il_statistics (ly_loop c)) =
      int (size (ly_pushing c)) + int (ly_delivered c) - int (ly_custom_runs c)"
    using inv by (simp add: loop_inv_def snapshot_counters_def Let_def)
qed

lemma custom_task_never_acks_witness:
  "tst_SnapshotsWaiting (il_statistics (ly_loop custom_run)) =
     int (size (ly_pushing custom_run)) + int (ly_delivered custom_run) - int (ly_custom_runs custom_run)"
  using custom_task_never_acks [OF example_reach(4) example_policies(4)] by blast

end
