(* ===== verification/Output_Publisher.thy ===== *)
theory Output_Publisher
  imports Input_Snapshot Koalja_API Names
begin

text \<open>
  Publishing the output of a task (\<open>pkg/agent/task/output_publisher.go\<close>).  An output has one
  goroutine per outgoing link (\<open>runForOutput\<close>), which talks to the agent of the link; a call of
  \<open>Publish\<close> first asks every one of them whether it may publish, by handing it a result channel,
  and then hands the value to all of them.  Both sides meet on unbuffered channels, so a hand-over
  is one step of both.  The state below is that of one output; outputs share nothing but their
  task's statistics, which have one entry per output.
\<close>

section \<open>Construction\<close>

fun addresses_of_outputs ::
  "(string \<Rightarrow> string) \<Rightarrow> TaskOutputSpec list \<Rightarrow> (string, string) gomap
    \<Rightarrow> (string, string list) gomap \<Rightarrow> (string, (string, string list) gomap) go_result" where
  "addresses_of_outputs hash [] annotations m = Inr m"
| "addresses_of_outputs hash (tos # outputs) annotations m =
     (let addressesStr = (case map_of annotations (CreateOutputLinkAddressesAnnotationName hash (tos_Name tos)) of
          Some a \<Rightarrow> a | None \<Rightarrow> [])
      in if addressesStr = [] then Inl (tos_Name tos)
         else addresses_of_outputs hash outputs annotations
           (AList.update (tos_Name tos) (split_on (CHR '','') addressesStr) m))"

definition newOutputPublisher ::
  "(string \<Rightarrow> string) \<Rightarrow> TaskSpec \<Rightarrow> (string, string) gomap \<Rightarrow> (string, (string, string list) gomap) go_result" where
  "newOutputPublisher hash spec annotations = addresses_of_outputs hash (ts_Outputs spec) annotations []"

section \<open>The published value\<close>

text \<open>The ID and the time are what \<open>uniuri.New\<close> and \<open>TimestampNow\<close> return.\<close>

definition source_inputs_of :: "TaskSpec \<Rightarrow> 'a InputSnapshot \<Rightarrow> AnnotatedValueSourceInput list" where
  "source_inputs_of spec snapshot =
     map (\<lambda>inp. \<lparr>avi_IDs = map av_ID (GetSequence snapshot (tis_Name inp)), avi_InputName = tis_Name inp\<rparr>)
       (ts_Inputs spec)"

definition fill_blanks ::
  "TaskSpec \<Rightarrow> string \<Rightarrow> 'a InputSnapshot option \<Rightarrow> string \<Rightarrow> Timestamp \<Rightarrow> AnnotatedValue \<Rightarrow> AnnotatedValue" where
  "fill_blanks spec outputName snapshot newID now av =
     (let av = (if av_ID av = [] then av\<lparr>av_ID := newID\<rparr> else av);
          av = (if av_CreatedAt av = None then av\<lparr>av_CreatedAt := Some now\<rparr> else av);
          av = (if av_SourceTask av = [] then av\<lparr>av_SourceTask := ts_Name spec\<rparr> else av);
          av = (if av_SourceTaskOutput av = [] then av\<lparr>av_SourceTaskOutput := outputName\<rparr> else av)
      in (case snapshot of
            Some sn \<Rightarrow> if length (av_SourceInputs av) = 0
              then av\<lparr>av_SourceInputs := av_SourceInputs av @ source_inputs_of spec sn\<rparr> else av
          | None \<Rightarrow> av))"

section \<open>State\<close>

text \<open>
  The request of one call to one link: not handed over yet, handed over and waiting, answered,
  given up before the link had the result channel, or given up afterwards, which closes the
  channel the link still holds.
\<close>

datatype ask = AskSend | AskWait | AskAnswer bool | AskCancelled | AskClosed

datatype send = SendWait | SendDone | SendCancelled

datatype publish_phase = Asking | Publishing | Accepted | Rejected | Failed

record 'a publish_call =
  pc_av :: AnnotatedValue
  pc_snapshot :: "'a InputSnapshot option"
  pc_phase :: publish_phase
  pc_asks :: "ask list"
  pc_sends :: "send list"
  pc_cancelled :: bool

datatype loop_phase = LoopIdle | LoopAsked nat | LoopPublishing nat AnnotatedValue | LoopBackoff

record output_link =
  ol_phase :: loop_phase
  ol_delivered :: "(nat \<times> AnnotatedValue) list"
  ol_lost :: "(nat \<times> AnnotatedValue) list"

record 'a output_system =
  os_calls :: "nat \<Rightarrow> 'a publish_call option"
  os_links :: "output_link list"
  os_published :: int
  os_panicked :: bool

definition start_output :: "string list \<Rightarrow> 'a output_system" where
  "start_output addresses =
     \<lparr>os_calls = (\<lambda>c. None),
      os_links = map (\<lambda>a. \<lparr>ol_phase = LoopIdle, ol_delivered = [], ol_lost = []\<rparr>) addresses,
      os_published = 0, os_panicked = False\<rparr>"

section \<open>Publish\<close>

definition put_call :: "nat \<Rightarrow> 'a publish_call \<Rightarrow> 'a output_system \<Rightarrow> 'a output_system" where
  "put_call c pc s = s\<lparr>os_calls := (os_calls s)(c \<mapsto> pc)\<rparr>"

definition put_link :: "nat \<Rightarrow> output_link \<Rightarrow> 'a output_system \<Rightarrow> 'a output_system" where
  "put_link i l s = s\<lparr>os_links := (os_links s)[i := l]\<rparr>"

text \<open>A new call: one goroutine per link that asks it.\<close>

definition begin_publish ::
  "nat \<Rightarrow> AnnotatedValue \<Rightarrow> 'a InputSnapshot option \<Rightarrow> 'a output_system \<Rightarrow> 'a output_system option" where
  "begin_publish c av snapshot s =
     (if os_calls s c \<noteq> None then None
      else Some (put_call c
        \<lparr>pc_av = av, pc_snapshot = snapshot, pc_phase = Asking,
         pc_asks = replicate (length (os_links s)) AskSend,
         pc_sends = replicate (length (os_links s)) SendWait, pc_cancelled = False\<rparr> s))"

text \<open>\<open>canPublishChan <- canPublishResultChan\<close>, received by the goroutine of the link.\<close>

definition hand_result_chan :: "nat \<Rightarrow> nat \<Rightarrow> 'a output_system \<Rightarrow> 'a output_system option" where
  "hand_result_chan c i s =
     (case os_calls s c of
        None \<Rightarrow> None
      | Some pc \<Rightarrow>
          if i < length (os_links s) \<and> pc_phase pc = Asking \<and> pc_asks pc ! i = AskSend
             \<and> ol_phase (os_links s ! i) = LoopIdle
          then Some (put_call c (pc\<lparr>pc_asks := (pc_asks pc)[i := AskWait]\<rparr>)
                 (put_link i ((os_links s ! i)\<lparr>ol_phase := LoopAsked c\<rparr>) s))
          else None)"

text \<open>\<open>lctx.Done()\<close>: both arms of the select close the result channel.\<close>

definition cancel_ask :: "nat \<Rightarrow> nat \<Rightarrow> 'a output_system \<Rightarrow> 'a output_system option" where
  "cancel_ask c i s =
     (case os_calls s c of
        None \<Rightarrow> None
      | Some pc \<Rightarrow>
          if i < length (os_links s) \<and> pc_phase pc = Asking \<and> pc_cancelled pc then
            (case pc_asks pc ! i of
               AskSend \<Rightarrow> Some (put_call c (pc\<lparr>pc_asks := (pc_asks pc)[i := AskCancelled]\<rparr>) s)
             | AskWait \<Rightarrow> Some (put_call c (pc\<lparr>pc_asks := (pc_asks pc)[i := AskClosed]\<rparr>) s)
             | _ \<Rightarrow> None)
          else None)"

text \<open>The code between the two groups, once every goroutine of the first has ended.\<close>

definition decide ::
  "TaskSpec \<Rightarrow> string \<Rightarrow> nat \<Rightarrow> string \<Rightarrow> Timestamp \<Rightarrow> 'a output_system \<Rightarrow> 'a output_system option" where
  "decide spec outputName c newID now s =
     (case os_calls s c of
        None \<Rightarrow> None
      | Some pc \<Rightarrow>
          if pc_phase pc \<noteq> Asking \<or> AskSend \<in> set (pc_asks pc) \<or> AskWait \<in> set (pc_asks pc) then None
          else if AskCancelled \<in> set (pc_asks pc) \<or> AskClosed \<in> set (pc_asks pc)
            then Some (put_call c (pc\<lparr>pc_phase := Failed\<rparr>) s)
          else if AskAnswer False \<in> set (pc_asks pc)
            then Some (put_call c (pc\<lparr>pc_phase := Rejected\<rparr>) s)
          else Some (put_call c (pc\<lparr>pc_phase := Publishing,
                 pc_av := fill_blanks spec outputName (pc_snapshot pc) newID now (pc_av pc)\<rparr>) s))"

text \<open>\<open>publishChan <- &av\<close>, received by the goroutine of the link.\<close>

definition hand_value :: "nat \<Rightarrow> nat \<Rightarrow> 'a output_system \<Rightarrow> 'a output_system option" where
  "hand_value c i s =
     (case os_calls s c of
        None \<Rightarrow> None
      | Some pc \<Rightarrow>
          if i < length (os_links s) \<and> pc_phase pc = Publishing \<and> pc_sends pc ! i = SendWait
             \<and> ol_phase (os_links s ! i) = LoopIdle
          then Some (put_call c (pc\<lparr>pc_sends := (pc_sends pc)[i := SendDone]\<rparr>)
                 (put_link i ((os_links s ! i)\<lparr>ol_phase := LoopPublishing c (pc_av pc)\<rparr>) s))
          else None)"

definition cancel_send :: "nat \<Rightarrow> nat \<Rightarrow> 'a output_system \<Rightarrow> 'a output_system option" where
  "cancel_send c i s =
     (case os_calls s c of
        None \<Rightarrow> None
      | Some pc \<Rightarrow>
          if i < length (os_links s) \<and> pc_phase pc = Publishing \<and> pc_cancelled pc
             \<and> pc_sends pc ! i = SendWait
          then Some (put_call c (pc\<lparr>pc_sends := (pc_sends pc)[i := SendCancelled]\<rparr>) s)
          else None)"

definition end_publish :: "nat \<Rightarrow> 'a output_system \<Rightarrow> 'a output_system option" where
  "end_publish c s =
     (case os_calls s c of
        None \<Rightarrow> None
      | Some pc \<Rightarrow>
          if pc_phase pc \<noteq> Publishing \<or> SendWait \<in> set (pc_sends pc) then None
          else if SendCancelled \<in> set (pc_sends pc)
            then Some (put_call c (pc\<lparr>pc_phase := Failed\<rparr>) s)
          else Some (put_call c (pc\<lparr>pc_phase := Accepted\<rparr>) s))"

text \<open>The caller cancels the context of a call.\<close>

definition cancel_publish :: "nat \<Rightarrow> 'a output_system \<Rightarrow> 'a output_system option" where
  "cancel_publish c s =
     (case os_calls s c of
        None \<Rightarrow> None
      | Some pc \<Rightarrow> Some (put_call c (pc\<lparr>pc_cancelled := True\<rparr>) s))"

text \<open>The response of \<open>OutputReady\<close>: whether the value was accepted, and its ID.\<close>

definition OutputReady_response :: "'a publish_call \<Rightarrow> (bool \<times> string) option" where
  "OutputReady_response pc =
     (case pc_phase pc of
        Accepted \<Rightarrow> Some (True, av_ID (pc_av pc))
      | Rejected \<Rightarrow> Some (False, [])
      | _ \<Rightarrow> None)"

section \<open>The goroutine of a link\<close>

text \<open>
  The answer of the link agent (\<open>None\<close>: no answer within the timeout, then publication is
  refused and the connection is made anew).  Sending on the result channel meets the waiting
  call; when the call has closed the channel, the send panics and with it the process.
\<close>

definition answer :: "nat \<Rightarrow> bool option \<Rightarrow> 'a output_system \<Rightarrow> 'a output_system option" where
  "answer i resp s =
     (if i < length (os_links s) then
        (case ol_phase (os_links s ! i) of
           LoopAsked c \<Rightarrow>
             (case os_calls s c of
                None \<Rightarrow> None
              | Some pc \<Rightarrow>
                  if pc_asks pc ! i = AskWait then
                    Some (put_call c (pc\<lparr>pc_asks := (pc_asks pc)[i := AskAnswer (case resp of Some a \<Rightarrow> a | None \<Rightarrow> False)]\<rparr>)
                      (put_link i ((os_links s ! i)
                         \<lparr>ol_phase := (case resp of Some a \<Rightarrow> LoopIdle | None \<Rightarrow> LoopBackoff)\<rparr>) s))
                  else if pc_asks pc ! i = AskClosed then Some (s\<lparr>os_panicked := True\<rparr>)
                  else None)
         | _ \<Rightarrow> None)
      else None)"

text \<open>
  The value is delivered, or given up after the timeout of the retries; the goroutine then makes a
  new connection, but the value is not kept.
\<close>

definition publish_rpc :: "nat \<Rightarrow> bool \<Rightarrow> 'a output_system \<Rightarrow> 'a output_system option" where
  "publish_rpc i ok s =
     (if i < length (os_links s) then
        (let l = os_links s ! i in
         case ol_phase l of
           LoopPublishing c av \<Rightarrow>
             (if ok then
                Some ((put_link i (l\<lparr>ol_phase := LoopIdle, ol_delivered := ol_delivered l @ [(c, av)]\<rparr>) s)
                  \<lparr>os_published := os_published s + 1\<rparr>)
              else Some (put_link i (l\<lparr>ol_phase := LoopBackoff, ol_lost := ol_lost l @ [(c, av)]\<rparr>) s))
         | _ \<Rightarrow> None)
      else None)"

definition reconnect :: "nat \<Rightarrow> 'a output_system \<Rightarrow> 'a output_system option" where
  "reconnect i s =
     (if i < length (os_links s) \<and> ol_phase (os_links s ! i) = LoopBackoff
      then Some (put_link i ((os_links s ! i)\<lparr>ol_phase := LoopIdle\<rparr>) s) else None)"

section \<open>Steps\<close>

datatype 'a output_event =
    Ev_Publish nat AnnotatedValue "'a InputSnapshot option"
  | Ev_HandResultChan nat nat
  | Ev_CancelAsk nat nat
  | Ev_Decide nat string Timestamp
  | Ev_HandValue nat nat
  | Ev_CancelSend nat nat
  | Ev_EndPublish nat
  | Ev_Cancel nat
  | Ev_Answer nat "bool option"
  | Ev_PublishRpc nat bool
  | Ev_Reconnect nat

fun output_step ::
  "TaskSpec \<Rightarrow> string \<Rightarrow> 'a output_event \<Rightarrow> 'a output_system \<Rightarrow> 'a output_system option" where
  "output_step spec out (Ev_Publish c av snapshot) s = begin_publish c av snapshot s"
| "output_step spec out (Ev_HandResultChan c i) s = hand_result_chan c i s"
| "output_step spec out (Ev_CancelAsk c i) s = cancel_ask c i s"
| "output_step spec out (Ev_Decide c newID now) s = decide spec out c newID now s"
| "output_step spec out (Ev_HandValue c i) s = hand_value c i s"
| "output_step spec out (Ev_CancelSend c i) s = cancel_send c i s"
| "output_step spec out (Ev_EndPublish c) s = end_publish c s"
| "output_step spec out (Ev_Cancel c) s = cancel_publish c s"
| "output_step spec out (Ev_Answer i resp) s = answer i resp s"
| "output_step spec out (Ev_PublishRpc i ok) s = publish_rpc i ok s"
| "output_step spec out (Ev_Reconnect i) s = reconnect i s"

text \<open>A panic ends the process, so nothing follows it.\<close>

definition output_trans ::
  "TaskSpec \<Rightarrow> string \<Rightarrow> 'a output_system \<Rightarrow> 'a output_event \<Rightarrow> 'a output_system \<Rightarrow> bool" where
  "output_trans spec out s ev t \<longleftrightarrow> \<not> os_panicked s \<and> output_step spec out ev s = Some t"

definition output_init :: "'a output_system \<Rightarrow> bool" where
  "output_init s \<longleftrightarrow> (\<exists>addresses. s = start_output addresses)"

section \<open>Invariant\<close>

text \<open>The values a link has taken, each with the call it came from.\<close>

definition taken :: "output_link \<Rightarrow> (nat \<times> AnnotatedValue) multiset" where
  "taken l = mset (ol_delivered l) + mset (ol_lost l)
     + (case ol_phase l of LoopPublishing c av \<Rightarrow> {#(c, av)#} | _ \<Rightarrow> {#})"

definition taken_from :: "nat \<Rightarrow> output_link \<Rightarrow> (nat \<times> AnnotatedValue) multiset" where
  "taken_from c l = filter_mset (\<lambda>x. fst x = c) (taken l)"

text \<open>What a call's phase says of its requests and sends.\<close>

definition call_ok :: "nat \<Rightarrow> 'a publish_call \<Rightarrow> bool" where
  "call_ok n pc \<longleftrightarrow>
     length (pc_asks pc) = n \<and> length (pc_sends pc) = n
     \<and> (AskCancelled \<in> set (pc_asks pc) \<or> AskClosed \<in> set (pc_asks pc)
          \<or> SendCancelled \<in> set (pc_sends pc) \<or> pc_phase pc = Failed \<longrightarrow> pc_cancelled pc)
     \<and> (pc_phase pc \<in> {Publishing, Accepted} \<longrightarrow> set (pc_asks pc) \<subseteq> {AskAnswer True})
     \<and> (pc_phase pc \<in> {Asking, Rejected} \<longrightarrow> set (pc_sends pc) \<subseteq> {SendWait})
     \<and> (pc_phase pc = Accepted \<longrightarrow> set (pc_sends pc) \<subseteq> {SendDone})
     \<and> (pc_phase pc = Rejected \<longrightarrow> AskAnswer False \<in> set (pc_asks pc))
     \<and> (pc_phase pc \<noteq> Asking \<longrightarrow> AskWait \<notin> set (pc_asks pc))"

text \<open>What a link and a call know of each other.\<close>

fun agree :: "nat \<Rightarrow> nat \<Rightarrow> 'a publish_call option \<Rightarrow> output_link \<Rightarrow> bool" where
  "agree c i None l \<longleftrightarrow> ol_phase l \<noteq> LoopAsked c \<and> taken_from c l = {#}"
| "agree c i (Some pc) l \<longleftrightarrow>
     (ol_phase l = LoopAsked c \<longrightarrow> pc_asks pc ! i \<in> {AskWait, AskClosed})
     \<and> (pc_asks pc ! i = AskWait \<longrightarrow> ol_phase l = LoopAsked c)
     \<and> taken_from c l = (if pc_sends pc ! i = SendDone then {#(c, pc_av pc)#} else {#})"

definition some_cancelled :: "(nat \<Rightarrow> 'a publish_call option) \<Rightarrow> bool" where
  "some_cancelled calls \<longleftrightarrow> (\<exists>c pc. calls c = Some pc \<and> pc_cancelled pc)"

definition output_inv :: "'a output_system \<Rightarrow> bool" where
  "output_inv s \<longleftrightarrow>
     (\<forall>c pc. os_calls s c = Some pc \<longrightarrow> call_ok (length (os_links s)) pc)
     \<and> (\<forall>c i. i < length (os_links s) \<longrightarrow> agree c i (os_calls s c) (os_links s ! i))
     \<and> os_published s = int (sum_list (map (\<lambda>l. length (ol_delivered l)) (os_links s)))
     \<and> (os_panicked s \<longrightarrow> some_cancelled (os_calls s))"

lemma some_cancelled_put:
  assumes "some_cancelled calls" and "calls c = Some pc" and "pc_cancelled pc \<Longrightarrow> pc_cancelled pc'"
  shows "some_cancelled (calls(c \<mapsto> pc'))"
proof -
  obtain d pd where d: "calls d = Some pd" "pc_cancelled pd" using assms(1) by (auto simp: some_cancelled_def)
  with assms(2,3) show ?thesis
    by (cases "d = c") (auto simp: some_cancelled_def intro: exI [of _ c] exI [of _ d])
qed

lemma output_inv_start: "output_inv (start_output addresses)"
proof -
  have "(\<Sum>l\<leftarrow>map (\<lambda>a. \<lparr>ol_phase = LoopIdle, ol_delivered = [], ol_lost = []\<rparr>) addresses.
      length (ol_delivered l)) = 0" by (induction addresses) auto
  then show ?thesis
    by (simp add: output_inv_def start_output_def taken_from_def taken_def)
qed

lemma put_simps [simp]:
  "os_calls (put_call c pc s) = (os_calls s)(c \<mapsto> pc)" "os_links (put_call c pc s) = os_links s"
  "os_published (put_call c pc s) = os_published s" "os_panicked (put_call c pc s) = os_panicked s"
  "os_calls (put_link i l s) = os_calls s" "os_links (put_link i l s) = (os_links s)[i := l]"
  "os_published (put_link i l s) = os_published s" "os_panicked (put_link i l s) = os_panicked s"
  by (simp_all add: put_call_def put_link_def)

lemma sum_list_put:
  fixes f :: "'x \<Rightarrow> nat"
  assumes "i < length ls" and "f l = f (ls ! i) + k"
  shows "sum_list (map f (ls[i := l])) = sum_list (map f ls) + k"
proof -
  have "ls = take i ls @ ls ! i # drop (Suc i) ls" using assms(1) by (rule id_take_nth_drop)
  then have "sum_list (map f ls) = sum_list (map f (take i ls)) + f (ls ! i) + sum_list (map f (drop (Suc i) ls))"
    by (metis add.assoc list.simps(9) map_append sum_list.Cons sum_list_append)
  moreover have "sum_list (map f (ls[i := l])) = sum_list (map f (take i ls)) + f l + sum_list (map f (drop (Suc i) ls))"
    using assms(1) by (simp add: upd_conv_take_nth_drop)
  ultimately show ?thesis using assms(2) by simp
qed

text \<open>A step of a call alone, a step of a link alone, and a step of both.\<close>

lemma output_inv_call:
  assumes "output_inv s" and "os_calls s c = Some pc"
    and "call_ok (length (os_links s)) pc'"
    and "\<And>i. i < length (os_links s) \<Longrightarrow> agree c i (Some pc') (os_links s ! i)"
    and "pc_cancelled pc \<Longrightarrow> pc_cancelled pc'"
  shows "output_inv (put_call c pc' s)"
proof -
  have "some_cancelled ((os_calls s)(c \<mapsto> pc'))" if "some_cancelled (os_calls s)"
    by (rule some_cancelled_put [OF that assms(2)]) (rule assms(5))
  then show ?thesis
    using assms(1,3,4) unfolding output_inv_def by (auto simp del: agree.simps split: if_splits)
qed

lemma output_inv_link:
  assumes "output_inv s" and "i < length (os_links s)"
    and "\<And>c. agree c i (os_calls s c) l"
    and "length (ol_delivered l) = length (ol_delivered (os_links s ! i)) + k"
  shows "output_inv ((put_link i l s)\<lparr>os_published := os_published s + int k\<rparr>)"
proof -
  have "sum_list (map (\<lambda>l. length (ol_delivered l)) ((os_links s)[i := l]))
      = sum_list (map (\<lambda>l. length (ol_delivered l)) (os_links s)) + k"
    by (rule sum_list_put [OF assms(2,4)])
  then show ?thesis
    using assms(1-3) unfolding output_inv_def by (auto simp: nth_list_update simp del: agree.simps)
qed

lemma output_inv_both:
  assumes "output_inv s" and "i < length (os_links s)" and "os_calls s c = Some pc"
    and "call_ok (length (os_links s)) pc'"
    and "\<And>d. d \<noteq> c \<Longrightarrow> agree d i (os_calls s d) l" and "agree c i (Some pc') l"
    and "\<And>j. j < length (os_links s) \<Longrightarrow> j \<noteq> i \<Longrightarrow> agree c j (Some pc') (os_links s ! j)"
    and "pc_cancelled pc \<Longrightarrow> pc_cancelled pc'"
    and "ol_delivered l = ol_delivered (os_links s ! i)"
  shows "output_inv (put_call c pc' (put_link i l s))"
proof -
  have "sum_list (map (\<lambda>l. length (ol_delivered l)) ((os_links s)[i := l]))
      = sum_list (map (\<lambda>l. length (ol_delivered l)) (os_links s)) + 0"
    by (rule sum_list_put [OF assms(2)]) (simp add: assms(9))
  moreover have "some_cancelled ((os_calls s)(c \<mapsto> pc'))" if "some_cancelled (os_calls s)"
    by (rule some_cancelled_put [OF that assms(3)]) (rule assms(8))
  ultimately show ?thesis
    using assms(1,2,4-7) unfolding output_inv_def by (auto simp: nth_list_update simp del: agree.simps split: if_splits)
qed

lemma output_invD:
  assumes "output_inv s"
  shows "os_calls s c = Some pc \<Longrightarrow> call_ok (length (os_links s)) pc"
    and "i < length (os_links s) \<Longrightarrow> agree c i (os_calls s c) (os_links s ! i)"
  using assms by (simp_all add: output_inv_def)

lemma asks_mem: "a \<in> set (xs[i := y]) \<Longrightarrow> a \<in> set xs \<or> a = y"
  using set_update_subset_insert by fastforce

lemma call_ok_asks:
  assumes "call_ok n pc" and "pc_phase pc = Asking" and "a \<in> {AskCancelled, AskClosed} \<Longrightarrow> pc_cancelled pc"
  shows "call_ok n (pc\<lparr>pc_asks := (pc_asks pc)[i := a]\<rparr>)"
  using assms by (auto simp: call_ok_def dest!: asks_mem)

lemma call_ok_sends:
  assumes "call_ok n pc" and "pc_phase pc = Publishing" and "a = SendCancelled \<Longrightarrow> pc_cancelled pc"
  shows "call_ok n (pc\<lparr>pc_sends := (pc_sends pc)[i := a]\<rparr>)"
  using assms by (auto simp: call_ok_def dest!: asks_mem)

lemma taken_from_phase:
  assumes "\<And>c av. ol_phase l \<noteq> LoopPublishing c av" and "\<And>c av. p \<noteq> LoopPublishing c av"
  shows "taken_from c (l\<lparr>ol_phase := p\<rparr>) = taken_from c l"
  using assms by (auto simp: taken_from_def taken_def split: loop_phase.split)

lemma taken_from_publishing:
  assumes "\<And>c av. ol_phase l \<noteq> LoopPublishing c av"
  shows "taken_from d (l\<lparr>ol_phase := LoopPublishing c av\<rparr>)
    = taken_from d l + (if c = d then {#(c, av)#} else {#})"
  using assms by (auto simp: taken_from_def taken_def split: loop_phase.split)

text \<open>Every handler keeps the invariant.\<close>

lemma begin_publish_inv:
  assumes "output_inv s" and "begin_publish c av sn s = Some t"
  shows "output_inv t"
proof -
  let ?pc = "\<lparr>pc_av = av, pc_snapshot = sn, pc_phase = Asking,
     pc_asks = replicate (length (os_links s)) AskSend,
     pc_sends = replicate (length (os_links s)) SendWait, pc_cancelled = False\<rparr>"
  from assms(2) have new: "os_calls s c = None" and t: "t = put_call c ?pc s"
    by (auto simp: begin_publish_def split: if_splits)
  have "call_ok (length (os_links s)) ?pc" by (auto simp: call_ok_def)
  moreover have "agree c i (Some ?pc) (os_links s ! i)" if "i < length (os_links s)" for i
    using output_invD(2) [OF assms(1) that, of c] new that by simp
  moreover have "some_cancelled ((os_calls s)(c \<mapsto> ?pc))" if "some_cancelled (os_calls s)"
    using that new unfolding some_cancelled_def by (metis fun_upd_other option.discI)
  ultimately show ?thesis
    using assms(1) unfolding t output_inv_def by (auto simp del: agree.simps split: if_splits)
qed

lemma hand_result_chan_inv:
  assumes "output_inv s" and "hand_result_chan c i s = Some t"
  shows "output_inv t"
proof -
  from assms(2) obtain pc where pc: "os_calls s c = Some pc" "i < length (os_links s)"
      "pc_phase pc = Asking" "pc_asks pc ! i = AskSend" "ol_phase (os_links s ! i) = LoopIdle"
    and t: "t = put_call c (pc\<lparr>pc_asks := (pc_asks pc)[i := AskWait]\<rparr>)
      (put_link i ((os_links s ! i)\<lparr>ol_phase := LoopAsked c\<rparr>) s)"
    by (auto simp: hand_result_chan_def split: option.splits if_splits)
  note ok = output_invD(1) [OF assms(1) pc(1)]
  have len: "length (pc_asks pc) = length (os_links s)" using ok by (simp add: call_ok_def)
  have tf: "taken_from d ((os_links s ! i)\<lparr>ol_phase := LoopAsked c\<rparr>) = taken_from d (os_links s ! i)" for d
    by (rule taken_from_phase) (simp_all add: pc(5))
  show ?thesis unfolding t
  proof (rule output_inv_both [OF assms(1) pc(2,1)])
    show "call_ok (length (os_links s)) (pc\<lparr>pc_asks := (pc_asks pc)[i := AskWait]\<rparr>)"
      by (rule call_ok_asks [OF ok pc(3)]) auto
    show "agree d i (os_calls s d) ((os_links s ! i)\<lparr>ol_phase := LoopAsked c\<rparr>)" if "d \<noteq> c" for d
      using output_invD(2) [OF assms(1) pc(2), of d] that pc(5) by (cases "os_calls s d") (auto simp: tf)
    show "agree c i (Some (pc\<lparr>pc_asks := (pc_asks pc)[i := AskWait]\<rparr>)) ((os_links s ! i)\<lparr>ol_phase := LoopAsked c\<rparr>)"
      using output_invD(2) [OF assms(1) pc(2), of c] pc len by (auto simp: tf)
    show "agree c j (Some (pc\<lparr>pc_asks := (pc_asks pc)[i := AskWait]\<rparr>)) (os_links s ! j)"
      if "j < length (os_links s)" "j \<noteq> i" for j
      using output_invD(2) [OF assms(1) that(1), of c] pc(1) that(2) by auto
  qed simp_all
qed

lemma cancel_ask_inv:
  assumes "output_inv s" and "cancel_ask c i s = Some t"
  shows "output_inv t"
proof -
  from assms(2) obtain pc a where pc: "os_calls s c = Some pc" "i < length (os_links s)"
      "pc_phase pc = Asking" "pc_cancelled pc"
    and a: "pc_asks pc ! i = AskSend \<and> a = AskCancelled \<or> pc_asks pc ! i = AskWait \<and> a = AskClosed"
    and t: "t = put_call c (pc\<lparr>pc_asks := (pc_asks pc)[i := a]\<rparr>) s"
    by (auto simp: cancel_ask_def split: option.splits if_splits ask.splits)
  note ok = output_invD(1) [OF assms(1) pc(1)]
  have len: "length (pc_asks pc) = length (os_links s)" using ok by (simp add: call_ok_def)
  show ?thesis unfolding t
  proof (rule output_inv_call [OF assms(1) pc(1)])
    show "call_ok (length (os_links s)) (pc\<lparr>pc_asks := (pc_asks pc)[i := a]\<rparr>)"
      by (rule call_ok_asks [OF ok pc(3)]) (use pc(4) in auto)
    show "agree c j (Some (pc\<lparr>pc_asks := (pc_asks pc)[i := a]\<rparr>)) (os_links s ! j)"
      if "j < length (os_links s)" for j
      using output_invD(2) [OF assms(1) that, of c] pc(1) a len that by (cases "j = i") auto
  qed simp
qed

lemma decide_phase:
  assumes "decide spec out c newID now s = Some t" and "os_calls s c = Some pc"
  shows "\<exists>ph av. t = put_call c (pc\<lparr>pc_phase := ph, pc_av := av\<rparr>) s \<and>
    (ph = Failed \<and> (AskCancelled \<in> set (pc_asks pc) \<or> AskClosed \<in> set (pc_asks pc))
     \<or> ph = Rejected \<and> AskAnswer False \<in> set (pc_asks pc)
     \<or> ph = Publishing \<and> \<not> (AskCancelled \<in> set (pc_asks pc) \<or> AskClosed \<in> set (pc_asks pc))
         \<and> AskAnswer False \<notin> set (pc_asks pc))"
proof -
  have same: "pc\<lparr>pc_phase := ph\<rparr> = pc\<lparr>pc_phase := ph, pc_av := pc_av pc\<rparr>" for ph by simp
  let ?bad = "AskCancelled \<in> set (pc_asks pc) \<or> AskClosed \<in> set (pc_asks pc)"
  consider (bad) "?bad" | (no) "\<not> ?bad" "AskAnswer False \<in> set (pc_asks pc)"
    | (ok) "\<not> ?bad" "AskAnswer False \<notin> set (pc_asks pc)" by blast
  then show ?thesis
  proof cases
    case bad
    then have "t = put_call c (pc\<lparr>pc_phase := Failed\<rparr>) s"
      using assms by (auto simp: decide_def split: if_splits)
    with bad show ?thesis by (metis same)
  next
    case no
    then have "t = put_call c (pc\<lparr>pc_phase := Rejected\<rparr>) s"
      using assms by (auto simp: decide_def split: if_splits)
    with no show ?thesis by (metis same)
  next
    case ok
    then have "t = put_call c (pc\<lparr>pc_phase := Publishing,
        pc_av := fill_blanks spec out (pc_snapshot pc) newID now (pc_av pc)\<rparr>) s"
      using assms by (auto simp: decide_def split: if_splits)
    with ok show ?thesis by blast
  qed
qed

lemma decide_inv:
  assumes "output_inv s" and "decide spec out c newID now s = Some t"
  shows "output_inv t"
proof -
  from assms(2) obtain pc where pc: "os_calls s c = Some pc" "pc_phase pc = Asking"
      "AskSend \<notin> set (pc_asks pc)" "AskWait \<notin> set (pc_asks pc)"
    by (auto simp: decide_def split: option.splits if_splits)
  note ok = output_invD(1) [OF assms(1) pc(1)]
  let ?bad = "AskCancelled \<in> set (pc_asks pc) \<or> AskClosed \<in> set (pc_asks pc)"
  obtain ph av where t: "t = put_call c (pc\<lparr>pc_phase := ph, pc_av := av\<rparr>) s"
    and ph: "ph = Failed \<and> ?bad \<or> ph = Rejected \<and> AskAnswer False \<in> set (pc_asks pc)
       \<or> ph = Publishing \<and> \<not> ?bad \<and> AskAnswer False \<notin> set (pc_asks pc)"
    using decide_phase [OF assms(2) pc(1)] by blast
  have asks: "set (pc_asks pc) \<subseteq> {AskAnswer True}" if "ph = Publishing"
  proof
    fix a assume "a \<in> set (pc_asks pc)"
    with ph that pc(3,4) show "a \<in> {AskAnswer True}" by (cases a; cases "a = AskAnswer False") auto
  qed
  have sends: "set (pc_sends pc) \<subseteq> {SendWait}" using ok pc(2) by (simp add: call_ok_def)
  show ?thesis unfolding t
  proof (rule output_inv_call [OF assms(1) pc(1)])
    show "call_ok (length (os_links s)) (pc\<lparr>pc_phase := ph, pc_av := av\<rparr>)"
    proof -
      have "?bad \<longrightarrow> pc_cancelled pc" "SendCancelled \<notin> set (pc_sends pc)"
        using ok sends by (auto simp: call_ok_def)
      moreover have "length (pc_asks pc) = length (os_links s)" "length (pc_sends pc) = length (os_links s)"
        using ok by (simp_all add: call_ok_def)
      ultimately show ?thesis using ph asks sends pc(4) unfolding call_ok_def by (elim disjE) simp_all
    qed
    show "agree c i (Some (pc\<lparr>pc_phase := ph, pc_av := av\<rparr>)) (os_links s ! i)"
      if i: "i < length (os_links s)" for i
    proof -
      have "pc_sends pc ! i \<in> set (pc_sends pc)" using i ok by (simp add: call_ok_def)
      then have "pc_sends pc ! i = SendWait" using sends by auto
      then show ?thesis using output_invD(2) [OF assms(1) i, of c] pc(1) by simp
    qed
  qed simp
qed

lemma hand_value_inv:
  assumes "output_inv s" and "hand_value c i s = Some t"
  shows "output_inv t"
proof -
  from assms(2) obtain pc where pc: "os_calls s c = Some pc" "i < length (os_links s)"
      "pc_phase pc = Publishing" "pc_sends pc ! i = SendWait" "ol_phase (os_links s ! i) = LoopIdle"
    and t: "t = put_call c (pc\<lparr>pc_sends := (pc_sends pc)[i := SendDone]\<rparr>)
      (put_link i ((os_links s ! i)\<lparr>ol_phase := LoopPublishing c (pc_av pc)\<rparr>) s)"
    by (auto simp: hand_value_def split: option.splits if_splits)
  note ok = output_invD(1) [OF assms(1) pc(1)]
  have len: "length (pc_sends pc) = length (os_links s)" using ok by (simp add: call_ok_def)
  have tf: "taken_from d ((os_links s ! i)\<lparr>ol_phase := LoopPublishing c (pc_av pc)\<rparr>)
      = taken_from d (os_links s ! i) + (if c = d then {#(c, pc_av pc)#} else {#})" for d
    by (rule taken_from_publishing) (simp add: pc(5))
  show ?thesis unfolding t
  proof (rule output_inv_both [OF assms(1) pc(2,1)])
    show "call_ok (length (os_links s)) (pc\<lparr>pc_sends := (pc_sends pc)[i := SendDone]\<rparr>)"
      by (rule call_ok_sends [OF ok pc(3)]) auto
    show "agree d i (os_calls s d) ((os_links s ! i)\<lparr>ol_phase := LoopPublishing c (pc_av pc)\<rparr>)" if "d \<noteq> c" for d
      using output_invD(2) [OF assms(1) pc(2), of d] that pc(5) by (cases "os_calls s d") (auto simp: tf)
    show "agree c i (Some (pc\<lparr>pc_sends := (pc_sends pc)[i := SendDone]\<rparr>))
        ((os_links s ! i)\<lparr>ol_phase := LoopPublishing c (pc_av pc)\<rparr>)"
      using output_invD(2) [OF assms(1) pc(2), of c] pc len by (auto simp: tf)
    show "agree c j (Some (pc\<lparr>pc_sends := (pc_sends pc)[i := SendDone]\<rparr>)) (os_links s ! j)"
      if "j < length (os_links s)" "j \<noteq> i" for j
      using output_invD(2) [OF assms(1) that(1), of c] pc(1) that(2) by auto
  qed simp_all
qed

lemma cancel_send_inv:
  assumes "output_inv s" and "cancel_send c i s = Some t"
  shows "output_inv t"
proof -
  from assms(2) obtain pc where pc: "os_calls s c = Some pc" "i < length (os_links s)"
      "pc_phase pc = Publishing" "pc_cancelled pc" "pc_sends pc ! i = SendWait"
    and t: "t = put_call c (pc\<lparr>pc_sends := (pc_sends pc)[i := SendCancelled]\<rparr>) s"
    by (auto simp: cancel_send_def split: option.splits if_splits)
  note ok = output_invD(1) [OF assms(1) pc(1)]
  have len: "length (pc_sends pc) = length (os_links s)" using ok by (simp add: call_ok_def)
  show ?thesis unfolding t
  proof (rule output_inv_call [OF assms(1) pc(1)])
    show "call_ok (length (os_links s)) (pc\<lparr>pc_sends := (pc_sends pc)[i := SendCancelled]\<rparr>)"
      by (rule call_ok_sends [OF ok pc(3)]) (rule pc(4))
    show "agree c j (Some (pc\<lparr>pc_sends := (pc_sends pc)[i := SendCancelled]\<rparr>)) (os_links s ! j)"
      if "j < length (os_links s)" for j
      using output_invD(2) [OF assms(1) that, of c] pc(1,5) len that by (cases "j = i") auto
  qed simp
qed

lemma end_publish_inv:
  assumes "output_inv s" and "end_publish c s = Some t"
  shows "output_inv t"
proof -
  from assms(2) obtain pc where pc: "os_calls s c = Some pc" "pc_phase pc = Publishing"
      "SendWait \<notin> set (pc_sends pc)"
    by (auto simp: end_publish_def split: option.splits if_splits)
  note ok = output_invD(1) [OF assms(1) pc(1)]
  let ?ph = "if SendCancelled \<in> set (pc_sends pc) then Failed else Accepted"
  have t: "t = put_call c (pc\<lparr>pc_phase := ?ph\<rparr>) s"
    using assms(2) pc by (auto simp: end_publish_def)
  have sends: "set (pc_sends pc) \<subseteq> {SendDone}" if "SendCancelled \<notin> set (pc_sends pc)"
  proof
    fix x assume "x \<in> set (pc_sends pc)"
    with that pc(3) show "x \<in> {SendDone}" by (cases x) auto
  qed
  show ?thesis unfolding t
  proof (rule output_inv_call [OF assms(1) pc(1)])
    show "call_ok (length (os_links s)) (pc\<lparr>pc_phase := ?ph\<rparr>)"
      using ok sends pc(2) by (auto simp: call_ok_def)
    show "agree c i (Some (pc\<lparr>pc_phase := ?ph\<rparr>)) (os_links s ! i)" if "i < length (os_links s)" for i
      using output_invD(2) [OF assms(1) that, of c] pc(1) by simp
  qed simp
qed

lemma cancel_publish_inv:
  assumes "output_inv s" and "cancel_publish c s = Some t"
  shows "output_inv t"
proof -
  from assms(2) obtain pc where pc: "os_calls s c = Some pc"
    and t: "t = put_call c (pc\<lparr>pc_cancelled := True\<rparr>) s"
    by (auto simp: cancel_publish_def split: option.splits)
  show ?thesis unfolding t
  proof (rule output_inv_call [OF assms(1) pc])
    show "call_ok (length (os_links s)) (pc\<lparr>pc_cancelled := True\<rparr>)"
      using output_invD(1) [OF assms(1) pc] by (simp add: call_ok_def)
    show "agree c i (Some (pc\<lparr>pc_cancelled := True\<rparr>)) (os_links s ! i)" if "i < length (os_links s)" for i
      using output_invD(2) [OF assms(1) that, of c] pc by simp
  qed simp
qed

lemma answer_inv:
  assumes "output_inv s" and "answer i resp s = Some t"
  shows "output_inv t"
proof -
  from assms(2) obtain c pc where i: "i < length (os_links s)" "ol_phase (os_links s ! i) = LoopAsked c"
    and pc: "os_calls s c = Some pc"
    by (auto simp: answer_def split: if_splits loop_phase.splits option.splits)
  note ok = output_invD(1) [OF assms(1) pc]
  have asked: "pc_asks pc ! i = AskWait \<or> pc_asks pc ! i = AskClosed"
    using output_invD(2) [OF assms(1) i(1), of c] pc i(2) by simp
  have len: "length (pc_asks pc) = length (os_links s)" using ok by (simp add: call_ok_def)
  show ?thesis
  proof (cases "pc_asks pc ! i = AskClosed")
    case True
    then have "t = s\<lparr>os_panicked := True\<rparr>" using assms(2) i pc by (simp add: answer_def)
    moreover have "pc_asks pc ! i \<in> set (pc_asks pc)" using i(1) len by simp
    then have "AskClosed \<in> set (pc_asks pc)" by (simp only: True)
    then have "pc_cancelled pc" using ok by (simp add: call_ok_def)
    then have "some_cancelled (os_calls s)" using pc by (auto simp: some_cancelled_def)
    ultimately show ?thesis using assms(1) by (simp add: output_inv_def)
  next
    case False
    with asked have w: "pc_asks pc ! i = AskWait" by simp
    let ?a = "AskAnswer (case resp of Some a \<Rightarrow> a | None \<Rightarrow> False)"
    let ?p = "case resp of Some a \<Rightarrow> LoopIdle | None \<Rightarrow> LoopBackoff"
    have t: "t = put_call c (pc\<lparr>pc_asks := (pc_asks pc)[i := ?a]\<rparr>)
        (put_link i ((os_links s ! i)\<lparr>ol_phase := ?p\<rparr>) s)"
      using assms(2) i pc w by (auto simp: answer_def)
    have p: "?p \<noteq> LoopPublishing d av" "?p \<noteq> LoopAsked d" for d av by (simp_all split: option.split)
    have tf: "taken_from d ((os_links s ! i)\<lparr>ol_phase := ?p\<rparr>) = taken_from d (os_links s ! i)" for d
      by (rule taken_from_phase) (simp_all add: i(2) p)
    have phase: "pc_phase pc = Asking"
    proof (rule ccontr)
      assume "pc_phase pc \<noteq> Asking"
      then have "AskWait \<notin> set (pc_asks pc)" using ok by (simp add: call_ok_def)
      moreover have "pc_asks pc ! i \<in> set (pc_asks pc)" using i(1) len by simp
      ultimately show False using w by simp
    qed
    show ?thesis unfolding t
    proof (rule output_inv_both [OF assms(1) i(1) pc])
      show "call_ok (length (os_links s)) (pc\<lparr>pc_asks := (pc_asks pc)[i := ?a]\<rparr>)"
        by (rule call_ok_asks [OF ok phase]) auto
      show "agree d i (os_calls s d) ((os_links s ! i)\<lparr>ol_phase := ?p\<rparr>)" if "d \<noteq> c" for d
        using output_invD(2) [OF assms(1) i(1), of d] that i(2)
        by (cases "os_calls s d") (auto simp: tf p)
      show "agree c i (Some (pc\<lparr>pc_asks := (pc_asks pc)[i := ?a]\<rparr>)) ((os_links s ! i)\<lparr>ol_phase := ?p\<rparr>)"
        using output_invD(2) [OF assms(1) i(1), of c] pc len i p by (auto simp: tf)
      show "agree c j (Some (pc\<lparr>pc_asks := (pc_asks pc)[i := ?a]\<rparr>)) (os_links s ! j)"
        if "j < length (os_links s)" "j \<noteq> i" for j
        using output_invD(2) [OF assms(1) that(1), of c] pc that(2) by auto
    qed simp_all
  qed
qed

lemma publish_rpc_inv:
  assumes "output_inv s" and "publish_rpc i ok s = Some t"
  shows "output_inv t"
proof -
  let ?l = "os_links s ! i"
  from assms(2) obtain c av where i: "i < length (os_links s)" "ol_phase ?l = LoopPublishing c av"
    by (auto simp: publish_rpc_def Let_def split: if_splits loop_phase.splits)
  let ?new = "if ok then ?l\<lparr>ol_phase := LoopIdle, ol_delivered := ol_delivered ?l @ [(c, av)]\<rparr>
     else ?l\<lparr>ol_phase := LoopBackoff, ol_lost := ol_lost ?l @ [(c, av)]\<rparr>"
  have t: "t = (put_link i ?new s)\<lparr>os_published := os_published s + int (if ok then 1 else 0)\<rparr>"
    using assms(2) i by (auto simp: publish_rpc_def put_link_def Let_def)
  have tf: "taken_from d ?new = taken_from d ?l" for d
    using i(2) by (auto simp: taken_from_def taken_def)
  show ?thesis unfolding t
  proof (rule output_inv_link [OF assms(1) i(1)])
    show "agree d i (os_calls s d) ?new" for d
      using output_invD(2) [OF assms(1) i(1), of d] i(2) by (cases "os_calls s d") (auto simp: tf)
  qed simp
qed

lemma reconnect_inv:
  assumes "output_inv s" and "reconnect i s = Some t"
  shows "output_inv t"
proof -
  let ?l = "os_links s ! i"
  from assms(2) have i: "i < length (os_links s)" "ol_phase ?l = LoopBackoff"
    and "t = put_link i (?l\<lparr>ol_phase := LoopIdle\<rparr>) s"
    by (auto simp: reconnect_def split: if_splits)
  then have t: "t = (put_link i (?l\<lparr>ol_phase := LoopIdle\<rparr>) s)\<lparr>os_published := os_published s + int 0\<rparr>"
    by (simp add: put_link_def)
  have tf: "taken_from d (?l\<lparr>ol_phase := LoopIdle\<rparr>) = taken_from d ?l" for d
    by (rule taken_from_phase) (simp_all add: i(2))
  show ?thesis unfolding t
  proof (rule output_inv_link [OF assms(1) i(1)])
    show "agree d i (os_calls s d) (?l\<lparr>ol_phase := LoopIdle\<rparr>)" for d
      using output_invD(2) [OF assms(1) i(1), of d] i(2) by (cases "os_calls s d") (auto simp: tf)
  qed simp
qed

lemma output_inv_step:
  assumes "output_trans spec out s ev t" and "output_inv s"
  shows "output_inv t"
  using assms
  by (cases ev)
     (auto simp: output_trans_def intro: begin_publish_inv hand_result_chan_inv cancel_ask_inv
        decide_inv hand_value_inv cancel_send_inv end_publish_inv cancel_publish_inv answer_inv
        publish_rpc_inv reconnect_inv)

interpretation publisher: step_invariant output_init "output_trans spec out" output_inv
  for spec out
proof
  fix s :: "'a output_system"
  assume "output_init s"
  then show "output_inv s" by (auto simp: output_init_def intro: output_inv_start)
next
  fix s :: "'a output_system" and ev t
  assume "output_trans spec out s ev t" and "output_inv s"
  then show "output_inv t" by (rule output_inv_step)
qed

text \<open>Running a list of events, for concrete executions.\<close>

fun run_output ::
  "TaskSpec \<Rightarrow> string \<Rightarrow> 'a output_event list \<Rightarrow> 'a output_system \<Rightarrow> 'a output_system option" where
  "run_output spec out [] s = Some s"
| "run_output spec out (ev # evs) s =
     (if os_panicked s then None
      else case output_step spec out ev s of None \<Rightarrow> None | Some t \<Rightarrow> run_output spec out evs t)"

lemma run_output_reach:
  "reach output_init (output_trans spec out) s \<Longrightarrow> run_output spec out evs s = Some t \<Longrightarrow>
     reach output_init (output_trans spec out) t"
proof (induction evs arbitrary: s)
  case (Cons ev evs)
  from Cons.prems(2) obtain u where u: "\<not> os_panicked s" "output_step spec out ev s = Some u"
      "run_output spec out evs u = Some t"
    by (auto split: if_splits option.splits)
  have "output_trans spec out s ev u" using u(1,2) by (simp add: output_trans_def)
  with Cons.prems(1) have "reach output_init (output_trans spec out) u" by (rule reach_step)
  from Cons.IH [OF this u(3)] show ?case .
qed simp

lemma run_start_reach:
  assumes "run_output spec out evs (start_output addresses) = Some t"
  shows "reach output_init (output_trans spec out) t"
  by (rule run_output_reach [OF _ assms]) (auto intro!: reach_init simp: output_init_def)

section \<open>Properties\<close>

text \<open>C8: publishing is all or nothing as far as the links are asked. Whatever calls, link goroutines
  and cancellations interleave, an accepted value was allowed by every link and taken by every
  link exactly once; a rejected one was refused by some link and reached none; and a call only
  fails when its context was cancelled.\<close>
theorem publish_all_or_nothing:
  assumes "reach output_init (output_trans spec out) s" and "os_calls s c = Some pc"
  shows "(pc_phase pc = Accepted \<longrightarrow> (\<forall>i < length (os_links s).
        pc_asks pc ! i = AskAnswer True \<and> taken_from c (os_links s ! i) = {#(c, pc_av pc)#}))
    \<and> (pc_phase pc = Rejected \<longrightarrow> AskAnswer False \<in> set (pc_asks pc)
        \<and> (\<forall>i < length (os_links s). taken_from c (os_links s ! i) = {#}))
    \<and> (pc_phase pc = Failed \<longrightarrow> pc_cancelled pc)"
proof -
  note inv = publisher.reach_inv [OF assms(1)]
  note ok = output_invD(1) [OF inv assms(2)]
  have len: "length (pc_asks pc) = length (os_links s)" "length (pc_sends pc) = length (os_links s)"
    using ok by (simp_all add: call_ok_def)
  have links: "taken_from c (os_links s ! i) = (if pc_sends pc ! i = SendDone then {#(c, pc_av pc)#} else {#})"
    if "i < length (os_links s)" for i
    using output_invD(2) [OF inv that, of c] assms(2) by simp
  have "pc_asks pc ! i = AskAnswer True \<and> pc_sends pc ! i = SendDone"
    if "i < length (os_links s)" "pc_phase pc = Accepted" for i
  proof -
    have "set (pc_asks pc) \<subseteq> {AskAnswer True}" "set (pc_sends pc) \<subseteq> {SendDone}"
      using ok that(2) by (simp_all add: call_ok_def)
    moreover have "pc_asks pc ! i \<in> set (pc_asks pc)" "pc_sends pc ! i \<in> set (pc_sends pc)"
      using that(1) len by simp_all
    ultimately show ?thesis by auto
  qed
  moreover have "pc_sends pc ! i = SendWait" if "i < length (os_links s)" "pc_phase pc = Rejected" for i
  proof -
    have "set (pc_sends pc) \<subseteq> {SendWait}" using ok that(2) by (simp add: call_ok_def)
    moreover have "pc_sends pc ! i \<in> set (pc_sends pc)" using that(1) len by simp
    ultimately show ?thesis by auto
  qed
  ultimately show ?thesis using links ok by (simp add: call_ok_def)
qed

definition publish_task :: TaskSpec where
  "publish_task = \<lparr>ts_Name = ''t'', ts_Type = [],
     ts_Inputs = [\<lparr>tis_Name = ''in'', tis_TypeRef = ''ty'', tis_RequiredSequenceLength = None,
       tis_MinSequenceLength = None, tis_MaxSequenceLength = None, tis_Slide = None, tis_MergeInto = []\<rparr>],
     ts_Outputs = [], ts_Executor = None, ts_SnapshotPolicy = [], ts_LaunchPolicy = [], ts_Service = None\<rparr>"

definition blank_value :: AnnotatedValue where
  "blank_value = \<lparr>av_ID = [], av_SourceTask = [], av_SourceTaskOutput = [], av_Link = [],
     av_SourceInputs = [], av_Data = ''data:1'', av_CreatedAt = None\<rparr>"

definition example_snapshot :: "nat InputSnapshot" where
  "example_snapshot = [(''in'', \<lparr>ip_sequence = [(example_av ''a'' [], None)], ip_stats = None,
     ip_minSeqLen = 1\<rparr>)]"

text \<open>Two links, both of which allow the value; the second loses it.\<close>

definition accepted_run :: "nat output_event list" where
  "accepted_run = [Ev_Publish 0 blank_value (Some example_snapshot),
     Ev_HandResultChan 0 0, Ev_HandResultChan 0 1, Ev_Answer 0 (Some True), Ev_Answer 1 (Some True),
     Ev_Decide 0 ''id'' \<lparr>tm_Seconds = 7, tm_Nanos = 0\<rparr>,
     Ev_HandValue 0 1, Ev_HandValue 0 0, Ev_EndPublish 0, Ev_PublishRpc 0 True, Ev_PublishRpc 1 False]"

definition accepted_state :: "nat output_system" where
  "accepted_state = the (run_output publish_task ''out'' accepted_run (start_output [''l1'', ''l2'']))"

lemmas run_defs = accepted_run_def example_task_def blank_value_def example_snapshot_def
  start_output_def put_call_def put_link_def begin_publish_def hand_result_chan_def cancel_ask_def
  decide_def hand_value_def cancel_send_def end_publish_def cancel_publish_def answer_def
  publish_rpc_def reconnect_def

lemma accepted_run_ok:
  "run_output publish_task ''out'' accepted_run (start_output [''l1'', ''l2'']) = Some accepted_state"
  unfolding accepted_state_def by (simp add: run_defs)

lemma accepted_state_call:
  "\<exists>pc. os_calls accepted_state 0 = Some pc \<and> pc_phase pc = Accepted \<and> av_ID (pc_av pc) = ''id''
     \<and> length (os_links accepted_state) = 2"
  unfolding accepted_state_def by (simp add: run_defs fill_blanks_def)

lemma publish_all_or_nothing_witness:
  "\<exists>pc. os_calls accepted_state 0 = Some pc \<and> av_ID (pc_av pc) = ''id''
     \<and> taken_from 0 (os_links accepted_state ! 1) = {#(0, pc_av pc)#}"
proof -
  obtain pc where pc: "os_calls accepted_state 0 = Some pc" "pc_phase pc = Accepted"
      "av_ID (pc_av pc) = ''id''" "length (os_links accepted_state) = 2"
    using accepted_state_call by blast
  have "taken_from 0 (os_links accepted_state ! 1) = {#(0, pc_av pc)#}"
    using publish_all_or_nothing [OF run_start_reach [OF accepted_run_ok] pc(1)] pc(2,4) by simp
  with pc show ?thesis by blast
qed

text \<open>The statistics of an output count exactly the deliveries to its links, and every value a
  link took is delivered, lost or still being sent, for every interleaving; in particular each
  accepted value counts at most once per link.\<close>
theorem publish_counted:
  assumes "reach output_init (output_trans spec out) s"
  shows "os_published s = int (sum_list (map (\<lambda>l. length (ol_delivered l)) (os_links s)))
    \<and> (\<forall>i < length (os_links s). \<forall>c. length (filter (\<lambda>x. fst x = c) (ol_delivered (os_links s ! i))) \<le> 1)"
proof -
  note inv = publisher.reach_inv [OF assms]
  have "length (filter (\<lambda>x. fst x = c) (ol_delivered (os_links s ! i))) \<le> 1"
    if i: "i < length (os_links s)" for i c
  proof -
    have "size (taken_from c (os_links s ! i)) \<le> 1"
      using output_invD(2) [OF inv i, of c] by (cases "os_calls s c") auto
    moreover have "length (filter (\<lambda>x. fst x = c) (ol_delivered (os_links s ! i)))
        \<le> size (taken_from c (os_links s ! i))"
      by (simp add: taken_from_def taken_def flip: mset_filter)
    ultimately show ?thesis by simp
  qed
  then show ?thesis using inv by (simp add: output_inv_def)
qed

lemma publish_counted_witness:
  "os_published accepted_state = 1
   \<and> length (filter (\<lambda>x. fst x = 0) (ol_delivered (os_links accepted_state ! 0))) \<le> 1"
proof -
  have s: "sum_list (map (\<lambda>l. length (ol_delivered l)) (os_links accepted_state)) = 1"
    unfolding accepted_state_def by (simp add: run_defs fill_blanks_def)
  have l: "length (os_links accepted_state) = 2" using accepted_state_call by blast
  from publish_counted [OF run_start_reach [OF accepted_run_ok]] s l show ?thesis by simp
qed

text \<open>an accepted value can be lost. A link that allowed a value and took it, but cannot be
  reached until the retries time out, drops it: the call has reported the value as accepted, and
  no link or retry queue holds it.\<close>
theorem accepted_value_lost:
  "\<exists>s pc. reach output_init (output_trans publish_task ''out'') (s :: nat output_system)
     \<and> os_calls s 0 = Some pc \<and> OutputReady_response pc = Some (True, ''id'')
     \<and> (\<exists>l \<in> set (os_links s). ol_delivered l = [] \<and> ol_phase l = LoopBackoff \<and> ol_lost l = [(0, pc_av pc)])"
proof -
  have "\<exists>pc. os_calls accepted_state 0 = Some pc \<and> OutputReady_response pc = Some (True, ''id'')
      \<and> (\<exists>l \<in> set (os_links accepted_state).
          ol_delivered l = [] \<and> ol_phase l = LoopBackoff \<and> ol_lost l = [(0, pc_av pc)])"
    unfolding accepted_state_def by (simp add: run_defs fill_blanks_def OutputReady_response_def)
  with run_start_reach [OF accepted_run_ok] show ?thesis by blast
qed

text \<open>the publisher only panics after a cancelled call. The send of a link's answer hits a
  closed channel only when the call that handed over the channel was cancelled while it waited;
  without cancellations no interleaving of calls and links panics. The witness runs into it.\<close>
theorem panic_needs_cancelled_call:
  assumes "reach output_init (output_trans spec out) s" and "os_panicked s"
  shows "\<exists>c pc. os_calls s c = Some pc \<and> pc_cancelled pc"
  using publisher.reach_inv [OF assms(1)] assms(2) by (simp add: output_inv_def some_cancelled_def)

definition cancelled_run :: "nat output_event list" where
  "cancelled_run = [Ev_Publish 0 blank_value None, Ev_HandResultChan 0 0, Ev_Cancel 0,
     Ev_CancelAsk 0 0, Ev_Decide 0 [] \<lparr>tm_Seconds = 7, tm_Nanos = 0\<rparr>, Ev_Answer 0 (Some True)]"

lemma cancelled_run_panics:
  "\<exists>s. run_output publish_task ''out'' cancelled_run (start_output [''l1'']) = Some s \<and> os_panicked s"
  by (simp add: cancelled_run_def run_defs)

lemma panic_needs_cancelled_call_witness:
  "\<exists>s c pc. reach output_init (output_trans publish_task ''out'') (s :: nat output_system)
     \<and> os_panicked s \<and> os_calls s c = Some pc \<and> pc_cancelled pc"
proof -
  obtain s where s: "run_output publish_task ''out'' cancelled_run (start_output [''l1'']) = Some s"
      "os_panicked s"
    using cancelled_run_panics by blast
  from panic_needs_cancelled_call [OF run_start_reach [OF s(1)] s(2)] run_start_reach [OF s(1)] s(2)
  show ?thesis by blast
qed

text \<open>The addresses an output gets from the annotations of the pod.\<close>

definition annotated_addresses ::
  "(string \<Rightarrow> string) \<Rightarrow> (string, string) gomap \<Rightarrow> string \<Rightarrow> string list option" where
  "annotated_addresses hash annotations n =
     (case map_of annotations (CreateOutputLinkAddressesAnnotationName hash n) of
        Some a \<Rightarrow> if a = [] then None else Some (split_on (CHR '','') a)
      | None \<Rightarrow> None)"

lemma addresses_of_outputs_ok:
  assumes "addresses_of_outputs hash outs annotations m0 = Inr m"
  shows "(\<forall>tos \<in> set outs. annotated_addresses hash annotations (tos_Name tos) \<noteq> None)
    \<and> (\<forall>n. map_of m n = (if n \<in> tos_Name ` set outs then annotated_addresses hash annotations n else map_of m0 n))"
  using assms
proof (induction hash outs annotations m0 rule: addresses_of_outputs.induct)
  case (2 hash tos outputs annotations m0)
  obtain a where a: "map_of annotations (CreateOutputLinkAddressesAnnotationName hash (tos_Name tos)) = Some a"
      "a \<noteq> []"
    using 2(2) by (auto simp: Let_def split: option.splits if_splits)
  then have ad: "annotated_addresses hash annotations (tos_Name tos) = Some (split_on (CHR '','') a)"
    by (simp add: annotated_addresses_def)
  have "addresses_of_outputs hash outputs annotations
      (AList.update (tos_Name tos) (split_on (CHR '','') a) m0) = Inr m"
    using 2(2) a by (simp add: Let_def)
  from 2(1) [OF refl, unfolded a(1), simplified, OF a(2) this] ad
  show ?case by (auto simp: update_conv')
qed auto

text \<open>A publisher is only made when every output of the task has a non-empty address annotation;
  it then has for exactly the outputs of the task the links of their annotation, at least one.\<close>
theorem publisher_addresses:
  assumes "newOutputPublisher hash spec annotations = Inr m"
  shows "\<forall>n. if n \<in> tos_Name ` set (ts_Outputs spec)
    then \<exists>as. map_of m n = Some as \<and> as \<noteq> [] \<and> annotated_addresses hash annotations n = Some as
    else map_of m n = None"
proof
  fix n
  note m = addresses_of_outputs_ok [OF assms [unfolded newOutputPublisher_def]]
  have "as \<noteq> []" if "annotated_addresses hash annotations n = Some as" for as
    using that by (auto simp: annotated_addresses_def split_on_nonempty split: option.splits if_splits)
  with m show "if n \<in> tos_Name ` set (ts_Outputs spec)
    then \<exists>as. map_of m n = Some as \<and> as \<noteq> [] \<and> annotated_addresses hash annotations n = Some as
    else map_of m n = None"
    by auto
qed

lemma publisher_addresses_witness:
  "\<exists>m. newOutputPublisher id (publish_task\<lparr>ts_Outputs :=
       [\<lparr>tos_Name = ''o'', tos_TypeRef = ''ty'', tos_Ready = [], tos_Options = []\<rparr>]\<rparr>)
     [(CreateOutputLinkAddressesAnnotationName id ''o'', ''a:1,b:2'')] = Inr m
     \<and> map_of m ''o'' = Some [''a:1'', ''b:2''] \<and> map_of m ''x'' = None"
proof -
  let ?sp = "publish_task\<lparr>ts_Outputs :=
       [\<lparr>tos_Name = ''o'', tos_TypeRef = ''ty'', tos_Ready = [], tos_Options = []\<rparr>]\<rparr>"
  let ?ann = "[(CreateOutputLinkAddressesAnnotationName id ''o'', ''a:1,b:2'')]"
  obtain m where m: "newOutputPublisher id ?sp ?ann = Inr m"
    by (simp add: newOutputPublisher_def)
  have "annotated_addresses id ?ann ''o'' = Some [''a:1'', ''b:2'']"
    by (simp add: annotated_addresses_def)
  with publisher_addresses [OF m, rule_format, of "''o''"]
    publisher_addresses [OF m, rule_format, of "''x''"] m
  show ?thesis by simp
qed

end
