(* ===== verification/Snapshot_Service.thy ===== *)
theory Snapshot_Service
  imports Input_Snapshot Koalja_API
begin

text \<open>
  The service from which the executor of a task with a custom launch policy pulls its snapshots
  (\<open>pkg/agent/task/snapshot_service.go\<close>).  The input loop calls \<open>Execute\<close> for one snapshot after
  the other; it meets a \<open>Next\<close> call of the executor on an unbuffered channel, and then waits for an
  \<open>Ack\<close> call with the ID of the snapshot.  IDs are what \<open>uniuri.New\<close> returns.
\<close>

section \<open>Snapshots of the API\<close>

record api_snapshot =
  as_ID :: string
  as_Inputs :: "(string \<times> AnnotatedValue list) list"

text \<open>\<open>es\<close> is the order in which the runtime ranges over the members of the snapshot.\<close>

definition createAPISnapshot :: "string \<Rightarrow> (string \<times> 'a inputPair) list \<Rightarrow> api_snapshot" where
  "createAPISnapshot newID es =
     \<lparr>as_ID = newID, as_Inputs = map (\<lambda>(k, v). (k, pair_GetSequence v)) es\<rparr>"

section \<open>Data for templates\<close>

text \<open>What a template sees of an annotated value, of an input and of a snapshot.\<close>

datatype template_value =
    TV_String string
  | TV_Value string string
  | TV_List "(string \<times> string) list"

definition av_builder :: "AnnotatedValue \<Rightarrow> string \<times> string" where
  "av_builder av = (av_ID av, av_Data av)"

fun input_data ::
  "TaskSpec \<Rightarrow> (string \<times> AnnotatedValue list) list \<Rightarrow> (string, template_value) gomap
    \<Rightarrow> (string, template_value) gomap" where
  "input_data spec [] m = m"
| "input_data spec ((n, avs) # es) m =
     input_data spec es
       (case InputByName spec n of
          None \<Rightarrow> m
        | Some taskInput \<Rightarrow>
            if GetMaxSequenceLength taskInput > 1 then AList.update n (TV_List (map av_builder avs)) m
            else if length avs > 0 then
              AList.update n (TV_Value (fst (av_builder (avs ! 0))) (snd (av_builder (avs ! 0)))) m
            else m)"

text \<open>The part of \<open>buildDataMap\<close> under the key \<open>snapshot\<close>.\<close>

definition snapshot_data :: "TaskSpec \<Rightarrow> api_snapshot \<Rightarrow> (string, template_value) gomap" where
  "snapshot_data spec sn = input_data spec (as_Inputs sn) [(''id'', TV_String (as_ID sn))]"

section \<open>The service\<close>

text \<open>
  The goroutine in \<open>Execute\<close>: offering a snapshot on the channel \<open>next\<close>, or waiting for its
  acknowledgement.  \<open>ss_executed\<close> lists the snapshots for which \<open>Execute\<close> has returned
  successfully, \<open>ss_offered\<close> all it was called with, \<open>ss_pulled\<close> those returned by \<open>Next\<close>.
\<close>

datatype execute_phase = ExecuteIdle | ExecuteOffering api_snapshot | ExecuteWaiting api_snapshot

record snapshot_service =
  ss_phase :: execute_phase
  ss_offered :: "api_snapshot list"
  ss_pulled :: "api_snapshot list"
  ss_executed :: "api_snapshot list"

definition NewSnapshotService :: snapshot_service where
  "NewSnapshotService = \<lparr>ss_phase = ExecuteIdle, ss_offered = [], ss_pulled = [], ss_executed = []\<rparr>"

definition service_Execute ::
  "string \<Rightarrow> (string \<times> 'a inputPair) list \<Rightarrow> snapshot_service \<Rightarrow> snapshot_service option" where
  "service_Execute newID es s =
     (if ss_phase s = ExecuteIdle then
        (let sn = createAPISnapshot newID es
         in Some (s\<lparr>ss_phase := ExecuteOffering sn, ss_offered := ss_offered s @ [sn]\<rparr>))
      else None)"

text \<open>
  \<open>Next\<close>, by the arm of its select that is taken: a snapshot that is on offer, the cancelled
  context (an error), or the timeout.  \<open>None\<close> is a call that goes on waiting.
\<close>

datatype next_arm = ArmSnapshot | ArmCancelled | ArmTimeout

datatype next_result = NextSnapshot api_snapshot | NextError | NextNoSnapshotYet

definition service_Next :: "next_arm \<Rightarrow> snapshot_service \<Rightarrow> (next_result \<times> snapshot_service) option" where
  "service_Next arm s =
     (case arm of
        ArmSnapshot \<Rightarrow>
          (case ss_phase s of
             ExecuteOffering sn \<Rightarrow>
               Some (NextSnapshot sn, s\<lparr>ss_phase := ExecuteWaiting sn, ss_pulled := ss_pulled s @ [sn]\<rparr>)
           | _ \<Rightarrow> None)
      | ArmCancelled \<Rightarrow> Some (NextError, s)
      | ArmTimeout \<Rightarrow> Some (NextNoSnapshotYet, s))"

text \<open>
  \<open>Ack\<close> succeeds as soon as \<open>Execute\<close> receives the ID, also when it is not the ID of the
  snapshot: that is only logged, and \<open>Execute\<close> goes on waiting.
\<close>

definition service_Ack :: "string \<Rightarrow> snapshot_service \<Rightarrow> snapshot_service option" where
  "service_Ack i s =
     (case ss_phase s of
        ExecuteWaiting sn \<Rightarrow>
          if i = as_ID sn then Some (s\<lparr>ss_phase := ExecuteIdle, ss_executed := ss_executed s @ [sn]\<rparr>)
          else Some s
      | _ \<Rightarrow> None)"

datatype 'a service_event =
    SrvExecute string "(string \<times> 'a inputPair) list"
  | SrvNext next_arm
  | SrvAck string

fun service_step :: "snapshot_service \<Rightarrow> 'a service_event \<Rightarrow> snapshot_service \<Rightarrow> bool" where
  "service_step s (SrvExecute i es) t \<longleftrightarrow> service_Execute i es s = Some t"
| "service_step s (SrvNext arm) t \<longleftrightarrow> map_option snd (service_Next arm s) = Some t"
| "service_step s (SrvAck i) t \<longleftrightarrow> service_Ack i s = Some t"

definition service_init :: "snapshot_service \<Rightarrow> bool" where
  "service_init s \<longleftrightarrow> s = NewSnapshotService"

section \<open>Lemmas\<close>

definition in_execution :: "snapshot_service \<Rightarrow> api_snapshot list" where
  "in_execution s = (case ss_phase s of ExecuteWaiting sn \<Rightarrow> [sn] | _ \<Rightarrow> [])"

definition on_offer :: "snapshot_service \<Rightarrow> api_snapshot list" where
  "on_offer s = (case ss_phase s of ExecuteOffering sn \<Rightarrow> [sn] | _ \<Rightarrow> [])"

definition service_inv :: "snapshot_service \<Rightarrow> bool" where
  "service_inv s \<longleftrightarrow> ss_pulled s = ss_executed s @ in_execution s
     \<and> ss_offered s = ss_pulled s @ on_offer s"

interpretation service: step_invariant service_init
  "service_step :: snapshot_service \<Rightarrow> 'a service_event \<Rightarrow> snapshot_service \<Rightarrow> bool" service_inv
proof
  fix s :: snapshot_service
  assume "service_init s"
  then show "service_inv s"
    by (simp add: service_init_def NewSnapshotService_def service_inv_def in_execution_def on_offer_def)
next
  fix s t and ev :: "'a service_event"
  assume "service_step s ev t" and "service_inv s"
  then show "service_inv t"
    by (cases ev; cases "ss_phase s")
       (auto simp: service_Execute_def service_Next_def service_Ack_def service_inv_def
          in_execution_def on_offer_def Let_def split: if_splits next_arm.splits)
qed

lemma api_inputs_fold:
  fixes s0 :: "'a InputSnapshot" and s :: "(string \<times> 'b inputPair) list"
  assumes "distinct (map fst s)"
  shows "map_of (foldl (\<lambda>s (name, avs). AList.update name
       \<lparr>ip_sequence = map (\<lambda>x. (x, None)) avs, ip_stats = None, ip_minSeqLen = 0\<rparr> s) s0
       (map (\<lambda>(k, v). (k, pair_GetSequence v)) s)) n
     = (case map_of s n of
          Some ip \<Rightarrow> Some \<lparr>ip_sequence = map (\<lambda>x. (x, None)) (pair_GetSequence ip), ip_stats = None,
             ip_minSeqLen = 0\<rparr>
        | None \<Rightarrow> map_of s0 n)"
  using assms
proof (induction s arbitrary: s0)
  case (Cons x s)
  obtain k ip where x: "x = (k, ip)" by (cases x)
  with Cons.prems have "map_of s k = None" "distinct (map fst s)" by (auto simp: map_of_eq_None_iff)
  with Cons.IH show ?case by (auto simp: x update_conv' split: option.split)
qed simp

section \<open>Properties\<close>

text \<open>a snapshot survives the trip to the executor and back: for every order in which the runtime
  ranges over the snapshot, the snapshot the agent rebuilds from the one it handed out (as it does
  for \<open>OutputReady\<close> requests) has the same values in the same order for every input, and none of
  them can be acknowledged through it.\<close>
theorem snapshot_api_roundtrip:
  fixes s :: "'a InputSnapshot"
  assumes "gomap_ok s" and "map_order es s"
  shows "\<exists>t :: 'a InputSnapshot.
    inputSnapshotForTaskSnapshot (Some (as_Inputs (createAPISnapshot i es))) = Some t
    \<and> (\<forall>n. GetSequence t n = GetSequence s n)
    \<and> (\<forall>n ip. map_of t n = Some ip \<longrightarrow> (\<forall>(av, ack) \<in> set (ip_sequence ip). ack = None))"
proof -
  define t :: "'a InputSnapshot" where "t = foldl (\<lambda>s (name, avs). AList.update name
       \<lparr>ip_sequence = map (\<lambda>x. (x, None)) avs, ip_stats = None, ip_minSeqLen = 0\<rparr> s) []
       (as_Inputs (createAPISnapshot i es))"
  have "distinct (map fst es)" using map_order_ok [OF assms(2,1)] by (simp add: gomap_ok_def)
  then have m: "map_of t n = (case map_of s n of
      Some ip \<Rightarrow> Some \<lparr>ip_sequence = map (\<lambda>x. (x, None)) (pair_GetSequence ip), ip_stats = None,
        ip_minSeqLen = 0\<rparr> | None \<Rightarrow> None)" for n
    unfolding t_def createAPISnapshot_def
    by (simp add: api_inputs_fold map_order_map_of [OF assms(2,1)] split: option.split)
  have "GetSequence t n = GetSequence s n" for n
    by (simp add: GetSequence_def m pair_GetSequence_def comp_def split: option.split)
  moreover have "\<forall>n ip. map_of t n = Some ip \<longrightarrow> (\<forall>(av, ack) \<in> set (ip_sequence ip). ack = None)"
    by (auto simp: m split: option.splits)
  moreover have "inputSnapshotForTaskSnapshot (Some (as_Inputs (createAPISnapshot i es))) = Some t"
    by (simp add: t_def)
  ultimately show ?thesis by blast
qed

lemma snapshot_api_roundtrip_witness:
  "\<exists>t :: nat InputSnapshot.
    inputSnapshotForTaskSnapshot (Some [(''b'', []), (''a'', [example_av ''x'' []])]) = Some t
    \<and> GetSequence t ''a'' = [example_av ''x'' []]"
proof -
  let ?a = "(''a'', \<lparr>ip_sequence = [(example_av ''x'' [], Some 1)], ip_stats = None, ip_minSeqLen = 1\<rparr>)
    :: string \<times> nat inputPair"
  let ?b = "(''b'', \<lparr>ip_sequence = [], ip_stats = None, ip_minSeqLen = 1\<rparr>) :: string \<times> nat inputPair"
  have "gomap_ok [?a, ?b]" "map_order [?b, ?a] [?a, ?b]"
    by (simp_all add: gomap_ok_def map_order_def)
  from snapshot_api_roundtrip [OF this, of "''id''"] show ?thesis
    by (auto simp: createAPISnapshot_def pair_GetSequence_def GetSequence_def)
qed

text \<open>C26: a custom task works on one snapshot at a time and in order. In every reachable state the
  snapshots the executor has pulled are those whose execution was completed by an acknowledgement,
  followed by at most one it is working on, and they are a prefix of the snapshots the input loop
  offered, of which at most one is not pulled yet; none is skipped or pulled twice.\<close>
theorem snapshots_in_order:
  assumes "reach service_init (service_step :: snapshot_service \<Rightarrow> 'a service_event \<Rightarrow> snapshot_service \<Rightarrow> bool) s"
  shows "\<exists>working offer. ss_offered s = ss_executed s @ working @ offer
    \<and> ss_pulled s = ss_executed s @ working \<and> length working + length offer \<le> 1"
proof -
  have "service_inv s" by (rule service.reach_inv [OF assms])
  then have "ss_offered s = ss_executed s @ in_execution s @ on_offer s \<and> ss_pulled s = ss_executed s @ in_execution s
      \<and> length (in_execution s) + length (on_offer s) \<le> 1"
    by (auto simp: service_inv_def in_execution_def on_offer_def split: execute_phase.split)
  then show ?thesis by blast
qed

lemma snapshots_in_order_witness:
  "\<exists>s :: snapshot_service. ss_executed s = [createAPISnapshot ''1'' ([] :: (string \<times> nat inputPair) list)] \<and> ss_pulled s = ss_executed s
     \<and> (\<exists>offer. ss_offered s = ss_executed s @ offer \<and> length offer \<le> 1)"
proof -
  let ?step = "service_step :: snapshot_service \<Rightarrow> nat service_event \<Rightarrow> snapshot_service \<Rightarrow> bool"
  let ?sn = "createAPISnapshot ''1'' ([] :: (string \<times> nat inputPair) list)"
  let ?s1 = "\<lparr>ss_phase = ExecuteOffering ?sn, ss_offered = [?sn], ss_pulled = [], ss_executed = []\<rparr>"
  let ?s2 = "\<lparr>ss_phase = ExecuteWaiting ?sn, ss_offered = [?sn], ss_pulled = [?sn], ss_executed = []\<rparr>"
  let ?s3 = "\<lparr>ss_phase = ExecuteIdle, ss_offered = [?sn], ss_pulled = [?sn], ss_executed = [?sn]\<rparr>"
  have 0: "reach service_init ?step NewSnapshotService" by (rule reach_init) (simp add: service_init_def)
  have 1: "reach service_init ?step ?s1"
    by (rule reach_step [OF 0, of "SrvExecute ''1'' []"])
       (simp add: service_Execute_def NewSnapshotService_def Let_def)
  have 2: "reach service_init ?step ?s2"
    by (rule reach_step [OF 1, of "SrvNext ArmSnapshot"]) (simp add: service_Next_def)
  have 3: "reach service_init ?step ?s3"
    by (rule reach_step [OF 2, of "SrvAck ''1''"]) (simp add: service_Ack_def createAPISnapshot_def)
  from snapshots_in_order [OF 3] have "ss_executed ?s3 = [?sn] \<and> ss_pulled ?s3 = ss_executed ?s3
      \<and> (\<exists>offer. ss_offered ?s3 = ss_executed ?s3 @ offer \<and> length offer \<le> 1)" by auto
  then show ?thesis by blast
qed

end
