(* ===== verification/Agent_Registry.thy ===== *)
theory Agent_Registry
  imports Statistics Annotated_Value
begin

text \<open>
  The registry of the agents of a pipeline with the statistics they report
  (\<open>pkg/agent/pipeline/stub/agent_registry.go\<close>).  Link and task agents are kept the same way: per
  name a list of agents, each with its URI and its last report, ordered by the time of the report.
  The code has the same handler twice; the shared part is written once here, with the type of the
  statistics, its empty value and its \<open>Add\<close> as parameters.
\<close>

section \<open>State\<close>

record 's agent =
  ag_URI :: string
  ag_Timestamp :: "int option"
  ag_Data :: 's

type_synonym 's agents = "(string, 's agent list) gomap"

record agent_registry =
  ar_linkAgents :: "LinkStatistics agents"
  ar_taskAgents :: "TaskStatistics agents"
  ar_notified :: nat

definition newAgentRegistry :: agent_registry where
  "newAgentRegistry = \<lparr>ar_linkAgents = [], ar_taskAgents = [], ar_notified = 0\<rparr>"

definition zero_link :: "string \<Rightarrow> LinkStatistics" where
  "zero_link n = \<lparr>ls_Name = n, ls_URI = [], ls_AnnotatedValuesWaiting = 0,
     ls_AnnotatedValuesInProgress = 0, ls_AnnotatedValuesAcknowledged = 0\<rparr>"

definition zero_task :: "string \<Rightarrow> TaskStatistics" where
  "zero_task n = \<lparr>tst_Name = n, tst_URI = [], tst_SnapshotsWaiting = 0, tst_SnapshotsInProgress = 0,
     tst_SnapshotsSucceeded = 0, tst_SnapshotsFailed = 0, tst_Inputs = [], tst_Outputs = []\<rparr>"

section \<open>Registration and reports\<close>

definition agents_named :: "'s agents \<Rightarrow> string \<Rightarrow> 's agent list" where
  "agents_named m n = (case map_of m n of Some l \<Rightarrow> l | None \<Rightarrow> [])"

definition register_agent :: "'s \<Rightarrow> string \<Rightarrow> string \<Rightarrow> 's agents \<Rightarrow> 's agents" where
  "register_agent zero n uri m =
     (let current = agents_named m n in
      if list_ex (\<lambda>x. ag_URI x = uri) current then m
      else AList.update n (current @ [\<lparr>ag_URI = uri, ag_Timestamp = None, ag_Data = zero\<rparr>]) m)"

text \<open>The first agent with the URI gets the new report.\<close>

fun set_report :: "string \<Rightarrow> int \<Rightarrow> 's \<Rightarrow> 's agent list \<Rightarrow> 's agent list" where
  "set_report uri now d [] = []"
| "set_report uri now d (x # xs) =
     (if ag_URI x = uri then x\<lparr>ag_Data := d, ag_Timestamp := Some now\<rparr> # xs
      else x # set_report uri now d xs)"

text \<open>
  \<open>resort\<close> stands for \<open>sort.Slice\<close> by timestamp, which is not stable: agents with the same time
  may come in any order.
\<close>

definition publish_report ::
  "('s agent list \<Rightarrow> 's agent list) \<Rightarrow> 's \<Rightarrow> ('s \<Rightarrow> 's \<Rightarrow> 's) \<Rightarrow> string \<Rightarrow> string \<Rightarrow> int \<Rightarrow> 's
    \<Rightarrow> 's agents \<Rightarrow> 's agents" where
  "publish_report resort zero add n uri now req m =
     (let current = agents_named m n;
          current = (if list_ex (\<lambda>x. ag_URI x = uri) current then current
                     else current @ [\<lparr>ag_URI = uri, ag_Timestamp = None, ag_Data = zero\<rparr>])
      in AList.update n (resort (set_report uri now (add zero req) current)) m)"

definition RegisterLink :: "string \<Rightarrow> string \<Rightarrow> agent_registry \<Rightarrow> agent_registry" where
  "RegisterLink n uri s = s\<lparr>ar_linkAgents := register_agent (zero_link []) n uri (ar_linkAgents s)\<rparr>"

definition RegisterTask :: "string \<Rightarrow> string \<Rightarrow> agent_registry \<Rightarrow> agent_registry" where
  "RegisterTask n uri s = s\<lparr>ar_taskAgents := register_agent (zero_task []) n uri (ar_taskAgents s)\<rparr>"

definition PublishLinkStatistics ::
  "(LinkStatistics agent list \<Rightarrow> LinkStatistics agent list) \<Rightarrow> int \<Rightarrow> LinkStatistics
    \<Rightarrow> agent_registry \<Rightarrow> agent_registry" where
  "PublishLinkStatistics resort now req s =
     s\<lparr>ar_linkAgents := publish_report resort (zero_link []) LinkStatistics_Add (ls_Name req) (ls_URI req)
          now req (ar_linkAgents s),
       ar_notified := ar_notified s + 1\<rparr>"

definition PublishTaskStatistics ::
  "(TaskStatistics agent list \<Rightarrow> TaskStatistics agent list) \<Rightarrow> int \<Rightarrow> TaskStatistics
    \<Rightarrow> agent_registry \<Rightarrow> agent_registry" where
  "PublishTaskStatistics resort now req s =
     s\<lparr>ar_taskAgents := publish_report resort (zero_task []) TaskStatistics_Add (tst_Name req) (tst_URI req)
          now req (ar_taskAgents s),
       ar_notified := ar_notified s + 1\<rparr>"

section \<open>Queries\<close>

definition requested :: "string list \<Rightarrow> string \<Rightarrow> bool" where
  "requested names n = (if length names = 0 then True else found_in names n)"

text \<open>\<open>es\<close> is the order in which the runtime ranges over the map.\<close>

fun collect_statistics ::
  "(string \<Rightarrow> 's) \<Rightarrow> ('s \<Rightarrow> 's \<Rightarrow> 's) \<Rightarrow> string list \<Rightarrow> (string \<times> 's agent list) list \<Rightarrow> 's list" where
  "collect_statistics mk add names [] = []"
| "collect_statistics mk add names ((n, l) # es) =
     (if requested names n then foldl (\<lambda>stat x. add stat (ag_Data x)) (mk n) l # collect_statistics mk add names es
      else collect_statistics mk add names es)"

definition GetLinkStatistics ::
  "string list \<Rightarrow> (string \<times> LinkStatistics agent list) list \<Rightarrow> LinkStatistics list" where
  "GetLinkStatistics names es = collect_statistics zero_link LinkStatistics_Add names es"

definition GetTaskStatistics ::
  "string list \<Rightarrow> (string \<times> TaskStatistics agent list) list \<Rightarrow> TaskStatistics list" where
  "GetTaskStatistics names es = collect_statistics zero_task TaskStatistics_Add names es"

section \<open>What was reported\<close>

text \<open>
  The calls an agent makes, and what they mean: for every name the agents seen, and for every
  agent its latest report.
\<close>

datatype 's agent_call = CallRegister string string | CallReport string string int 's

fun call_agent :: "'s agent_call \<Rightarrow> string \<times> string" where
  "call_agent (CallRegister n uri) = (n, uri)"
| "call_agent (CallReport n uri now d) = (n, uri)"

definition agents_seen :: "'s agent_call list \<Rightarrow> string \<Rightarrow> string set" where
  "agents_seen calls n = {uri. (n, uri) \<in> set (map call_agent calls)}"

fun latest_report :: "'s agent_call list \<Rightarrow> string \<Rightarrow> string \<Rightarrow> 's option" where
  "latest_report [] n uri = None"
| "latest_report (CallRegister n' uri' # calls) n uri = latest_report calls n uri"
| "latest_report (CallReport n' uri' now d # calls) n uri =
     (if n' = n \<and> uri' = uri then
        Some (case latest_report calls n uri of Some d' \<Rightarrow> d' | None \<Rightarrow> d)
      else latest_report calls n uri)"

fun apply_call ::
  "('s agent list \<Rightarrow> 's agent list) \<Rightarrow> 's \<Rightarrow> ('s \<Rightarrow> 's \<Rightarrow> 's) \<Rightarrow> 's agent_call \<Rightarrow> 's agents \<Rightarrow> 's agents" where
  "apply_call resort zero add (CallRegister n uri) m = register_agent zero n uri m"
| "apply_call resort zero add (CallReport n uri now d) m = publish_report resort zero add n uri now d m"

text \<open>The report of an agent within a list of agents, \<open>None\<close> when there is no such agent.\<close>

definition data_of :: "'s agent list \<Rightarrow> string \<Rightarrow> 's option" where
  "data_of l uri = map_of (map (\<lambda>x. (ag_URI x, ag_Data x)) l) uri"

definition agents_inv ::
  "'s \<Rightarrow> ('s \<Rightarrow> 's \<Rightarrow> 's) \<Rightarrow> 's agent_call list \<Rightarrow> 's agents \<Rightarrow> bool" where
  "agents_inv zero add calls m \<longleftrightarrow> gomap_ok m
     \<and> (\<forall>n. (map_of m n = None \<longleftrightarrow> agents_seen calls n = {})
         \<and> distinct (map ag_URI (agents_named m n))
         \<and> (\<forall>uri. data_of (agents_named m n) uri =
              (if uri \<in> agents_seen calls n
               then Some (case latest_report calls n uri of Some d \<Rightarrow> add zero d | None \<Rightarrow> zero)
               else None)))"

lemma agents_named_update:
  "agents_named (AList.update n l m) k = (if k = n then l else agents_named m k)"
  by (simp add: agents_named_def update_conv')

lemma list_ex_data_of: "list_ex (\<lambda>x. ag_URI x = uri) l \<longleftrightarrow> data_of l uri \<noteq> None"
  by (induction l) (auto simp: data_of_def)

lemma data_of_append:
  "data_of (l @ [x]) uri = (case data_of l uri of Some d \<Rightarrow> Some d
     | None \<Rightarrow> if ag_URI x = uri then Some (ag_Data x) else None)"
  by (simp add: data_of_def map_add_def split: option.split)

lemma set_report_uris [simp]: "map ag_URI (set_report uri now d l) = map ag_URI l"
  by (induction l) auto

lemma data_of_set_report:
  "data_of (set_report uri now d l) u =
     (if u = uri \<and> data_of l uri \<noteq> None then Some d else data_of l u)"
  by (induction l) (auto simp: data_of_def)

lemma data_of_perm:
  assumes "distinct (map ag_URI l)" and "mset l' = mset l"
  shows "data_of l' = data_of l"
proof -
  have "mset (map ag_URI l') = mset (map ag_URI l)" using assms(2) by (metis mset_map)
  then have "distinct (map ag_URI l')" using assms(1) by (metis mset_eq_imp_distinct_iff)
  then have ok: "gomap_ok (map (\<lambda>x. (ag_URI x, ag_Data x)) l)"
    "gomap_ok (map (\<lambda>x. (ag_URI x, ag_Data x)) l')"
    using assms(1) by (simp_all add: gomap_ok_def comp_def)
  have "map_order (map (\<lambda>x. (ag_URI x, ag_Data x)) l') (map (\<lambda>x. (ag_URI x, ag_Data x)) l)"
    using assms(2) unfolding map_order_def by (metis mset_map)
  from map_order_map_of [OF this ok(1)] show ?thesis by (simp add: data_of_def fun_eq_iff)
qed

lemma latest_report_snoc:
  "latest_report (calls @ [c]) n uri =
     (case c of CallRegister n' u' \<Rightarrow> latest_report calls n uri
      | CallReport n' u' now d \<Rightarrow> if n' = n \<and> u' = uri then Some d else latest_report calls n uri)"
proof (induction calls)
  case (Cons a calls)
  then show ?case by (cases a; cases c) (auto split: option.splits)
qed (cases c; auto)

lemma agents_seen_snoc:
  "agents_seen (calls @ [c]) n =
     (if fst (call_agent c) = n then insert (snd (call_agent c)) (agents_seen calls n) else agents_seen calls n)"
  by (cases "call_agent c") (auto simp: agents_seen_def)

lemma agents_inv_register:
  assumes "agents_inv zero add calls m"
  shows "agents_inv zero add (calls @ [CallRegister n uri]) (register_agent zero n uri m)"
proof -
  let ?new = "\<lparr>ag_URI = uri, ag_Timestamp = None, ag_Data = zero\<rparr>"
  have seen: "data_of (agents_named m n) uri \<noteq> None \<longleftrightarrow> uri \<in> agents_seen calls n"
    using assms by (simp add: agents_inv_def)
  have fresh: "latest_report calls n uri = None" if "uri \<notin> agents_seen calls n"
    using that
  proof (induction calls)
    case (Cons c calls)
    then show ?case by (cases c) (auto simp: agents_seen_def)
  qed simp
  show ?thesis
  proof (cases "uri \<in> agents_seen calls n")
    case True
    then have "register_agent zero n uri m = m" using seen by (simp add: register_agent_def list_ex_data_of)
    moreover have "agents_seen (calls @ [CallRegister n uri]) k = agents_seen calls k" for k
      using True by (auto simp: agents_seen_snoc)
    ultimately show ?thesis using assms by (simp add: agents_inv_def latest_report_snoc)
  next
    case False
    then have none: "data_of (agents_named m n) uri = None" using seen by blast
    then have r: "register_agent zero n uri m = AList.update n (agents_named m n @ [?new]) m"
      by (simp add: register_agent_def list_ex_data_of)
    have "uri \<notin> set (map ag_URI (agents_named m n))"
      using none by (auto simp: data_of_def map_of_eq_None_iff image_iff)
    then show ?thesis
      using assms False none fresh [OF False] unfolding r agents_inv_def
      by (auto simp: agents_named_update data_of_append update_conv' agents_seen_snoc latest_report_snoc
          split: option.split)
  qed
qed

lemma agents_inv_report:
  assumes "agents_inv zero add calls m" and "\<And>l. mset (resort l) = mset l"
  shows "agents_inv zero add (calls @ [CallReport n uri now d]) (publish_report resort zero add n uri now d m)"
proof -
  let ?m1 = "register_agent zero n uri m"
  let ?l = "set_report uri now (add zero d) (agents_named ?m1 n)"
  have inv1: "agents_inv zero add (calls @ [CallRegister n uri]) ?m1"
    by (rule agents_inv_register [OF assms(1)])
  have r: "publish_report resort zero add n uri now d m = AList.update n (resort ?l) m"
    by (simp add: publish_report_def register_agent_def agents_named_update Let_def)
  have dist: "distinct (map ag_URI ?l)" using inv1 by (simp add: agents_inv_def)
  have dat: "data_of (resort ?l) u = (if u = uri then Some (add zero d) else data_of (agents_named ?m1 n) u)" for u
    using data_of_perm [OF dist assms(2)] inv1
    by (auto simp: data_of_set_report agents_inv_def agents_seen_snoc)
  have "mset (map ag_URI (resort ?l)) = mset (map ag_URI ?l)" using assms(2) [of ?l] by (metis mset_map)
  then have dist': "distinct (map ag_URI (resort ?l))" using dist by (metis mset_eq_imp_distinct_iff)
  have ok: "gomap_ok m" using assms(1) by (simp add: agents_inv_def)
  have other: "agents_named ?m1 k = agents_named m k" if "k \<noteq> n" for k
    using that by (simp add: register_agent_def agents_named_update Let_def)
  have seen: "agents_seen (calls @ [CallReport n uri now d]) k = agents_seen (calls @ [CallRegister n uri]) k" for k
    by (simp add: agents_seen_snoc)
  show ?thesis unfolding r agents_inv_def
  proof (intro conjI allI)
    show "gomap_ok (AList.update n (resort ?l) m)" using ok by simp
    fix k
    show "map_of (AList.update n (resort ?l) m) k = None \<longleftrightarrow>
        agents_seen (calls @ [CallReport n uri now d]) k = {}"
      using assms(1) by (auto simp: update_conv' agents_seen_snoc agents_inv_def)
    show "distinct (map ag_URI (agents_named (AList.update n (resort ?l) m) k))"
      using dist' assms(1) by (simp add: agents_named_update agents_inv_def)
    fix u
    show "data_of (agents_named (AList.update n (resort ?l) m) k) u =
        (if u \<in> agents_seen (calls @ [CallReport n uri now d]) k
         then Some (case latest_report (calls @ [CallReport n uri now d]) k u of
           Some d \<Rightarrow> add zero d | None \<Rightarrow> zero) else None)"
    proof (cases "k = n")
      case True
      then show ?thesis
        using inv1 by (auto simp: agents_named_update dat agents_inv_def agents_seen_snoc latest_report_snoc)
    next
      case False
      then show ?thesis
        using assms(1) by (auto simp: agents_named_update agents_inv_def agents_seen_snoc latest_report_snoc)
    qed
  qed
qed

lemma agents_inv_calls:
  assumes "\<And>l. mset (resort l) = mset l"
  shows "agents_inv zero add calls (foldl (\<lambda>m c. apply_call resort zero add c m) [] calls)"
proof (induction calls rule: rev_induct)
  case Nil
  show ?case by (simp add: agents_inv_def agents_seen_def agents_named_def data_of_def)
next
  case (snoc c calls)
  then show ?case
    by (cases c) (simp_all add: agents_inv_register agents_inv_report [OF _ assms])
qed

lemma collect_map:
  "collect_statistics mk add names es =
     map (\<lambda>(n, l). foldl (\<lambda>stat x. add stat (ag_Data x)) (mk n) l) (filter (\<lambda>(n, l). requested names n) es)"
  by (induction es) (auto split: prod.split)

text \<open>The sum of a counter over the latest reports of the agents with a name.\<close>

definition reported_sum :: "('s \<Rightarrow> int) \<Rightarrow> 's agent_call list \<Rightarrow> string \<Rightarrow> int" where
  "reported_sum q calls n =
     (\<Sum>uri\<in>agents_seen calls n. case latest_report calls n uri of Some d \<Rightarrow> q d | None \<Rightarrow> 0)"

section \<open>Counters as an interface\<close>

text \<open>
  What a query needs to know of the statistics it adds up: a counter \<open>q\<close> that is zero at first and
  that \<open>add\<close> adds, on well-formed statistics.
\<close>

locale report_counter =
  fixes zero :: 's and mk :: "string \<Rightarrow> 's" and add :: "'s \<Rightarrow> 's \<Rightarrow> 's"
    and ok :: "'s \<Rightarrow> bool" and q :: "'s \<Rightarrow> int"
  assumes ok_zero: "ok zero" and ok_mk: "ok (mk n)" and ok_add: "ok t \<Longrightarrow> ok (add t s)"
    and q_zero: "q zero = 0" and q_mk: "q (mk n) = 0" and q_add: "ok t \<Longrightarrow> q (add t s) = q t + q s"
begin

lemma q_foldl:
  "ok t \<Longrightarrow> q (foldl (\<lambda>stat x. add stat (ag_Data x)) t l) = q t + (\<Sum>x\<leftarrow>l. q (ag_Data x))"
  by (induction l arbitrary: t) (simp_all add: ok_add q_add)

lemma q_data:
  assumes "agents_inv zero add calls m"
  shows "(\<Sum>x\<leftarrow>agents_named m n. q (ag_Data x)) = reported_sum q calls n"
proof -
  let ?l = "agents_named m n"
  define reported where "reported = (\<lambda>n uri. case latest_report calls n uri of Some d \<Rightarrow> q d | None \<Rightarrow> 0)"
  have dist: "distinct (map ag_URI ?l)" using assms by (simp add: agents_inv_def)
  have dat: "data_of ?l uri = (if uri \<in> agents_seen calls n
      then Some (case latest_report calls n uri of Some d \<Rightarrow> add zero d | None \<Rightarrow> zero) else None)" for uri
    using assms by (simp add: agents_inv_def)
  have dom: "set (map ag_URI ?l) = agents_seen calls n"
  proof (rule set_eqI)
    fix uri
    have "uri \<in> set (map ag_URI ?l) \<longleftrightarrow> data_of ?l uri \<noteq> None"
      by (auto simp: data_of_def map_of_eq_None_iff image_iff)
    with dat show "uri \<in> set (map ag_URI ?l) \<longleftrightarrow> uri \<in> agents_seen calls n" by simp
  qed
  have each: "q (ag_Data x) = reported n (ag_URI x)" if "x \<in> set ?l" for x
  proof -
    have "data_of ?l (ag_URI x) = Some (ag_Data x)"
      using that dist by (auto simp: data_of_def comp_def intro!: map_of_is_SomeI)
    with dat [of "ag_URI x"] show ?thesis
      by (auto simp: reported_def q_zero q_add ok_zero split: if_splits option.splits)
  qed
  have "(\<Sum>x\<leftarrow>?l. q (ag_Data x)) = (\<Sum>x\<leftarrow>?l. reported n (ag_URI x))"
    using each by (auto intro: arg_cong [where f = sum_list])
  also have "\<dots> = (\<Sum>uri\<leftarrow>map ag_URI ?l. reported n uri)" by (simp add: comp_def)
  also have "\<dots> = (\<Sum>uri\<in>set (map ag_URI ?l). reported n uri)"
    using dist by (metis sum_list_distinct_conv_sum_set)
  finally show ?thesis by (simp only: dom reported_sum_def reported_def)
qed

lemma q_collected:
  assumes "agents_inv zero add calls m" and "map_order es m"
  shows "map q (collect_statistics mk add names es)
      = map (reported_sum q calls) (filter (requested names) (map fst es))"
proof -
  have ok: "gomap_ok m" using assms(1) by (simp add: agents_inv_def)
  have "q (foldl (\<lambda>stat x. add stat (ag_Data x)) (mk n) l)
      = reported_sum q calls n" if "(n, l) \<in> set es" for n l
  proof -
    have "map_of m n = Some l"
      using that map_order_set [OF assms(2)] ok by (simp add: gomap_ok_def)
    then have "agents_named m n = l" by (simp add: agents_named_def)
    then show ?thesis using q_data [OF assms(1), of n] by (simp add: q_foldl [OF ok_mk] q_mk)
  qed
  then show ?thesis unfolding collect_map by (induction es) auto
qed

end

definition stat_name_kept :: "('s \<Rightarrow> string) \<Rightarrow> (string \<Rightarrow> 's) \<Rightarrow> ('s \<Rightarrow> 's \<Rightarrow> 's) \<Rightarrow> bool" where
  "stat_name_kept nm mk add \<longleftrightarrow> (\<forall>n. nm (mk n) = n) \<and> (\<forall>t s. nm t \<noteq> [] \<longrightarrow> nm (add t s) = nm t)"

lemma collected_names:
  assumes "stat_name_kept nm mk add" and "[] \<notin> fst ` set es"
  shows "map nm (collect_statistics mk add names es) = filter (requested names) (map fst es)"
proof -
  have f: "nm (foldl (\<lambda>stat x. add stat (ag_Data x)) t l) = nm t" if "nm t \<noteq> []" for t l
    using that assms(1) by (induction l arbitrary: t) (simp_all add: stat_name_kept_def)
  have g: "nm (foldl (\<lambda>stat x. add stat (ag_Data x)) (mk n) l) = n" if "n \<noteq> []"
    for n and l :: "'a agent list"
    using that assms(1) by (simp add: f stat_name_kept_def)
  show ?thesis unfolding collect_map using assms(2) by (induction es) (auto simp: g)
qed

lemma names_seen:
  assumes "agents_inv zero add calls m" and "map_order es m"
  shows "distinct (map fst es) \<and> fst ` set es = {n. agents_seen calls n \<noteq> {}}"
proof -
  have "gomap_ok es" by (rule map_order_ok [OF assms(2)]) (use assms(1) in \<open>simp add: agents_inv_def\<close>)
  moreover have "n \<in> fst ` set m \<longleftrightarrow> agents_seen calls n \<noteq> {}" for n
    using assms(1) by (simp add: agents_inv_def map_of_eq_None_iff flip: map_of_eq_None_iff)
      (metis map_of_eq_None_iff)
  ultimately show ?thesis using map_order_set [OF assms(2)] by (auto simp: gomap_ok_def)
qed

interpretation link_waiting: report_counter "zero_link []" zero_link LinkStatistics_Add
  "\<lambda>t. True" ls_AnnotatedValuesWaiting
  by unfold_locales (simp_all add: zero_link_def LinkStatistics_Add_def)

interpretation link_in_progress: report_counter "zero_link []" zero_link LinkStatistics_Add
  "\<lambda>t. True" ls_AnnotatedValuesInProgress
  by unfold_locales (simp_all add: zero_link_def LinkStatistics_Add_def)

interpretation link_acknowledged: report_counter "zero_link []" zero_link LinkStatistics_Add
  "\<lambda>t. True" ls_AnnotatedValuesAcknowledged
  by unfold_locales (simp_all add: zero_link_def LinkStatistics_Add_def)

lemma zero_task_sorted: "stats_sorted (zero_task n)"
  by (simp add: zero_task_def stats_sorted_def by_name_sorted_def)

lemma TaskStatistics_Add_snapshots:
  "tst_SnapshotsWaiting (TaskStatistics_Add t s) = tst_SnapshotsWaiting t + tst_SnapshotsWaiting s"
  "tst_SnapshotsSucceeded (TaskStatistics_Add t s) = tst_SnapshotsSucceeded t + tst_SnapshotsSucceeded s"
  "tst_Name t \<noteq> [] \<Longrightarrow> tst_Name (TaskStatistics_Add t s) = tst_Name t"
  by (simp_all add: TaskStatistics_Add_def Let_def fold_add_input fold_add_output)

interpretation task_waiting: report_counter "zero_task []" zero_task TaskStatistics_Add
  stats_sorted tst_SnapshotsWaiting
  by unfold_locales (simp_all add: zero_task_sorted stats_sorted_add TaskStatistics_Add_snapshots, simp_all add: zero_task_def)

interpretation task_succeeded: report_counter "zero_task []" zero_task TaskStatistics_Add
  stats_sorted tst_SnapshotsSucceeded
  by unfold_locales (simp_all add: zero_task_sorted stats_sorted_add TaskStatistics_Add_snapshots, simp_all add: zero_task_def)

interpretation task_received: report_counter "zero_task []" zero_task TaskStatistics_Add
  stats_sorted "\<lambda>t. received (tst_Inputs t) input"
  for input
proof
  fix t s :: TaskStatistics
  assume "stats_sorted t"
  then show "received (tst_Inputs (TaskStatistics_Add t s)) input =
      received (tst_Inputs t) input + received (tst_Inputs s) input"
    by (simp add: TaskStatistics_Add_def Let_def fold_add_input fold_add_output received_add_all stats_sorted_def)
qed (simp_all add: zero_task_sorted stats_sorted_add, simp_all add: zero_task_def received_def)

section \<open>Properties\<close>

text \<open>The calls of link and task agents, in the order in which they take the mutex.\<close>

datatype registry_call =
    LinkCall "LinkStatistics agent_call" | TaskCall "TaskStatistics agent_call"

fun registry_step ::
  "(LinkStatistics agent list \<Rightarrow> LinkStatistics agent list)
    \<Rightarrow> (TaskStatistics agent list \<Rightarrow> TaskStatistics agent list) \<Rightarrow> registry_call
    \<Rightarrow> agent_registry \<Rightarrow> agent_registry" where
  "registry_step rl rt (LinkCall (CallRegister n uri)) s = RegisterLink n uri s"
| "registry_step rl rt (LinkCall (CallReport n uri now d)) s =
     PublishLinkStatistics rl now (d\<lparr>ls_Name := n, ls_URI := uri\<rparr>) s"
| "registry_step rl rt (TaskCall (CallRegister n uri)) s = RegisterTask n uri s"
| "registry_step rl rt (TaskCall (CallReport n uri now d)) s =
     PublishTaskStatistics rt now (d\<lparr>tst_Name := n, tst_URI := uri\<rparr>) s"

fun link_calls :: "registry_call list \<Rightarrow> LinkStatistics agent_call list" where
  "link_calls [] = []"
| "link_calls (LinkCall (CallRegister n uri) # cs) = CallRegister n uri # link_calls cs"
| "link_calls (LinkCall (CallReport n uri now d) # cs) =
     CallReport n uri now (d\<lparr>ls_Name := n, ls_URI := uri\<rparr>) # link_calls cs"
| "link_calls (TaskCall c # cs) = link_calls cs"

fun task_calls :: "registry_call list \<Rightarrow> TaskStatistics agent_call list" where
  "task_calls [] = []"
| "task_calls (TaskCall (CallRegister n uri) # cs) = CallRegister n uri # task_calls cs"
| "task_calls (TaskCall (CallReport n uri now d) # cs) =
     CallReport n uri now (d\<lparr>tst_Name := n, tst_URI := uri\<rparr>) # task_calls cs"
| "task_calls (LinkCall c # cs) = task_calls cs"

definition run_registry ::
  "(LinkStatistics agent list \<Rightarrow> LinkStatistics agent list)
    \<Rightarrow> (TaskStatistics agent list \<Rightarrow> TaskStatistics agent list) \<Rightarrow> registry_call list \<Rightarrow> agent_registry" where
  "run_registry rl rt cs = foldl (\<lambda>s c. registry_step rl rt c s) newAgentRegistry cs"

lemma link_calls_append: "link_calls (a @ b) = link_calls a @ link_calls b"
  by (induction a rule: link_calls.induct) auto

lemma task_calls_append: "task_calls (a @ b) = task_calls a @ task_calls b"
  by (induction a rule: task_calls.induct) auto

lemma run_registry_agents:
  "ar_linkAgents (run_registry rl rt cs) =
     foldl (\<lambda>m c. apply_call rl (zero_link []) LinkStatistics_Add c m) [] (link_calls cs)
   \<and> ar_taskAgents (run_registry rl rt cs) =
     foldl (\<lambda>m c. apply_call rt (zero_task []) TaskStatistics_Add c m) [] (task_calls cs)"
proof (induction cs rule: rev_induct)
  case Nil
  show ?case by (simp add: run_registry_def newAgentRegistry_def)
next
  case (snoc c cs)
  then show ?case
    by (cases "(rl, rt, c, newAgentRegistry)" rule: registry_step.cases)
      (simp_all add: run_registry_def link_calls_append task_calls_append RegisterLink_def RegisterTask_def
        PublishLinkStatistics_def PublishTaskStatistics_def)
qed


definition link_report :: "int \<Rightarrow> LinkStatistics" where
  "link_report k = (zero_link [])\<lparr>ls_AnnotatedValuesWaiting := k\<rparr>"

definition example_link_calls :: "registry_call list" where
  "example_link_calls = [LinkCall (CallRegister ''l'' ''u1''), LinkCall (CallReport ''l'' ''u1'' 1 (link_report 5)),
     LinkCall (CallReport ''l'' ''u1'' 2 (link_report 7)), LinkCall (CallReport ''l'' ''u2'' 3 (link_report 1)),
     LinkCall (CallRegister ''m'' ''u3'')]"


text \<open>the task statistics of the pipeline agent: as for links, one entry per requested task with
  the sums of the latest reports of its agents, for the snapshots waiting and succeeded and for the
  values received on each input.\<close>
theorem task_statistics_latest:
  assumes "\<And>l. mset (rt l) = mset l" and "map_order es (ar_taskAgents (run_registry rl rt cs))"
    and "agents_seen (task_calls cs) [] = {}"
  shows "\<exists>ns. distinct ns \<and> set ns = {n. agents_seen (task_calls cs) n \<noteq> {} \<and> (names = [] \<or> n \<in> set names)}
    \<and> map tst_Name (GetTaskStatistics names es) = ns
    \<and> map tst_SnapshotsWaiting (GetTaskStatistics names es)
        = map (reported_sum tst_SnapshotsWaiting (task_calls cs)) ns
    \<and> map tst_SnapshotsSucceeded (GetTaskStatistics names es)
        = map (reported_sum tst_SnapshotsSucceeded (task_calls cs)) ns
    \<and> (\<forall>input. map (\<lambda>t. received (tst_Inputs t) input) (GetTaskStatistics names es)
        = map (reported_sum (\<lambda>t. received (tst_Inputs t) input) (task_calls cs)) ns)"
proof -
  have inv: "agents_inv (zero_task []) TaskStatistics_Add (task_calls cs) (ar_taskAgents (run_registry rl rt cs))"
    using run_registry_agents [of rl rt cs] agents_inv_calls [OF assms(1)] by simp
  note seen = names_seen [OF inv assms(2)]
  let ?ns = "filter (requested names) (map fst es)"
  have "set ?ns = {n. agents_seen (task_calls cs) n \<noteq> {} \<and> (names = [] \<or> n \<in> set names)}"
    using seen by (auto simp: requested_def image_iff)
  moreover have "stat_name_kept tst_Name zero_task TaskStatistics_Add"
    by (auto simp: stat_name_kept_def TaskStatistics_Add_snapshots zero_task_def)
  then have "map tst_Name (GetTaskStatistics names es) = ?ns"
    unfolding GetTaskStatistics_def by (rule collected_names) (use seen assms(3) in auto)
  ultimately show ?thesis
    using seen task_waiting.q_collected [OF inv assms(2), of names]
      task_succeeded.q_collected [OF inv assms(2), of names]
      task_received.q_collected [OF inv assms(2), of _ names]
    by (intro exI [of _ ?ns]) (simp add: GetTaskStatistics_def)
qed

definition example_task_calls :: "registry_call list" where
  "example_task_calls =
     [TaskCall (CallReport ''t'' ''u1'' 1 (example_report ''a'' 4)), TaskCall (CallReport ''t'' ''u2'' 2 (example_report ''a'' 3)),
      TaskCall (CallReport ''t'' ''u1'' 3 (example_report ''a'' 5))]"

lemma task_statistics_latest_witness:
  "map tst_SnapshotsWaiting (GetTaskStatistics [''t''] (ar_taskAgents (run_registry id id example_task_calls))) = [8]
   \<and> distinct (map tst_Name (GetTaskStatistics [''t''] (ar_taskAgents (run_registry id id example_task_calls))))"
proof -
  have "agents_seen (task_calls example_task_calls) [] = {}"
    by (simp add: agents_seen_def example_task_calls_def)
  from task_statistics_latest [where rl = id and rt = id and names = "[''t'']", OF _ map_order_refl this]
  have "distinct (map tst_Name (GetTaskStatistics [''t''] (ar_taskAgents (run_registry id id example_task_calls))))"
    by auto
  moreover have "map tst_SnapshotsWaiting
      (GetTaskStatistics [''t''] (ar_taskAgents (run_registry id id example_task_calls))) = [8]"
    by code_simp
  ultimately show ?thesis by blast
qed

end
