(* ===== verification/Output_Store.thy ===== *)
theory Output_Store
  imports Annotated_Value
begin

text \<open>
  The outputs of a pipeline, kept by the pipeline agent (\<open>pkg/agent/pipeline/stub/output_store.go\<close>):
  each published value is recorded in the registry and kept with its tree, and a query selects
  values by time, by task and by the IDs of values they were made from.
\<close>

section \<open>State\<close>

record output_store =
  sto_annotatedValues :: "AnnotatedValueTree list"

record OutputAnnotatedValuesRequest =
  or_TaskNames :: "string list"
  or_AnnotatedValueIDs :: "string list"
  or_CreatedAfter :: "Timestamp option"
  or_CreatedBefore :: "Timestamp option"

datatype 'e store_error = SE_Record 'e | SE_Tree 'e

definition newOutputStore :: output_store where
  "newOutputStore = \<lparr>sto_annotatedValues = []\<rparr>"

section \<open>Publishing\<close>

definition store_CanPublish :: "output_store \<Rightarrow> bool" where
  "store_CanPublish s = True"

definition end_of_line :: "AnnotatedValue \<Rightarrow> AnnotatedValue" where
  "end_of_line av = av\<lparr>av_Link := []\<rparr>"

text \<open>
  \<open>record_av\<close> is the call of the registry with its retries, which may have recorded the value even when
  it fails; \<open>get_by_id\<close> is the call \<open>tree.Build\<close> makes, with \<open>n\<close> levels of recursion; \<open>None\<close> when that is
  not enough.
\<close>

definition store_Publish ::
  "nat \<Rightarrow> ('r \<Rightarrow> AnnotatedValue \<Rightarrow> 'e error_only \<times> 'r) \<Rightarrow> ('r \<Rightarrow> string \<Rightarrow> ('e, AnnotatedValue) go_result)
    \<Rightarrow> AnnotatedValue \<Rightarrow> 'r \<times> output_store \<Rightarrow> ('e store_error error_only \<times> 'r \<times> output_store) option" where
  "store_Publish n record_av get_by_id av0 rs =
     (case rs of (r, s) \<Rightarrow>
        let av = end_of_line av0 in
        (case record_av r av of
           (Some e, r') \<Rightarrow> Some (Some (SE_Record e), r', s)
         | (None, r') \<Rightarrow>
             (case Build n (get_by_id r') av of
                None \<Rightarrow> None
              | Some (Inl e) \<Rightarrow> Some (Some (SE_Tree e), r', s)
              | Some (Inr avTree) \<Rightarrow>
                  Some (None, r', s\<lparr>sto_annotatedValues := sto_annotatedValues s @ [avTree]\<rparr>))))"

section \<open>Queries\<close>

text \<open>
  \<open>ptypes.TimestampFromProto\<close>, whose error is ignored here: the epoch for a missing timestamp, and
  the time the numbers give for an invalid one.
\<close>

definition time_of :: "Timestamp option \<Rightarrow> int" where
  "time_of ts = (case ts of None \<Rightarrow> 0 | Some t \<Rightarrow> tm_Seconds t * 1000000000 + tm_Nanos t)"

definition store_isMatch :: "AnnotatedValueTree \<Rightarrow> OutputAnnotatedValuesRequest \<Rightarrow> bool" where
  "store_isMatch e req =
     (let av = tree_AnnotatedValue e; createdAt = time_of (av_CreatedAt av) in
      if or_CreatedAfter req \<noteq> None \<and> createdAt < time_of (or_CreatedAfter req) then False
      else if or_CreatedBefore req \<noteq> None \<and> createdAt > time_of (or_CreatedBefore req) then False
      else if length (or_TaskNames req) > 0 \<and> \<not> found_in (or_TaskNames req) (av_SourceTask av) then False
      else if length (or_AnnotatedValueIDs req) > 0
        \<and> \<not> list_ex (\<lambda>i. ContainsID e i) (or_AnnotatedValueIDs req) then False
      else True)"

fun getOutputAnnotatedValuesFromOutputs ::
  "AnnotatedValueTree list \<Rightarrow> OutputAnnotatedValuesRequest \<Rightarrow> AnnotatedValue list" where
  "getOutputAnnotatedValuesFromOutputs [] req = []"
| "getOutputAnnotatedValuesFromOutputs (t # ts) req =
     (if store_isMatch t req then tree_AnnotatedValue t # getOutputAnnotatedValuesFromOutputs ts req
      else getOutputAnnotatedValuesFromOutputs ts req)"

definition registry_request :: "OutputAnnotatedValuesRequest \<Rightarrow> GetRequest" where
  "registry_request req = \<lparr>gr_IDs = [], gr_SourceTasks = or_TaskNames req, gr_Data = [],
     gr_CreatedAfter = or_CreatedAfter req, gr_CreatedBefore = or_CreatedBefore req\<rparr>"

definition GetOutputAnnotatedValues ::
  "(GetRequest \<Rightarrow> ('e, AnnotatedValue list) go_result) \<Rightarrow> OutputAnnotatedValuesRequest \<Rightarrow> output_store
    \<Rightarrow> ('e, AnnotatedValue list) go_result" where
  "GetOutputAnnotatedValues get req s =
     (let resp = getOutputAnnotatedValuesFromOutputs (sto_annotatedValues s) req in
      if length resp = 0 then
        (case get (registry_request req) of Inl e \<Rightarrow> Inl e | Inr avs \<Rightarrow> Inr (resp @ avs))
      else Inr resp)"

section \<open>Derivation in a growing registry\<close>

definition same_origin :: "AnnotatedValue \<Rightarrow> AnnotatedValue \<Rightarrow> bool" where
  "same_origin a b \<longleftrightarrow> av_ID a = av_ID b \<and> av_SourceInputs a = av_SourceInputs b"

definition grows ::
  "(string \<Rightarrow> ('e, AnnotatedValue) go_result) \<Rightarrow> (string \<Rightarrow> ('e, AnnotatedValue) go_result) \<Rightarrow> bool" where
  "grows get get' \<longleftrightarrow> (\<forall>i a. get i = Inr a \<longrightarrow> (\<exists>b. get' i = Inr b \<and> same_origin a b))"

lemma derives_grows:
  "derives get a x \<Longrightarrow> grows get get' \<Longrightarrow> same_origin a b \<Longrightarrow> derives get' b x"
proof (induction arbitrary: b rule: derives.induct)
  case (derives_self av)
  then show ?case using derives.derives_self [of get' b] by (simp add: same_origin_def)
next
  case (derives_source i av src x)
  then obtain c where c: "get' i = Inr c" "same_origin src c" unfolding grows_def by blast
  have "i \<in> set (source_ids b)"
    using derives_source.hyps(1) derives_source.prems(2) by (simp add: same_origin_def source_ids_def)
  then show ?case
    by (rule derives.derives_source) (rule c(1), rule derives_source.IH [OF derives_source.prems(1) c(2)])
qed

lemma derives_shrinks:
  assumes "derives get' b x" and "grows get get'" and "layered get rank"
    and "same_origin a b" and "\<forall>j \<in> set (source_ids a). \<exists>src. get j = Inr src"
  shows "derives get a x"
  using assms
proof (induction arbitrary: a rule: derives.induct)
  case (derives_self av)
  then show ?case using derives.derives_self [of get a] by (simp add: same_origin_def)
next
  case (derives_source i av src x)
  have i: "i \<in> set (source_ids a)"
    using derives_source.hyps(1) derives_source.prems(3) by (simp add: same_origin_def source_ids_def)
  then obtain c where c: "get i = Inr c" using derives_source.prems(4) by blast
  then have same: "same_origin c src"
    using derives_source.prems(1) derives_source.hyps(2) unfolding grows_def by force
  have "\<forall>j \<in> set (source_ids c). \<exists>src. get j = Inr src"
    using derives_source.prems(2) c by (auto simp: layered_def)
  from derives_source.IH [OF derives_source.prems(1,2) same this] show ?case
    using i c by (blast intro: derives.derives_source)
qed

context av_registry
begin

lemma derives_later:
  assumes "recorded_in_order Map.empty (xs @ ys)" and "av \<in> set xs"
  shows "derives (get_by_id (foldl record_av empty xs)) av x
    \<longleftrightarrow> derives (get_by_id (foldl record_av empty (xs @ ys))) av x"
proof -
  let ?get = "get_by_id (foldl record_av empty xs)"
  let ?get' = "get_by_id (foldl record_av empty (xs @ ys))"
  have xs: "recorded_in_order Map.empty xs" using assms(1) by (simp add: recorded_in_order_append)
  have grow: "grows ?get ?get'"
    unfolding grows_def
  proof (intro allI impI)
    fix i a assume "?get i = Inr a"
    then have a: "a \<in> set xs" "av_ID a = i" using get_mem by blast+
    then obtain b where b: "?get' i = Inr b" "av_SourceInputs b = av_SourceInputs a"
      using recorded_sources [OF assms(1), of a] by auto
    moreover have "av_ID b = i" using get_mem [OF b(1)] by simp
    ultimately show "\<exists>b. ?get' i = Inr b \<and> same_origin a b" using a by (auto simp: same_origin_def)
  qed
  obtain rank where lay: "layered ?get rank" using records_layered [OF xs] by blast
  obtain b where "?get (av_ID av) = Inr b" "av_SourceInputs b = av_SourceInputs av"
    using recorded_sources [OF xs assms(2)] by blast
  then have "\<forall>j \<in> set (source_ids av). \<exists>src. ?get j = Inr src"
    using lay by (auto simp: layered_def source_ids_def)
  then show ?thesis
    using derives_grows [OF _ grow, of av x av] derives_shrinks [OF _ grow lay, of av x av]
    by (auto simp: same_origin_def)
qed

end

section \<open>Properties\<close>

text \<open>
  What happens at the pipeline agent and its registry: a link records a value, or a task publishes an
  output.  Of a publication the event holds how many attempts to record the value succeeded in the registry
  without the agent hearing of it, whether one more was confirmed before the time-out, and the IDs whose
  lookup fails while the tree is built.
\<close>

datatype store_event =
    LinkRecords AnnotatedValue
  | Published AnnotatedValue nat bool "string \<Rightarrow> bool"

fun recorded_values :: "store_event \<Rightarrow> AnnotatedValue list" where
  "recorded_values (LinkRecords av) = [av]"
| "recorded_values (Published av k ok missing) = replicate (if ok then Suc k else k) (end_of_line av)"

definition all_recorded :: "store_event list \<Rightarrow> AnnotatedValue list" where
  "all_recorded evs = concat (map recorded_values evs)"

text \<open>The values of the publications that were answered without an error.\<close>

fun kept :: "store_event list \<Rightarrow> bool list \<Rightarrow> AnnotatedValue list" where
  "kept [] answers = []"
| "kept (LinkRecords av # evs) answers = kept evs answers"
| "kept (Published av k ok missing # evs) [] = []"
| "kept (Published av k ok missing # evs) (a # answers) = (if a then [end_of_line av] else []) @ kept evs answers"

text \<open>A publication fails when it is not heard of, and only when a call of the registry failed.\<close>

fun answers_right :: "store_event list \<Rightarrow> bool list \<Rightarrow> bool" where
  "answers_right [] answers \<longleftrightarrow> answers = []"
| "answers_right (LinkRecords av # evs) answers \<longleftrightarrow> answers_right evs answers"
| "answers_right (Published av k ok missing # evs) [] \<longleftrightarrow> False"
| "answers_right (Published av k ok missing # evs) (a # answers) \<longleftrightarrow>
     (a \<longrightarrow> ok) \<and> (\<not> a \<longrightarrow> \<not> ok \<or> (\<exists>i. missing i)) \<and> answers_right evs answers"

definition stub_record :: "nat \<Rightarrow> bool \<Rightarrow> registry \<Rightarrow> AnnotatedValue \<Rightarrow> registry_error error_only \<times> registry" where
  "stub_record k ok r av =
     (if ok then None else Some (RE_NotFound (av_ID av)), foldl Record r (replicate (if ok then Suc k else k) av))"

definition lossy_get :: "(string \<Rightarrow> bool) \<Rightarrow> registry \<Rightarrow> string \<Rightarrow> (registry_error, AnnotatedValue) go_result" where
  "lossy_get missing r i = (if missing i then Inl (RE_NotFound i) else GetByID r i)"

text \<open>A run, with the answers of its publications.\<close>

fun run_store ::
  "nat \<Rightarrow> store_event list \<Rightarrow> registry \<times> output_store \<Rightarrow> (bool list \<times> registry \<times> output_store) option" where
  "run_store n [] rs = Some ([], rs)"
| "run_store n (LinkRecords av # evs) (r, s) = run_store n evs (Record r av, s)"
| "run_store n (Published av k ok missing # evs) rs =
     (case store_Publish n (stub_record k ok) (lossy_get missing) av rs of
        None \<Rightarrow> None
      | Some (e, rs) \<Rightarrow> map_option (apfst ((#) (e = None))) (run_store n evs rs))"

text \<open>The values a query selects, said of the values rather than of their trees.\<close>

definition wanted :: "(string \<Rightarrow> ('e, AnnotatedValue) go_result) \<Rightarrow> OutputAnnotatedValuesRequest \<Rightarrow> AnnotatedValue \<Rightarrow> bool" where
  "wanted get req av \<longleftrightarrow>
     (or_CreatedAfter req \<noteq> None \<longrightarrow> time_of (or_CreatedAfter req) \<le> time_of (av_CreatedAt av))
     \<and> (or_CreatedBefore req \<noteq> None \<longrightarrow> time_of (av_CreatedAt av) \<le> time_of (or_CreatedBefore req))
     \<and> (or_TaskNames req = [] \<or> av_SourceTask av \<in> set (or_TaskNames req))
     \<and> (or_AnnotatedValueIDs req = [] \<or> (\<exists>i \<in> set (or_AnnotatedValueIDs req). derives get av i))"

lemma Build_root: "Build n get av = Some (Inr t) \<Longrightarrow> tree_AnnotatedValue t = av"
  by (cases n) (auto simp: Build.simps split: if_splits option.splits sum.splits)

text \<open>A tree built while lookups fail is the tree of the registry, or there is none.\<close>

definition weaker :: "bool \<Rightarrow> ('e, 'a) go_result option \<Rightarrow> ('e, 'a) go_result option \<Rightarrow> bool" where
  "weaker B x y \<longleftrightarrow> (\<forall>t. x = Some (Inr t) \<longrightarrow> y = Some (Inr t) \<or> B \<and> (\<exists>e. y = Some (Inl e)))"

lemma weaker_seq:
  "(\<And>i. weaker B (f i) (g i)) \<Longrightarrow> weaker B (build_seq f ids) (build_seq g ids)"
proof (induction ids)
  case (Cons i ids)
  show ?case
  proof (cases "f i")
    case (Some r)
    then show ?thesis using Cons.IH [OF Cons.prems] Cons.prems [of i]
      by (cases r) (auto simp: weaker_def split: option.splits sum.splits)
  qed (simp add: weaker_def)
qed (simp add: weaker_def)

lemma weaker_inputs:
  "(\<And>i. weaker B (f i) (g i)) \<Longrightarrow> weaker B (build_inputs f ins m) (build_inputs g ins m)"
proof (induction ins arbitrary: m)
  case (Cons inp ins)
  show ?case
  proof (cases "build_seq f (avi_IDs inp)")
    case (Some r)
    have one: "weaker B (build_seq f (avi_IDs inp)) (build_seq g (avi_IDs inp))"
      by (rule weaker_seq) (rule Cons.prems)
    show ?thesis
    proof (cases r)
      case (Inr ts)
      then show ?thesis using Some one Cons.IH [OF Cons.prems, of "AList.update (avi_InputName inp) ts m"]
        by (auto simp: weaker_def split: option.splits sum.splits)
    qed (use Some in \<open>simp add: weaker_def\<close>)
  qed (simp add: weaker_def)
qed (simp add: weaker_def)

lemma weaker_Build: "weaker (\<exists>i. missing i) (Build n (GetByID r) av) (Build n (lossy_get missing r) av)"
proof (induction n arbitrary: av)
  case (Suc n)
  let ?f = "\<lambda>get i. case get i of Inl e \<Rightarrow> Some (Inl e) | Inr child \<Rightarrow> Build n get child"
  have "weaker (\<exists>i. missing i) (?f (GetByID r) i) (?f (lossy_get missing r) i)" for i
  proof (cases "GetByID r i")
    case (Inr child)
    have "lossy_get missing r i = (if missing i then Inl (RE_NotFound i) else Inr child)"
      by (simp add: lossy_get_def Inr)
    then show ?thesis using Suc [of child] Inr by (cases "missing i") (auto simp: weaker_def)
  qed (simp add: weaker_def)
  then have "weaker (\<exists>i. missing i) (build_inputs (?f (GetByID r)) (av_SourceInputs av) [])
      (build_inputs (?f (lossy_get missing r)) (av_SourceInputs av) [])"
    by (rule weaker_inputs)
  then show ?case by (auto simp: weaker_def Build.simps(2) split: option.splits sum.splits if_splits)
qed (simp add: weaker_def Build.simps(1))

text \<open>The trees of a store hold what their values derive from, by the registry of now.\<close>

definition registry_after :: "store_event list \<Rightarrow> registry" where
  "registry_after evs = foldl Record NewStub_registry (all_recorded evs)"

definition trees_ok :: "store_event list \<Rightarrow> AnnotatedValueTree list \<Rightarrow> bool" where
  "trees_ok evs ts \<longleftrightarrow> set (map tree_AnnotatedValue ts) \<subseteq> set (all_recorded evs)
     \<and> (\<forall>t \<in> set ts. \<forall>x. ContainsID t x \<longleftrightarrow> derives (GetByID (registry_after evs)) (tree_AnnotatedValue t) x)"

lemma all_recorded_append [simp]: "all_recorded (a @ b) = all_recorded a @ all_recorded b"
  by (simp add: all_recorded_def)

lemma trees_ok_later:
  assumes "trees_ok evs ts" and "recorded_in_order Map.empty (all_recorded (evs @ later))"
  shows "trees_ok (evs @ later) ts"
proof -
  have "ContainsID t x \<longleftrightarrow> derives (GetByID (registry_after (evs @ later))) (tree_AnnotatedValue t) x"
    if "t \<in> set ts" for t x
  proof -
    have "tree_AnnotatedValue t \<in> set (all_recorded evs)" using assms(1) that unfolding trees_ok_def by auto
    moreover have "recorded_in_order Map.empty (all_recorded evs @ all_recorded later)"
      using assms(2) by simp
    ultimately have "derives (GetByID (registry_after evs)) (tree_AnnotatedValue t) x
        \<longleftrightarrow> derives (GetByID (registry_after (evs @ later))) (tree_AnnotatedValue t) x"
      unfolding registry_after_def all_recorded_append by (intro registry.derives_later)
    with assms(1) that show ?thesis by (simp add: trees_ok_def)
  qed
  then show ?thesis using assms(1) by (auto simp: trees_ok_def)
qed

text \<open>One publication.\<close>

lemma publish_one:
  assumes "recorded_in_order Map.empty (all_recorded (pre @ [Published av k ok missing]))"
    and "length (all_recorded (pre @ [Published av k ok missing])) \<le> n" and "trees_ok pre ts"
  shows "\<exists>e ts'. store_Publish n (stub_record k ok) (lossy_get missing) av (registry_after pre, \<lparr>sto_annotatedValues = ts\<rparr>)
      = Some (e, registry_after (pre @ [Published av k ok missing]), \<lparr>sto_annotatedValues = ts'\<rparr>)
    \<and> trees_ok (pre @ [Published av k ok missing]) ts'
    \<and> map tree_AnnotatedValue ts' = map tree_AnnotatedValue ts @ (if e = None then [end_of_line av] else [])
    \<and> (e = None \<longrightarrow> ok) \<and> (e \<noteq> None \<longrightarrow> \<not> ok \<or> (\<exists>i. missing i))"
proof -
  let ?evs = "pre @ [Published av k ok missing]"
  have reg: "snd (stub_record k ok (registry_after pre) (end_of_line av)) = registry_after ?evs"
    by (simp add: stub_record_def registry_after_def all_recorded_def)
  have old: "trees_ok ?evs ts" by (rule trees_ok_later [OF assms(3,1)])
  show ?thesis
  proof (cases ok)
    case False
    then have "store_Publish n (stub_record k ok) (lossy_get missing) av (registry_after pre, \<lparr>sto_annotatedValues = ts\<rparr>)
        = Some (Some (SE_Record (RE_NotFound (av_ID (end_of_line av)))), registry_after ?evs, \<lparr>sto_annotatedValues = ts\<rparr>)"
      using reg by (simp add: store_Publish_def stub_record_def)
    then show ?thesis using old False by auto
  next
    case True
    have mem: "end_of_line av \<in> set (all_recorded ?evs)" using True by (simp add: all_recorded_def)
    from registry.tree_complete [OF assms(1) mem assms(2)]
    obtain t where t: "Build n (GetByID (registry_after ?evs)) (end_of_line av) = Some (Inr t)"
      "\<And>x. ContainsID t x \<longleftrightarrow> derives (GetByID (registry_after ?evs)) (end_of_line av) x"
      by (auto simp: registry_after_def)
    have root: "tree_AnnotatedValue t = end_of_line av" by (rule Build_root [OF t(1)])
    have rec: "stub_record k ok (registry_after pre) (end_of_line av) = (None, registry_after ?evs)"
      using reg True by (simp add: stub_record_def)
    from weaker_Build [of missing n "registry_after ?evs" "end_of_line av"] t(1)
    consider "Build n (lossy_get missing (registry_after ?evs)) (end_of_line av) = Some (Inr t)"
      | e where "\<exists>i. missing i" "Build n (lossy_get missing (registry_after ?evs)) (end_of_line av) = Some (Inl e)"
      unfolding weaker_def by blast
    then show ?thesis
    proof cases
      case 1
      moreover have "trees_ok ?evs (ts @ [t])"
        using old t(2) root mem by (auto simp: trees_ok_def)
      ultimately show ?thesis using True rec root by (simp add: store_Publish_def Let_def)
    next
      case 2
      then show ?thesis using old rec by (simp add: store_Publish_def Let_def)
    qed
  qed
qed

lemma run_store_ok:
  assumes "recorded_in_order Map.empty (all_recorded (pre @ evs))" and "length (all_recorded (pre @ evs)) \<le> n"
    and "trees_ok pre ts"
  shows "\<exists>answers ts'. run_store n evs (registry_after pre, \<lparr>sto_annotatedValues = ts\<rparr>)
      = Some (answers, registry_after (pre @ evs), \<lparr>sto_annotatedValues = ts'\<rparr>) \<and> trees_ok (pre @ evs) ts'
    \<and> map tree_AnnotatedValue ts' = map tree_AnnotatedValue ts @ kept evs answers \<and> answers_right evs answers"
  using assms
proof (induction evs arbitrary: pre ts)
  case (Cons ev evs)
  have rec: "recorded_in_order Map.empty (all_recorded (pre @ [ev]))"
    using Cons.prems(1) recorded_in_order_append [of Map.empty "all_recorded (pre @ [ev])" "all_recorded evs"]
    by (simp add: all_recorded_def)
  have all: "(pre @ [ev]) @ evs = pre @ ev # evs" by simp
  note IH = Cons.IH [of "pre @ [ev]", unfolded all, OF Cons.prems(1,2)]
  show ?case
  proof (cases ev)
    case (LinkRecords av)
    have "registry_after (pre @ [ev]) = Record (registry_after pre) av"
      by (simp add: registry_after_def all_recorded_def LinkRecords)
    then show ?thesis using IH [OF trees_ok_later [OF Cons.prems(3) rec]] by (simp add: LinkRecords)
  next
    case (Published av k ok missing)
    have "length (all_recorded (pre @ [ev])) \<le> n" using Cons.prems(2) by (simp add: all_recorded_def)
    from publish_one [OF rec [unfolded Published] this [unfolded Published] Cons.prems(3)] obtain e ts1 where
      one: "store_Publish n (stub_record k ok) (lossy_get missing) av (registry_after pre, \<lparr>sto_annotatedValues = ts\<rparr>)
        = Some (e, registry_after (pre @ [ev]), \<lparr>sto_annotatedValues = ts1\<rparr>)" "trees_ok (pre @ [ev]) ts1"
      "map tree_AnnotatedValue ts1 = map tree_AnnotatedValue ts @ (if e = None then [end_of_line av] else [])"
      "(e = None \<longrightarrow> ok) \<and> (e \<noteq> None \<longrightarrow> \<not> ok \<or> (\<exists>i. missing i))"
      unfolding Published by blast
    obtain answers ts' where rest: "run_store n evs (registry_after (pre @ [ev]), \<lparr>sto_annotatedValues = ts1\<rparr>)
        = Some (answers, registry_after (pre @ ev # evs), \<lparr>sto_annotatedValues = ts'\<rparr>)" "trees_ok (pre @ ev # evs) ts'"
      "map tree_AnnotatedValue ts' = map tree_AnnotatedValue ts1 @ kept evs answers" "answers_right evs answers"
      using IH [OF one(2)] by blast
    have "run_store n (ev # evs) (registry_after pre, \<lparr>sto_annotatedValues = ts\<rparr>)
        = Some ((e = None) # answers, registry_after (pre @ ev # evs), \<lparr>sto_annotatedValues = ts'\<rparr>)"
      using one(1) rest(1) by (simp add: Published)
    moreover have "map tree_AnnotatedValue ts' = map tree_AnnotatedValue ts @ kept (ev # evs) ((e = None) # answers)"
      using one(3) rest(3) by (simp add: Published)
    moreover have "answers_right (ev # evs) ((e = None) # answers)" using one(4) rest(4) by (simp add: Published)
    ultimately show ?thesis using rest(2) by blast
  qed
qed simp

lemma store_query:
  assumes "\<forall>t \<in> set ts. \<forall>x. ContainsID t x \<longleftrightarrow> derives get (tree_AnnotatedValue t) x"
  shows "getOutputAnnotatedValuesFromOutputs ts req = filter (wanted get req) (map tree_AnnotatedValue ts)"
  using assms
proof (induction ts)
  case (Cons t ts)
  then have "store_isMatch t req \<longleftrightarrow> wanted get req (tree_AnnotatedValue t)"
    by (auto simp: store_isMatch_def wanted_def Let_def list_ex_iff)
  with Cons show ?case by simp
qed simp


definition trace_request :: OutputAnnotatedValuesRequest where
  "trace_request = \<lparr>or_TaskNames = [], or_AnnotatedValueIDs = [''a''], or_CreatedAfter = None,
     or_CreatedBefore = None\<rparr>"

text \<open>
  Value a goes over two links and is used for the outputs b and d; the output c has no sources.  The
  first recording of b is not heard of, and the source of d cannot be looked up.
\<close>

definition trace_events :: "store_event list" where
  "trace_events = [LinkRecords (example_av ''a'' []), LinkRecords ((example_av ''a'' [])\<lparr>av_Link := ''l2''\<rparr>),
      Published (example_av ''b'' [''a'']) 1 True (\<lambda>i. False), Published (example_av ''d'' [''a'']) 0 True (\<lambda>i. i = ''a''),
      Published (example_av ''c'' []) 0 True (\<lambda>i. False)]"


end
