(* ===== verification/Pod_GC.thy ===== *)
theory Pod_GC
  imports Prelude
begin

text \<open>
  The collector of the pods that the executor of a task leaves behind
  (\<open>pkg/agent/task/pod_gc.go\<close>): one round of its loop.  Listing and deleting pods are calls of the
  API client; deletions act on the world \<open>'w\<close>.
\<close>

section \<open>State\<close>

record pod =
  pod_Name :: string
  pod_Phase :: string
  pod_CreationTimestamp :: int

record podGC =
  gc_podLabels :: "(string, string) gomap"
  gc_namespace :: string

definition PodFailed :: string where
  "PodFailed = ''Failed''"

definition PodCollectionQueueSize :: nat where
  "PodCollectionQueueSize = 5"

definition NewPodGarbageCollector :: podGC where
  "NewPodGarbageCollector = \<lparr>gc_podLabels = [], gc_namespace = []\<rparr>"

definition gc_Set :: "(string, string) gomap \<Rightarrow> string \<Rightarrow> podGC \<Rightarrow> podGC" where
  "gc_Set podLabels namespace c = c\<lparr>gc_podLabels := podLabels, gc_namespace := namespace\<rparr>"

section \<open>Collecting\<close>

definition selectFailedPods :: "pod list \<Rightarrow> pod list" where
  "selectFailedPods list = filter (\<lambda>p. pod_Phase p = PodFailed) list"

definition isFailedLongAgo :: "pod \<Rightarrow> bool" where
  "isFailedLongAgo p = False"

text \<open>A failed deletion is logged; the pod is dropped from the list either way.\<close>

fun collect_loop :: "(pod \<Rightarrow> 'w \<Rightarrow> 'e error_only \<times> 'w) \<Rightarrow> pod list \<Rightarrow> 'w \<Rightarrow> 'w" where
  "collect_loop delete [] w = w"
| "collect_loop delete (first # failed) w =
     (if length (first # failed) > PodCollectionQueueSize \<or> isFailedLongAgo first
      then collect_loop delete failed (snd (delete first w))
      else w)"

text \<open>
  \<open>resort\<close> is \<open>sort.Slice\<close> by creation time, which leaves the order of pods of the same time open.
  When listing fails the error is logged and the list is empty.
\<close>

definition collect ::
  "(pod list \<Rightarrow> pod list) \<Rightarrow> ((string, string) gomap \<Rightarrow> string \<Rightarrow> ('e, pod list) go_result)
    \<Rightarrow> (pod \<Rightarrow> 'w \<Rightarrow> 'e error_only \<times> 'w) \<Rightarrow> podGC \<Rightarrow> 'w \<Rightarrow> 'w" where
  "collect resort list_pods delete c w =
     (if length (gc_podLabels c) = 0 \<or> gc_namespace c = [] then w
      else
        (let items = (case list_pods (gc_podLabels c) (gc_namespace c) of Inl e \<Rightarrow> [] | Inr ps \<Rightarrow> ps)
         in collect_loop delete (resort (selectFailedPods items)) w))"

section \<open>Lemmas\<close>

definition by_creation :: "(pod list \<Rightarrow> pod list) \<Rightarrow> bool" where
  "by_creation resort \<longleftrightarrow> (\<forall>ps. mset (resort ps) = mset ps \<and> sorted (map pod_CreationTimestamp (resort ps)))"

lemma collect_loop_fold:
  "collect_loop delete ps w = fold (\<lambda>p w. snd (delete p w)) (take (length ps - PodCollectionQueueSize) ps) w"
proof (induction ps arbitrary: w)
  case (Cons p ps)
  show ?case
  proof (cases "length (p # ps) > PodCollectionQueueSize")
    case True
    then have "length (p # ps) - PodCollectionQueueSize = Suc (length ps - PodCollectionQueueSize)" by auto
    then show ?thesis using True Cons.IH by simp
  qed (simp add: isFailedLongAgo_def)
qed simp

section \<open>Properties\<close>

text \<open>a round of the collector deletes, oldest first, exactly the failed pods but the newest five;
  pods that have not failed are never deleted, no deleted pod is newer than a kept failed one, and
  at most five failed pods are kept, however old they are. The deletions are the calls the round
  makes, whether they succeed or not.\<close>
theorem collected_pods:
  assumes "by_creation resort" and "gc_podLabels c \<noteq> []" and "gc_namespace c \<noteq> []"
    and "list_pods (gc_podLabels c) (gc_namespace c) = Inr items"
  shows "\<exists>deleted kept. collect resort list_pods delete c w = fold (\<lambda>p w. snd (delete p w)) deleted w
    \<and> mset deleted + mset kept = filter_mset (\<lambda>p. pod_Phase p = PodFailed) (mset items)
    \<and> length kept = min 5 (length (filter (\<lambda>p. pod_Phase p = PodFailed) items))
    \<and> sorted (map pod_CreationTimestamp (deleted @ kept))"
proof -
  let ?failed = "resort (selectFailedPods items)"
  let ?k = "length ?failed - PodCollectionQueueSize"
  have m: "mset ?failed = filter_mset (\<lambda>p. pod_Phase p = PodFailed) (mset items)"
    and s: "sorted (map pod_CreationTimestamp ?failed)"
    using assms(1) by (simp_all add: by_creation_def selectFailedPods_def)
  have l: "length ?failed = length (filter (\<lambda>p. pod_Phase p = PodFailed) items)"
    using m by (metis mset_filter size_mset)
  show ?thesis
  proof (intro exI conjI)
    show "collect resort list_pods delete c w = fold (\<lambda>p w. snd (delete p w)) (take ?k ?failed) w"
      using assms(2-4) by (simp add: collect_def collect_loop_fold Let_def)
    show "mset (take ?k ?failed) + mset (drop ?k ?failed) = filter_mset (\<lambda>p. pod_Phase p = PodFailed) (mset items)"
      using m by (metis append_take_drop_id mset_append)
    show "length (drop ?k ?failed) = min 5 (length (filter (\<lambda>p. pod_Phase p = PodFailed) items))"
      using l by (simp add: PodCollectionQueueSize_def)
    show "sorted (map pod_CreationTimestamp (take ?k ?failed @ drop ?k ?failed))"
      using s by simp
  qed
qed

definition example_pods :: "pod list" where
  "example_pods = map (\<lambda>t. \<lparr>pod_Name = ''p'', pod_Phase = PodFailed, pod_CreationTimestamp = t\<rparr>) [7, 2, 3, 4, 5, 6, 1]
     @ [\<lparr>pod_Name = ''q'', pod_Phase = ''Running'', pod_CreationTimestamp = 0\<rparr>]"

lemma collected_pods_witness:
  "\<exists>deleted kept. collect (sort_key pod_CreationTimestamp) (\<lambda>l n. Inr example_pods) (\<lambda>p w. (None :: unit option, w @ [p]))
      \<lparr>gc_podLabels = [(''a'', ''b'')], gc_namespace = ''ns''\<rparr> [] = fold (\<lambda>p w. snd (None :: unit option, w @ [p])) deleted []
    \<and> length kept = 5 \<and> sorted (map pod_CreationTimestamp (deleted @ kept))"
proof -
  have "by_creation (sort_key pod_CreationTimestamp)" by (simp add: by_creation_def)
  moreover have "length (filter (\<lambda>p. pod_Phase p = PodFailed) example_pods) = 7"
    by (simp add: example_pods_def PodFailed_def)
  ultimately show ?thesis
    using collected_pods [of "sort_key pod_CreationTimestamp" "\<lparr>gc_podLabels = [(''a'', ''b'')], gc_namespace = ''ns''\<rparr>"
      "\<lambda>l n. Inr example_pods" example_pods "\<lambda>p w. (None :: unit option, w @ [p])" "[]"]
    by simp blast
qed

end
