(* ===== verification/Resource_Diff.thy ===== *)
theory Resource_Diff
  imports Kube_Types Koalja_API
begin

text \<open>
  Comparing a wanted Kubernetes resource with the actual one (\<open>pkg/util/k8s_resource_diff.go\<close>,
  \<open>pkg/util/contour_resource_diff.go\<close>).  A comparison returns a list of differences, empty when
  the resource need not be updated.  A difference keeps the path and the kind of the message, not
  the printed values.  Loops over a map take its entries in the order of their first argument.
\<close>

section \<open>Basic comparisons\<close>

datatype Diff =
    Unequal string
  | Missing string nat
  | NotFound string nat
  | Additional string
  | NotWanted string
  | Absent string

definition BoolEqual :: "string \<Rightarrow> bool \<Rightarrow> bool \<Rightarrow> Diff list" where
  "BoolEqual prefix spec actual = (if spec = actual then [] else [Unequal prefix])"

definition IntEqual :: "string \<Rightarrow> int \<Rightarrow> int \<Rightarrow> Diff list" where
  "IntEqual prefix spec actual = (if spec = actual then [] else [Unequal prefix])"

definition Int32Equal :: "string \<Rightarrow> int \<Rightarrow> int \<Rightarrow> Diff list" where
  "Int32Equal prefix spec actual = (if spec = actual then [] else [Unequal prefix])"

definition StringEqual :: "string \<Rightarrow> string \<Rightarrow> string \<Rightarrow> Diff list" where
  "StringEqual prefix spec actual = (if spec = actual then [] else [Unequal prefix])"

definition StringsEqual :: "string \<Rightarrow> string list option \<Rightarrow> string list option \<Rightarrow> Diff list" where
  "StringsEqual prefix spec actual = (if spec = actual then [] else [Unequal prefix])"

text \<open>A missing key of a Go map reads as the zero value.\<close>

definition lookup_string :: "(string, string) gomap \<Rightarrow> string \<Rightarrow> string" where
  "lookup_string m k = (case map_of m k of Some v \<Rightarrow> v | None \<Rightarrow> [])"

fun LabelsEqual :: "string \<Rightarrow> (string \<times> string) list \<Rightarrow> (string, string) gomap \<Rightarrow> Diff list" where
  "LabelsEqual prefix [] actual = []"
| "LabelsEqual prefix ((sk, sv) # spec) actual =
     (if sv \<noteq> lookup_string actual sk then [Unequal (prefix @ ''.'' @ sk)] else [])
     @ LabelsEqual prefix spec actual"

definition SelectorEqual ::
  "string \<Rightarrow> (string \<times> string) list \<Rightarrow> (string, string) gomap \<Rightarrow> Diff list" where
  "SelectorEqual prefix spec actual =
     LabelsEqual prefix spec actual
     @ (if length actual > length spec then [Additional prefix] else [])"

definition ObjectMetaEqual :: "string \<Rightarrow> object_meta \<Rightarrow> object_meta \<Rightarrow> Diff list" where
  "ObjectMetaEqual prefix spec actual =
     StringEqual (prefix @ ''.name'') (om_Name spec) (om_Name actual)
     @ StringEqual (prefix @ ''.namespace'') (om_Namespace spec) (om_Namespace actual)
     @ LabelsEqual (prefix @ ''.annotations'') (om_Annotations spec) (om_Annotations actual)
     @ LabelsEqual (prefix @ ''.labels'') (om_Labels spec) (om_Labels actual)"

section \<open>Volumes, accounts, configuration\<close>

text \<open>The code compares the printed lists of modes, which are the modes separated by spaces.\<close>

definition AccessModesEqual :: "string \<Rightarrow> string list \<Rightarrow> string list \<Rightarrow> Diff list" where
  "AccessModesEqual prefix spec actual =
     (if join_with '' '' spec \<noteq> join_with '' '' actual then [Unequal prefix] else [])"

definition PersistentVolumeSourceEqual :: "string \<Rightarrow> pv_source \<Rightarrow> pv_source \<Rightarrow> Diff list" where
  "PersistentVolumeSourceEqual prefix spec actual = (if spec \<noteq> actual then [Unequal prefix] else [])"

definition PersistentVolumeSpecEqual :: "string \<Rightarrow> pv_spec \<Rightarrow> pv_spec \<Rightarrow> Diff list" where
  "PersistentVolumeSpecEqual prefix spec actual =
     AccessModesEqual (prefix @ ''.accessModes'') (pv_AccessModes spec) (pv_AccessModes actual)
     @ PersistentVolumeSourceEqual prefix (pv_Source spec) (pv_Source actual)"

definition PersistentVolumeEqual :: "persistent_volume \<Rightarrow> persistent_volume \<Rightarrow> Diff list" where
  "PersistentVolumeEqual spec actual =
     ObjectMetaEqual ''metadata'' (pv_Meta spec) (pv_Meta actual)
     @ PersistentVolumeSpecEqual ''spec'' (pv_Spec spec) (pv_Spec actual)"

definition PersistentVolumeClaimSpecEqual :: "string \<Rightarrow> pvc_spec \<Rightarrow> pvc_spec \<Rightarrow> Diff list" where
  "PersistentVolumeClaimSpecEqual prefix spec actual =
     AccessModesEqual (prefix @ ''.accessModes'') (pvc_AccessModes spec) (pvc_AccessModes actual)
     @ StringEqual (prefix @ ''volumeName'') (pvc_VolumeName spec) (pvc_VolumeName actual)
     @ StringEqual (prefix @ ''storageClassName'') (StringOrDefault (pvc_StorageClassName spec) ''!'')
         (StringOrDefault (pvc_StorageClassName actual) ''!'')"

definition PersistentVolumeClaimEqual :: "pv_claim \<Rightarrow> pv_claim \<Rightarrow> Diff list" where
  "PersistentVolumeClaimEqual spec actual =
     ObjectMetaEqual ''metadata'' (pvc_Meta spec) (pvc_Meta actual)
     @ PersistentVolumeClaimSpecEqual ''spec'' (pvc_Spec spec) (pvc_Spec actual)"

definition ServiceAccountEqual :: "service_account \<Rightarrow> service_account \<Rightarrow> Diff list" where
  "ServiceAccountEqual spec actual = ObjectMetaEqual ''metadata'' (sa_Meta spec) (sa_Meta actual)"

fun data_diff :: "(string \<times> string) list \<Rightarrow> (string, string) gomap \<Rightarrow> Diff list" where
  "data_diff [] actual = []"
| "data_diff ((k, v) # spec) actual =
     (if v \<noteq> lookup_string actual k then [Unequal (''data['' @ k @ '']'')] else [])
     @ data_diff spec actual"

text \<open>A missing binary value is a nil slice, which \<open>DeepEqual\<close> distinguishes from an empty one.\<close>

fun binary_diff :: "(string \<times> nat list) list \<Rightarrow> (string, nat list) gomap \<Rightarrow> Diff list" where
  "binary_diff [] actual = []"
| "binary_diff ((k, v) # spec) actual =
     (if Some v \<noteq> map_of actual k then [Unequal (''binaryData['' @ k @ '']'')] else [])
     @ binary_diff spec actual"

definition ConfigMapEqual :: "config_map \<Rightarrow> config_map \<Rightarrow> Diff list" where
  "ConfigMapEqual spec actual =
     (let d = ObjectMetaEqual ''metadata'' (cm_Meta spec) (cm_Meta actual) in
      if length d > 0 then d
      else data_diff (cm_Data spec) (cm_Data actual)
        @ (if length (cm_Data actual) > length (cm_Data spec) then [Additional ''data''] else [])
        @ binary_diff (cm_BinaryData spec) (cm_BinaryData actual)
        @ (if length (cm_BinaryData actual) > length (cm_BinaryData spec)
           then [Additional ''binaryData''] else []))"

section \<open>Access control\<close>

definition PolicyRuleEqual :: "string \<Rightarrow> policy_rule \<Rightarrow> policy_rule \<Rightarrow> Diff list" where
  "PolicyRuleEqual prefix spec actual =
     StringsEqual (prefix @ ''.verbs'') (pr_Verbs spec) (pr_Verbs actual)
     @ StringsEqual (prefix @ ''.apiGroups'') (pr_APIGroups spec) (pr_APIGroups actual)
     @ StringsEqual (prefix @ ''.resources'') (pr_Resources spec) (pr_Resources actual)
     @ StringsEqual (prefix @ ''.resourceNames'') (pr_ResourceNames spec) (pr_ResourceNames actual)
     @ StringsEqual (prefix @ ''.nonResourceURLs'') (pr_NonResourceURLs spec) (pr_NonResourceURLs actual)"

text \<open>
  The inner loop of \<open>PolicyRulesEqual\<close> and \<open>SubjectsEqual\<close>: whether an actual entry matches,
  and the difference to the last actual entry before position \<open>i\<close>.
\<close>

fun find_match ::
  "('x \<Rightarrow> 'x \<Rightarrow> Diff list) \<Rightarrow> nat \<Rightarrow> 'x \<Rightarrow> nat \<Rightarrow> 'x list \<Rightarrow> Diff list \<Rightarrow> bool \<times> Diff list" where
  "find_match eq i sr j [] result = (False, result)"
| "find_match eq i sr j (ar # actual) result =
     (let diff = eq sr ar in
      if length diff = 0 then (True, result)
      else find_match eq i sr (Suc j) actual (if j < i then diff else result))"

fun all_matched ::
  "string \<Rightarrow> ('x \<Rightarrow> 'x \<Rightarrow> Diff list) \<Rightarrow> nat \<Rightarrow> 'x list \<Rightarrow> 'x list \<Rightarrow> Diff list" where
  "all_matched prefix eq i [] actual = []"
| "all_matched prefix eq i (sr # spec) actual =
     (case find_match eq i sr 0 actual [] of
        (True, result) \<Rightarrow> all_matched prefix eq (Suc i) spec actual
      | (False, result) \<Rightarrow> if length result > 0 then result else [Missing prefix i])"

definition PolicyRulesEqual :: "string \<Rightarrow> policy_rule list \<Rightarrow> policy_rule list \<Rightarrow> Diff list" where
  "PolicyRulesEqual prefix spec actual = all_matched prefix (PolicyRuleEqual prefix) 0 spec actual"

definition RoleEqual :: "role \<Rightarrow> role \<Rightarrow> Diff list" where
  "RoleEqual spec actual = ObjectMetaEqual ''metadata'' (ro_Meta spec) (ro_Meta actual)
     @ PolicyRulesEqual ''rules'' (ro_Rules spec) (ro_Rules actual)"

definition ClusterRoleEqual :: "role \<Rightarrow> role \<Rightarrow> Diff list" where
  "ClusterRoleEqual spec actual = ObjectMetaEqual ''metadata'' (ro_Meta spec) (ro_Meta actual)
     @ PolicyRulesEqual ''rules'' (ro_Rules spec) (ro_Rules actual)"

definition RoleRefEqual :: "string \<Rightarrow> role_ref \<Rightarrow> role_ref \<Rightarrow> Diff list" where
  "RoleRefEqual prefix spec actual =
     StringEqual (prefix @ ''.apiGroup'') (rr_APIGroup spec) (rr_APIGroup actual)
     @ StringEqual (prefix @ ''.kind'') (rr_Kind spec) (rr_Kind actual)
     @ StringEqual (prefix @ ''.name'') (rr_Name spec) (rr_Name actual)"

definition SubjectEqual :: "string \<Rightarrow> rbac_subject \<Rightarrow> rbac_subject \<Rightarrow> Diff list" where
  "SubjectEqual prefix spec actual =
     StringEqual (prefix @ ''.apiGroup'') (su_APIGroup spec) (su_APIGroup actual)
     @ StringEqual (prefix @ ''.kind'') (su_Kind spec) (su_Kind actual)
     @ StringEqual (prefix @ ''.name'') (su_Name spec) (su_Name actual)
     @ StringEqual (prefix @ ''.namespace'') (su_Namespace spec) (su_Namespace actual)"

definition SubjectsEqual :: "string \<Rightarrow> rbac_subject list \<Rightarrow> rbac_subject list \<Rightarrow> Diff list" where
  "SubjectsEqual prefix spec actual = all_matched prefix (SubjectEqual prefix) 0 spec actual"

definition RoleBindingEqual :: "role_binding \<Rightarrow> role_binding \<Rightarrow> Diff list" where
  "RoleBindingEqual spec actual = ObjectMetaEqual ''metadata'' (rb_Meta spec) (rb_Meta actual)
     @ SubjectsEqual ''subjects'' (rb_Subjects spec) (rb_Subjects actual)
     @ RoleRefEqual ''roleRef'' (rb_RoleRef spec) (rb_RoleRef actual)"

definition ClusterRoleBindingEqual :: "role_binding \<Rightarrow> role_binding \<Rightarrow> Diff list" where
  "ClusterRoleBindingEqual spec actual = ObjectMetaEqual ''metadata'' (rb_Meta spec) (rb_Meta actual)
     @ SubjectsEqual ''subjects'' (rb_Subjects spec) (rb_Subjects actual)
     @ RoleRefEqual ''roleRef'' (rb_RoleRef spec) (rb_RoleRef actual)"

section \<open>Workloads\<close>

definition EnvVarEqual :: "string \<Rightarrow> env_var \<Rightarrow> env_var \<Rightarrow> Diff list" where
  "EnvVarEqual prefix spec actual =
     StringEqual (prefix @ ''.name'') (ev_Name spec) (ev_Name actual)
     @ StringEqual (prefix @ ''.value'') (ev_Value spec) (ev_Value actual)"

definition indexed :: "string \<Rightarrow> nat \<Rightarrow> string" where
  "indexed prefix i = prefix @ ''.['' @ itoa i @ '']''"

text \<open>Every actual variable with the name is compared; the loop does not stop at the first.\<close>

fun env_diff :: "string \<Rightarrow> nat \<Rightarrow> env_var list \<Rightarrow> env_var list \<Rightarrow> Diff list" where
  "env_diff prefix i [] actual = []"
| "env_diff prefix i (sv # spec) actual =
     (let same = filter (\<lambda>av. ev_Name sv = ev_Name av) actual in
      concat (map (EnvVarEqual (indexed prefix i) sv) same)
      @ (if same = [] then [NotFound prefix i] else []))
     @ env_diff prefix (Suc i) spec actual"

definition EnvVarsEqual :: "string \<Rightarrow> env_var list \<Rightarrow> env_var list \<Rightarrow> Diff list" where
  "EnvVarsEqual prefix spec actual = env_diff prefix 0 spec actual
     @ (if length actual > length spec then [Additional prefix] else [])"

definition ContainerEqual :: "string \<Rightarrow> container \<Rightarrow> container \<Rightarrow> Diff list" where
  "ContainerEqual prefix spec actual =
     StringEqual (prefix @ ''.image'') (c_Image spec) (c_Image actual)
     @ StringsEqual (prefix @ ''.command'') (c_Command spec) (c_Command actual)
     @ StringsEqual (prefix @ ''.args'') (c_Args spec) (c_Args actual)
     @ EnvVarsEqual (prefix @ ''.env'') (c_Env spec) (c_Env actual)"

text \<open>The loops over named entries that stop at the first actual entry with the name.\<close>

fun named_diff ::
  "('x \<Rightarrow> string) \<Rightarrow> (string \<Rightarrow> 'x \<Rightarrow> 'x \<Rightarrow> Diff list) \<Rightarrow> string \<Rightarrow> nat \<Rightarrow> 'x list \<Rightarrow> 'x list
    \<Rightarrow> Diff list" where
  "named_diff nm eq prefix i [] actual = []"
| "named_diff nm eq prefix i (sc # spec) actual =
     (case find (\<lambda>ac. nm sc = nm ac) actual of
        Some ac \<Rightarrow> eq (indexed prefix i) sc ac
      | None \<Rightarrow> [NotFound prefix i])
     @ named_diff nm eq prefix (Suc i) spec actual"

definition ContainersEqual :: "string \<Rightarrow> container list \<Rightarrow> container list \<Rightarrow> Diff list" where
  "ContainersEqual prefix spec actual = named_diff c_Name ContainerEqual prefix 0 spec actual"

definition PodSpecEqual :: "string \<Rightarrow> pod_spec \<Rightarrow> pod_spec \<Rightarrow> Diff list" where
  "PodSpecEqual prefix spec actual =
     ContainersEqual (prefix @ ''.initContainers'') (pod_InitContainers spec) (pod_InitContainers actual)
     @ ContainersEqual (prefix @ ''.containers'') (pod_Containers spec) (pod_Containers actual)"

definition PodTemplateSpecEqual :: "string \<Rightarrow> pod_template \<Rightarrow> pod_template \<Rightarrow> Diff list" where
  "PodTemplateSpecEqual prefix spec actual =
     ObjectMetaEqual (prefix @ ''.metadata'') (pt_Meta spec) (pt_Meta actual)
     @ PodSpecEqual (prefix @ ''.spec'') (pt_Spec spec) (pt_Spec actual)"

definition StatefulSetSpecEqual :: "string \<Rightarrow> workload_spec \<Rightarrow> workload_spec \<Rightarrow> Diff list" where
  "StatefulSetSpecEqual prefix spec actual =
     PodTemplateSpecEqual (prefix @ ''.template'') (ws_Template spec) (ws_Template actual)"

definition StatefulSetEqual :: "workload \<Rightarrow> workload \<Rightarrow> Diff list" where
  "StatefulSetEqual spec actual = ObjectMetaEqual ''metadata'' (wl_Meta spec) (wl_Meta actual)
     @ StatefulSetSpecEqual ''spec'' (wl_Spec spec) (wl_Spec actual)"

definition DaemonSetSpecEqual :: "string \<Rightarrow> workload_spec \<Rightarrow> workload_spec \<Rightarrow> Diff list" where
  "DaemonSetSpecEqual prefix spec actual =
     PodTemplateSpecEqual (prefix @ ''.template'') (ws_Template spec) (ws_Template actual)"

definition DaemonSetEqual :: "workload \<Rightarrow> workload \<Rightarrow> Diff list" where
  "DaemonSetEqual spec actual = ObjectMetaEqual ''metadata'' (wl_Meta spec) (wl_Meta actual)
     @ DaemonSetSpecEqual ''spec'' (wl_Spec spec) (wl_Spec actual)"

section \<open>Services and routes\<close>

definition ServicePortEqual :: "string \<Rightarrow> service_port \<Rightarrow> service_port \<Rightarrow> Diff list" where
  "ServicePortEqual prefix spec actual =
     StringEqual (prefix @ ''.protocol'') (sp_Protocol spec) (sp_Protocol actual)
     @ Int32Equal (prefix @ ''.port'') (sp_Port spec) (sp_Port actual)
     @ StringEqual (prefix @ ''.targetPort'') (sp_TargetPort spec) (sp_TargetPort actual)
     @ Int32Equal (prefix @ ''.nodePort'') (sp_NodePort spec) (sp_NodePort actual)"

definition ServicePortsEqual :: "string \<Rightarrow> service_port list \<Rightarrow> service_port list \<Rightarrow> Diff list" where
  "ServicePortsEqual prefix spec actual = named_diff sp_Name ServicePortEqual prefix 0 spec actual"

definition ServiceSpecEqual :: "string \<Rightarrow> service_spec \<Rightarrow> service_spec \<Rightarrow> Diff list" where
  "ServiceSpecEqual prefix spec actual =
     StringEqual (prefix @ ''.type'') (ss_Type spec) (ss_Type actual)
     @ BoolEqual (prefix @ ''.publishNotReadyAddresses'') (ss_PublishNotReadyAddresses spec)
         (ss_PublishNotReadyAddresses actual)
     @ LabelsEqual (prefix @ ''.selector'') (ss_Selector spec) (ss_Selector actual)
     @ ServicePortsEqual (prefix @ ''.ports'') (ss_Ports spec) (ss_Ports actual)"

definition ServiceEqual :: "service \<Rightarrow> service \<Rightarrow> Diff list" where
  "ServiceEqual spec actual = ObjectMetaEqual ''metadata'' (sv_Meta spec) (sv_Meta actual)
     @ ServiceSpecEqual ''spec'' (sv_Spec spec) (sv_Spec actual)"

definition ContourServiceEqual :: "string \<Rightarrow> contour_service \<Rightarrow> contour_service \<Rightarrow> Diff list" where
  "ContourServiceEqual prefix spec actual =
     StringEqual (prefix @ ''.name'') (cs_Name spec) (cs_Name actual)
     @ IntEqual (prefix @ ''.port'') (cs_Port spec) (cs_Port actual)
     @ IntEqual (prefix @ ''.weight'') (cs_Weight spec) (cs_Weight actual)
     @ StringEqual (prefix @ ''.strategy'') (cs_Strategy spec) (cs_Strategy actual)"

text \<open>The loops over routes and services by position.\<close>

fun positional_diff ::
  "(string \<Rightarrow> 'x \<Rightarrow> 'x \<Rightarrow> Diff list) \<Rightarrow> string \<Rightarrow> nat \<Rightarrow> 'x list \<Rightarrow> 'x list \<Rightarrow> Diff list" where
  "positional_diff eq prefix i [] actual = (if actual = [] then [] else [Additional prefix])"
| "positional_diff eq prefix i (sr # spec) [] =
     Missing prefix i # positional_diff eq prefix (Suc i) spec []"
| "positional_diff eq prefix i (sr # spec) (ar # actual) =
     eq (prefix @ ''['' @ itoa i @ '']'') sr ar @ positional_diff eq prefix (Suc i) spec actual"

definition ContourServicesEqual ::
  "string \<Rightarrow> contour_service list \<Rightarrow> contour_service list \<Rightarrow> Diff list" where
  "ContourServicesEqual prefix spec actual = positional_diff ContourServiceEqual prefix 0 spec actual"

definition ContourRouteEqual :: "string \<Rightarrow> contour_route \<Rightarrow> contour_route \<Rightarrow> Diff list" where
  "ContourRouteEqual prefix spec actual =
     StringEqual (prefix @ ''.match'') (cr_Match spec) (cr_Match actual)
     @ BoolEqual (prefix @ ''.enableWebsockets'') (cr_EnableWebsockets spec) (cr_EnableWebsockets actual)
     @ BoolEqual (prefix @ ''.permitInsecure'') (cr_PermitInsecure spec) (cr_PermitInsecure actual)
     @ StringEqual (prefix @ ''.prefixRewrite'') (cr_PrefixRewrite spec) (cr_PrefixRewrite actual)
     @ ContourServicesEqual (prefix @ ''.services'') (cr_Services spec) (cr_Services actual)"

definition ContourRoutesEqual :: "string \<Rightarrow> contour_route list \<Rightarrow> contour_route list \<Rightarrow> Diff list" where
  "ContourRoutesEqual prefix spec actual = positional_diff ContourRouteEqual prefix 0 spec actual"

definition TLSEqual :: "string \<Rightarrow> contour_tls option \<Rightarrow> contour_tls option \<Rightarrow> Diff list" where
  "TLSEqual prefix spec actual =
     (case (spec, actual) of
        (None, None) \<Rightarrow> []
      | (None, Some a) \<Rightarrow> [NotWanted prefix]
      | (Some s, None) \<Rightarrow> [Absent prefix]
      | (Some s, Some a) \<Rightarrow>
          StringEqual (prefix @ ''.secretName'') (tls_SecretName s) (tls_SecretName a)
          @ StringEqual (prefix @ ''.minimumProtocolVersion'') (tls_MinimumProtocolVersion s)
              (tls_MinimumProtocolVersion a))"

definition VirtualHostEqual :: "string \<Rightarrow> virtual_host option \<Rightarrow> virtual_host option \<Rightarrow> Diff list" where
  "VirtualHostEqual prefix spec actual =
     (case (spec, actual) of
        (None, None) \<Rightarrow> []
      | (None, Some a) \<Rightarrow> [NotWanted prefix]
      | (Some s, None) \<Rightarrow> [Absent prefix]
      | (Some s, Some a) \<Rightarrow>
          StringEqual (prefix @ ''.fqdn'') (vh_Fqdn s) (vh_Fqdn a)
          @ TLSEqual (prefix @ ''.tls'') (vh_TLS s) (vh_TLS a))"

definition IngressRouteSpecEqual :: "string \<Rightarrow> ingress_route_spec \<Rightarrow> ingress_route_spec \<Rightarrow> Diff list" where
  "IngressRouteSpecEqual prefix spec actual =
     VirtualHostEqual (prefix @ ''.virtualhost'') (ir_VirtualHost spec) (ir_VirtualHost actual)
     @ ContourRoutesEqual (prefix @ ''.routes'') (ir_Routes spec) (ir_Routes actual)"

definition IngressRouteEqual :: "ingress_route \<Rightarrow> ingress_route \<Rightarrow> Diff list" where
  "IngressRouteEqual spec actual = ObjectMetaEqual ''metadata'' (ir_Meta spec) (ir_Meta actual)
     @ IngressRouteSpecEqual ''spec'' (ir_Spec spec) (ir_Spec actual)"

end
