(* ===== verification/Ensure.thy ===== *)
theory Ensure
  imports Resource_Diff
begin

text \<open>
  Creating or updating Kubernetes resources (\<open>pkg/util/k8s_resources.go\<close>,
  \<open>pkg/util/contour_resources.go\<close>).  The API server is a parameter: a client with its \<open>Get\<close>,
  \<open>Create\<close> and \<open>Update\<close> calls on the world \<open>'w\<close>.  Each \<open>Ensure...\<close> function of
  the code has the same shape, \<open>ensure\<close>, with its own comparison and its own fields to write back.
\<close>

section \<open>The API client\<close>

datatype api_error = ApiFailure string

datatype 'o api_get = ApiNotFound | ApiError api_error | ApiFound 'o

record ('o, 'w) kube_client =
  kc_Get :: "string \<Rightarrow> string \<Rightarrow> 'w \<Rightarrow> 'o api_get"
  kc_Create :: "'o \<Rightarrow> 'w \<Rightarrow> api_error error_only \<times> 'w"
  kc_Update :: "'o \<Rightarrow> 'w \<Rightarrow> api_error error_only \<times> 'w"

definition ensure ::
  "('o \<Rightarrow> 'o \<Rightarrow> Diff list) \<Rightarrow> ('o \<Rightarrow> 'o \<Rightarrow> 'o) \<Rightarrow> string \<Rightarrow> string \<Rightarrow> ('o, 'w) kube_client
    \<Rightarrow> 'o \<Rightarrow> 'w \<Rightarrow> api_error error_only \<times> 'w" where
  "ensure differ write_back name namespace client obj w =
     (case kc_Get client name namespace w of
        ApiNotFound \<Rightarrow> kc_Create client obj w
      | ApiError e \<Rightarrow> (Some e, w)
      | ApiFound found \<Rightarrow>
          if length (differ obj found) > 0 then kc_Update client (write_back obj found) w
          else (None, w))"

section \<open>The resources\<close>

definition write_config_map :: "config_map \<Rightarrow> config_map \<Rightarrow> config_map" where
  "write_config_map cm found = found\<lparr>cm_Data := cm_Data cm, cm_BinaryData := cm_BinaryData cm\<rparr>"

definition EnsureConfigMap ::
  "(config_map, 'w) kube_client \<Rightarrow> config_map \<Rightarrow> 'w \<Rightarrow> api_error error_only \<times> 'w" where
  "EnsureConfigMap client cm w =
     ensure ConfigMapEqual write_config_map (om_Name (cm_Meta cm)) (om_Namespace (cm_Meta cm)) client cm w"

definition write_role :: "role \<Rightarrow> role \<Rightarrow> role" where
  "write_role r found = found\<lparr>ro_Rules := ro_Rules r\<rparr>"

definition EnsureRole ::
  "(role, 'w) kube_client \<Rightarrow> role \<Rightarrow> 'w \<Rightarrow> api_error error_only \<times> 'w" where
  "EnsureRole client r w =
     ensure RoleEqual write_role (om_Name (ro_Meta r)) (om_Namespace (ro_Meta r)) client r w"

definition EnsureClusterRole ::
  "(role, 'w) kube_client \<Rightarrow> role \<Rightarrow> 'w \<Rightarrow> api_error error_only \<times> 'w" where
  "EnsureClusterRole client r w =
     ensure ClusterRoleEqual write_role (om_Name (ro_Meta r)) (om_Namespace (ro_Meta r)) client r w"

definition write_role_binding :: "role_binding \<Rightarrow> role_binding \<Rightarrow> role_binding" where
  "write_role_binding rb found = found\<lparr>rb_Subjects := rb_Subjects rb, rb_RoleRef := rb_RoleRef rb\<rparr>"

definition EnsureRoleBinding ::
  "(role_binding, 'w) kube_client \<Rightarrow> role_binding \<Rightarrow> 'w \<Rightarrow> api_error error_only \<times> 'w" where
  "EnsureRoleBinding client rb w =
     ensure RoleBindingEqual write_role_binding (om_Name (rb_Meta rb)) (om_Namespace (rb_Meta rb)) client rb w"

definition EnsureClusterRoleBinding ::
  "(role_binding, 'w) kube_client \<Rightarrow> role_binding \<Rightarrow> 'w \<Rightarrow> api_error error_only \<times> 'w" where
  "EnsureClusterRoleBinding client rb w =
     ensure ClusterRoleBindingEqual write_role_binding (om_Name (rb_Meta rb)) (om_Namespace (rb_Meta rb))
       client rb w"

text \<open>The address of the service, which the API server chooses, is kept.\<close>

definition write_service :: "service \<Rightarrow> service \<Rightarrow> service" where
  "write_service s found =
     found\<lparr>sv_Spec := (sv_Spec s)\<lparr>ss_ClusterIP := ss_ClusterIP (sv_Spec found)\<rparr>\<rparr>"

definition EnsureService ::
  "(service, 'w) kube_client \<Rightarrow> service \<Rightarrow> 'w \<Rightarrow> api_error error_only \<times> 'w" where
  "EnsureService client s w =
     ensure ServiceEqual write_service (om_Name (sv_Meta s)) (om_Namespace (sv_Meta s)) client s w"

definition write_service_account :: "service_account \<Rightarrow> service_account \<Rightarrow> service_account" where
  "write_service_account sa found = found
     \<lparr>sa_Secrets := sa_Secrets sa, sa_ImagePullSecrets := sa_ImagePullSecrets sa,
      sa_AutomountServiceAccountToken := sa_AutomountServiceAccountToken sa\<rparr>"

definition EnsureServiceAccount ::
  "(service_account, 'w) kube_client \<Rightarrow> service_account \<Rightarrow> 'w \<Rightarrow> api_error error_only \<times> 'w" where
  "EnsureServiceAccount client sa w =
     ensure ServiceAccountEqual write_service_account (om_Name (sa_Meta sa)) (om_Namespace (sa_Meta sa))
       client sa w"

definition write_workload :: "workload \<Rightarrow> workload \<Rightarrow> workload" where
  "write_workload s found = found\<lparr>wl_Spec := wl_Spec s\<rparr>"

definition EnsureStatefulSet ::
  "(workload, 'w) kube_client \<Rightarrow> workload \<Rightarrow> 'w \<Rightarrow> api_error error_only \<times> 'w" where
  "EnsureStatefulSet client s w =
     ensure StatefulSetEqual write_workload (om_Name (wl_Meta s)) (om_Namespace (wl_Meta s)) client s w"

definition EnsureDaemonSet ::
  "(workload, 'w) kube_client \<Rightarrow> workload \<Rightarrow> 'w \<Rightarrow> api_error error_only \<times> 'w" where
  "EnsureDaemonSet client s w =
     ensure DaemonSetEqual write_workload (om_Name (wl_Meta s)) (om_Namespace (wl_Meta s)) client s w"

definition write_persistent_volume :: "persistent_volume \<Rightarrow> persistent_volume \<Rightarrow> persistent_volume" where
  "write_persistent_volume pv found = found\<lparr>pv_Spec := pv_Spec pv\<rparr>"

text \<open>Persistent volumes have no namespace.\<close>

definition EnsurePersistentVolume ::
  "(persistent_volume, 'w) kube_client \<Rightarrow> persistent_volume \<Rightarrow> 'w \<Rightarrow> api_error error_only \<times> 'w" where
  "EnsurePersistentVolume client pv w =
     ensure PersistentVolumeEqual write_persistent_volume (om_Name (pv_Meta pv)) [] client pv w"

definition write_pv_claim :: "pv_claim \<Rightarrow> pv_claim \<Rightarrow> pv_claim" where
  "write_pv_claim pvc found = found\<lparr>pvc_Spec := pvc_Spec pvc\<rparr>"

definition EnsurePersistentVolumeClaim ::
  "(pv_claim, 'w) kube_client \<Rightarrow> pv_claim \<Rightarrow> 'w \<Rightarrow> api_error error_only \<times> 'w" where
  "EnsurePersistentVolumeClaim client pvc w =
     ensure PersistentVolumeClaimEqual write_pv_claim (om_Name (pvc_Meta pvc)) (om_Namespace (pvc_Meta pvc))
       client pvc w"

definition write_ingress_route :: "ingress_route \<Rightarrow> ingress_route \<Rightarrow> ingress_route" where
  "write_ingress_route r found = found\<lparr>ir_Spec := ir_Spec r\<rparr>"

definition EnsureIngressRoute ::
  "(ingress_route, 'w) kube_client \<Rightarrow> ingress_route \<Rightarrow> 'w \<Rightarrow> api_error error_only \<times> 'w" where
  "EnsureIngressRoute client r w =
     ensure IngressRouteEqual write_ingress_route (om_Name (ir_Meta r)) (om_Namespace (ir_Meta r)) client r w"

section \<open>A resource equals itself\<close>

definition meta_wf :: "object_meta \<Rightarrow> bool" where
  "meta_wf m \<longleftrightarrow> gomap_ok (om_Labels m) \<and> gomap_ok (om_Annotations m)"

definition meta_agrees :: "object_meta \<Rightarrow> object_meta \<Rightarrow> bool" where
  "meta_agrees spec actual \<longleftrightarrow> ObjectMetaEqual ''metadata'' spec actual = []"

lemma basic_equal [simp]:
  "BoolEqual p x x = []" "IntEqual p i i = []" "Int32Equal p i i = []" "StringEqual p s s = []"
  "StringsEqual p l l = []" "AccessModesEqual p a a = []" "PersistentVolumeSourceEqual p v v = []"
  by (simp_all add: BoolEqual_def IntEqual_def Int32Equal_def StringEqual_def StringsEqual_def
      AccessModesEqual_def PersistentVolumeSourceEqual_def)

lemma LabelsEqual_Nil:
  "LabelsEqual p spec actual = [] \<longleftrightarrow> (\<forall>(k, v) \<in> set spec. v = lookup_string actual k)"
  by (induction spec) (auto split: if_splits)

lemma LabelsEqual_self [simp]: "gomap_ok m \<Longrightarrow> LabelsEqual p m m = []"
  by (auto simp: LabelsEqual_Nil lookup_string_def gomap_ok_def)

lemma StringEqual_Nil: "StringEqual p a b = [] \<longleftrightarrow> a = b"
  by (simp add: StringEqual_def)

lemma ObjectMetaEqual_path: "ObjectMetaEqual p a b = [] \<longleftrightarrow> meta_agrees a b"
  by (auto simp: meta_agrees_def ObjectMetaEqual_def LabelsEqual_Nil StringEqual_Nil)

lemma meta_agrees_self [simp]: "meta_wf m \<Longrightarrow> meta_agrees m m"
  by (simp add: meta_wf_def meta_agrees_def ObjectMetaEqual_def)

lemma find_match_iff: "fst (find_match eq i sr j actual r) \<longleftrightarrow> (\<exists>ar \<in> set actual. eq sr ar = [])"
  by (induction eq i sr j actual r rule: find_match.induct) (auto simp: Let_def)

lemma all_matched_Nil:
  "(\<And>sr. sr \<in> set spec \<Longrightarrow> \<exists>ar \<in> set actual. eq sr ar = []) \<Longrightarrow> all_matched p eq i spec actual = []"
proof (induction spec arbitrary: i)
  case (Cons sr spec)
  have "fst (find_match eq i sr 0 actual [])" using Cons.prems [of sr] by (simp add: find_match_iff)
  then obtain r where "find_match eq i sr 0 actual [] = (True, r)" by (metis prod.collapse)
  with Cons show ?case by simp
qed simp

lemma PolicyRulesEqual_self [simp]: "PolicyRulesEqual p rs rs = []"
  unfolding PolicyRulesEqual_def
  by (rule all_matched_Nil, rule bexI) (simp_all add: PolicyRuleEqual_def)

lemma SubjectsEqual_self [simp]: "SubjectsEqual p ss ss = []"
  unfolding SubjectsEqual_def
  by (rule all_matched_Nil, rule bexI) (simp_all add: SubjectEqual_def)

lemma RoleRefEqual_self [simp]: "RoleRefEqual p r r = []"
  by (simp add: RoleRefEqual_def)

lemma find_same_name:
  assumes "distinct (map nm xs)" and "x \<in> set xs"
  shows "find (\<lambda>y. nm x = nm y) xs = Some x"
proof -
  have "find (\<lambda>y. nm x = nm y) xs \<noteq> None" using assms(2) by (auto simp: find_None_all)
  then obtain y where y: "find (\<lambda>y. nm x = nm y) xs = Some y" by auto
  then show ?thesis using find_SomeD [OF y] distinct_same_element [OF assms(1)] assms(2) by metis
qed

lemma named_diff_Nil:
  assumes "distinct (map nm actual)" and "set spec \<subseteq> set actual"
    and "\<And>p x. x \<in> set spec \<Longrightarrow> eq p x x = []"
  shows "named_diff nm eq p i spec actual = []"
  using assms(2,3)
proof (induction spec arbitrary: i)
  case (Cons sc spec)
  then show ?case using find_same_name [OF assms(1), of sc] by simp
qed simp

definition env_wf :: "container \<Rightarrow> bool" where
  "env_wf c \<longleftrightarrow> distinct (map ev_Name (c_Env c))"

lemma env_diff_Nil:
  assumes "distinct (map ev_Name actual)" and "set spec \<subseteq> set actual"
  shows "env_diff p i spec actual = []"
  using assms(2)
proof (induction spec arbitrary: i)
  case (Cons sv spec)
  have "ev_Name sv = ev_Name av \<Longrightarrow> av \<in> set actual \<Longrightarrow> av = sv" for av
    using distinct_same_element [OF assms(1)] Cons.prems by simp
  then have "\<forall>av \<in> set (filter (\<lambda>av. ev_Name sv = ev_Name av) actual). av = sv" by simp
  then have "\<forall>av \<in> set (filter (\<lambda>av. ev_Name sv = ev_Name av) actual). EnvVarEqual (indexed p i) sv av = []"
    by (auto simp: EnvVarEqual_def)
  moreover have "filter (\<lambda>av. ev_Name sv = ev_Name av) actual \<noteq> []"
    using Cons.prems by (auto simp: filter_empty_conv)
  ultimately show ?case using Cons by (simp add: Let_def)
qed simp

lemma ContainerEqual_self: "env_wf c \<Longrightarrow> ContainerEqual p c c = []"
  by (simp add: ContainerEqual_def EnvVarsEqual_def env_wf_def env_diff_Nil)

definition containers_wf :: "container list \<Rightarrow> bool" where
  "containers_wf cs \<longleftrightarrow> distinct (map c_Name cs) \<and> list_all env_wf cs"

lemma ContainersEqual_self [simp]: "containers_wf cs \<Longrightarrow> ContainersEqual p cs cs = []"
  unfolding ContainersEqual_def
  by (rule named_diff_Nil) (auto simp: containers_wf_def list_all_iff ContainerEqual_self)

definition template_wf :: "pod_template \<Rightarrow> bool" where
  "template_wf t \<longleftrightarrow> meta_wf (pt_Meta t) \<and> containers_wf (pod_InitContainers (pt_Spec t))
     \<and> containers_wf (pod_Containers (pt_Spec t))"

lemma PodTemplateSpecEqual_self [simp]: "template_wf t \<Longrightarrow> PodTemplateSpecEqual p t t = []"
  by (simp add: PodTemplateSpecEqual_def PodSpecEqual_def template_wf_def ObjectMetaEqual_path)

lemma positional_diff_self: "(\<And>p x. x \<in> set xs \<Longrightarrow> eq p x x = []) \<Longrightarrow> positional_diff eq p i xs xs = []"
  by (induction xs arbitrary: i) auto

lemma IngressRouteSpecEqual_self [simp]: "IngressRouteSpecEqual p s s = []"
proof -
  have sv: "ContourServicesEqual p ss ss = []" for p ss
    unfolding ContourServicesEqual_def by (rule positional_diff_self) (simp add: ContourServiceEqual_def)
  have rt: "ContourRoutesEqual p rs rs = []" for p rs
    unfolding ContourRoutesEqual_def by (rule positional_diff_self) (simp add: ContourRouteEqual_def sv)
  have "TLSEqual p t t = []" for p t by (simp add: TLSEqual_def split: option.split)
  then have "VirtualHostEqual p v v = []" for p v
    by (simp add: VirtualHostEqual_def split: option.split)
  then show ?thesis by (simp add: IngressRouteSpecEqual_def rt)
qed

lemma data_diff_self: "gomap_ok m \<Longrightarrow> set xs \<subseteq> set m \<Longrightarrow> data_diff xs m = []"
  by (induction xs) (auto simp: lookup_string_def gomap_ok_def)

lemma binary_diff_self: "gomap_ok m \<Longrightarrow> set xs \<subseteq> set m \<Longrightarrow> binary_diff xs m = []"
  by (induction xs) (auto simp: gomap_ok_def)

section \<open>The interface of a resource\<close>

text \<open>
  What makes \<open>ensure\<close> converge: a well-formed resource equals itself, writing back keeps the
  metadata of the found object, and removes every difference when the metadata agrees; a difference
  in the metadata always shows.
\<close>

locale ensured =
  fixes differ :: "'o \<Rightarrow> 'o \<Rightarrow> Diff list" and write_back :: "'o \<Rightarrow> 'o \<Rightarrow> 'o"
    and meta :: "'o \<Rightarrow> object_meta" and wf :: "'o \<Rightarrow> bool"
  assumes differ_self: "wf obj \<Longrightarrow> differ obj obj = []"
    and meta_kept: "meta (write_back obj found) = meta found"
    and written_equal: "wf obj \<Longrightarrow> meta_agrees (meta obj) (meta found) \<Longrightarrow> differ obj (write_back obj found) = []"
    and meta_shows: "\<not> meta_agrees (meta obj) (meta found) \<Longrightarrow> differ obj found \<noteq> []"

text \<open>A client that reads its own writes: documented behaviour of the API server for one writer,
  for the object with the given name and namespace.\<close>

definition reads_writes :: "('o, 'w) kube_client \<Rightarrow> string \<Rightarrow> string \<Rightarrow> bool" where
  "reads_writes client name namespace \<longleftrightarrow>
     (\<forall>obj w w'. kc_Create client obj w = (None, w') \<longrightarrow> kc_Get client name namespace w' = ApiFound obj)
     \<and> (\<forall>obj w w'. kc_Update client obj w = (None, w') \<longrightarrow> kc_Get client name namespace w' = ApiFound obj)"

context ensured
begin

lemma settled:
  assumes "kc_Get client n ns w = ApiFound found" and "differ obj found = []"
  shows "ensure differ write_back n ns client obj w = (None, w)"
  using assms by (simp add: ensure_def)

lemma converges:
  assumes rw: "reads_writes client n ns" and wf: "wf obj"
    and agrees: "\<And>found. kc_Get client n ns w = ApiFound found \<Longrightarrow> meta_agrees (meta obj) (meta found)"
    and ok: "ensure differ write_back n ns client obj w = (None, w')"
  shows "ensure differ write_back n ns client obj w' = (None, w')"
proof (cases "kc_Get client n ns w")
  case ApiNotFound
  then have "kc_Create client obj w = (None, w')" using ok by (simp add: ensure_def)
  then have "kc_Get client n ns w' = ApiFound obj" using rw by (simp add: reads_writes_def)
  then show ?thesis by (rule settled) (rule differ_self [OF wf])
next
  case (ApiError e)
  then show ?thesis using ok by (simp add: ensure_def)
next
  case (ApiFound found)
  show ?thesis
  proof (cases "differ obj found = []")
    case True
    then show ?thesis using ok ApiFound by (simp add: ensure_def)
  next
    case False
    then have "kc_Update client (write_back obj found) w = (None, w')"
      using ok ApiFound by (simp add: ensure_def)
    then have "kc_Get client n ns w' = ApiFound (write_back obj found)"
      using rw by (simp add: reads_writes_def)
    then show ?thesis by (rule settled) (rule written_equal [OF wf agrees [OF ApiFound]])
  qed
qed

lemma meta_difference_stays:
  assumes rw: "reads_writes client n ns" and found: "kc_Get client n ns w = ApiFound found"
    and diff: "\<not> meta_agrees (meta obj) (meta found)"
    and ok: "ensure differ write_back n ns client obj w = (None, w')"
  shows "\<exists>found'. kc_Get client n ns w' = ApiFound found' \<and> meta found' = meta found
    \<and> ensure differ write_back n ns client obj w' = kc_Update client (write_back obj found') w'"
proof -
  have upd: "ensure differ write_back n ns client obj w = kc_Update client (write_back obj found) w"
    using found meta_shows [OF diff] by (simp add: ensure_def)
  then have g: "kc_Get client n ns w' = ApiFound (write_back obj found)"
    using rw ok by (simp add: reads_writes_def)
  then show ?thesis
    using meta_shows [of obj "write_back obj found"] diff by (simp add: ensure_def meta_kept)
qed

end

text \<open>Every resource of the code implements the interface.\<close>

definition config_map_wf :: "config_map \<Rightarrow> bool" where
  "config_map_wf cm \<longleftrightarrow> meta_wf (cm_Meta cm) \<and> gomap_ok (cm_Data cm) \<and> gomap_ok (cm_BinaryData cm)"

definition service_wf :: "service \<Rightarrow> bool" where
  "service_wf s \<longleftrightarrow> meta_wf (sv_Meta s) \<and> gomap_ok (ss_Selector (sv_Spec s))
     \<and> distinct (map sp_Name (ss_Ports (sv_Spec s)))"

definition workload_wf :: "workload \<Rightarrow> bool" where
  "workload_wf s \<longleftrightarrow> meta_wf (wl_Meta s) \<and> template_wf (ws_Template (wl_Spec s))"

lemma ServicePortsEqual_self [simp]: "distinct (map sp_Name ps) \<Longrightarrow> ServicePortsEqual p ps ps = []"
  unfolding ServicePortsEqual_def by (rule named_diff_Nil) (auto simp: ServicePortEqual_def)

interpretation config_maps: ensured ConfigMapEqual write_config_map cm_Meta config_map_wf
  by unfold_locales
     (auto simp: ConfigMapEqual_def write_config_map_def config_map_wf_def ObjectMetaEqual_path
       data_diff_self binary_diff_self Let_def)

interpretation roles: ensured RoleEqual write_role ro_Meta "\<lambda>r. meta_wf (ro_Meta r)"
  by unfold_locales (auto simp: RoleEqual_def write_role_def ObjectMetaEqual_path)

interpretation cluster_roles: ensured ClusterRoleEqual write_role ro_Meta "\<lambda>r. meta_wf (ro_Meta r)"
  by unfold_locales (auto simp: ClusterRoleEqual_def write_role_def ObjectMetaEqual_path)

interpretation role_bindings: ensured RoleBindingEqual write_role_binding rb_Meta "\<lambda>r. meta_wf (rb_Meta r)"
  by unfold_locales (auto simp: RoleBindingEqual_def write_role_binding_def ObjectMetaEqual_path)

interpretation cluster_role_bindings:
  ensured ClusterRoleBindingEqual write_role_binding rb_Meta "\<lambda>r. meta_wf (rb_Meta r)"
  by unfold_locales (auto simp: ClusterRoleBindingEqual_def write_role_binding_def ObjectMetaEqual_path)

interpretation services: ensured ServiceEqual write_service sv_Meta service_wf
  by unfold_locales
     (auto simp: ServiceEqual_def ServiceSpecEqual_def write_service_def service_wf_def ObjectMetaEqual_path)

interpretation service_accounts:
  ensured ServiceAccountEqual write_service_account sa_Meta "\<lambda>a. meta_wf (sa_Meta a)"
  by unfold_locales (auto simp: ServiceAccountEqual_def write_service_account_def ObjectMetaEqual_path)

interpretation stateful_sets: ensured StatefulSetEqual write_workload wl_Meta workload_wf
  by unfold_locales
     (auto simp: StatefulSetEqual_def StatefulSetSpecEqual_def write_workload_def workload_wf_def
       ObjectMetaEqual_path)

interpretation daemon_sets: ensured DaemonSetEqual write_workload wl_Meta workload_wf
  by unfold_locales
     (auto simp: DaemonSetEqual_def DaemonSetSpecEqual_def write_workload_def workload_wf_def
       ObjectMetaEqual_path)

interpretation persistent_volumes:
  ensured PersistentVolumeEqual write_persistent_volume pv_Meta "\<lambda>v. meta_wf (pv_Meta v)"
  by unfold_locales
     (auto simp: PersistentVolumeEqual_def PersistentVolumeSpecEqual_def write_persistent_volume_def
       ObjectMetaEqual_path)

interpretation pv_claims:
  ensured PersistentVolumeClaimEqual write_pv_claim pvc_Meta "\<lambda>v. meta_wf (pvc_Meta v)"
  by unfold_locales
     (auto simp: PersistentVolumeClaimEqual_def PersistentVolumeClaimSpecEqual_def write_pv_claim_def
       ObjectMetaEqual_path)

interpretation ingress_routes:
  ensured IngressRouteEqual write_ingress_route ir_Meta "\<lambda>r. meta_wf (ir_Meta r)"
  by unfold_locales (auto simp: IngressRouteEqual_def write_ingress_route_def ObjectMetaEqual_path)

section \<open>Convergence of every resource\<close>

text \<open>
  A function settles when, once it has succeeded on a well-formed resource whose metadata agrees
  with the one found, calling it again changes nothing and calls neither \<open>Create\<close> nor \<open>Update\<close>.
\<close>

definition settles ::
  "(('o, 'w) kube_client \<Rightarrow> 'o \<Rightarrow> 'w \<Rightarrow> api_error error_only \<times> 'w) \<Rightarrow> ('o \<Rightarrow> object_meta)
    \<Rightarrow> ('o \<Rightarrow> string) \<Rightarrow> ('o \<Rightarrow> bool) \<Rightarrow> bool" where
  "settles ens meta ns valid \<longleftrightarrow>
     (\<forall>client obj w w'. reads_writes client (om_Name (meta obj)) (ns obj) \<longrightarrow> valid obj
        \<longrightarrow> (\<forall>found. kc_Get client (om_Name (meta obj)) (ns obj) w = ApiFound found
              \<longrightarrow> meta_agrees (meta obj) (meta found))
        \<longrightarrow> ens client obj w = (None, w') \<longrightarrow> ens client obj w' = (None, w'))"

lemma settles_I:
  assumes "\<And>client obj w. ens client obj w = ensure differ write_back (om_Name (meta obj)) (ns obj) client obj w"
    and "ensured differ write_back meta valid"
  shows "settles ens meta ns valid"
  unfolding settles_def assms(1)
  by (intro allI impI, rule ensured.converges [OF assms(2)]) auto

lemmas ensure_defs =
  EnsureConfigMap_def EnsureRole_def EnsureClusterRole_def EnsureRoleBinding_def
  EnsureClusterRoleBinding_def EnsureService_def EnsureServiceAccount_def EnsureStatefulSet_def
  EnsureDaemonSet_def EnsurePersistentVolume_def EnsurePersistentVolumeClaim_def EnsureIngressRoute_def

section \<open>Properties\<close>

text \<open>Creating or updating any of the twelve kinds of resources is idempotent: against an API
  server that returns what was last written, a second call after a successful one makes no write,
  provided the metadata of an object found first agrees with the wanted metadata.\<close>

theorem ensure_converges:
  "settles EnsureConfigMap cm_Meta (\<lambda>x. om_Namespace (cm_Meta x)) config_map_wf
   \<and> settles EnsureRole ro_Meta (\<lambda>x. om_Namespace (ro_Meta x)) (\<lambda>x. meta_wf (ro_Meta x))
   \<and> settles EnsureClusterRole ro_Meta (\<lambda>x. om_Namespace (ro_Meta x)) (\<lambda>x. meta_wf (ro_Meta x))
   \<and> settles EnsureRoleBinding rb_Meta (\<lambda>x. om_Namespace (rb_Meta x)) (\<lambda>x. meta_wf (rb_Meta x))
   \<and> settles EnsureClusterRoleBinding rb_Meta (\<lambda>x. om_Namespace (rb_Meta x)) (\<lambda>x. meta_wf (rb_Meta x))
   \<and> settles EnsureService sv_Meta (\<lambda>x. om_Namespace (sv_Meta x)) service_wf
   \<and> settles EnsureServiceAccount sa_Meta (\<lambda>x. om_Namespace (sa_Meta x)) (\<lambda>x. meta_wf (sa_Meta x))
   \<and> settles EnsureStatefulSet wl_Meta (\<lambda>x. om_Namespace (wl_Meta x)) workload_wf
   \<and> settles EnsureDaemonSet wl_Meta (\<lambda>x. om_Namespace (wl_Meta x)) workload_wf
   \<and> settles EnsurePersistentVolume pv_Meta (\<lambda>x. []) (\<lambda>x. meta_wf (pv_Meta x))
   \<and> settles EnsurePersistentVolumeClaim pvc_Meta (\<lambda>x. om_Namespace (pvc_Meta x)) (\<lambda>x. meta_wf (pvc_Meta x))
   \<and> settles EnsureIngressRoute ir_Meta (\<lambda>x. om_Namespace (ir_Meta x)) (\<lambda>x. meta_wf (ir_Meta x))"
  by (intro conjI; rule settles_I, (simp only: ensure_defs), unfold_locales)

text \<open>A difference in the metadata is never repaired: when a label or annotation of a stateful
  set or service changes, every call writes the object back with its old metadata and the next call
  finds the same difference and writes again.\<close>

theorem ensure_metadata_never_settles:
  assumes "reads_writes client (om_Name (wl_Meta obj)) (om_Namespace (wl_Meta obj))"
    and "kc_Get client (om_Name (wl_Meta obj)) (om_Namespace (wl_Meta obj)) w = ApiFound found"
    and "\<not> meta_agrees (wl_Meta obj) (wl_Meta found)"
    and "EnsureStatefulSet client obj w = (None, w')"
  shows "\<exists>found'. kc_Get client (om_Name (wl_Meta obj)) (om_Namespace (wl_Meta obj)) w' = ApiFound found'
    \<and> wl_Meta found' = wl_Meta found
    \<and> EnsureStatefulSet client obj w' = kc_Update client (write_workload obj found') w'"
  using stateful_sets.meta_difference_stays [OF assms(1-3)] assms(4) by (simp add: EnsureStatefulSet_def)

definition store_client :: "(workload, workload option) kube_client" where
  "store_client = \<lparr>kc_Get = (\<lambda>n ns w. case w of None \<Rightarrow> ApiNotFound | Some obj \<Rightarrow> ApiFound obj),
     kc_Create = (\<lambda>obj w. (None, Some obj)), kc_Update = (\<lambda>obj w. (None, Some obj))\<rparr>"

definition example_workload :: "string \<Rightarrow> workload" where
  "example_workload v = \<lparr>wl_Meta = \<lparr>om_Name = ''agent'', om_Namespace = ''ns'',
       om_Labels = [(''version'', v)], om_Annotations = [], om_Owners = []\<rparr>,
     wl_Spec = \<lparr>ws_Template = \<lparr>pt_Meta = \<lparr>om_Name = [], om_Namespace = [], om_Labels = [],
         om_Annotations = [], om_Owners = []\<rparr>,
       pt_Spec = \<lparr>pod_InitContainers = [], pod_Containers = [], pod_ServiceAccountName = [],
         pod_RestartPolicy = [], pod_Volumes = []\<rparr>\<rparr>, ws_ServiceName = [], ws_Replicas = None, ws_Selector = []\<rparr>\<rparr>"

lemma store_client_reads: "reads_writes store_client n ns"
  by (auto simp: reads_writes_def store_client_def)

lemma ensure_metadata_never_settles_witness:
  "\<exists>w'. EnsureStatefulSet store_client (example_workload ''2'') (Some (example_workload ''1'')) = (None, w')
     \<and> (\<exists>found'. EnsureStatefulSet store_client (example_workload ''2'') w' =
          kc_Update store_client (write_workload (example_workload ''2'') found') w')"
proof -
  have g: "kc_Get store_client (om_Name (wl_Meta (example_workload ''2'')))
      (om_Namespace (wl_Meta (example_workload ''2''))) (Some (example_workload ''1'')) =
      ApiFound (example_workload ''1'')"
    by (simp add: store_client_def)
  have d: "\<not> meta_agrees (wl_Meta (example_workload ''2'')) (wl_Meta (example_workload ''1''))"
    by (simp add: meta_agrees_def ObjectMetaEqual_def example_workload_def lookup_string_def StringEqual_def)
  have u: "EnsureStatefulSet store_client (example_workload ''2'') (Some (example_workload ''1'')) =
      (None, Some (write_workload (example_workload ''2'') (example_workload ''1'')))"
    using stateful_sets.meta_shows [OF d]
    by (simp add: EnsureStatefulSet_def ensure_def store_client_def)
  from ensure_metadata_never_settles [OF store_client_reads g d u] u show ?thesis by blast
qed

text \<open>The comparison of roles only asks that every wanted rule exists: additional rules of the
  actual role are not a difference, so \<open>EnsureRole\<close> leaves permissions that the specification does
  not have.\<close>

theorem role_extra_rules_stay:
  assumes "kc_Get client (om_Name (ro_Meta r)) (om_Namespace (ro_Meta r)) w = ApiFound found"
    and "meta_agrees (ro_Meta r) (ro_Meta found)" and "set (ro_Rules r) \<subseteq> set (ro_Rules found)"
  shows "EnsureRole client r w = (None, w)"
proof -
  have "PolicyRulesEqual ''rules'' (ro_Rules r) (ro_Rules found) = []"
    unfolding PolicyRulesEqual_def
  proof (rule all_matched_Nil)
    fix sr assume "sr \<in> set (ro_Rules r)"
    then have "sr \<in> set (ro_Rules found)" using assms(3) by blast
    then show "\<exists>ar \<in> set (ro_Rules found). PolicyRuleEqual ''rules'' sr ar = []"
      by (rule bexI [rotated]) (simp add: PolicyRuleEqual_def)
  qed
  then have "RoleEqual r found = []" using assms(2) by (simp add: RoleEqual_def ObjectMetaEqual_path)
  with assms(1) show ?thesis by (simp add: EnsureRole_def ensure_def)
qed

definition example_role :: "policy_rule list \<Rightarrow> role" where
  "example_role rs = \<lparr>ro_Meta = \<lparr>om_Name = ''r'', om_Namespace = ''ns'', om_Labels = [],
     om_Annotations = [], om_Owners = []\<rparr>, ro_Rules = rs\<rparr>"

definition any_rule :: policy_rule where
  "any_rule = \<lparr>pr_Verbs = Some [''*''], pr_APIGroups = Some [''*''], pr_Resources = Some [''*''],
     pr_ResourceNames = None, pr_NonResourceURLs = None\<rparr>"

definition role_client :: "(role, role) kube_client" where
  "role_client = \<lparr>kc_Get = (\<lambda>n ns w. ApiFound w), kc_Create = (\<lambda>obj w. (None, obj)),
     kc_Update = (\<lambda>obj w. (None, obj))\<rparr>"

lemma example_role_meta: "meta_agrees (ro_Meta (example_role rs)) (ro_Meta (example_role rs'))"
  by (simp add: meta_agrees_def ObjectMetaEqual_def example_role_def StringEqual_def)

lemma role_extra_rules_stay_witness:
  "EnsureRole role_client (example_role []) (example_role [any_rule]) = (None, example_role [any_rule])"
  by (rule role_extra_rules_stay [OF _ example_role_meta])
     (simp_all add: role_client_def example_role_def)

end
