(* ===== verification/Controller_Config.thy ===== *)
theory Controller_Config
  imports Names "HOL-Library.List_Lexorder" "HOL-Library.Char_ord"
begin

text \<open>
  The configuration the pipeline controller looks up for a pipeline: its domain name
  (\<open>pkg/controller/pipeline/config/domain.go\<close>), its services (\<open>services.go\<close>) and the agents
  that run it (\<open>list_util.go\<close>).  Reading a config map or listing resources is a call of the API
  client, a parameter that may fail; parsing YAML is the parameter \<open>yaml\<close>.
\<close>

section \<open>Domains\<close>

type_synonym labels = "(string, string) gomap"

record labelSelector =
  lsel_Selector :: labels

datatype config_error = CE_Api string | CE_Yaml string | CE_NoDefault | CE_NoKey

datatype 'o config_get = CfgNotFound | CfgError string | CfgFound 'o

definition specificity :: "labelSelector \<Rightarrow> int" where
  "specificity s = int (length (lsel_Selector s))"

definition matches :: "labelSelector \<Rightarrow> labels \<Rightarrow> bool" where
  "matches s ls \<longleftrightarrow> list_all (\<lambda>(label, expected). map_of ls label = Some expected) (lsel_Selector s)"

text \<open>One round of the loop of \<open>LookupDomain\<close>; the state is the best domain and its specificity.\<close>

definition lookup_round ::
  "labels \<Rightarrow> string \<times> labelSelector \<Rightarrow> string \<times> int \<Rightarrow> string \<times> int" where
  "lookup_round ls e best =
     (case (e, best) of ((k, selector), (domain, spec)) \<Rightarrow>
        if \<not> matches selector ls \<or> specificity selector < spec then best
        else if specificity selector > spec \<or> k < domain then (k, specificity selector)
        else best)"

definition LookupDomain :: "(string \<times> labelSelector) list \<Rightarrow> labels \<Rightarrow> string" where
  "LookupDomain es ls = fst (fold (lookup_round ls) es ([], - 1))"

fun parse_domains ::
  "(string \<Rightarrow> (string, labelSelector) go_result) \<Rightarrow> (string \<times> string) list
    \<Rightarrow> (string, labelSelector) gomap \<Rightarrow> bool
    \<Rightarrow> (config_error, (string, labelSelector) gomap \<times> bool) go_result" where
  "parse_domains yaml [] domains hasDefault = Inr (domains, hasDefault)"
| "parse_domains yaml ((k, v) # es) domains hasDefault =
     (case yaml v of
        Inl e \<Rightarrow> Inl (CE_Yaml e)
      | Inr sel \<Rightarrow> parse_domains yaml es (AList.update k sel domains)
          (hasDefault \<or> length (lsel_Selector sel) = 0))"

definition newDomainFromConfigMap ::
  "(string \<Rightarrow> (string, labelSelector) go_result) \<Rightarrow> (string \<times> string) list
    \<Rightarrow> (config_error, (string, labelSelector) gomap) go_result" where
  "newDomainFromConfigMap yaml es =
     (case parse_domains yaml es [] False of
        Inl e \<Rightarrow> Inl e
      | Inr (domains, hasDefault) \<Rightarrow> if \<not> hasDefault then Inl CE_NoDefault else Inr domains)"

definition default_domains :: "(string, labelSelector) gomap" where
  "default_domains = [(''example.com'', \<lparr>lsel_Selector = []\<rparr>)]"

text \<open>The config map of the namespace, else that of the system namespace, else the default.\<close>

definition NewDomain ::
  "(string \<Rightarrow> (string \<times> string) list config_get) \<Rightarrow> (string \<Rightarrow> (string, labelSelector) go_result)
    \<Rightarrow> string \<Rightarrow> (config_error, (string, labelSelector) gomap) go_result" where
  "NewDomain get yaml ns =
     (case get ns of
        CfgError e \<Rightarrow> Inl (CE_Api e)
      | CfgFound data' \<Rightarrow> newDomainFromConfigMap yaml data'
      | CfgNotFound \<Rightarrow>
          (case get NamespaceKoaljaSystem of
             CfgError e \<Rightarrow> Inl (CE_Api e)
           | CfgFound data' \<Rightarrow> newDomainFromConfigMap yaml data'
           | CfgNotFound \<Rightarrow> Inr default_domains))"

section \<open>Services\<close>

record Services =
  sc_AnnotatedValueRegistryName :: string
  sc_LinkAgentName :: string

definition setDefaults :: "Services \<Rightarrow> Services" where
  "setDefaults s = s
     \<lparr>sc_AnnotatedValueRegistryName := (if sc_AnnotatedValueRegistryName s = []
        then ''stub-annotatedvalue-registry'' else sc_AnnotatedValueRegistryName s),
      sc_LinkAgentName := (if sc_LinkAgentName s = [] then ''stub-link-agent'' else sc_LinkAgentName s)\<rparr>"

definition ConfigMapKeyServicesConfig :: string where
  "ConfigMapKeyServicesConfig = ''config''"

definition newServicesFromConfigMap ::
  "(string \<Rightarrow> (string, Services) go_result) \<Rightarrow> (string, string) gomap \<Rightarrow> (config_error, Services) go_result" where
  "newServicesFromConfigMap yaml data' =
     (case map_of data' ConfigMapKeyServicesConfig of
        None \<Rightarrow> Inl CE_NoKey
      | Some d \<Rightarrow> (case yaml d of Inl e \<Rightarrow> Inl (CE_Yaml e) | Inr r \<Rightarrow> Inr r))"

definition NewServices ::
  "(string \<Rightarrow> (string, string) gomap config_get) \<Rightarrow> (string \<Rightarrow> (string, Services) go_result)
    \<Rightarrow> string \<Rightarrow> (config_error, Services) go_result" where
  "NewServices get yaml ns =
     (case get ns of
        CfgError e \<Rightarrow> Inl (CE_Api e)
      | CfgFound data' \<Rightarrow> map_sum id setDefaults (newServicesFromConfigMap yaml data')
      | CfgNotFound \<Rightarrow>
          (case get NamespaceKoaljaSystem of
             CfgError e \<Rightarrow> Inl (CE_Api e)
           | CfgFound data' \<Rightarrow> map_sum id setDefaults (newServicesFromConfigMap yaml data')
           | CfgNotFound \<Rightarrow> Inr (setDefaults
               \<lparr>sc_AnnotatedValueRegistryName = [], sc_LinkAgentName = []\<rparr>)))"

section \<open>Selecting agents\<close>

text \<open>
  An agent resource is its name (and, for executors, its task type); \<open>list ns\<close> lists the
  resources of a namespace.  The answer \<open>Inr None\<close> is the nil result without error.
\<close>

type_synonym 'x lister = "string \<Rightarrow> (string, 'x list) go_result"

definition first_item :: "'x list \<Rightarrow> 'x option" where
  "first_item xs = (case xs of [] \<Rightarrow> None | x # ys \<Rightarrow> Some x)"

definition selectPipelineAgent :: "'x lister \<Rightarrow> string \<Rightarrow> (string, 'x option) go_result" where
  "selectPipelineAgent lst ns =
     (case lst ns of
        Inl e \<Rightarrow> Inl e
      | Inr items \<Rightarrow>
          if length items = 0 then
            (case lst NamespaceKoaljaSystem of
               Inl e \<Rightarrow> Inl e
             | Inr items' \<Rightarrow> Inr (first_item items'))
          else Inr (first_item items))"

definition selectTaskAgent :: "'x lister \<Rightarrow> string \<Rightarrow> (string, 'x option) go_result" where
  "selectTaskAgent lst ns =
     (case lst ns of
        Inl e \<Rightarrow> Inl e
      | Inr items \<Rightarrow>
          if length items = 0 then
            (case lst NamespaceKoaljaSystem of
               Inl e \<Rightarrow> Inl e
             | Inr items' \<Rightarrow> Inr (first_item items'))
          else Inr (first_item items))"

definition selectLinkAgent ::
  "('x \<Rightarrow> string) \<Rightarrow> 'x lister \<Rightarrow> string \<Rightarrow> string \<Rightarrow> (string, 'x option) go_result" where
  "selectLinkAgent nm lst defaultServiceName ns =
     (case lst ns of
        Inl e \<Rightarrow> Inl e
      | Inr items1 \<Rightarrow>
          (case lst NamespaceKoaljaSystem of
             Inl e \<Rightarrow> Inl e
           | Inr items2 \<Rightarrow>
               let all' = items1 @ items2 in
               if defaultServiceName \<noteq> [] then Inr (find (\<lambda>x. nm x = defaultServiceName) all')
               else Inr (first_item all')))"

definition selectAnnotatedValueRegistry ::
  "('x \<Rightarrow> string) \<Rightarrow> 'x lister \<Rightarrow> string \<Rightarrow> string \<Rightarrow> (string, 'x option) go_result" where
  "selectAnnotatedValueRegistry nm lst defaultServiceName ns =
     (case lst ns of
        Inl e \<Rightarrow> Inl e
      | Inr items1 \<Rightarrow>
          (case lst NamespaceKoaljaSystem of
             Inl e \<Rightarrow> Inl e
           | Inr items2 \<Rightarrow>
               let all' = items1 @ items2 in
               if defaultServiceName \<noteq> [] then Inr (find (\<lambda>x. nm x = defaultServiceName) all')
               else Inr (first_item all')))"

definition selectTaskExecutor ::
  "('x \<Rightarrow> string) \<Rightarrow> 'x lister \<Rightarrow> string \<Rightarrow> string \<Rightarrow> (string, 'x option) go_result" where
  "selectTaskExecutor ty lst taskType ns =
     (case lst ns of
        Inl e \<Rightarrow> Inl e
      | Inr items \<Rightarrow>
          (case find (\<lambda>x. ty x = taskType) items of
             Some x \<Rightarrow> Inr (Some x)
           | None \<Rightarrow>
               (case lst NamespaceKoaljaSystem of
                  Inl e \<Rightarrow> Inl e
                | Inr items' \<Rightarrow> Inr (find (\<lambda>x. ty x = taskType) items'))))"

section \<open>Lemmas\<close>

text \<open>The best entry: matching, most specific, and first in the order of the names among those.\<close>

definition best_domain :: "(string \<times> labelSelector) set \<Rightarrow> labels \<Rightarrow> string \<Rightarrow> bool" where
  "best_domain E ls d \<longleftrightarrow>
     (\<exists>s. (d, s) \<in> E \<and> matches s ls
        \<and> (\<forall>(k, t) \<in> E. matches t ls \<longrightarrow> specificity t < specificity s
              \<or> specificity t = specificity s \<and> d \<le> k))"

definition fold_inv :: "(string \<times> labelSelector) set \<Rightarrow> labels \<Rightarrow> string \<times> int \<Rightarrow> bool" where
  "fold_inv E ls best \<longleftrightarrow>
     (if \<exists>(k, t) \<in> E. matches t ls
      then (\<exists>s. (fst best, s) \<in> E \<and> matches s ls \<and> specificity s = snd best
        \<and> (\<forall>(k, t) \<in> E. matches t ls \<longrightarrow> specificity t < snd best
              \<or> specificity t = snd best \<and> fst best \<le> k))
      else best = ([], - 1))"

lemma specificity_nonneg: "0 \<le> specificity s"
  by (simp add: specificity_def)

lemma fold_inv_round:
  assumes "fold_inv E ls best"
  shows "fold_inv (insert e E) ls (lookup_round ls e best)"
proof -
  obtain k sel d sp where e: "e = (k, sel)" "best = (d, sp)" by (cases e, cases best) auto
  show ?thesis
  proof (cases "matches sel ls")
    case False
    then have "lookup_round ls e best = best" by (simp add: lookup_round_def e)
    then show ?thesis using assms False by (auto simp: fold_inv_def e split: if_splits)
  next
    case True
    show ?thesis
    proof (cases "\<exists>(k, t) \<in> E. matches t ls")
      case False
      then have "d = []" "sp = - 1" using assms by (auto simp: fold_inv_def e split: if_splits)
      then have "lookup_round ls e best = (k, specificity sel)"
        using True specificity_nonneg [of sel] by (simp add: lookup_round_def e)
      then show ?thesis using True False by (auto simp: fold_inv_def e)
    next
      case some: True
      then obtain s where s: "(d, s) \<in> E" "matches s ls" "specificity s = sp"
        and best: "\<And>k t. (k, t) \<in> E \<Longrightarrow> matches t ls \<Longrightarrow> specificity t < sp \<or> specificity t = sp \<and> d \<le> k"
        using assms by (auto simp: fold_inv_def e split: if_splits)
      show ?thesis
      proof (cases "specificity sel > sp \<or> specificity sel = sp \<and> k < d")
        case better: True
        then have r: "lookup_round ls e best = (k, specificity sel)"
          using True by (auto simp: lookup_round_def e)
        have "specificity t < specificity sel \<or> specificity t = specificity sel \<and> k \<le> j"
          if "(j, t) \<in> E" "matches t ls" for j t
          using best [OF that] better by auto
        then have "fold_inv (insert (k, sel) E) ls (k, specificity sel)"
          using True by (auto simp: fold_inv_def)
        then show ?thesis by (simp only: e(1) r [unfolded e(1)])
      next
        case worse: False
        then have r: "lookup_round ls e best = best"
          using True by (auto simp: lookup_round_def e)
        have w: "specificity sel < sp \<or> specificity sel = sp \<and> d \<le> k"
          using worse by auto
        have "fold_inv (insert (k, sel) E) ls (d, sp)"
          using s best w True by (auto simp: fold_inv_def)
        then show ?thesis by (simp only: e r [unfolded e])
      qed
    qed
  qed
qed

lemma fold_inv_fold: "fold_inv E ls best \<Longrightarrow> fold_inv (set es \<union> E) ls (fold (lookup_round ls) es best)"
proof (induction es arbitrary: E best)
  case (Cons e es)
  from Cons.IH [OF fold_inv_round [OF Cons.prems]] show ?case by simp
qed simp

lemma LookupDomain_best:
  assumes "(k, t) \<in> set es" and "matches t ls"
  shows "best_domain (set es) ls (LookupDomain es ls)"
proof -
  have "fold_inv {} ls ([], - 1)" by (simp add: fold_inv_def)
  from fold_inv_fold [OF this, of es] have
    "fold_inv (set es) ls (fold (lookup_round ls) es ([], - 1))" by simp
  with assms show ?thesis
    by (fastforce simp: fold_inv_def LookupDomain_def best_domain_def split: if_splits)
qed

lemma best_domain_unique:
  assumes "best_domain E ls d" and "best_domain E ls e"
  shows "d = e"
proof -
  obtain s where s: "(d, s) \<in> E" "matches s ls"
    "\<And>k t. (k, t) \<in> E \<Longrightarrow> matches t ls \<Longrightarrow> specificity t < specificity s
       \<or> specificity t = specificity s \<and> d \<le> k"
    using assms(1) by (auto simp: best_domain_def)
  obtain t where t: "(e, t) \<in> E" "matches t ls"
    "\<And>k u. (k, u) \<in> E \<Longrightarrow> matches u ls \<Longrightarrow> specificity u < specificity t
       \<or> specificity u = specificity t \<and> e \<le> k"
    using assms(2) by (auto simp: best_domain_def)
  from s(3) [OF t(1,2)] t(3) [OF s(1,2)] show ?thesis by auto
qed

text \<open>The entries of a domain configuration: the keys of the config map with their selectors.\<close>

definition configured ::
  "(string \<Rightarrow> (string, labelSelector) go_result) \<Rightarrow> (string \<times> string) list \<Rightarrow> (string \<times> labelSelector) set" where
  "configured yaml es = {(k, s). \<exists>v. (k, v) \<in> set es \<and> yaml v = Inr s}"

lemma parse_domains_entries:
  assumes "parse_domains yaml es m h = Inr (m', h')" and "gomap_ok m"
    and "distinct (map fst es)" and "fst ` set es \<inter> fst ` set m = {}"
    and "h \<longrightarrow> (\<exists>(k, s) \<in> set m. lsel_Selector s = [])"
  shows "set m' = set m \<union> configured yaml es \<and> (h' \<longrightarrow> (\<exists>(k, s) \<in> set m'. lsel_Selector s = []))"
  using assms
proof (induction yaml es m h rule: parse_domains.induct)
  case (2 yaml k v es m h)
  then obtain sel where sel: "yaml v = Inr sel"
    "parse_domains yaml es (AList.update k sel m) (h \<or> length (lsel_Selector sel) = 0) = Inr (m', h')"
    by (auto split: sum.splits)
  have new: "AList.update k sel m = m @ [(k, sel)]"
    using 2(5) by (intro update_new) (auto simp: map_of_eq_None_iff)
  have "set m' = set (AList.update k sel m) \<union> configured yaml es
      \<and> (h' \<longrightarrow> (\<exists>(k, s) \<in> set m'. lsel_Selector s = []))"
    by (rule 2(1) [OF sel(1) sel(2)]) (use 2(3-6) in \<open>auto simp: new gomap_ok_def\<close>)
  then show ?case using sel(1) by (auto simp: new configured_def)
qed (auto simp: configured_def)

lemma newDomain_entries:
  assumes "newDomainFromConfigMap yaml es = Inr ds" and "gomap_ok es"
  shows "set ds = configured yaml es" and "\<exists>k s. (k, s) \<in> set ds \<and> matches s ls"
proof -
  have p: "parse_domains yaml es [] False = Inr (ds, True)"
    using assms(1) by (auto simp: newDomainFromConfigMap_def split: sum.splits prod.splits if_splits)
  have e: "set ds = configured yaml es \<and> (\<exists>(k, s) \<in> set ds. lsel_Selector s = [])"
    using parse_domains_entries [OF p] assms(2) unfolding gomap_ok_def by auto
  then show "set ds = configured yaml es" by simp
  from e show "\<exists>k s. (k, s) \<in> set ds \<and> matches s ls" by (force simp: matches_def)
qed

section \<open>Properties\<close>

text \<open>the domain of a pipeline is well defined. When a domain config map is accepted, looking up
  a domain for a set of labels returns, for every order in which the runtime ranges over the map,
  a configured domain whose selector matches the labels, which no matching selector exceeds in
  specificity, and which is the first of those by name; no other domain has this property.\<close>
theorem domain_lookup_best:
  assumes "newDomainFromConfigMap yaml es = Inr ds" and "gomap_ok es" and "map_order ds' ds"
  shows "best_domain (configured yaml es) ls (LookupDomain ds' ls)
    \<and> (\<forall>d. best_domain (configured yaml es) ls d \<longrightarrow> d = LookupDomain ds' ls)"
proof -
  obtain k s where ks: "(k, s) \<in> set ds'" "matches s ls"
    using newDomain_entries(2) [OF assms(1,2)] map_order_set [OF assms(3)] by blast
  have "best_domain (configured yaml es) ls (LookupDomain ds' ls)"
    using LookupDomain_best [OF ks] newDomain_entries(1) [OF assms(1,2)] map_order_set [OF assms(3)]
    by simp
  then show ?thesis using best_domain_unique by blast
qed

definition example_yaml :: "string \<Rightarrow> (string, labelSelector) go_result" where
  "example_yaml v =
     (if v = [] then Inr \<lparr>lsel_Selector = []\<rparr>
      else if v = ''app'' then Inr \<lparr>lsel_Selector = [(''app'', ''x'')]\<rparr> else Inl ''yaml: bad'')"

lemma domain_lookup_best_witness:
  "let es = [(''b.org'', ''app''), (''example.com'', []), (''a.org'', ''app'')];
       ls = [(''app'', ''x'')]
   in best_domain (configured example_yaml es) ls
        (LookupDomain [(''a.org'', \<lparr>lsel_Selector = ls\<rparr>), (''b.org'', \<lparr>lsel_Selector = ls\<rparr>),
          (''example.com'', \<lparr>lsel_Selector = []\<rparr>)] ls)
      \<and> LookupDomain [(''b.org'', \<lparr>lsel_Selector = ls\<rparr>), (''a.org'', \<lparr>lsel_Selector = ls\<rparr>)] ls = ''a.org''"
proof -
  let ?es = "[(''b.org'', ''app''), (''example.com'', []), (''a.org'', ''app'')]"
  let ?ls = "[(''app'', ''x'')]"
  let ?ds = "[(''b.org'', \<lparr>lsel_Selector = ?ls\<rparr>), (''example.com'', \<lparr>lsel_Selector = []\<rparr>),
    (''a.org'', \<lparr>lsel_Selector = ?ls\<rparr>)]"
  let ?ds' = "[(''a.org'', \<lparr>lsel_Selector = ?ls\<rparr>), (''b.org'', \<lparr>lsel_Selector = ?ls\<rparr>),
    (''example.com'', \<lparr>lsel_Selector = []\<rparr>)]"
  have 1: "newDomainFromConfigMap example_yaml ?es = Inr ?ds" by code_simp
  have 2: "gomap_ok ?es" by code_simp
  have 3: "map_order ?ds' ?ds" by (simp add: map_order_def add_mset_commute)
  have 4: "LookupDomain [(''b.org'', \<lparr>lsel_Selector = ?ls\<rparr>), (''a.org'', \<lparr>lsel_Selector = ?ls\<rparr>)] ?ls = ''a.org''"
    by code_simp
  from domain_lookup_best [OF 1 2 3, of ?ls] 4 show ?thesis by (simp add: Let_def)
qed

lemma find_append: "find P (xs @ ys) = (case find P xs of Some x \<Rightarrow> Some x | None \<Rightarrow> find P ys)"
  by (induction xs) auto

text \<open>The executor of a task. With both namespaces listed, an executor is selected exactly when
  one of the task's type exists, it has that type, and an executor of the pipeline's own namespace
  wins over one of the system namespace.\<close>
theorem task_executor_selection:
  assumes "lst ns = Inr own" and "lst NamespaceKoaljaSystem = Inr sys"
  shows "\<exists>r. selectTaskExecutor ty lst t ns = Inr r \<and>
    (case r of
       None \<Rightarrow> \<forall>x. x \<in> set (own @ sys) \<longrightarrow> ty x \<noteq> t
     | Some x \<Rightarrow> x \<in> set (own @ sys) \<and> ty x = t \<and> (t \<in> ty ` set own \<longrightarrow> x \<in> set own))"
proof (cases "find (\<lambda>x. ty x = t) own")
  case (Some x)
  with find_SomeD [OF Some] assms show ?thesis by (auto simp: selectTaskExecutor_def)
next
  case None
  then have own: "\<And>x. x \<in> set own \<Longrightarrow> ty x \<noteq> t" by (auto simp: find_None_iff)
  show ?thesis
  proof (cases "find (\<lambda>x. ty x = t) sys")
    case sys: None
    then have "\<And>x. x \<in> set sys \<Longrightarrow> ty x \<noteq> t" by (auto simp: find_None_iff)
    with own None sys assms show ?thesis by (auto simp: selectTaskExecutor_def)
  next
    case sys: (Some x)
    then have x: "x \<in> set sys" "ty x = t" using find_SomeD [OF sys] by auto
    have "t \<notin> ty ` set own" using own by auto
    with x sys None assms show ?thesis by (simp add: selectTaskExecutor_def)
  qed
qed

lemma task_executor_selection_witness:
  "\<exists>r. selectTaskExecutor snd (\<lambda>n. if n = ''koalja-system'' then Inr [(1::nat, ''a''), (2, ''b'')] else Inr [(3, ''b'')])
      ''b'' ''ns'' = Inr r \<and> r = Some (3, ''b'')"
  using task_executor_selection [of "\<lambda>n. if n = ''koalja-system'' then Inr [(1::nat, ''a''), (2, ''b'')] else Inr [(3, ''b'')]"
      "''ns''" "[(3, ''b'')]" "[(1, ''a''), (2, ''b'')]" snd "''b''"]
  by (auto simp: NamespaceKoaljaSystem_def split: option.splits)

text \<open>the link agent and registry a pipeline uses. The services configuration always names
  both, so the agent selected is one with exactly the configured name, and when no agent of the
  two namespaces has that name none is selected, however many others there are.\<close>
theorem configured_link_agent:
  assumes "NewServices get yaml ns = Inr s" and "lst ns = Inr own"
    and "lst NamespaceKoaljaSystem = Inr sys"
  shows "sc_LinkAgentName s \<noteq> [] \<and> sc_AnnotatedValueRegistryName s \<noteq> []
    \<and> selectLinkAgent nm lst (sc_LinkAgentName s) ns
        = Inr (find (\<lambda>x. nm x = sc_LinkAgentName s) (own @ sys))
    \<and> selectAnnotatedValueRegistry nm lst (sc_AnnotatedValueRegistryName s) ns
        = Inr (find (\<lambda>x. nm x = sc_AnnotatedValueRegistryName s) (own @ sys))"
proof -
  obtain s' where s: "s = setDefaults s'"
    using assms(1) by (auto simp: NewServices_def map_sum_def split: config_get.splits sum.splits)
  have n: "sc_LinkAgentName s \<noteq> []" "sc_AnnotatedValueRegistryName s \<noteq> []"
    by (auto simp: s setDefaults_def)
  with assms(2,3) show ?thesis
    by (simp add: selectLinkAgent_def selectAnnotatedValueRegistry_def)
qed

lemma configured_link_agent_witness:
  "\<exists>s. NewServices (\<lambda>n. CfgNotFound) (\<lambda>y. Inl y) ''ns'' = Inr s \<and>
     selectLinkAgent id (\<lambda>n. Inr [''a'', ''stub-link-agent'']) (sc_LinkAgentName s) ''ns'' = Inr (Some ''stub-link-agent'')"
proof -
  let ?s = "\<lparr>sc_AnnotatedValueRegistryName = ''stub-annotatedvalue-registry'', sc_LinkAgentName = ''stub-link-agent''\<rparr>"
  have 1: "NewServices (\<lambda>n. CfgNotFound) (\<lambda>y. Inl y) ''ns'' = Inr ?s"
    by (simp add: NewServices_def setDefaults_def)
  show ?thesis
    using configured_link_agent [OF 1, of "\<lambda>n. Inr [''a'', ''stub-link-agent'']" _ _ id] 1 by simp
qed

end
