(* ===== verification/Reconcile_Util.thy ===== *)
theory Reconcile_Util
  imports Names Kube_Types
begin

text \<open>
  Helpers of the pipeline reconciler (\<open>pkg/controller/pipeline/reconcile_util.go\<close>): merging the
  results of its steps, defaults of agent containers, and setting environment variables, which
  ranges over a Go map.
\<close>

section \<open>Results\<close>

record reconcile_result =
  rr_Requeue :: bool
  rr_RequeueAfter :: int

definition no_result :: reconcile_result where
  "no_result = \<lparr>rr_Requeue = False, rr_RequeueAfter = 0\<rparr>"

definition MergeReconcileResult :: "reconcile_result \<Rightarrow> reconcile_result \<Rightarrow> reconcile_result" where
  "MergeReconcileResult a b =
     (let after = (if rr_RequeueAfter a > 0 then rr_RequeueAfter a else 0);
          after = (if rr_RequeueAfter b > 0 \<and> rr_RequeueAfter b < after then rr_RequeueAfter b else after)
      in \<lparr>rr_Requeue = (rr_Requeue a \<or> rr_Requeue b), rr_RequeueAfter = after\<rparr>)"

section \<open>Container defaults\<close>

definition SetAgentContainerDefaults :: "container \<Rightarrow> bool \<Rightarrow> container" where
  "SetAgentContainerDefaults c addHTTPPort =
     (let c = (if c_Name c = [] then c\<lparr>c_Name := ''agent''\<rparr> else c)
      in if length (c_Ports c) = 0 then
           (let c = c\<lparr>c_Ports := [\<lparr>cp_Name = ''grpc-api'', cp_ContainerPort = int AgentAPIPort,
                                   cp_Protocol = []\<rparr>]\<rparr>
            in if addHTTPPort then
                 c\<lparr>c_Ports := [\<lparr>cp_Name = ''http-api'', cp_ContainerPort = int AgentAPIHTTPPort,
                                cp_Protocol = []\<rparr>]\<rparr>
               else c)
         else c)"

definition SetAnnotatedValueRegistryContainerDefaults :: "container \<Rightarrow> container" where
  "SetAnnotatedValueRegistryContainerDefaults c =
     (let c = (if c_Name c = [] then c\<lparr>c_Name := ''registry''\<rparr> else c)
      in if length (c_Ports c) = 0 then
           c\<lparr>c_Ports := [\<lparr>cp_Name = ''grpc-registry'',
               cp_ContainerPort = int AnnotatedValueRegistryAPIPort, cp_Protocol = []\<rparr>]\<rparr>
         else c)"

section \<open>Environment variables\<close>

text \<open>The first entry with the name is overwritten, otherwise a new entry is appended.\<close>

fun set_env_var :: "string \<Rightarrow> string \<Rightarrow> env_var list \<Rightarrow> env_var list" where
  "set_env_var k v [] = [\<lparr>ev_Name = k, ev_Value = v, ev_FieldPath = None\<rparr>]"
| "set_env_var k v (ev # evs) =
     (if ev_Name ev = k then ev\<lparr>ev_Value := v, ev_FieldPath := None\<rparr> # evs
      else ev # set_env_var k v evs)"

definition env_from_field :: "string \<Rightarrow> string \<Rightarrow> env_var" where
  "env_from_field k path = \<lparr>ev_Name = k, ev_Value = [], ev_FieldPath = Some path\<rparr>"

definition SetContainerEnvVars :: "(string, string) gomap \<Rightarrow> container \<Rightarrow> container" where
  "SetContainerEnvVars vars c =
     c\<lparr>c_Env := fold (\<lambda>(k, v). set_env_var k v) vars (c_Env c)
        @ [env_from_field EnvNamespace ''metadata.namespace'',
           env_from_field EnvPodName ''metadata.name'']\<rparr>"

section \<open>Lemmas\<close>

text \<open>The environment a process sees: the value of every name.\<close>

definition env_names :: "env_var list \<Rightarrow> string list" where
  "env_names evs = map ev_Name evs"

definition env_lookup :: "env_var list \<Rightarrow> string \<Rightarrow> (string \<times> string option) option" where
  "env_lookup evs = map_of (map (\<lambda>ev. (ev_Name ev, (ev_Value ev, ev_FieldPath ev))) evs)"

lemma env_lookup_set:
  "env_lookup (set_env_var k v evs) = (env_lookup evs)(k \<mapsto> (v, None))"
  by (induction evs) (auto simp: env_lookup_def fun_eq_iff)

lemma env_names_set:
  "distinct (env_names evs) \<Longrightarrow>
     distinct (env_names (set_env_var k v evs))
     \<and> set (env_names (set_env_var k v evs)) = insert k (set (env_names evs))"
  by (induction evs) (auto simp: env_names_def)

lemma env_lookup_fold:
  "gomap_ok vars \<Longrightarrow>
     env_lookup (fold (\<lambda>(k, v). set_env_var k v) vars evs) n
       = (case map_of vars n of Some v \<Rightarrow> Some (v, None) | None \<Rightarrow> env_lookup evs n)"
proof (induction vars arbitrary: evs)
  case (Cons x vars)
  obtain k v where x: "x = (k, v)" by (cases x)
  with Cons.prems have ok: "gomap_ok vars" and k: "map_of vars k = None"
    by (auto simp: gomap_ok_def map_of_eq_None_iff)
  show ?case
    using Cons.IH [OF ok] k by (auto simp: x env_lookup_set split: option.split)
qed simp

lemma env_names_fold:
  "distinct (env_names evs) \<Longrightarrow>
     distinct (env_names (fold (\<lambda>(k, v). set_env_var k v) vars evs))
     \<and> set (env_names (fold (\<lambda>(k, v). set_env_var k v) vars evs))
         = fst ` set vars \<union> set (env_names evs)"
proof (induction vars arbitrary: evs)
  case (Cons x vars)
  obtain k v where x: "x = (k, v)" by (cases x)
  show ?case
    using Cons.IH [of "set_env_var k v evs"] env_names_set [OF Cons.prems, of k v] by (auto simp: x)
qed simp

lemma env_lookup_append:
  "env_lookup (a @ b) n = (case env_lookup a n of Some x \<Rightarrow> Some x | None \<Rightarrow> env_lookup b n)"
  by (simp add: env_lookup_def map_add_def split: option.split)

lemma env_lookup_None: "env_lookup a n = None \<longleftrightarrow> n \<notin> set (env_names a)"
  by (auto simp: env_lookup_def env_names_def map_of_eq_None_iff image_iff)

lemma reserved_env_differ: "EnvNamespace \<noteq> EnvPodName"
  by (simp add: EnvNamespace_def EnvPodName_def)

section \<open>Properties\<close>

text \<open>The environment of an agent container. For every order in which the runtime ranges over
  the variables, each variable gets its value (overriding a value or field reference of the
  container), every other variable of the container is kept, the namespace and the pod name are
  taken from the pod, and no name occurs twice; so the environment does not depend on the order.\<close>
theorem container_environment:
  assumes "gomap_ok vars" and "map_order es vars" and "distinct (env_names (c_Env c))"
    and "\<forall>n \<in> {EnvNamespace, EnvPodName}. n \<notin> fst ` set vars \<and> n \<notin> set (env_names (c_Env c))"
  defines "env \<equiv> c_Env (SetContainerEnvVars es c)"
  shows "distinct (env_names env) \<and>
    (\<forall>n. env_lookup env n =
       (if n = EnvNamespace then Some ([], Some ''metadata.namespace'')
        else if n = EnvPodName then Some ([], Some ''metadata.name'')
        else case map_of vars n of Some v \<Rightarrow> Some (v, None) | None \<Rightarrow> env_lookup (c_Env c) n))"
proof -
  let ?f = "fold (\<lambda>(k, v). set_env_var k v) es (c_Env c)"
  have es: "gomap_ok es" "map_of es = map_of vars" "set es = set vars"
    using map_order_ok [OF assms(2,1)] map_order_map_of [OF assms(2,1)] map_order_set [OF assms(2)]
    by simp_all
  have env: "env = ?f @ [env_from_field EnvNamespace ''metadata.namespace'',
      env_from_field EnvPodName ''metadata.name'']"
    by (simp add: env_def SetContainerEnvVars_def)
  have names: "distinct (env_names ?f)" "set (env_names ?f) = fst ` set vars \<union> set (env_names (c_Env c))"
    using env_names_fold [OF assms(3), of es] es(3) by simp_all
  have "distinct (env_names env)"
    using names assms(4) reserved_env_differ
    by (auto simp: env env_names_def env_from_field_def)
  moreover have "env_lookup env n =
       (if n = EnvNamespace then Some ([], Some ''metadata.namespace'')
        else if n = EnvPodName then Some ([], Some ''metadata.name'')
        else case map_of vars n of Some v \<Rightarrow> Some (v, None) | None \<Rightarrow> env_lookup (c_Env c) n)" for n
  proof (cases "n \<in> {EnvNamespace, EnvPodName}")
    case True
    then have "env_lookup ?f n = None" using names(2) assms(4) by (auto simp: env_lookup_None)
    with True reserved_env_differ show ?thesis
      by (auto simp: env env_lookup_append) (auto simp: env_lookup_def env_from_field_def)
  next
    case False
    then have "env_lookup [env_from_field EnvNamespace ''metadata.namespace'',
      env_from_field EnvPodName ''metadata.name''] n = None"
      by (auto simp: env_lookup_def env_from_field_def)
    with False env_lookup_fold [OF es(1), of "c_Env c" n] es(2) show ?thesis
      by (auto simp: env env_lookup_append split: option.split)
  qed
  ultimately show ?thesis by blast
qed

definition example_container :: container where
  "example_container = \<lparr>c_Name = [], c_Image = ''img'', c_Command = None, c_Args = None,
     c_Env = [\<lparr>ev_Name = ''A'', ev_Value = [], ev_FieldPath = Some ''status.podIP''\<rparr>,
              \<lparr>ev_Name = ''B'', ev_Value = ''b'', ev_FieldPath = None\<rparr>],
     c_Ports = [], c_VolumeMounts = [], c_Privileged = None\<rparr>"

lemma container_environment_witness:
  "env_lookup (c_Env (SetContainerEnvVars [(''C'', ''c''), (''A'', ''a'')] example_container)) ''A''
     = Some (''a'', None)
   \<and> distinct (env_names (c_Env (SetContainerEnvVars [(''C'', ''c''), (''A'', ''a'')] example_container)))"
proof -
  have 1: "gomap_ok [(''A'', ''a''), (''C'', ''c'')]" by code_simp
  have 2: "map_order [(''C'', ''c''), (''A'', ''a'')] [(''A'', ''a''), (''C'', ''c'')]"
    by (simp add: map_order_def)
  have 3: "distinct (env_names (c_Env example_container))" by code_simp
  have 4: "\<forall>n \<in> {EnvNamespace, EnvPodName}. n \<notin> fst ` set [(''A'', ''a''), (''C'', ''c'')]
      \<and> n \<notin> set (env_names (c_Env example_container))"
    by (simp add: EnvNamespace_def EnvPodName_def example_container_def env_names_def)
  from container_environment [OF 1 2 3 4] show ?thesis
    by (simp add: EnvNamespace_def EnvPodName_def)
qed

text \<open>Merging the results of the reconcile steps, as \<open>Reconcile\<close> does from a start result with a
  positive delay, requeues when some step asks for it and waits the smallest positive delay any
  of them asks for.\<close>
theorem merged_results:
  assumes "0 < rr_RequeueAfter a"
  shows "let r = fold (\<lambda>b acc. MergeReconcileResult acc b) bs a in
    (rr_Requeue r \<longleftrightarrow> rr_Requeue a \<or> (\<exists>b \<in> set bs. rr_Requeue b))
    \<and> rr_RequeueAfter r = Min (insert (rr_RequeueAfter a) {d \<in> rr_RequeueAfter ` set bs. 0 < d})"
  using assms
proof (induction bs arbitrary: a)
  case (Cons b bs)
  have pos: "0 < rr_RequeueAfter (MergeReconcileResult a b)"
    using Cons.prems by (simp add: MergeReconcileResult_def Let_def)
  have fin: "finite {d \<in> rr_RequeueAfter ` set bs. 0 < d}" by simp
  have step: "rr_RequeueAfter (MergeReconcileResult a b) =
      (if 0 < rr_RequeueAfter b then min (rr_RequeueAfter a) (rr_RequeueAfter b) else rr_RequeueAfter a)"
    using Cons.prems by (auto simp: MergeReconcileResult_def Let_def)
  have split: "{d \<in> rr_RequeueAfter ` set (b # bs). 0 < d} =
      (if 0 < rr_RequeueAfter b then insert (rr_RequeueAfter b) {d \<in> rr_RequeueAfter ` set bs. 0 < d}
       else {d \<in> rr_RequeueAfter ` set bs. 0 < d})" by auto
  have "Min (insert (rr_RequeueAfter (MergeReconcileResult a b)) {d \<in> rr_RequeueAfter ` set bs. 0 < d})
      = Min (insert (rr_RequeueAfter a) {d \<in> rr_RequeueAfter ` set (b # bs). 0 < d})"
  proof (cases "{d \<in> rr_RequeueAfter ` set bs. 0 < d} = {}")
    case True
    then show ?thesis unfolding step split by (simp only: split: if_splits) simp
  next
    case False
    then show ?thesis unfolding step split using fin by (auto simp: min.assoc)
  qed
  then show ?case using Cons.IH [OF pos] by (auto simp: Let_def MergeReconcileResult_def)
qed simp

lemma merged_results_witness:
  "rr_RequeueAfter (fold (\<lambda>b acc. MergeReconcileResult acc b)
     [no_result, no_result\<lparr>rr_RequeueAfter := 10\<rparr>, no_result\<lparr>rr_RequeueAfter := 30\<rparr>]
     \<lparr>rr_Requeue = True, rr_RequeueAfter = 60\<rparr>) = 10"
  using merged_results [of "\<lparr>rr_Requeue = True, rr_RequeueAfter = 60\<rparr>"
    "[no_result, no_result\<lparr>rr_RequeueAfter := 10\<rparr>, no_result\<lparr>rr_RequeueAfter := 30\<rparr>]"]
  by (simp add: no_result_def Let_def MergeReconcileResult_def)

end
