(* ===== verification/Cluster_API.thy ===== *)
theory Cluster_API
  imports Ensure
begin

text \<open>
  The API server as one client for every kind of object the operator reads and writes (the
  \<open>client.Client\<close> of controller-runtime, a parameter), the laws of its documented behaviour, and
  the abstract operation \<open>ensure_object\<close> that every \<open>Ensure...\<close> function of
  \<open>pkg/util/k8s_resources.go\<close> refines when it is called on such a client.
\<close>

section \<open>Objects and keys\<close>

record PipelineRevision =
  rv_Meta :: object_meta
  rv_Hash :: string
  rv_Spec :: PipelineSpec

datatype kind = KPipeline | KPipelineRevision | KServiceAccount | KRole | KClusterRole
  | KRoleBinding | KClusterRoleBinding | KStatefulSet | KService | KIngressRoute

datatype kobject =
    O_Pipeline Pipeline
  | O_PipelineRevision PipelineRevision
  | O_ServiceAccount service_account
  | O_Role role
  | O_ClusterRole role
  | O_RoleBinding role_binding
  | O_ClusterRoleBinding role_binding
  | O_StatefulSet workload
  | O_Service service
  | O_IngressRoute ingress_route

type_synonym object_key = "kind \<times> string \<times> string"

abbreviation meta_key :: "kind \<Rightarrow> object_meta \<Rightarrow> object_key" where
  "meta_key k m \<equiv> (k, om_Name m, om_Namespace m)"

fun obj_key :: "kobject \<Rightarrow> object_key" where
  "obj_key (O_Pipeline p) = (KPipeline, pl_Name p, pl_Namespace p)"
| "obj_key (O_PipelineRevision r) = meta_key KPipelineRevision (rv_Meta r)"
| "obj_key (O_ServiceAccount a) = meta_key KServiceAccount (sa_Meta a)"
| "obj_key (O_Role r) = meta_key KRole (ro_Meta r)"
| "obj_key (O_ClusterRole r) = meta_key KClusterRole (ro_Meta r)"
| "obj_key (O_RoleBinding b) = meta_key KRoleBinding (rb_Meta b)"
| "obj_key (O_ClusterRoleBinding b) = meta_key KClusterRoleBinding (rb_Meta b)"
| "obj_key (O_StatefulSet s) = meta_key KStatefulSet (wl_Meta s)"
| "obj_key (O_Service s) = meta_key KService (sv_Meta s)"
| "obj_key (O_IngressRoute r) = meta_key KIngressRoute (ir_Meta r)"

section \<open>The client\<close>

record 'w api =
  api_Get :: "kind \<Rightarrow> string \<Rightarrow> string \<Rightarrow> 'w \<Rightarrow> kobject api_get"
  api_Create :: "kobject \<Rightarrow> 'w \<Rightarrow> api_error error_only \<times> 'w"
  api_Update :: "kobject \<Rightarrow> 'w \<Rightarrow> api_error error_only \<times> 'w"

text \<open>The client seen at one type of object, as a call with a pointer to that type uses it.\<close>

definition typed_get :: "(kobject \<Rightarrow> 'o option) \<Rightarrow> kobject api_get \<Rightarrow> 'o api_get" where
  "typed_get un g =
     (case g of
        ApiNotFound \<Rightarrow> ApiNotFound
      | ApiError e \<Rightarrow> ApiError e
      | ApiFound x \<Rightarrow> (case un x of Some y \<Rightarrow> ApiFound y | None \<Rightarrow> ApiError (ApiFailure ''kind'')))"

definition typed_client ::
  "kind \<Rightarrow> ('o \<Rightarrow> kobject) \<Rightarrow> (kobject \<Rightarrow> 'o option) \<Rightarrow> 'w api \<Rightarrow> ('o, 'w) kube_client" where
  "typed_client k mk un api =
     \<lparr>kc_Get = (\<lambda>n ns w. typed_get un (api_Get api k n ns w)),
      kc_Create = (\<lambda>x. api_Create api (mk x)), kc_Update = (\<lambda>x. api_Update api (mk x))\<rparr>"

fun un_Pipeline :: "kobject \<Rightarrow> Pipeline option" where
  "un_Pipeline (O_Pipeline x) = Some x" | "un_Pipeline _ = None"
fun un_PipelineRevision :: "kobject \<Rightarrow> PipelineRevision option" where
  "un_PipelineRevision (O_PipelineRevision x) = Some x" | "un_PipelineRevision _ = None"
fun un_ServiceAccount :: "kobject \<Rightarrow> service_account option" where
  "un_ServiceAccount (O_ServiceAccount x) = Some x" | "un_ServiceAccount _ = None"
fun un_Role :: "kobject \<Rightarrow> role option" where
  "un_Role (O_Role x) = Some x" | "un_Role _ = None"
fun un_ClusterRole :: "kobject \<Rightarrow> role option" where
  "un_ClusterRole (O_ClusterRole x) = Some x" | "un_ClusterRole _ = None"
fun un_RoleBinding :: "kobject \<Rightarrow> role_binding option" where
  "un_RoleBinding (O_RoleBinding x) = Some x" | "un_RoleBinding _ = None"
fun un_ClusterRoleBinding :: "kobject \<Rightarrow> role_binding option" where
  "un_ClusterRoleBinding (O_ClusterRoleBinding x) = Some x" | "un_ClusterRoleBinding _ = None"
fun un_StatefulSet :: "kobject \<Rightarrow> workload option" where
  "un_StatefulSet (O_StatefulSet x) = Some x" | "un_StatefulSet _ = None"
fun un_Service :: "kobject \<Rightarrow> service option" where
  "un_Service (O_Service x) = Some x" | "un_Service _ = None"
fun un_IngressRoute :: "kobject \<Rightarrow> ingress_route option" where
  "un_IngressRoute (O_IngressRoute x) = Some x" | "un_IngressRoute _ = None"

abbreviation "pipelines_of \<equiv> typed_client KPipeline O_Pipeline un_Pipeline"
abbreviation "revisions_of \<equiv> typed_client KPipelineRevision O_PipelineRevision un_PipelineRevision"
abbreviation "service_accounts_of \<equiv> typed_client KServiceAccount O_ServiceAccount un_ServiceAccount"
abbreviation "roles_of \<equiv> typed_client KRole O_Role un_Role"
abbreviation "cluster_roles_of \<equiv> typed_client KClusterRole O_ClusterRole un_ClusterRole"
abbreviation "role_bindings_of \<equiv> typed_client KRoleBinding O_RoleBinding un_RoleBinding"
abbreviation "cluster_role_bindings_of \<equiv>
  typed_client KClusterRoleBinding O_ClusterRoleBinding un_ClusterRoleBinding"
abbreviation "stateful_sets_of \<equiv> typed_client KStatefulSet O_StatefulSet un_StatefulSet"
abbreviation "services_of \<equiv> typed_client KService O_Service un_Service"
abbreviation "ingress_routes_of \<equiv> typed_client KIngressRoute O_IngressRoute un_IngressRoute"

section \<open>What the API server stores\<close>

text \<open>
  The fields the API server fills in when they are empty (the documented defaults of \<open>core/v1\<close>,
  \<open>apps/v1\<close> and \<open>rbac/v1\<close>); a custom resource has none.
\<close>

definition default_text :: "string \<Rightarrow> string \<Rightarrow> string" where
  "default_text d s = (if s = [] then d else s)"

definition container_defaults :: "container \<Rightarrow> container" where
  "container_defaults c = c\<lparr>c_Ports := map (\<lambda>p. p\<lparr>cp_Protocol := default_text ''TCP'' (cp_Protocol p)\<rparr>) (c_Ports c)\<rparr>"

definition volume_defaults :: "volume \<Rightarrow> volume" where
  "volume_defaults v = (case vol_Source v of VS_ConfigMap n None \<Rightarrow> v\<lparr>vol_Source := VS_ConfigMap n (Some 420)\<rparr> | _ \<Rightarrow> v)"

definition pod_defaults :: "pod_spec \<Rightarrow> pod_spec" where
  "pod_defaults p = p
     \<lparr>pod_InitContainers := map container_defaults (pod_InitContainers p),
      pod_Containers := map container_defaults (pod_Containers p),
      pod_RestartPolicy := default_text ''Always'' (pod_RestartPolicy p), pod_Volumes := map volume_defaults (pod_Volumes p)\<rparr>"

definition workload_defaults :: "workload \<Rightarrow> workload" where
  "workload_defaults s = s\<lparr>wl_Spec := (wl_Spec s)
     \<lparr>ws_Template := (ws_Template (wl_Spec s))\<lparr>pt_Spec := pod_defaults (pt_Spec (ws_Template (wl_Spec s)))\<rparr>,
      ws_Replicas := (case ws_Replicas (wl_Spec s) of None \<Rightarrow> Some 1 | Some n \<Rightarrow> Some n)\<rparr>\<rparr>"

definition service_port_defaults :: "service_port \<Rightarrow> service_port" where
  "service_port_defaults p = p\<lparr>sp_Protocol := default_text ''TCP'' (sp_Protocol p),
     sp_TargetPort := (if sp_TargetPort p \<in> {[], ''0''} then itoa_int (sp_Port p) else sp_TargetPort p)\<rparr>"

definition service_defaults :: "service \<Rightarrow> service" where
  "service_defaults s = s\<lparr>sv_Spec := (sv_Spec s)\<lparr>ss_Type := default_text ''ClusterIP'' (ss_Type (sv_Spec s)),
     ss_Ports := map service_port_defaults (ss_Ports (sv_Spec s))\<rparr>\<rparr>"

definition subject_defaults :: "rbac_subject \<Rightarrow> rbac_subject" where
  "subject_defaults u = (if su_Kind u \<in> {''User'', ''Group''}
     then u\<lparr>su_APIGroup := default_text ''rbac.authorization.k8s.io'' (su_APIGroup u)\<rparr> else u)"

definition role_binding_defaults :: "role_binding \<Rightarrow> role_binding" where
  "role_binding_defaults b = b\<lparr>rb_Subjects := map subject_defaults (rb_Subjects b),
     rb_RoleRef := (rb_RoleRef b)\<lparr>rr_APIGroup := default_text ''rbac.authorization.k8s.io'' (rr_APIGroup (rb_RoleRef b))\<rparr>\<rparr>"

fun server_defaults :: "kobject \<Rightarrow> kobject" where
  "server_defaults (O_StatefulSet s) = O_StatefulSet (workload_defaults s)"
| "server_defaults (O_Service s) = O_Service (service_defaults s)"
| "server_defaults (O_RoleBinding b) = O_RoleBinding (role_binding_defaults b)"
| "server_defaults (O_ClusterRoleBinding b) = O_ClusterRoleBinding (role_binding_defaults b)"
| "server_defaults x = x"

text \<open>
  The server also allots the address of a service and, unless it is of type \<open>ClusterIP\<close>, the ports on
  the nodes, and lists the secrets it makes for a service account.
\<close>

definition allotted :: "service \<Rightarrow> service \<Rightarrow> bool" where
  "allotted a b \<longleftrightarrow>
     (let spec = (sv_Spec a)\<lparr>ss_ClusterIP := ss_ClusterIP (sv_Spec b)\<rparr>;
          open_ports = map (\<lambda>p. p\<lparr>sp_NodePort := 0\<rparr>)
      in sv_Meta b = sv_Meta a
         \<and> (if ss_Type (sv_Spec a) = ''ClusterIP'' then sv_Spec b = spec
            else sv_Spec b = spec\<lparr>ss_Ports := ss_Ports (sv_Spec b)\<rparr>
              \<and> open_ports (ss_Ports (sv_Spec b)) = open_ports (ss_Ports (sv_Spec a))))"

fun stored_as :: "kobject \<Rightarrow> kobject \<Rightarrow> bool" where
  "stored_as (O_Service a) z = (case z of O_Service b \<Rightarrow> allotted (service_defaults a) b | _ \<Rightarrow> False)"
| "stored_as (O_ServiceAccount a) z = (case z of O_ServiceAccount b \<Rightarrow> b = a\<lparr>sa_Secrets := sa_Secrets b\<rparr> | _ \<Rightarrow> False)"
| "stored_as x z = (z = server_defaults x)"

text \<open>
  Documented behaviour of the API server for a single writer, and of the client of the manager, which
  reads from a cache and writes to the server.  \<open>live\<close> is what the server holds.  A successful write
  stores the object, with its defaults, under its key; the cache shows it at any later time, so what a
  read of that key returns next is left open, and no other key is touched.
\<close>

type_synonym 'w live = "'w \<Rightarrow> object_key \<rightharpoonup> kobject"

definition stored_in :: "'w api \<Rightarrow> 'w live \<Rightarrow> 'w \<Rightarrow> kobject \<Rightarrow> 'w \<Rightarrow> bool" where
  "stored_in api live w x w' \<longleftrightarrow>
     (\<exists>z. stored_as x z \<and> live w' = (live w)(obj_key x \<mapsto> z))
     \<and> (\<forall>k n ns. (k, n, ns) \<noteq> obj_key x \<longrightarrow> api_Get api k n ns w' = api_Get api k n ns w)"

definition api_server :: "'w api \<Rightarrow> 'w live \<Rightarrow> bool" where
  "api_server api live \<longleftrightarrow>
     (\<forall>k n ns w x. api_Get api k n ns w = ApiFound x \<longrightarrow> obj_key x = (k, n, ns))
     \<and> (\<forall>x w w'. api_Create api x w = (None, w') \<longrightarrow> stored_in api live w x w')
     \<and> (\<forall>x w w'. api_Update api x w = (None, w') \<longrightarrow> stored_in api live w x w')"

section \<open>Ensuring an object\<close>

text \<open>
  Whether the found object needs no update, and the object written when it does, for the pairs of
  objects of one kind; pipelines are written by \<open>Reconcile\<close> itself.
\<close>

fun up_to_date :: "kobject \<Rightarrow> kobject \<Rightarrow> bool" where
  "up_to_date (O_Pipeline x) z = (un_Pipeline z = Some x)"
| "up_to_date (O_PipelineRevision x) z = (case un_PipelineRevision z of Some y \<Rightarrow> rv_Hash y = rv_Hash x \<and> rv_Spec y = rv_Spec x | None \<Rightarrow> False)"
| "up_to_date (O_ServiceAccount x) z = (case un_ServiceAccount z of Some y \<Rightarrow> ServiceAccountEqual x y = [] | None \<Rightarrow> False)"
| "up_to_date (O_Role x) z = (case un_Role z of Some y \<Rightarrow> RoleEqual x y = [] | None \<Rightarrow> False)"
| "up_to_date (O_ClusterRole x) z = (case un_ClusterRole z of Some y \<Rightarrow> ClusterRoleEqual x y = [] | None \<Rightarrow> False)"
| "up_to_date (O_RoleBinding x) z = (case un_RoleBinding z of Some y \<Rightarrow> RoleBindingEqual x y = [] | None \<Rightarrow> False)"
| "up_to_date (O_ClusterRoleBinding x) z = (case un_ClusterRoleBinding z of Some y \<Rightarrow> ClusterRoleBindingEqual x y = [] | None \<Rightarrow> False)"
| "up_to_date (O_StatefulSet x) z = (case un_StatefulSet z of Some y \<Rightarrow> StatefulSetEqual x y = [] | None \<Rightarrow> False)"
| "up_to_date (O_Service x) z = (case un_Service z of Some y \<Rightarrow> ServiceEqual x y = [] | None \<Rightarrow> False)"
| "up_to_date (O_IngressRoute x) z = (case un_IngressRoute z of Some y \<Rightarrow> IngressRouteEqual x y = [] | None \<Rightarrow> False)"

fun write_object :: "kobject \<Rightarrow> kobject \<Rightarrow> kobject" where
  "write_object (O_Pipeline x) z = O_Pipeline x"
| "write_object (O_PipelineRevision x) z =
     (case un_PipelineRevision z of Some y \<Rightarrow> O_PipelineRevision (y\<lparr>rv_Hash := rv_Hash x, rv_Spec := rv_Spec x\<rparr>) | None \<Rightarrow> O_PipelineRevision x)"
| "write_object (O_ServiceAccount x) z =
     (case un_ServiceAccount z of Some y \<Rightarrow> O_ServiceAccount (write_service_account x y) | None \<Rightarrow> O_ServiceAccount x)"
| "write_object (O_Role x) z =
     (case un_Role z of Some y \<Rightarrow> O_Role (write_role x y) | None \<Rightarrow> O_Role x)"
| "write_object (O_ClusterRole x) z =
     (case un_ClusterRole z of Some y \<Rightarrow> O_ClusterRole (write_role x y) | None \<Rightarrow> O_ClusterRole x)"
| "write_object (O_RoleBinding x) z =
     (case un_RoleBinding z of Some y \<Rightarrow> O_RoleBinding (write_role_binding x y) | None \<Rightarrow> O_RoleBinding x)"
| "write_object (O_ClusterRoleBinding x) z =
     (case un_ClusterRoleBinding z of Some y \<Rightarrow> O_ClusterRoleBinding (write_role_binding x y) | None \<Rightarrow> O_ClusterRoleBinding x)"
| "write_object (O_StatefulSet x) z =
     (case un_StatefulSet z of Some y \<Rightarrow> O_StatefulSet (write_workload x y) | None \<Rightarrow> O_StatefulSet x)"
| "write_object (O_Service x) z =
     (case un_Service z of Some y \<Rightarrow> O_Service (write_service x y) | None \<Rightarrow> O_Service x)"
| "write_object (O_IngressRoute x) z =
     (case un_IngressRoute z of Some y \<Rightarrow> O_IngressRoute (write_ingress_route x y) | None \<Rightarrow> O_IngressRoute x)"

definition get_object :: "'w api \<Rightarrow> object_key \<Rightarrow> 'w \<Rightarrow> kobject api_get" where
  "get_object api key w = (case key of (k, n, ns) \<Rightarrow> api_Get api k n ns w)"

definition cache_at :: "'w api \<Rightarrow> 'w live \<Rightarrow> 'w \<Rightarrow> object_key \<Rightarrow> bool" where
  "cache_at api live w key \<longleftrightarrow>
     get_object api key w = (case live w key of None \<Rightarrow> ApiNotFound | Some x \<Rightarrow> ApiFound x)"

text \<open>The cache has caught up with the server.\<close>

definition cache_synced :: "'w api \<Rightarrow> 'w live \<Rightarrow> 'w \<Rightarrow> bool" where
  "cache_synced api live w \<longleftrightarrow> (\<forall>key. cache_at api live w key)"

definition ensure_object :: "'w api \<Rightarrow> kobject \<Rightarrow> 'w \<Rightarrow> api_error error_only \<times> 'w" where
  "ensure_object api x w =
     (case get_object api (obj_key x) w of
        ApiNotFound \<Rightarrow> api_Create api x w
      | ApiError e \<Rightarrow> (Some e, w)
      | ApiFound y \<Rightarrow> if up_to_date x y then (None, w) else api_Update api (write_object x y) w)"

fun ensure_objects :: "'w api \<Rightarrow> kobject list \<Rightarrow> 'w \<Rightarrow> api_error error_only \<times> 'w" where
  "ensure_objects api [] w = (None, w)"
| "ensure_objects api (x # xs) w =
     (case ensure_object api x w of
        (Some e, w') \<Rightarrow> (Some e, w')
      | (None, w') \<Rightarrow> ensure_objects api xs w')"

text \<open>Every typed \<open>Ensure...\<close> is \<open>ensure_object\<close>.\<close>

lemma api_found_key: "api_server api live \<Longrightarrow> api_Get api k n ns w = ApiFound x \<Longrightarrow> obj_key x = (k, n, ns)"
  by (simp add: api_server_def)

lemma typed_ensure:
  assumes api: "api_server api live"
    and key: "obj_key (mk x) = (k, n, ns)"
    and ofkind: "\<And>z. fst (obj_key z) = k \<Longrightarrow> \<exists>y. z = mk y"
    and un: "\<And>y. un (mk y) = Some y"
    and eq: "\<And>y. up_to_date (mk x) (mk y) \<longleftrightarrow> differ x y = []"
    and wr: "\<And>y. write_object (mk x) (mk y) = mk (write_back x y)"
  shows "ensure differ write_back n ns (typed_client k mk un api) x w = ensure_object api (mk x) w"
proof (cases "api_Get api k n ns w")
  case (ApiFound z)
  then obtain y where y: "z = mk y" using ofkind api_found_key [OF api ApiFound] by force
  with ApiFound show ?thesis
    by (simp add: ensure_def typed_client_def typed_get_def ensure_object_def get_object_def key un eq wr)
qed (simp_all add: ensure_def typed_client_def typed_get_def ensure_object_def get_object_def key)

lemma kind_cases:
  "fst (obj_key z) = KServiceAccount \<Longrightarrow> \<exists>y. z = O_ServiceAccount y"
  "fst (obj_key z) = KRole \<Longrightarrow> \<exists>y. z = O_Role y"
  "fst (obj_key z) = KClusterRole \<Longrightarrow> \<exists>y. z = O_ClusterRole y"
  "fst (obj_key z) = KRoleBinding \<Longrightarrow> \<exists>y. z = O_RoleBinding y"
  "fst (obj_key z) = KClusterRoleBinding \<Longrightarrow> \<exists>y. z = O_ClusterRoleBinding y"
  "fst (obj_key z) = KStatefulSet \<Longrightarrow> \<exists>y. z = O_StatefulSet y"
  "fst (obj_key z) = KService \<Longrightarrow> \<exists>y. z = O_Service y"
  "fst (obj_key z) = KIngressRoute \<Longrightarrow> \<exists>y. z = O_IngressRoute y"
  "fst (obj_key z) = KPipelineRevision \<Longrightarrow> \<exists>y. z = O_PipelineRevision y"
  "fst (obj_key z) = KPipeline \<Longrightarrow> \<exists>y. z = O_Pipeline y"
  by (cases z; simp)+

lemma typed_ensures:
  assumes "api_server api live"
  shows "EnsureServiceAccount (service_accounts_of api) a w = ensure_object api (O_ServiceAccount a) w"
    and "EnsureRole (roles_of api) r w = ensure_object api (O_Role r) w"
    and "EnsureRoleBinding (role_bindings_of api) b w = ensure_object api (O_RoleBinding b) w"
    and "EnsureStatefulSet (stateful_sets_of api) s w = ensure_object api (O_StatefulSet s) w"
    and "EnsureService (services_of api) v w = ensure_object api (O_Service v) w"
    and "EnsureIngressRoute (ingress_routes_of api) i w = ensure_object api (O_IngressRoute i) w"
  unfolding ensure_defs
  by (rule typed_ensure [OF assms]; simp add: kind_cases)+

text \<open>Cluster-wide objects are read with the namespace of their metadata, which is empty.\<close>

lemma typed_cluster_ensures:
  assumes "api_server api live"
  shows "EnsureClusterRole (cluster_roles_of api) r w = ensure_object api (O_ClusterRole r) w"
    and "EnsureClusterRoleBinding (cluster_role_bindings_of api) b w
           = ensure_object api (O_ClusterRoleBinding b) w"
  unfolding ensure_defs
  by (rule typed_ensure [OF assms]; simp add: kind_cases)+

section \<open>Ensured objects stay\<close>

fun object_meta_of :: "kobject \<Rightarrow> object_meta" where
  "object_meta_of (O_Pipeline p) = \<lparr>om_Name = pl_Name p, om_Namespace = pl_Namespace p,
     om_Labels = pl_Labels p, om_Annotations = [], om_Owners = []\<rparr>"
| "object_meta_of (O_PipelineRevision r) = rv_Meta r"
| "object_meta_of (O_ServiceAccount a) = sa_Meta a"
| "object_meta_of (O_Role r) = ro_Meta r"
| "object_meta_of (O_ClusterRole r) = ro_Meta r"
| "object_meta_of (O_RoleBinding b) = rb_Meta b"
| "object_meta_of (O_ClusterRoleBinding b) = rb_Meta b"
| "object_meta_of (O_StatefulSet s) = wl_Meta s"
| "object_meta_of (O_Service s) = sv_Meta s"
| "object_meta_of (O_IngressRoute r) = ir_Meta r"

fun object_wf :: "kobject \<Rightarrow> bool" where
  "object_wf (O_StatefulSet s) = workload_wf s"
| "object_wf (O_Service s) = service_wf s"
| "object_wf x = meta_wf (object_meta_of x)"

lemma obj_key_meta: "obj_key x = (fst (obj_key x), om_Name (object_meta_of x), om_Namespace (object_meta_of x))"
  by (cases x) auto

lemma up_to_date_self: "object_wf x \<Longrightarrow> up_to_date x x"
  by (cases x) (auto intro: roles.differ_self cluster_roles.differ_self role_bindings.differ_self
      cluster_role_bindings.differ_self services.differ_self service_accounts.differ_self
      stateful_sets.differ_self ingress_routes.differ_self)

lemma write_object_key: "fst (obj_key x) = fst (obj_key y) \<Longrightarrow> fst (obj_key x) \<noteq> KPipeline
  \<Longrightarrow> obj_key (write_object x y) = obj_key y"
  by (cases x; cases y)
     (auto simp: write_service_account_def write_role_def write_role_binding_def write_workload_def
       write_service_def write_ingress_route_def)

lemma write_object_up_to_date:
  assumes "fst (obj_key x) = fst (obj_key y)" and "object_wf x"
    and "meta_agrees (object_meta_of x) (object_meta_of y)"
  shows "up_to_date x (write_object x y)"
  using assms
  by (cases x; cases y)
     (auto intro: roles.written_equal cluster_roles.written_equal role_bindings.written_equal
      cluster_role_bindings.written_equal services.written_equal service_accounts.written_equal
      stateful_sets.written_equal ingress_routes.written_equal)

section \<open>Comparisons do not see the defaults\<close>

text \<open>
  A wanted object that spells out every compared field for which the server has a default.  An object
  that does not would be written again by every run.
\<close>

fun explicit :: "kobject \<Rightarrow> bool" where
  "explicit (O_Service s) \<longleftrightarrow> ss_Type (sv_Spec s) = ''ClusterIP'' \<and> list_all (\<lambda>p. service_port_defaults p = p) (ss_Ports (sv_Spec s))"
| "explicit (O_RoleBinding b) \<longleftrightarrow> role_binding_defaults b = b"
| "explicit (O_ClusterRoleBinding b) \<longleftrightarrow> role_binding_defaults b = b"
| "explicit x \<longleftrightarrow> True"

lemma find_map_name:
  assumes "\<And>x. nm (f x) = nm x"
  shows "find (\<lambda>y. n = nm y) (map f xs) = map_option f (find (\<lambda>y. n = nm y) xs)"
  by (induction xs) (simp_all add: assms)

lemma named_diff_map:
  assumes "\<And>x. nm (f x) = nm x" and "\<And>p s x. s \<in> set spec \<Longrightarrow> eq p s x = [] \<Longrightarrow> eq p s (f x) = []"
    and "named_diff nm eq p i spec actual = []"
  shows "named_diff nm eq p i spec (map f actual) = []"
  using assms(2,3)
proof (induction spec arbitrary: i)
  case (Cons sc spec)
  then obtain ac where "find (\<lambda>y. nm sc = nm y) actual = Some ac" "eq (indexed p i) sc ac = []"
    "named_diff nm eq p (Suc i) spec actual = []" by (auto split: option.splits)
  with Cons show ?case by (simp add: find_map_name [where nm = nm and f = f, OF assms(1)])
qed simp

lemma ContainersEqual_defaults:
  "ContainersEqual p cs ds = [] \<Longrightarrow> ContainersEqual p cs (map container_defaults ds) = []"
  unfolding ContainersEqual_def
  by (erule named_diff_map [rotated 2]) (simp_all add: container_defaults_def ContainerEqual_def)

lemma StatefulSetEqual_defaults: "StatefulSetEqual s t = [] \<Longrightarrow> StatefulSetEqual s (workload_defaults t) = []"
  by (simp add: StatefulSetEqual_def StatefulSetSpecEqual_def PodTemplateSpecEqual_def PodSpecEqual_def
      workload_defaults_def pod_defaults_def ContainersEqual_defaults)

lemma port_defaults_fields:
  "sp_Name (service_port_defaults q) = sp_Name q" "sp_Port (service_port_defaults q) = sp_Port q"
  "sp_NodePort (service_port_defaults q) = sp_NodePort q"
  "sp_Protocol (service_port_defaults q) = default_text ''TCP'' (sp_Protocol q)"
  "sp_TargetPort (service_port_defaults q) = (if sp_TargetPort q \<in> {[], ''0''} then itoa_int (sp_Port q) else sp_TargetPort q)"
  by (simp_all add: service_port_defaults_def)

lemma ServicePortEqual_defaults:
  assumes "service_port_defaults a = a" and "ServicePortEqual p a b = []"
  shows "ServicePortEqual p a (service_port_defaults b) = []"
proof -
  have e: "sp_Protocol b = sp_Protocol a" "sp_Port b = sp_Port a" "sp_TargetPort b = sp_TargetPort a"
    "sp_NodePort b = sp_NodePort a"
    using assms(2) by (auto simp: ServicePortEqual_def StringEqual_Nil Int32Equal_def split: if_splits)
  have "default_text ''TCP'' (sp_Protocol a) = sp_Protocol a"
    "(if sp_TargetPort a \<in> {[], ''0''} then itoa_int (sp_Port a) else sp_TargetPort a) = sp_TargetPort a"
    by (metis port_defaults_fields(4) assms(1), metis port_defaults_fields(5) assms(1))
  then show ?thesis unfolding ServicePortEqual_def port_defaults_fields e by (simp add: Int32Equal_def StringEqual_def)
qed

lemma ServiceEqual_stored:
  assumes "explicit (O_Service c)" and "allotted (service_defaults a) b" and "ServiceEqual c a = []"
  shows "ServiceEqual c b = []"
proof -
  have ty: "ss_Type (sv_Spec a) = ''ClusterIP''"
    using assms(1,3) by (auto simp: ServiceEqual_def ServiceSpecEqual_def StringEqual_Nil)
  have "ServicePortsEqual p (ss_Ports (sv_Spec c)) (map service_port_defaults (ss_Ports (sv_Spec a))) = []"
    if "ServicePortsEqual p (ss_Ports (sv_Spec c)) (ss_Ports (sv_Spec a)) = []" for p
    using that unfolding ServicePortsEqual_def
  proof (rule named_diff_map [rotated 2])
    show "ServicePortEqual q s (service_port_defaults x) = []"
      if "s \<in> set (ss_Ports (sv_Spec c))" "ServicePortEqual q s x = []" for q s x
      using ServicePortEqual_defaults that assms(1) by (simp add: list_all_iff)
  qed (rule port_defaults_fields)
  moreover obtain ip where "sv_Meta b = sv_Meta a" "sv_Spec b = (sv_Spec a)\<lparr>ss_Type := ''ClusterIP'',
      ss_Ports := map service_port_defaults (ss_Ports (sv_Spec a)), ss_ClusterIP := ip\<rparr>"
    using assms(2) ty by (auto simp: allotted_def service_defaults_def default_text_def Let_def)
  ultimately show ?thesis
    using assms(3) ty by (simp add: ServiceEqual_def ServiceSpecEqual_def StringEqual_Nil)
qed

lemma all_matched_iff:
  "all_matched p eq i spec actual = [] \<longleftrightarrow> (\<forall>sr \<in> set spec. \<exists>ar \<in> set actual. eq sr ar = [])"
proof
  show "all_matched p eq i spec actual = []" if "\<forall>sr \<in> set spec. \<exists>ar \<in> set actual. eq sr ar = []"
    using that by (intro all_matched_Nil) blast
  show "\<forall>sr \<in> set spec. \<exists>ar \<in> set actual. eq sr ar = []" if "all_matched p eq i spec actual = []"
    using that
  proof (induction spec arbitrary: i)
    case (Cons sr spec)
    obtain m res where "find_match eq i sr 0 actual [] = (m, res)" by fastforce
    with Cons find_match_iff [of eq i sr 0 actual "[]"] show ?case
      by (cases m) (auto split: if_splits)
  qed simp
qed

lemma RoleBindingEqual_defaults:
  assumes "role_binding_defaults b = b"
    and "SubjectsEqual p (rb_Subjects b) (rb_Subjects c) = []" and "RoleRefEqual q (rb_RoleRef b) (rb_RoleRef c) = []"
  shows "SubjectsEqual p (rb_Subjects b) (rb_Subjects (role_binding_defaults c)) = []
    \<and> RoleRefEqual q (rb_RoleRef b) (rb_RoleRef (role_binding_defaults c)) = []"
proof -
  have d: "map subject_defaults (rb_Subjects b) = rb_Subjects b"
    using arg_cong [OF assms(1), of rb_Subjects] by (simp add: role_binding_defaults_def)
  have g: "default_text ''rbac.authorization.k8s.io'' (rr_APIGroup (rb_RoleRef b)) = rr_APIGroup (rb_RoleRef b)"
    using arg_cong [OF assms(1), of "\<lambda>b. rr_APIGroup (rb_RoleRef b)"] by (simp add: role_binding_defaults_def)
  have eq: "SubjectEqual p s a = [] \<longleftrightarrow> s = a" for s a
    by (cases s; cases a) (auto simp: SubjectEqual_def StringEqual_Nil)
  have "subject_defaults s = s" if "s \<in> set (rb_Subjects b)" for s
    using map_idI [of "rb_Subjects b"] d that by (metis map_eq_conv list.map_ident)
  then have "SubjectsEqual p (rb_Subjects b) (map subject_defaults (rb_Subjects c)) = []"
    using assms(2) unfolding SubjectsEqual_def all_matched_iff eq by (metis image_eqI list.set_map)
  moreover have "RoleRefEqual q (rb_RoleRef b) (rb_RoleRef (role_binding_defaults c)) = []"
    using assms(3) g by (simp add: RoleRefEqual_def StringEqual_Nil role_binding_defaults_def)
  ultimately show ?thesis by (simp add: role_binding_defaults_def)
qed

lemma stored_as_up_to_date:
  assumes "explicit u" and "stored_as x z" and "up_to_date u x"
  shows "up_to_date u z"
proof (cases u)
  case (O_StatefulSet s)
  then show ?thesis using assms StatefulSetEqual_defaults by (cases x) auto
next
  case (O_Service s)
  then show ?thesis using assms ServiceEqual_stored by (cases x; cases z) auto
next
  case (O_ServiceAccount a)
  obtain b c where x: "x = O_ServiceAccount b" "z = O_ServiceAccount c" "c = b\<lparr>sa_Secrets := sa_Secrets c\<rparr>"
    using assms O_ServiceAccount by (cases x; cases z) auto
  have "sa_Meta c = sa_Meta b" by (subst x(3)) simp
  with O_ServiceAccount x show ?thesis using assms(3) by (simp add: ServiceAccountEqual_def)
next
  case (O_RoleBinding b)
  then show ?thesis using assms RoleBindingEqual_defaults [of b]
    by (cases x) (auto simp: RoleBindingEqual_def role_binding_defaults_def)
next
  case (O_ClusterRoleBinding b)
  then show ?thesis using assms RoleBindingEqual_defaults [of b]
    by (cases x) (auto simp: ClusterRoleBindingEqual_def role_binding_defaults_def)
qed (use assms in \<open>cases x; auto\<close>)+

section \<open>Settled objects\<close>

text \<open>An object is settled in a world when what the server holds under its key needs no update.\<close>

definition settled_in :: "'w live \<Rightarrow> 'w \<Rightarrow> kobject \<Rightarrow> bool" where
  "settled_in live w x \<longleftrightarrow> (\<exists>y. live w (obj_key x) = Some y \<and> up_to_date x y)"

definition metadata_agrees :: "'w api \<Rightarrow> 'w \<Rightarrow> kobject \<Rightarrow> bool" where
  "metadata_agrees api w x \<longleftrightarrow>
     (case get_object api (obj_key x) w of
        ApiFound y \<Rightarrow> meta_agrees (object_meta_of x) (object_meta_of y) | _ \<Rightarrow> True)"

lemma ensure_object_settled:
  "cache_at api live w (obj_key x) \<Longrightarrow> settled_in live w x \<Longrightarrow> ensure_object api x w = (None, w)"
  by (auto simp: settled_in_def ensure_object_def cache_at_def)

lemma ensure_objects_settled:
  "cache_synced api live w \<Longrightarrow> list_all (settled_in live w) xs \<Longrightarrow> ensure_objects api xs w = (None, w)"
proof (induction xs)
  case (Cons x xs)
  have "ensure_object api x w = (None, w)"
    by (rule ensure_object_settled [where live = live])
       (use Cons.prems in \<open>auto simp: cache_synced_def simp del: split_paired_All\<close>)
  with Cons show ?case by simp
qed simp

lemma ensure_objects_append:
  "ensure_objects api (xs @ ys) w =
     (case ensure_objects api xs w of (Some e, w') \<Rightarrow> (Some e, w') | (None, w') \<Rightarrow> ensure_objects api ys w')"
  by (induction xs arbitrary: w) (auto split: prod.splits option.splits)

lemma write_stored:
  assumes "api_server api live" and "api_Create api x w = (None, w') \<or> api_Update api x w = (None, w')"
  shows "\<exists>z. live w' (obj_key x) = Some z \<and> stored_as x z"
    and "key \<noteq> obj_key x \<Longrightarrow> get_object api key w' = get_object api key w \<and> live w' key = live w key"
proof -
  have st: "stored_in api live w x w'" using assms unfolding api_server_def by blast
  show "\<exists>z. live w' (obj_key x) = Some z \<and> stored_as x z"
    using st unfolding stored_in_def by auto
  show "get_object api key w' = get_object api key w \<and> live w' key = live w key" if "key \<noteq> obj_key x"
  proof -
    obtain k' n' ns' where key: "key = (k', n', ns')" by (cases key) auto
    with that st show ?thesis by (auto simp: stored_in_def get_object_def)
  qed
qed

lemma write_settles:
  assumes "api_server api live" and "api_Create api x w = (None, w') \<or> api_Update api x w = (None, w')"
    and "up_to_date u x" and "obj_key u = obj_key x" and "explicit u"
  shows "settled_in live w' u"
  using write_stored(1) [OF assms(1,2)] stored_as_up_to_date [OF assms(5) _ assms(3)] assms(4)
  by (auto simp: settled_in_def)

text \<open>What a key other than that of the object has: neither the cache nor the server changes.\<close>

lemma ensure_object_frame:
  assumes api: "api_server api live" and ok: "ensure_object api x w = (None, w')" and "key \<noteq> obj_key x"
    and np: "fst (obj_key x) \<noteq> KPipeline"
  shows "get_object api key w' = get_object api key w \<and> live w' key = live w key"
proof (cases "get_object api (obj_key x) w")
  case ApiNotFound
  then have "api_Create api x w = (None, w')" using ok by (simp add: ensure_object_def)
  then show ?thesis using write_stored(2) [OF api, of x w w'] assms(3) by simp
next
  case (ApiError e)
  then show ?thesis using ok by (simp add: ensure_object_def)
next
  case (ApiFound y)
  then have key: "obj_key y = obj_key x"
    using api by (auto simp: get_object_def api_server_def split: prod.splits)
  show ?thesis
  proof (cases "up_to_date x y")
    case False
    then have "api_Update api (write_object x y) w = (None, w')"
      using ok ApiFound by (simp add: ensure_object_def)
    then show ?thesis
      using write_stored(2) [OF api, of "write_object x y" w w'] write_object_key [of x y] key np assms(3)
      by simp
  qed (use ok ApiFound in \<open>simp add: ensure_object_def\<close>)
qed

lemma ensure_object_settles:
  assumes api: "api_server api live" and ok: "ensure_object api x w = (None, w')"
    and wf: "object_wf x" "explicit x" and meta: "metadata_agrees api w x" and np: "fst (obj_key x) \<noteq> KPipeline"
    and cache: "cache_at api live w (obj_key x)"
  shows "settled_in live w' x"
proof (cases "get_object api (obj_key x) w")
  case ApiNotFound
  then have "api_Create api x w = (None, w')" using ok by (simp add: ensure_object_def)
  then show ?thesis
    using write_settles [OF api, of x w w' x] up_to_date_self [OF wf(1)] wf(2) by simp
next
  case (ApiError e)
  then show ?thesis using ok by (simp add: ensure_object_def)
next
  case (ApiFound y)
  then have key: "obj_key y = obj_key x"
    using api by (auto simp: get_object_def api_server_def split: prod.splits)
  show ?thesis
  proof (cases "up_to_date x y")
    case True
    then show ?thesis using ok ApiFound cache by (auto simp: ensure_object_def settled_in_def cache_at_def split: option.splits)
  next
    case False
    then have u: "api_Update api (write_object x y) w = (None, w')"
      using ok ApiFound by (simp add: ensure_object_def)
    have "obj_key (write_object x y) = obj_key x" using write_object_key [of x y] key np by simp
    moreover have "up_to_date x (write_object x y)"
      by (rule write_object_up_to_date) (use key wf meta ApiFound in \<open>auto simp: metadata_agrees_def\<close>)
    ultimately show ?thesis
      using write_settles [OF api, of "write_object x y" w w' x] u wf(2) by simp
  qed
qed

text \<open>After a successful run over objects with different keys all of them are settled, and the
  objects under other keys are untouched.\<close>

definition ensurable :: "kobject list \<Rightarrow> bool" where
  "ensurable xs \<longleftrightarrow> distinct (map obj_key xs)
     \<and> list_all (\<lambda>x. object_wf x \<and> fst (obj_key x) \<noteq> KPipeline) xs"

lemma ensure_objects_frame:
  assumes "api_server api live" and "ensure_objects api xs w = (None, w')"
    and "list_all (\<lambda>x. fst (obj_key x) \<noteq> KPipeline) xs" and "key \<notin> obj_key ` set xs"
  shows "get_object api key w' = get_object api key w \<and> live w' key = live w key"
  using assms(2-4)
proof (induction xs arbitrary: w)
  case (Cons x xs)
  then obtain w1 where w1: "ensure_object api x w = (None, w1)" "ensure_objects api xs w1 = (None, w')"
    by (auto split: prod.splits option.splits)
  have "get_object api key w1 = get_object api key w \<and> live w1 key = live w key"
    by (rule ensure_object_frame [OF assms(1) w1(1)]) (use Cons.prems in auto)
  then show ?case using Cons.IH [OF w1(2)] Cons.prems by simp
qed simp

lemma ensure_objects_settles:
  assumes "api_server api live" and "ensure_objects api xs w = (None, w')" and "ensurable xs"
    and "list_all (metadata_agrees api w) xs" and "list_all explicit xs"
    and "list_all (\<lambda>x. cache_at api live w (obj_key x)) xs"
  shows "list_all (settled_in live w') xs"
  using assms(2-6)
proof (induction xs arbitrary: w)
  case (Cons x xs)
  then obtain w1 where w1: "ensure_object api x w = (None, w1)" "ensure_objects api xs w1 = (None, w')"
    by (auto split: prod.splits option.splits)
  have x: "object_wf x" "fst (obj_key x) \<noteq> KPipeline" and rest: "ensurable xs"
    and notin: "obj_key x \<notin> obj_key ` set xs"
    using Cons.prems(2) by (auto simp: ensurable_def)
  have same: "get_object api (obj_key y) w1 = get_object api (obj_key y) w \<and> live w1 (obj_key y) = live w (obj_key y)"
    if "y \<in> set xs" for y
  proof (rule ensure_object_frame [OF assms(1) w1(1) _ x(2)])
    show "obj_key y \<noteq> obj_key x" using that notin by (metis image_eqI)
  qed
  then have "list_all (metadata_agrees api w1) xs" "list_all (\<lambda>x. cache_at api live w1 (obj_key x)) xs"
    using Cons.prems(3,5) by (auto simp: list_all_iff metadata_agrees_def cache_at_def)
  with Cons.IH [OF w1(2) rest] Cons.prems(4) have "list_all (settled_in live w') xs" by simp
  moreover have "settled_in live w1 x"
    by (rule ensure_object_settles [OF assms(1) w1(1) x(1) _ _ x(2)]) (use Cons.prems(3-5) in simp_all)
  moreover have "live w' (obj_key x) = live w1 (obj_key x)"
    using ensure_objects_frame [OF assms(1) w1(2) _ notin] rest by (auto simp: ensurable_def list_all_iff)
  ultimately have "list_all (settled_in live w') xs" "settled_in live w' x"
    by (simp_all add: settled_in_def)
  then show ?case by simp
qed simp

end
