(* ===== verification/Pipeline_Controller.thy ===== *)
theory Pipeline_Controller
  imports Cluster_API Controller_Config Reconcile_Util
begin

text \<open>
  The reconciler of a pipeline (\<open>pkg/controller/pipeline/pipeline_controller.go\<close>, with the
  interface of \<open>network.go\<close> and its Contour implementation in \<open>contour/reconciler.go\<close>): from a
  pipeline it derives a revision, service accounts, roles and bindings, and a stateful set and a
  service for the pipeline agent, each link agent and each task agent, wired together through
  environment variables and annotations.  The API client, the listing of agent resources, JSON and
  YAML, hashing, owner references and the event recorder are parameters, fields of \<open>reconciler\<close>.
\<close>

section \<open>The reconciler and its parameters\<close>

record agent_resource =
  ag_Name :: string
  ag_Container :: "container option"

record NetworkRoute =
  nr_Name :: string
  nr_Port :: int
  nr_EnableWebsockets :: bool
  nr_PrefixRewrite :: string

record executor_resource =
  tx_Type :: string
  tx_Container :: "container option"
  tx_Routes :: "NetworkRoute list"

record Frontend =
  fe_ServiceName :: string
  fe_Route :: "NetworkRoute option"

record TaskExecutor =
  te_TaskName :: string
  te_ServiceName :: string
  te_Routes :: "NetworkRoute list"

record NetworkReconcileRequest =
  nq_Name :: string
  nq_Namespace :: string
  nq_Pipeline :: Pipeline
  nq_Frontend :: Frontend
  nq_TaskExecutors :: "TaskExecutor list"

datatype pipeline_event =
  EvInvalid validation_error | EvRevision string | EvValid | EvNoExecutor string string

datatype rec_error =
    RE_Api api_error
  | RE_List string
  | RE_Config config_error
  | RE_Owner string
  | RE_Marshal string
  | RE_NoLink string
  | RE_Panic

record 'w network =
  nw_Reconcile :: "NetworkReconcileRequest \<Rightarrow> 'w \<Rightarrow> (reconcile_result \<times> rec_error error_only) \<times> 'w"
  nw_SetPodAnnotations :: "object_meta \<Rightarrow> object_meta"

text \<open>
  \<open>rc_env_order\<close> and \<open>rc_domain_order\<close> are the orders in which one run of the code ranges over the
  map of environment variables and over the domains.
\<close>

record 'w reconciler =
  rc_api :: "'w api"
  rc_network :: "'w network"
  rc_pipeline_agents :: "'w \<Rightarrow> agent_resource lister"
  rc_link_agents :: "'w \<Rightarrow> agent_resource lister"
  rc_task_agents :: "'w \<Rightarrow> agent_resource lister"
  rc_registries :: "'w \<Rightarrow> agent_resource lister"
  rc_executors :: "'w \<Rightarrow> executor_resource lister"
  rc_filesystems :: "'w \<Rightarrow> (string, (string \<times> string \<times> nat list) list) go_result"
  rc_domain_config :: "'w \<Rightarrow> string \<Rightarrow> (string \<times> string) list config_get"
  rc_services_config :: "'w \<Rightarrow> string \<Rightarrow> (string, string) gomap config_get"
  rc_yaml_selector :: "string \<Rightarrow> (string, labelSelector) go_result"
  rc_yaml_services :: "string \<Rightarrow> (string, Services) go_result"
  rc_sha1 :: "string \<Rightarrow> string"
  rc_hash_spec :: "PipelineSpec \<Rightarrow> string"
  rc_owner :: "Pipeline \<Rightarrow> object_meta \<Rightarrow> (string, object_meta) go_result"
  rc_record :: "pipeline_event \<Rightarrow> 'w \<Rightarrow> 'w"
  rc_marshal_container :: "container option \<Rightarrow> (string, string) go_result"
  rc_marshal_labels :: "(string, string) gomap \<Rightarrow> string"
  rc_env_order :: "(string, string) gomap \<Rightarrow> (string, string) gomap"
  rc_domain_order :: "(string, labelSelector) gomap \<Rightarrow> (string, labelSelector) gomap"

section \<open>Steps\<close>

text \<open>
  A step returns a result, what it contributes to the network request, and possibly an error.  A
  panic ends the run like an error that nothing handles.
\<close>

record step_out =
  so_Result :: reconcile_result
  so_Frontend :: "Frontend option"
  so_Executors :: "TaskExecutor list"
  so_Error :: "rec_error option"

type_synonym 'w step = "'w \<Rightarrow> step_out \<times> 'w"

definition ok_out :: step_out where
  "ok_out = \<lparr>so_Result = no_result, so_Frontend = None, so_Executors = [], so_Error = None\<rparr>"

definition requeue_10s :: reconcile_result where
  "requeue_10s = \<lparr>rr_Requeue = True, rr_RequeueAfter = 10 * 10 ^ 9\<rparr>"

definition fail_with :: "step_out \<Rightarrow> rec_error \<Rightarrow> 'w \<Rightarrow> step_out \<times> 'w" where
  "fail_with out' e w = (out'\<lparr>so_Error := Some e\<rparr>, w)"

text \<open>\<open>if err := util.Ensure...; err != nil { return reconcile.Result{}, ..., err }\<close>\<close>

definition on_ok :: "step_out \<Rightarrow> api_error error_only \<times> 'w \<Rightarrow> 'w step \<Rightarrow> step_out \<times> 'w" where
  "on_ok out' r k = (case r of (Some e, w) \<Rightarrow> fail_with out' (RE_Api e) w | (None, w) \<Rightarrow> k w)"

text \<open>\<open>if err := controllerutil.SetControllerReference(instance, object, r.scheme); err != nil\<close>\<close>

definition with_owner ::
  "'w reconciler \<Rightarrow> Pipeline \<Rightarrow> step_out \<Rightarrow> object_meta \<Rightarrow> 'w \<Rightarrow> (object_meta \<Rightarrow> 'w step) \<Rightarrow> step_out \<times> 'w" where
  "with_owner r p out' m w k =
     (case rc_owner r p m of Inl e \<Rightarrow> fail_with out' (RE_Owner e) w | Inr m' \<Rightarrow> k m' w)"

definition plain_meta :: "string \<Rightarrow> string \<Rightarrow> (string, string) gomap \<Rightarrow> object_meta" where
  "plain_meta name ns ls = \<lparr>om_Name = name, om_Namespace = ns, om_Labels = ls, om_Annotations = [], om_Owners = []\<rparr>"

section \<open>Revision, accounts and access control\<close>

definition pipeline_revision :: "'w reconciler \<Rightarrow> Pipeline \<Rightarrow> PipelineRevision" where
  "pipeline_revision r p =
     (let hash = pst_Revision (pl_Status p) in
      \<lparr>rv_Meta = plain_meta (CreatePipelineRevisionName (rc_sha1 r) (pl_Name p) hash) (pl_Namespace p)
         [(''pipeline'', pl_Name p), (''hash'', hash)],
       rv_Hash = hash, rv_Spec = pl_Spec p\<rparr>)"

definition ensurePipelineRevision :: "'w reconciler \<Rightarrow> Pipeline \<Rightarrow> 'w step" where
  "ensurePipelineRevision r p w =
     (let revision = pipeline_revision r p; client = revisions_of (rc_api r) in
      with_owner r p ok_out (rv_Meta revision) w (\<lambda>m w.
        let revision = revision\<lparr>rv_Meta := m\<rparr> in
        case kc_Get client (om_Name m) (om_Namespace m) w of
          ApiNotFound \<Rightarrow> on_ok ok_out (kc_Create client revision w) (Pair ok_out)
        | ApiError e \<Rightarrow> fail_with ok_out (RE_Api e) w
        | ApiFound found \<Rightarrow>
            if rv_Hash found \<noteq> rv_Hash revision \<or> rv_Spec found \<noteq> rv_Spec revision
            then on_ok ok_out (kc_Update client
                   (found\<lparr>rv_Hash := rv_Hash revision, rv_Spec := rv_Spec revision\<rparr>) w) (Pair ok_out)
            else (ok_out, w)))"

definition service_account_named :: "string \<Rightarrow> string \<Rightarrow> service_account" where
  "service_account_named name ns = \<lparr>sa_Meta = plain_meta name ns [], sa_Secrets = [],
     sa_ImagePullSecrets = [], sa_AutomountServiceAccountToken = None\<rparr>"

definition ensureAgentsServiceAccount :: "'w reconciler \<Rightarrow> Pipeline \<Rightarrow> 'w step" where
  "ensureAgentsServiceAccount r p w =
     (let sa = service_account_named (CreatePipelineAgentsServiceAccountName (rc_sha1 r) (pl_Name p)) (pl_Namespace p) in
      with_owner r p ok_out (sa_Meta sa) w (\<lambda>m w.
        on_ok ok_out (EnsureServiceAccount (service_accounts_of (rc_api r)) (sa\<lparr>sa_Meta := m\<rparr>) w) (Pair ok_out)))"

definition ensureExecutorsServiceAccount :: "'w reconciler \<Rightarrow> Pipeline \<Rightarrow> 'w step" where
  "ensureExecutorsServiceAccount r p w =
     (let sa = service_account_named (CreatePipelineExecutorsServiceAccountName (rc_sha1 r) (pl_Name p)) (pl_Namespace p) in
      with_owner r p ok_out (sa_Meta sa) w (\<lambda>m w.
        on_ok ok_out (EnsureServiceAccount (service_accounts_of (rc_api r)) (sa\<lparr>sa_Meta := m\<rparr>) w) (Pair ok_out)))"

definition allow :: "string list \<Rightarrow> string list \<Rightarrow> string list \<Rightarrow> policy_rule" where
  "allow groups resources verbs = \<lparr>pr_Verbs = Some verbs, pr_APIGroups = Some groups,
     pr_Resources = Some resources, pr_ResourceNames = None, pr_NonResourceURLs = None\<rparr>"

definition agents_role :: "'w reconciler \<Rightarrow> Pipeline \<Rightarrow> role" where
  "agents_role r p =
     \<lparr>ro_Meta = plain_meta (CreatePipelineAgentsRoleName (rc_sha1 r) (pl_Name p)) (pl_Namespace p) [],
      ro_Rules =
        [allow [''''] [''pods'', ''services'', ''configmaps'', ''persistentvolumeclaims'']
           [''get'', ''list'', ''watch'', ''create'', ''update'', ''patch'', ''delete''],
         allow [''koalja.aljabr.io''] [''pipelines''] [''get'', ''list'', ''watch'']]\<rparr>"

definition service_account_subject :: "string \<Rightarrow> string \<Rightarrow> rbac_subject" where
  "service_account_subject name ns =
     \<lparr>su_APIGroup = [], su_Kind = ''ServiceAccount'', su_Name = name, su_Namespace = ns\<rparr>"

definition rbac_group :: string where
  "rbac_group = ''rbac.authorization.k8s.io''"

definition agents_role_binding :: "'w reconciler \<Rightarrow> Pipeline \<Rightarrow> role_binding" where
  "agents_role_binding r p =
     \<lparr>rb_Meta = plain_meta (CreatePipelineAgentsRoleBindingName (rc_sha1 r) (pl_Name p)) (pl_Namespace p) [],
      rb_Subjects = [service_account_subject
        (CreatePipelineAgentsServiceAccountName (rc_sha1 r) (pl_Name p)) (pl_Namespace p)],
      rb_RoleRef = \<lparr>rr_APIGroup = rbac_group, rr_Kind = ''Role'',
        rr_Name = CreatePipelineAgentsRoleName (rc_sha1 r) (pl_Name p)\<rparr>\<rparr>"

text \<open>
  The owner of the binding is never set: the second call of \<open>SetControllerReference\<close> is given the
  role again, whose owner it sets a second time, and its result is used for the error only.
\<close>

definition ensureAgentsRoleAndBinding :: "'w reconciler \<Rightarrow> Pipeline \<Rightarrow> 'w step" where
  "ensureAgentsRoleAndBinding r p w =
     (let role = agents_role r p in
      with_owner r p ok_out (ro_Meta role) w (\<lambda>m w.
        on_ok ok_out (EnsureRole (roles_of (rc_api r)) (role\<lparr>ro_Meta := m\<rparr>) w) (\<lambda>w.
          with_owner r p ok_out m w (\<lambda>_ w.
            on_ok ok_out (EnsureRoleBinding (role_bindings_of (rc_api r)) (agents_role_binding r p) w)
              (Pair ok_out)))))"

definition agents_cluster_role :: "'w reconciler \<Rightarrow> Pipeline \<Rightarrow> role" where
  "agents_cluster_role r p =
     \<lparr>ro_Meta = plain_meta
        (CreatePipelineAgentsClusterRoleName (rc_sha1 r) (pl_Name p) (pl_Namespace p)) [] [],
      ro_Rules = [allow [''''] [''persistentvolumes''] [''get'', ''list'', ''watch'', ''delete'']]\<rparr>"

definition agents_cluster_role_binding :: "'w reconciler \<Rightarrow> Pipeline \<Rightarrow> role_binding" where
  "agents_cluster_role_binding r p =
     \<lparr>rb_Meta = plain_meta
        (CreatePipelineAgentsClusterRoleBindingName (rc_sha1 r) (pl_Name p) (pl_Namespace p)) [] [],
      rb_Subjects = [service_account_subject
        (CreatePipelineAgentsServiceAccountName (rc_sha1 r) (pl_Name p)) (pl_Namespace p)],
      rb_RoleRef = \<lparr>rr_APIGroup = rbac_group, rr_Kind = ''ClusterRole'',
        rr_Name = CreatePipelineAgentsClusterRoleName (rc_sha1 r) (pl_Name p) (pl_Namespace p)\<rparr>\<rparr>"

definition ensureAgentsClusterRoleAndBinding :: "'w reconciler \<Rightarrow> Pipeline \<Rightarrow> 'w step" where
  "ensureAgentsClusterRoleAndBinding r p w =
     (let role = agents_cluster_role r p in
      with_owner r p ok_out (ro_Meta role) w (\<lambda>m w.
        on_ok ok_out (EnsureClusterRole (cluster_roles_of (rc_api r)) (role\<lparr>ro_Meta := m\<rparr>) w) (\<lambda>w.
          with_owner r p ok_out m w (\<lambda>_ w.
            on_ok ok_out (EnsureClusterRoleBinding (cluster_role_bindings_of (rc_api r))
                (agents_cluster_role_binding r p) w) (Pair ok_out)))))"

definition executors_role :: "'w reconciler \<Rightarrow> Pipeline \<Rightarrow> role" where
  "executors_role r p =
     \<lparr>ro_Meta = plain_meta (CreatePipelineExecutorsRoleName (rc_sha1 r) (pl_Name p)) (pl_Namespace p) [],
      ro_Rules = [allow [''''] [''configmaps'', ''secrets'', ''pods''] [''get'', ''list'', ''watch'']]\<rparr>"

definition executors_role_binding :: "'w reconciler \<Rightarrow> Pipeline \<Rightarrow> role_binding" where
  "executors_role_binding r p =
     \<lparr>rb_Meta = plain_meta (CreatePipelineExecutorsRoleBindingName (rc_sha1 r) (pl_Name p)) (pl_Namespace p) [],
      rb_Subjects = [service_account_subject
        (CreatePipelineExecutorsServiceAccountName (rc_sha1 r) (pl_Name p)) (pl_Namespace p)],
      rb_RoleRef = \<lparr>rr_APIGroup = rbac_group, rr_Kind = ''Role'',
        rr_Name = CreatePipelineExecutorsRoleName (rc_sha1 r) (pl_Name p)\<rparr>\<rparr>"

definition ensureExecutorsRoleAndBinding :: "'w reconciler \<Rightarrow> Pipeline \<Rightarrow> 'w step" where
  "ensureExecutorsRoleAndBinding r p w =
     (let role = executors_role r p in
      with_owner r p ok_out (ro_Meta role) w (\<lambda>m w.
        on_ok ok_out (EnsureRole (roles_of (rc_api r)) (role\<lparr>ro_Meta := m\<rparr>) w) (\<lambda>w.
          with_owner r p ok_out m w (\<lambda>_ w.
            on_ok ok_out (EnsureRoleBinding (role_bindings_of (rc_api r)) (executors_role_binding r p) w)
              (Pair ok_out)))))"

section \<open>Agents\<close>

text \<open>\<open>int32(port)\<close> and \<open>intstr.FromInt\<close>.\<close>

definition to_int32 :: "int \<Rightarrow> int" where
  "to_int32 i = (i + 2 ^ 31) mod 2 ^ 32 - 2 ^ 31"

definition tcp_port :: "string \<Rightarrow> int \<Rightarrow> service_port" where
  "tcp_port name port = \<lparr>sp_Name = name, sp_Protocol = ''TCP'', sp_Port = to_int32 port,
     sp_TargetPort = itoa_int (to_int32 port), sp_NodePort = 0\<rparr>"

definition cluster_service ::
  "object_meta \<Rightarrow> (string, string) gomap \<Rightarrow> service_port list \<Rightarrow> service" where
  "cluster_service m selector ports =
     \<lparr>sv_Meta = m, sv_Spec = \<lparr>ss_Type = ''ClusterIP'', ss_ClusterIP = [],
        ss_PublishNotReadyAddresses = False, ss_Selector = selector, ss_Ports = ports\<rparr>\<rparr>"

text \<open>The stateful set of an agent; the network reconciler may annotate the metadata of its pods.\<close>

definition agent_stateful_set ::
  "'w reconciler \<Rightarrow> Pipeline \<Rightarrow> string \<Rightarrow> (string, string) gomap \<Rightarrow> (string, string) gomap
    \<Rightarrow> container list \<Rightarrow> workload" where
  "agent_stateful_set r p deplName deplLabels annotations containers =
     \<lparr>wl_Meta = plain_meta deplName (pl_Namespace p) [],
      wl_Spec = \<lparr>ws_Template =
          \<lparr>pt_Meta = nw_SetPodAnnotations (rc_network r)
             ((plain_meta [] [] deplLabels)\<lparr>om_Annotations := annotations\<rparr>),
           pt_Spec = \<lparr>pod_InitContainers = [], pod_Containers = containers,
             pod_ServiceAccountName = CreatePipelineAgentsServiceAccountName (rc_sha1 r) (pl_Name p),
             pod_RestartPolicy = [], pod_Volumes = []\<rparr>\<rparr>,
        ws_ServiceName = [], ws_Replicas = None, ws_Selector = deplLabels\<rparr>\<rparr>"

definition pipeline_agent_labels :: "'w reconciler \<Rightarrow> Pipeline \<Rightarrow> (string, string) gomap" where
  "pipeline_agent_labels r p = [(''statefulset'', CreatePipelineAgentName (rc_sha1 r) (pl_Name p))]"

definition pipeline_agent_env :: "'w reconciler \<Rightarrow> Pipeline \<Rightarrow> string \<Rightarrow> (string, string) gomap" where
  "pipeline_agent_env r p fs =
     (let h = rc_sha1 r; n = pl_Name p; ns = pl_Namespace p in
      [(EnvAPIPort, itoa AgentAPIPort),
       (EnvAPIHTTPPort, itoa AgentAPIHTTPPort),
       (EnvPipelineName, n),
       (EnvPipelineRevision, pst_Revision (pl_Status p)),
       (EnvAgentRegistryAddress, CreateAgentRegistryAddress h n ns),
       (EnvStatisticsSinkAddress, CreateAgentRegistryAddress h n ns),
       (EnvAnnotatedValueRegistryAddress, JoinHostPort ''localhost'' (itoa AnnotatedValueRegistryAPIPort)),
       (EnvDNSName, CreatePipelineAgentDNSName h n ns),
       (EnvFileSystemAddress, fs)])"

definition registry_env :: "Pipeline \<Rightarrow> (string, string) gomap" where
  "registry_env p = [(EnvAPIPort, itoa AnnotatedValueRegistryAPIPort), (EnvPipelineName, pl_Name p)]"

definition pipeline_agent_container :: "'w reconciler \<Rightarrow> Pipeline \<Rightarrow> string \<Rightarrow> container \<Rightarrow> container" where
  "pipeline_agent_container r p fs c =
     SetContainerEnvVars (rc_env_order r (pipeline_agent_env r p fs)) (SetAgentContainerDefaults c True)"

definition registry_container :: "'w reconciler \<Rightarrow> Pipeline \<Rightarrow> container \<Rightarrow> container" where
  "registry_container r p c =
     SetContainerEnvVars (rc_env_order r (registry_env p)) (SetAnnotatedValueRegistryContainerDefaults c)"

definition pipeline_agent_stateful_set ::
  "'w reconciler \<Rightarrow> Pipeline \<Rightarrow> string \<Rightarrow> container \<Rightarrow> container \<Rightarrow> workload" where
  "pipeline_agent_stateful_set r p fs agent registry =
     agent_stateful_set r p (CreatePipelineAgentName (rc_sha1 r) (pl_Name p)) (pipeline_agent_labels r p) []
       [pipeline_agent_container r p fs agent, registry_container r p registry]"

definition pipeline_agent_service :: "'w reconciler \<Rightarrow> Pipeline \<Rightarrow> service" where
  "pipeline_agent_service r p =
     cluster_service
       (plain_meta (CreatePipelineAgentName (rc_sha1 r) (pl_Name p)) (pl_Namespace p) (pipeline_agent_labels r p))
       (pipeline_agent_labels r p)
       [tcp_port ''grpc-agent-api'' (int AgentAPIPort), tcp_port ''http-agent-api'' (int AgentAPIHTTPPort),
        tcp_port ''grpc-annotatedvalue-registry-api'' (int AnnotatedValueRegistryAPIPort)]"

text \<open>The two calls that end the function of every agent.\<close>

definition ensure_agent ::
  "'w reconciler \<Rightarrow> Pipeline \<Rightarrow> step_out \<Rightarrow> workload \<Rightarrow> service \<Rightarrow> 'w step \<Rightarrow> 'w step" where
  "ensure_agent r p out' deploy svc k w =
     with_owner r p out' (wl_Meta deploy) w (\<lambda>m w.
       on_ok out' (EnsureStatefulSet (stateful_sets_of (rc_api r)) (deploy\<lparr>wl_Meta := m\<rparr>) w) (\<lambda>w.
         with_owner r p out' (sv_Meta svc) w (\<lambda>m w.
           on_ok out' (EnsureService (services_of (rc_api r)) (svc\<lparr>sv_Meta := m\<rparr>) w) k)))"

definition pipeline_frontend :: "'w reconciler \<Rightarrow> Pipeline \<Rightarrow> Frontend" where
  "pipeline_frontend r p =
     \<lparr>fe_ServiceName = CreatePipelineAgentName (rc_sha1 r) (pl_Name p),
      fe_Route = Some \<lparr>nr_Name = ''http'', nr_Port = int AgentAPIHTTPPort, nr_EnableWebsockets = True,
        nr_PrefixRewrite = []\<rparr>\<rparr>"

definition ensurePipelineAgent :: "'w reconciler \<Rightarrow> Pipeline \<Rightarrow> string \<Rightarrow> Services \<Rightarrow> 'w step" where
  "ensurePipelineAgent r p fs services w =
     (let out' = ok_out\<lparr>so_Frontend := Some (pipeline_frontend r p)\<rparr> in
      case selectPipelineAgent (rc_pipeline_agents r w) (pl_Namespace p) of
        Inl e \<Rightarrow> fail_with out' (RE_List e) w
      | Inr None \<Rightarrow> (out'\<lparr>so_Result := requeue_10s\<rparr>, w)
      | Inr (Some plAgent) \<Rightarrow>
          (case ag_Container plAgent of
             None \<Rightarrow> fail_with out' RE_Panic w
           | Some agentCont \<Rightarrow>
               (case selectAnnotatedValueRegistry ag_Name (rc_registries r w)
                       (sc_AnnotatedValueRegistryName services) (pl_Namespace p) of
                  Inl e \<Rightarrow> fail_with out' (RE_List e) w
                | Inr None \<Rightarrow> (out'\<lparr>so_Result := requeue_10s\<rparr>, w)
                | Inr (Some registry) \<Rightarrow>
                    (case ag_Container registry of
                       None \<Rightarrow> fail_with out' RE_Panic w
                     | Some avRegistryCont \<Rightarrow>
                         ensure_agent r p out'
                           (pipeline_agent_stateful_set r p fs agentCont avRegistryCont)
                           (pipeline_agent_service r p) (Pair out') w))))"

definition link_agent_labels :: "'w reconciler \<Rightarrow> Pipeline \<Rightarrow> LinkSpec \<Rightarrow> (string, string) gomap" where
  "link_agent_labels r p l =
     [(''statefulset'', CreateLinkAgentName (rc_sha1 r) (pl_Name p) (lk_Name l)), (''link'', lk_Name l)]"

definition link_agent_env :: "'w reconciler \<Rightarrow> Pipeline \<Rightarrow> LinkSpec \<Rightarrow> (string, string) gomap" where
  "link_agent_env r p l =
     (let h = rc_sha1 r; n = pl_Name p; ns = pl_Namespace p in
      [(EnvAPIPort, itoa AgentAPIPort),
       (EnvPipelineName, n),
       (EnvPipelineRevision, pst_Revision (pl_Status p)),
       (EnvLinkName, lk_Name l),
       (EnvAgentRegistryAddress, CreateAgentRegistryAddress h n ns),
       (EnvStatisticsSinkAddress, CreateAgentRegistryAddress h n ns),
       (EnvAnnotatedValueRegistryAddress, CreateAnnotatedValueRegistryAddress h n ns),
       (EnvDNSName, CreateLinkAgentDNSName h n (lk_Name l) ns)])"

definition link_agent_container :: "'w reconciler \<Rightarrow> Pipeline \<Rightarrow> LinkSpec \<Rightarrow> container \<Rightarrow> container" where
  "link_agent_container r p l c =
     SetContainerEnvVars (rc_env_order r (link_agent_env r p l)) (SetAgentContainerDefaults c False)"

definition link_agent_stateful_set :: "'w reconciler \<Rightarrow> Pipeline \<Rightarrow> LinkSpec \<Rightarrow> container \<Rightarrow> workload" where
  "link_agent_stateful_set r p l c =
     agent_stateful_set r p (CreateLinkAgentName (rc_sha1 r) (pl_Name p) (lk_Name l))
       (link_agent_labels r p l) [] [link_agent_container r p l c]"

definition link_agent_service :: "'w reconciler \<Rightarrow> Pipeline \<Rightarrow> LinkSpec \<Rightarrow> service" where
  "link_agent_service r p l =
     cluster_service
       (plain_meta (CreateLinkAgentName (rc_sha1 r) (pl_Name p) (lk_Name l)) (pl_Namespace p)
         (link_agent_labels r p l))
       (link_agent_labels r p l) [tcp_port ''grpc-api'' (int AgentAPIPort)]"

definition ensureLinkAgent :: "'w reconciler \<Rightarrow> Pipeline \<Rightarrow> Services \<Rightarrow> LinkSpec \<Rightarrow> 'w step" where
  "ensureLinkAgent r p services l w =
     (case selectLinkAgent ag_Name (rc_link_agents r w) (sc_LinkAgentName services) (pl_Namespace p) of
        Inl e \<Rightarrow> fail_with ok_out (RE_List e) w
      | Inr None \<Rightarrow> (ok_out\<lparr>so_Result := requeue_10s\<rparr>, w)
      | Inr (Some linkAgent) \<Rightarrow>
          (case ag_Container linkAgent of
             None \<Rightarrow> fail_with ok_out RE_Panic w
           | Some c \<Rightarrow>
               ensure_agent r p ok_out (link_agent_stateful_set r p l c) (link_agent_service r p l)
                 (Pair ok_out) w))"

section \<open>Task agents\<close>

definition task_agent_labels :: "'w reconciler \<Rightarrow> Pipeline \<Rightarrow> TaskSpec \<Rightarrow> (string, string) gomap" where
  "task_agent_labels r p t =
     [(''statefulset'', CreateTaskAgentName (rc_sha1 r) (pl_Name p) (ts_Name t)), (''task'', ts_Name t)]"

definition task_executor_labels :: "'w reconciler \<Rightarrow> Pipeline \<Rightarrow> TaskSpec \<Rightarrow> (string, string) gomap" where
  "task_executor_labels r p t = AList.update ''role'' ''executor'' (task_agent_labels r p t)"

definition task_agent_env :: "'w reconciler \<Rightarrow> Pipeline \<Rightarrow> TaskSpec \<Rightarrow> string \<Rightarrow> (string, string) gomap" where
  "task_agent_env r p t fs =
     (let h = rc_sha1 r; n = pl_Name p; ns = pl_Namespace p in
      [(EnvAPIPort, itoa AgentAPIPort),
       (EnvPipelineName, n),
       (EnvPipelineRevision, pst_Revision (pl_Status p)),
       (EnvTaskName, ts_Name t),
       (EnvAgentRegistryAddress, CreateAgentRegistryAddress h n ns),
       (EnvStatisticsSinkAddress, CreateAgentRegistryAddress h n ns),
       (EnvAnnotatedValueRegistryAddress, CreateAnnotatedValueRegistryAddress h n ns),
       (EnvFileSystemAddress, fs),
       (EnvDNSName, CreateTaskAgentDNSName h n (ts_Name t) ns),
       (EnvServiceAccountName, CreatePipelineExecutorsServiceAccountName h n)])"

definition task_agent_container ::
  "'w reconciler \<Rightarrow> Pipeline \<Rightarrow> TaskSpec \<Rightarrow> string \<Rightarrow> container \<Rightarrow> container" where
  "task_agent_container r p t fs c =
     SetContainerEnvVars (rc_env_order r (task_agent_env r p t fs)) (SetAgentContainerDefaults c False)"

text \<open>The loops that pass the addresses of the links of a task in annotations.\<close>

definition task_ref :: "TaskSpec \<Rightarrow> string \<Rightarrow> string" where
  "task_ref t io = ts_Name t @ ''/'' @ io"

fun input_annotations ::
  "'w reconciler \<Rightarrow> Pipeline \<Rightarrow> TaskSpec \<Rightarrow> TaskInputSpec list \<Rightarrow> (string, string) gomap
    \<Rightarrow> (rec_error, (string, string) gomap) go_result" where
  "input_annotations r p t [] annotations = Inr annotations"
| "input_annotations r p t (tis # ins) annotations =
     (case LinkByDestinationRef (pl_Spec p) (task_ref t (tis_Name tis)) of
        None \<Rightarrow> Inl (RE_NoLink (task_ref t (tis_Name tis)))
      | Some link \<Rightarrow>
          input_annotations r p t ins
            (AList.update (CreateInputLinkAddressAnnotationName (rc_sha1 r) (tis_Name tis))
               (CreateLinkAgentAnnotatedValueSourceAddress (rc_sha1 r) (pl_Name p) (lk_Name link) (pl_Namespace p))
               annotations))"

definition output_address :: "'w reconciler \<Rightarrow> Pipeline \<Rightarrow> TaskSpec \<Rightarrow> TaskOutputSpec \<Rightarrow> string" where
  "output_address r p t tos =
     (let links = LinksBySourceRef (pl_Spec p) (task_ref t (tos_Name tos)) in
      if length links > 0 then
        join_with '','' (map (\<lambda>link. CreateLinkAgentAnnotatedValuePublisherAddress (rc_sha1 r) (pl_Name p)
          (lk_Name link) (pl_Namespace p)) links)
      else CreatePipelineAgentAnnotatedValuePublisherAddress (rc_sha1 r) (pl_Name p) (pl_Namespace p))"

fun output_annotations ::
  "'w reconciler \<Rightarrow> Pipeline \<Rightarrow> TaskSpec \<Rightarrow> TaskOutputSpec list \<Rightarrow> (string, string) gomap
    \<Rightarrow> (string, string) gomap" where
  "output_annotations r p t [] annotations = annotations"
| "output_annotations r p t (tos # outs) annotations =
     output_annotations r p t outs
       (AList.update (CreateOutputLinkAddressesAnnotationName (rc_sha1 r) (tos_Name tos))
          (output_address r p t tos) annotations)"

definition task_annotations ::
  "'w reconciler \<Rightarrow> Pipeline \<Rightarrow> TaskSpec \<Rightarrow> string \<Rightarrow> (rec_error, (string, string) gomap) go_result" where
  "task_annotations r p t annTaskExecutorContainer =
     map_sum id
       (\<lambda>annotations.
          let annotations = output_annotations r p t (ts_Outputs t) annotations;
              annotations = (if annTaskExecutorContainer \<noteq> []
                then AList.update AnnTaskExecutorContainer annTaskExecutorContainer annotations
                else annotations)
          in AList.update AnnTaskExecutorLabels (rc_marshal_labels r (task_executor_labels r p t)) annotations)
       (input_annotations r p t (ts_Inputs t) [])"

definition task_agent_stateful_set ::
  "'w reconciler \<Rightarrow> Pipeline \<Rightarrow> TaskSpec \<Rightarrow> string \<Rightarrow> (string, string) gomap \<Rightarrow> container \<Rightarrow> workload" where
  "task_agent_stateful_set r p t fs annotations c =
     agent_stateful_set r p (CreateTaskAgentName (rc_sha1 r) (pl_Name p) (ts_Name t))
       (task_agent_labels r p t) annotations [task_agent_container r p t fs c]"

definition task_agent_service :: "'w reconciler \<Rightarrow> Pipeline \<Rightarrow> TaskSpec \<Rightarrow> service" where
  "task_agent_service r p t =
     cluster_service
       (plain_meta (CreateTaskAgentName (rc_sha1 r) (pl_Name p) (ts_Name t)) (pl_Namespace p)
         (task_agent_labels r p t))
       (task_agent_labels r p t) [tcp_port ''grpc-api'' (int AgentAPIPort)]"

definition task_executor_service :: "'w reconciler \<Rightarrow> Pipeline \<Rightarrow> TaskSpec \<Rightarrow> NetworkRoute list \<Rightarrow> service" where
  "task_executor_service r p t routes =
     cluster_service
       (plain_meta (CreateTaskExecutorServiceName (rc_sha1 r) (pl_Name p) (ts_Name t)) (pl_Namespace p) [])
       (task_executor_labels r p t)
       (map (\<lambda>nr. tcp_port (nr_Name nr) (nr_Port nr)) routes
        @ (case ts_Service t of
             None \<Rightarrow> []
           | Some sv \<Rightarrow> map (\<lambda>sp. tcp_port (sps_Name sp) (sps_Port sp)) (svc_Ports sv)))"

definition ensure_executor_service ::
  "'w reconciler \<Rightarrow> Pipeline \<Rightarrow> TaskSpec \<Rightarrow> NetworkRoute list \<Rightarrow> step_out \<Rightarrow> 'w step" where
  "ensure_executor_service r p t routes out' w =
     (if length routes > 0 \<or> ts_Service t \<noteq> None then
        (let svc = task_executor_service r p t routes in
         with_owner r p out' (sv_Meta svc) w (\<lambda>m w.
           on_ok out' (EnsureService (services_of (rc_api r)) (svc\<lparr>sv_Meta := m\<rparr>) w) (Pair out')))
      else (out', w))"

text \<open>The part of \<open>ensureTaskAgent\<close> after the executor of the task is known.\<close>

definition ensure_task_agent_with ::
  "'w reconciler \<Rightarrow> Pipeline \<Rightarrow> TaskSpec \<Rightarrow> string \<Rightarrow> string \<Rightarrow> NetworkRoute list \<Rightarrow> step_out \<Rightarrow> 'w step" where
  "ensure_task_agent_with r p t fs annTaskExecutorContainer routes out' w =
     (case selectTaskAgent (rc_task_agents r w) (pl_Namespace p) of
        Inl e \<Rightarrow> fail_with out' (RE_List e) w
      | Inr None \<Rightarrow> (out'\<lparr>so_Result := requeue_10s\<rparr>, w)
      | Inr (Some taskAgent) \<Rightarrow>
          (case ag_Container taskAgent of
             None \<Rightarrow> fail_with out' RE_Panic w
           | Some c \<Rightarrow>
               (case task_annotations r p t annTaskExecutorContainer of
                  Inl e \<Rightarrow> fail_with out' e w
                | Inr annotations \<Rightarrow>
                    ensure_agent r p out' (task_agent_stateful_set r p t fs annotations c)
                      (task_agent_service r p t) (ensure_executor_service r p t routes out') w)))"

definition ensureTaskAgent :: "'w reconciler \<Rightarrow> Pipeline \<Rightarrow> string \<Rightarrow> TaskSpec \<Rightarrow> 'w step" where
  "ensureTaskAgent r p fs t w =
     (if ts_Type t = [] then ensure_task_agent_with r p t fs [] [] ok_out w
      else
        (case selectTaskExecutor tx_Type (rc_executors r w) (ts_Type t) (pl_Namespace p) of
           Inl e \<Rightarrow> fail_with ok_out (RE_List e) w
         | Inr None \<Rightarrow>
             (ok_out\<lparr>so_Result := requeue_10s\<rparr>, rc_record r (EvNoExecutor (ts_Type t) (ts_Name t)) w)
         | Inr (Some x) \<Rightarrow>
             (case rc_marshal_container r (tx_Container x) of
                Inl e \<Rightarrow> fail_with ok_out (RE_Marshal e) w
              | Inr encoded \<Rightarrow>
                  ensure_task_agent_with r p t fs encoded (tx_Routes x)
                    (ok_out\<lparr>so_Executors :=
                       [\<lparr>te_TaskName = ts_Name t,
                         te_ServiceName = CreateTaskExecutorServiceName (rc_sha1 r) (pl_Name p) (ts_Name t),
                         te_Routes = tx_Routes x\<rparr>]\<rparr>) w)))"

section \<open>Contour\<close>

definition frontend_route :: "Frontend \<Rightarrow> contour_route list" where
  "frontend_route fe =
     (case fe_Route fe of
        None \<Rightarrow> []
      | Some route \<Rightarrow> [\<lparr>cr_Match = ''/'', cr_EnableWebsockets = nr_EnableWebsockets route,
          cr_PermitInsecure = False, cr_PrefixRewrite = nr_PrefixRewrite route,
          cr_Services = [\<lparr>cs_Name = fe_ServiceName fe, cs_Port = nr_Port route, cs_Weight = 0,
            cs_Strategy = []\<rparr>]\<rparr>])"

definition add_executor_route :: "TaskExecutor \<Rightarrow> NetworkRoute \<Rightarrow> contour_route \<Rightarrow> contour_route" where
  "add_executor_route tx nr c = c
     \<lparr>cr_Services := cr_Services c @ [\<lparr>cs_Name = te_ServiceName tx, cs_Port = nr_Port nr, cs_Weight = 0,
        cs_Strategy = []\<rparr>],
      cr_EnableWebsockets := cr_EnableWebsockets c \<or> nr_EnableWebsockets nr,
      cr_PrefixRewrite := nr_PrefixRewrite nr\<rparr>"

definition executor_route :: "TaskExecutor \<Rightarrow> contour_route" where
  "executor_route tx = fold (add_executor_route tx) (te_Routes tx)
     \<lparr>cr_Match = ''/'' @ te_TaskName tx, cr_EnableWebsockets = False, cr_PermitInsecure = False,
      cr_PrefixRewrite = [], cr_Services = []\<rparr>"

definition contour_ingress_route :: "NetworkReconcileRequest \<Rightarrow> ingress_route" where
  "contour_ingress_route req =
     \<lparr>ir_Meta = plain_meta (pl_Name (nq_Pipeline req)) (pl_Namespace (nq_Pipeline req)) [],
      ir_Spec = \<lparr>ir_VirtualHost = Some \<lparr>vh_Fqdn = pst_Domain (pl_Status (nq_Pipeline req)), vh_TLS = None\<rparr>,
        ir_Routes = frontend_route (nq_Frontend req) @ map executor_route (nq_TaskExecutors req)\<rparr>\<rparr>"

definition contour_Reconcile ::
  "'w api \<Rightarrow> (Pipeline \<Rightarrow> object_meta \<Rightarrow> (string, object_meta) go_result) \<Rightarrow> NetworkReconcileRequest
    \<Rightarrow> 'w \<Rightarrow> (reconcile_result \<times> rec_error error_only) \<times> 'w" where
  "contour_Reconcile api owner req w =
     (let rt = contour_ingress_route req in
      case owner (nq_Pipeline req) (ir_Meta rt) of
        Inl e \<Rightarrow> ((no_result, Some (RE_Owner e)), w)
      | Inr m \<Rightarrow>
          (case EnsureIngressRoute (ingress_routes_of api) (rt\<lparr>ir_Meta := m\<rparr>) w of
             (Some e, w') \<Rightarrow> ((no_result, Some (RE_Api e)), w')
           | (None, w') \<Rightarrow> ((no_result, None), w')))"

definition contour_SetPodAnnotations :: "object_meta \<Rightarrow> object_meta" where
  "contour_SetPodAnnotations metadata = metadata"

definition contour_network ::
  "'w api \<Rightarrow> (Pipeline \<Rightarrow> object_meta \<Rightarrow> (string, object_meta) go_result) \<Rightarrow> 'w network" where
  "contour_network api owner =
     \<lparr>nw_Reconcile = contour_Reconcile api owner, nw_SetPodAnnotations = contour_SetPodAnnotations\<rparr>"

section \<open>Reconcile\<close>

text \<open>The steps one after the other; the results are merged and the network request is filled.\<close>

definition add_request :: "step_out \<Rightarrow> NetworkReconcileRequest \<Rightarrow> NetworkReconcileRequest" where
  "add_request out' req = req
     \<lparr>nq_Frontend := (case so_Frontend out' of Some fe \<Rightarrow> fe | None \<Rightarrow> nq_Frontend req),
      nq_TaskExecutors := nq_TaskExecutors req @ so_Executors out'\<rparr>"

fun run_steps ::
  "'w step list \<Rightarrow> reconcile_result \<Rightarrow> NetworkReconcileRequest \<Rightarrow> 'w
    \<Rightarrow> (rec_error \<times> reconcile_result + reconcile_result \<times> NetworkReconcileRequest) \<times> 'w" where
  "run_steps [] result req w = (Inr (result, req), w)"
| "run_steps (st # sts) result req w =
     (case st w of (out', w') \<Rightarrow>
        (case so_Error out' of
           Some e \<Rightarrow> (Inl (e, so_Result out'), w')
         | None \<Rightarrow> run_steps sts (MergeReconcileResult result (so_Result out')) (add_request out' req) w'))"

definition pipeline_steps :: "'w reconciler \<Rightarrow> Pipeline \<Rightarrow> string \<Rightarrow> Services \<Rightarrow> 'w step list" where
  "pipeline_steps r p fs services =
     [ensurePipelineRevision r p, ensureAgentsServiceAccount r p, ensureExecutorsServiceAccount r p,
      ensureAgentsRoleAndBinding r p, ensureAgentsClusterRoleAndBinding r p,
      ensureExecutorsRoleAndBinding r p, ensurePipelineAgent r p fs services]
     @ map (ensureLinkAgent r p services) (ps_Links (pl_Spec p))
     @ map (ensureTaskAgent r p fs) (ps_Tasks (pl_Spec p))"

definition one_minute :: reconcile_result where
  "one_minute = \<lparr>rr_Requeue = True, rr_RequeueAfter = 60 * 10 ^ 9\<rparr>"

text \<open>From the address of the file system service on.\<close>

definition reconcile_resources ::
  "'w reconciler \<Rightarrow> Pipeline \<Rightarrow> string \<Rightarrow> Services \<Rightarrow> 'w \<Rightarrow> (reconcile_result \<times> rec_error error_only) \<times> 'w" where
  "reconcile_resources r p fs services w =
     (case run_steps (pipeline_steps r p fs services) one_minute
             \<lparr>nq_Name = pl_Name p, nq_Namespace = pl_Namespace p, nq_Pipeline = p,
              nq_Frontend = \<lparr>fe_ServiceName = [], fe_Route = None\<rparr>, nq_TaskExecutors = []\<rparr> w of
        (Inl (e, lresult), w') \<Rightarrow> ((lresult, Some e), w')
      | (Inr (result, req), w') \<Rightarrow>
          (case nw_Reconcile (rc_network r) req w' of
             ((lresult, Some e), w'') \<Rightarrow> ((lresult, Some e), w'')
           | ((lresult, None), w'') \<Rightarrow> ((MergeReconcileResult result lresult, None), w'')))"

text \<open>Looking for the file system service; a label selector made of constants is always accepted.\<close>

definition reconcile_filesystem ::
  "'w reconciler \<Rightarrow> Pipeline \<Rightarrow> Services \<Rightarrow> 'w \<Rightarrow> (reconcile_result \<times> rec_error error_only) \<times> 'w" where
  "reconcile_filesystem r p services w =
     (case rc_filesystems r w of
        Inl e \<Rightarrow> ((no_result, Some (RE_List e)), w)
      | Inr [] \<Rightarrow> ((requeue_10s, None), w)
      | Inr ((name, ns, ports) # svcs) \<Rightarrow>
          (case CreateServiceAddress name ns ports of
             None \<Rightarrow> ((no_result, Some RE_Panic), w)
           | Some fs \<Rightarrow> reconcile_resources r p fs services w))"

text \<open>
  The status of the pipeline: its domain when it has none yet, and the hash of its specification.
  The answer \<open>None\<close> is the early return without error.
\<close>

definition pipeline_domain :: "'w reconciler \<Rightarrow> Pipeline \<Rightarrow> 'w \<Rightarrow> (config_error, string) go_result" where
  "pipeline_domain r p w =
     map_sum id
       (\<lambda>ds. pl_Name p @ ''.'' @ pl_Namespace p @ ''.'' @ LookupDomain (rc_domain_order r ds) (pl_Labels p))
       (NewDomain (rc_domain_config r w) (rc_yaml_selector r) (pl_Namespace p))"

definition update_revision :: "'w reconciler \<Rightarrow> Pipeline \<Rightarrow> bool \<Rightarrow> 'w \<Rightarrow> Pipeline option \<times> 'w" where
  "update_revision r p needed w =
     (let h = rc_hash_spec r (pl_Spec p);
          changed = (h \<noteq> pst_Revision (pl_Status p));
          p = (if changed then p\<lparr>pl_Status := (pl_Status p)\<lparr>pst_Revision := h\<rparr>\<rparr> else p);
          w = (if changed then rc_record r (EvRevision h) w else w)
      in if needed \<or> changed then
           (case kc_Update (pipelines_of (rc_api r)) p w of
              (Some e, w) \<Rightarrow> (None, w)
            | (None, w) \<Rightarrow> (Some p, rc_record r EvValid w))
         else (Some p, w))"

definition update_status :: "'w reconciler \<Rightarrow> Pipeline \<Rightarrow> 'w \<Rightarrow> Pipeline option \<times> 'w" where
  "update_status r p w =
     (if pst_Domain (pl_Status p) = [] then
        (case pipeline_domain r p w of
           Inl e \<Rightarrow> (None, w)
         | Inr d \<Rightarrow> update_revision r (p\<lparr>pl_Status := (pl_Status p)\<lparr>pst_Domain := d\<rparr>\<rparr>) True w)
      else update_revision r p False w)"

definition Reconcile ::
  "'w reconciler \<Rightarrow> string \<Rightarrow> string \<Rightarrow> 'w \<Rightarrow> (reconcile_result \<times> rec_error error_only) \<times> 'w" where
  "Reconcile r name ns w =
     (case kc_Get (pipelines_of (rc_api r)) name ns w of
        ApiNotFound \<Rightarrow> ((no_result, None), w)
      | ApiError e \<Rightarrow> ((no_result, Some (RE_Api e)), w)
      | ApiFound p \<Rightarrow>
          (case PipelineSpec_Validate (pl_Spec p) of
             Some e \<Rightarrow> ((no_result, None), rc_record r (EvInvalid e) w)
           | None \<Rightarrow>
               (case NewServices (rc_services_config r w) (rc_yaml_services r) (pl_Namespace p) of
                  Inl e \<Rightarrow> ((no_result, Some (RE_Config e)), w)
                | Inr services \<Rightarrow>
                    (case update_status r p w of
                       (None, w') \<Rightarrow> ((no_result, None), w')
                     | (Some p', w') \<Rightarrow> reconcile_filesystem r p' services w'))))"

end
