(* ===== verification/Pipeline_Plan.thy ===== *)
theory Pipeline_Plan
  imports Pipeline_Controller
begin

text \<open>
  The specification of the pipeline reconciler: the list of objects a pipeline wants
  (\<open>wanted_objects\<close>), the lemma that a run of \<open>Reconcile\<close> which finds all agents ensures exactly
  these objects in this order, and what follows from it: a successful run leaves the cluster in a
  state in which another run writes nothing, and every agent is wired to its links.
\<close>

section \<open>The wanted objects\<close>

record agents =
  aa_pipeline :: container
  aa_registry :: container
  aa_link :: container
  aa_task :: container
  aa_executor :: "TaskSpec \<Rightarrow> string \<times> NetworkRoute list"

definition own_meta :: "'w reconciler \<Rightarrow> Pipeline \<Rightarrow> object_meta \<Rightarrow> object_meta" where
  "own_meta r p m = (case rc_owner r p m of Inr m' \<Rightarrow> m' | Inl e \<Rightarrow> m)"

fun own_object :: "'w reconciler \<Rightarrow> Pipeline \<Rightarrow> kobject \<Rightarrow> kobject" where
  "own_object r p (O_PipelineRevision x) = O_PipelineRevision (x\<lparr>rv_Meta := own_meta r p (rv_Meta x)\<rparr>)"
| "own_object r p (O_ServiceAccount x) = O_ServiceAccount (x\<lparr>sa_Meta := own_meta r p (sa_Meta x)\<rparr>)"
| "own_object r p (O_Role x) = O_Role (x\<lparr>ro_Meta := own_meta r p (ro_Meta x)\<rparr>)"
| "own_object r p (O_ClusterRole x) = O_ClusterRole (x\<lparr>ro_Meta := own_meta r p (ro_Meta x)\<rparr>)"
| "own_object r p (O_StatefulSet x) = O_StatefulSet (x\<lparr>wl_Meta := own_meta r p (wl_Meta x)\<rparr>)"
| "own_object r p (O_Service x) = O_Service (x\<lparr>sv_Meta := own_meta r p (sv_Meta x)\<rparr>)"
| "own_object r p (O_IngressRoute x) = O_IngressRoute (x\<lparr>ir_Meta := own_meta r p (ir_Meta x)\<rparr>)"
| "own_object r p x = x"

text \<open>The role bindings have no owner; see \<open>ensureAgentsRoleAndBinding\<close>.\<close>

definition access_objects :: "'w reconciler \<Rightarrow> Pipeline \<Rightarrow> kobject list" where
  "access_objects r p =
     [own_object r p (O_PipelineRevision (pipeline_revision r p)),
      own_object r p (O_ServiceAccount (service_account_named
        (CreatePipelineAgentsServiceAccountName (rc_sha1 r) (pl_Name p)) (pl_Namespace p))),
      own_object r p (O_ServiceAccount (service_account_named
        (CreatePipelineExecutorsServiceAccountName (rc_sha1 r) (pl_Name p)) (pl_Namespace p))),
      own_object r p (O_Role (agents_role r p)), O_RoleBinding (agents_role_binding r p),
      own_object r p (O_ClusterRole (agents_cluster_role r p)),
      O_ClusterRoleBinding (agents_cluster_role_binding r p),
      own_object r p (O_Role (executors_role r p)), O_RoleBinding (executors_role_binding r p)]"

definition agent_objects :: "'w reconciler \<Rightarrow> Pipeline \<Rightarrow> workload \<Rightarrow> service \<Rightarrow> kobject list" where
  "agent_objects r p deploy svc = map (own_object r p) [O_StatefulSet deploy, O_Service svc]"

definition pipeline_agent_objects :: "'w reconciler \<Rightarrow> Pipeline \<Rightarrow> string \<Rightarrow> agents \<Rightarrow> kobject list" where
  "pipeline_agent_objects r p fs A =
     agent_objects r p (pipeline_agent_stateful_set r p fs (aa_pipeline A) (aa_registry A))
       (pipeline_agent_service r p)"

definition link_agent_objects :: "'w reconciler \<Rightarrow> Pipeline \<Rightarrow> agents \<Rightarrow> LinkSpec \<Rightarrow> kobject list" where
  "link_agent_objects r p A l =
     agent_objects r p (link_agent_stateful_set r p l (aa_link A)) (link_agent_service r p l)"

definition executor_text :: "agents \<Rightarrow> TaskSpec \<Rightarrow> string" where
  "executor_text A t = (if ts_Type t = [] then [] else fst (aa_executor A t))"

definition executor_routes :: "agents \<Rightarrow> TaskSpec \<Rightarrow> NetworkRoute list" where
  "executor_routes A t = (if ts_Type t = [] then [] else snd (aa_executor A t))"

definition wanted_annotations :: "'w reconciler \<Rightarrow> Pipeline \<Rightarrow> agents \<Rightarrow> TaskSpec \<Rightarrow> (string, string) gomap" where
  "wanted_annotations r p A t =
     (case task_annotations r p t (executor_text A t) of Inr a \<Rightarrow> a | Inl e \<Rightarrow> [])"

definition task_agent_objects :: "'w reconciler \<Rightarrow> Pipeline \<Rightarrow> string \<Rightarrow> agents \<Rightarrow> TaskSpec \<Rightarrow> kobject list" where
  "task_agent_objects r p fs A t =
     agent_objects r p (task_agent_stateful_set r p t fs (wanted_annotations r p A t) (aa_task A))
       (task_agent_service r p t)
     @ (if executor_routes A t \<noteq> [] \<or> ts_Service t \<noteq> None
        then [own_object r p (O_Service (task_executor_service r p t (executor_routes A t)))] else [])"

definition task_executor_entry :: "'w reconciler \<Rightarrow> Pipeline \<Rightarrow> agents \<Rightarrow> TaskSpec \<Rightarrow> TaskExecutor list" where
  "task_executor_entry r p A t =
     (if ts_Type t = [] then []
      else [\<lparr>te_TaskName = ts_Name t,
             te_ServiceName = CreateTaskExecutorServiceName (rc_sha1 r) (pl_Name p) (ts_Name t),
             te_Routes = snd (aa_executor A t)\<rparr>])"

definition wanted_request :: "'w reconciler \<Rightarrow> Pipeline \<Rightarrow> agents \<Rightarrow> NetworkReconcileRequest" where
  "wanted_request r p A =
     \<lparr>nq_Name = pl_Name p, nq_Namespace = pl_Namespace p, nq_Pipeline = p,
      nq_Frontend = pipeline_frontend r p,
      nq_TaskExecutors = concat (map (task_executor_entry r p A) (ps_Tasks (pl_Spec p)))\<rparr>"

definition wanted_objects :: "'w reconciler \<Rightarrow> Pipeline \<Rightarrow> string \<Rightarrow> agents \<Rightarrow> kobject list" where
  "wanted_objects r p fs A =
     access_objects r p @ pipeline_agent_objects r p fs A
     @ concat (map (link_agent_objects r p A) (ps_Links (pl_Spec p)))
     @ concat (map (task_agent_objects r p fs A) (ps_Tasks (pl_Spec p)))
     @ [own_object r p (O_IngressRoute (contour_ingress_route (wanted_request r p A)))]"

section \<open>Laws of the parameters\<close>

text \<open>\<open>SetControllerReference\<close> changes the owners of a new object only, and accepts it.\<close>

definition owners_ok :: "'w reconciler \<Rightarrow> bool" where
  "owners_ok r \<longleftrightarrow> (\<forall>p m. \<exists>owners. rc_owner r p m = Inr (m\<lparr>om_Owners := owners\<rparr>))"

text \<open>
  The agents, executors and configuration a run looks up; writing the objects of a pipeline or
  recording an event changes none of them.
\<close>

definition listed where
  "listed r w = (rc_pipeline_agents r w, rc_link_agents r w, rc_task_agents r w, rc_registries r w,
     rc_executors r w, rc_services_config r w, rc_domain_config r w)"

definition lists_stable :: "'w reconciler \<Rightarrow> 'w live \<Rightarrow> bool" where
  "lists_stable r live \<longleftrightarrow>
     (\<forall>x w w'. api_Create (rc_api r) x w = (None, w') \<or> api_Update (rc_api r) x w = (None, w')
        \<longrightarrow> listed r w' = listed r w)
     \<and> (\<forall>ev w. listed r (rc_record r ev w) = listed r w \<and> live (rc_record r ev w) = live w
          \<and> (\<forall>k n ns. api_Get (rc_api r) k n ns (rc_record r ev w) = api_Get (rc_api r) k n ns w))"

definition agents_found :: "'w reconciler \<Rightarrow> Pipeline \<Rightarrow> Services \<Rightarrow> agents \<Rightarrow> 'w \<Rightarrow> bool" where
  "agents_found r p services A w \<longleftrightarrow>
     (\<exists>x. selectPipelineAgent (rc_pipeline_agents r w) (pl_Namespace p) = Inr (Some x)
        \<and> ag_Container x = Some (aa_pipeline A))
     \<and> (\<exists>x. selectAnnotatedValueRegistry ag_Name (rc_registries r w)
            (sc_AnnotatedValueRegistryName services) (pl_Namespace p) = Inr (Some x)
        \<and> ag_Container x = Some (aa_registry A))
     \<and> (\<exists>x. selectLinkAgent ag_Name (rc_link_agents r w) (sc_LinkAgentName services) (pl_Namespace p)
            = Inr (Some x) \<and> ag_Container x = Some (aa_link A))
     \<and> (\<exists>x. selectTaskAgent (rc_task_agents r w) (pl_Namespace p) = Inr (Some x)
        \<and> ag_Container x = Some (aa_task A))
     \<and> (\<forall>t \<in> set (ps_Tasks (pl_Spec p)). ts_Type t \<noteq> [] \<longrightarrow>
          (\<exists>x. selectTaskExecutor tx_Type (rc_executors r w) (ts_Type t) (pl_Namespace p) = Inr (Some x)
             \<and> rc_marshal_container r (tx_Container x) = Inr (fst (aa_executor A t))
             \<and> tx_Routes x = snd (aa_executor A t)))"

definition inputs_connected :: "PipelineSpec \<Rightarrow> bool" where
  "inputs_connected ps \<longleftrightarrow>
     (\<forall>t \<in> set (ps_Tasks ps). \<forall>tis \<in> set (ts_Inputs t).
        LinkByDestinationRef ps (task_ref t (tis_Name tis)) \<noteq> None)"

text \<open>What every lemma below needs of a reconciler.\<close>

definition cluster_ok :: "'w reconciler \<Rightarrow> 'w live \<Rightarrow> bool" where
  "cluster_ok r live \<longleftrightarrow> api_server (rc_api r) live \<and> owners_ok r \<and> lists_stable r live
     \<and> rc_network r = contour_network (rc_api r) (rc_owner r)"

lemma agents_found_listed: "listed r w' = listed r w \<Longrightarrow> agents_found r p s A w' = agents_found r p s A w"
  by (simp add: listed_def agents_found_def)

section \<open>Steps ensure objects\<close>

definition run_objects :: "'w reconciler \<Rightarrow> step_out \<Rightarrow> kobject list \<Rightarrow> 'w step" where
  "run_objects r out' xs w =
     (case ensure_objects (rc_api r) xs w of
        (None, w') \<Rightarrow> (out', w') | (Some e, w') \<Rightarrow> fail_with out' (RE_Api e) w')"

lemma on_ok_object:
  "on_ok out' (ensure_object (rc_api r) x w) (run_objects r out' xs) = run_objects r out' (x # xs) w"
  by (auto simp: on_ok_def run_objects_def split: prod.splits option.splits)

lemma with_owner_ok:
  "owners_ok r \<Longrightarrow> with_owner r p out' m w k = k (own_meta r p m) w"
  unfolding owners_ok_def with_owner_def own_meta_def by (metis sum.case(2))

lemma own_meta_fields:
  assumes "owners_ok r"
  shows "om_Name (own_meta r p m) = om_Name m" "om_Namespace (own_meta r p m) = om_Namespace m"
    "om_Labels (own_meta r p m) = om_Labels m" "om_Annotations (own_meta r p m) = om_Annotations m"
proof -
  obtain os where "rc_owner r p m = Inr (m\<lparr>om_Owners := os\<rparr>)" using assms unfolding owners_ok_def by blast
  then show "om_Name (own_meta r p m) = om_Name m" "om_Namespace (own_meta r p m) = om_Namespace m"
    "om_Labels (own_meta r p m) = om_Labels m" "om_Annotations (own_meta r p m) = om_Annotations m"
    by (simp_all add: own_meta_def)
qed

lemma Pair_objects: "Pair out' = run_objects r out' []"
  by (rule ext) (simp add: run_objects_def)

lemma cluster_okD:
  assumes "cluster_ok r live"
  shows "api_server (rc_api r) live" "owners_ok r" "lists_stable r live"
    "rc_network r = contour_network (rc_api r) (rc_owner r)"
  using assms by (simp_all add: cluster_ok_def)

lemma revision_step:
  assumes "cluster_ok r live"
  shows "ensurePipelineRevision r p w
    = run_objects r ok_out [own_object r p (O_PipelineRevision (pipeline_revision r p))] w"
proof -
  note c = cluster_okD [OF assms]
  let ?x = "(pipeline_revision r p)\<lparr>rv_Meta := own_meta r p (rv_Meta (pipeline_revision r p))\<rparr>"
  let ?m = "rv_Meta ?x"
  show ?thesis
  proof (cases "api_Get (rc_api r) KPipelineRevision (om_Name ?m) (om_Namespace ?m) w")
    case (ApiFound z)
    then obtain y where z: "z = O_PipelineRevision y" using api_found_key [OF c(1) ApiFound] kind_cases(9) by force
    show ?thesis using ApiFound
      by (auto simp: ensurePipelineRevision_def Let_def with_owner_ok [OF c(2)] typed_client_def typed_get_def z
          run_objects_def ensure_object_def get_object_def on_ok_def split: prod.splits option.splits)
  qed (auto simp: ensurePipelineRevision_def Let_def with_owner_ok [OF c(2)] typed_client_def typed_get_def
         run_objects_def ensure_object_def get_object_def on_ok_def fail_with_def split: prod.splits option.splits)
qed

lemmas step_simps = Let_def with_owner_ok typed_ensures typed_cluster_ensures on_ok_object

lemma account_steps:
  assumes "cluster_ok r live"
  shows "ensureAgentsServiceAccount r p w = run_objects r ok_out
      [own_object r p (O_ServiceAccount (service_account_named
        (CreatePipelineAgentsServiceAccountName (rc_sha1 r) (pl_Name p)) (pl_Namespace p)))] w"
    and "ensureExecutorsServiceAccount r p w = run_objects r ok_out
      [own_object r p (O_ServiceAccount (service_account_named
        (CreatePipelineExecutorsServiceAccountName (rc_sha1 r) (pl_Name p)) (pl_Namespace p)))] w"
  using cluster_okD [OF assms]
  by (simp_all add: ensureAgentsServiceAccount_def ensureExecutorsServiceAccount_def step_simps
      Pair_objects [where r = r])

lemma role_steps:
  assumes "cluster_ok r live"
  shows "ensureAgentsRoleAndBinding r p w = run_objects r ok_out
      [own_object r p (O_Role (agents_role r p)), O_RoleBinding (agents_role_binding r p)] w"
    and "ensureAgentsClusterRoleAndBinding r p w = run_objects r ok_out
      [own_object r p (O_ClusterRole (agents_cluster_role r p)),
       O_ClusterRoleBinding (agents_cluster_role_binding r p)] w"
    and "ensureExecutorsRoleAndBinding r p w = run_objects r ok_out
      [own_object r p (O_Role (executors_role r p)), O_RoleBinding (executors_role_binding r p)] w"
  using cluster_okD [OF assms]
  by (simp_all add: ensureAgentsRoleAndBinding_def ensureAgentsClusterRoleAndBinding_def
      ensureExecutorsRoleAndBinding_def step_simps Pair_objects [where r = r])

lemma ensure_agent_objects:
  assumes "cluster_ok r live"
  shows "ensure_agent r p out' deploy svc (run_objects r out' xs) w
    = run_objects r out' (agent_objects r p deploy svc @ xs) w"
  using cluster_okD [OF assms] by (simp add: ensure_agent_def agent_objects_def step_simps)

lemma pipeline_agent_step:
  assumes "cluster_ok r live" and "agents_found r p services A w"
  shows "ensurePipelineAgent r p fs services w =
    run_objects r (ok_out\<lparr>so_Frontend := Some (pipeline_frontend r p)\<rparr>) (pipeline_agent_objects r p fs A) w"
  using assms ensure_agent_objects [OF assms(1), where xs = "[]"]
  by (auto simp: agents_found_def ensurePipelineAgent_def pipeline_agent_objects_def Let_def
      Pair_objects [where r = r])

lemma link_agent_step:
  assumes "cluster_ok r live" and "agents_found r p services A w"
  shows "ensureLinkAgent r p services l w = run_objects r ok_out (link_agent_objects r p A l) w"
  using assms ensure_agent_objects [OF assms(1), where xs = "[]"]
  by (auto simp: agents_found_def ensureLinkAgent_def link_agent_objects_def Pair_objects [where r = r])

lemma input_annotations_ok:
  "\<forall>tis \<in> set ins. LinkByDestinationRef (pl_Spec p) (task_ref t (tis_Name tis)) \<noteq> None
    \<Longrightarrow> \<exists>a. input_annotations r p t ins acc = Inr a"
  by (induction ins arbitrary: acc) auto

lemma wanted_annotations_ok:
  assumes "inputs_connected (pl_Spec p)" and "t \<in> set (ps_Tasks (pl_Spec p))"
  shows "task_annotations r p t (executor_text A t) = Inr (wanted_annotations r p A t)"
proof -
  obtain a where "input_annotations r p t (ts_Inputs t) [] = Inr a"
    using input_annotations_ok [of "ts_Inputs t" p t r "[]"] assms by (auto simp: inputs_connected_def)
  then show ?thesis by (simp add: wanted_annotations_def task_annotations_def)
qed

lemma executor_service_objects:
  assumes "cluster_ok r live"
  shows "ensure_executor_service r p t routes out' = run_objects r out'
    (if routes \<noteq> [] \<or> ts_Service t \<noteq> None
     then [own_object r p (O_Service (task_executor_service r p t routes))] else [])"
proof
  fix w
  show "ensure_executor_service r p t routes out' w = run_objects r out'
    (if routes \<noteq> [] \<or> ts_Service t \<noteq> None
     then [own_object r p (O_Service (task_executor_service r p t routes))] else []) w"
    using cluster_okD [OF assms]
    by (simp add: ensure_executor_service_def step_simps Pair_objects [where r = r])
qed

definition task_out :: "'w reconciler \<Rightarrow> Pipeline \<Rightarrow> agents \<Rightarrow> TaskSpec \<Rightarrow> step_out" where
  "task_out r p A t = ok_out\<lparr>so_Executors := task_executor_entry r p A t\<rparr>"

lemma task_agent_with:
  assumes "cluster_ok r live" and "agents_found r p services A w" and "inputs_connected (pl_Spec p)"
    and "t \<in> set (ps_Tasks (pl_Spec p))"
  shows "ensure_task_agent_with r p t fs (executor_text A t) (executor_routes A t) (task_out r p A t) w
    = run_objects r (task_out r p A t) (task_agent_objects r p fs A t) w"
  using assms(2) wanted_annotations_ok [OF assms(3,4), of r A]
  by (auto simp: agents_found_def ensure_task_agent_with_def task_agent_objects_def
      executor_service_objects [OF assms(1)] ensure_agent_objects [OF assms(1)])

lemma task_agent_step:
  assumes "cluster_ok r live" and "agents_found r p services A w" and "inputs_connected (pl_Spec p)"
    and "t \<in> set (ps_Tasks (pl_Spec p))"
  shows "ensureTaskAgent r p fs t w = run_objects r (task_out r p A t) (task_agent_objects r p fs A t) w"
proof (cases "ts_Type t = []")
  case True
  then have "executor_text A t = []" "executor_routes A t = []" "task_out r p A t = ok_out"
    by (simp_all add: executor_text_def executor_routes_def task_out_def task_executor_entry_def ok_out_def)
  with task_agent_with [OF assms, of fs] True show ?thesis by (simp add: ensureTaskAgent_def)
next
  case False
  then obtain x where "selectTaskExecutor tx_Type (rc_executors r w) (ts_Type t) (pl_Namespace p) = Inr (Some x)"
    "rc_marshal_container r (tx_Container x) = Inr (fst (aa_executor A t))"
    "tx_Routes x = snd (aa_executor A t)"
    using assms(2,4) by (auto simp: agents_found_def)
  moreover have "executor_text A t = fst (aa_executor A t)" "executor_routes A t = snd (aa_executor A t)"
    using False by (simp_all add: executor_text_def executor_routes_def)
  ultimately show ?thesis
    using task_agent_with [OF assms, of fs] False
    by (simp add: ensureTaskAgent_def task_out_def task_executor_entry_def)
qed

section \<open>A run ensures the wanted objects\<close>

lemma ensure_object_listed:
  assumes "cluster_ok r live" and "ensure_object (rc_api r) x w = (None, w')"
  shows "listed r w' = listed r w"
proof (cases "w' = w")
  case False
  then have "\<exists>y. api_Create (rc_api r) y w = (None, w') \<or> api_Update (rc_api r) y w = (None, w')"
    using assms(2) by (auto simp: ensure_object_def split: api_get.splits if_splits)
  with assms(1) show ?thesis by (auto simp: cluster_ok_def lists_stable_def)
qed simp

lemma ensure_objects_listed:
  "cluster_ok r live \<Longrightarrow> ensure_objects (rc_api r) xs w = (None, w') \<Longrightarrow> listed r w' = listed r w"
  by (induction xs arbitrary: w) (auto split: prod.splits option.splits dest: ensure_object_listed)

lemma merge_no_result [simp]: "MergeReconcileResult one_minute no_result = one_minute"
  by (simp add: MergeReconcileResult_def one_minute_def no_result_def)

definition step_ensures ::
  "'w reconciler \<Rightarrow> ('w \<Rightarrow> bool) \<Rightarrow> 'w step \<times> step_out \<times> kobject list \<Rightarrow> bool" where
  "step_ensures r P s \<longleftrightarrow> so_Error (fst (snd s)) = None \<and> so_Result (fst (snd s)) = no_result
     \<and> (\<forall>w. P w \<longrightarrow> fst s w = run_objects r (fst (snd s)) (snd (snd s)) w)"

lemma run_steps_objects:
  assumes "\<And>xs w w'. P w \<Longrightarrow> ensure_objects (rc_api r) xs w = (None, w') \<Longrightarrow> P w'"
    and "P w" and "list_all (step_ensures r P) sts"
  shows "run_steps (map fst sts) one_minute req w =
    (case ensure_objects (rc_api r) (concat (map (snd \<circ> snd) sts)) w of
       (Some e, w') \<Rightarrow> (Inl (RE_Api e, no_result), w')
     | (None, w') \<Rightarrow> (Inr (one_minute, fold add_request (map (fst \<circ> snd) sts) req), w'))"
  using assms(2,3)
proof (induction sts arbitrary: w req)
  case (Cons s sts)
  obtain st out' xs where s: "s = (st, out', xs)" by (cases s) auto
  have o: "so_Error out' = None" "so_Result out' = no_result"
    and st: "st w = run_objects r out' xs w"
    using Cons.prems by (auto simp: s step_ensures_def)
  show ?case
  proof (cases "ensure_objects (rc_api r) xs w")
    case (Pair e w1)
    show ?thesis
    proof (cases e)
      case None
      then have "P w1" using assms(1) [OF Cons.prems(1)] Pair by simp
      then show ?thesis
        using Cons.IH [of w1] Cons.prems(2) None Pair
        by (simp add: s st run_objects_def o ensure_objects_append comp_def split: prod.splits option.splits)
    next
      case (Some e')
      with Pair show ?thesis
        by (simp add: s st run_objects_def o ensure_objects_append fail_with_def)
    qed
  qed
qed simp

definition planned_steps ::
  "'w reconciler \<Rightarrow> Pipeline \<Rightarrow> string \<Rightarrow> Services \<Rightarrow> agents \<Rightarrow> ('w step \<times> step_out \<times> kobject list) list" where
  "planned_steps r p fs services A =
     [(ensurePipelineRevision r p, ok_out, [access_objects r p ! 0]),
      (ensureAgentsServiceAccount r p, ok_out, [access_objects r p ! 1]),
      (ensureExecutorsServiceAccount r p, ok_out, [access_objects r p ! 2]),
      (ensureAgentsRoleAndBinding r p, ok_out, [access_objects r p ! 3, access_objects r p ! 4]),
      (ensureAgentsClusterRoleAndBinding r p, ok_out, [access_objects r p ! 5, access_objects r p ! 6]),
      (ensureExecutorsRoleAndBinding r p, ok_out, [access_objects r p ! 7, access_objects r p ! 8]),
      (ensurePipelineAgent r p fs services, ok_out\<lparr>so_Frontend := Some (pipeline_frontend r p)\<rparr>,
       pipeline_agent_objects r p fs A)]
     @ map (\<lambda>l. (ensureLinkAgent r p services l, ok_out, link_agent_objects r p A l)) (ps_Links (pl_Spec p))
     @ map (\<lambda>t. (ensureTaskAgent r p fs t, task_out r p A t, task_agent_objects r p fs A t)) (ps_Tasks (pl_Spec p))"

lemma planned_steps_fst: "map fst (planned_steps r p fs services A) = pipeline_steps r p fs services"
  by (simp add: planned_steps_def pipeline_steps_def)

lemma planned_steps_objects:
  "concat (map (snd \<circ> snd) (planned_steps r p fs services A))
     @ [own_object r p (O_IngressRoute (contour_ingress_route (wanted_request r p A)))]
   = wanted_objects r p fs A"
  by (simp add: planned_steps_def wanted_objects_def access_objects_def comp_def)

lemma ok_out_fields [simp]:
  "so_Error ok_out = None" "so_Result ok_out = no_result" "so_Frontend ok_out = None" "so_Executors ok_out = []"
  by (simp_all add: ok_out_def)

lemma add_request_links:
  "fold add_request (map (\<lambda>l. ok_out) ls) req = req"
  by (induction ls) (simp_all add: add_request_def)

lemma add_request_tasks:
  "fold add_request (map (task_out r p A) ts) req
     = req\<lparr>nq_TaskExecutors := nq_TaskExecutors req @ concat (map (task_executor_entry r p A) ts)\<rparr>"
  by (induction ts arbitrary: req) (simp_all add: add_request_def task_out_def)

lemma planned_steps_request:
  "fold add_request (map (fst \<circ> snd) (planned_steps r p fs services A))
     \<lparr>nq_Name = pl_Name p, nq_Namespace = pl_Namespace p, nq_Pipeline = p,
      nq_Frontend = \<lparr>fe_ServiceName = [], fe_Route = None\<rparr>, nq_TaskExecutors = []\<rparr>
   = wanted_request r p A"
  by (simp add: planned_steps_def wanted_request_def comp_def add_request_links add_request_tasks)
     (simp add: add_request_def)

lemma planned_steps_ensure:
  assumes "cluster_ok r live" and "inputs_connected (pl_Spec p)"
  shows "list_all (step_ensures r (agents_found r p services A)) (planned_steps r p fs services A)"
  using revision_step [OF assms(1)] account_steps [OF assms(1)] role_steps [OF assms(1)]
    pipeline_agent_step [OF assms(1)] link_agent_step [OF assms(1)] task_agent_step [OF assms(1) _ assms(2)]
  by (auto simp: planned_steps_def step_ensures_def list_all_iff access_objects_def task_out_def)

text \<open>The network step ensures the ingress route.\<close>

lemma network_step:
  assumes "cluster_ok r live"
  shows "nw_Reconcile (rc_network r) req w =
    (case ensure_objects (rc_api r)
        [own_object r (nq_Pipeline req) (O_IngressRoute (contour_ingress_route req))] w of
       (None, w') \<Rightarrow> ((no_result, None), w') | (Some e, w') \<Rightarrow> ((no_result, Some (RE_Api e)), w'))"
proof -
  note c = cluster_okD [OF assms]
  obtain m where "rc_owner r (nq_Pipeline req) (ir_Meta (contour_ingress_route req)) = Inr m"
    using c(2) unfolding owners_ok_def by blast
  then show ?thesis
    by (simp add: c(4) contour_network_def contour_Reconcile_def Let_def own_meta_def typed_ensures [OF c(1)]
        split: prod.splits option.splits)
qed

lemma reconcile_resources_objects:
  assumes "cluster_ok r live" and "agents_found r p services A w" and "inputs_connected (pl_Spec p)"
  shows "reconcile_resources r p fs services w =
    (case ensure_objects (rc_api r) (wanted_objects r p fs A) w of
       (None, w') \<Rightarrow> ((one_minute, None), w') | (Some e, w') \<Rightarrow> ((no_result, Some (RE_Api e)), w'))"
proof -
  have inv: "agents_found r p services A w2"
    if "agents_found r p services A w1" "ensure_objects (rc_api r) xs w1 = (None, w2)" for xs w1 w2
    using agents_found_listed [OF ensure_objects_listed [OF assms(1) that(2)]] that(1) by blast
  have run: "run_steps (pipeline_steps r p fs services) one_minute req w =
    (case ensure_objects (rc_api r) (concat (map (snd \<circ> snd) (planned_steps r p fs services A))) w of
       (Some e, w') \<Rightarrow> (Inl (RE_Api e, no_result), w')
     | (None, w') \<Rightarrow> (Inr (one_minute, fold add_request (map (fst \<circ> snd) (planned_steps r p fs services A)) req), w'))"
    for req
    unfolding planned_steps_fst [symmetric, where A = A]
    by (rule run_steps_objects [where P = "agents_found r p services A"])
       (auto intro: inv assms(2) planned_steps_ensure [OF assms(1,3)])
  have net: "nw_Reconcile (rc_network r) (wanted_request r p A) w1 =
    (case ensure_objects (rc_api r)
        [own_object r p (O_IngressRoute (contour_ingress_route (wanted_request r p A)))] w1 of
       (None, w') \<Rightarrow> ((no_result, None), w') | (Some e, w') \<Rightarrow> ((no_result, Some (RE_Api e)), w'))" for w1
    using network_step [OF assms(1), of "wanted_request r p A"] by (simp add: wanted_request_def)
  let ?xs = "concat (map (snd \<circ> snd) (planned_steps r p fs services A))"
  let ?route = "own_object r p (O_IngressRoute (contour_ingress_route (wanted_request r p A)))"
  have all: "wanted_objects r p fs A = ?xs @ [?route]" by (simp only: planned_steps_objects)
  obtain e w1 where 1: "ensure_objects (rc_api r) ?xs w = (e, w1)" by fastforce
  obtain e' w2 where 2: "ensure_objects (rc_api r) [?route] w1 = (e', w2)" by fastforce
  show ?thesis
    unfolding reconcile_resources_def run planned_steps_request all ensure_objects_append 1
    using net [of w1] unfolding 2 by (cases e; cases e') (simp_all add: 2 del: own_object.simps ensure_objects.simps)
qed

section \<open>The order of the environment variables does not matter\<close>

lemma set_env_var_names:
  "env_names (set_env_var k v evs) = env_names evs \<or> env_names (set_env_var k v evs) = env_names evs @ [k]"
  by (induction evs) (auto simp: env_names_def)

lemma env_fold_names:
  "\<exists>ks. env_names (fold (\<lambda>(k, v). set_env_var k v) vars evs) = env_names evs @ ks"
proof (induction vars arbitrary: evs)
  case (Cons x vars)
  obtain k v where x: "x = (k, v)" by (cases x)
  obtain ks where ks: "env_names (fold (\<lambda>(k, v). set_env_var k v) vars (set_env_var k v evs))
      = env_names (set_env_var k v evs) @ ks"
    using Cons.IH by blast
  show ?case using set_env_var_names [of k v evs] ks by (auto simp: x)
qed simp

lemma env_member:
  assumes "distinct (env_names evs)"
  shows "ev \<in> set evs \<longleftrightarrow> env_lookup evs (ev_Name ev) = Some (ev_Value ev, ev_FieldPath ev)"
proof -
  let ?f = "\<lambda>ev :: env_var. (ev_Name ev, (ev_Value ev, ev_FieldPath ev))"
  have f: "inj ?f"
  proof (rule injI)
    fix x y :: env_var
    assume "?f x = ?f y"
    then show "x = y" by (cases x; cases y) simp
  qed
  have d: "distinct (map fst (map ?f evs))" using assms by (simp add: env_names_def comp_def)
  have "env_lookup evs (ev_Name ev) = Some (ev_Value ev, ev_FieldPath ev) \<longleftrightarrow> ?f ev \<in> set (map ?f evs)"
    using map_of_eq_Some_iff [OF d] by (simp only: env_lookup_def)
  also have "\<dots> \<longleftrightarrow> ev \<in> set evs" using inj_image_mem_iff [OF f] by simp
  finally show ?thesis by simp
qed

text \<open>Two lists that assign the same variables, in some order and without repetition.\<close>

definition same_env :: "env_var list \<Rightarrow> env_var list \<Rightarrow> bool" where
  "same_env a b \<longleftrightarrow> set a = set b \<and> length a = length b"

lemma env_order_same:
  assumes "gomap_ok vars" and "map_order es vars" and "map_order es' vars"
    and "distinct (env_names (fold (\<lambda>(k, v). set_env_var k v) es evs))"
  shows "same_env (fold (\<lambda>(k, v). set_env_var k v) es evs) (fold (\<lambda>(k, v). set_env_var k v) es' evs)"
proof -
  let ?f = "\<lambda>es. fold (\<lambda>(k, v). set_env_var k v) es evs"
  have evs: "distinct (env_names evs)" using env_fold_names [of es evs] assms(4) by auto
  have ok: "gomap_ok es" "gomap_ok es'" "map_of es = map_of vars" "map_of es' = map_of vars"
    using map_order_ok map_order_map_of assms(1-3) by blast+
  have d: "distinct (env_names (?f es'))" using env_names_fold [OF evs, of es'] by simp
  have "env_lookup (?f es) n = env_lookup (?f es') n" for n
    using env_lookup_fold [OF ok(1)] env_lookup_fold [OF ok(2)] ok(3,4) by simp
  then have s: "set (?f es) = set (?f es')"
    using env_member [OF assms(4)] env_member [OF d] by auto
  have "distinct (?f es)" "distinct (?f es')"
    using assms(4) d by (simp_all add: env_names_def distinct_map)
  with s show ?thesis by (metis distinct_card same_env_def)
qed

lemma env_diff_Nil_iff:
  "env_diff p i spec actual = [] \<longleftrightarrow>
     (\<forall>sv \<in> set spec. (\<exists>av \<in> set actual. ev_Name sv = ev_Name av)
        \<and> (\<forall>av \<in> set actual. ev_Name sv = ev_Name av \<longrightarrow> ev_Value sv = ev_Value av))"
proof (induction spec arbitrary: i)
  case (Cons sv spec)
  show ?case using Cons.IH [of "Suc i"]
    by (auto simp: Let_def filter_empty_conv EnvVarEqual_def StringEqual_Nil)
qed simp

lemma EnvVarsEqual_cong:
  "same_env a b \<Longrightarrow> EnvVarsEqual p a x = [] \<longleftrightarrow> EnvVarsEqual q b x = []"
  by (auto simp: EnvVarsEqual_def env_diff_Nil_iff same_env_def)

definition same_container :: "container \<Rightarrow> container \<Rightarrow> bool" where
  "same_container c d \<longleftrightarrow> (\<exists>env. d = c\<lparr>c_Env := env\<rparr> \<and> same_env (c_Env c) env)"

lemma ContainerEqual_cong:
  "same_container c d \<Longrightarrow> ContainerEqual p c x = [] \<longleftrightarrow> ContainerEqual p d x = []"
  by (auto simp: same_container_def ContainerEqual_def dest: EnvVarsEqual_cong [THEN iffD1] EnvVarsEqual_cong [THEN iffD2])

lemma named_diff_cong:
  assumes "list_all2 (\<lambda>x y. nm x = nm y \<and> (\<forall>p z. eq p x z = [] \<longleftrightarrow> eq p y z = [])) xs ys"
  shows "named_diff nm eq p i xs actual = [] \<longleftrightarrow> named_diff nm eq p i ys actual = []"
  using assms by (induction xs ys arbitrary: i rule: list_all2_induct) (auto split: option.splits)

lemma ContainersEqual_cong:
  "list_all2 same_container cs ds \<Longrightarrow> ContainersEqual p cs x = [] \<longleftrightarrow> ContainersEqual p ds x = []"
  unfolding ContainersEqual_def
  by (rule named_diff_cong, erule list_all2_mono)
     (use ContainerEqual_cong in \<open>auto simp: same_container_def\<close>)

text \<open>Objects that differ at most in the order of the environment variables of their containers.\<close>

definition same_workload :: "workload \<Rightarrow> workload \<Rightarrow> bool" where
  "same_workload a b \<longleftrightarrow>
     (\<exists>cs. list_all2 same_container (pod_Containers (pt_Spec (ws_Template (wl_Spec a)))) cs
        \<and> b = a\<lparr>wl_Spec := (wl_Spec a)\<lparr>ws_Template := (ws_Template (wl_Spec a))
               \<lparr>pt_Spec := (pt_Spec (ws_Template (wl_Spec a)))\<lparr>pod_Containers := cs\<rparr>\<rparr>\<rparr>\<rparr>)"

definition same_object :: "kobject \<Rightarrow> kobject \<Rightarrow> bool" where
  "same_object x y \<longleftrightarrow> x = y \<or> (\<exists>a b. x = O_StatefulSet a \<and> y = O_StatefulSet b \<and> same_workload a b)"

lemma same_object_refl [simp]: "same_object x x"
  by (simp add: same_object_def)

lemma same_object_settled: "same_object x y \<Longrightarrow> settled_in live w x \<Longrightarrow> settled_in live w y"
proof -
  assume s: "same_object x y" "settled_in live w x"
  show ?thesis
  proof (cases "x = y")
    case False
    then obtain a b where xy: "x = O_StatefulSet a" "y = O_StatefulSet b" "same_workload a b"
      using s(1) by (auto simp: same_object_def)
    then have "StatefulSetEqual a z = [] \<longleftrightarrow> StatefulSetEqual b z = []" for z
      using ContainersEqual_cong
      by (auto simp: same_workload_def StatefulSetEqual_def StatefulSetSpecEqual_def PodTemplateSpecEqual_def
          PodSpecEqual_def)
    moreover have "obj_key y = obj_key x" using xy by (auto simp: same_workload_def)
    ultimately show ?thesis using s(2) xy by (auto simp: settled_in_def split: option.splits)
  qed (use s in simp)
qed

lemma same_objects_settled:
  "list_all2 same_object xs ys \<Longrightarrow> list_all (settled_in live w) xs \<Longrightarrow> list_all (settled_in live w) ys"
  by (induction rule: list_all2_induct) (auto intro: same_object_settled)

section \<open>A second run writes nothing\<close>

text \<open>A run in another order: the reconciler differs in its iteration orders only.\<close>

definition reordered ::
  "'w reconciler \<Rightarrow> ((string, string) gomap \<Rightarrow> (string, string) gomap)
    \<Rightarrow> ((string, labelSelector) gomap \<Rightarrow> (string, labelSelector) gomap) \<Rightarrow> 'w reconciler" where
  "reordered r envs domains = r\<lparr>rc_env_order := envs, rc_domain_order := domains\<rparr>"

definition env_orders_ok :: "((string, string) gomap \<Rightarrow> (string, string) gomap) \<Rightarrow> bool" where
  "env_orders_ok f \<longleftrightarrow> (\<forall>m. map_order (f m) m)"

lemma same_env_append: "same_env a b \<Longrightarrow> same_env (a @ c) (b @ c)"
  by (auto simp: same_env_def)

lemma container_reordered:
  assumes "gomap_ok vars" and "env_orders_ok f" and "env_orders_ok g"
    and "env_wf (SetContainerEnvVars (f vars) c)"
  shows "same_container (SetContainerEnvVars (f vars) c) (SetContainerEnvVars (g vars) c)"
proof -
  have d: "distinct (env_names (fold (\<lambda>(k, v). set_env_var k v) (f vars) (c_Env c)))"
    using assms(4) by (simp add: env_wf_def SetContainerEnvVars_def env_names_def)
  have "same_env (fold (\<lambda>(k, v). set_env_var k v) (f vars) (c_Env c))
      (fold (\<lambda>(k, v). set_env_var k v) (g vars) (c_Env c))"
    by (rule env_order_same [OF assms(1) _ _ d])
       (use assms(2,3) in \<open>simp_all add: env_orders_ok_def\<close>)
  then show ?thesis
    unfolding same_container_def SetContainerEnvVars_def
    by (intro exI [of _ "fold (\<lambda>(k, v). set_env_var k v) (g vars) (c_Env c)
        @ [env_from_field EnvNamespace ''metadata.namespace'', env_from_field EnvPodName ''metadata.name'']"])
       (auto intro: same_env_append)
qed

lemma agent_envs_ok:
  "gomap_ok (pipeline_agent_env r p fs)" "gomap_ok (registry_env p)" "gomap_ok (link_agent_env r p l)"
  "gomap_ok (task_agent_env r p t fs)"
  by (simp_all add: gomap_ok_def pipeline_agent_env_def registry_env_def link_agent_env_def task_agent_env_def
      Let_def env_constants)

lemma agent_stateful_set_reordered:
  assumes "list_all2 same_container cs ds"
  shows "same_object (own_object r p (O_StatefulSet (agent_stateful_set r p n ls a cs)))
    (own_object (reordered r f g) p (O_StatefulSet (agent_stateful_set (reordered r f g) p n ls a ds)))"
  using assms
  by (simp add: same_object_def same_workload_def agent_stateful_set_def reordered_def own_meta_def)

lemma agent_objects_wf:
  "x \<in> set (agent_objects r p (agent_stateful_set r p n ls a cs) svc) \<Longrightarrow>
     \<forall>x \<in> set (agent_objects r p (agent_stateful_set r p n ls a cs) svc). object_wf x \<Longrightarrow>
     list_all env_wf cs"
  by (simp add: agent_objects_def agent_stateful_set_def workload_wf_def template_wf_def containers_wf_def)

lemma reordered_fields [simp]:
  "rc_api (reordered r f g) = rc_api r" "rc_network (reordered r f g) = rc_network r"
  "rc_sha1 (reordered r f g) = rc_sha1 r" "rc_owner (reordered r f g) = rc_owner r"
  "rc_hash_spec (reordered r f g) = rc_hash_spec r" "rc_record (reordered r f g) = rc_record r"
  "rc_env_order (reordered r f g) = f" "rc_services_config (reordered r f g) = rc_services_config r"
  "rc_yaml_services (reordered r f g) = rc_yaml_services r" "rc_filesystems (reordered r f g) = rc_filesystems r"
  "own_meta (reordered r f g) p = own_meta r p" "own_object (reordered r f g) p x = own_object r p x"
  "rc_marshal_labels (reordered r f g) = rc_marshal_labels r"
proof -
  show m: "own_meta (reordered r f g) p = own_meta r p" for p by (simp add: own_meta_def reordered_def fun_eq_iff)
  show "own_object (reordered r f g) p x = own_object r p x" by (cases x) (simp_all add: m)
qed (simp_all add: reordered_def)

lemma reordered_input_annotations:
  "input_annotations (reordered r f g) p t ins acc = input_annotations r p t ins acc"
  by (induction ins arbitrary: acc) (auto split: option.split)

lemma reordered_parts:
  "output_address (reordered r f g) p t tos = output_address r p t tos"
  "task_executor_entry (reordered r f g) p A = task_executor_entry r p A"
  "pipeline_frontend (reordered r f g) p = pipeline_frontend r p"
  by (simp_all add: fun_eq_iff output_address_def task_executor_entry_def pipeline_frontend_def Let_def)

lemma reordered_output_annotations:
  "output_annotations (reordered r f g) p t outs acc = output_annotations r p t outs acc"
  by (induction outs arbitrary: acc) (auto simp: reordered_parts)

lemma reordered_objects [simp]:
  "access_objects (reordered r f g) p = access_objects r p"
  "wanted_request (reordered r f g) p A = wanted_request r p A"
  "wanted_annotations (reordered r f g) p A t = wanted_annotations r p A t"
  by (simp_all add: access_objects_def pipeline_revision_def agents_role_def agents_role_binding_def
      agents_cluster_role_def agents_cluster_role_binding_def executors_role_def executors_role_binding_def
      wanted_request_def wanted_annotations_def task_annotations_def
      reordered_input_annotations reordered_output_annotations task_executor_labels_def task_agent_labels_def
      reordered_parts)

lemma agent_objects_reordered:
  assumes "list_all object_wf (agent_objects r p (agent_stateful_set r p n ls a cs) svc)"
    and "list_all env_wf cs \<Longrightarrow> list_all2 same_container cs ds"
  shows "list_all2 same_object (agent_objects r p (agent_stateful_set r p n ls a cs) svc)
    (agent_objects (reordered r f g) p (agent_stateful_set (reordered r f g) p n ls a ds) svc)"
proof -
  have "list_all env_wf cs"
    using assms(1) by (simp add: agent_objects_def agent_stateful_set_def workload_wf_def template_wf_def containers_wf_def)
  then show ?thesis
    using agent_stateful_set_reordered [OF assms(2), of r p n ls a f g] by (simp add: agent_objects_def)
qed

lemma reordered_agent_parts [simp]:
  "pipeline_agent_env (reordered r f g) p fs = pipeline_agent_env r p fs"
  "link_agent_env (reordered r f g) p l = link_agent_env r p l"
  "task_agent_env (reordered r f g) p t fs = task_agent_env r p t fs"
  "pipeline_agent_labels (reordered r f g) p = pipeline_agent_labels r p"
  "link_agent_labels (reordered r f g) p l = link_agent_labels r p l"
  "task_agent_labels (reordered r f g) p t = task_agent_labels r p t"
  "pipeline_agent_service (reordered r f g) p = pipeline_agent_service r p"
  "link_agent_service (reordered r f g) p l = link_agent_service r p l"
  "task_agent_service (reordered r f g) p t = task_agent_service r p t"
  "task_executor_service (reordered r f g) p t routes = task_executor_service r p t routes"
  by (simp_all add: pipeline_agent_env_def link_agent_env_def task_agent_env_def pipeline_agent_labels_def
      link_agent_labels_def task_agent_labels_def pipeline_agent_service_def link_agent_service_def
      task_agent_service_def task_executor_service_def task_executor_labels_def)

lemma agent_containers_reordered:
  assumes "env_orders_ok (rc_env_order r)" and "env_orders_ok f"
  shows "env_wf (pipeline_agent_container r p fs c) \<Longrightarrow>
      same_container (pipeline_agent_container r p fs c) (pipeline_agent_container (reordered r f g) p fs c)"
    and "env_wf (registry_container r p c) \<Longrightarrow>
      same_container (registry_container r p c) (registry_container (reordered r f g) p c)"
    and "env_wf (link_agent_container r p l c) \<Longrightarrow>
      same_container (link_agent_container r p l c) (link_agent_container (reordered r f g) p l c)"
    and "env_wf (task_agent_container r p t fs c) \<Longrightarrow>
      same_container (task_agent_container r p t fs c) (task_agent_container (reordered r f g) p t fs c)"
  unfolding pipeline_agent_container_def registry_container_def link_agent_container_def task_agent_container_def
    reordered_agent_parts reordered_fields
  by (rule container_reordered [OF agent_envs_ok(1) assms] container_reordered [OF agent_envs_ok(2) assms]
      container_reordered [OF agent_envs_ok(3) assms] container_reordered [OF agent_envs_ok(4) assms],
      assumption)+

lemma wanted_objects_reordered:
  assumes "env_orders_ok (rc_env_order r)" and "env_orders_ok f"
    and wf: "list_all object_wf (wanted_objects r p fs A)"
  shows "list_all2 same_object (wanted_objects r p fs A) (wanted_objects (reordered r f g) p fs A)"
proof -
  let ?r = "reordered r f g"
  note cont = agent_containers_reordered [OF assms(1,2)]
  have refl: "list_all2 same_object xs xs" for xs by (rule list_all2_refl) simp
  have pipeline: "list_all2 same_object (pipeline_agent_objects r p fs A) (pipeline_agent_objects ?r p fs A)"
    using wf
    by (simp add: pipeline_agent_objects_def pipeline_agent_stateful_set_def wanted_objects_def)
       (rule agent_objects_reordered, auto intro: cont)
  have link: "list_all2 same_object (link_agent_objects r p A l) (link_agent_objects ?r p A l)"
    if "l \<in> set (ps_Links (pl_Spec p))" for l
  proof -
    have "list_all object_wf (link_agent_objects r p A l)"
      using wf that by (auto simp: wanted_objects_def list_all_iff)
    then show ?thesis
      unfolding link_agent_objects_def link_agent_stateful_set_def reordered_fields reordered_agent_parts
      by (rule agent_objects_reordered) (auto intro: cont)
  qed
  have task: "list_all2 same_object (task_agent_objects r p fs A t) (task_agent_objects ?r p fs A t)"
    if "t \<in> set (ps_Tasks (pl_Spec p))" for t
  proof -
    let ?S = "agent_objects r p (task_agent_stateful_set r p t fs (wanted_annotations r p A t) (aa_task A))
      (task_agent_service r p t)"
    let ?S' = "agent_objects ?r p (task_agent_stateful_set ?r p t fs (wanted_annotations ?r p A t) (aa_task A))
      (task_agent_service ?r p t)"
    have "list_all object_wf ?S"
      using wf that by (auto simp: wanted_objects_def list_all_iff task_agent_objects_def)
    then have S: "list_all2 same_object ?S ?S'"
      unfolding task_agent_stateful_set_def reordered_fields reordered_agent_parts reordered_objects
      by (rule agent_objects_reordered) (auto intro: cont)
    show ?thesis
      unfolding task_agent_objects_def by (rule list_all2_appendI [OF S]) (simp add: refl)
  qed
  have many: "list_all2 same_object (concat (map F xs)) (concat (map G xs))"
    if "\<And>x. x \<in> set xs \<Longrightarrow> list_all2 same_object (F x) (G x)" for F G :: "'b \<Rightarrow> kobject list" and xs
    using that by (induction xs) (auto intro: list_all2_appendI)
  show ?thesis
    unfolding wanted_objects_def reordered_objects
    by (intro list_all2_appendI pipeline many link task refl, assumption+) (simp add: refl)
qed

section \<open>Properties of a run\<close>

text \<open>
  A pipeline is ready to run: it exists, is valid and connected, its configuration is readable, its
  status is up to date or could be updated (to \<open>p'\<close>, in the world \<open>w1\<close>), a file system service
  exists, and an agent of every sort and an executor of every task type is found.
\<close>

record 'w ready_run =
  ru_Pipeline :: Pipeline
  ru_Services :: Services
  ru_Updated :: Pipeline
  ru_World :: "'w"
  ru_Filesystem :: string
  ru_Agents :: agents

definition filesystem_address :: "'w reconciler \<Rightarrow> 'w \<Rightarrow> string option" where
  "filesystem_address r w =
     (case rc_filesystems r w of
        Inr ((name, ns, ports) # svcs) \<Rightarrow> CreateServiceAddress name ns ports | _ \<Rightarrow> None)"

definition ready :: "'w reconciler \<Rightarrow> string \<Rightarrow> string \<Rightarrow> 'w \<Rightarrow> 'w ready_run \<Rightarrow> bool" where
  "ready r name ns w u \<longleftrightarrow>
     api_Get (rc_api r) KPipeline name ns w = ApiFound (O_Pipeline (ru_Pipeline u))
     \<and> PipelineSpec_Validate (pl_Spec (ru_Pipeline u)) = None
     \<and> inputs_connected (pl_Spec (ru_Pipeline u))
     \<and> NewServices (rc_services_config r w) (rc_yaml_services r) (pl_Namespace (ru_Pipeline u)) = Inr (ru_Services u)
     \<and> update_status r (ru_Pipeline u) w = (Some (ru_Updated u), ru_World u)
     \<and> filesystem_address r (ru_World u) = Some (ru_Filesystem u)
     \<and> agents_found r (ru_Updated u) (ru_Services u) (ru_Agents u) w"

definition wanted :: "'w reconciler \<Rightarrow> 'w ready_run \<Rightarrow> kobject list" where
  "wanted r u = wanted_objects r (ru_Updated u) (ru_Filesystem u) (ru_Agents u)"

lemma update_succeeded:
  "(case x of (Some e, w) \<Rightarrow> (None, w) | (None, w) \<Rightarrow> (Some q, f w)) = (Some q', v')
     \<longleftrightarrow> (\<exists>w. x = (None, w) \<and> q' = q \<and> v' = f w)"
  by (cases x) (auto split: option.splits)

lemma update_status_updated:
  assumes "update_status r p w = (Some p', w1)" and "cluster_ok r live"
  shows "pl_Spec p' = pl_Spec p \<and> pl_Name p' = pl_Name p \<and> pl_Namespace p' = pl_Namespace p
    \<and> pst_Domain (pl_Status p') \<noteq> [] \<and> pst_Revision (pl_Status p') = rc_hash_spec r (pl_Spec p)
    \<and> listed r w1 = listed r w
    \<and> (live w (obj_key (O_Pipeline p)) = Some (O_Pipeline p) \<longrightarrow> live w1 (obj_key (O_Pipeline p)) = Some (O_Pipeline p'))
    \<and> (\<forall>key. fst key \<noteq> KPipeline \<longrightarrow> get_object (rc_api r) key w1 = get_object (rc_api r) key w \<and> live w1 key = live w key)"
proof -
  note c = cluster_okD [OF assms(2)]
  have rec: "listed r (rc_record r ev v) = listed r v" "live (rc_record r ev v) = live v"
    "get_object (rc_api r) key (rc_record r ev v) = get_object (rc_api r) key v" for ev v key
    using c(3) by (auto simp: lists_stable_def get_object_def split: prod.split)
  have upd: "listed r v' = listed r v \<and> live v' (obj_key (O_Pipeline q)) = Some (O_Pipeline q)
      \<and> (\<forall>key. fst key \<noteq> KPipeline \<longrightarrow> get_object (rc_api r) key v' = get_object (rc_api r) key v \<and> live v' key = live v key)"
    if "api_Update (rc_api r) (O_Pipeline q) v = (None, v')" for q v v'
  proof (intro conjI allI impI)
    show "listed r v' = listed r v" using that c(3) unfolding lists_stable_def by blast
    show "live v' (obj_key (O_Pipeline q)) = Some (O_Pipeline q)"
      using write_stored(1) [OF c(1), of "O_Pipeline q" v v'] that by auto
    fix key :: object_key
    assume "fst key \<noteq> KPipeline"
    then have "key \<noteq> obj_key (O_Pipeline q)" by auto
    from write_stored(2) [OF c(1) _ this] that
    show "get_object (rc_api r) key v' = get_object (rc_api r) key v" "live v' key = live v key" by auto
  qed
  have revision: "pl_Spec q' = pl_Spec q \<and> pl_Name q' = pl_Name q \<and> pl_Namespace q' = pl_Namespace q
      \<and> pst_Domain (pl_Status q') = pst_Domain (pl_Status q)
      \<and> pst_Revision (pl_Status q') = rc_hash_spec r (pl_Spec q) \<and> listed r v' = listed r v
      \<and> live v' (obj_key (O_Pipeline q)) = Some (O_Pipeline q')
      \<and> (\<forall>key. fst key \<noteq> KPipeline \<longrightarrow> get_object (rc_api r) key v' = get_object (rc_api r) key v \<and> live v' key = live v key)"
    if "update_revision r q needed v = (Some q', v')"
      "\<not> needed \<Longrightarrow> live v (obj_key (O_Pipeline q)) = Some (O_Pipeline q)"
    for q needed v q' v'
  proof (cases "needed \<or> rc_hash_spec r (pl_Spec q) \<noteq> pst_Revision (pl_Status q)")
    case False
    then show ?thesis using that by (auto simp: update_revision_def Let_def)
  next
    case True
    let ?h = "rc_hash_spec r (pl_Spec q)"
    let ?q = "if ?h \<noteq> pst_Revision (pl_Status q) then q\<lparr>pl_Status := (pl_Status q)\<lparr>pst_Revision := ?h\<rparr>\<rparr> else q"
    let ?v = "if ?h \<noteq> pst_Revision (pl_Status q) then rc_record r (EvRevision ?h) v else v"
    have e: "update_revision r q needed v = (case api_Update (rc_api r) (O_Pipeline ?q) ?v of
        (Some e, w) \<Rightarrow> (None, w) | (None, w) \<Rightarrow> (Some ?q, rc_record r EvValid w))"
      using True by (simp only: update_revision_def Let_def typed_client_def kube_client.select_convs) simp
    have "\<exists>v2. api_Update (rc_api r) (O_Pipeline ?q) ?v = (None, v2) \<and> q' = ?q \<and> v' = rc_record r EvValid v2"
      using that(1) unfolding e update_succeeded .
    then show ?thesis
    proof (elim exE conjE)
      fix v2
      assume "api_Update (rc_api r) (O_Pipeline ?q) ?v = (None, v2)" and q: "q' = ?q" "v' = rc_record r EvValid v2"
      note upd [OF this(1)]
      then show ?thesis by (simp add: q rec split: if_splits)
    qed
  qed
  have unneeded: "pl_Spec q' = pl_Spec q \<and> pl_Name q' = pl_Name q \<and> pl_Namespace q' = pl_Namespace q
      \<and> pst_Domain (pl_Status q') = pst_Domain (pl_Status q)
      \<and> pst_Revision (pl_Status q') = rc_hash_spec r (pl_Spec q) \<and> listed r v = listed r v \<and> v' = v
      \<and> q' = q"
    if "update_revision r q False v = (Some q', v')" "rc_hash_spec r (pl_Spec q) = pst_Revision (pl_Status q)" for q v q' v'
    using that by (simp add: update_revision_def)
  show ?thesis
  proof (cases "pst_Domain (pl_Status p) = []")
    case True
    then obtain d where d: "pipeline_domain r p w = Inr d"
      "update_revision r (p\<lparr>pl_Status := (pl_Status p)\<lparr>pst_Domain := d\<rparr>\<rparr>) True w = (Some p', w1)"
      using assms(1) by (auto simp: update_status_def split: sum.splits)
    then have "d \<noteq> []" by (auto simp: pipeline_domain_def map_sum_def split: sum.splits)
    with revision [OF d(2)] show ?thesis by simp
  next
    case False
    with assms(1) have s: "update_revision r p False w = (Some p', w1)" by (simp add: update_status_def)
    show ?thesis
    proof (cases "rc_hash_spec r (pl_Spec p) = pst_Revision (pl_Status p)")
      case True
      from unneeded [OF s True] False True show ?thesis by auto
    next
      case changed: False
      then have "update_revision r p True w = (Some p', w1)" using s by (simp add: update_revision_def Let_def)
      from revision [OF this] False show ?thesis by simp
    qed
  qed
qed

lemma ready_key: "cluster_ok r live \<Longrightarrow> ready r name ns w u \<Longrightarrow>
    name = pl_Name (ru_Pipeline u) \<and> ns = pl_Namespace (ru_Pipeline u)"
  using api_found_key [of "rc_api r" live KPipeline name ns w "O_Pipeline (ru_Pipeline u)"]
  by (simp add: ready_def cluster_ok_def)

lemma ready_run_objects:
  assumes "cluster_ok r live" and "ready r name ns w u"
  shows "Reconcile r name ns w =
    (case ensure_objects (rc_api r) (wanted r u) (ru_World u) of
       (None, w') \<Rightarrow> ((one_minute, None), w') | (Some e, w') \<Rightarrow> ((no_result, Some (RE_Api e)), w'))"
proof -
  note k = ready_key [OF assms]
  have u: "api_Get (rc_api r) KPipeline name ns w = ApiFound (O_Pipeline (ru_Pipeline u))"
    "PipelineSpec_Validate (pl_Spec (ru_Pipeline u)) = None"
    "NewServices (rc_services_config r w) (rc_yaml_services r) (pl_Namespace (ru_Pipeline u)) = Inr (ru_Services u)"
    "update_status r (ru_Pipeline u) w = (Some (ru_Updated u), ru_World u)"
    "filesystem_address r (ru_World u) = Some (ru_Filesystem u)"
    using assms(2) by (simp_all add: ready_def)
  note up = update_status_updated [OF u(4) assms(1)]
  have found: "agents_found r (ru_Updated u) (ru_Services u) (ru_Agents u) (ru_World u)"
    using assms(2) agents_found_listed [of r "ru_World u" w] up by (simp add: ready_def)
  have conn: "inputs_connected (pl_Spec (ru_Updated u))" using assms(2) up by (simp add: ready_def)
  have "Reconcile r name ns w = reconcile_resources r (ru_Updated u) (ru_Filesystem u) (ru_Services u) (ru_World u)"
    using u by (auto simp: Reconcile_def typed_client_def typed_get_def reconcile_filesystem_def filesystem_address_def
        split: sum.splits list.splits option.splits)
  then show ?thesis
    using reconcile_resources_objects [OF assms(1) found conn] by (simp add: wanted_def)
qed

lemma wanted_no_pipeline:
  assumes "cluster_ok r live" and "x \<in> set (wanted_objects r p fs A)"
  shows "fst (obj_key x) \<noteq> KPipeline"
  using assms(2)
  by (auto simp: wanted_objects_def access_objects_def pipeline_agent_objects_def link_agent_objects_def
      task_agent_objects_def agent_objects_def split: if_splits)

text \<open>The objects of the world before the run that hold the place of wanted ones.\<close>

definition metadata_untouched :: "'w reconciler \<Rightarrow> 'w \<Rightarrow> 'w ready_run \<Rightarrow> bool" where
  "metadata_untouched r w u \<longleftrightarrow> list_all (metadata_agrees (rc_api r) w) (wanted r u)"

text \<open>Every wanted object spells out the fields that the server would fill in.\<close>

lemma tcp_port_explicit [simp]: "service_port_defaults (tcp_port n i) = tcp_port n i"
  by (auto simp: service_port_defaults_def tcp_port_def default_text_def)

lemma binding_explicit [simp]:
  "role_binding_defaults (agents_role_binding r p) = agents_role_binding r p"
  "role_binding_defaults (agents_cluster_role_binding r p) = agents_cluster_role_binding r p"
  "role_binding_defaults (executors_role_binding r p) = executors_role_binding r p"
  by (simp_all add: role_binding_defaults_def agents_role_binding_def agents_cluster_role_binding_def
      executors_role_binding_def service_account_subject_def subject_defaults_def default_text_def rbac_group_def)

lemma wanted_explicit: "list_all explicit (wanted_objects r p fs A)"
proof -
  have "explicit (own_object r p (O_Service (pipeline_agent_service r p)))"
    "explicit (own_object r p (O_Service (link_agent_service r p l)))"
    "explicit (own_object r p (O_Service (task_agent_service r p t)))"
    "explicit (own_object r p (O_Service (task_executor_service r p t routes)))" for l t routes
    unfolding pipeline_agent_service_def link_agent_service_def task_agent_service_def task_executor_service_def
    by (auto simp: cluster_service_def list_all_iff split: option.splits)
  then show ?thesis
    by (auto simp: wanted_objects_def access_objects_def pipeline_agent_objects_def link_agent_objects_def
        task_agent_objects_def agent_objects_def list_all_iff simp del: own_object.simps(6))
qed

lemma ready_live:
  assumes "cluster_ok r live" and "ready r name ns w u" and "cache_synced (rc_api r) live w"
  shows "live w (KPipeline, name, ns) = Some (O_Pipeline (ru_Pipeline u))"
proof -
  have "get_object (rc_api r) (KPipeline, name, ns) w = ApiFound (O_Pipeline (ru_Pipeline u))"
    using assms(2) by (simp add: ready_def get_object_def)
  moreover have "cache_at (rc_api r) live w (KPipeline, name, ns)" using assms(3) unfolding cache_synced_def by blast
  ultimately show ?thesis by (auto simp: cache_at_def split: option.splits)
qed

lemma ready_run_settled:
  assumes "cluster_ok r live" and "ready r name ns w u" and "cache_synced (rc_api r) live w"
    and "ensurable (wanted r u)" and "metadata_untouched r w u" and "Reconcile r name ns w = ((res, None), w')"
  shows "res = one_minute \<and> list_all (settled_in live w') (wanted r u)
    \<and> live w' (KPipeline, name, ns) = Some (O_Pipeline (ru_Updated u))
    \<and> listed r w' = listed r w"
proof -
  note c = cluster_okD [OF assms(1)]
  note k = ready_key [OF assms(1,2)]
  have u: "update_status r (ru_Pipeline u) w = (Some (ru_Updated u), ru_World u)"
    using assms(2) by (simp add: ready_def)
  note up = update_status_updated [OF u assms(1)]
  have ok: "ensure_objects (rc_api r) (wanted r u) (ru_World u) = (None, w')" and res: "res = one_minute"
    using ready_run_objects [OF assms(1,2)] assms(6) by (auto split: prod.splits option.splits)
  have np: "list_all (\<lambda>x. fst (obj_key x) \<noteq> KPipeline) (wanted r u)"
    using wanted_no_pipeline [OF assms(1)] by (auto simp: wanted_def list_all_iff)
  have same: "get_object (rc_api r) (obj_key x) (ru_World u) = get_object (rc_api r) (obj_key x) w
      \<and> live (ru_World u) (obj_key x) = live w (obj_key x)"
    if "x \<in> set (wanted r u)" for x
    using up np that by (simp add: list_all_iff del: split_paired_All)
  then have meta: "list_all (metadata_agrees (rc_api r) (ru_World u)) (wanted r u)"
    using assms(5) by (auto simp: metadata_untouched_def list_all_iff metadata_agrees_def)
  have cache: "list_all (\<lambda>x. cache_at (rc_api r) live (ru_World u) (obj_key x)) (wanted r u)"
    using same assms(3) by (auto simp: list_all_iff cache_synced_def cache_at_def simp del: split_paired_All)
  have settled: "list_all (settled_in live w') (wanted r u)"
    by (rule ensure_objects_settles [OF c(1) ok assms(4) meta _ cache]) (simp add: wanted_def wanted_explicit)
  have "live w' (KPipeline, name, ns) = live (ru_World u) (KPipeline, name, ns)"
  proof (rule conjunct2 [OF ensure_objects_frame [OF c(1) ok np]])
    show "(KPipeline, name, ns) \<notin> obj_key ` set (wanted r u)"
    proof
      assume "(KPipeline, name, ns) \<in> obj_key ` set (wanted r u)"
      then obtain x where "x \<in> set (wanted r u)" "obj_key x = (KPipeline, name, ns)" by auto
      with np show False by (auto simp: list_all_iff)
    qed
  qed
  then have "live w' (KPipeline, name, ns) = Some (O_Pipeline (ru_Updated u))"
    using up k ready_live [OF assms(1-3)] by simp
  then show ?thesis
    using res settled ensure_objects_listed [OF assms(1) ok] up by simp
qed

text \<open>A later world: nobody else has written, and the cache has caught up.\<close>

definition caught_up :: "'w reconciler \<Rightarrow> 'w live \<Rightarrow> 'w \<Rightarrow> 'w \<Rightarrow> bool" where
  "caught_up r live w w' \<longleftrightarrow> live w' = live w \<and> listed r w' = listed r w \<and> cache_synced (rc_api r) live w'"

section \<open>Properties\<close>

text \<open>C10: convergence of the pipeline controller, against a server that fills in its defaults and a
  client that reads from a cache. When a run for a connected pipeline succeeds, with
  every agent found and no metadata of existing objects in the way, then every later run that starts
  when the cache has caught up, in whatever order the runtime ranges over the maps, succeeds, asks to be
  called again after a minute and writes nothing at all: it creates no object, updates none and
  records no event.\<close>
theorem reconcile_converges:
  assumes "cluster_ok r live" and "ready r name ns w u" and "cache_synced (rc_api r) live w"
    and "ensurable (wanted r u)" and "metadata_untouched r w u" and "Reconcile r name ns w = ((res, None), w')"
    and "caught_up r live w' w2" and "filesystem_address r w2 = Some (ru_Filesystem u)"
    and "env_orders_ok (rc_env_order r)" and "env_orders_ok envs"
  shows "Reconcile (reordered r envs domains) name ns w2 = ((one_minute, None), w2)"
proof -
  let ?r = "reordered r envs domains"
  let ?u = "u\<lparr>ru_Pipeline := ru_Updated u, ru_World := w2\<rparr>"
  note s = ready_run_settled [OF assms(1-6)]
  have later: "live w2 = live w'" "listed r w2 = listed r w'" "cache_synced (rc_api r) live w2"
    using assms(7) by (simp_all add: caught_up_def)
  have u: "update_status r (ru_Pipeline u) w = (Some (ru_Updated u), ru_World u)"
    using assms(2) by (simp add: ready_def)
  note up = update_status_updated [OF u assms(1)]
  have ok: "cluster_ok ?r live"
    using assms(1) by (simp add: cluster_ok_def owners_ok_def lists_stable_def listed_def reordered_def)
  have found: "agents_found ?r (ru_Updated u) (ru_Services u) (ru_Agents u) w2"
    using assms(2) agents_found_listed [of r w2 w] s later(2)
    by (simp add: ready_def) (simp add: agents_found_def reordered_def)
  have st: "update_status ?r (ru_Updated u) w2 = (Some (ru_Updated u), w2)"
    using up by (simp add: update_status_def update_revision_def)
  have "rc_services_config r w2 = rc_services_config r w" using s later(2) by (simp add: listed_def)
  moreover have "get_object (rc_api r) (KPipeline, name, ns) w2 = ApiFound (O_Pipeline (ru_Updated u))"
    using later(1,3) s by (auto simp: cache_synced_def cache_at_def simp del: split_paired_All)
  ultimately have "ready ?r name ns w2 ?u"
    using assms(2,8) st found up by (simp add: ready_def filesystem_address_def get_object_def)
  note run = ready_run_objects [OF ok this]
  have "list_all object_wf (wanted r u)" using assms(4) by (auto simp: ensurable_def list_all_iff)
  then have "list_all2 same_object (wanted r u) (wanted ?r ?u)"
    using wanted_objects_reordered [OF assms(9,10)] by (simp add: wanted_def)
  then have "list_all (settled_in live w2) (wanted ?r ?u)"
    by (rule same_objects_settled) (use s later(1) in \<open>auto simp: settled_in_def list_all_iff\<close>)
  then show ?thesis using run ensure_objects_settled [OF later(3)] by simp
qed

end
