(* ===== verification/Pipeline_Example.thy ===== *)
theory Pipeline_Example
  imports Pipeline_Plan "HOL-Library.Code_Target_Nat"
begin

text \<open>
  A concrete cluster and a pipeline of two tasks, on which the properties of the pipeline
  controller are evaluated: the hypotheses about the parameters of the reconciler can hold.
\<close>

text \<open>
  A cluster for examples, with fixed agents: the objects the server holds, the cache the client reads
  from, which is only brought up to date by \<open>example_sync\<close>, and the events recorded.  The server fills
  in its defaults and gives services an address.
\<close>

record example_cluster =
  ec_objects :: "kobject list"
  ec_cache :: "kobject list"
  ec_events :: "pipeline_event list"

definition example_stored :: "kobject \<Rightarrow> kobject" where
  "example_stored x = (case server_defaults x of
     O_Service s \<Rightarrow> O_Service (s\<lparr>sv_Spec := (sv_Spec s)\<lparr>ss_ClusterIP := ''10.0.0.1''\<rparr>\<rparr>) | y \<Rightarrow> y)"

definition example_write :: "kobject \<Rightarrow> example_cluster \<Rightarrow> example_cluster" where
  "example_write x w = w\<lparr>ec_objects := example_stored x # filter (\<lambda>y. obj_key y \<noteq> obj_key x) (ec_objects w)\<rparr>"

definition example_sync :: "example_cluster \<Rightarrow> example_cluster" where
  "example_sync w = w\<lparr>ec_cache := ec_objects w\<rparr>"

definition example_api :: "example_cluster api" where
  "example_api =
     \<lparr>api_Get = (\<lambda>k n ns w. case find (\<lambda>x. obj_key x = (k, n, ns)) (ec_cache w) of
        None \<Rightarrow> ApiNotFound | Some x \<Rightarrow> ApiFound x),
      api_Create = (\<lambda>x w. (None, example_write x w)), api_Update = (\<lambda>x w. (None, example_write x w))\<rparr>"

definition example_owner :: "Pipeline \<Rightarrow> object_meta \<Rightarrow> (string, object_meta) go_result" where
  "example_owner p m = Inr (m\<lparr>om_Owners := [pl_Name p]\<rparr>)"

definition agent_image :: "string \<Rightarrow> container" where
  "agent_image i = empty_container\<lparr>c_Image := i\<rparr>"

definition example_reconciler :: "example_cluster reconciler" where
  "example_reconciler =
     \<lparr>rc_api = example_api, rc_network = contour_network example_api example_owner,
      rc_pipeline_agents = (\<lambda>w ns. Inr [\<lparr>ag_Name = ''p'', ag_Container = Some (agent_image ''pi'')\<rparr>]),
      rc_link_agents = (\<lambda>w ns. Inr [\<lparr>ag_Name = ''stub-link-agent'', ag_Container = Some (agent_image ''li'')\<rparr>]),
      rc_task_agents = (\<lambda>w ns. Inr [\<lparr>ag_Name = ''t'', ag_Container = Some (agent_image ''ti'')\<rparr>]),
      rc_registries = (\<lambda>w ns. Inr [\<lparr>ag_Name = ''stub-annotatedvalue-registry'',
        ag_Container = Some (agent_image ''ri'')\<rparr>]),
      rc_executors = (\<lambda>w ns. Inr [\<lparr>tx_Type = ''Gen'', tx_Container = Some (agent_image ''xi''),
        tx_Routes = [\<lparr>nr_Name = ''www'', nr_Port = 80, nr_EnableWebsockets = False, nr_PrefixRewrite = []\<rparr>]\<rparr>]),
      rc_filesystems = (\<lambda>w. Inr [(''fs'', ''sys'', [7000])]),
      rc_domain_config = (\<lambda>w ns. CfgNotFound), rc_services_config = (\<lambda>w ns. CfgNotFound),
      rc_yaml_selector = Inl, rc_yaml_services = Inl, rc_sha1 = example_digest,
      rc_hash_spec = (\<lambda>ps. itoa (length (ps_Tasks ps))), rc_owner = example_owner,
      rc_record = (\<lambda>ev w. w\<lparr>ec_events := ev # ec_events w\<rparr>),
      rc_marshal_container = (\<lambda>c. case c of None \<Rightarrow> Inr ''null'' | Some c \<Rightarrow> Inr (c_Image c)),
      rc_marshal_labels = (\<lambda>ls. concat (map snd ls)), rc_env_order = rev, rc_domain_order = id\<rparr>"

definition chain_spec :: PipelineSpec where
  "chain_spec =
     \<lparr>ps_Tasks =
        [\<lparr>ts_Name = ''src'', ts_Type = ''Gen'', ts_Inputs = [],
           ts_Outputs = [\<lparr>tos_Name = ''out'', tos_TypeRef = ''txt'', tos_Ready = [], tos_Options = []\<rparr>],
           ts_Executor = None, ts_SnapshotPolicy = [], ts_LaunchPolicy = [], ts_Service = None\<rparr>,
         \<lparr>ts_Name = ''snk'', ts_Type = [],
           ts_Inputs = [\<lparr>tis_Name = ''in'', tis_TypeRef = ''txt'', tis_RequiredSequenceLength = None,
             tis_MinSequenceLength = None, tis_MaxSequenceLength = None, tis_Slide = None, tis_MergeInto = []\<rparr>],
           ts_Outputs = [], ts_Executor = Some (agent_image ''img''), ts_SnapshotPolicy = [],
           ts_LaunchPolicy = [], ts_Service = None\<rparr>],
      ps_Links = [\<lparr>lk_Name = ''l'', lk_SourceRef = ''src/out'', lk_DestinationRef = ''snk/in''\<rparr>],
      ps_Types = [\<lparr>ty_Name = ''txt'', ty_Protocol = ''File'', ty_Format = ''Text''\<rparr>]\<rparr>"

definition chain_pipeline :: Pipeline where
  "chain_pipeline = \<lparr>pl_Name = ''demo'', pl_Namespace = ''ns'', pl_Labels = [], pl_Spec = chain_spec,
     pl_Status = \<lparr>pst_Domain = [], pst_Revision = []\<rparr>\<rparr>"

definition chain_cluster :: example_cluster where
  "chain_cluster = \<lparr>ec_objects = [O_Pipeline chain_pipeline], ec_cache = [O_Pipeline chain_pipeline], ec_events = []\<rparr>"

definition chain_updated :: Pipeline where
  "chain_updated = chain_pipeline\<lparr>pl_Status :=
     \<lparr>pst_Domain = ''demo.ns.example.com'', pst_Revision = ''2''\<rparr>\<rparr>"

definition chain_run :: "example_cluster ready_run" where
  "chain_run =
     \<lparr>ru_Pipeline = chain_pipeline,
      ru_Services = \<lparr>sc_AnnotatedValueRegistryName = ''stub-annotatedvalue-registry'',
        sc_LinkAgentName = ''stub-link-agent''\<rparr>,
      ru_Updated = chain_updated,
      ru_World = \<lparr>ec_objects = [O_Pipeline chain_updated], ec_cache = [O_Pipeline chain_pipeline],
        ec_events = [EvValid, EvRevision ''2'']\<rparr>,
      ru_Filesystem = ''fs.sys.svc:7000'',
      ru_Agents = \<lparr>aa_pipeline = agent_image ''pi'', aa_registry = agent_image ''ri'',
        aa_link = agent_image ''li'', aa_task = agent_image ''ti'',
        aa_executor = (\<lambda>t. (''xi'', [\<lparr>nr_Name = ''www'', nr_Port = 80, nr_EnableWebsockets = False,
          nr_PrefixRewrite = []\<rparr>]))\<rparr>\<rparr>"

definition example_live :: "example_cluster live" where
  "example_live w key = find (\<lambda>x. obj_key x = key) (ec_objects w)"

lemma example_stored_key [simp]: "obj_key (example_stored x) = obj_key x"
  by (cases x) (simp_all add: example_stored_def service_defaults_def workload_defaults_def role_binding_defaults_def)

lemma example_stored_as: "stored_as x (example_stored x)"
  by (cases x) (simp_all add: example_stored_def allotted_def Let_def)

lemma find_written:
  "find (\<lambda>x. obj_key x = key) (example_stored x # filter (\<lambda>y. obj_key y \<noteq> obj_key x) xs)
     = (if key = obj_key x then Some (example_stored x) else find (\<lambda>x. obj_key x = key) xs)"
proof -
  have "find (\<lambda>x. obj_key x = key) (filter (\<lambda>y. obj_key y \<noteq> obj_key z) xs)
      = (if key = obj_key z then None else find (\<lambda>x. obj_key x = key) xs)" for z
    by (induction xs) auto
  then show ?thesis by auto
qed

lemma example_cluster_ok: "cluster_ok example_reconciler example_live"
proof -
  have live: "example_live (example_write x w) = (example_live w)(obj_key x \<mapsto> example_stored x)" for x w
    unfolding example_live_def [abs_def] example_write_def by (rule ext) (use find_written in simp)
  have w: "stored_in example_api example_live w x (example_write x w)" for x w
    unfolding stored_in_def live using example_stored_as [of x] by (auto simp: example_api_def example_write_def)
  have key: "obj_key x = (k, n, ns)" if "api_Get example_api k n ns w = ApiFound x" for k n ns w x
    using that by (auto simp: example_api_def split: option.splits dest: find_SomeD)
  have "api_server example_api example_live"
    unfolding api_server_def
  proof (intro conjI allI impI)
    fix x w w'
    show "stored_in example_api example_live w x w'" if "api_Create example_api x w = (None, w')"
      using that w [of w x] by (simp add: example_api_def)
    show "stored_in example_api example_live w x w'" if "api_Update example_api x w = (None, w')"
      using that w [of w x] by (simp add: example_api_def)
  qed (rule key)
  moreover have "owners_ok example_reconciler"
    by (auto simp: owners_ok_def example_reconciler_def example_owner_def)
  moreover have "listed example_reconciler v = listed example_reconciler w" for v w
    by (simp add: listed_def example_reconciler_def)
  moreover have "example_live (rc_record example_reconciler ev w) = example_live w"
    "api_Get example_api k n ns (rc_record example_reconciler ev w) = api_Get example_api k n ns w" for ev w k n ns
    by (simp_all add: example_reconciler_def example_live_def [abs_def] example_api_def)
  ultimately show ?thesis
    unfolding cluster_ok_def lists_stable_def by (simp add: example_reconciler_def)
qed

lemma example_synced: "cache_synced example_api example_live (example_sync w)"
  by (auto simp: cache_synced_def cache_at_def get_object_def example_api_def example_live_def example_sync_def
      split: option.split)

lemma chain_synced: "cache_synced (rc_api example_reconciler) example_live chain_cluster"
  using example_synced [of chain_cluster] by (simp add: example_reconciler_def example_sync_def chain_cluster_def)

lemma chain_ready: "ready example_reconciler ''demo'' ''ns'' chain_cluster chain_run"
proof -
  have "api_Get (rc_api example_reconciler) KPipeline ''demo'' ''ns'' chain_cluster = ApiFound (O_Pipeline chain_pipeline)"
    "PipelineSpec_Validate (pl_Spec chain_pipeline) = None"
    "inputs_connected (pl_Spec chain_pipeline)"
    "NewServices (rc_services_config example_reconciler chain_cluster) (rc_yaml_services example_reconciler)
       (pl_Namespace chain_pipeline) = Inr (ru_Services chain_run)"
    "update_status example_reconciler chain_pipeline chain_cluster = (Some chain_updated, ru_World chain_run)"
    "filesystem_address example_reconciler (ru_World chain_run) = Some (ru_Filesystem chain_run)"
    by code_simp+
  moreover have "agents_found example_reconciler chain_updated (ru_Services chain_run) (ru_Agents chain_run) chain_cluster"
    unfolding agents_found_def chain_updated_def chain_pipeline_def chain_spec_def chain_run_def
      example_reconciler_def selectPipelineAgent_def selectAnnotatedValueRegistry_def selectLinkAgent_def
      selectTaskAgent_def selectTaskExecutor_def first_item_def
    by (simp add: agent_image_def Let_def)
  moreover have "ru_Pipeline chain_run = chain_pipeline" "ru_Updated chain_run = chain_updated"
    by (simp_all add: chain_run_def)
  ultimately show ?thesis by (simp add: ready_def)
qed

lemma chain_ensurable: "ensurable (wanted example_reconciler chain_run)"
  by code_simp

lemma chain_untouched: "metadata_untouched example_reconciler chain_cluster chain_run"
  by code_simp

definition chain_after :: example_cluster where
  "chain_after = snd (Reconcile example_reconciler ''demo'' ''ns'' chain_cluster)"

lemma chain_reconciled:
  "Reconcile example_reconciler ''demo'' ''ns'' chain_cluster = ((one_minute, None), chain_after)"
proof -
  have "fst (Reconcile example_reconciler ''demo'' ''ns'' chain_cluster) = (one_minute, None)"
    by code_simp
  then show ?thesis by (simp add: chain_after_def prod_eq_iff)
qed

lemma chain_caught_up: "caught_up example_reconciler example_live chain_after (example_sync chain_after)"
  using example_synced [of chain_after]
  by (simp add: caught_up_def example_live_def [abs_def] example_sync_def listed_def example_reconciler_def)

lemma reconcile_converges_witness:
  "length (ec_objects chain_after) = 20 \<and>
   Reconcile (reordered example_reconciler id rev) ''demo'' ''ns'' (example_sync chain_after)
     = ((one_minute, None), example_sync chain_after)"
proof -
  have "filesystem_address example_reconciler (example_sync chain_after) = Some (ru_Filesystem chain_run)"
    by code_simp
  moreover have "env_orders_ok (rc_env_order example_reconciler)" "env_orders_ok id"
    by (simp_all add: env_orders_ok_def example_reconciler_def map_order_def)
  moreover have "length (ec_objects chain_after) = 20" by code_simp
  ultimately show ?thesis
    using reconcile_converges [OF example_cluster_ok chain_ready chain_synced chain_ensurable chain_untouched
      chain_reconciled chain_caught_up]
    by blast
qed

end
