(* ===== verification/Pipeline_Runs.thy ===== *)
theory Pipeline_Runs
  imports Pipeline_Example
begin

text \<open>
  What holds of every run of the pipeline reconciler, whatever the API server answers: when the
  pipeline is looked at again, what a failing step leaves undone, and who owns the objects created.
\<close>

section \<open>When a pipeline is looked at again\<close>

text \<open>The ends of a run after which nothing triggers another one.\<close>

definition forgotten :: "'w reconciler \<Rightarrow> string \<Rightarrow> string \<Rightarrow> 'w \<Rightarrow> bool" where
  "forgotten r name ns w =
     (case kc_Get (pipelines_of (rc_api r)) name ns w of
        ApiNotFound \<Rightarrow> True
      | ApiError e \<Rightarrow> False
      | ApiFound p \<Rightarrow>
          (case PipelineSpec_Validate (pl_Spec p) of
             Some e \<Rightarrow> True
           | None \<Rightarrow>
               (case NewServices (rc_services_config r w) (rc_yaml_services r) (pl_Namespace p) of
                  Inl e \<Rightarrow> False
                | Inr services \<Rightarrow> fst (update_status r p w) = None)))"

definition soon :: "reconcile_result \<Rightarrow> bool" where
  "soon res \<longleftrightarrow> rr_Requeue res \<and> 0 < rr_RequeueAfter res \<and> rr_RequeueAfter res \<le> 60 * 10 ^ 9"

lemma soon_merge: "soon a \<Longrightarrow> soon (MergeReconcileResult a b)"
  by (auto simp: soon_def MergeReconcileResult_def Let_def)

lemma soon_constants: "soon one_minute" "soon requeue_10s"
  by (simp_all add: soon_def one_minute_def requeue_10s_def)

lemma run_steps_soon:
  "soon res \<Longrightarrow> run_steps sts res req w = (Inr (res', req'), w') \<Longrightarrow> soon res'"
proof (induction sts arbitrary: res req w)
  case (Cons st sts)
  obtain out' w1 where st: "st w = (out', w1)" by fastforce
  with Cons.prems(2) have "run_steps sts (MergeReconcileResult res (so_Result out')) (add_request out' req) w1
      = (Inr (res', req'), w')"
    by (auto split: option.splits)
  with Cons.IH [OF soon_merge [OF Cons.prems(1)]] show ?case by blast
qed simp

lemma resources_soon:
  "reconcile_resources r p fs services w = ((res, None), w') \<Longrightarrow> soon res"
  by (auto simp: reconcile_resources_def split: prod.splits sum.splits option.splits
      intro: soon_merge dest!: run_steps_soon [OF soon_constants(1)])

lemma filesystem_soon:
  "reconcile_filesystem r p services w = ((res, None), w') \<Longrightarrow> soon res"
  by (auto simp: reconcile_filesystem_def soon_constants dest: resources_soon
      split: sum.splits list.splits option.splits prod.splits)

text \<open>liveness of the controller. A run that ends without an error, which would make the
  work queue retry it, asks to be called again within a minute, whatever the API server, the agent
  lists and the network answer; with exactly these exceptions, after which it asks for nothing:
  the pipeline does not exist, is invalid, or its status could not be determined or written.  The
  last exception is a failure the code answers with \<open>nil\<close>.\<close>
theorem reconcile_looks_again:
  "case Reconcile r name ns w of
     ((res, Some e), w') \<Rightarrow> \<not> forgotten r name ns w
   | ((res, None), w') \<Rightarrow> if forgotten r name ns w then res = no_result else soon res"
proof (cases "kc_Get (pipelines_of (rc_api r)) name ns w")
  case (ApiFound p)
  show ?thesis
  proof (cases "PipelineSpec_Validate (pl_Spec p)")
    case None
    show ?thesis
    proof (cases "NewServices (rc_services_config r w) (rc_yaml_services r) (pl_Namespace p)")
      case (Inr services)
      obtain q w1 where st: "update_status r p w = (q, w1)" by fastforce
      show ?thesis
      proof (cases q)
        case (Some p')
        obtain res e w2 where "reconcile_filesystem r p' services w1 = ((res, e), w2)"
          by (metis prod.exhaust)
        then show ?thesis
          using ApiFound None Inr st Some filesystem_soon [of r p' services w1 res w2]
          by (auto simp: Reconcile_def forgotten_def split: option.split)
      qed (use ApiFound None Inr st in \<open>simp add: Reconcile_def forgotten_def\<close>)
    qed (use ApiFound None in \<open>simp add: Reconcile_def forgotten_def\<close>)
  qed (use ApiFound in \<open>simp add: Reconcile_def forgotten_def\<close>)
qed (simp_all add: Reconcile_def forgotten_def)

section \<open>Objects created by a run\<close>

lemma ensure_objects_created:
  assumes "api_server api live" and "ensure_objects api xs w = (None, w')" and "ensurable xs"
    and "x \<in> set xs" and "get_object api (obj_key x) w = ApiNotFound"
  shows "\<exists>z. live w' (obj_key x) = Some z \<and> stored_as x z"
  using assms(2-5)
proof (induction xs arbitrary: w)
  case (Cons y ys)
  obtain w1 where w1: "ensure_object api y w = (None, w1)" "ensure_objects api ys w1 = (None, w')"
    using Cons.prems(1) by (auto split: prod.splits option.splits)
  have y: "fst (obj_key y) \<noteq> KPipeline" and ys: "ensurable ys" and notin: "obj_key y \<notin> obj_key ` set ys"
    using Cons.prems(2) by (auto simp: ensurable_def)
  show ?case
  proof (cases "x = y")
    case True
    then have "api_Create api x w = (None, w1)" using w1(1) Cons.prems(4) by (simp add: ensure_object_def)
    then obtain z where z: "live w1 (obj_key x) = Some z" "stored_as x z"
      using write_stored(1) [OF assms(1), of x w w1] by blast
    have "live w' (obj_key x) = live w1 (obj_key x)"
      by (rule conjunct2 [OF ensure_objects_frame [OF assms(1) w1(2)]])
         (use ys notin True in \<open>auto simp: ensurable_def list_all_iff\<close>)
    with z show ?thesis by auto
  next
    case False
    then have x: "x \<in> set ys" using Cons.prems(3) by simp
    have "obj_key x \<noteq> obj_key y" using notin x by (metis image_eqI)
    then have "get_object api (obj_key x) w1 = ApiNotFound"
      using ensure_object_frame [OF assms(1) w1(1) _ y] Cons.prems(4) by simp
    then show ?thesis by (rule Cons.IH [OF w1(2) ys x])
  qed
qed simp

text \<open>the role bindings of a pipeline are created without an owner, while the roles they refer
  to belong to the pipeline: the owner reference meant for a binding is set on the role a second
  time.  Deleting the pipeline therefore removes the roles and leaves the bindings behind.\<close>
theorem bindings_without_owner:
  assumes "cluster_ok r live" and "ready r name ns w u" and "ensurable (wanted r u)"
    and "Reconcile r name ns w = ((res, None), w')"
    and "get_object (rc_api r) (obj_key (O_RoleBinding (agents_role_binding r (ru_Updated u)))) w = ApiNotFound"
    and "get_object (rc_api r) (obj_key (O_Role (agents_role r (ru_Updated u)))) w = ApiNotFound"
  shows "\<exists>b ro. live w' (obj_key (O_RoleBinding (agents_role_binding r (ru_Updated u))))
        = Some (O_RoleBinding b) \<and> om_Owners (rb_Meta b) = []
    \<and> live w' (obj_key (O_Role (agents_role r (ru_Updated u)))) = Some (O_Role ro)
    \<and> rc_owner r (ru_Updated u) (ro_Meta (agents_role r (ru_Updated u))) = Inr (ro_Meta ro)"
proof -
  note c = cluster_okD [OF assms(1)]
  let ?p = "ru_Updated u"
  let ?b = "O_RoleBinding (agents_role_binding r ?p)"
  let ?ro = "own_object r ?p (O_Role (agents_role r ?p))"
  have u: "update_status r (ru_Pipeline u) w = (Some ?p, ru_World u)"
    using assms(2) by (simp add: ready_def)
  note up = update_status_updated [OF u assms(1)]
  have ok: "ensure_objects (rc_api r) (wanted r u) (ru_World u) = (None, w')"
    using ready_run_objects [OF assms(1,2)] assms(4) by (auto split: prod.splits option.splits)
  have ro: "obj_key ?ro = obj_key (O_Role (agents_role r ?p))"
    by (simp add: own_meta_fields [OF c(2)])
  have mem: "?b \<in> set (wanted r u)" "?ro \<in> set (wanted r u)"
    by (simp_all add: wanted_def wanted_objects_def access_objects_def)
  have none: "get_object (rc_api r) (obj_key ?b) (ru_World u) = ApiNotFound"
    "get_object (rc_api r) (obj_key ?ro) (ru_World u) = ApiNotFound"
    using up assms(5,6) unfolding ro by simp_all
  obtain z where z: "live w' (obj_key ?b) = Some z" "stored_as ?b z"
    using ensure_objects_created [OF c(1) ok assms(3) mem(1) none(1)] by blast
  obtain z' where z': "live w' (obj_key ?ro) = Some z'" "stored_as ?ro z'"
    using ensure_objects_created [OF c(1) ok assms(3) mem(2) none(2)] by blast
  obtain m where m: "rc_owner r ?p (ro_Meta (agents_role r ?p)) = Inr m"
    using c(2) unfolding owners_ok_def by blast
  from z have "z = ?b" by simp
  moreover from z' have "z' = O_Role ((agents_role r ?p)\<lparr>ro_Meta := m\<rparr>)"
    by (simp add: own_meta_def m)
  ultimately show ?thesis
    using z(1) z'(1) m unfolding ro by (simp add: agents_role_binding_def plain_meta_def)
qed

lemma bindings_without_owner_witness:
  "\<exists>b. example_live chain_after (KRoleBinding, ''demo-agents'', ''ns'') = Some (O_RoleBinding b)
     \<and> om_Owners (rb_Meta b) = []"
proof -
  let ?p = "ru_Updated chain_run"
  have k: "obj_key (O_RoleBinding (agents_role_binding example_reconciler ?p)) = (KRoleBinding, ''demo-agents'', ''ns'')"
    by code_simp
  have n: "get_object (rc_api example_reconciler)
      (obj_key (O_RoleBinding (agents_role_binding example_reconciler ?p))) chain_cluster = ApiNotFound"
    "get_object (rc_api example_reconciler)
      (obj_key (O_Role (agents_role example_reconciler ?p))) chain_cluster = ApiNotFound"
    by code_simp+
  from bindings_without_owner [OF example_cluster_ok chain_ready chain_ensurable chain_reconciled n]
  show ?thesis unfolding k by blast
qed

end
