(* ===== verification/Pipeline_Wiring.thy ===== *)
theory Pipeline_Wiring
  imports Pipeline_Runs Input_Loop Output_Publisher
begin

text \<open>
  How the agents of a pipeline find each other: the controller writes the addresses of links into
  annotations of the pods of the task agents (\<open>ensureTaskAgent\<close>), and the input loop and the output
  publisher of a task agent read them back when they start.
\<close>

section \<open>The annotations the controller writes\<close>

definition link_address :: "'w reconciler \<Rightarrow> Pipeline \<Rightarrow> LinkSpec \<Rightarrow> string" where
  "link_address r p l =
     CreateLinkAgentAnnotatedValueSourceAddress (rc_sha1 r) (pl_Name p) (lk_Name l) (pl_Namespace p)"

lemma link_address_publisher:
  "CreateLinkAgentAnnotatedValuePublisherAddress (rc_sha1 r) (pl_Name p) (lk_Name l) (pl_Namespace p) = link_address r p l"
  by (simp add: link_address_def CreateLinkAgentAnnotatedValueSourceAddress_def
      CreateLinkAgentAnnotatedValuePublisherAddress_def)

lemma JoinHostPort_nonempty [simp]: "JoinHostPort h p \<noteq> []"
  by (simp add: JoinHostPort_def)

lemma link_address_nonempty [simp]: "link_address r p l \<noteq> []"
  by (simp add: link_address_def CreateLinkAgentAnnotatedValueSourceAddress_def)

abbreviation "input_key r \<equiv> CreateInputLinkAddressAnnotationName (rc_sha1 r)"
abbreviation "output_key r \<equiv> CreateOutputLinkAddressesAnnotationName (rc_sha1 r)"

lemma annotation_keys_differ:
  "input_key r a \<noteq> output_key r b" "input_key r a \<noteq> AnnTaskExecutorContainer"
  "input_key r a \<noteq> AnnTaskExecutorLabels" "output_key r b \<noteq> AnnTaskExecutorContainer"
  "output_key r b \<noteq> AnnTaskExecutorLabels"
  by (simp_all add: CreateInputLinkAddressAnnotationName_def CreateOutputLinkAddressesAnnotationName_def
      AnnInputLinkAddressPrefix_def AnnOutputLinkAddressesPrefix_def AnnTaskExecutorContainer_def
      AnnTaskExecutorLabels_def)

lemma input_annotations_lookup:
  assumes "input_annotations r p t ins acc = Inr ann" and "distinct (map (input_key r \<circ> tis_Name) ins)"
  shows "(\<forall>tis \<in> set ins. \<exists>l. LinkByDestinationRef (pl_Spec p) (task_ref t (tis_Name tis)) = Some l
      \<and> map_of ann (input_key r (tis_Name tis)) = Some (link_address r p l))
    \<and> (\<forall>k. k \<notin> (input_key r \<circ> tis_Name) ` set ins \<longrightarrow> map_of ann k = map_of acc k)"
  using assms
proof (induction ins arbitrary: acc)
  case (Cons tis ins)
  obtain l where l: "LinkByDestinationRef (pl_Spec p) (task_ref t (tis_Name tis)) = Some l"
    using Cons.prems(1) by (auto split: option.splits)
  let ?acc = "AList.update (input_key r (tis_Name tis)) (link_address r p l) acc"
  have "input_annotations r p t ins ?acc = Inr ann"
    using Cons.prems(1) l by (simp add: link_address_def)
  note IH = Cons.IH [OF this]
  have fresh: "input_key r (tis_Name tis) \<notin> (input_key r \<circ> tis_Name) ` set ins"
    using Cons.prems(2) by auto
  from IH Cons.prems(2) have "map_of ann (input_key r (tis_Name tis)) = map_of ?acc (input_key r (tis_Name tis))"
    using fresh by (metis distinct.simps(2) list.simps(9))
  then have "map_of ann (input_key r (tis_Name tis)) = Some (link_address r p l)"
    by (simp add: update_conv')
  moreover have "map_of ann k = map_of acc k" if "k \<notin> (input_key r \<circ> tis_Name) ` set (tis # ins)" for k
    using IH Cons.prems(2) that by (auto simp: update_conv')
  ultimately show ?case using l IH Cons.prems(2) by auto
qed simp

lemma output_annotations_lookup:
  assumes "distinct (map (output_key r \<circ> tos_Name) outs)"
  shows "(\<forall>tos \<in> set outs. map_of (output_annotations r p t outs acc) (output_key r (tos_Name tos))
        = Some (output_address r p t tos))
    \<and> (\<forall>k. k \<notin> (output_key r \<circ> tos_Name) ` set outs \<longrightarrow>
        map_of (output_annotations r p t outs acc) k = map_of acc k)"
  using assms
proof (induction outs arbitrary: acc)
  case (Cons tos outs)
  let ?acc = "AList.update (output_key r (tos_Name tos)) (output_address r p t tos) acc"
  have fresh: "output_key r (tos_Name tos) \<notin> (output_key r \<circ> tos_Name) ` set outs"
    using Cons.prems by auto
  note IH = Cons.IH [of ?acc]
  have "map_of (output_annotations r p t outs ?acc) (output_key r (tos_Name tos)) = Some (output_address r p t tos)"
    using IH Cons.prems fresh by (simp add: update_conv')
  moreover have "map_of (output_annotations r p t outs ?acc) k = map_of acc k"
    if "k \<notin> (output_key r \<circ> tos_Name) ` set (tos # outs)" for k
    using IH Cons.prems that by (auto simp: update_conv')
  ultimately show ?case using IH Cons.prems by auto
qed simp

definition annotation_keys_distinct :: "'w reconciler \<Rightarrow> TaskSpec \<Rightarrow> bool" where
  "annotation_keys_distinct r t \<longleftrightarrow> distinct (map (input_key r \<circ> tis_Name) (ts_Inputs t))
     \<and> distinct (map (output_key r \<circ> tos_Name) (ts_Outputs t))"

lemma task_annotations_lookup:
  assumes "task_annotations r p t txt = Inr ann" and "annotation_keys_distinct r t"
  shows "(\<forall>tis \<in> set (ts_Inputs t). \<exists>l. LinkByDestinationRef (pl_Spec p) (task_ref t (tis_Name tis)) = Some l
      \<and> map_of ann (input_key r (tis_Name tis)) = Some (link_address r p l))
    \<and> (\<forall>tos \<in> set (ts_Outputs t). map_of ann (output_key r (tos_Name tos)) = Some (output_address r p t tos))"
proof -
  obtain a where a: "input_annotations r p t (ts_Inputs t) [] = Inr a"
    using assms(1) by (auto simp: task_annotations_def map_sum_def split: sum.splits)
  let ?b = "output_annotations r p t (ts_Outputs t) a"
  have ann: "map_of ann k = map_of ?b k" if "k \<noteq> AnnTaskExecutorContainer" "k \<noteq> AnnTaskExecutorLabels" for k
    using assms(1) a that by (auto simp: task_annotations_def Let_def update_conv')
  note ins = input_annotations_lookup [OF a] and outs = output_annotations_lookup [of r "ts_Outputs t" p t a]
  have d: "distinct (map (input_key r \<circ> tis_Name) (ts_Inputs t))"
    "distinct (map (output_key r \<circ> tos_Name) (ts_Outputs t))"
    using assms(2) by (simp_all add: annotation_keys_distinct_def)
  have "map_of ann (input_key r (tis_Name tis)) = map_of a (input_key r (tis_Name tis))"
    for tis :: TaskInputSpec
  proof -
    have "input_key r (tis_Name tis) \<notin> (output_key r \<circ> tos_Name) ` set (ts_Outputs t)"
      using annotation_keys_differ(1) by auto
    with outs d(2) have "map_of ?b (input_key r (tis_Name tis)) = map_of a (input_key r (tis_Name tis))" by blast
    with ann annotation_keys_differ(2,3) show ?thesis by metis
  qed
  moreover have "map_of ann (output_key r (tos_Name tos)) = Some (output_address r p t tos)"
    if "tos \<in> set (ts_Outputs t)" for tos
    using outs d(2) ann annotation_keys_differ(4,5) that by metis
  ultimately show ?thesis using ins d(1) by auto
qed

section \<open>What the agents read\<close>

lemma input_addresses_found:
  assumes "\<forall>n \<in> tis_Name ` set ins. map_of ann (CreateInputLinkAddressAnnotationName h n) = Some (f n) \<and> f n \<noteq> []"
  shows "\<exists>m. input_addresses h ins ann acc = Inr m
    \<and> (\<forall>n. map_of m n = (if n \<in> tis_Name ` set ins then Some (f n) else map_of acc n))"
  using assms
proof (induction ins arbitrary: acc)
  case (Cons tis ins)
  have "\<forall>n \<in> tis_Name ` set ins. map_of ann (CreateInputLinkAddressAnnotationName h n) = Some (f n) \<and> f n \<noteq> []"
    using Cons.prems by simp
  from Cons.IH [OF this] obtain m where "input_addresses h ins ann (AList.update (tis_Name tis) (f (tis_Name tis)) acc) = Inr m"
    "\<forall>n. map_of m n = (if n \<in> tis_Name ` set ins then Some (f n)
        else map_of (AList.update (tis_Name tis) (f (tis_Name tis)) acc) n)"
    by blast
  with Cons.prems show ?case by (auto simp: Let_def update_conv')
qed simp

lemma output_addresses_found:
  assumes "\<forall>n \<in> tos_Name ` set outs. map_of ann (CreateOutputLinkAddressesAnnotationName h n) = Some (g n) \<and> g n \<noteq> []"
  shows "\<exists>m. addresses_of_outputs h outs ann acc = Inr m"
  using assms by (induction outs arbitrary: acc) (auto simp: Let_def)

section \<open>Properties\<close>

lemma metadata_annotation:
  assumes "meta_agrees m found" and "map_of (om_Annotations m) k = Some v" and "v \<noteq> []"
  shows "map_of (om_Annotations found) k = Some v"
  using assms map_of_SomeD [OF assms(2)]
  by (auto simp: meta_agrees_def ObjectMetaEqual_def LabelsEqual_Nil lookup_string_def split: option.splits)

lemma settled_stateful_set:
  assumes "settled_in live w (O_StatefulSet d)"
  shows "\<exists>s. live w (obj_key (O_StatefulSet d)) = Some (O_StatefulSet s)
    \<and> meta_agrees (pt_Meta (ws_Template (wl_Spec d))) (pt_Meta (ws_Template (wl_Spec s)))"
proof -
  obtain z where z: "live w (obj_key (O_StatefulSet d)) = Some z" "up_to_date (O_StatefulSet d) z"
    using assms by (auto simp: settled_in_def)
  then obtain s where "z = O_StatefulSet s" by (cases z) auto
  with z show ?thesis
    by (simp add: StatefulSetEqual_def StatefulSetSpecEqual_def PodTemplateSpecEqual_def ObjectMetaEqual_path)
qed

lemma settled_service:
  assumes "settled_in live w (O_Service d)"
  shows "\<exists>s. live w (obj_key (O_Service d)) = Some (O_Service s) \<and> ServiceEqual d s = []"
proof -
  obtain z where z: "live w (obj_key (O_Service d)) = Some z" "up_to_date (O_Service d) z"
    using assms by (auto simp: settled_in_def)
  then obtain s where "z = O_Service s" by (cases z) auto
  with z show ?thesis by simp
qed

text \<open>The service of a link agent that a cluster has: the one its address names, on the API port.\<close>

definition link_served :: "'w reconciler \<Rightarrow> 'w live \<Rightarrow> 'w \<Rightarrow> Pipeline \<Rightarrow> LinkSpec \<Rightarrow> bool" where
  "link_served r live w p l \<longleftrightarrow>
     (\<exists>s sp. live w (obj_key (O_Service (link_agent_service r p l))) = Some (O_Service s)
        \<and> link_address r p l = JoinHostPort (svc_dns (om_Name (sv_Meta s)) (om_Namespace (sv_Meta s))) (itoa AgentAPIPort)
        \<and> sp \<in> set (ss_Ports (sv_Spec s)) \<and> sp_Port sp = int AgentAPIPort)"

lemma link_agent_served:
  assumes "cluster_ok r live"
    and settled: "settled_in live w (own_object r p (O_Service (link_agent_service r p l)))"
  shows "link_served r live w p l"
proof -
  let ?d = "(link_agent_service r p l)\<lparr>sv_Meta := own_meta r p (sv_Meta (link_agent_service r p l))\<rparr>"
  let ?n = "CreateLinkAgentName (rc_sha1 r) (pl_Name p) (lk_Name l)"
  note own = own_meta_fields [OF cluster_okD(2) [OF assms(1)]]
  obtain s where s: "live w (obj_key (O_Service ?d)) = Some (O_Service s)" "ServiceEqual ?d s = []"
    using settled_service [of live w ?d] settled by auto
  have key: "obj_key (O_Service ?d) = obj_key (O_Service (link_agent_service r p l))" by (simp add: own)
  have m: "om_Name (sv_Meta s) = ?n" "om_Namespace (sv_Meta s) = pl_Namespace p"
    using s(2) by (simp_all add: ServiceEqual_def ObjectMetaEqual_def StringEqual_Nil own
        link_agent_service_def cluster_service_def plain_meta_def)
  let ?port = "tcp_port ''grpc-api'' (int AgentAPIPort)"
  have diff: "ServicePortsEqual ''spec.ports'' [?port] (ss_Ports (sv_Spec s)) = []"
    using s(2) by (simp add: ServiceEqual_def ServiceSpecEqual_def link_agent_service_def cluster_service_def)
  obtain sp where sp: "find (\<lambda>ac. sp_Name ?port = sp_Name ac) (ss_Ports (sv_Spec s)) = Some sp"
    "ServicePortEqual (indexed ''spec.ports'' 0) ?port sp = []"
    using diff by (cases "find (\<lambda>ac. sp_Name ?port = sp_Name ac) (ss_Ports (sv_Spec s))")
      (simp_all add: ServicePortsEqual_def)
  then have "sp \<in> set (ss_Ports (sv_Spec s))" "sp_Port sp = int AgentAPIPort"
    using find_SomeD [OF sp(1)]
    by (auto simp: ServicePortEqual_def Int32Equal_def tcp_port_def to_int32_def AgentAPIPort_def split: if_splits)
  moreover have "link_address r p l = JoinHostPort (svc_dns (om_Name (sv_Meta s)) (om_Namespace (sv_Meta s))) (itoa AgentAPIPort)"
    by (simp add: m link_address_def CreateLinkAgentAnnotatedValueSourceAddress_def CreateLinkAgentDNSName_def)
  ultimately show ?thesis using s(1) unfolding key link_served_def by blast
qed

text \<open>The addresses a publisher has for an output: its links, or the pipeline agent for an
  output that no link starts from.\<close>

definition wired_outputs :: "'w reconciler \<Rightarrow> Pipeline \<Rightarrow> TaskSpec \<Rightarrow> TaskOutputSpec \<Rightarrow> string list" where
  "wired_outputs r p t tos =
     (let links = LinksBySourceRef (pl_Spec p) (task_ref t (tos_Name tos)) in
      if links = [] then
        [CreatePipelineAgentAnnotatedValuePublisherAddress (rc_sha1 r) (pl_Name p) (pl_Namespace p)]
      else map (link_address r p) links)"

text \<open>Addresses are joined with commas; none contains one when the names of the pipeline have none.\<close>

definition comma_free :: "'w reconciler \<Rightarrow> Pipeline \<Rightarrow> bool" where
  "comma_free r p \<longleftrightarrow>
     CHR '','' \<notin> set (CreatePipelineAgentAnnotatedValuePublisherAddress (rc_sha1 r) (pl_Name p) (pl_Namespace p))
     \<and> list_all (\<lambda>l. CHR '','' \<notin> set (link_address r p l)) (ps_Links (pl_Spec p))"

lemma split_output_address:
  assumes "comma_free r p"
  shows "output_address r p t tos \<noteq> [] \<and> split_on (CHR '','') (output_address r p t tos) = wired_outputs r p t tos"
proof -
  let ?links = "LinksBySourceRef (pl_Spec p) (task_ref t (tos_Name tos))"
  show ?thesis
  proof (cases "?links = []")
    case True
    then show ?thesis using assms
      by (simp add: output_address_def wired_outputs_def comma_free_def split_on_no_sep)
         (simp add: CreatePipelineAgentAnnotatedValuePublisherAddress_def)
  next
    case False
    then have "split_on (CHR '','') (join_with '','' (map (link_address r p) ?links)) = map (link_address r p) ?links"
      using assms by (intro split_join) (auto simp: comma_free_def LinksBySourceRef_def list_all_iff)
    moreover have "join_with '','' (map (link_address r p) ?links) \<noteq> []"
      using False by (cases ?links rule: list.exhaust; cases "tl ?links") auto
    ultimately show ?thesis using False
      by (simp add: output_address_def wired_outputs_def link_address_publisher)
  qed
qed

text \<open>C11: the agents of a pipeline are wired as its specification says. After a successful run the
  pods of every task agent carry annotations from which its input loop starts with, for each
  input, the address of the link whose destination the input is, and its output publisher with,
  for each output, the addresses of exactly the links whose source the output is (or the pipeline
  agent's, when there is none); and for every link there is a service with that address and port.\<close>
theorem agents_wired:
  assumes "cluster_ok r live" and "ready r name ns w u" and "cache_synced (rc_api r) live w"
    and "ensurable (wanted r u)" and "metadata_untouched r w u" and "Reconcile r name ns w = ((res, None), w')"
    and "p = ru_Updated u" and "t \<in> set (ps_Tasks (pl_Spec p))"
    and "annotation_keys_distinct r t" and "comma_free r p"
  shows "(\<forall>l \<in> set (ps_Links (pl_Spec p)). link_served r live w' p l)
    \<and> (\<exists>agent ann addrs il outs.
        live w' (KStatefulSet, CreateTaskAgentName (rc_sha1 r) (pl_Name p) (ts_Name t), pl_Namespace p)
          = Some (O_StatefulSet agent)
        \<and> ann = om_Annotations (pt_Meta (ws_Template (wl_Spec agent)))
        \<and> newInputLoop (rc_sha1 r) t ann stats = Inr (addrs, il)
        \<and> (\<forall>tis \<in> set (ts_Inputs t). \<exists>l. LinkByDestinationRef (pl_Spec p) (task_ref t (tis_Name tis)) = Some l
             \<and> map_of addrs (tis_Name tis) = Some (link_address r p l))
        \<and> newOutputPublisher (rc_sha1 r) t ann = Inr outs
        \<and> (\<forall>tos \<in> set (ts_Outputs t). map_of outs (tos_Name tos) = Some (wired_outputs r p t tos)))"
proof -
  note c = cluster_okD [OF assms(1)]
  note own = own_meta_fields [OF c(2)]
  let ?A = "ru_Agents u"
  have u: "update_status r (ru_Pipeline u) w = (Some p, ru_World u)" "inputs_connected (pl_Spec (ru_Pipeline u))"
    using assms(2,7) by (simp_all add: ready_def)
  have conn: "inputs_connected (pl_Spec p)" using update_status_updated [OF u(1) assms(1)] u(2) by simp
  have settled: "settled_in live w' x" if "x \<in> set (wanted_objects r p (ru_Filesystem u) ?A)" for x
    using ready_run_settled [OF assms(1-6)] that assms(7) by (auto simp: wanted_def list_all_iff)
  have links: "link_served r live w' p l" if "l \<in> set (ps_Links (pl_Spec p))" for l
    by (rule link_agent_served [OF assms(1)], rule settled)
       (use that in \<open>auto simp: wanted_objects_def link_agent_objects_def agent_objects_def\<close>)
  let ?d = "task_agent_stateful_set r p t (ru_Filesystem u) (wanted_annotations r p ?A t) (aa_task ?A)"
  have "settled_in live w' (own_object r p (O_StatefulSet ?d))"
    by (rule settled) (use assms(8) in \<open>auto simp: wanted_objects_def task_agent_objects_def agent_objects_def\<close>)
  then obtain agent where agent: "live w' (obj_key (own_object r p (O_StatefulSet ?d))) = Some (O_StatefulSet agent)"
    "meta_agrees (pt_Meta (ws_Template (wl_Spec ?d))) (pt_Meta (ws_Template (wl_Spec agent)))"
    using settled_stateful_set by fastforce
  let ?ann = "om_Annotations (pt_Meta (ws_Template (wl_Spec agent)))"
  have "om_Annotations (pt_Meta (ws_Template (wl_Spec ?d))) = wanted_annotations r p ?A t"
    by (simp add: task_agent_stateful_set_def agent_stateful_set_def c(4) contour_network_def contour_SetPodAnnotations_def)
  then have read: "map_of (wanted_annotations r p ?A t) key = Some v \<Longrightarrow> v \<noteq> [] \<Longrightarrow> map_of ?ann key = Some v" for key v
    using metadata_annotation [OF agent(2)] by simp
  note look = task_annotations_lookup [OF wanted_annotations_ok [OF conn assms(8), of r ?A] assms(9)]
  let ?f = "\<lambda>n. link_address r p (the (LinkByDestinationRef (pl_Spec p) (task_ref t n)))"
  have ins: "\<exists>l. LinkByDestinationRef (pl_Spec p) (task_ref t n) = Some l \<and> map_of ?ann (input_key r n) = Some (?f n)"
    if "n \<in> tis_Name ` set (ts_Inputs t)" for n
    using look that read by fastforce
  then obtain addrs where addrs: "input_addresses (rc_sha1 r) (ts_Inputs t) ?ann [] = Inr addrs"
    "\<forall>n. map_of addrs n = (if n \<in> tis_Name ` set (ts_Inputs t) then Some (?f n) else map_of [] n)"
    using input_addresses_found [of "ts_Inputs t" ?ann "rc_sha1 r" ?f "[]"] by auto
  let ?il = "\<lparr>il_snapshot = [], il_executionCount = 0, il_statistics = stats\<rparr>"
  have loop: "newInputLoop (rc_sha1 r) t ?ann stats = Inr (addrs, ?il)"
    by (simp add: newInputLoop_def addrs(1))
  have addresses: "\<exists>l. LinkByDestinationRef (pl_Spec p) (task_ref t (tis_Name tis)) = Some l
      \<and> map_of addrs (tis_Name tis) = Some (link_address r p l)" if "tis \<in> set (ts_Inputs t)" for tis
    using ins [of "tis_Name tis"] addrs(2) that by auto
  have out_ann: "map_of ?ann (output_key r (tos_Name tos)) = Some (output_address r p t tos)"
    if "tos \<in> set (ts_Outputs t)" for tos
    using look read that split_output_address [OF assms(10)] by blast
  have pub: "annotated_addresses (rc_sha1 r) ?ann (tos_Name tos) = Some (wired_outputs r p t tos)"
    if "tos \<in> set (ts_Outputs t)" for tos
    using out_ann [OF that] split_output_address [OF assms(10), of t tos] by (simp add: annotated_addresses_def)
  have "\<exists>outs. newOutputPublisher (rc_sha1 r) t ?ann = Inr outs"
    unfolding newOutputPublisher_def
    by (rule output_addresses_found [where g = "\<lambda>n. the (map_of ?ann (output_key r n))"])
       (use out_ann split_output_address [OF assms(10)] in auto)
  then obtain outs where outs: "newOutputPublisher (rc_sha1 r) t ?ann = Inr outs" by blast
  have outputs: "map_of outs (tos_Name tos) = Some (wired_outputs r p t tos)" if "tos \<in> set (ts_Outputs t)" for tos
    using addresses_of_outputs_ok [OF outs [unfolded newOutputPublisher_def]] pub that by auto
  have key: "obj_key (own_object r p (O_StatefulSet ?d))
      = (KStatefulSet, CreateTaskAgentName (rc_sha1 r) (pl_Name p) (ts_Name t), pl_Namespace p)"
    by (simp add: own task_agent_stateful_set_def agent_stateful_set_def plain_meta_def)
  show ?thesis
    using links agent(1) loop addresses outs outputs unfolding key by blast
qed

lemma agents_wired_witness:
  "link_served example_reconciler example_live chain_after chain_updated (ps_Links chain_spec ! 0)
   \<and> (\<exists>agent addrs. \<exists>il :: nat input_loop. example_live chain_after (KStatefulSet, ''demo-t-snk'', ''ns'') = Some (O_StatefulSet agent)
        \<and> newInputLoop example_digest (ps_Tasks chain_spec ! 1) (om_Annotations (pt_Meta (ws_Template (wl_Spec agent))))
            \<lparr>tst_Name = [], tst_URI = [], tst_SnapshotsWaiting = 0, tst_SnapshotsInProgress = 0,
             tst_SnapshotsSucceeded = 0, tst_SnapshotsFailed = 0, tst_Inputs = [], tst_Outputs = []\<rparr>
          = Inr (addrs, il)
        \<and> map_of addrs ''in'' = Some ''demo-l-l.ns.svc:6275'')"
proof -
  let ?t = "ps_Tasks chain_spec ! 1"
  have p: "chain_updated = ru_Updated chain_run"
    and h: "rc_sha1 example_reconciler = example_digest" and spec: "pl_Spec chain_updated = chain_spec"
    by (simp_all add: chain_run_def example_reconciler_def chain_updated_def chain_pipeline_def)
  have t: "?t \<in> set (ps_Tasks (pl_Spec chain_updated))" and l: "ps_Links chain_spec ! 0 \<in> set (ps_Links chain_spec)"
    by (simp_all add: spec chain_spec_def)
  have k: "annotation_keys_distinct example_reconciler ?t" "comma_free example_reconciler chain_updated"
    by code_simp+
  have n: "CreateTaskAgentName example_digest (pl_Name chain_updated) (ts_Name ?t) = ''demo-t-snk''"
    "pl_Namespace chain_updated = ''ns''" "map tis_Name (ts_Inputs ?t) = [''in'']"
    "LinkByDestinationRef chain_spec (task_ref ?t ''in'') = Some (ps_Links chain_spec ! 0)"
    "link_address example_reconciler chain_updated (ps_Links chain_spec ! 0) = ''demo-l-l.ns.svc:6275''"
    by code_simp+
  have i: "ts_Inputs ?t = [hd (ts_Inputs ?t)]" "tis_Name (hd (ts_Inputs ?t)) = ''in''"
    by (simp_all add: chain_spec_def)
  let ?stats = "\<lparr>tst_Name = [], tst_URI = [], tst_SnapshotsWaiting = 0, tst_SnapshotsInProgress = 0,
     tst_SnapshotsSucceeded = 0, tst_SnapshotsFailed = 0, tst_Inputs = [], tst_Outputs = []\<rparr>"
  have tis: "hd (ts_Inputs ?t) \<in> set (ts_Inputs ?t)" using i(1) by (metis list.set_intros(1))
  note wired = agents_wired [OF example_cluster_ok chain_ready chain_synced chain_ensurable chain_untouched chain_reconciled
    p t k, of ?stats, unfolded h n(1,2) spec]
  from conjunct1 [OF wired] l have served: "link_served example_reconciler example_live chain_after chain_updated (ps_Links chain_spec ! 0)"
    by blast
  from conjunct2 [OF wired] obtain agent addrs and il :: "nat input_loop" where
    "example_live chain_after (KStatefulSet, ''demo-t-snk'', ''ns'') = Some (O_StatefulSet agent)"
    "newInputLoop example_digest ?t (om_Annotations (pt_Meta (ws_Template (wl_Spec agent)))) ?stats = Inr (addrs, il)"
    and a: "\<forall>tis \<in> set (ts_Inputs ?t). \<exists>l. LinkByDestinationRef chain_spec (task_ref ?t (tis_Name tis)) = Some l
      \<and> map_of addrs (tis_Name tis) = Some (link_address example_reconciler chain_updated l)"
    by blast
  moreover have "map_of addrs ''in'' = Some ''demo-l-l.ns.svc:6275''"
    using bspec [OF a tis, unfolded i(2) n(4)] n(5) by auto
  ultimately show ?thesis using served by blast
qed

lemma input_annotations_unconnected:
  assumes "tis \<in> set ins" and "LinkByDestinationRef (pl_Spec p) (task_ref t (tis_Name tis)) = None"
  shows "\<exists>tis' \<in> set ins. LinkByDestinationRef (pl_Spec p) (task_ref t (tis_Name tis')) = None
    \<and> input_annotations r p t ins acc = Inl (RE_NoLink (task_ref t (tis_Name tis')))"
  using assms by (induction ins arbitrary: acc) (auto split: option.splits)

text \<open>a pipeline may be accepted and still never be deployed. Validation does not ask that an
  input has a link; for a task with an unconnected input the controller fails before it writes
  anything for the task, with an error that names such an input, on every run.\<close>
theorem unconnected_input_fails:
  assumes "agents_found r p services A w" and "t \<in> set (ps_Tasks (pl_Spec p))"
    and "tis \<in> set (ts_Inputs t)" and "LinkByDestinationRef (pl_Spec p) (task_ref t (tis_Name tis)) = None"
  shows "\<exists>tis' out'. tis' \<in> set (ts_Inputs t)
    \<and> LinkByDestinationRef (pl_Spec p) (task_ref t (tis_Name tis')) = None
    \<and> ensureTaskAgent r p fs t w = (out', w) \<and> so_Error out' = Some (RE_NoLink (task_ref t (tis_Name tis')))"
proof -
  obtain tis' where tis': "tis' \<in> set (ts_Inputs t)"
    "LinkByDestinationRef (pl_Spec p) (task_ref t (tis_Name tis')) = None"
    "input_annotations r p t (ts_Inputs t) [] = Inl (RE_NoLink (task_ref t (tis_Name tis')))"
    using input_annotations_unconnected [OF assms(3,4), of r "[]"] by blast
  then have ann: "task_annotations r p t enc = Inl (RE_NoLink (task_ref t (tis_Name tis')))" for enc
    by (simp add: task_annotations_def)
  obtain a where a: "selectTaskAgent (rc_task_agents r w) (pl_Namespace p) = Inr (Some a)"
    "ag_Container a = Some (aa_task A)"
    using assms(1) by (auto simp: agents_found_def)
  have step: "ensure_task_agent_with r p t fs enc routes o' w
      = (o'\<lparr>so_Error := Some (RE_NoLink (task_ref t (tis_Name tis')))\<rparr>, w)" for enc routes o'
    by (simp add: ensure_task_agent_with_def a ann fail_with_def)
  have "\<exists>o'. ensureTaskAgent r p fs t w = (o'\<lparr>so_Error := Some (RE_NoLink (task_ref t (tis_Name tis')))\<rparr>, w)"
  proof (cases "ts_Type t = []")
    case False
    then obtain x where "selectTaskExecutor tx_Type (rc_executors r w) (ts_Type t) (pl_Namespace p) = Inr (Some x)"
      "rc_marshal_container r (tx_Container x) = Inr (fst (aa_executor A t))"
      using assms(1,2) by (auto simp: agents_found_def)
    with False show ?thesis by (auto simp: ensureTaskAgent_def step)
  qed (auto simp: ensureTaskAgent_def step)
  then show ?thesis using tis'(1,2) by fastforce
qed

definition loose_pipeline :: Pipeline where
  "loose_pipeline = chain_pipeline\<lparr>pl_Spec := chain_spec\<lparr>ps_Links := []\<rparr>\<rparr>"

lemma unconnected_input_fails_witness:
  "PipelineSpec_Validate (pl_Spec loose_pipeline) = None
   \<and> (\<exists>out'. ensureTaskAgent example_reconciler loose_pipeline ''fs:1'' (ps_Tasks chain_spec ! 1) chain_cluster
        = (out', chain_cluster) \<and> so_Error out' = Some (RE_NoLink ''snk/in''))"
proof -
  let ?t = "ps_Tasks chain_spec ! 1"
  have v: "PipelineSpec_Validate (pl_Spec loose_pipeline) = None" by code_simp
  have f: "agents_found example_reconciler loose_pipeline (ru_Services chain_run) (ru_Agents chain_run) chain_cluster"
    using chain_ready
    by (simp add: ready_def agents_found_def loose_pipeline_def chain_run_def chain_updated_def chain_pipeline_def)
  have t: "?t \<in> set (ps_Tasks (pl_Spec loose_pipeline))"
    and i: "hd (ts_Inputs ?t) \<in> set (ts_Inputs ?t)" "set (ts_Inputs ?t) = {hd (ts_Inputs ?t)}"
    by (simp_all add: loose_pipeline_def chain_spec_def)
  have n: "LinkByDestinationRef (pl_Spec loose_pipeline) (task_ref ?t (tis_Name (hd (ts_Inputs ?t)))) = None"
    "task_ref ?t (tis_Name (hd (ts_Inputs ?t))) = ''snk/in''"
    by code_simp+
  from unconnected_input_fails [OF f t i(1) n(1), of "''fs:1''", unfolded i(2)] v show ?thesis
    by (auto simp only: singleton_iff n(2))
qed

end
