(* ===== verification/FS_Api.thy ===== *)
theory FS_Api
  imports Prelude
begin

text \<open>
  The messages of the file system service (\<open>pkg/fs/fs.proto\<close>) that its two implementations and the
  builders of the executor exchange: the answers to \<open>CreateVolumeForRead\<close> and
  \<open>CreateVolumeForWrite\<close>, which has no local path, and the request for a URI.
\<close>

record volume_response =
  vr_VolumeName :: string
  vr_VolumeClaimName :: string
  vr_VolumePath :: string
  vr_SubPath :: string
  vr_NodeName :: string
  vr_LocalPath :: string
  vr_IsDir :: bool
  vr_DeleteAfterUse :: bool

record file_uri_request =
  fu_Scheme :: string
  fu_VolumeName :: string
  fu_VolumeClaimName :: string
  fu_VolumePath :: string
  fu_SubPath :: string
  fu_NodeName :: string
  fu_LocalPath :: string
  fu_IsDir :: bool

definition empty_response :: volume_response where
  "empty_response = \<lparr>vr_VolumeName = [], vr_VolumeClaimName = [], vr_VolumePath = [], vr_SubPath = [],
     vr_NodeName = [], vr_LocalPath = [], vr_IsDir = False, vr_DeleteAfterUse = False\<rparr>"

end
