(* ===== verification/Go_URL.thy ===== *)
theory Go_URL
  imports Prelude "HOL-Library.Char_ord" "HOL-Library.List_Lexorder"
begin

text \<open>
  The part of Go's packages \<open>net/url\<close> and \<open>strconv\<close> that the file system services use: escaping,
  query values, writing and parsing URLs, and booleans as text.  An authority with user information
  or an IPv6 literal is rejected here; the URLs of the services have neither.
\<close>

section \<open>Escaping\<close>

datatype encoding = encodePath | encodeHost | encodeQueryComponent | encodeFragment

definition alphanum :: "char \<Rightarrow> bool" where
  "alphanum c \<longleftrightarrow>
     (let n = (of_char c :: nat) in (48 \<le> n \<and> n \<le> 57) \<or> (65 \<le> n \<and> n \<le> 90) \<or> (97 \<le> n \<and> n \<le> 122))"

definition shouldEscape :: "char \<Rightarrow> encoding \<Rightarrow> bool" where
  "shouldEscape c mode =
     (if alphanum c then False
      else if mode = encodeHost \<and> c \<in> set [CHR ''!'', CHR ''$'', CHR ''&'', CHR 0x27, CHR ''('', CHR '')'', CHR ''*'',
          CHR ''+'', CHR '','', CHR '';'', CHR ''='', CHR '':'', CHR ''['', CHR '']'', CHR ''<'', CHR ''>'', CHR 0x22]
      then False
      else if c \<in> set ''-_.~'' then False
      else if c \<in> set ''$&+,/:;=?@'' \<and> mode \<noteq> encodeHost then
        (case mode of encodePath \<Rightarrow> c = CHR ''?'' | encodeQueryComponent \<Rightarrow> True | _ \<Rightarrow> False)
      else if mode = encodeFragment \<and> c \<in> set ''!()*'' then False
      else True)"

definition hex_digit :: "nat \<Rightarrow> char" where
  "hex_digit d = (if d < 10 then char_of (48 + d) else char_of (55 + d))"

definition unhex :: "char \<Rightarrow> nat option" where
  "unhex c =
     (let n = (of_char c :: nat) in
      if 48 \<le> n \<and> n \<le> 57 then Some (n - 48)
      else if 97 \<le> n \<and> n \<le> 102 then Some (n - 87)
      else if 65 \<le> n \<and> n \<le> 70 then Some (n - 55)
      else None)"

definition escape_char :: "encoding \<Rightarrow> char \<Rightarrow> string" where
  "escape_char mode c =
     (if \<not> shouldEscape c mode then [c]
      else if c = CHR '' '' \<and> mode = encodeQueryComponent then ''+''
      else [CHR ''%'', hex_digit (of_char c div 16), hex_digit (of_char c mod 16)])"

definition escape :: "encoding \<Rightarrow> string \<Rightarrow> string" where
  "escape mode s = concat (map (escape_char mode) s)"

fun unescape :: "encoding \<Rightarrow> string \<Rightarrow> string option" where
  "unescape mode [] = Some []"
| "unescape mode (c # s) =
     (if c = CHR ''%'' then
        (case s of
           a # b # s' \<Rightarrow>
             (case (unhex a, unhex b) of
                (Some x, Some y) \<Rightarrow>
                  if mode = encodeHost \<and> x < 8 \<and> \<not> (a = CHR ''2'' \<and> b = CHR ''5'') then None
                  else map_option (\<lambda>t. char_of (16 * x + y) # t) (unescape mode s')
              | _ \<Rightarrow> None)
         | _ \<Rightarrow> None)
      else if c = CHR ''+'' \<and> mode = encodeQueryComponent then map_option (\<lambda>t. CHR '' '' # t) (unescape mode s)
      else if mode = encodeHost \<and> (of_char c :: nat) < 128 \<and> shouldEscape c mode then None
      else map_option (\<lambda>t. c # t) (unescape mode s))"

section \<open>Query values\<close>

text \<open>\<open>Values.Encode\<close> writes the keys in order; a key is set once here.\<close>

definition values_Encode :: "(string, string) gomap \<Rightarrow> string" where
  "values_Encode vs = join_with ''&''
     (map (\<lambda>(k, v). escape encodeQueryComponent k @ ''='' @ escape encodeQueryComponent v) (sort_key fst vs))"

text \<open>\<open>URL.Query\<close>: malformed entries are left out; \<open>Get\<close> gives the first value of a key.\<close>

definition parse_entry :: "string \<Rightarrow> (string \<times> string) option" where
  "parse_entry s =
     (case index_of (CHR ''='') s of
        None \<Rightarrow> map_option (\<lambda>k. (k, [])) (unescape encodeQueryComponent s)
      | Some i \<Rightarrow>
          (case (unescape encodeQueryComponent (take i s), unescape encodeQueryComponent (drop (Suc i) s)) of
             (Some k, Some v) \<Rightarrow> Some (k, v)
           | _ \<Rightarrow> None))"

definition query_entries :: "string \<Rightarrow> string list" where
  "query_entries s = filter (\<lambda>e. e \<noteq> []) (concat (map (split_on (CHR '';'')) (split_on (CHR ''&'') s)))"

definition parse_query :: "string \<Rightarrow> (string \<times> string) list" where
  "parse_query s = List.map_filter parse_entry (query_entries s)"

definition values_Get :: "(string \<times> string) list \<Rightarrow> string \<Rightarrow> string" where
  "values_Get vs k = (case map_of vs k of Some v \<Rightarrow> v | None \<Rightarrow> [])"

section \<open>URLs\<close>

record url =
  u_Scheme :: string
  u_Opaque :: string
  u_Host :: string
  u_Path :: string
  u_RawQuery :: string
  u_Fragment :: string

text \<open>\<open>URL.String\<close>, for a URL that was not parsed, so without a raw path.\<close>

definition url_String :: "url \<Rightarrow> string" where
  "url_String u =
     (let prefix = (if u_Scheme u \<noteq> [] then u_Scheme u @ '':'' else []);
          escaped = (if u_Path u = ''*'' then ''*'' else escape encodePath (u_Path u));
          authority = (if (u_Scheme u \<noteq> [] \<or> u_Host u \<noteq> []) \<and> (u_Host u \<noteq> [] \<or> u_Path u \<noteq> [])
                       then ''//'' @ escape encodeHost (u_Host u) else []);
          slash = (if escaped \<noteq> [] \<and> take 1 escaped \<noteq> ''/'' \<and> u_Host u \<noteq> [] then ''/'' else []);
          dot = (if prefix @ authority @ slash = [] \<and>
                    CHR '':'' \<in> set (hd (split_on (CHR ''/'') escaped)) then ''./'' else [])
      in (if u_Opaque u \<noteq> [] then prefix @ u_Opaque u
          else prefix @ authority @ slash @ dot @ escaped)
         @ (if u_RawQuery u \<noteq> [] then ''?'' @ u_RawQuery u else [])
         @ (if u_Fragment u \<noteq> [] then ''#'' @ escape encodeFragment (u_Fragment u) else []))"

text \<open>Splitting at the first occurrence of a character, which is cut off.\<close>

definition split_at_char :: "char \<Rightarrow> string \<Rightarrow> string \<times> string" where
  "split_at_char c s = (case index_of c s of None \<Rightarrow> (s, []) | Some i \<Rightarrow> (take i s, drop (Suc i) s))"

text \<open>The scheme and the rest, or an error for a URL that starts with a colon; \<open>i\<close> is the position.\<close>

fun getscheme_from :: "nat \<Rightarrow> string \<Rightarrow> string \<Rightarrow> (string \<times> string) option" where
  "getscheme_from i rawurl [] = Some ([], rawurl)"
| "getscheme_from i rawurl (c # s) =
     (let n = (of_char c :: nat) in
      if (65 \<le> n \<and> n \<le> 90) \<or> (97 \<le> n \<and> n \<le> 122) then getscheme_from (Suc i) rawurl s
      else if (48 \<le> n \<and> n \<le> 57) \<or> c \<in> set ''+-.'' then
        (if i = 0 then Some ([], rawurl) else getscheme_from (Suc i) rawurl s)
      else if c = CHR '':'' then (if i = 0 then None else Some (take i rawurl, drop (Suc i) rawurl))
      else Some ([], rawurl))"

definition getscheme :: "string \<Rightarrow> (string \<times> string) option" where
  "getscheme rawurl = getscheme_from 0 rawurl rawurl"

definition parse_host :: "string \<Rightarrow> string option" where
  "parse_host authority =
     (if CHR ''@'' \<in> set authority \<or> take 1 authority = ''['' then None else unescape encodeHost authority)"

definition url_Parse :: "string \<Rightarrow> url option" where
  "url_Parse rawurl =
     (let (u, frag) = split_at_char (CHR ''#'') rawurl in
      if u = ''*'' then
        map_option (\<lambda>f. \<lparr>u_Scheme = [], u_Opaque = [], u_Host = [], u_Path = ''*'', u_RawQuery = [], u_Fragment = f\<rparr>)
          (unescape encodeFragment frag)
      else
      (case getscheme u of
         None \<Rightarrow> None
       | Some (scheme, rest) \<Rightarrow>
           let (rest, query) = split_at_char (CHR ''?'') rest in
           (case unescape encodeFragment frag of
              None \<Rightarrow> None
            | Some f \<Rightarrow>
              if take 1 rest \<noteq> ''/'' \<and> scheme \<noteq> [] then
                Some \<lparr>u_Scheme = to_lower scheme, u_Opaque = rest, u_Host = [], u_Path = [], u_RawQuery = query, u_Fragment = f\<rparr>
              else if take 1 rest \<noteq> ''/'' \<and> CHR '':'' \<in> set (hd (split_on (CHR ''/'') rest)) then None
              else
                let authority = take 2 rest = ''//'' \<and> (scheme \<noteq> [] \<or> take 3 rest \<noteq> ''///'');
                    host = (if authority then takeWhile (\<lambda>c. c \<noteq> CHR ''/'') (drop 2 rest) else []);
                    path = (if authority then dropWhile (\<lambda>c. c \<noteq> CHR ''/'') (drop 2 rest) else rest)
                in (case (parse_host host, unescape encodePath path) of
                      (Some h, Some p) \<Rightarrow>
                        Some \<lparr>u_Scheme = to_lower scheme, u_Opaque = [], u_Host = h, u_Path = p, u_RawQuery = query, u_Fragment = f\<rparr>
                    | _ \<Rightarrow> None))))"

section \<open>Booleans\<close>

definition FormatBool :: "bool \<Rightarrow> string" where
  "FormatBool b = (if b then ''true'' else ''false'')"

text \<open>The services ignore the error of \<open>ParseBool\<close>, which comes with the value false.\<close>

definition ParseBool :: "string \<Rightarrow> bool" where
  "ParseBool s \<longleftrightarrow> s \<in> set [''1'', ''t'', ''T'', ''TRUE'', ''true'', ''True'']"

section \<open>Lemmas\<close>

lemma unhex_hex: "d < 16 \<Longrightarrow> unhex (hex_digit d) = Some d"
  by (auto simp: unhex_def hex_digit_def Let_def)

lemma char_of_parts: "char_of (16 * ((of_char c :: nat) div 16) + of_char c mod 16) = (c :: char)"
  by simp

lemma of_char_less: "(of_char (c :: char) :: nat) < 256"
  by (metis char_of_nat nat_of_char_less_256)

lemma escaped_marks [simp]:
  "shouldEscape (CHR ''%'') m" "shouldEscape (CHR ''#'') m" "shouldEscape (CHR 0x20) m"
  "shouldEscape (CHR ''?'') encodePath" "shouldEscape (CHR ''&'') encodeQueryComponent"
  "shouldEscape (CHR '';'') encodeQueryComponent" "shouldEscape (CHR ''='') encodeQueryComponent"
  "shouldEscape (CHR ''+'') encodeQueryComponent"
  by (cases m; simp add: shouldEscape_def alphanum_def)+

lemma hex_digit_alphanum: "d < 16 \<Longrightarrow> alphanum (hex_digit d)"
  by (auto simp: hex_digit_def alphanum_def Let_def)

lemma escape_no_mark:
  assumes "shouldEscape d m" and "d \<noteq> CHR ''%''" and "d \<noteq> CHR ''+''"
  shows "d \<notin> set (escape m s)"
proof -
  have "\<not> alphanum d" using assms(1) by (auto simp: shouldEscape_def split: if_splits)
  then have "d \<notin> set (escape_char m c)" for c
    using assms hex_digit_alphanum of_char_less [of c]
    by (auto simp: escape_char_def less_mult_imp_div_less)
  then show ?thesis by (simp add: escape_def)
qed

lemma unescape_kept:
  assumes "\<not> shouldEscape c m" and "\<not> (c = CHR ''+'' \<and> m = encodeQueryComponent)"
  shows "unescape m (c # s) = map_option (\<lambda>t. c # t) (unescape m s)"
proof -
  have "c \<noteq> CHR ''%''" using assms(1) by auto
  then show ?thesis using assms by (simp only: unescape.simps if_False simp_thms)
qed

declare unescape.simps(2) [simp del]

lemma unescape_escape_char:
  assumes "m \<noteq> encodeHost"
  shows "unescape m (escape_char m c @ s) = map_option (\<lambda>t. c # t) (unescape m s)"
proof (cases "shouldEscape c m")
  case False
  moreover have "\<not> (c = CHR ''+'' \<and> m = encodeQueryComponent)" using False by auto
  ultimately show ?thesis by (simp add: escape_char_def unescape_kept)
next
  case True
  show ?thesis
  proof (cases "c = CHR 0x20 \<and> m = encodeQueryComponent")
    case True
    then show ?thesis by (simp add: escape_char_def unescape.simps(2))
  next
    case False
    have "(of_char c :: nat) div 16 < 16" using of_char_less [of c] by (simp add: less_mult_imp_div_less)
    then show ?thesis using True False assms by (simp add: escape_char_def unhex_hex unescape.simps(2))
  qed
qed

lemma unescape_escape: "m \<noteq> encodeHost \<Longrightarrow> unescape m (escape m s) = Some s"
  by (induction s) (simp_all add: escape_def unescape_escape_char)

lemma unescape_raw:
  "\<forall>c \<in> set s. \<not> shouldEscape c m \<and> c \<noteq> CHR ''+'' \<Longrightarrow> unescape m s = Some s"
  by (induction s) (simp_all add: unescape_kept)

lemma escape_raw: "\<forall>c \<in> set s. \<not> shouldEscape c m \<Longrightarrow> escape m s = s"
  by (induction s) (simp_all add: escape_def escape_char_def)

lemma escape_alphanum: "\<forall>c \<in> set s. alphanum c \<Longrightarrow> escape m s = s"
  by (rule escape_raw) (simp add: shouldEscape_def)

text \<open>A query of two values, as the services write it.\<close>

lemma split_at_char_append: "c \<notin> set a \<Longrightarrow> split_at_char c (a @ c # b) = (a, b)"
  by (simp add: split_at_char_def index_of_append)

lemma split_at_char_none: "c \<notin> set a \<Longrightarrow> split_at_char c a = (a, [])"
  using index_of_None [of c a] by (simp add: split_at_char_def del: index_of_None)

lemma parse_entry_escaped:
  "parse_entry (escape encodeQueryComponent k @ ''='' @ escape encodeQueryComponent v) = Some (k, v)"
  using escape_no_mark [of "CHR ''=''" encodeQueryComponent k]
  by (simp add: parse_entry_def index_of_append unescape_escape)

lemma entry_parts:
  fixes k v
  defines "e \<equiv> escape encodeQueryComponent k @ ''='' @ escape encodeQueryComponent v"
  shows "CHR ''&'' \<notin> set e" and "CHR '';'' \<notin> set e" and "e \<noteq> []" and "CHR ''#'' \<notin> set e"
  using escape_no_mark [of "CHR ''&''" encodeQueryComponent] escape_no_mark [of "CHR '';''" encodeQueryComponent]
    escape_no_mark [of "CHR ''#''" encodeQueryComponent] by (auto simp: e_def)

lemma parse_query_one:
  "parse_query (escape encodeQueryComponent k @ ''='' @ escape encodeQueryComponent v) = [(k, v)]"
  using entry_parts [of k v]
  by (simp add: parse_query_def query_entries_def split_on_no_sep parse_entry_escaped map_filter_simps del: append_Cons append.simps(2))

lemma parse_query_two:
  "parse_query ((escape encodeQueryComponent k @ ''='' @ escape encodeQueryComponent v) @ ''&''
      @ escape encodeQueryComponent k' @ ''='' @ escape encodeQueryComponent v') = [(k, v), (k', v')]"
proof -
  let ?e = "escape encodeQueryComponent k @ ''='' @ escape encodeQueryComponent v"
  let ?e' = "escape encodeQueryComponent k' @ ''='' @ escape encodeQueryComponent v'"
  have "split_on (CHR ''&'') (?e @ CHR ''&'' # ?e') = [?e, ?e']"
    using split_on_append_sep [OF entry_parts(1) [of k v]] split_on_no_sep [OF entry_parts(1) [of k' v']] by metis
  then have "query_entries (?e @ CHR ''&'' # ?e') = [?e, ?e']"
    using split_on_no_sep [OF entry_parts(2) [of k v]] split_on_no_sep [OF entry_parts(2) [of k' v']]
      entry_parts(3) [of k v] entry_parts(3) [of k' v']
    unfolding query_entries_def by simp
  then show ?thesis
    using parse_entry_escaped [of k v] parse_entry_escaped [of k' v']
    unfolding parse_query_def by (simp add: map_filter_simps)
qed

section \<open>Writing and parsing a URL\<close>

definition scheme_char :: "char \<Rightarrow> bool" where
  "scheme_char c \<longleftrightarrow> alphanum c \<or> c \<in> set ''+-.''"

definition valid_scheme :: "string \<Rightarrow> bool" where
  "valid_scheme s \<longleftrightarrow>
     (case s of [] \<Rightarrow> False | c # cs \<Rightarrow> (let n = (of_char c :: nat) in 97 \<le> n \<and> n \<le> 122))
     \<and> list_all scheme_char s \<and> to_lower s = s"

definition plain_host :: "string \<Rightarrow> bool" where
  "plain_host h \<longleftrightarrow> h \<noteq> [] \<and> list_all (\<lambda>c. alphanum c \<or> c \<in> set ''-.:'') h"

lemma getscheme_found:
  "list_all scheme_char s \<Longrightarrow>
     pre \<noteq> [] \<or> (\<exists>c cs. s = c # cs \<and> 97 \<le> (of_char c :: nat) \<and> (of_char c :: nat) \<le> 122) \<Longrightarrow>
     getscheme_from (length pre) (pre @ s @ CHR '':'' # r) (s @ CHR '':'' # r) = Some (pre @ s, r)"
proof (induction s arbitrary: pre)
  case Nil
  then show ?case by (simp add: Let_def)
next
  case (Cons c s)
  have "getscheme_from (length (pre @ [c])) ((pre @ [c]) @ s @ CHR '':'' # r) (s @ CHR '':'' # r) = Some ((pre @ [c]) @ s, r)"
    using Cons.prems(1) by (intro Cons.IH) simp_all
  then have step: "getscheme_from (Suc (length pre)) (pre @ c # s @ CHR '':'' # r) (s @ CHR '':'' # r) = Some (pre @ c # s, r)"
    by simp
  define letter where "letter \<longleftrightarrow> 65 \<le> (of_char c :: nat) \<and> (of_char c :: nat) \<le> 90 \<or> 97 \<le> (of_char c :: nat) \<and> (of_char c :: nat) \<le> 122"
  define other where "other \<longleftrightarrow> 48 \<le> (of_char c :: nat) \<and> (of_char c :: nat) \<le> 57 \<or> c \<in> set ''+-.''"
  have c: "letter \<or> other" using Cons.prems(1) by (auto simp: scheme_char_def alphanum_def Let_def letter_def other_def)
  have pre: "letter \<or> length pre \<noteq> 0" using Cons.prems(2) by (auto simp: letter_def)
  have "getscheme_from (length pre) (pre @ c # s @ CHR '':'' # r) (c # s @ CHR '':'' # r) =
      (if letter then getscheme_from (Suc (length pre)) (pre @ c # s @ CHR '':'' # r) (s @ CHR '':'' # r)
       else if other then
         (if length pre = 0 then Some ([], pre @ c # s @ CHR '':'' # r)
          else getscheme_from (Suc (length pre)) (pre @ c # s @ CHR '':'' # r) (s @ CHR '':'' # r))
       else if c = CHR '':'' then (if length pre = 0 then None
          else Some (take (length pre) (pre @ c # s @ CHR '':'' # r), drop (Suc (length pre)) (pre @ c # s @ CHR '':'' # r)))
       else Some ([], pre @ c # s @ CHR '':'' # r))"
    by (simp only: getscheme_from.simps(2) Let_def letter_def other_def)
  also have "\<dots> = Some (pre @ c # s, r)" using c pre step by (cases letter) simp_all
  finally show ?case by simp
qed

lemma getscheme_valid: "valid_scheme s \<Longrightarrow> getscheme (s @ CHR '':'' # r) = Some (s, r)"
  using getscheme_found [of s "[]" r] by (auto simp: valid_scheme_def getscheme_def Let_def split: list.splits)

lemma no_mark_in_scheme: "valid_scheme s \<Longrightarrow> CHR ''#'' \<notin> set s \<and> s \<noteq> []"
proof -
  assume v: "valid_scheme s"
  have "\<not> scheme_char (CHR ''#'')" by (simp add: scheme_char_def alphanum_def)
  then show ?thesis using v by (auto simp: valid_scheme_def list_all_iff)
qed

lemma no_mark_in_host:
  assumes "plain_host h" and "d \<in> set ''#?/@[''"
  shows "d \<notin> set h"
proof -
  have "\<not> (alphanum d \<or> d \<in> set ''-.:'')" using assms(2) by (auto simp: alphanum_def)
  then show ?thesis using assms(1) by (auto simp: plain_host_def list_all_iff)
qed

lemma plain_host_kept: "plain_host h \<Longrightarrow> \<forall>c \<in> set h. \<not> shouldEscape c encodeHost \<and> c \<noteq> CHR ''+''"
proof -
  assume h: "plain_host h"
  have "\<not> shouldEscape c encodeHost" if "alphanum c \<or> c \<in> set ''-.:''" for c
    using that by (auto simp: shouldEscape_def)
  moreover have "\<not> (alphanum (CHR ''+'') \<or> CHR ''+'' \<in> set ''-.:'')" by (simp add: alphanum_def)
  ultimately show ?thesis using h unfolding plain_host_def list_all_iff by metis
qed

lemma parse_plain_host: "plain_host h \<Longrightarrow> parse_host h = Some h"
proof -
  assume h: "plain_host h"
  have "take 1 h \<noteq> ''[''" using no_mark_in_host [OF h, of "CHR ''[''"] h by (cases h) auto
  then show ?thesis
    using no_mark_in_host [OF h, of "CHR ''@''"] unescape_raw [OF plain_host_kept [OF h]]
    by (simp add: parse_host_def)
qed

theorem url_roundtrip:
  assumes "valid_scheme s" and "plain_host h" and "p \<noteq> []" and "take 1 p \<noteq> ''/''" and "CHR ''#'' \<notin> set q"
  shows "url_Parse (url_String \<lparr>u_Scheme = s, u_Opaque = [], u_Host = h, u_Path = p, u_RawQuery = q, u_Fragment = f\<rparr>)
    = Some \<lparr>u_Scheme = s, u_Opaque = [], u_Host = h, u_Path = CHR ''/'' # p, u_RawQuery = q, u_Fragment = f\<rparr>"
proof -
  define e where "e = (if p = ''*'' then ''*'' else escape encodePath p)"
  have kept: "\<not> shouldEscape (CHR ''/'') encodePath" by (simp add: shouldEscape_def alphanum_def)
  have e: "unescape encodePath e = Some p" "CHR ''#'' \<notin> set e" "CHR ''?'' \<notin> set e"
    using unescape_escape [of encodePath p] escape_no_mark [of "CHR ''#''" encodePath p] escape_no_mark [of "CHR ''?''" encodePath p]
    by (auto simp: e_def unescape.simps)
  have e1: "take 1 e \<noteq> ''/''" "e \<noteq> []"
  proof -
    obtain c cs where p: "p = c # cs" "c \<noteq> CHR ''/''" using assms(3,4) by (cases p) auto
    obtain d ds where "escape_char encodePath c = d # ds" "d \<noteq> CHR ''/''"
      using p by (cases "shouldEscape c encodePath") (simp_all add: escape_char_def)
    then show "take 1 e \<noteq> ''/''" "e \<noteq> []" using p by (simp_all add: e_def escape_def)
  qed
  let ?rest = "''//'' @ h @ CHR ''/'' # e"
  let ?tail = "if q \<noteq> [] then ?rest @ CHR ''?'' # q else ?rest"
  let ?body = "s @ CHR '':'' # ?tail"
  have str: "url_String \<lparr>u_Scheme = s, u_Opaque = [], u_Host = h, u_Path = p, u_RawQuery = q, u_Fragment = f\<rparr>
      = (if f \<noteq> [] then ?body @ CHR ''#'' # escape encodeFragment f else ?body)"
    using no_mark_in_scheme [OF assms(1)] assms(2) e1 escape_raw [of h encodeHost] plain_host_kept [OF assms(2)]
    unfolding url_String_def Let_def url.simps e_def [symmetric] by (simp add: plain_host_def)
  have nohash: "CHR ''#'' \<notin> set ?body"
    using no_mark_in_scheme [OF assms(1)] no_mark_in_host [OF assms(2), of "CHR ''#''"] e assms(5) by auto
  obtain frag where frag: "split_at_char (CHR ''#'') (url_String \<lparr>u_Scheme = s, u_Opaque = [], u_Host = h, u_Path = p,
      u_RawQuery = q, u_Fragment = f\<rparr>) = (?body, frag)" and uf: "unescape encodeFragment frag = Some f"
    unfolding str using split_at_char_append [OF nohash] split_at_char_none [OF nohash] unescape_escape [of encodeFragment f]
    by (cases "f = []") auto
  have noq: "CHR ''?'' \<notin> set ?rest" using no_mark_in_host [OF assms(2), of "CHR ''?''"] e by auto
  have query: "split_at_char (CHR ''?'') ?tail = (?rest, q)"
    using split_at_char_append [OF noq] split_at_char_none [OF noq] by simp
  have star: "?body \<noteq> ''*''" using no_mark_in_scheme [OF assms(1)] by (cases s) auto
  have noslash: "CHR ''/'' \<notin> set h" using no_mark_in_host [OF assms(2), of "CHR ''/''"] by simp
  have host: "takeWhile (\<lambda>c. c \<noteq> CHR ''/'') (h @ CHR ''/'' # e) = h"
    and path: "dropWhile (\<lambda>c. c \<noteq> CHR ''/'') (h @ CHR ''/'' # e) = CHR ''/'' # e"
    using noslash by (auto simp: takeWhile_append dropWhile_append)
  have up: "unescape encodePath (CHR ''/'' # e) = Some (CHR ''/'' # p)"
    using unescape_kept [OF kept] e(1) by simp
  have low: "to_lower s = s" and sne: "s \<noteq> []" using assms(1) by (auto simp: valid_scheme_def)
  show ?thesis
    unfolding url_Parse_def frag
    using getscheme_valid [OF assms(1), of ?tail] star query uf host path up low sne parse_plain_host [OF assms(2)]
    by (simp only: Let_def prod.case if_False if_True option.case simp_thms) simp
qed

end
