(* ===== verification/Go_Path.thy ===== *)
theory Go_Path
  imports Prelude
begin

text \<open>
  The part of Go's packages \<open>path\<close> and \<open>path/filepath\<close> (for a Unix file system, where both agree)
  that the sources use: \<open>Clean\<close>, \<open>Join\<close>, \<open>Base\<close> and \<open>Dir\<close>.
\<close>

section \<open>Cleaning a path\<close>

text \<open>
  The elements that remain: empty elements and dots go, and \<open>..\<close> takes the element before it away,
  or goes at the root, or stays at the beginning of a relative path.  \<open>acc\<close> is reversed.
\<close>

fun clean_parts :: "bool \<Rightarrow> string list \<Rightarrow> string list \<Rightarrow> string list" where
  "clean_parts rooted acc [] = rev acc"
| "clean_parts rooted acc (p # ps) =
     (if p = [] \<or> p = ''.'' then clean_parts rooted acc ps
      else if p = ''..'' then
        (case acc of
           [] \<Rightarrow> clean_parts rooted (if rooted then [] else [p]) ps
         | q # qs \<Rightarrow> clean_parts rooted (if q = ''..'' then p # acc else qs) ps)
      else clean_parts rooted (p # acc) ps)"

definition is_rooted :: "string \<Rightarrow> bool" where
  "is_rooted s \<longleftrightarrow> take 1 s = ''/''"

definition path_Clean :: "string \<Rightarrow> string" where
  "path_Clean s =
     (let parts = clean_parts (is_rooted s) [] (split_on (CHR ''/'') s)
      in if is_rooted s then CHR ''/'' # join_with ''/'' parts
         else if parts = [] then ''.'' else join_with ''/'' parts)"

definition path_Join :: "string list \<Rightarrow> string" where
  "path_Join elem =
     (case dropWhile (\<lambda>e. e = []) elem of [] \<Rightarrow> [] | es \<Rightarrow> path_Clean (join_with ''/'' es))"

section \<open>Last element and directory\<close>

definition strip_slashes :: "string \<Rightarrow> string" where
  "strip_slashes s = rev (dropWhile (\<lambda>c. c = CHR ''/'') (rev s))"

definition path_Base :: "string \<Rightarrow> string" where
  "path_Base s =
     (if s = [] then ''.''
      else let s = strip_slashes s in if s = [] then ''/'' else last (split_on (CHR ''/'') s))"

definition path_Dir :: "string \<Rightarrow> string" where
  "path_Dir s = path_Clean (rev (dropWhile (\<lambda>c. c \<noteq> CHR ''/'') (rev s)))"

section \<open>Lemmas\<close>

text \<open>An element that is kept as it is.\<close>

definition plain_part :: "string \<Rightarrow> bool" where
  "plain_part p \<longleftrightarrow> p \<noteq> [] \<and> p \<noteq> ''.'' \<and> p \<noteq> ''..'' \<and> CHR ''/'' \<notin> set p"

lemma clean_parts_plain: "\<forall>p \<in> set ps. plain_part p \<Longrightarrow> clean_parts rooted acc ps = rev acc @ ps"
  by (induction ps arbitrary: acc) (auto simp: plain_part_def)

lemma clean_parts_empty_elements:
  "clean_parts rooted acc (filter (\<lambda>p. p \<noteq> []) ps) = clean_parts rooted acc ps"
  by (induction rooted acc ps rule: clean_parts.induct) (auto split: list.splits)

lemma join_with_cons: "ss \<noteq> [] \<Longrightarrow> join_with sep (s # ss) = s @ sep @ join_with sep ss"
  by (cases ss) auto

lemma Clean_rooted_plain:
  assumes "ps \<noteq> []" and "\<forall>p \<in> set ps. plain_part p"
  shows "path_Clean (CHR ''/'' # join_with ''/'' ps) = CHR ''/'' # join_with ''/'' ps"
proof -
  have "split_on (CHR ''/'') (join_with ''/'' ps) = ps"
    using split_join [of ps "CHR ''/''"] assms by (auto simp: plain_part_def)
  then show ?thesis using clean_parts_plain [OF assms(2)] by (simp add: path_Clean_def is_rooted_def)
qed

text \<open>Joining plain elements under an absolute directory.\<close>

lemma join_with_append:
  "ps \<noteq> [] \<Longrightarrow> qs \<noteq> [] \<Longrightarrow> join_with sep (ps @ qs) = join_with sep ps @ sep @ join_with sep qs"
proof (induction ps)
  case (Cons p ps)
  then show ?case by (cases ps) (simp_all add: join_with_cons)
qed simp

lemma Join_plain:
  assumes "ps \<noteq> []" and "\<forall>p \<in> set ps. plain_part p" and "\<forall>p \<in> set qs. plain_part p"
  shows "path_Join ((CHR ''/'' # join_with ''/'' ps) # qs) = CHR ''/'' # join_with ''/'' (ps @ qs)"
proof -
  have "join_with ''/'' ((CHR ''/'' # join_with ''/'' ps) # qs) = CHR ''/'' # join_with ''/'' (ps @ qs)"
    by (cases "qs = []") (simp_all add: join_with_cons join_with_append [OF assms(1)])
  moreover have "\<forall>p \<in> set (ps @ qs). plain_part p" using assms by auto
  ultimately show ?thesis using Clean_rooted_plain [of "ps @ qs"] assms(1) by (simp add: path_Join_def)
qed

text \<open>A cleaned absolute path has no element that leads up.\<close>

lemma clean_parts_rooted_plain:
  "list_all plain_part acc \<Longrightarrow> list_all (\<lambda>p. CHR ''/'' \<notin> set p) ps
    \<Longrightarrow> list_all plain_part (clean_parts True acc ps)"
proof (induction ps arbitrary: acc)
  case Nil
  then show ?case by (simp add: list_all_iff)
next
  case (Cons p ps)
  have plain: "plain_part p" if "p \<noteq> []" "p \<noteq> ''.''" "p \<noteq> ''..''"
    using that Cons.prems by (simp add: plain_part_def)
  have "q \<noteq> ''..''" if "acc = q # qs" for q qs using that Cons.prems by (simp add: plain_part_def)
  then show ?case
    using Cons.prems plain by (cases acc) (simp_all add: Cons.IH)
qed

lemma Clean_rooted:
  assumes "is_rooted s"
  obtains ps where "path_Clean s = CHR ''/'' # join_with ''/'' ps" and "\<forall>p \<in> set ps. plain_part p"
proof -
  have "list_all (\<lambda>p. CHR ''/'' \<notin> set p) (split_on (CHR ''/'') s)"
    using split_on_parts by (auto simp: list_all_iff)
  then have "list_all plain_part (clean_parts True [] (split_on (CHR ''/'') s))"
    by (rule clean_parts_rooted_plain [rotated]) simp
  then show ?thesis using assms that by (simp add: path_Clean_def list_all_iff)
qed

lemma join_plain_inj:
  assumes "\<forall>p \<in> set ps. plain_part p" and "\<forall>p \<in> set qs. plain_part p"
    and "join_with ''/'' ps = join_with ''/'' qs"
  shows "ps = qs"
proof (cases "ps = [] \<or> qs = []")
  case True
  have ne: "join_with ''/'' rs \<noteq> []" if "rs \<noteq> []" "\<forall>p \<in> set rs. plain_part p" for rs
    using that by (cases rs; cases "tl rs") (simp_all add: plain_part_def join_with_cons)
  from True show ?thesis using ne [of ps] ne [of qs] assms by (metis join_with.simps(1))
next
  case False
  have "split_on (CHR ''/'') (join_with ''/'' rs) = rs" if "rs \<noteq> []" "\<forall>p \<in> set rs. plain_part p" for rs
    using split_join [of rs "CHR ''/''"] that by (simp add: plain_part_def)
  from this [of ps] this [of qs] show ?thesis using False assms by metis
qed

lemma split_on_sep_two: "split_on c (d @ c # p) \<noteq> [q]"
  by (induction d arbitrary: q) (auto split: list.splits)

lemma Base_last:
  assumes "plain_part p"
  shows "path_Base (d @ CHR ''/'' # p) = p"
proof -
  have "p \<noteq> []" and "CHR ''/'' \<notin> set p" using assms by (auto simp: plain_part_def)
  moreover from this have "last p \<noteq> CHR ''/''" using last_in_set by metis
  ultimately have "strip_slashes (d @ CHR ''/'' # p) = d @ CHR ''/'' # p"
    by (cases p rule: rev_cases) (auto simp: strip_slashes_def)
  moreover have "last (split_on (CHR ''/'') (d @ CHR ''/'' # p)) = p"
    using \<open>CHR ''/'' \<notin> set p\<close>
    by (induction d) (auto simp: split_on_no_sep split_on_sep_two split: list.splits)
  ultimately show ?thesis by (simp add: path_Base_def)
qed

lemma join_with_first: "x \<noteq> [] \<Longrightarrow> join_with sep (x # xs) \<noteq> []"
  by (cases xs) auto

text \<open>Elements that lead up out of a directory.\<close>

lemma clean_parts_append_plain:
  "\<forall>p \<in> set ps. plain_part p \<Longrightarrow> clean_parts rooted acc (ps @ rest) = clean_parts rooted (rev ps @ acc) rest"
  by (induction ps arbitrary: acc) (auto simp: plain_part_def)

lemma clean_parts_up:
  "\<forall>p \<in> set acc. plain_part p \<Longrightarrow>
     clean_parts True acc (replicate (length acc) ''..'' @ rest) = clean_parts True [] rest"
  by (induction acc) (auto simp: plain_part_def)

lemma Join_up:
  assumes "\<forall>p \<in> set ps. plain_part p" and "ps \<noteq> []" and "\<forall>q \<in> set qs. plain_part q"
  shows "path_Join [CHR ''/'' # join_with ''/'' ps, join_with ''/'' (replicate (length ps) ''..'' @ qs)]
    = CHR ''/'' # join_with ''/'' qs"
proof -
  let ?up = "replicate (length ps) ''..'' @ qs"
  have up: "?up \<noteq> []" using assms(2) by simp
  have "split_on (CHR ''/'') (join_with ''/'' (ps @ ?up)) = ps @ ?up"
    using assms by (intro split_join) (auto simp: plain_part_def)
  moreover have "clean_parts True [] (ps @ ?up) = qs"
    using clean_parts_append_plain [OF assms(1), of True "[]" ?up] clean_parts_up [of "rev ps" qs]
      clean_parts_plain [OF assms(3), of True "[]"] assms(1) by simp
  moreover have "join_with ''/'' [CHR ''/'' # join_with ''/'' ps, join_with ''/'' ?up] = CHR ''/'' # join_with ''/'' (ps @ ?up)"
    using join_with_append [OF assms(2) up, of "''/''"] by simp
  ultimately show ?thesis by (simp add: path_Join_def path_Clean_def is_rooted_def)
qed

end
