(* ===== verification/Retry.thy ===== *)
theory Retry
  imports Prelude
begin

text \<open>
  Retrying an operation until it succeeds (\<open>pkg/util/retry/retry.go\<close>, on the exponential backoff of
  the vendored package \<open>cenkalti/backoff\<close>).  Times are nanoseconds.  Floating point arithmetic on
  intervals is exact in the range of the intervals used here, so intervals are integers.
\<close>

section \<open>Errors\<close>

text \<open>A wrapped error has a cause, or reports none; \<open>backoff.PermanentError\<close> stops the retries.\<close>

datatype go_error =
    PlainError string
  | CausedError string "go_error option"
  | PermanentError go_error
  | ContextError string

text \<open>The loop in the operation that \<open>Do\<close> hands to the backoff package.\<close>

fun root_cause :: "go_error \<Rightarrow> go_error" where
  "root_cause (PermanentError e) = PermanentError e"
| "root_cause (CausedError m (Some cause)) = root_cause cause"
| "root_cause (CausedError m None) = CausedError m None"
| "root_cause (PlainError m) = PlainError m"
| "root_cause (ContextError m) = ContextError m"

section \<open>Exponential backoff\<close>

record ExponentialBackOff =
  bo_InitialInterval :: int
  bo_MaxInterval :: int
  bo_MaxElapsedTime :: int
  bo_currentInterval :: int
  bo_startTime :: int

text \<open>
  The clock, the context of the caller and the random numbers; \<open>re_Sleep\<close> waits for the given time or
  for the end of the context, and returns whether the time has passed.  \<open>re_Random\<close> draws from the
  interval between its two arguments.
\<close>

record 'w retry_env =
  re_Now :: "'w \<Rightarrow> int"
  re_Deadline :: "int option"
  re_CtxErr :: "'w \<Rightarrow> go_error option"
  re_Sleep :: "int \<Rightarrow> 'w \<Rightarrow> bool \<times> 'w"
  re_Random :: "int \<Rightarrow> int \<Rightarrow> 'w \<Rightarrow> int \<times> 'w"

definition one_second :: int where "one_second = 1000000000"

definition NewExponentialBackOff :: "int \<Rightarrow> ExponentialBackOff" where
  "NewExponentialBackOff now =
     \<lparr>bo_InitialInterval = one_second div 2, bo_MaxInterval = 60 * one_second, bo_MaxElapsedTime = 900 * one_second,
      bo_currentInterval = one_second div 2, bo_startTime = now\<rparr>"

definition backoff_Reset :: "int \<Rightarrow> ExponentialBackOff \<Rightarrow> ExponentialBackOff" where
  "backoff_Reset now b = b\<lparr>bo_currentInterval := bo_InitialInterval b, bo_startTime := now\<rparr>"

definition incrementCurrentInterval :: "ExponentialBackOff \<Rightarrow> ExponentialBackOff" where
  "incrementCurrentInterval b =
     (if 3 * bo_currentInterval b \<ge> 2 * bo_MaxInterval b
      then b\<lparr>bo_currentInterval := bo_MaxInterval b\<rparr>
      else b\<lparr>bo_currentInterval := bo_currentInterval b * 3 div 2\<rparr>)"

text \<open>The next interval, or \<open>None\<close> for \<open>Stop\<close>.\<close>

definition NextBackOff ::
  "'w retry_env \<Rightarrow> ExponentialBackOff \<Rightarrow> 'w \<Rightarrow> (int option \<times> ExponentialBackOff) \<times> 'w" where
  "NextBackOff env b w =
     (if re_CtxErr env w \<noteq> None then ((None, b), w)
      else if bo_MaxElapsedTime b \<noteq> 0 \<and> re_Now env w - bo_startTime b > bo_MaxElapsedTime b then ((None, b), w)
      else case re_Random env (bo_currentInterval b div 2)
                  (bo_currentInterval b + (bo_currentInterval b + 1) div 2) w of
             (d, w) \<Rightarrow>
               if (case re_Deadline env of Some deadline \<Rightarrow> deadline - re_Now env w < d | None \<Rightarrow> False)
               then ((None, incrementCurrentInterval b), w)
               else ((Some d, incrementCurrentInterval b), w))"

text \<open>
  \<open>util.Backoff\<close>, which other loops use, multiplies a duration by a floating point number, here the
  fraction \<open>num / den\<close>, and truncates; the delays are whole numbers far below \<open>2 ^ 53\<close>, for which
  that is exact.
\<close>

definition Backoff :: "int \<Rightarrow> int \<Rightarrow> int \<Rightarrow> int \<Rightarrow> int" where
  "Backoff delay num den maxDuration =
     (let delay = delay * num div den in if delay < maxDuration then delay else maxDuration)"

section \<open>Options\<close>

datatype retry_option = MinAttempts int | Timeout int

text \<open>Go's division truncates, and panics when the divisor is zero.\<close>

definition go_div :: "int \<Rightarrow> int \<Rightarrow> int option" where
  "go_div a b = (if b = 0 then None else Some (sgn a * sgn b * (\<bar>a\<bar> div \<bar>b\<bar>)))"

fun prepare :: "retry_option \<Rightarrow> ExponentialBackOff \<Rightarrow> ExponentialBackOff option" where
  "prepare (MinAttempts n) b =
     (case go_div (bo_MaxElapsedTime b) n of
        None \<Rightarrow> None
      | Some m \<Rightarrow> Some (b\<lparr>bo_MaxInterval := m, bo_InitialInterval := sgn m * (\<bar>m\<bar> div 10)\<rparr>))"
| "prepare (Timeout t) b =
     (let m = sgn t * (\<bar>t\<bar> div 3)
      in Some (b\<lparr>bo_MaxElapsedTime := t, bo_MaxInterval := m, bo_InitialInterval := sgn m * (\<bar>m\<bar> div 10)\<rparr>))"

fun prepare_all :: "retry_option list \<Rightarrow> ExponentialBackOff \<Rightarrow> ExponentialBackOff option" where
  "prepare_all [] b = Some b"
| "prepare_all (opt # opts) b = (case prepare opt b of None \<Rightarrow> None | Some b \<Rightarrow> prepare_all opts b)"

definition retry_config :: "'w retry_env \<Rightarrow> retry_option list \<Rightarrow> 'w \<Rightarrow> ExponentialBackOff option" where
  "retry_config env opts w =
     (let b = NewExponentialBackOff (re_Now env w);
          b = (case re_Deadline env of
                 Some deadline \<Rightarrow> b\<lparr>bo_MaxElapsedTime := deadline - re_Now env w\<rparr>
               | None \<Rightarrow> b);
          m = sgn (bo_MaxElapsedTime b) * (\<bar>bo_MaxElapsedTime b\<bar> div 3)
      in prepare_all opts (b\<lparr>bo_MaxInterval := m, bo_InitialInterval := sgn m * (\<bar>m\<bar> div 10)\<rparr>))"

section \<open>Attempts\<close>

text \<open>
  One attempt: the operation runs under a context of its own that ends after \<open>MaxInterval\<close>.  An
  operation that succeeds when its context has ended counts as failed.
\<close>

definition lctx_Err :: "'w retry_env \<Rightarrow> int \<Rightarrow> 'w \<Rightarrow> 'w \<Rightarrow> go_error option" where
  "lctx_Err env timeout w w' =
     (if re_CtxErr env w' \<noteq> None then re_CtxErr env w'
      else if re_Now env w' - re_Now env w \<ge> timeout then Some (ContextError ''context deadline exceeded'')
      else None)"

definition retry_attempt ::
  "'w retry_env \<Rightarrow> (int \<Rightarrow> 'w \<Rightarrow> go_error error_only \<times> 'w) \<Rightarrow> ExponentialBackOff \<Rightarrow> 'w
    \<Rightarrow> go_error error_only \<times> 'w" where
  "retry_attempt env op b w =
     (case op (bo_MaxInterval b) w of
        (Some e, w') \<Rightarrow> (Some (root_cause e), w')
      | (None, w') \<Rightarrow> (map_option root_cause (lctx_Err env (bo_MaxInterval b) w w'), w'))"

text \<open>The loop of \<open>backoff.Retry\<close>; \<open>None\<close> when it goes on for ever.\<close>

partial_function (option) retry_loop ::
  "'w retry_env \<Rightarrow> (int \<Rightarrow> 'w \<Rightarrow> go_error error_only \<times> 'w) \<Rightarrow> ExponentialBackOff \<Rightarrow> 'w
    \<Rightarrow> (go_error error_only \<times> 'w) option" where
  "retry_loop env op b w =
     (case retry_attempt env op b w of
        (err, w) \<Rightarrow>
          (case err of
             None \<Rightarrow> Some (None, w)
           | Some e \<Rightarrow>
               (case e of
                  PermanentError p \<Rightarrow> Some (Some p, w)
                | _ \<Rightarrow>
                    (case NextBackOff env b w of
                       ((next, b), w) \<Rightarrow>
                         (case next of
                            None \<Rightarrow> Some (Some e, w)
                          | Some d \<Rightarrow>
                              (case re_Sleep env d w of
                                 (timer, w) \<Rightarrow>
                                   if timer then retry_loop env op b w else Some (Some e, w)))))))"

declare retry_loop.simps [code]

text \<open>\<open>None\<close> also stands for the panic of an option with zero attempts.\<close>

definition retry_Do ::
  "'w retry_env \<Rightarrow> (int \<Rightarrow> 'w \<Rightarrow> go_error error_only \<times> 'w) \<Rightarrow> retry_option list \<Rightarrow> 'w
    \<Rightarrow> (go_error error_only \<times> 'w) option" where
  "retry_Do env op opts w =
     (case retry_config env opts w of
        None \<Rightarrow> None
      | Some b \<Rightarrow> retry_loop env op (backoff_Reset (re_Now env w) b) w)"

text \<open>
  An operation that fills a variable of the caller, as the callers that read an object do; the
  variable is part of the world the retries run in, and starts with the zero value of its type.
\<close>

definition with_variable :: "'w retry_env \<Rightarrow> ('w \<times> 'v) retry_env" where
  "with_variable env =
     \<lparr>re_Now = (\<lambda>(w, v). re_Now env w), re_Deadline = re_Deadline env, re_CtxErr = (\<lambda>(w, v). re_CtxErr env w),
      re_Sleep = (\<lambda>d (w, v). (case re_Sleep env d w of (timer, w) \<Rightarrow> (timer, (w, v)))),
      re_Random = (\<lambda>lo hi (w, v). (case re_Random env lo hi w of (d, w) \<Rightarrow> (d, (w, v))))\<rparr>"

definition filling :: "(int \<Rightarrow> 'w \<Rightarrow> (go_error, 'v) go_result \<times> 'w) \<Rightarrow> int \<Rightarrow> 'w \<times> 'v \<Rightarrow> go_error error_only \<times> 'w \<times> 'v" where
  "filling get d wv =
     (case get d (fst wv) of
        (Inl e, w) \<Rightarrow> (Some e, (w, snd wv))
      | (Inr x, w) \<Rightarrow> (None, (w, x)))"

definition retry_get ::
  "'w retry_env \<Rightarrow> retry_option list \<Rightarrow> 'v \<Rightarrow> (int \<Rightarrow> 'w \<Rightarrow> (go_error, 'v) go_result \<times> 'w) \<Rightarrow> 'w
    \<Rightarrow> ((go_error, 'v) go_result \<times> 'w) option" where
  "retry_get env opts zero get w =
     (case retry_Do (with_variable env) (filling get) opts (w, zero) of
        None \<Rightarrow> None
      | Some (Some e, (w, v)) \<Rightarrow> Some (Inl e, w)
      | Some (None, (w, v)) \<Rightarrow> Some (Inr v, w))"

definition TimeoutAPIServer :: int where "TimeoutAPIServer = 15 * one_second"
definition TimeoutK8sClient :: int where "TimeoutK8sClient = 45 * one_second"

section \<open>How a retry ends\<close>

text \<open>
  An ideal timer and a random number generator within its bounds, and an operation that ends by the
  time its context ends.
\<close>

definition clock_ok :: "'w retry_env \<Rightarrow> bool" where
  "clock_ok env \<longleftrightarrow>
     (\<forall>d w. 0 \<le> d \<longrightarrow>
        (if fst (re_Sleep env d w) then re_Now env (snd (re_Sleep env d w)) = re_Now env w + d
         else re_Now env w \<le> re_Now env (snd (re_Sleep env d w)) \<and> re_Now env (snd (re_Sleep env d w)) \<le> re_Now env w + d))
     \<and> (\<forall>lo hi w. lo \<le> hi \<longrightarrow> lo \<le> fst (re_Random env lo hi w) \<and> fst (re_Random env lo hi w) \<le> hi
          \<and> re_Now env (snd (re_Random env lo hi w)) = re_Now env w)"

definition ends_in_time :: "'w retry_env \<Rightarrow> (int \<Rightarrow> 'w \<Rightarrow> go_error error_only \<times> 'w) \<Rightarrow> bool" where
  "ends_in_time env op \<longleftrightarrow>
     (\<forall>d w. 0 \<le> d \<longrightarrow> re_Now env w \<le> re_Now env (snd (op d w)) \<and> re_Now env (snd (op d w)) \<le> re_Now env w + d)"

text \<open>The error the caller gets: the root cause, without the mark of a permanent error.\<close>

definition returned_error :: "go_error \<Rightarrow> go_error" where
  "returned_error e = (case root_cause e of PermanentError p \<Rightarrow> p | c \<Rightarrow> c)"

text \<open>The result \<open>r\<close> of the last attempt, which ran the operation in the world \<open>w0\<close> with time-out \<open>m\<close>.\<close>

definition explained ::
  "'w retry_env \<Rightarrow> (int \<Rightarrow> 'w \<Rightarrow> go_error error_only \<times> 'w) \<Rightarrow> int \<Rightarrow> go_error error_only \<Rightarrow> bool" where
  "explained env op m r \<longleftrightarrow>
     (\<exists>w0. case op m w0 of
        (None, w1) \<Rightarrow> r = map_option returned_error (lctx_Err env m w0 w1)
      | (Some e, w1) \<Rightarrow> r = Some (returned_error e))"

lemma clock_sleep:
  assumes "clock_ok env" and "re_Sleep env d w = (timer, w')" and "0 \<le> d"
  shows "if timer then re_Now env w' = re_Now env w + d
    else re_Now env w \<le> re_Now env w' \<and> re_Now env w' \<le> re_Now env w + d"
proof -
  have "\<forall>d w. 0 \<le> d \<longrightarrow>
        (if fst (re_Sleep env d w) then re_Now env (snd (re_Sleep env d w)) = re_Now env w + d
         else re_Now env w \<le> re_Now env (snd (re_Sleep env d w)) \<and> re_Now env (snd (re_Sleep env d w)) \<le> re_Now env w + d)"
    using assms(1) unfolding clock_ok_def by (rule conjunct1)
  from this [rule_format, OF assms(3), of w] show ?thesis unfolding assms(2) fst_conv snd_conv .
qed

lemma clock_random:
  assumes "clock_ok env" and "re_Random env lo hi w = (d, w')" and "lo \<le> hi"
  shows "lo \<le> d" and "d \<le> hi" and "re_Now env w' = re_Now env w"
proof -
  have "\<forall>lo hi w. lo \<le> hi \<longrightarrow> lo \<le> fst (re_Random env lo hi w) \<and> fst (re_Random env lo hi w) \<le> hi
          \<and> re_Now env (snd (re_Random env lo hi w)) = re_Now env w"
    using assms(1) unfolding clock_ok_def by (rule conjunct2)
  from this [rule_format, OF assms(3), of w] show "lo \<le> d" "d \<le> hi" "re_Now env w' = re_Now env w"
    by (simp_all add: assms(2))
qed
lemma attempt_now:
  assumes "ends_in_time env op" and "0 \<le> bo_MaxInterval b"
  shows "re_Now env w \<le> re_Now env (snd (retry_attempt env op b w))
    \<and> re_Now env (snd (retry_attempt env op b w)) \<le> re_Now env w + bo_MaxInterval b"
  using assms by (auto simp: ends_in_time_def retry_attempt_def split: prod.splits option.splits) (metis snd_conv)+

lemma attempt_explained:
  assumes "retry_attempt env op b w = (r, w')"
  shows "explained env op (bo_MaxInterval b) (case r of Some (PermanentError p) \<Rightarrow> Some p | _ \<Rightarrow> r)"
proof -
  obtain err w1 where o: "op (bo_MaxInterval b) w = (err, w1)" by (rule prod.exhaust)
  show ?thesis
    unfolding explained_def
    by (rule exI [of _ w])
       (use assms o in \<open>auto simp: retry_attempt_def returned_error_def split: option.splits go_error.splits\<close>)
qed

lemma increment_range:
  assumes "2 \<le> bo_currentInterval b" and "bo_currentInterval b \<le> bo_MaxInterval b"
  shows "2 \<le> bo_currentInterval (incrementCurrentInterval b)"
    and "bo_currentInterval (incrementCurrentInterval b) \<le> bo_MaxInterval b"
  using assms by (auto simp: incrementCurrentInterval_def)

lemma increment_keeps [simp]:
  "bo_MaxInterval (incrementCurrentInterval b) = bo_MaxInterval b"
  "bo_MaxElapsedTime (incrementCurrentInterval b) = bo_MaxElapsedTime b"
  "bo_startTime (incrementCurrentInterval b) = bo_startTime b"
  by (simp_all add: incrementCurrentInterval_def)

lemma NextBackOff_bounds:
  assumes "clock_ok env" and "NextBackOff env b w = ((next, b'), w')"
    and "2 \<le> bo_currentInterval b" and "bo_currentInterval b \<le> bo_MaxInterval b" and "0 < bo_MaxElapsedTime b"
  shows "re_Now env w' = re_Now env w"
    and "next = Some d \<Longrightarrow> 1 \<le> d \<and> d \<le> bo_MaxInterval b + (bo_MaxInterval b + 1) div 2
      \<and> b' = incrementCurrentInterval b \<and> re_Now env w - bo_startTime b \<le> bo_MaxElapsedTime b"
proof -
  let ?c = "bo_currentInterval b"
  obtain d1 w1 where r: "re_Random env (?c div 2) (?c + (?c + 1) div 2) w = (d1, w1)" by (rule prod.exhaust)
  have "?c div 2 \<le> ?c + (?c + 1) div 2" using assms(3) by linarith
  note b = clock_random [OF assms(1) r this]
  show "re_Now env w' = re_Now env w" using b assms(2) r
    by (auto simp: NextBackOff_def split: if_splits)
  have "1 \<le> d1" "d1 \<le> bo_MaxInterval b + (bo_MaxInterval b + 1) div 2" using b assms(3,4) by linarith+
  then show "next = Some d \<Longrightarrow> 1 \<le> d \<and> d \<le> bo_MaxInterval b + (bo_MaxInterval b + 1) div 2
      \<and> b' = incrementCurrentInterval b \<and> re_Now env w - bo_startTime b \<le> bo_MaxElapsedTime b"
    using assms(2,5) r by (auto simp: NextBackOff_def split: if_splits)
qed

text \<open>The loop returns, and how late at most.\<close>

lemma retry_loop_returns:
  assumes "clock_ok env" and "ends_in_time env op"
    and "2 \<le> bo_currentInterval b" and "bo_currentInterval b \<le> bo_MaxInterval b" and "0 < bo_MaxElapsedTime b"
    and "re_Now env w \<le> bo_startTime b + bo_MaxElapsedTime b + bo_MaxInterval b + (bo_MaxInterval b + 1) div 2"
  shows "\<exists>r w'. retry_loop env op b w = Some (r, w') \<and> explained env op (bo_MaxInterval b) r
    \<and> re_Now env w' \<le> bo_startTime b + bo_MaxElapsedTime b + 2 * bo_MaxInterval b + (bo_MaxInterval b + 1) div 2"
  using assms(3-)
proof (induction "nat (bo_startTime b + bo_MaxElapsedTime b + bo_MaxInterval b + (bo_MaxInterval b + 1) div 2 - re_Now env w)"
    arbitrary: b w rule: less_induct)
  case less
  let ?m = "bo_MaxInterval b"
  let ?last = "bo_startTime b + bo_MaxElapsedTime b + ?m + (?m + 1) div 2"
  have m: "0 \<le> ?m" using less.prems by linarith
  obtain err w1 where a: "retry_attempt env op b w = (err, w1)" by (rule prod.exhaust)
  have t1: "re_Now env w \<le> re_Now env w1" "re_Now env w1 \<le> ?last + ?m"
    using attempt_now [OF assms(2) m, of w] a less.prems by auto
  note ex = attempt_explained [OF a]
  have turn: "retry_loop env op b w =
      (case err of
         None \<Rightarrow> Some (None, w1)
       | Some e \<Rightarrow>
           (case e of
              PermanentError p \<Rightarrow> Some (Some p, w1)
            | _ \<Rightarrow>
                (case NextBackOff env b w1 of
                   ((next, b), w) \<Rightarrow>
                     (case next of
                        None \<Rightarrow> Some (Some e, w)
                      | Some d \<Rightarrow>
                          (case re_Sleep env d w of
                             (timer, w) \<Rightarrow>
                               if timer then retry_loop env op b w else Some (Some e, w))))))"
    by (subst retry_loop.simps) (simp add: a)
  show ?case
  proof (cases "err = None \<or> (\<exists>p. err = Some (PermanentError p))")
    case True
    then show ?thesis using ex t1 m by (auto simp: turn)
  next
    case False
    then obtain e where e: "err = Some e" "\<forall>p. e \<noteq> PermanentError p" by auto
    have ex1: "explained env op ?m (Some e)" using ex e by (cases e) simp_all
    obtain nxt b' w2 where n: "NextBackOff env b w1 = ((nxt, b'), w2)" by (metis prod.exhaust)
    note nb = NextBackOff_bounds [OF assms(1) n less.prems(1-3)]
    have turn2: "retry_loop env op b w = (case nxt of
        None \<Rightarrow> Some (Some e, w2)
      | Some d \<Rightarrow> (case re_Sleep env d w2 of (timer, w) \<Rightarrow> if timer then retry_loop env op b' w else Some (Some e, w)))"
      unfolding turn e(1) using e(2) by (cases e) (simp_all add: n split: option.split prod.split)
    show ?thesis
    proof (cases nxt)
      case None
      then show ?thesis using ex1 t1 nb(1) m by (auto simp: turn2)
    next
      case (Some d)
      obtain timer w3 where s: "re_Sleep env d w2 = (timer, w3)" by (rule prod.exhaust)
      have d: "1 \<le> d" "d \<le> ?m + (?m + 1) div 2" "b' = incrementCurrentInterval b"
        "re_Now env w1 - bo_startTime b \<le> bo_MaxElapsedTime b" using nb(2) [OF Some] by auto
      have slept: "if timer then re_Now env w3 = re_Now env w2 + d
          else re_Now env w2 \<le> re_Now env w3 \<and> re_Now env w3 \<le> re_Now env w2 + d"
        using clock_sleep [OF assms(1) s] d(1) by simp
      have t3: "re_Now env w3 \<le> ?last" using slept nb(1) d by (auto split: if_splits)
      show ?thesis
      proof (cases timer)
        case True
        have more: "re_Now env w < re_Now env w3" using slept nb(1) t1 d True by simp
        have "\<exists>r w'. retry_loop env op b' w3 = Some (r, w') \<and> explained env op (bo_MaxInterval b') r
          \<and> re_Now env w' \<le> bo_startTime b' + bo_MaxElapsedTime b' + 2 * bo_MaxInterval b' + (bo_MaxInterval b' + 1) div 2"
          using increment_range [OF less.prems(1,2)] less.prems more t3 d(3)
          by (intro less.hyps) simp_all
        then show ?thesis using True s by (simp add: turn2 Some d(3))
      next
        case False
        then show ?thesis using ex1 t3 s m by (auto simp: turn2 Some)
      qed
    qed
  qed
qed

lemma retry_Do_returns:
  assumes "clock_ok env" and "ends_in_time env op" and "60 \<le> t"
  shows "\<exists>r w'. retry_Do env op [Timeout t] w = Some (r, w') \<and> explained env op (t div 3) r
    \<and> re_Now env w' \<le> re_Now env w + 2 * t"
proof -
  have s: "sgn t = 1" "\<bar>t\<bar> = t" "sgn (t div 3) = 1" "\<bar>t div 3\<bar> = t div 3" using assms(3) by (auto simp: sgn_if)
  obtain b where b: "retry_config env [Timeout t] w = Some b" "bo_MaxElapsedTime b = t" "bo_MaxInterval b = t div 3"
    "bo_InitialInterval b = t div 3 div 10"
    by (simp add: retry_config_def Let_def s split: option.split)
  let ?b = "backoff_Reset (re_Now env w) b"
  have "\<exists>r w'. retry_loop env op ?b w = Some (r, w') \<and> explained env op (bo_MaxInterval ?b) r
    \<and> re_Now env w' \<le> bo_startTime ?b + bo_MaxElapsedTime ?b + 2 * bo_MaxInterval ?b + (bo_MaxInterval ?b + 1) div 2"
    using assms(3) b by (intro retry_loop_returns [OF assms(1,2)]) (simp_all add: backoff_Reset_def)
  then obtain r w' where r: "retry_loop env op ?b w = Some (r, w')" "explained env op (t div 3) r"
      "re_Now env w' \<le> re_Now env w + t + 2 * (t div 3) + (t div 3 + 1) div 2"
    using b(2,3) by (auto simp: backoff_Reset_def)
  have "t + 2 * (t div 3) + (t div 3 + 1) div 2 \<le> 2 * t" using assms(3) by linarith
  then show ?thesis using r by (auto simp: retry_Do_def b(1))
qed

text \<open>C21: A retry with a time-out always returns, if only its operation ends when the context it is
  given ends: with nil when an attempt succeeded in time, else with the root cause of the error of
  the last attempt.  It takes up to twice the time-out, not the time-out at most: the limit is looked
  at only between attempts.\<close>

theorem retry_returns:
  assumes "clock_ok env" and "ends_in_time env op" and "60 \<le> t"
  shows "\<exists>r w'. retry_Do env op [Timeout t] w = Some (r, w') \<and> explained env op (t div 3) r
    \<and> re_Now env w' \<le> re_Now env w + 2 * t"
  using assms by (rule retry_Do_returns)

text \<open>A world that is the clock; the operation fails three seconds long, then it succeeds at once.\<close>

definition clock_env :: "int retry_env" where
  "clock_env = \<lparr>re_Now = (\<lambda>w. w), re_Deadline = None, re_CtxErr = (\<lambda>w. None),
     re_Sleep = (\<lambda>d w. (True, w + d)), re_Random = (\<lambda>lo hi w. (lo, w))\<rparr>"

definition slow_start :: "int \<Rightarrow> int \<Rightarrow> go_error error_only \<times> int" where
  "slow_start d w = (if w < 3 * one_second then (Some (PlainError ''not yet''), w) else (None, w))"

lemma clock_env_ok: "clock_ok clock_env"
  by (simp add: clock_ok_def clock_env_def)

lemma retry_returns_witness:
  "\<exists>r w'. retry_Do clock_env slow_start [Timeout TimeoutAPIServer] 0 = Some (r, w')
     \<and> explained clock_env slow_start (5 * one_second) r \<and> w' \<le> 30 * one_second"
proof -
  have "ends_in_time clock_env slow_start" by (simp add: ends_in_time_def clock_env_def slow_start_def)
  from retry_returns [OF clock_env_ok this, of TimeoutAPIServer 0] show ?thesis
    by (simp add: TimeoutAPIServer_def one_second_def clock_env_def)
qed

end
