(* ===== verification/Environment.thy ===== *)
theory Environment
  imports Names
begin

text \<open>
  What a process of the operator reads from its environment (\<open>pkg/constants/constants.go\<close>); the
  environment, a function that gives the empty string for a variable that is not set, is an argument.
\<close>

section \<open>Names of variables and keys\<close>

definition EnvNodeName :: string where "EnvNodeName = ''KOALJA_NODE_NAME''"
definition EnvPodIP :: string where "EnvPodIP = ''KOALJA_POD_IP''"
definition EnvFileSystemScheme :: string where "EnvFileSystemScheme = ''KOALJA_FILESYSTEM_SCHEME''"
definition EnvOutputReadyNotifierAddress :: string where
  "EnvOutputReadyNotifierAddress = ''KOALJA_OUTPUT_READ_NOTIFIER_ADDRESS''"
definition EnvOutputFileSystemServiceAddress :: string where
  "EnvOutputFileSystemServiceAddress = ''KOALJA_OUTPUT_FS_SERVICE_ADDRESS''"
definition EnvSnapshotServiceAddress :: string where
  "EnvSnapshotServiceAddress = ''KOALJA_SNAPSHOT_SERVICE_ADDRESS''"

definition ConfigMapS3Storage :: string where "ConfigMapS3Storage = ''koalja-s3-storage-config''"
definition SecretKeyS3AccessKey :: string where "SecretKeyS3AccessKey = ''access-key''"
definition SecretKeyS3SecretKey :: string where "SecretKeyS3SecretKey = ''secret-key''"
definition FlexVolumeOptionS3EndpointKey :: string where "FlexVolumeOptionS3EndpointKey = ''endpoint''"
definition FlexVolumeOptionS3BucketKey :: string where "FlexVolumeOptionS3BucketKey = ''bucket''"
definition FlexVolumeS3VendorName :: string where "FlexVolumeS3VendorName = ''aljabrio''"
definition FlexVolumeS3DriverName :: string where "FlexVolumeS3DriverName = ''koalja-flex-s3''"

section \<open>Reading\<close>

text \<open>A required variable: the error names the variable.\<close>

definition required_env :: "string \<Rightarrow> (string \<Rightarrow> string) \<Rightarrow> (string, string) go_result" where
  "required_env name getenv = (if getenv name = [] then Inl name else Inr (getenv name))"

definition GetNamespace :: "(string \<Rightarrow> string) \<Rightarrow> (string, string) go_result" where
  "GetNamespace = required_env EnvNamespace"
definition GetPodName :: "(string \<Rightarrow> string) \<Rightarrow> (string, string) go_result" where
  "GetPodName = required_env EnvPodName"
definition GetPodIP :: "(string \<Rightarrow> string) \<Rightarrow> (string, string) go_result" where
  "GetPodIP = required_env EnvPodIP"
definition GetDNSName :: "(string \<Rightarrow> string) \<Rightarrow> (string, string) go_result" where
  "GetDNSName = required_env EnvDNSName"
definition GetPipelineName :: "(string \<Rightarrow> string) \<Rightarrow> (string, string) go_result" where
  "GetPipelineName = required_env EnvPipelineName"
definition GetLinkName :: "(string \<Rightarrow> string) \<Rightarrow> (string, string) go_result" where
  "GetLinkName = required_env EnvLinkName"
definition GetTaskName :: "(string \<Rightarrow> string) \<Rightarrow> (string, string) go_result" where
  "GetTaskName = required_env EnvTaskName"
definition GetServiceAccountName :: "(string \<Rightarrow> string) \<Rightarrow> (string, string) go_result" where
  "GetServiceAccountName = required_env EnvServiceAccountName"
definition GetFileSystemScheme :: "(string \<Rightarrow> string) \<Rightarrow> (string, string) go_result" where
  "GetFileSystemScheme = required_env EnvFileSystemScheme"

text \<open>\<open>strconv.Atoi\<close>: an optional sign and at least one digit, within the range of a 64 bit integer.\<close>

definition digit_value :: "char \<Rightarrow> nat option" where
  "digit_value c = (let n = of_char c in if 48 \<le> n \<and> n \<le> 57 then Some (n - 48) else None)"

fun digits_value :: "nat \<Rightarrow> string \<Rightarrow> nat option" where
  "digits_value acc [] = Some acc"
| "digits_value acc (c # cs) =
     (case digit_value c of None \<Rightarrow> None | Some d \<Rightarrow> digits_value (10 * acc + d) cs)"

definition Atoi :: "string \<Rightarrow> int option" where
  "Atoi s =
     (let negative = (take 1 s = ''-'');
          digits = (if take 1 s = ''-'' \<or> take 1 s = ''+'' then drop 1 s else s)
      in if digits = [] then None
         else case digits_value 0 digits of
                None \<Rightarrow> None
              | Some n \<Rightarrow>
                  let i = (if negative then - int n else int n)
                  in if - (2 ^ 63) \<le> i \<and> i < 2 ^ 63 then Some i else None)"

definition GetAPIPort :: "(string \<Rightarrow> string) \<Rightarrow> int option" where
  "GetAPIPort getenv = Atoi (getenv EnvAPIPort)"

definition GetAPIHTTPPort :: "(string \<Rightarrow> string) \<Rightarrow> int option" where
  "GetAPIHTTPPort getenv = Atoi (getenv EnvAPIHTTPPort)"

section \<open>Lemmas\<close>

lemma digit_value_char: "d < 10 \<Longrightarrow> digit_value (digit_char d) = Some d"
  by (simp add: digit_value_def digit_char_def)

lemma digits_value_append:
  "digits_value acc (s @ t) = (case digits_value acc s of None \<Rightarrow> None | Some n \<Rightarrow> digits_value n t)"
  by (induction s arbitrary: acc) (auto split: option.splits)

lemma digits_value_itoa: "digits_value 0 (itoa n) = Some n"
proof (induction n rule: itoa.induct)
  case (1 n)
  show ?case
  proof (cases "n < 10")
    case True
    then show ?thesis by (subst itoa.simps) (simp add: digit_value_char)
  next
    case False
    then show ?thesis
      by (subst itoa.simps) (simp add: digits_value_append 1 digit_value_char)
  qed
qed

lemma itoa_first_digit: "\<exists>d cs. itoa n = digit_char d # cs \<and> d < 10"
proof (induction n rule: itoa.induct)
  case (1 n)
  show ?case
  proof (cases "n < 10")
    case True
    then show ?thesis by (subst itoa.simps) auto
  next
    case False
    then obtain d cs where "itoa (n div 10) = digit_char d # cs" "d < 10" using 1 by auto
    then show ?thesis using False by (subst itoa.simps) auto
  qed
qed

lemma digit_char_not_sign: "d < 10 \<Longrightarrow> digit_char d \<noteq> CHR ''-'' \<and> digit_char d \<noteq> CHR ''+''"
  by (auto dest!: digit_value_char simp: digit_value_def)

lemma Atoi_itoa: "int n < 2 ^ 63 \<Longrightarrow> Atoi (itoa n) = Some (int n)"
proof -
  obtain d cs where d: "itoa n = digit_char d # cs" "d < 10" using itoa_first_digit by blast
  assume "int n < 2 ^ 63"
  then show ?thesis
    using digits_value_itoa [of n] digit_char_not_sign [OF d(2)]
    by (simp add: Atoi_def d(1) Let_def)
qed

end
