(* ===== verification/FS_Types.thy ===== *)
theory FS_Types
  imports FS_Api Go_URL Go_Path Retry Ensure Environment
begin

text \<open>
  What the two file system services share (\<open>pkg/fs/service\<close>): their environment, their errors, the
  search of a service for its own stateful set, its storage class, and the service around a file
  system with the daemon sets that install the volume drivers.
\<close>

section \<open>Environment and errors\<close>

datatype fs_error =
    FS_Retry go_error
  | FS_Api api_error
  | FS_Message string

text \<open>The own pod: names and image IDs of its running containers, its containers, its owners.\<close>

record own_pod =
  own_Statuses :: "(string \<times> string) list"
  own_Containers :: "(string \<times> string) list"
  own_Owners :: "(string \<times> string) list"

record storage_class =
  sc_Name :: string
  sc_VolumeBindingMode :: string
  sc_Provisioner :: string

record 'w fs_env =
  fe_Retry :: "'w retry_env"
  fe_GetPod :: "string \<Rightarrow> string \<Rightarrow> int \<Rightarrow> 'w \<Rightarrow> (go_error, own_pod) go_result \<times> 'w"
  fe_GetStatefulSet :: "string \<Rightarrow> string \<Rightarrow> int \<Rightarrow> 'w \<Rightarrow> (go_error, workload) go_result \<times> 'w"
  fe_GetStorageClass :: "string \<Rightarrow> int \<Rightarrow> 'w \<Rightarrow> (go_error, storage_class) go_result \<times> 'w"
  fe_CreateStorageClass :: "storage_class \<Rightarrow> int \<Rightarrow> 'w \<Rightarrow> go_error error_only \<times> 'w"
  fe_ListNodes :: "'w \<Rightarrow> (api_error, string list) go_result"
  fe_GetPV :: "string \<Rightarrow> 'w \<Rightarrow> (api_error, persistent_volume) go_result"
  fe_PersistentVolumes :: "(persistent_volume, 'w) kube_client"
  fe_PersistentVolumeClaims :: "(pv_claim, 'w) kube_client"
  fe_DaemonSets :: "(workload, 'w) kube_client"
  fe_Intn :: "nat \<Rightarrow> 'w \<Rightarrow> nat \<times> 'w"
  fe_NewID :: "'w \<Rightarrow> string \<times> 'w"
  fe_Getenv :: "string \<Rightarrow> string"

section \<open>Finding the own stateful set\<close>

definition myContainerName :: string where "myContainerName = ''fs-service''"

definition dockerPullableImageIDPrefix :: string where
  "dockerPullableImageIDPrefix = ''docker-pullable://''"

definition TrimPrefix :: "string \<Rightarrow> string \<Rightarrow> string" where
  "TrimPrefix s p = (if take (length p) s = p then drop (length p) s else s)"

definition ConvertImageID2Image :: "string \<Rightarrow> string" where
  "ConvertImageID2Image imageID =
     (if take (length dockerPullableImageIDPrefix) imageID = dockerPullableImageIDPrefix
      then drop (length dockerPullableImageIDPrefix) imageID else imageID)"

text \<open>The loops do not stop at the first match: the last one counts.\<close>

definition last_match :: "string \<Rightarrow> ('b \<Rightarrow> string) \<Rightarrow> (string \<times> 'b) list \<Rightarrow> string \<Rightarrow> string" where
  "last_match key f xs found = foldl (\<lambda>acc (k, v). if k = key then f v else acc) found xs"

definition pod_image :: "own_pod \<Rightarrow> string" where
  "pod_image pod =
     (let image = last_match myContainerName ConvertImageID2Image (own_Statuses pod) []
      in if image = [] then last_match myContainerName (\<lambda>i. i) (own_Containers pod) image else image)"

definition pod_owner :: "own_pod \<Rightarrow> string" where
  "pod_owner pod = last_match ''StatefulSet'' (\<lambda>n. n) (own_Owners pod) []"

definition zero_pod :: own_pod where
  "zero_pod = \<lparr>own_Statuses = [], own_Containers = [], own_Owners = []\<rparr>"

definition zero_workload :: workload where
  "zero_workload = \<lparr>wl_Meta = \<lparr>om_Name = [], om_Namespace = [], om_Labels = [], om_Annotations = [], om_Owners = []\<rparr>,
     wl_Spec = \<lparr>ws_Template = \<lparr>pt_Meta = \<lparr>om_Name = [], om_Namespace = [], om_Labels = [],
         om_Annotations = [], om_Owners = []\<rparr>,
       pt_Spec = \<lparr>pod_InitContainers = [], pod_Containers = [], pod_ServiceAccountName = [],
         pod_RestartPolicy = [], pod_Volumes = []\<rparr>\<rparr>, ws_ServiceName = [], ws_Replicas = None, ws_Selector = []\<rparr>\<rparr>"

definition get_own_pod :: "'w fs_env \<Rightarrow> string \<Rightarrow> string \<Rightarrow> 'w \<Rightarrow> ((go_error, own_pod) go_result \<times> 'w) option" where
  "get_own_pod env podName namespace w =
     retry_get (fe_Retry env) [Timeout TimeoutAPIServer] zero_pod (fe_GetPod env podName namespace) w"

definition get_own_set :: "'w fs_env \<Rightarrow> string \<Rightarrow> string \<Rightarrow> 'w \<Rightarrow> ((go_error, workload) go_result \<times> 'w) option" where
  "get_own_set env ownerName namespace w =
     retry_get (fe_Retry env) [Timeout TimeoutAPIServer] zero_workload (fe_GetStatefulSet env ownerName namespace) w"

text \<open>Any error of \<open>Get\<close>, not only that the class does not exist, makes the service create the class.\<close>

definition fs_storage_class :: "string \<Rightarrow> string \<Rightarrow> storage_class" where
  "fs_storage_class name provisioner =
     \<lparr>sc_Name = name, sc_VolumeBindingMode = ''WaitForFirstConsumer'',
      sc_Provisioner = ''agents.aljabr.io'' @ provisioner\<rparr>"

definition ensure_storage_class :: "'w fs_env \<Rightarrow> storage_class \<Rightarrow> 'w \<Rightarrow> (go_error error_only \<times> 'w) option" where
  "ensure_storage_class env stgClass w =
     retry_Do (fe_Retry env) (\<lambda>d w.
       (case fe_GetStorageClass env (sc_Name stgClass) d w of
          (Inl e, w) \<Rightarrow> fe_CreateStorageClass env stgClass d w
        | (Inr found, w) \<Rightarrow> (None, w))) [Timeout TimeoutAPIServer] w"

end
