(* ===== verification/Local_FS.thy ===== *)
theory Local_FS
  imports FS_Types
begin

text \<open>
  The file system service on local directories of nodes (\<open>pkg/fs/service/local\<close>): how it starts, its
  volumes and URIs, the registry of node daemons and the node daemons themselves.
\<close>

section \<open>Starting\<close>

record local_config =
  lc_PodName :: string
  lc_Namespace :: string
  lc_LocalPathPrefix :: string
  lc_StorageClassName :: string

record localFS =
  lf_Config :: local_config
  lf_nodeRegistryAddress :: string
  lf_statefulSetName :: string
  lf_image :: string
  lf_owner :: workload

text \<open>\<open>None\<close> when a retry goes on for ever.\<close>

definition local_NewFileSystem ::
  "'w fs_env \<Rightarrow> local_config \<Rightarrow> 'w \<Rightarrow> ((fs_error, localFS) go_result \<times> 'w) option" where
  "local_NewFileSystem env cfg w =
     (case get_own_pod env (lc_PodName cfg) (lc_Namespace cfg) w of
        None \<Rightarrow> None
      | Some (Inl e, w) \<Rightarrow> Some (Inl (FS_Retry e), w)
      | Some (Inr pod, w) \<Rightarrow>
          if pod_image pod = [] then Some (Inl (FS_Message ''No image found in my pod''), w)
          else if pod_owner pod = [] then Some (Inl (FS_Message ''No StatefulSet owner found in my pod''), w)
          else
            (case get_own_set env (pod_owner pod) (lc_Namespace cfg) w of
               None \<Rightarrow> None
             | Some (Inl e, w) \<Rightarrow> Some (Inl (FS_Retry e), w)
             | Some (Inr sfs, w) \<Rightarrow>
                 (case GetAPIPort (fe_Getenv env) of
                    None \<Rightarrow> Some (Inl (FS_Message ''Cannot get API port''), w)
                  | Some port \<Rightarrow>
                      (case ensure_storage_class env (fs_storage_class (lc_StorageClassName cfg) ''/local-fs'') w of
                         None \<Rightarrow> None
                       | Some (Some e, w) \<Rightarrow> Some (Inl (FS_Retry e), w)
                       | Some (None, w) \<Rightarrow>
                           Some (Inr \<lparr>lf_Config = cfg,
                             lf_nodeRegistryAddress = JoinHostPort (ws_ServiceName (wl_Spec sfs)) (itoa_int port),
                             lf_statefulSetName = pod_owner pod, lf_image = pod_image pod, lf_owner = sfs\<rparr>, w)))))"

section \<open>The daemon set\<close>

definition createNodeDaemonLabels :: "string \<Rightarrow> (string, string) gomap" where
  "createNodeDaemonLabels name = [(''name'', name), (''app'', ''koalja-local-fs-node-daemon'')]"

definition node_container :: "localFS \<Rightarrow> container" where
  "node_container lfs =
     \<lparr>c_Name = ''node'', c_Image = lf_image lfs,
      c_Command = Some [''/apps/services'', ''filesystem'', ''node'',
        ''--registry='' @ lf_nodeRegistryAddress lfs, ''--port='' @ itoa AgentAPIPort],
      c_Args = None,
      c_Env = [\<lparr>ev_Name = EnvNodeName, ev_Value = [], ev_FieldPath = Some ''spec.nodeName''\<rparr>,
               \<lparr>ev_Name = EnvPodIP, ev_Value = [], ev_FieldPath = Some ''status.podIP''\<rparr>],
      c_Ports = [\<lparr>cp_Name = [], cp_ContainerPort = int AgentAPIPort, cp_Protocol = []\<rparr>],
      c_VolumeMounts = [\<lparr>vm_Name = ''node-volume'', vm_ReadOnly = False,
        vm_MountPath = lc_LocalPathPrefix (lf_Config lfs), vm_SubPath = []\<rparr>],
      c_Privileged = None\<rparr>"

text \<open>
  A daemon set of one container and one volume on the node, as both services make them.  Setting the
  owner reference succeeds, since the owner is a stateful set of the same namespace.
\<close>

definition daemon_set ::
  "string \<Rightarrow> string \<Rightarrow> (string, string) gomap \<Rightarrow> container \<Rightarrow> string \<Rightarrow> string \<Rightarrow> string list \<Rightarrow> workload" where
  "daemon_set name namespace labels c volName hostPath owners =
     \<lparr>wl_Meta = \<lparr>om_Name = name, om_Namespace = namespace, om_Labels = labels, om_Annotations = [], om_Owners = owners\<rparr>,
      wl_Spec = \<lparr>ws_Template = \<lparr>pt_Meta = \<lparr>om_Name = [], om_Namespace = [], om_Labels = labels,
            om_Annotations = [], om_Owners = []\<rparr>,
          pt_Spec = \<lparr>pod_InitContainers = [], pod_Containers = [c], pod_ServiceAccountName = [],
            pod_RestartPolicy = [], pod_Volumes = [\<lparr>vol_Name = volName, vol_Source = VS_HostPath hostPath\<rparr>]\<rparr>\<rparr>,
        ws_ServiceName = [], ws_Replicas = None, ws_Selector = labels\<rparr>\<rparr>"

definition createOrUpdateNodeDaemonset :: "'w fs_env \<Rightarrow> localFS \<Rightarrow> 'w \<Rightarrow> api_error error_only \<times> 'w" where
  "createOrUpdateNodeDaemonset env lfs w =
     EnsureDaemonSet (fe_DaemonSets env)
       (daemon_set (lf_statefulSetName lfs) (lc_Namespace (lf_Config lfs))
          (createNodeDaemonLabels (lf_statefulSetName lfs)) (node_container lfs) ''node-volume''
          (lc_LocalPathPrefix (lf_Config lfs)) [om_Name (wl_Meta (lf_owner lfs))]) w"

text \<open>
  \<open>Run\<close> repeats this without a pause and without looking at its context: the world after \<open>n\<close> rounds.
\<close>

primrec local_Run :: "nat \<Rightarrow> 'w fs_env \<Rightarrow> localFS \<Rightarrow> 'w \<Rightarrow> 'w" where
  "local_Run 0 env lfs w = w"
| "local_Run (Suc n) env lfs w = local_Run n env lfs (snd (createOrUpdateNodeDaemonset env lfs w))"

section \<open>Volumes and URIs\<close>

definition dirKey :: string where "dirKey = ''dir''"
definition uidKey :: string where "uidKey = ''koalja-uid''"

text \<open>\<open>None\<close> is the panic of \<open>rand.Intn(0)\<close> when the cluster has no nodes.\<close>

definition local_CreateVolumeForWrite ::
  "'w fs_env \<Rightarrow> localFS \<Rightarrow> string \<Rightarrow> 'w \<Rightarrow> ((fs_error, volume_response) go_result \<times> 'w) option" where
  "local_CreateVolumeForWrite env lfs reqNode w =
     (case fe_ListNodes env w of
        Inl e \<Rightarrow> Some (Inl (FS_Api e), w)
      | Inr nodeList \<Rightarrow>
          (let picked =
             (if reqNode \<noteq> [] then
                Some (if list_ex (\<lambda>n. n = reqNode) nodeList then Inr reqNode
                      else Inl (FS_Message (''Node not found: '' @ reqNode)), w)
              else if nodeList = [] then None
              else (case fe_Intn env (length nodeList) w of (i, w) \<Rightarrow> Some (Inr (nodeList ! i), w)))
           in case picked of
                None \<Rightarrow> None
              | Some (Inl e, w) \<Rightarrow> Some (Inl e, w)
              | Some (Inr nodeName, w) \<Rightarrow>
                  (case fe_NewID env w of
                     (uid, w) \<Rightarrow>
                       Some (Inr (empty_response\<lparr>
                         vr_VolumePath := path_Join [lc_LocalPathPrefix (lf_Config lfs), to_lower uid],
                         vr_NodeName := nodeName, vr_DeleteAfterUse := True\<rparr>), w))))"

definition local_uid :: "'w fs_env \<Rightarrow> file_uri_request \<Rightarrow> 'w \<Rightarrow> (fs_error, string) go_result" where
  "local_uid env req w =
     (if fu_VolumeName req \<noteq> [] then
        (case fe_GetPV env (fu_VolumeName req) w of
           Inl e \<Rightarrow> Inl (FS_Api e)
         | Inr pv \<Rightarrow> Inr (case map_of (om_Labels (pv_Meta pv)) uidKey of Some uid \<Rightarrow> uid | None \<Rightarrow> []))
      else if fu_VolumePath req \<noteq> [] then Inr (path_Base (fu_VolumePath req))
      else Inl (FS_Message ''VolumeName and VolumePath cannot both be empty''))"

definition local_CreateFileURI :: "'w fs_env \<Rightarrow> file_uri_request \<Rightarrow> 'w \<Rightarrow> (fs_error, string) go_result" where
  "local_CreateFileURI env req w =
     (if fu_Scheme req = [] then Inl (FS_Message ''Scheme cannot be empty'')
      else if fu_LocalPath req = [] then Inl (FS_Message ''LocalPath cannot be empty'')
      else if fu_NodeName req = [] then Inl (FS_Message ''NodeName cannot be empty'')
      else case local_uid env req w of
             Inl e \<Rightarrow> Inl e
           | Inr uid \<Rightarrow>
               Inr (url_String \<lparr>u_Scheme = fu_Scheme req, u_Opaque = [], u_Host = fu_NodeName req, u_Path = uid,
                 u_RawQuery = values_Encode [(dirKey, FormatBool (fu_IsDir req))],
                 u_Fragment = fu_LocalPath req\<rparr>))"

definition local_CreateVolumeForRead :: "localFS \<Rightarrow> string \<Rightarrow> (fs_error, volume_response) go_result" where
  "local_CreateVolumeForRead lfs reqURI =
     (case url_Parse reqURI of
        None \<Rightarrow> Inl (FS_Message ''Failed to parse URI'')
      | Some uri \<Rightarrow>
          let uid = TrimPrefix (u_Path uri) ''/'' in
          Inr (empty_response\<lparr>
            vr_VolumePath := path_Join [lc_LocalPathPrefix (lf_Config lfs), uid],
            vr_NodeName := u_Host uri, vr_LocalPath := u_Fragment uri,
            vr_IsDir := ParseBool (values_Get (parse_query (u_RawQuery uri)) dirKey),
            vr_DeleteAfterUse := True\<rparr>))"

section \<open>Node registry\<close>

text \<open>The expiration of an entry is set and never read.  \<open>'c\<close> are clients of node daemons.\<close>

record 'c nodeEntry =
  ne_Address :: string
  ne_ExpiresAt :: int
  ne_Client :: "'c option"

definition nodeExpirationTimeout :: int where "nodeExpirationTimeout = 120 * one_second"

definition RegisterNode ::
  "int \<Rightarrow> string \<Rightarrow> string \<Rightarrow> (string, 'c nodeEntry) gomap \<Rightarrow> (string, 'c nodeEntry) gomap" where
  "RegisterNode now nodeName nodeAddress nodes =
     (case map_of nodes nodeName of
        Some e \<Rightarrow>
          let e = (if ne_Address e \<noteq> nodeAddress then e\<lparr>ne_Address := nodeAddress, ne_Client := None\<rparr> else e)
          in AList.update nodeName (e\<lparr>ne_ExpiresAt := now + nodeExpirationTimeout\<rparr>) nodes
      | None \<Rightarrow>
          AList.update nodeName
            \<lparr>ne_Address = nodeAddress, ne_ExpiresAt = now + nodeExpirationTimeout, ne_Client = None\<rparr> nodes)"

text \<open>A missing node is a nil client and no error.\<close>

definition GetNodeClient ::
  "(string \<Rightarrow> (string, 'c) go_result) \<Rightarrow> string \<Rightarrow> (string, 'c nodeEntry) gomap
    \<Rightarrow> (string, 'c option) go_result \<times> (string, 'c nodeEntry) gomap" where
  "GetNodeClient dial nodeName nodes =
     (case map_of nodes nodeName of
        None \<Rightarrow> (Inr None, nodes)
      | Some e \<Rightarrow>
          (case ne_Client e of
             Some c \<Rightarrow> (Inr (Some c), nodes)
           | None \<Rightarrow>
               (case dial (ne_Address e) of
                  Inl err \<Rightarrow> (Inl err, nodes)
                | Inr c \<Rightarrow> (Inr (Some c), AList.update nodeName (e\<lparr>ne_Client := Some c\<rparr>) nodes))))"

text \<open>The call passed on to the node daemon: \<open>view\<close> is the client's \<open>CreateFileView\<close>.\<close>

definition local_CreateFileView ::
  "localFS \<Rightarrow> (string \<Rightarrow> (string, 'c) go_result) \<Rightarrow> ('c \<Rightarrow> string \<Rightarrow> bool \<Rightarrow> (string, 'f) go_result)
    \<Rightarrow> string \<Rightarrow> bool \<Rightarrow> (string, 'c nodeEntry) gomap
    \<Rightarrow> (fs_error, 'f) go_result \<times> (string, 'c nodeEntry) gomap" where
  "local_CreateFileView lfs dial view reqURI preview nodes =
     (case url_Parse reqURI of
        None \<Rightarrow> (Inl (FS_Message ''Failed to parse URI''), nodes)
      | Some uri \<Rightarrow>
          let uid = TrimPrefix (u_Path uri) ''/'';
              volumePath = path_Join [lc_LocalPathPrefix (lf_Config lfs), uid];
              fullPath = path_Join [volumePath, u_Fragment uri]
          in (case GetNodeClient dial (u_Host uri) nodes of
                (Inl err, nodes) \<Rightarrow> (Inl (FS_Message err), nodes)
              | (Inr None, nodes) \<Rightarrow> (Inl (FS_Message (''Unknown node '' @ u_Host uri)), nodes)
              | (Inr (Some c), nodes) \<Rightarrow>
                  (case view c fullPath preview of
                     Inl err \<Rightarrow> (Inl (FS_Message err), nodes)
                   | Inr resp \<Rightarrow> (Inr resp, nodes))))"

section \<open>Node daemon\<close>

text \<open>One round of the registration loop: the delay until the next round, after the answer of the call.\<close>

definition node_address :: "string \<Rightarrow> nat \<Rightarrow> string" where
  "node_address myIP port = JoinHostPort myIP (itoa port)"

definition registration_delay :: "bool \<Rightarrow> int \<Rightarrow> int" where
  "registration_delay failed delay = (if failed then Backoff delay 3 2 (15 * one_second) else 60 * one_second)"

text \<open>The content of a file and its detected type.\<close>

definition node_CreateFileView ::
  "(string \<Rightarrow> (string, nat list) go_result) \<Rightarrow> (nat list \<Rightarrow> string) \<Rightarrow> string
    \<Rightarrow> (string, nat list \<times> string) go_result" where
  "node_CreateFileView readFile detect localPath =
     (case readFile localPath of
        Inl e \<Rightarrow> Inl e
      | Inr content \<Rightarrow> Inr (content, detect content))"

section \<open>The registry as a map of addresses\<close>

datatype node_call = RegisterCall int string string | ClientCall string

fun registry_run ::
  "(string \<Rightarrow> (string, 'c) go_result) \<Rightarrow> node_call list \<Rightarrow> (string, 'c nodeEntry) gomap \<Rightarrow> (string, 'c nodeEntry) gomap" where
  "registry_run dial [] nodes = nodes"
| "registry_run dial (RegisterCall now name address # calls) nodes =
     registry_run dial calls (RegisterNode now name address nodes)"
| "registry_run dial (ClientCall name # calls) nodes =
     registry_run dial calls (snd (GetNodeClient dial name nodes))"

text \<open>The specification: the address of the last registration, however long ago.\<close>

fun last_address :: "node_call list \<Rightarrow> string \<Rightarrow> string option \<Rightarrow> string option" where
  "last_address [] n acc = acc"
| "last_address (RegisterCall now name address # calls) n acc =
     last_address calls n (if name = n then Some address else acc)"
| "last_address (ClientCall name # calls) n acc = last_address calls n acc"

definition client_of :: "(string \<Rightarrow> (string, 'c) go_result) \<Rightarrow> string option \<Rightarrow> (string, 'c option) go_result" where
  "client_of dial address = (case address of None \<Rightarrow> Inr None | Some a \<Rightarrow> map_sum id Some (dial a))"

definition clients_fit :: "(string \<Rightarrow> (string, 'c) go_result) \<Rightarrow> (string, 'c nodeEntry) gomap \<Rightarrow> bool" where
  "clients_fit dial nodes \<longleftrightarrow>
     (\<forall>n e c. map_of nodes n = Some e \<longrightarrow> ne_Client e = Some c \<longrightarrow> dial (ne_Address e) = Inr c)"

lemma register_fit:
  assumes "clients_fit dial nodes"
  shows "clients_fit dial (RegisterNode now name address nodes)"
    and "map_option ne_Address (map_of (RegisterNode now name address nodes) n)
      = (if name = n then Some address else map_option ne_Address (map_of nodes n))"
  using assms
  by (auto simp: RegisterNode_def clients_fit_def Let_def update_conv' split: option.splits if_splits)

lemma client_fit:
  assumes "clients_fit dial nodes"
  shows "clients_fit dial (snd (GetNodeClient dial name nodes))"
    and "map_option ne_Address (map_of (snd (GetNodeClient dial name nodes)) n) = map_option ne_Address (map_of nodes n)"
    and "fst (GetNodeClient dial name nodes) = client_of dial (map_option ne_Address (map_of nodes name))"
  using assms
  by (auto simp: GetNodeClient_def clients_fit_def client_of_def update_conv' split: option.splits sum.splits)

lemma run_fit:
  assumes "clients_fit dial nodes"
  shows "clients_fit dial (registry_run dial calls nodes)
    \<and> map_option ne_Address (map_of (registry_run dial calls nodes) n)
      = last_address calls n (map_option ne_Address (map_of nodes n))"
  using assms
proof (induction dial calls nodes rule: registry_run.induct)
  case (2 dial now name address calls nodes)
  then show ?case using register_fit [OF 2(2)] by simp
next
  case (3 dial name calls nodes)
  then show ?case using client_fit [OF 3(2)] by simp
qed simp

text \<open>The node registry refines a map from node names to addresses: after any sequence of
  registrations and look-ups it gives the client of the address a node has registered last, also
  when it has changed its address, and no client for a node that never registered.  A registration
  counts for ever, its expiration is not looked at.\<close>

theorem registry_latest_address:
  "fst (GetNodeClient dial n (registry_run dial calls [])) = client_of dial (last_address calls n None)"
proof -
  have "clients_fit dial []" by (simp add: clients_fit_def)
  from run_fit [OF this, of calls n] client_fit(3) [of dial "registry_run dial calls []" n]
  show ?thesis by simp
qed

end
