(* ===== verification/S3_FS.thy ===== *)
theory S3_FS
  imports FS_Types
begin

text \<open>
  The file system service on S3 buckets (\<open>pkg/fs/service/s3\<close>): its configuration from a config map
  and secrets, the persistent volumes and claims of the buckets, its volumes, URIs and views.
\<close>

section \<open>Buckets\<close>

record BucketConfig =
  bc_Name :: string
  bc_Endpoint :: string
  bc_Secure :: bool
  bc_SecretName :: string
  bc_isDefault :: bool
  bc_accessKey :: string
  bc_secretKey :: string

definition fixEndpoint :: "BucketConfig \<Rightarrow> BucketConfig" where
  "fixEndpoint bc =
     (case url_Parse (bc_Endpoint bc) of
        None \<Rightarrow> bc
      | Some u \<Rightarrow>
          let bc = bc\<lparr>bc_Endpoint := u_Host u\<rparr>
          in if to_lower (u_Scheme u) = ''https'' then bc\<lparr>bc_Secure := True\<rparr> else bc)"

text \<open>\<open>sha1_6\<close>: the first six bytes of the SHA-1 digest, as lower case hexadecimal text.\<close>

definition bucket_hash :: "(string \<Rightarrow> string) \<Rightarrow> BucketConfig \<Rightarrow> string" where
  "bucket_hash sha1_6 bc = to_lower (sha1_6 (to_lower (bc_Name bc @ ''/'' @ bc_Endpoint bc)))"

definition PersistentVolumeName :: "(string \<Rightarrow> string) \<Rightarrow> string \<Rightarrow> BucketConfig \<Rightarrow> string" where
  "PersistentVolumeName sha1_6 prefix bc = prefix @ ''-'' @ bucket_hash sha1_6 bc"

definition Matches :: "BucketConfig \<Rightarrow> string \<Rightarrow> string \<Rightarrow> bool" where
  "Matches bc endpoint bucketName \<longleftrightarrow>
     to_lower endpoint = to_lower (bc_Endpoint bc) \<and> to_lower bucketName = to_lower (bc_Name bc)"

definition EndpointAsURL :: "BucketConfig \<Rightarrow> string" where
  "EndpointAsURL bc = (if bc_Secure bc then ''https://'' else ''http://'') @ bc_Endpoint bc"

section \<open>Storage configuration\<close>

datatype storage_error =
    StorageApi api_error
  | StorageYaml string
  | MissingKey string string
  | NoDefaultBucket

record s3_secret =
  sec_Data :: "(string, string) gomap"

text \<open>
  One entry of the config map; \<open>yaml\<close> decodes the exported fields of a bucket, \<open>secret\<close> reads a
  secret from the namespace of the config map.
\<close>

definition bucket_of_entry ::
  "(string \<Rightarrow> (string, BucketConfig) go_result) \<Rightarrow> (string \<Rightarrow> (api_error, s3_secret) go_result)
    \<Rightarrow> string \<Rightarrow> string \<Rightarrow> (storage_error, BucketConfig) go_result" where
  "bucket_of_entry yaml secret k v =
     (case yaml v of
        Inl e \<Rightarrow> Inl (StorageYaml e)
      | Inr bc \<Rightarrow>
          let bc = (fixEndpoint bc)\<lparr>bc_isDefault := (k = ''default'')\<rparr>
          in (case secret (bc_SecretName bc) of
                Inl e \<Rightarrow> Inl (StorageApi e)
              | Inr s \<Rightarrow>
                  (case map_of (sec_Data s) SecretKeyS3AccessKey of
                     None \<Rightarrow> Inl (MissingKey (bc_SecretName bc) SecretKeyS3AccessKey)
                   | Some access \<Rightarrow>
                       (case map_of (sec_Data s) SecretKeyS3SecretKey of
                          None \<Rightarrow> Inl (MissingKey (bc_SecretName bc) SecretKeyS3SecretKey)
                        | Some key \<Rightarrow> Inr (bc\<lparr>bc_accessKey := access, bc_secretKey := key\<rparr>)))))"

fun buckets_of ::
  "(string \<Rightarrow> (string, BucketConfig) go_result) \<Rightarrow> (string \<Rightarrow> (api_error, s3_secret) go_result)
    \<Rightarrow> (string \<times> string) list \<Rightarrow> BucketConfig list \<Rightarrow> (storage_error, BucketConfig list) go_result" where
  "buckets_of yaml secret [] acc = Inr acc"
| "buckets_of yaml secret ((k, v) # data) acc =
     (case bucket_of_entry yaml secret k v of
        Inl e \<Rightarrow> Inl e
      | Inr bc \<Rightarrow> buckets_of yaml secret data (acc @ [bc]))"

text \<open>The order of the buckets: the default bucket first, then by name.\<close>

definition bucket_less :: "BucketConfig \<Rightarrow> BucketConfig \<Rightarrow> bool" where
  "bucket_less a b \<longleftrightarrow>
     (if bc_isDefault a \<and> \<not> bc_isDefault b then True
      else if \<not> bc_isDefault a \<and> bc_isDefault b then False
      else bc_Name a < bc_Name b)"

text \<open>\<open>sort.Slice\<close> is a parameter: it is not stable.  The loop takes the entries in the order of \<open>data\<close>.\<close>

definition newStorageConfigFromConfigMap ::
  "((BucketConfig \<Rightarrow> BucketConfig \<Rightarrow> bool) \<Rightarrow> BucketConfig list \<Rightarrow> BucketConfig list)
    \<Rightarrow> (string \<Rightarrow> (string, BucketConfig) go_result) \<Rightarrow> (string \<Rightarrow> (api_error, s3_secret) go_result)
    \<Rightarrow> (string \<times> string) list \<Rightarrow> (storage_error, BucketConfig list) go_result" where
  "newStorageConfigFromConfigMap sort_slice yaml secret data =
     (case buckets_of yaml secret data [] of
        Inl e \<Rightarrow> Inl e
      | Inr buckets \<Rightarrow>
          if \<not> list_ex bc_isDefault buckets then Inl NoDefaultBucket
          else Inr (sort_slice bucket_less buckets))"

text \<open>The config map is looked up in the namespace, then in the namespace of the operator.\<close>

definition NewStorageConfig ::
  "((BucketConfig \<Rightarrow> BucketConfig \<Rightarrow> bool) \<Rightarrow> BucketConfig list \<Rightarrow> BucketConfig list)
    \<Rightarrow> (string \<Rightarrow> (string, BucketConfig) go_result) \<Rightarrow> (string \<Rightarrow> string \<Rightarrow> (api_error, s3_secret) go_result)
    \<Rightarrow> (string \<Rightarrow> string \<Rightarrow> config_map api_get) \<Rightarrow> string \<Rightarrow> (storage_error, BucketConfig list) go_result" where
  "NewStorageConfig sort_slice yaml secret get ns =
     (let load = (\<lambda>cm. newStorageConfigFromConfigMap sort_slice yaml (\<lambda>n. secret n (om_Namespace (cm_Meta cm))) (cm_Data cm))
      in case get ConfigMapS3Storage ns of
           ApiNotFound \<Rightarrow>
             (case get ConfigMapS3Storage NamespaceKoaljaSystem of
                ApiNotFound \<Rightarrow> Inl (StorageApi (ApiFailure ''not found''))
              | ApiError e \<Rightarrow> Inl (StorageApi e)
              | ApiFound cm \<Rightarrow> load cm)
         | ApiError e \<Rightarrow> Inl (StorageApi e)
         | ApiFound cm \<Rightarrow> load cm)"

section \<open>Volumes of the buckets\<close>

record s3_config =
  s3c_PodName :: string
  s3c_Namespace :: string
  s3c_StorageClassName :: string

record s3FS =
  s3_Config :: s3_config
  s3_statefulSetName :: string
  s3_owner :: workload
  s3_Buckets :: "BucketConfig list"

record pvConfig =
  pvc_cfg_Name :: string
  pvc_cfg_Namespace :: string
  pvc_cfg_StorageClassName :: string
  pvc_cfg_Bucket :: BucketConfig

definition createPVLabels :: "string \<Rightarrow> (string, string) gomap" where
  "createPVLabels name = [(''name'', name), (''app'', ''koalja-s3-fs-storage-volume'')]"

definition createPVCapacity :: string where "createPVCapacity = ''8P''"

definition bucket_volume :: "pvConfig \<Rightarrow> persistent_volume" where
  "bucket_volume cfg =
     \<lparr>pv_Meta = \<lparr>om_Name = pvc_cfg_Name cfg, om_Namespace = [], om_Labels = createPVLabels (pvc_cfg_Name cfg),
        om_Annotations = [], om_Owners = []\<rparr>,
      pv_Spec = \<lparr>pv_AccessModes = [''ReadWriteMany''],
        pv_Source = FlexVolume (FlexVolumeS3VendorName @ ''/'' @ FlexVolumeS3DriverName)
          (bc_SecretName (pvc_cfg_Bucket cfg)) (pvc_cfg_Namespace cfg)
          [(FlexVolumeOptionS3BucketKey, bc_Name (pvc_cfg_Bucket cfg)),
           (FlexVolumeOptionS3EndpointKey, EndpointAsURL (pvc_cfg_Bucket cfg))],
        pv_Capacity = createPVCapacity, pv_StorageClassName = pvc_cfg_StorageClassName cfg\<rparr>\<rparr>"

definition createOrUpdatePersistentVolume :: "'w fs_env \<Rightarrow> pvConfig \<Rightarrow> 'w \<Rightarrow> api_error error_only \<times> 'w" where
  "createOrUpdatePersistentVolume env cfg w =
     EnsurePersistentVolume (fe_PersistentVolumes env) (bucket_volume cfg) w"

definition bucket_claim :: "pvConfig \<Rightarrow> pv_claim" where
  "bucket_claim cfg =
     \<lparr>pvc_Meta = \<lparr>om_Name = pvc_cfg_Name cfg, om_Namespace = pvc_cfg_Namespace cfg,
        om_Labels = createPVLabels (pvc_cfg_Name cfg), om_Annotations = [], om_Owners = []\<rparr>,
      pvc_Spec = \<lparr>pvc_AccessModes = [''ReadWriteMany''], pvc_VolumeName = pvc_cfg_Name cfg,
        pvc_StorageClassName = Some (pvc_cfg_StorageClassName cfg), pvc_Requests = createPVCapacity\<rparr>\<rparr>"

definition createOrUpdatePersistentVolumeClaim :: "'w fs_env \<Rightarrow> pvConfig \<Rightarrow> 'w \<Rightarrow> api_error error_only \<times> 'w" where
  "createOrUpdatePersistentVolumeClaim env cfg w =
     EnsurePersistentVolumeClaim (fe_PersistentVolumeClaims env) (bucket_claim cfg) w"

section \<open>The service\<close>

definition s3_NewFileSystem ::
  "'w fs_env \<Rightarrow> s3_config \<Rightarrow> 'w \<Rightarrow> ((fs_error, s3FS) go_result \<times> 'w) option" where
  "s3_NewFileSystem env cfg w =
     (case get_own_pod env (s3c_PodName cfg) (s3c_Namespace cfg) w of
        None \<Rightarrow> None
      | Some (Inl e, w) \<Rightarrow> Some (Inl (FS_Retry e), w)
      | Some (Inr pod, w) \<Rightarrow>
          if pod_owner pod = [] then Some (Inl (FS_Message ''No StatefulSet owner found in my pod''), w)
          else
            (case get_own_set env (pod_owner pod) (s3c_Namespace cfg) w of
               None \<Rightarrow> None
             | Some (Inl e, w) \<Rightarrow> Some (Inl (FS_Retry e), w)
             | Some (Inr sfs, w) \<Rightarrow>
                 (case ensure_storage_class env (fs_storage_class (s3c_StorageClassName cfg) ''/s3-fs'') w of
                    None \<Rightarrow> None
                  | Some (Some e, w) \<Rightarrow> Some (Inl (FS_Retry e), w)
                  | Some (None, w) \<Rightarrow>
                      Some (Inr \<lparr>s3_Config = cfg, s3_statefulSetName = pod_owner pod, s3_owner = sfs,
                        s3_Buckets = []\<rparr>, w))))"

text \<open>
  One round of \<open>Run\<close>, with the call that loads the configuration (\<open>NewStorageConfig\<close> below the
  retries): a configuration that was loaded replaces the current one, then every bucket gets its
  volume; an error of one bucket does not stop the others.  The result has the delay.
\<close>

fun ensure_volumes ::
  "(string \<Rightarrow> string) \<Rightarrow> 'w fs_env \<Rightarrow> s3FS \<Rightarrow> BucketConfig list \<Rightarrow> 'w \<Rightarrow> 'w" where
  "ensure_volumes sha1_6 env fs [] w = w"
| "ensure_volumes sha1_6 env fs (b # bs) w =
     ensure_volumes sha1_6 env fs bs
       (snd (createOrUpdatePersistentVolume env
          \<lparr>pvc_cfg_Name = PersistentVolumeName sha1_6 (s3_statefulSetName fs) b,
           pvc_cfg_Namespace = s3c_Namespace (s3_Config fs),
           pvc_cfg_StorageClassName = s3c_StorageClassName (s3_Config fs), pvc_cfg_Bucket = b\<rparr> w))"

definition s3_round ::
  "(string \<Rightarrow> string) \<Rightarrow> 'w fs_env \<Rightarrow> (int \<Rightarrow> 'w \<Rightarrow> (go_error, BucketConfig list) go_result \<times> 'w) \<Rightarrow> s3FS \<Rightarrow> 'w
    \<Rightarrow> (int \<times> s3FS \<times> 'w) option" where
  "s3_round sha1_6 env load fs w =
     (case retry_get (fe_Retry env) [Timeout TimeoutAPIServer] [] load w of
        None \<Rightarrow> None
      | Some (loaded, w) \<Rightarrow>
          let (delay, fs) =
            (case loaded of
               Inl e \<Rightarrow> (5 * one_second, fs)
             | Inr buckets \<Rightarrow> (if length buckets > 0 then 60 * one_second else 5 * one_second, fs\<lparr>s3_Buckets := buckets\<rparr>))
          in Some (delay, fs, ensure_volumes sha1_6 env fs (s3_Buckets fs) w))"

definition queryDirKey :: string where "queryDirKey = ''dir''"
definition queryUIDKey :: string where "queryUIDKey = ''uid''"

definition ensure_claim ::
  "(string \<Rightarrow> string) \<Rightarrow> 'w fs_env \<Rightarrow> s3FS \<Rightarrow> BucketConfig \<Rightarrow> string \<Rightarrow> 'w \<Rightarrow> api_error error_only \<times> 'w" where
  "ensure_claim sha1_6 env fs bucket namespace w =
     createOrUpdatePersistentVolumeClaim env
       \<lparr>pvc_cfg_Name = PersistentVolumeName sha1_6 (s3_statefulSetName fs) bucket, pvc_cfg_Namespace = namespace,
        pvc_cfg_StorageClassName = s3c_StorageClassName (s3_Config fs), pvc_cfg_Bucket = bucket\<rparr> w"

definition s3_CreateVolumeForWrite ::
  "(string \<Rightarrow> string) \<Rightarrow> 'w fs_env \<Rightarrow> s3FS \<Rightarrow> string \<Rightarrow> 'w \<Rightarrow> (fs_error, volume_response) go_result \<times> 'w" where
  "s3_CreateVolumeForWrite sha1_6 env fs namespace w =
     (case s3_Buckets fs of
        [] \<Rightarrow> (Inl (FS_Message ''No buckets configured''), w)
      | bucket # _ \<Rightarrow>
          (case ensure_claim sha1_6 env fs bucket namespace w of
             (Some e, w) \<Rightarrow> (Inl (FS_Api e), w)
           | (None, w) \<Rightarrow>
               (case fe_NewID env w of
                  (uid, w) \<Rightarrow>
                    (Inr (empty_response\<lparr>
                       vr_VolumeClaimName := PersistentVolumeName sha1_6 (s3_statefulSetName fs) bucket,
                       vr_SubPath := to_lower uid\<rparr>), w))))"

definition s3_CreateFileURI ::
  "(string \<Rightarrow> string) \<Rightarrow> s3FS \<Rightarrow> file_uri_request \<Rightarrow> (fs_error, string) go_result" where
  "s3_CreateFileURI sha1_6 fs req =
     (if fu_Scheme req = [] then Inl (FS_Message ''Scheme cannot be empty'')
      else if fu_LocalPath req = [] then Inl (FS_Message ''LocalPath cannot be empty'')
      else if fu_VolumeClaimName req = [] then Inl (FS_Message ''VolumeClaimName cannot be empty'')
      else if fu_SubPath req = [] then Inl (FS_Message ''SubPath cannot be empty'')
      else case find (\<lambda>bc. PersistentVolumeName sha1_6 (s3_statefulSetName fs) bc = fu_VolumeClaimName req) (s3_Buckets fs) of
             None \<Rightarrow> Inl (FS_Message ''Bucket cannot be found for given VolumeClaimName'')
           | Some bucket \<Rightarrow>
               Inr (url_String \<lparr>u_Scheme = fu_Scheme req, u_Opaque = [], u_Host = bc_Endpoint bucket,
                 u_Path = bc_Name bucket,
                 u_RawQuery = values_Encode [(queryDirKey, FormatBool (fu_IsDir req)), (queryUIDKey, fu_SubPath req)],
                 u_Fragment = fu_LocalPath req\<rparr>))"

definition s3_CreateVolumeForRead ::
  "(string \<Rightarrow> string) \<Rightarrow> 'w fs_env \<Rightarrow> s3FS \<Rightarrow> string \<Rightarrow> string \<Rightarrow> 'w
    \<Rightarrow> (fs_error, volume_response) go_result \<times> 'w" where
  "s3_CreateVolumeForRead sha1_6 env fs reqURI namespace w =
     (case url_Parse reqURI of
        None \<Rightarrow> (Inl (FS_Message ''Failed to parse URI''), w)
      | Some uri \<Rightarrow>
          let q = parse_query (u_RawQuery uri) in
          (case find (\<lambda>bc. Matches bc (u_Host uri) (TrimPrefix (u_Path uri) ''/'')) (s3_Buckets fs) of
             None \<Rightarrow> (Inl (FS_Message ''Bucket cannot be found for given endpoint & name''), w)
           | Some bucket \<Rightarrow>
               (case ensure_claim sha1_6 env fs bucket namespace w of
                  (Some e, w) \<Rightarrow> (Inl (FS_Api e), w)
                | (None, w) \<Rightarrow>
                    (Inr (empty_response\<lparr>
                       vr_VolumeClaimName := PersistentVolumeName sha1_6 (s3_statefulSetName fs) bucket,
                       vr_SubPath := values_Get q queryUIDKey, vr_LocalPath := u_Fragment uri,
                       vr_IsDir := ParseBool (values_Get q queryDirKey)\<rparr>), w))))"

text \<open>
  The object that holds a file: \<open>read\<close> is the client of the store, with endpoint, keys and whether the
  connection is secure; \<open>detect\<close> finds the type of the content.
\<close>

definition s3_CreateFileView ::
  "(string \<Rightarrow> string \<Rightarrow> string \<Rightarrow> bool \<Rightarrow> string \<Rightarrow> string \<Rightarrow> (string, nat list) go_result) \<Rightarrow> (nat list \<Rightarrow> string)
    \<Rightarrow> s3FS \<Rightarrow> string \<Rightarrow> (fs_error, nat list \<times> string) go_result" where
  "s3_CreateFileView read detect fs reqURI =
     (case url_Parse reqURI of
        None \<Rightarrow> Inl (FS_Message ''Failed to parse URI'')
      | Some uri \<Rightarrow>
          let q = parse_query (u_RawQuery uri) in
          (case find (\<lambda>bc. Matches bc (u_Host uri) (TrimPrefix (u_Path uri) ''/'')) (s3_Buckets fs) of
             None \<Rightarrow> Inl (FS_Message ''Bucket cannot be found for given endpoint & name'')
           | Some bucket \<Rightarrow>
               (case read (u_Host uri) (bc_accessKey bucket) (bc_secretKey bucket) (bc_Secure bucket) (bc_Name bucket)
                       (path_Join [values_Get q queryUIDKey, u_Fragment uri]) of
                  Inl e \<Rightarrow> Inl (FS_Message e)
                | Inr content \<Rightarrow> Inr (content, detect content))))"

end
