(* ===== verification/File_Store.thy ===== *)
theory File_Store
  imports Local_FS S3_FS
begin

text \<open>
  What the executor relies on in a file system service, as an interface, and that both services
  provide it: the URI of a file written to a volume leads back to that volume and file.
\<close>

section \<open>The interface\<close>

text \<open>The request for the URI of a file in the volume of a response, as the executor makes it.\<close>

definition uri_request :: "string \<Rightarrow> volume_response \<Rightarrow> string \<Rightarrow> bool \<Rightarrow> file_uri_request" where
  "uri_request scheme resp localPath isDir =
     \<lparr>fu_Scheme = scheme, fu_VolumeName = vr_VolumeName resp, fu_VolumeClaimName = vr_VolumeClaimName resp,
      fu_VolumePath = vr_VolumePath resp, fu_SubPath = vr_SubPath resp, fu_NodeName = vr_NodeName resp,
      fu_LocalPath = localPath, fu_IsDir = isDir\<rparr>"

locale file_store =
  fixes wrote :: "volume_response \<Rightarrow> bool"
    and create_uri :: "file_uri_request \<Rightarrow> 'w \<Rightarrow> (fs_error, string) go_result"
    and read_volume :: "string \<Rightarrow> string \<Rightarrow> 'w \<Rightarrow> (fs_error, volume_response) go_result \<times> 'w"
  assumes uri_leads_back: "wrote resp \<Longrightarrow> valid_scheme s \<Longrightarrow> p \<noteq> [] \<Longrightarrow>
      \<exists>uri. create_uri (uri_request s resp p d) w = Inr uri
        \<and> (\<forall>ns w1 r w2. read_volume uri ns w1 = (Inr r, w2) \<longrightarrow> r = resp\<lparr>vr_LocalPath := p, vr_IsDir := d\<rparr>)"
    and by_claim_or_path: "wrote resp \<Longrightarrow> vr_VolumeName resp = []
        \<and> (vr_VolumeClaimName resp \<noteq> [] \<or> vr_VolumePath resp \<noteq> [])"
begin

lemma created_uri_read:
  assumes "wrote resp" and "valid_scheme s" and "p \<noteq> []"
    and "create_uri (uri_request s resp p d) w = Inr uri" and "read_volume uri ns w1 = (Inr r, w2)"
  shows "r = resp\<lparr>vr_LocalPath := p, vr_IsDir := d\<rparr>"
  using uri_leads_back [OF assms(1-3), of d w] assms(4,5) by auto

lemma uris_differ:
  assumes "wrote resp" and "wrote resp'" and "valid_scheme s" and "p \<noteq> []" and "p' \<noteq> []"
    and "create_uri (uri_request s resp p d) w = Inr uri" and "create_uri (uri_request s resp' p' d') w' = Inr uri"
    and "read_volume uri ns w1 = (Inr r, w2)"
  shows "resp\<lparr>vr_LocalPath := [], vr_IsDir := False\<rparr> = resp'\<lparr>vr_LocalPath := [], vr_IsDir := False\<rparr> \<and> p = p' \<and> d = d'"
proof -
  have "resp\<lparr>vr_LocalPath := p, vr_IsDir := d\<rparr> = resp'\<lparr>vr_LocalPath := p', vr_IsDir := d'\<rparr>"
    using created_uri_read [OF assms(1,3,4,6,8)] created_uri_read [OF assms(2,3,5,7,8)] by simp
  then show ?thesis by (cases resp; cases resp') simp
qed

end

section \<open>Local directories\<close>

definition clean_prefix :: "string \<Rightarrow> bool" where
  "clean_prefix s \<longleftrightarrow> is_rooted s \<and> path_Clean s = s \<and> s \<noteq> ''/''"

lemma clean_prefix_parts:
  assumes "clean_prefix s"
  obtains ps where "s = CHR ''/'' # join_with ''/'' ps" and "ps \<noteq> []" and "\<forall>p \<in> set ps. plain_part p"
proof -
  obtain ps where "path_Clean s = CHR ''/'' # join_with ''/'' ps" "\<forall>p \<in> set ps. plain_part p"
    using Clean_rooted assms by (metis clean_prefix_def)
  then show ?thesis using that [of ps] assms by (cases "ps = []") (auto simp: clean_prefix_def)
qed

lemma clean_prefix_join:
  assumes "clean_prefix s" and "plain_part uid"
  shows "path_Join [s, uid] = s @ CHR ''/'' # uid"
proof -
  obtain ps where ps: "s = CHR ''/'' # join_with ''/'' ps" "ps \<noteq> []" "\<forall>p \<in> set ps. plain_part p"
    using clean_prefix_parts [OF assms(1)] by blast
  then show ?thesis using Join_plain [OF ps(2,3), of "[uid]"] assms(2) join_with_append [OF ps(2), of "[uid]"] by simp
qed

definition local_wrote :: "localFS \<Rightarrow> volume_response \<Rightarrow> bool" where
  "local_wrote lfs resp \<longleftrightarrow>
     clean_prefix (lc_LocalPathPrefix (lf_Config lfs))
     \<and> (\<exists>node uid. plain_host node \<and> plain_part uid
          \<and> resp = empty_response\<lparr>vr_VolumePath := path_Join [lc_LocalPathPrefix (lf_Config lfs), uid],
              vr_NodeName := node, vr_DeleteAfterUse := True\<rparr>)"

lemma dir_query: "values_Get (parse_query (values_Encode [(k, FormatBool d)])) k = FormatBool d"
  using parse_query_one [of k "FormatBool d"] by (simp add: values_Encode_def values_Get_def)

lemma parse_formatted [simp]: "ParseBool (FormatBool d) = d"
  by (simp add: ParseBool_def FormatBool_def)

lemma join_with_no_char: "c \<notin> set sep \<Longrightarrow> \<forall>s \<in> set ss. c \<notin> set s \<Longrightarrow> c \<notin> set (join_with sep ss)"
  by (induction sep ss rule: join_with.induct) auto

lemma encoded_no_hash: "CHR ''#'' \<notin> set (values_Encode vs)"
  unfolding values_Encode_def
  by (rule join_with_no_char) (auto simp: escape_no_mark)

lemma local_uri:
  assumes "local_wrote lfs resp" and "valid_scheme s" and "p \<noteq> []"
  shows "\<exists>uri. local_CreateFileURI env (uri_request s resp p d) w = Inr uri
    \<and> local_CreateVolumeForRead lfs uri = Inr (resp\<lparr>vr_LocalPath := p, vr_IsDir := d\<rparr>)"
proof -
  obtain node uid where n: "plain_host node" "plain_part uid" and c: "clean_prefix (lc_LocalPathPrefix (lf_Config lfs))"
    and resp: "resp = empty_response\<lparr>vr_VolumePath := path_Join [lc_LocalPathPrefix (lf_Config lfs), uid],
              vr_NodeName := node, vr_DeleteAfterUse := True\<rparr>"
    using assms(1) by (auto simp: local_wrote_def)
  let ?q = "values_Encode [(dirKey, FormatBool d)]"
  let ?u = "\<lparr>u_Scheme = s, u_Opaque = [], u_Host = node, u_Path = uid, u_RawQuery = ?q, u_Fragment = p\<rparr>"
  have path: "path_Join [lc_LocalPathPrefix (lf_Config lfs), uid] = lc_LocalPathPrefix (lf_Config lfs) @ CHR ''/'' # uid"
    by (rule clean_prefix_join [OF c n(2)])
  have uid: "uid \<noteq> []" "take 1 uid \<noteq> ''/''" using n(2) by (cases uid; auto simp: plain_part_def)+
  have "local_CreateFileURI env (uri_request s resp p d) w = Inr (url_String ?u)"
    using assms(2,3) n Base_last [OF n(2)] path
    by (auto simp: local_CreateFileURI_def local_uid_def uri_request_def resp empty_response_def plain_host_def
          dest: no_mark_in_scheme)
  moreover have "local_CreateVolumeForRead lfs (url_String ?u) = Inr (resp\<lparr>vr_LocalPath := p, vr_IsDir := d\<rparr>)"
    using url_roundtrip [OF assms(2) n(1) uid encoded_no_hash]
    by (simp add: local_CreateVolumeForRead_def resp TrimPrefix_def dir_query)
  ultimately show ?thesis by blast
qed

interpretation local_store: file_store "local_wrote lfs" "local_CreateFileURI env"
  "\<lambda>uri ns w. (local_CreateVolumeForRead lfs uri, w)" for lfs and env :: "'w fs_env"
proof
  fix resp s p d and w :: 'w
  assume "local_wrote lfs resp" "valid_scheme s" "(p :: string) \<noteq> []"
  from local_uri [OF this, of env d w]
  show "\<exists>uri. local_CreateFileURI env (uri_request s resp p d) w = Inr uri
        \<and> (\<forall>ns w1 r w2. (local_CreateVolumeForRead lfs uri, w1) = (Inr r, w2) \<longrightarrow> r = resp\<lparr>vr_LocalPath := p, vr_IsDir := d\<rparr>)"
    by auto
next
  fix resp
  assume "local_wrote lfs resp"
  then show "vr_VolumeName resp = [] \<and> (vr_VolumeClaimName resp \<noteq> [] \<or> vr_VolumePath resp \<noteq> [])"
    by (auto simp: local_wrote_def empty_response_def clean_prefix_join)
qed

text \<open>The service answers a request for a volume with such a volume.\<close>

lemma local_answer_wrote:
  assumes "local_CreateVolumeForWrite env lfs n w = Some (Inr resp, w')"
    and "clean_prefix (lc_LocalPathPrefix (lf_Config lfs))"
    and "\<And>w nodes. fe_ListNodes env w = Inr nodes \<Longrightarrow> list_all plain_host nodes"
    and "\<And>n w. 0 < n \<Longrightarrow> fst (fe_Intn env n w) < n"
    and "\<And>w. plain_part (to_lower (fst (fe_NewID env w)))"
  shows "local_wrote lfs resp"
proof -
  obtain nodes where nodes: "fe_ListNodes env w = Inr nodes"
    using assms(1) by (cases "fe_ListNodes env w") (auto simp: local_CreateVolumeForWrite_def)
  obtain node w1 where node: "plain_host node"
    and ans: "local_CreateVolumeForWrite env lfs n w = (case fe_NewID env w1 of (uid, w) \<Rightarrow>
        Some (Inr (empty_response\<lparr>vr_VolumePath := path_Join [lc_LocalPathPrefix (lf_Config lfs), to_lower uid],
          vr_NodeName := node, vr_DeleteAfterUse := True\<rparr>), w))"
  proof (cases "n = []")
    case True
    then have ne: "nodes \<noteq> []" using assms(1) nodes by (auto simp: local_CreateVolumeForWrite_def)
    obtain i w1 where i: "fe_Intn env (length nodes) w = (i, w1)" by (rule prod.exhaust)
    have "i < length nodes" using assms(4) [of "length nodes" w] ne i by simp
    then have "plain_host (nodes ! i)" using assms(3) [OF nodes] by (simp add: list_all_length)
    then show ?thesis using that [of "nodes ! i" w1] True ne i nodes by (simp add: local_CreateVolumeForWrite_def)
  next
    case False
    then have "n \<in> set nodes" using assms(1) nodes by (auto simp: local_CreateVolumeForWrite_def list_ex_iff split: if_splits)
    moreover from this have "plain_host n" using assms(3) [OF nodes] by (simp add: list_all_iff)
    ultimately show ?thesis using that [of n w] False nodes by (simp add: local_CreateVolumeForWrite_def list_ex_iff)
  qed
  obtain uid w2 where uid: "fe_NewID env w1 = (uid, w2)" by (rule prod.exhaust)
  have "plain_part (to_lower uid)" using assms(5) [of w1] uid by simp
  then show ?thesis using ans assms(1,2) uid node by (auto simp: local_wrote_def)
qed

section \<open>S3 buckets\<close>

definition plain_bucket :: "BucketConfig \<Rightarrow> bool" where
  "plain_bucket b \<longleftrightarrow> plain_host (bc_Endpoint b) \<and> bc_Name b \<noteq> [] \<and> take 1 (bc_Name b) \<noteq> ''/''"

definition s3_wrote :: "(string \<Rightarrow> string) \<Rightarrow> s3FS \<Rightarrow> volume_response \<Rightarrow> bool" where
  "s3_wrote sha1_6 fs resp \<longleftrightarrow>
     list_all plain_bucket (s3_Buckets fs)
     \<and> (\<exists>b uid. b \<in> set (s3_Buckets fs) \<and> uid \<noteq> []
          \<and> resp = empty_response\<lparr>vr_VolumeClaimName := PersistentVolumeName sha1_6 (s3_statefulSetName fs) b,
              vr_SubPath := uid\<rparr>)"

lemma claim_name_nonempty [simp]: "PersistentVolumeName sha1_6 prefix b \<noteq> []"
  by (simp add: PersistentVolumeName_def)

text \<open>The name of a volume does not depend on the case of endpoint and name.\<close>

lemma matches_same_volume:
  "Matches b' (bc_Endpoint b) (bc_Name b) \<Longrightarrow>
     PersistentVolumeName sha1_6 prefix b' = PersistentVolumeName sha1_6 prefix b"
  by (simp add: Matches_def PersistentVolumeName_def bucket_hash_def to_lower_append to_lower_def)

lemma uid_query:
  "values_Get (parse_query (values_Encode [(queryDirKey, FormatBool d), (queryUIDKey, uid)])) queryDirKey = FormatBool d"
  "values_Get (parse_query (values_Encode [(queryDirKey, FormatBool d), (queryUIDKey, uid)])) queryUIDKey = uid"
proof -
  have "sort_key fst [(queryDirKey, FormatBool d), (queryUIDKey, uid)] = [(queryDirKey, FormatBool d), (queryUIDKey, uid)]"
    by (simp add: queryDirKey_def queryUIDKey_def)
  then have "parse_query (values_Encode [(queryDirKey, FormatBool d), (queryUIDKey, uid)])
      = [(queryDirKey, FormatBool d), (queryUIDKey, uid)]"
    using parse_query_two [of queryDirKey "FormatBool d" queryUIDKey uid] by (simp add: values_Encode_def)
  then show
    "values_Get (parse_query (values_Encode [(queryDirKey, FormatBool d), (queryUIDKey, uid)])) queryDirKey = FormatBool d"
    "values_Get (parse_query (values_Encode [(queryDirKey, FormatBool d), (queryUIDKey, uid)])) queryUIDKey = uid"
    by (simp_all add: values_Get_def queryDirKey_def queryUIDKey_def)
qed

lemma s3_uri:
  assumes "s3_wrote sha1_6 fs resp" and "valid_scheme s" and "p \<noteq> []"
  shows "\<exists>uri. s3_CreateFileURI sha1_6 fs (uri_request s resp p d) = Inr uri
    \<and> (\<forall>ns w r w'. s3_CreateVolumeForRead sha1_6 env fs uri ns w = (Inr r, w')
        \<longrightarrow> r = resp\<lparr>vr_LocalPath := p, vr_IsDir := d\<rparr>)"
proof -
  let ?name = "PersistentVolumeName sha1_6 (s3_statefulSetName fs)"
  obtain b uid where b: "b \<in> set (s3_Buckets fs)" "uid \<noteq> []" and pl: "list_all plain_bucket (s3_Buckets fs)"
    and resp: "resp = empty_response\<lparr>vr_VolumeClaimName := ?name b, vr_SubPath := uid\<rparr>"
    using assms(1) by (auto simp: s3_wrote_def)
  obtain b1 where f1: "find (\<lambda>bc. ?name bc = ?name b) (s3_Buckets fs) = Some b1"
    using b(1) by (metis (mono_tags, lifting) find_None_all not_None_eq)
  then have b1: "b1 \<in> set (s3_Buckets fs)" "?name b1 = ?name b" by (auto dest: find_SomeD)
  then have pb: "plain_host (bc_Endpoint b1)" "bc_Name b1 \<noteq> []" "take 1 (bc_Name b1) \<noteq> ''/''"
    using pl by (auto simp: list_all_iff plain_bucket_def)
  obtain b2 where f2: "find (\<lambda>bc. Matches bc (bc_Endpoint b1) (bc_Name b1)) (s3_Buckets fs) = Some b2"
    using b1(1) by (metis (mono_tags, lifting) Matches_def find_None_all not_None_eq)
  then have b2: "?name b2 = ?name b"
    using matches_same_volume [of b2 b1 sha1_6 "s3_statefulSetName fs"] b1(2) by (auto dest: find_SomeD)
  let ?q = "values_Encode [(queryDirKey, FormatBool d), (queryUIDKey, uid)]"
  let ?u = "\<lparr>u_Scheme = s, u_Opaque = [], u_Host = bc_Endpoint b1, u_Path = bc_Name b1, u_RawQuery = ?q, u_Fragment = p\<rparr>"
  have "s3_CreateFileURI sha1_6 fs (uri_request s resp p d) = Inr (url_String ?u)"
    using no_mark_in_scheme [OF assms(2)] assms(3) b(2) f1
    by (simp add: s3_CreateFileURI_def uri_request_def resp empty_response_def)
  moreover have "r = resp\<lparr>vr_LocalPath := p, vr_IsDir := d\<rparr>"
    if "s3_CreateVolumeForRead sha1_6 env fs (url_String ?u) ns w = (Inr r, w')" for ns w r w'
    using that url_roundtrip [OF assms(2) pb encoded_no_hash] f2 b2
    by (auto simp: s3_CreateVolumeForRead_def resp TrimPrefix_def uid_query Let_def split: prod.splits option.splits)
  ultimately show ?thesis by blast
qed

interpretation s3_store: file_store "s3_wrote sha1_6 fs" "\<lambda>req w. s3_CreateFileURI sha1_6 fs req"
  "s3_CreateVolumeForRead sha1_6 env fs" for sha1_6 fs and env :: "'w fs_env"
proof
  fix resp s p d and w :: 'w
  assume "s3_wrote sha1_6 fs resp" "valid_scheme s" "(p :: string) \<noteq> []"
  from s3_uri [OF this, of d env]
  show "\<exists>uri. s3_CreateFileURI sha1_6 fs (uri_request s resp p d) = Inr uri
        \<and> (\<forall>ns w1 r w2. s3_CreateVolumeForRead sha1_6 env fs uri ns w1 = (Inr r, w2)
            \<longrightarrow> r = resp\<lparr>vr_LocalPath := p, vr_IsDir := d\<rparr>)" .
next
  fix resp
  assume "s3_wrote sha1_6 fs resp"
  then show "vr_VolumeName resp = [] \<and> (vr_VolumeClaimName resp \<noteq> [] \<or> vr_VolumePath resp \<noteq> [])"
    by (auto simp: s3_wrote_def empty_response_def)
qed

lemma s3_answer_wrote:
  assumes "s3_CreateVolumeForWrite sha1_6 env fs ns w = (Inr resp, w')"
    and "list_all plain_bucket (s3_Buckets fs)" and "\<And>w. fst (fe_NewID env w) \<noteq> []"
  shows "s3_wrote sha1_6 fs resp"
proof -
  obtain b bs where bs: "s3_Buckets fs = b # bs"
    using assms(1) by (cases "s3_Buckets fs") (auto simp: s3_CreateVolumeForWrite_def)
  obtain w1 uid w2 where uid: "fe_NewID env w1 = (uid, w2)"
    and resp: "resp = empty_response\<lparr>vr_VolumeClaimName := PersistentVolumeName sha1_6 (s3_statefulSetName fs) b,
              vr_SubPath := to_lower uid\<rparr>"
    using assms(1) by (auto simp: s3_CreateVolumeForWrite_def bs split: prod.splits option.splits)
  have "to_lower uid \<noteq> []" using assms(3) [of w1] uid by (simp add: to_lower_def)
  then show ?thesis using assms(2) by (auto simp: s3_wrote_def bs resp)
qed

section \<open>The default bucket\<close>

text \<open>What \<open>sort.Slice\<close> promises for a function that compares.\<close>

definition sorts :: "((BucketConfig \<Rightarrow> BucketConfig \<Rightarrow> bool) \<Rightarrow> BucketConfig list \<Rightarrow> BucketConfig list) \<Rightarrow> bool" where
  "sorts sort_slice \<longleftrightarrow>
     (\<forall>bs. mset (sort_slice bucket_less bs) = mset bs
        \<and> sorted_wrt (\<lambda>a b. \<not> bucket_less b a) (sort_slice bucket_less bs))"

lemma entry_default:
  "bucket_of_entry yaml secret k v = Inr b \<Longrightarrow> bc_isDefault b \<longleftrightarrow> k = ''default''"
  by (auto simp: bucket_of_entry_def Let_def split: sum.splits option.splits)

lemma buckets_of_Inr:
  "buckets_of yaml secret data acc = Inr bs \<Longrightarrow>
     \<exists>new. bs = acc @ new \<and> list_all2 (\<lambda>(k, v) b. bucket_of_entry yaml secret k v = Inr b) data new"
proof (induction data arbitrary: acc)
  case (Cons kv data)
  obtain k v where kv: "kv = (k, v)" by (rule prod.exhaust)
  obtain b where b: "bucket_of_entry yaml secret k v = Inr b" using Cons.prems kv by (auto split: sum.splits)
  then obtain new where "bs = (acc @ [b]) @ new" "list_all2 (\<lambda>(k, v) b. bucket_of_entry yaml secret k v = Inr b) data new"
    using Cons.IH [of "acc @ [b]"] Cons.prems kv by auto
  then show ?case using b kv by (intro exI [of _ "b # new"]) simp
qed simp

lemma default_first:
  assumes "sorted_wrt (\<lambda>a b. \<not> bucket_less b a) bs" and "\<exists>b \<in> set bs. bc_isDefault b"
  shows "bs \<noteq> [] \<and> bc_isDefault (hd bs)"
proof (cases bs)
  case (Cons a list)
  obtain x where x: "x \<in> set bs" "bc_isDefault x" using assms(2) by blast
  show ?thesis
  proof (rule ccontr)
    assume "\<not> ?thesis"
    then have a: "\<not> bc_isDefault a" by (simp add: Cons)
    then have "x \<in> set list" using x by (auto simp: Cons)
    then have "\<not> bucket_less x a" using assms(1) by (simp add: Cons)
    then show False using x(2) a by (simp add: bucket_less_def)
  qed
qed (use assms(2) in simp)

text \<open>Whatever the order in which the loop takes the entries of the config map, and however the
  sort orders equal buckets, a configuration that loads has the bucket of the entry named default in
  front, and files are written to the volume of that bucket.\<close>

theorem default_bucket_is_written:
  assumes "sorts sort_slice" and "newStorageConfigFromConfigMap sort_slice yaml secret data = Inr buckets"
  shows "\<exists>v. (''default'', v) \<in> set data \<and> bucket_of_entry yaml secret ''default'' v = Inr (hd buckets)
    \<and> (\<forall>fs env ns w resp w'. s3_CreateVolumeForWrite sha1_6 env (fs\<lparr>s3_Buckets := buckets\<rparr>) ns w = (Inr resp, w')
        \<longrightarrow> vr_VolumeClaimName resp = PersistentVolumeName sha1_6 (s3_statefulSetName fs) (hd buckets))"
proof -
  obtain bs where bs: "buckets_of yaml secret data [] = Inr bs" "list_ex bc_isDefault bs" "buckets = sort_slice bucket_less bs"
    using assms(2) by (auto simp: newStorageConfigFromConfigMap_def split: sum.splits if_splits)
  have l: "list_all2 (\<lambda>(k, v) b. bucket_of_entry yaml secret k v = Inr b) data bs" using buckets_of_Inr [OF bs(1)] by simp
  have "mset buckets = mset bs \<and> sorted_wrt (\<lambda>a b. \<not> bucket_less b a) buckets"
    using assms(1) unfolding sorts_def bs(3) by (rule spec)
  then have m: "set buckets = set bs" "sorted_wrt (\<lambda>a b. \<not> bucket_less b a) buckets"
    using mset_eq_setD by metis+
  have h: "buckets \<noteq> []" "bc_isDefault (hd buckets)"
    using default_first [OF m(2)] bs(2) m(1) by (auto simp: list_ex_iff)
  then have "hd buckets \<in> set bs" using m(1) hd_in_set by metis
  then obtain i where i: "i < length bs" "bs ! i = hd buckets" by (metis in_set_conv_nth)
  obtain k v where kv: "data ! i = (k, v)" by (rule prod.exhaust)
  have e: "bucket_of_entry yaml secret k v = Inr (hd buckets)"
    using list_all2_nthD2 [OF l i(1)] unfolding i(2) kv by simp
  have "i < length data" using i(1) list_all2_lengthD [OF l] by simp
  from nth_mem [OF this] have d: "(k, v) \<in> set data" unfolding kv .
  have k: "k = ''default''" using entry_default [OF e] h(2) by simp
  have "vr_VolumeClaimName resp = PersistentVolumeName sha1_6 (s3_statefulSetName fs) (hd buckets)"
    if "s3_CreateVolumeForWrite sha1_6 env (fs\<lparr>s3_Buckets := buckets\<rparr>) ns w = (Inr resp, w')" for fs env ns w resp w'
    using that h(1) by (cases buckets) (auto simp: s3_CreateVolumeForWrite_def split: prod.splits option.splits)
  with e d show ?thesis unfolding k by (intro exI [of _ v] conjI allI impI)
qed

section \<open>Endpoints without a scheme\<close>

lemma getscheme_none:
  "CHR '':'' \<notin> set s \<Longrightarrow> getscheme_from i r s = Some ([], r)"
  by (induction i r s rule: getscheme_from.induct) (auto simp: Let_def)

text \<open>
  A host name on its own parses as a path, and with a port it parses as a scheme and an opaque part:
  either way the endpoint is lost.
\<close>

definition without_scheme :: "string \<Rightarrow> bool" where
  "without_scheme h \<longleftrightarrow> plain_host h \<and> (CHR '':'' \<notin> set h \<or> (\<exists>s r. valid_scheme s \<and> h = s @ CHR '':'' # r))"

lemma plain_host_path: "plain_host h \<Longrightarrow> \<forall>c \<in> set h. \<not> shouldEscape c encodePath \<and> c \<noteq> CHR ''+''"
proof
  fix c assume "plain_host h" "c \<in> set h"
  then have "alphanum c \<or> c \<in> set ''-.:''" by (auto simp: plain_host_def list_all_iff)
  then show "\<not> shouldEscape c encodePath \<and> c \<noteq> CHR ''+''" by (auto simp: shouldEscape_def alphanum_def)
qed

lemma plain_host_marks:
  assumes "plain_host h"
  shows "CHR ''#'' \<notin> set h" "CHR ''?'' \<notin> set h" "CHR ''/'' \<notin> set h" "h \<noteq> []" "h \<noteq> ''*''"
proof -
  show "CHR ''#'' \<notin> set h" "CHR ''?'' \<notin> set h" "CHR ''/'' \<notin> set h" "h \<noteq> []"
    using no_mark_in_host [OF assms] assms by (auto simp: plain_host_def)
  have "\<not> (alphanum (CHR ''*'') \<or> CHR ''*'' \<in> set ''-.:'')" by (simp add: alphanum_def)
  then show "h \<noteq> ''*''" using assms by (auto simp: plain_host_def)
qed

lemma parse_without_scheme:
  assumes "without_scheme h"
  obtains u where "url_Parse h = Some u" and "u_Host u = []" and "to_lower (u_Scheme u) \<noteq> ''https'' \<or> CHR '':'' \<in> set h"
proof -
  have h: "plain_host h" using assms by (simp add: without_scheme_def)
  note marks = plain_host_marks [OF h]
  have parts: "split_at_char (CHR ''#'') h = (h, [])" by (rule split_at_char_none [OF marks(1)])
  show ?thesis
  proof (cases "CHR '':'' \<in> set h")
    case False
    have t: "take 1 h \<noteq> ''/''" "take 2 h \<noteq> ''//''" using marks by (cases h; auto)+
    obtain p where p: "unescape encodePath h = Some p" using unescape_raw [OF plain_host_path [OF h]] by blast
    have host: "parse_host [] = Some []" by (simp add: parse_host_def)
    have "url_Parse h = Some \<lparr>u_Scheme = [], u_Opaque = [], u_Host = [], u_Path = p, u_RawQuery = [], u_Fragment = []\<rparr>"
      using parts split_at_char_none [OF marks(2)] getscheme_none [OF False]
        marks(5) t split_on_no_sep [OF marks(3)] False p host
      by (simp add: url_Parse_def getscheme_def to_lower_def)
    then show ?thesis by (rule that) (simp_all add: to_lower_def)
  next
    case True
    then obtain s r where sr: "valid_scheme s" "h = s @ CHR '':'' # r" using assms by (auto simp: without_scheme_def)
    have r: "take 1 r \<noteq> ''/''" "CHR ''?'' \<notin> set r" using marks sr(2) by (cases r; auto)+
    have "url_Parse h = Some \<lparr>u_Scheme = to_lower s, u_Opaque = r, u_Host = [], u_Path = [], u_RawQuery = [], u_Fragment = []\<rparr>"
      using parts split_at_char_none [OF r(2)] getscheme_valid [OF sr(1), of r] marks(5) r(1) no_mark_in_scheme [OF sr(1)]
      by (simp add: url_Parse_def flip: sr(2))
    then show ?thesis by (rule that) (simp_all add: True)
  qed
qed

lemma fixEndpoint_erases: "without_scheme (bc_Endpoint b) \<Longrightarrow> bc_Endpoint (fixEndpoint b) = []"
  by (erule parse_without_scheme) (simp add: fixEndpoint_def Let_def)

text \<open>The URI of a bucket without endpoint has the name of the bucket in the place of the host.\<close>

lemma url_without_host:
  assumes "valid_scheme s" and "plain_host n" and "CHR ''#'' \<notin> set q" and "q \<noteq> []"
  shows "url_Parse (url_String \<lparr>u_Scheme = s, u_Opaque = [], u_Host = [], u_Path = n, u_RawQuery = q, u_Fragment = f\<rparr>)
    = Some \<lparr>u_Scheme = s, u_Opaque = [], u_Host = n, u_Path = [], u_RawQuery = q, u_Fragment = f\<rparr>"
proof -
  note marks = plain_host_marks [OF assms(2)]
  have esc: "escape encodePath n = n" using escape_raw [of n encodePath] plain_host_path [OF assms(2)] by blast
  have low: "to_lower s = s" and sne: "s \<noteq> []" using assms(1) by (auto simp: valid_scheme_def)
  let ?rest = "''//'' @ n"
  let ?body = "s @ CHR '':'' # ?rest @ CHR ''?'' # q"
  have str: "url_String \<lparr>u_Scheme = s, u_Opaque = [], u_Host = [], u_Path = n, u_RawQuery = q, u_Fragment = f\<rparr>
      = (if f \<noteq> [] then ?body @ CHR ''#'' # escape encodeFragment f else ?body)"
    using sne marks(4,5) esc assms(4) by (simp add: url_String_def Let_def escape_def)
  have nohash: "CHR ''#'' \<notin> set ?body" using no_mark_in_scheme [OF assms(1)] marks(1) assms(3) by auto
  obtain frag where frag: "split_at_char (CHR ''#'') (url_String \<lparr>u_Scheme = s, u_Opaque = [], u_Host = [], u_Path = n,
      u_RawQuery = q, u_Fragment = f\<rparr>) = (?body, frag)" and uf: "unescape encodeFragment frag = Some f"
    unfolding str using split_at_char_append [OF nohash] split_at_char_none [OF nohash] unescape_escape [of encodeFragment f]
    by (cases "f = []") auto
  have query: "split_at_char (CHR ''?'') (?rest @ CHR ''?'' # q) = (?rest, q)"
    using marks(2) by (intro split_at_char_append) simp
  have star: "?body \<noteq> ''*''" using sne by (cases s) auto
  have host: "takeWhile (\<lambda>c. c \<noteq> CHR ''/'') n = n" and path: "dropWhile (\<lambda>c. c \<noteq> CHR ''/'') n = []"
    using marks(3) by (auto simp: takeWhile_eq_all_conv dropWhile_eq_Nil_conv)
  show ?thesis
    unfolding url_Parse_def frag
    using getscheme_valid [OF assms(1), of "?rest @ CHR ''?'' # q"] star query uf low sne parse_plain_host [OF assms(2)]
    by (simp only: Let_def prod.case if_False if_True option.case simp_thms) (simp add: host path eval_nat_numeral)
qed

text \<open>An endpoint that is configured as a host, with or without a port, but without a scheme is
  erased when the configuration is loaded.  Files are still written to such a bucket, and they get
  URIs, but no such URI can be read: the service finds no bucket for it.\<close>

theorem schemeless_endpoint_unreadable:
  assumes "yaml v = Inr raw" and "without_scheme (bc_Endpoint raw)" and "plain_host (bc_Name raw)"
    and "bucket_of_entry yaml secret k v = Inr b" and "b \<in> set (s3_Buckets fs)"
    and "\<And>b'. b' \<in> set (s3_Buckets fs) \<Longrightarrow> bc_Name b' \<noteq> []
        \<and> (PersistentVolumeName sha1_6 (s3_statefulSetName fs) b' = PersistentVolumeName sha1_6 (s3_statefulSetName fs) b \<longrightarrow> b' = b)"
    and "valid_scheme s" and "localPath \<noteq> []" and "uid \<noteq> []"
    and "resp = empty_response\<lparr>vr_VolumeClaimName := PersistentVolumeName sha1_6 (s3_statefulSetName fs) b, vr_SubPath := uid\<rparr>"
  shows "bc_Endpoint b = [] \<and> (\<exists>uri. s3_CreateFileURI sha1_6 fs (uri_request s resp localPath isDir) = Inr uri
    \<and> s3_CreateVolumeForRead sha1_6 env fs uri ns w
        = (Inl (FS_Message ''Bucket cannot be found for given endpoint & name''), w))"
proof -
  have fx: "bc_Name (fixEndpoint raw) = bc_Name raw"
    by (simp add: fixEndpoint_def Let_def split: option.splits)
  have b: "bc_Endpoint b = []" "bc_Name b = bc_Name raw"
    using assms(1,4) fixEndpoint_erases [OF assms(2)] fx
    by (auto simp: bucket_of_entry_def Let_def split: sum.splits option.splits)
  let ?q = "values_Encode [(queryDirKey, FormatBool isDir), (queryUIDKey, uid)]"
  let ?u = "\<lparr>u_Scheme = s, u_Opaque = [], u_Host = [], u_Path = bc_Name b, u_RawQuery = ?q, u_Fragment = localPath\<rparr>"
  have q: "?q \<noteq> []" using uid_query(2) [of isDir uid] assms(9) by (auto simp: parse_query_def query_entries_def values_Get_def)
  have "find (\<lambda>bc. PersistentVolumeName sha1_6 (s3_statefulSetName fs) bc
      = PersistentVolumeName sha1_6 (s3_statefulSetName fs) b) (s3_Buckets fs) = Some b"
    using assms(5,6) by (metis (mono_tags, lifting) find_None_all find_SomeD not_None_eq)
  then have "s3_CreateFileURI sha1_6 fs (uri_request s resp localPath isDir) = Inr (url_String ?u)"
    using no_mark_in_scheme [OF assms(7)] assms(8,9)
    by (simp add: s3_CreateFileURI_def uri_request_def assms(10) empty_response_def b(1))
  moreover have "find (\<lambda>bc. Matches bc (bc_Name b) []) (s3_Buckets fs) = None"
    using assms(6) by (auto simp: find_None_all Matches_def to_lower_def)
  then have "s3_CreateVolumeForRead sha1_6 env fs (url_String ?u) ns w
        = (Inl (FS_Message ''Bucket cannot be found for given endpoint & name''), w)"
    using url_without_host [OF assms(7) assms(3) encoded_no_hash q, of localPath]
    by (simp add: s3_CreateVolumeForRead_def b(2) TrimPrefix_def)
  ultimately show ?thesis using b(1) by blast
qed

section \<open>Views of local files\<close>

text \<open>The path of a file is not confined to its volume.  For every file of a node there is a path
  which the service accepts in a URI and for which a view reads just that file through the daemon of
  the node: one that leads up by as many elements as the directory of the volume has.\<close>

theorem view_reads_any_file:
  assumes "local_wrote lfs resp" and "valid_scheme s" and "\<forall>q \<in> set qs. plain_part q"
    and "vr_VolumePath resp = CHR ''/'' # join_with ''/'' ps" and "\<forall>p \<in> set ps. plain_part p" and "ps \<noteq> []"
    and "GetNodeClient dial (vr_NodeName resp) nodes = (Inr (Some c), nodes')"
  shows "\<exists>uri. local_CreateFileURI env
        (uri_request s resp (join_with ''/'' (replicate (length ps) ''..'' @ qs)) isDir) w = Inr uri
    \<and> local_CreateFileView lfs dial view uri preview nodes
      = (map_sum FS_Message id (view c (CHR ''/'' # join_with ''/'' qs) preview), nodes')"
proof -
  let ?p = "join_with ''/'' (replicate (length ps) ''..'' @ qs)"
  have p: "?p \<noteq> []" using assms(6) by (cases ps) (simp_all add: join_with_first)
  obtain node uid where n: "plain_host node" "plain_part uid" and c: "clean_prefix (lc_LocalPathPrefix (lf_Config lfs))"
    and resp: "resp = empty_response\<lparr>vr_VolumePath := path_Join [lc_LocalPathPrefix (lf_Config lfs), uid],
              vr_NodeName := node, vr_DeleteAfterUse := True\<rparr>"
    using assms(1) by (auto simp: local_wrote_def)
  have uid: "uid \<noteq> []" "take 1 uid \<noteq> ''/''" using n(2) by (cases uid; auto simp: plain_part_def)+
  obtain uri where uri: "local_CreateFileURI env (uri_request s resp ?p isDir) w = Inr uri"
    and rd: "local_CreateVolumeForRead lfs uri = Inr (resp\<lparr>vr_LocalPath := ?p, vr_IsDir := isDir\<rparr>)"
    using local_uri [OF assms(1,2) p, of env isDir w] by blast
  obtain u where u: "url_Parse uri = Some u" using rd by (cases "url_Parse uri") (auto simp: local_CreateVolumeForRead_def)
  have parts: "u_Host u = node" "u_Fragment u = ?p"
    "path_Join [lc_LocalPathPrefix (lf_Config lfs), TrimPrefix (u_Path u) ''/''] = vr_VolumePath resp"
    using rd u by (auto simp: local_CreateVolumeForRead_def Let_def resp empty_response_def)
  have "vr_NodeName resp = node" by (simp add: resp)
  then have "local_CreateFileView lfs dial view uri preview nodes
      = (map_sum FS_Message id (view c (CHR ''/'' # join_with ''/'' qs) preview), nodes')"
    using Join_up [OF assms(5,6,3)] assms(7) parts
    by (simp add: local_CreateFileView_def u Let_def assms(4) split: sum.split)
  with uri show ?thesis by blast
qed

end
