(* ===== verification/FS_Service.thy ===== *)
theory FS_Service
  imports Local_FS S3_FS
begin

text \<open>
  The process around a file system (\<open>pkg/fs/service/service.go\<close>, \<open>flex_drivers.go\<close>): it connects to the
  cluster, builds the file system, and installs the drivers of the flex volumes on all nodes.
\<close>

section \<open>Volume drivers\<close>

text \<open>A \<open>FlexVolumeDriver\<close> resource: its name and the container of its specification, which may be missing.\<close>

record flex_driver =
  fd_Name :: string
  fd_Container :: "container option"

definition createFlexDriverInstallDaemonLabels :: "string \<Rightarrow> (string, string) gomap" where
  "createFlexDriverInstallDaemonLabels name = [(''name'', name), (''app'', ''koalja-fs-flex-driver-install'')]"

definition install_container :: "container \<Rightarrow> container" where
  "install_container c =
     c\<lparr>c_Name := (if c_Name c = [] then ''installer'' else c_Name c), c_Privileged := Some True,
       c_VolumeMounts := c_VolumeMounts c @ [\<lparr>vm_Name = ''volume-plugins'', vm_ReadOnly = False,
         vm_MountPath = ''/flex-plugin-dir'', vm_SubPath = []\<rparr>],
       c_Env := c_Env c @ [\<lparr>ev_Name = ''FLEX_VOLUME_PLUGIN_DIR'', ev_Value = ''/flex-plugin-dir'', ev_FieldPath = None\<rparr>]\<rparr>"

definition createFlexDriverInstallDaemonset ::
  "'w fs_env \<Rightarrow> string \<Rightarrow> string \<Rightarrow> string \<Rightarrow> container \<Rightarrow> 'w \<Rightarrow> api_error error_only \<times> 'w" where
  "createFlexDriverInstallDaemonset env ns volumePluginDir driverName c w =
     EnsureDaemonSet (fe_DaemonSets env)
       (daemon_set driverName ns (createFlexDriverInstallDaemonLabels driverName) (install_container c)
          ''volume-plugins'' volumePluginDir []) w"

text \<open>\<open>None\<close> is the panic on a driver without container; the first error ends the loop.\<close>

fun install_drivers ::
  "'w fs_env \<Rightarrow> string \<Rightarrow> string \<Rightarrow> flex_driver list \<Rightarrow> 'w \<Rightarrow> (api_error error_only \<times> 'w) option" where
  "install_drivers env ns dir [] w = Some (None, w)"
| "install_drivers env ns dir (item # items) w =
     (case fd_Container item of
        None \<Rightarrow> None
      | Some c \<Rightarrow>
          (case createFlexDriverInstallDaemonset env ns dir (fd_Name item) c w of
             (Some e, w) \<Rightarrow> Some (Some e, w)
           | (None, w) \<Rightarrow> install_drivers env ns dir items w))"

definition createFlexDriverInstallDaemonsets ::
  "'w fs_env \<Rightarrow> ('w \<Rightarrow> (api_error, flex_driver list) go_result) \<Rightarrow> string \<Rightarrow> string \<Rightarrow> 'w
    \<Rightarrow> (api_error error_only \<times> 'w) option" where
  "createFlexDriverInstallDaemonsets env drivers ns dir w =
     (case drivers w of
        Inl e \<Rightarrow> Some (Some e, w)
      | Inr items \<Rightarrow> install_drivers env ns dir items w)"

section \<open>The service\<close>

text \<open>\<open>'f\<close> is the file system that the builder makes, \<open>newClient\<close> connects to the cluster.\<close>

record 'f fs_service =
  fss_port :: int
  fss_fs :: 'f
  fss_ns :: string
  fss_volumePluginDir :: string

definition NewService ::
  "'w fs_env \<Rightarrow> (int \<Rightarrow> 'w \<Rightarrow> go_error error_only \<times> 'w) \<Rightarrow> ('w \<Rightarrow> ((fs_error, 'f) go_result \<times> 'w) option)
    \<Rightarrow> string \<Rightarrow> 'w \<Rightarrow> ((fs_error, 'f fs_service) go_result \<times> 'w) option" where
  "NewService env newClient builder volumePluginDir w =
     (case retry_Do (fe_Retry env) newClient [Timeout TimeoutK8sClient] w of
        None \<Rightarrow> None
      | Some (Some e, w) \<Rightarrow> Some (Inl (FS_Retry e), w)
      | Some (None, w) \<Rightarrow>
          (case GetNamespace (fe_Getenv env) of
             Inl name \<Rightarrow> Some (Inl (FS_Message name), w)
           | Inr ns \<Rightarrow>
               (case GetAPIPort (fe_Getenv env) of
                  None \<Rightarrow> Some (Inl (FS_Message ''invalid port''), w)
                | Some port \<Rightarrow>
                    (case builder w of
                       None \<Rightarrow> None
                     | Some (Inl e, w) \<Rightarrow> Some (Inl e, w)
                     | Some (Inr fs, w) \<Rightarrow>
                         Some (Inr \<lparr>fss_port = port, fss_fs = fs, fss_ns = ns, fss_volumePluginDir = volumePluginDir\<rparr>, w)))))"

section \<open>Lemmas\<close>

text \<open>A driver after the first failing one is not installed in this round.\<close>

lemma install_drivers_append:
  "install_drivers env ns dir (xs @ ys) w =
     (case install_drivers env ns dir xs w of
        Some (None, w) \<Rightarrow> install_drivers env ns dir ys w
      | r \<Rightarrow> r)"
  by (induction xs arbitrary: w) (auto split: option.splits prod.splits)

end
