(* ===== verification/Exec_Types.thy ===== *)
theory Exec_Types
  imports FS_Api Retry Input_Snapshot Koalja_API Ensure Names Go_Path
begin

text \<open>
  Data of the task executor: pods with volumes, the objects it creates and deletes, the calls of
  its clients (Kubernetes API, file system service, output publisher, template library), which are
  parameters, and the targets its builders fill
  (\<open>pkg/agent/task/executor_input_builder.go\<close>, \<open>executor_output_builder.go\<close>).
\<close>

section \<open>Pods and objects\<close>

record exec_pod =
  ep_Meta :: object_meta
  ep_Containers :: "container list"
  ep_Volumes :: "volume list"
  ep_NodeName :: string
  ep_RestartPolicy :: string
  ep_ServiceAccountName :: string

datatype exec_object =
    X_ConfigMap config_map
  | X_PersistentVolume persistent_volume
  | X_PersistentVolumeClaim pv_claim
  | X_Pod exec_pod

text \<open>\<open>GetVolumeWithForPVC\<close> returns a pointer into the volumes of the pod: its index.\<close>

definition uses_claim :: "string \<Rightarrow> volume \<Rightarrow> bool" where
  "uses_claim pvcName v =
     (case vol_Source v of VS_PersistentVolumeClaim n r \<Rightarrow> n = pvcName | _ \<Rightarrow> False)"

fun find_index :: "('a \<Rightarrow> bool) \<Rightarrow> 'a list \<Rightarrow> nat option" where
  "find_index P [] = None"
| "find_index P (x # xs) = (if P x then Some 0 else map_option Suc (find_index P xs))"

definition GetVolumeWithForPVC :: "exec_pod \<Rightarrow> string \<Rightarrow> nat option" where
  "GetVolumeWithForPVC pod pvcName = find_index (uses_claim pvcName) (ep_Volumes pod)"

definition CloneLabels :: "(string, string) gomap \<Rightarrow> (string, string) gomap" where
  "CloneLabels lbl = foldl (\<lambda>result (k, v). AList.update k v result) [] lbl"

section \<open>Errors and clients\<close>

datatype exec_error =
    ExecApi api_error
  | ExecService string
  | NoOutputAddresses string
  | NoEnvironment string
  | BadAnnotation string
  | NoExecutorContainer
  | NoInputBuilder string
  | NoOutputBuilder string
  | ConflictingNode
  | InvalidResponse
  | BadDataURI string
  | BadTemplate string
  | PublishFailed string
  | UnknownOutput string
  | ContextDone
  | PodHasFailed
  | ContainerHasFailed

text \<open>The data of argument templates: an input is a sequence of values or one value.\<close>

type_synonym template_map = "(string, string) gomap"

datatype template_input = SequenceInput "template_map list" | SingleInput template_map

record template_data =
  td_Tasks :: "(string, string option) gomap"
  td_Task :: TaskSpec
  td_Inputs :: "(string, template_input) gomap"
  td_Outputs :: "(string, template_map) gomap"

text \<open>
  The world \<open>'w\<close> holds everything outside: cluster, file systems, links, clock, random numbers.
  \<open>xe_Sleep\<close> waits for the given nanoseconds or for the end of the context, and returns whether
  the time has passed.
\<close>

record ('a, 'w) exec_env =
  xe_GetPV :: "string \<Rightarrow> 'w \<Rightarrow> (api_error, persistent_volume) go_result"
  xe_GetPVC :: "string \<Rightarrow> string \<Rightarrow> 'w \<Rightarrow> (api_error, pv_claim) go_result"
  xe_Create :: "exec_object \<Rightarrow> 'w \<Rightarrow> api_error error_only \<times> 'w"
  xe_Delete :: "exec_object \<Rightarrow> 'w \<Rightarrow> api_error error_only \<times> 'w"
  xe_ConfigMaps :: "(config_map, 'w) kube_client"
  xe_CreateVolumeForRead ::
    "string \<Rightarrow> string \<Rightarrow> string \<Rightarrow> 'w \<Rightarrow> (string, volume_response) go_result \<times> 'w"
  xe_CreateVolumeForWrite ::
    "string \<Rightarrow> string \<Rightarrow> string \<Rightarrow> 'w \<Rightarrow> (string, volume_response) go_result \<times> 'w"
  xe_CreateFileURI :: "file_uri_request \<Rightarrow> 'w \<Rightarrow> (string, string) go_result \<times> 'w"
  xe_NewLen :: "nat \<Rightarrow> 'w \<Rightarrow> string \<times> 'w"
  xe_DecodeString :: "string \<Rightarrow> (string, nat list) go_result"
  xe_ApplyTemplate :: "string \<Rightarrow> template_data \<Rightarrow> 'w \<Rightarrow> (string, string) go_result \<times> 'w"
  xe_Publish :: "string \<Rightarrow> AnnotatedValue \<Rightarrow> 'a InputSnapshot \<Rightarrow> 'w
    \<Rightarrow> (string, bool \<times> AnnotatedValue) go_result \<times> 'w"
  xe_Sleep :: "int \<Rightarrow> 'w \<Rightarrow> bool \<times> 'w"
  xe_Getenv :: "string \<Rightarrow> string"
  xe_sha1 :: "string \<Rightarrow> string"

section \<open>Builder targets\<close>

text \<open>Container and pod are pointers the targets of all inputs and outputs share.\<close>

record fileOutputProcessor =
  fp_ReadyOnSucceeded :: bool
  fp_OutputName :: string
  fp_VolumeName :: string
  fp_VolumeClaimName :: string
  fp_VolumePath :: string
  fp_SubPath :: string
  fp_MountPath :: string
  fp_NodeName :: string
  fp_LocalPath :: string

record ExecutorInputBuilderTarget =
  it_Container :: container
  it_Pod :: exec_pod
  it_NodeName :: "string option"
  it_TemplateData :: "template_map list"
  it_Resources :: "exec_object list"

record ExecutorOutputBuilderTarget =
  ot_Container :: container
  ot_Pod :: exec_pod
  ot_NodeName :: "string option"
  ot_TemplateData :: template_map
  ot_Resources :: "exec_object list"
  ot_OutputProcessor :: "fileOutputProcessor option"

record ExecutorInputBuilderConfig =
  ic_InputSpec :: TaskInputSpec
  ic_TaskSpec :: TaskSpec
  ic_Pipeline :: Pipeline
  ic_AnnotatedValue :: AnnotatedValue
  ic_AnnotatedValueIndex :: nat
  ic_OwnerRef :: string

record ExecutorOutputBuilderConfig =
  oc_OutputSpec :: TaskOutputSpec
  oc_TaskSpec :: TaskSpec
  oc_Pipeline :: Pipeline
  oc_OwnerRef :: string

section \<open>Lemmas\<close>

lemma find_index_Some:
  "find_index P xs = Some i \<Longrightarrow> i < length xs \<and> P (xs ! i) \<and> (\<forall>j < i. \<not> P (xs ! j))"
proof (induction xs arbitrary: i)
  case (Cons x xs)
  show ?case
  proof (cases "P x")
    case False
    then obtain k where k: "i = Suc k" "find_index P xs = Some k" using Cons.prems by auto
    have "\<not> P ((x # xs) ! j)" if "j < i" for j
      using that k Cons.IH [OF k(2)] False by (cases j) auto
    then show ?thesis using k Cons.IH [OF k(2)] by auto
  qed (use Cons.prems in auto)
qed simp

lemma find_index_None: "find_index P xs = None \<longleftrightarrow> (\<forall>x \<in> set xs. \<not> P x)"
  by (induction xs) auto

lemma CloneLabels_eq: "gomap_ok m \<Longrightarrow> CloneLabels m = m"
proof -
  have "foldl (\<lambda>result (k, v). AList.update k v result) acc m = acc @ m"
    if "gomap_ok (acc @ m)" for acc m
    using that
  proof (induction m arbitrary: acc)
    case (Cons kv m)
    obtain k v where kv: "kv = (k, v)" by (cases kv)
    have "map_of acc k = None" using Cons.prems by (auto simp: kv gomap_ok_def map_of_eq_None_iff)
    then have "AList.update k v acc = acc @ [(k, v)]" by (rule update_new)
    then show ?case using Cons.IH [of "acc @ [(k, v)]"] Cons.prems by (simp add: kv)
  qed simp
  from this [of "[]" m] show "gomap_ok m \<Longrightarrow> CloneLabels m = m" by (simp add: CloneLabels_def)
qed

lemma CloneLabels_map: "map_of (CloneLabels m) k = map_of (rev m) k"
proof -
  have "map_of (foldl (\<lambda>result (k, v). AList.update k v result) acc m) k =
      (map_of acc ++ map_of (rev m)) k" for acc
    by (induction m arbitrary: acc) (auto simp: update_conv' map_add_def split: option.splits)
  from this [of "[]"] show ?thesis by (simp add: CloneLabels_def)
qed

end
