(* ===== verification/Exec_Builders.thy ===== *)
theory Exec_Builders
  imports Exec_Types
begin

text \<open>
  The builders that prepare one value of a task input (\<open>pkg/agent/task/builders/input/file.go\<close>,
  \<open>data.go\<close>) and one task output (\<open>pkg/agent/task/builders/output/file.go\<close>) for the executor
  pod, and the processor that publishes an output afterwards.  A builder changes its target as it
  goes, so the changed target is returned with an error too.
\<close>

section \<open>Shared steps\<close>

text \<open>The claim for a volume the file system service has made.\<close>

definition claim_for :: "string \<Rightarrow> string \<Rightarrow> string \<Rightarrow> string \<Rightarrow> persistent_volume \<Rightarrow> pv_claim" where
  "claim_for name namespace owner volumeName pv =
     \<lparr>pvc_Meta = \<lparr>om_Name = name, om_Namespace = namespace, om_Labels = [], om_Annotations = [],
                  om_Owners = [owner]\<rparr>,
      pvc_Spec = \<lparr>pvc_AccessModes = pv_AccessModes (pv_Spec pv), pvc_VolumeName = volumeName,
                  pvc_StorageClassName = Some (pv_StorageClassName (pv_Spec pv)),
                  pvc_Requests = pv_Capacity (pv_Spec pv)\<rparr>\<rparr>"

definition add_volume :: "string \<Rightarrow> volume_source \<Rightarrow> exec_pod \<Rightarrow> exec_pod" where
  "add_volume n src pod = pod\<lparr>ep_Volumes := ep_Volumes pod @ [\<lparr>vol_Name = n, vol_Source = src\<rparr>]\<rparr>"

definition add_mount :: "string \<Rightarrow> bool \<Rightarrow> string \<Rightarrow> string \<Rightarrow> container \<Rightarrow> container" where
  "add_mount n readOnly mountPath subPath c =
     c\<lparr>c_VolumeMounts := c_VolumeMounts c @
         [\<lparr>vm_Name = n, vm_ReadOnly = readOnly, vm_MountPath = mountPath, vm_SubPath = subPath\<rparr>]\<rparr>"

text \<open>
  The pod must run on the node of a host path; a pod that must run on another node already is a
  conflict.  \<open>None\<close> is the conflict.
\<close>

definition pin_to_node :: "string \<Rightarrow> exec_pod \<Rightarrow> exec_pod option" where
  "pin_to_node nodeName pod =
     (if nodeName \<noteq> [] then
        if ep_NodeName pod = [] then Some (pod\<lparr>ep_NodeName := nodeName\<rparr>)
        else if ep_NodeName pod \<noteq> nodeName then None
        else Some pod
      else Some pod)"

text \<open>
  How a builder mounts the volume of a response: by a claim it creates, by an existing claim, or as
  a host path.  The input and the output builder differ in the name of the new claim, in the
  permission, in the key under which they read an existing claim back, and in what the output
  builder does to a volume it shares.  The result is the error or the name of the pod's volume.
\<close>

definition mount_created_volume ::
  "('a, 'w) exec_env \<Rightarrow> (string \<Rightarrow> string) \<Rightarrow> string \<Rightarrow> string \<Rightarrow> bool \<Rightarrow> volume_response \<Rightarrow> string
    \<Rightarrow> exec_pod \<Rightarrow> exec_object list \<Rightarrow> 'w
    \<Rightarrow> (exec_error, string) go_result \<times> exec_pod \<times> exec_object list \<times> 'w" where
  "mount_created_volume env claimName namespace owner readOnly resp volName pod resources w =
     (case xe_GetPV env (vr_VolumeName resp) w of
        Inl e \<Rightarrow> (Inl (ExecApi e), pod, resources, w)
      | Inr pv \<Rightarrow>
          let resources = (if vr_DeleteAfterUse resp then resources @ [X_PersistentVolume pv] else resources);
              (random, w) = xe_NewLen env 6 w;
              pvcName = FixupKubernetesName (xe_sha1 env) (claimName random);
              pvc = claim_for pvcName namespace owner (vr_VolumeName resp) pv
          in (case xe_Create env (X_PersistentVolumeClaim pvc) w of
                (Some e, w) \<Rightarrow> (Inl (ExecApi e), pod, resources, w)
              | (None, w) \<Rightarrow>
                  (Inr volName, add_volume volName (VS_PersistentVolumeClaim pvcName readOnly) pod,
                   resources @ [X_PersistentVolumeClaim pvc], w)))"

definition set_writable :: "volume \<Rightarrow> volume" where
  "set_writable v =
     (case vol_Source v of
        VS_PersistentVolumeClaim n r \<Rightarrow> v\<lparr>vol_Source := VS_PersistentVolumeClaim n False\<rparr>
      | _ \<Rightarrow> v)"

definition mount_existing_claim ::
  "('a, 'w) exec_env \<Rightarrow> string \<Rightarrow> string \<Rightarrow> bool \<Rightarrow> volume_response \<Rightarrow> string
    \<Rightarrow> exec_pod \<Rightarrow> exec_object list \<Rightarrow> 'w
    \<Rightarrow> (exec_error, string) go_result \<times> exec_pod \<times> exec_object list \<times> 'w" where
  "mount_existing_claim env readBack namespace readOnly resp volName pod resources w =
     (let claimed = (if vr_DeleteAfterUse resp then
            (case xe_GetPVC env readBack namespace w of
               Inl e \<Rightarrow> Inl (ExecApi e)
             | Inr pvc \<Rightarrow> Inr (resources @ [X_PersistentVolumeClaim pvc]))
          else Inr resources)
      in case claimed of
           Inl e \<Rightarrow> (Inl e, pod, resources, w)
         | Inr resources \<Rightarrow>
             (case GetVolumeWithForPVC pod (vr_VolumeClaimName resp) of
                None \<Rightarrow> (Inr volName,
                  add_volume volName (VS_PersistentVolumeClaim (vr_VolumeClaimName resp) readOnly) pod,
                  resources, w)
              | Some i \<Rightarrow> (Inr (vol_Name (ep_Volumes pod ! i)),
                  (if readOnly then pod
                   else pod\<lparr>ep_Volumes := (ep_Volumes pod)[i := set_writable (ep_Volumes pod ! i)]\<rparr>),
                  resources, w)))"

definition mount_host_path ::
  "volume_response \<Rightarrow> string \<Rightarrow> exec_pod \<Rightarrow> exec_object list \<Rightarrow> 'w
    \<Rightarrow> (exec_error, string) go_result \<times> exec_pod \<times> exec_object list \<times> 'w" where
  "mount_host_path resp volName pod resources w =
     (let pod = add_volume volName (VS_HostPath (vr_VolumePath resp)) pod
      in case pin_to_node (vr_NodeName resp) pod of
           None \<Rightarrow> (Inl ConflictingNode, pod, resources, w)
         | Some pod \<Rightarrow> (Inr volName, pod, resources, w))"

definition mount_response ::
  "('a, 'w) exec_env \<Rightarrow> (string \<Rightarrow> string) \<Rightarrow> string \<Rightarrow> string \<Rightarrow> string \<Rightarrow> bool \<Rightarrow> volume_response
    \<Rightarrow> string \<Rightarrow> exec_pod \<Rightarrow> exec_object list \<Rightarrow> 'w
    \<Rightarrow> (exec_error, string) go_result \<times> exec_pod \<times> exec_object list \<times> 'w" where
  "mount_response env claimName readBack namespace owner readOnly resp volName pod resources w =
     (if vr_VolumeName resp \<noteq> [] then
        mount_created_volume env claimName namespace owner readOnly resp volName pod resources w
      else if vr_VolumeClaimName resp \<noteq> [] then
        mount_existing_claim env readBack namespace readOnly resp volName pod resources w
      else if vr_VolumePath resp \<noteq> [] then mount_host_path resp volName pod resources w
      else (Inl InvalidResponse, pod, resources, w))"

section \<open>File inputs\<close>

definition input_volume_name :: "('a, 'w) exec_env \<Rightarrow> string \<Rightarrow> nat \<Rightarrow> string" where
  "input_volume_name env inputName i =
     FixupKubernetesName (xe_sha1 env) (''input-'' @ inputName @ ''-'' @ itoa i)"

definition input_mount_path :: "string \<Rightarrow> nat \<Rightarrow> string" where
  "input_mount_path inputName i = path_Join [''/koalja'', ''inputs'', inputName, itoa i]"

definition input_claim_name :: "ExecutorInputBuilderConfig \<Rightarrow> string \<Rightarrow> string" where
  "input_claim_name cfg random =
     pl_Name (ic_Pipeline cfg) @ ''-'' @ ts_Name (ic_TaskSpec cfg) @ ''-'' @ tis_Name (ic_InputSpec cfg)
       @ ''-'' @ itoa (ic_AnnotatedValueIndex cfg) @ ''-'' @ random"

definition file_input_data :: "volume_response \<Rightarrow> string \<Rightarrow> template_map" where
  "file_input_data resp mountPath =
     [(''volumeName'', vr_VolumeName resp), (''volumeClaimName'', vr_VolumeClaimName resp),
      (''volumePath'', vr_VolumePath resp), (''mountPath'', mountPath), (''subPath'', vr_SubPath resp),
      (''nodeName'', vr_NodeName resp), (''path'', path_Join [mountPath, vr_LocalPath resp]),
      (''base'', path_Base (vr_LocalPath resp)), (''dir'', path_Dir (vr_LocalPath resp))]"

definition fileInputBuilder_Build ::
  "('a, 'w) exec_env \<Rightarrow> ExecutorInputBuilderConfig \<Rightarrow> ExecutorInputBuilderTarget \<Rightarrow> 'w
    \<Rightarrow> exec_error error_only \<times> ExecutorInputBuilderTarget \<times> 'w" where
  "fileInputBuilder_Build env cfg target w =
     (let inputName = tis_Name (ic_InputSpec cfg); i = ic_AnnotatedValueIndex cfg;
          namespace = pl_Namespace (ic_Pipeline cfg) in
      case xe_CreateVolumeForRead env (av_Data (ic_AnnotatedValue cfg)) (ic_OwnerRef cfg) namespace w of
        (Inl e, w) \<Rightarrow> (Some (ExecService e), target, w)
      | (Inr resp, w) \<Rightarrow>
          let target = (if vr_NodeName resp \<noteq> [] then target\<lparr>it_NodeName := Some (vr_NodeName resp)\<rparr> else target)
          in (case mount_response env (input_claim_name cfg) (vr_VolumeClaimName resp) namespace
                     (ic_OwnerRef cfg) True resp (input_volume_name env inputName i)
                     (it_Pod target) (it_Resources target) w of
                (Inl e, pod, resources, w) \<Rightarrow>
                  (Some e, target\<lparr>it_Pod := pod, it_Resources := resources\<rparr>, w)
              | (Inr volName, pod, resources, w) \<Rightarrow>
                  let mountPath = input_mount_path inputName i in
                  (None, target\<lparr>it_Pod := pod, it_Resources := resources,
                     it_Container := add_mount volName True mountPath (vr_SubPath resp) (it_Container target),
                     it_TemplateData := it_TemplateData target @ [file_input_data resp mountPath]\<rparr>, w)))"

section \<open>Data inputs\<close>

definition data_config_map :: "ExecutorInputBuilderConfig \<Rightarrow> string \<Rightarrow> string \<Rightarrow> nat list \<Rightarrow> config_map" where
  "data_config_map cfg name localPath bytes =
     \<lparr>cm_Meta = \<lparr>om_Name = name, om_Namespace = pl_Namespace (ic_Pipeline cfg), om_Labels = [],
                 om_Annotations = [], om_Owners = [ic_OwnerRef cfg]\<rparr>,
      cm_Data = [], cm_BinaryData = [(localPath, bytes)]\<rparr>"

text \<open>\<open>uniuri.New\<close> makes 16 characters; the default mode is octal 0444.\<close>

definition dataInputBuilder_Build ::
  "('a, 'w) exec_env \<Rightarrow> ExecutorInputBuilderConfig \<Rightarrow> ExecutorInputBuilderTarget \<Rightarrow> 'w
    \<Rightarrow> exec_error error_only \<times> ExecutorInputBuilderTarget \<times> 'w" where
  "dataInputBuilder_Build env cfg target w =
     (let inputName = tis_Name (ic_InputSpec cfg); i = ic_AnnotatedValueIndex cfg in
      case xe_DecodeString env (av_Data (ic_AnnotatedValue cfg)) of
        Inl e \<Rightarrow> (Some (BadDataURI e), target, w)
      | Inr bytes \<Rightarrow>
          let (localPath, w) = xe_NewLen env 16 w;
              (random, w) = xe_NewLen env 8 w;
              configMap = data_config_map cfg
                (FixupKubernetesName (xe_sha1 env) (input_claim_name cfg random)) localPath bytes
          in (case xe_Create env (X_ConfigMap configMap) w of
                (Some e, w) \<Rightarrow> (Some (ExecApi e), target, w)
              | (None, w) \<Rightarrow>
                  let volName = input_volume_name env inputName i;
                      mountPath = input_mount_path inputName i in
                  (None, target\<lparr>it_Resources := it_Resources target @ [X_ConfigMap configMap],
                     it_Pod := add_volume volName (VS_ConfigMap (om_Name (cm_Meta configMap)) (Some 292)) (it_Pod target),
                     it_Container := add_mount volName True mountPath [] (it_Container target),
                     it_TemplateData := it_TemplateData target @
                       [[(''volumeName'', []), (''mountPath'', mountPath), (''nodeName'', []),
                         (''path'', path_Join [mountPath, localPath])]]\<rparr>, w)))"

text \<open>The builders that the task agent registers at start-up.\<close>

definition GetExecutorInputBuilder ::
  "string \<Rightarrow> (('a, 'w) exec_env \<Rightarrow> ExecutorInputBuilderConfig \<Rightarrow> ExecutorInputBuilderTarget \<Rightarrow> 'w
    \<Rightarrow> exec_error error_only \<times> ExecutorInputBuilderTarget \<times> 'w) option" where
  "GetExecutorInputBuilder scheme =
     (if scheme = SchemeFile then Some fileInputBuilder_Build
      else if scheme = SchemeData then Some dataInputBuilder_Build
      else None)"

section \<open>File outputs\<close>

definition output_volume_name :: "('a, 'w) exec_env \<Rightarrow> string \<Rightarrow> string" where
  "output_volume_name env outputName = FixupKubernetesName (xe_sha1 env) (''output-'' @ outputName)"

definition output_mount_path :: "string \<Rightarrow> string" where
  "output_mount_path outputName = path_Join [''/koalja'', ''outputs'', outputName]"

definition output_claim_name :: "ExecutorOutputBuilderConfig \<Rightarrow> string \<Rightarrow> string" where
  "output_claim_name cfg random =
     pl_Name (oc_Pipeline cfg) @ ''-'' @ ts_Name (oc_TaskSpec cfg) @ ''-'' @ tos_Name (oc_OutputSpec cfg)
       @ ''-'' @ random"

definition file_output_data :: "volume_response \<Rightarrow> string \<Rightarrow> string \<Rightarrow> template_map" where
  "file_output_data resp mountPath localPath =
     [(''volumeName'', vr_VolumeName resp), (''volumeClaimName'', vr_VolumeClaimName resp),
      (''volumePath'', vr_VolumePath resp), (''subPath'', vr_SubPath resp), (''mountPath'', mountPath),
      (''nodeName'', vr_NodeName resp), (''path'', path_Join [mountPath, localPath]),
      (''base'', path_Base (path_Join [mountPath, localPath])),
      (''dir'', path_Dir (path_Join [mountPath, localPath]))]"

definition file_output_processor ::
  "TaskOutputSpec \<Rightarrow> volume_response \<Rightarrow> string \<Rightarrow> string \<Rightarrow> fileOutputProcessor" where
  "file_output_processor spec resp mountPath localPath =
     \<lparr>fp_ReadyOnSucceeded = IsSucceeded (tos_Ready spec), fp_OutputName = tos_Name spec,
      fp_VolumeName = vr_VolumeName resp, fp_VolumeClaimName = vr_VolumeClaimName resp,
      fp_VolumePath = vr_VolumePath resp, fp_SubPath = vr_SubPath resp, fp_MountPath = mountPath,
      fp_NodeName = vr_NodeName resp, fp_LocalPath = localPath\<rparr>"

text \<open>An existing claim is read back by the name of the volume, which is empty in this branch.\<close>

definition fileOutputBuilder_Build ::
  "('a, 'w) exec_env \<Rightarrow> ExecutorOutputBuilderConfig \<Rightarrow> ExecutorOutputBuilderTarget \<Rightarrow> 'w
    \<Rightarrow> exec_error error_only \<times> ExecutorOutputBuilderTarget \<times> 'w" where
  "fileOutputBuilder_Build env cfg target w =
     (let outputName = tos_Name (oc_OutputSpec cfg); namespace = pl_Namespace (oc_Pipeline cfg);
          nodeName = (case ot_NodeName target of Some n \<Rightarrow> n | None \<Rightarrow> []) in
      case xe_CreateVolumeForWrite env nodeName (oc_OwnerRef cfg) namespace w of
        (Inl e, w) \<Rightarrow> (Some (ExecService e), target, w)
      | (Inr resp, w) \<Rightarrow>
          (case mount_response env (output_claim_name cfg) (vr_VolumeName resp) namespace
                  (oc_OwnerRef cfg) False resp (output_volume_name env outputName)
                  (ot_Pod target) (ot_Resources target) w of
             (Inl e, pod, resources, w) \<Rightarrow>
               (Some e, target\<lparr>ot_Pod := pod, ot_Resources := resources\<rparr>, w)
           | (Inr volName, pod, resources, w) \<Rightarrow>
               let mountPath = output_mount_path outputName; localPath = ''output'' in
               (None, target\<lparr>ot_Pod := pod, ot_Resources := resources,
                  ot_Container := add_mount volName False mountPath (vr_SubPath resp) (ot_Container target),
                  ot_TemplateData := file_output_data resp mountPath localPath,
                  ot_OutputProcessor :=
                    Some (file_output_processor (oc_OutputSpec cfg) resp mountPath localPath)\<rparr>, w)))"

definition ProtocolFile :: string where "ProtocolFile = ''File''"

definition GetExecutorOutputBuilder ::
  "string \<Rightarrow> (('a, 'w) exec_env \<Rightarrow> ExecutorOutputBuilderConfig \<Rightarrow> ExecutorOutputBuilderTarget \<Rightarrow> 'w
    \<Rightarrow> exec_error error_only \<times> ExecutorOutputBuilderTarget \<times> 'w) option" where
  "GetExecutorOutputBuilder protocol = (if protocol = ProtocolFile then Some fileOutputBuilder_Build else None)"

section \<open>Publishing an output\<close>

definition maxPublishFailures :: nat where "maxPublishFailures = 10"

definition millisecond :: int where "millisecond = 1000000"

definition minute :: int where "minute = 60 * 1000 * millisecond"

text \<open>The loop of \<open>Process\<close>; \<open>None\<close> when it goes on for ever.\<close>

partial_function (option) publish_loop ::
  "('a, 'w) exec_env \<Rightarrow> string \<Rightarrow> AnnotatedValue \<Rightarrow> 'a InputSnapshot \<Rightarrow> int \<Rightarrow> nat \<Rightarrow> 'w
    \<Rightarrow> (exec_error error_only \<times> 'w) option" where
  "publish_loop env outputName av snapshot delay recentFailures w =
     (case xe_Publish env outputName av snapshot w of
        (r, w) \<Rightarrow>
          if isl r \<and> Suc recentFailures > maxPublishFailures then Some (Some (PublishFailed (projl r)), w)
          else if \<not> isl r \<and> fst (projr r) then Some (None, w)
          else (case xe_Sleep env delay w of
                  (timer, w) \<Rightarrow>
                    if timer then
                      publish_loop env outputName av snapshot (Backoff delay 3 2 minute)
                        (if isl r then Suc recentFailures else 0) w
                    else Some (Some ContextDone, w)))"

declare publish_loop.simps [code]

definition output_uri_request :: "fileOutputProcessor \<Rightarrow> string \<Rightarrow> bool \<Rightarrow> file_uri_request" where
  "output_uri_request p localPath isDir =
     \<lparr>fu_Scheme = SchemeFile, fu_VolumeName = fp_VolumeName p, fu_VolumeClaimName = fp_VolumeClaimName p,
      fu_VolumePath = fp_VolumePath p, fu_SubPath = fp_SubPath p, fu_NodeName = fp_NodeName p,
      fu_LocalPath = localPath, fu_IsDir = isDir\<rparr>"

definition processor_Process ::
  "('a, 'w) exec_env \<Rightarrow> fileOutputProcessor \<Rightarrow> 'a InputSnapshot \<Rightarrow> 'w
    \<Rightarrow> (exec_error error_only \<times> 'w) option" where
  "processor_Process env p snapshot w =
     (if \<not> fp_ReadyOnSucceeded p then Some (None, w)
      else case xe_CreateFileURI env (output_uri_request p (fp_LocalPath p) False) w of
             (Inl e, w) \<Rightarrow> Some (Some (ExecService e), w)
           | (Inr uri, w) \<Rightarrow>
               publish_loop env (fp_OutputName p)
                 \<lparr>av_ID = [], av_SourceTask = [], av_SourceTaskOutput = [], av_Link = [],
                  av_SourceInputs = [], av_Data = uri, av_CreatedAt = None\<rparr>
                 snapshot (100 * millisecond) 0 w)"

definition processor_CreateFileURI ::
  "('a, 'w) exec_env \<Rightarrow> fileOutputProcessor \<Rightarrow> string \<Rightarrow> bool \<Rightarrow> 'w \<Rightarrow> (exec_error, string) go_result \<times> 'w" where
  "processor_CreateFileURI env p localPath isDir w =
     (case xe_CreateFileURI env (output_uri_request p localPath isDir) w of
        (Inl e, w) \<Rightarrow> (Inl (ExecService e), w)
      | (Inr uri, w) \<Rightarrow> (Inr uri, w))"

end
