(* ===== verification/Executor.thy ===== *)
theory Executor
  imports Exec_Builders Environment Pod_GC
begin

text \<open>
  The task executor (\<open>pkg/agent/task/executor.go\<close>): it builds the pod that runs a task on one
  snapshot, waits for it to finish, publishes the outputs and removes what it has created.
\<close>

section \<open>Construction\<close>

record executor =
  ex_Pipeline :: Pipeline
  ex_TaskSpec :: TaskSpec
  ex_OutputAddresses :: "(string, string list) gomap"
  ex_TaskExecContainer :: "container option"
  ex_TaskExecLabels :: "(string, string) gomap"
  ex_ServiceName :: string
  ex_MyPod :: object_meta
  ex_DNSName :: string
  ex_ServicesPort :: int

text \<open>The JSON in the annotations is decoded by the arguments \<open>container_of\<close> and \<open>labels_of\<close>.\<close>

fun exec_output_addresses ::
  "(string \<Rightarrow> string) \<Rightarrow> TaskOutputSpec list \<Rightarrow> (string, string) gomap
    \<Rightarrow> (string, string list) gomap \<Rightarrow> (exec_error, (string, string list) gomap) go_result" where
  "exec_output_addresses hash [] annotations m = Inr m"
| "exec_output_addresses hash (tos # outputs) annotations m =
     (let addresses = (case map_of annotations (CreateOutputLinkAddressesAnnotationName hash (tos_Name tos)) of
          Some a \<Rightarrow> a | None \<Rightarrow> [])
      in if addresses = [] then Inl (NoOutputAddresses (tos_Name tos))
         else exec_output_addresses hash outputs annotations
           (AList.update (tos_Name tos) (split_on (CHR '','') addresses) m))"

definition annotation :: "object_meta \<Rightarrow> string \<Rightarrow> string" where
  "annotation pod k = (case map_of (om_Annotations pod) k of Some a \<Rightarrow> a | None \<Rightarrow> [])"

definition NewExecutor ::
  "('a, 'w) exec_env \<Rightarrow> (string \<Rightarrow> (string, container) go_result)
    \<Rightarrow> (string \<Rightarrow> (string, (string, string) gomap) go_result)
    \<Rightarrow> Pipeline \<Rightarrow> TaskSpec \<Rightarrow> object_meta \<Rightarrow> int \<Rightarrow> (exec_error, executor) go_result" where
  "NewExecutor env container_of labels_of pipeline spec pod port =
     (case exec_output_addresses (xe_sha1 env) (ts_Outputs spec) (om_Annotations pod) [] of
        Inl e \<Rightarrow> Inl e
      | Inr addresses \<Rightarrow>
     (case GetDNSName (xe_Getenv env) of
        Inl v \<Rightarrow> Inl (NoEnvironment v)
      | Inr dnsName \<Rightarrow>
     (case GetServiceAccountName (xe_Getenv env) of
        Inl v \<Rightarrow> Inl (NoEnvironment v)
      | Inr serviceName \<Rightarrow>
     (case (if annotation pod AnnTaskExecutorContainer = [] then Inr None
            else case container_of (annotation pod AnnTaskExecutorContainer) of
                   Inl e \<Rightarrow> Inl e | Inr c \<Rightarrow> Inr (Some c)) of
        Inl e \<Rightarrow> Inl (BadAnnotation e)
      | Inr taskExecContainer \<Rightarrow>
     (case (if annotation pod AnnTaskExecutorLabels = [] then Inr []
            else labels_of (annotation pod AnnTaskExecutorLabels)) of
        Inl e \<Rightarrow> Inl (BadAnnotation e)
      | Inr taskExecLabels \<Rightarrow>
          Inr \<lparr>ex_Pipeline = pipeline, ex_TaskSpec = spec, ex_OutputAddresses = addresses,
               ex_TaskExecContainer = taskExecContainer, ex_TaskExecLabels = taskExecLabels,
               ex_ServiceName = serviceName, ex_MyPod = pod, ex_DNSName = dnsName,
               ex_ServicesPort = port\<rparr>)))))"

section \<open>Building inputs and outputs\<close>

definition createExecContainer :: "executor \<Rightarrow> (exec_error, container) go_result" where
  "createExecContainer ex =
     (case ts_Executor (ex_TaskSpec ex) of
        Some c \<Rightarrow> Inr c
      | None \<Rightarrow> (case ex_TaskExecContainer ex of Some c \<Rightarrow> Inr c | None \<Rightarrow> Inl NoExecutorContainer))"

definition input_config ::
  "executor \<Rightarrow> TaskInputSpec \<Rightarrow> string \<Rightarrow> nat \<Rightarrow> AnnotatedValue \<Rightarrow> ExecutorInputBuilderConfig" where
  "input_config ex tis ownerRef index av =
     \<lparr>ic_InputSpec = tis, ic_TaskSpec = ex_TaskSpec ex, ic_Pipeline = ex_Pipeline ex,
      ic_AnnotatedValue = av, ic_AnnotatedValueIndex = index, ic_OwnerRef = ownerRef\<rparr>"

text \<open>The loop over the sequence of an input; \<open>index\<close> is the position of the first value left.\<close>

fun build_values ::
  "('a, 'w) exec_env \<Rightarrow> executor \<Rightarrow> TaskInputSpec \<Rightarrow> string \<Rightarrow> nat \<Rightarrow> AnnotatedValue list
    \<Rightarrow> ExecutorInputBuilderTarget \<Rightarrow> 'w \<Rightarrow> exec_error error_only \<times> ExecutorInputBuilderTarget \<times> 'w" where
  "build_values env ex tis ownerRef index [] target w = (None, target, w)"
| "build_values env ex tis ownerRef index (av # avSeq) target w =
     (case GetExecutorInputBuilder (GetDataScheme (av_Data av)) of
        None \<Rightarrow> (Some (NoInputBuilder (GetDataScheme (av_Data av))), target, w)
      | Some build \<Rightarrow>
          (case build env (input_config ex tis ownerRef index av) target w of
             (Some e, target, w) \<Rightarrow> (Some e, target, w)
           | (None, target, w) \<Rightarrow> build_values env ex tis ownerRef (Suc index) avSeq target w))"

definition buildTaskInput ::
  "('a, 'w) exec_env \<Rightarrow> executor \<Rightarrow> TaskInputSpec \<Rightarrow> AnnotatedValue list \<Rightarrow> string
    \<Rightarrow> ExecutorInputBuilderTarget \<Rightarrow> 'w \<Rightarrow> exec_error error_only \<times> ExecutorInputBuilderTarget \<times> 'w" where
  "buildTaskInput env ex tis avSeq ownerRef target w = build_values env ex tis ownerRef 0 avSeq target w"

definition buildTaskOutput ::
  "('a, 'w) exec_env \<Rightarrow> executor \<Rightarrow> TaskOutputSpec \<Rightarrow> string
    \<Rightarrow> ExecutorOutputBuilderTarget \<Rightarrow> 'w \<Rightarrow> exec_error error_only \<times> ExecutorOutputBuilderTarget \<times> 'w" where
  "buildTaskOutput env ex tos ownerRef target w =
     (let protocol = (case TypeByName (pl_Spec (ex_Pipeline ex)) (tos_TypeRef tos) of
          Some t \<Rightarrow> ty_Protocol t | None \<Rightarrow> [])
      in case GetExecutorOutputBuilder protocol of
           None \<Rightarrow> (Some (NoOutputBuilder protocol), target, w)
         | Some build \<Rightarrow>
             build env \<lparr>oc_OutputSpec = tos, oc_TaskSpec = ex_TaskSpec ex, oc_Pipeline = ex_Pipeline ex,
                        oc_OwnerRef = ownerRef\<rparr> target w)"

section \<open>Configuring the container\<close>

text \<open>The variables of \<open>configureExecContainer\<close>.\<close>

record exec_build =
  eb_Container :: container
  eb_Pod :: exec_pod
  eb_NodeName :: "string option"
  eb_Resources :: "exec_object list"
  eb_Inputs :: "(string, template_input) gomap"
  eb_Outputs :: "(string, template_map) gomap"
  eb_Processors :: "fileOutputProcessor list"

definition input_target :: "exec_build \<Rightarrow> ExecutorInputBuilderTarget" where
  "input_target b = \<lparr>it_Container = eb_Container b, it_Pod = eb_Pod b, it_NodeName = eb_NodeName b,
     it_TemplateData = [], it_Resources = []\<rparr>"

definition output_target :: "exec_build \<Rightarrow> ExecutorOutputBuilderTarget" where
  "output_target b = \<lparr>ot_Container = eb_Container b, ot_Pod = eb_Pod b, ot_NodeName = eb_NodeName b,
     ot_TemplateData = [], ot_Resources = [], ot_OutputProcessor = None\<rparr>"

definition add_template_input ::
  "TaskInputSpec \<Rightarrow> template_map list \<Rightarrow> (string, template_input) gomap \<Rightarrow> (string, template_input) gomap" where
  "add_template_input tis data inputs =
     (if GetMaxSequenceLength tis > 1 then AList.update (tis_Name tis) (SequenceInput data) inputs
      else if length data > 0 then AList.update (tis_Name tis) (SingleInput (hd data)) inputs
      else inputs)"

fun build_task_inputs ::
  "('a, 'w) exec_env \<Rightarrow> executor \<Rightarrow> 'a InputSnapshot \<Rightarrow> string \<Rightarrow> TaskInputSpec list \<Rightarrow> exec_build \<Rightarrow> 'w
    \<Rightarrow> exec_error error_only \<times> exec_build \<times> 'w" where
  "build_task_inputs env ex args ownerRef [] b w = (None, b, w)"
| "build_task_inputs env ex args ownerRef (tis # inputs) b w =
     (case buildTaskInput env ex tis (GetSequence args (tis_Name tis)) ownerRef (input_target b) w of
        (Some e, target, w) \<Rightarrow>
          (Some e, b\<lparr>eb_Container := it_Container target, eb_Pod := it_Pod target\<rparr>, w)
      | (None, target, w) \<Rightarrow>
          build_task_inputs env ex args ownerRef inputs
            (b\<lparr>eb_Container := it_Container target, eb_Pod := it_Pod target,
               eb_Inputs := add_template_input tis (it_TemplateData target) (eb_Inputs b),
               eb_NodeName := it_NodeName target,
               eb_Resources := eb_Resources b @ it_Resources target\<rparr>) w)"

fun build_task_outputs ::
  "('a, 'w) exec_env \<Rightarrow> executor \<Rightarrow> string \<Rightarrow> TaskOutputSpec list \<Rightarrow> exec_build \<Rightarrow> 'w
    \<Rightarrow> exec_error error_only \<times> exec_build \<times> 'w" where
  "build_task_outputs env ex ownerRef [] b w = (None, b, w)"
| "build_task_outputs env ex ownerRef (tos # outputs) b w =
     (case buildTaskOutput env ex tos ownerRef (output_target b) w of
        (Some e, target, w) \<Rightarrow>
          (Some e, b\<lparr>eb_Container := ot_Container target, eb_Pod := ot_Pod target\<rparr>, w)
      | (None, target, w) \<Rightarrow>
          build_task_outputs env ex ownerRef outputs
            (b\<lparr>eb_Container := ot_Container target, eb_Pod := ot_Pod target,
               eb_Outputs := AList.update (tos_Name tos) (ot_TemplateData target) (eb_Outputs b),
               eb_NodeName := ot_NodeName target,
               eb_Resources := eb_Resources b @ ot_Resources target,
               eb_Processors := eb_Processors b
                 @ (case ot_OutputProcessor target of Some p \<Rightarrow> [p] | None \<Rightarrow> [])\<rparr>) w)"

text \<open>\<open>BuildPipelineDataMap\<close>: the service name of every task that has a service.\<close>

definition task_data :: "('a, 'w) exec_env \<Rightarrow> Pipeline \<Rightarrow> TaskSpec \<Rightarrow> string option" where
  "task_data env pl ts =
     (case ts_Service ts of
        None \<Rightarrow> None
      | Some svc \<Rightarrow> Some (CreateTaskExecutorDNSName (xe_sha1 env) (pl_Name pl) (ts_Name ts) (pl_Namespace pl)))"

definition BuildPipelineDataMap :: "('a, 'w) exec_env \<Rightarrow> Pipeline \<Rightarrow> (string, string option) gomap" where
  "BuildPipelineDataMap env pl =
     foldl (\<lambda>m ts. AList.update (ts_Name ts) (task_data env pl ts) m) [] (ps_Tasks (pl_Spec pl))"

fun apply_templates ::
  "('a, 'w) exec_env \<Rightarrow> template_data \<Rightarrow> string list \<Rightarrow> 'w \<Rightarrow> (exec_error, string list) go_result \<times> 'w" where
  "apply_templates env data [] w = (Inr [], w)"
| "apply_templates env data (source # sources) w =
     (case xe_ApplyTemplate env source data w of
        (Inl e, w) \<Rightarrow> (Inl (BadTemplate e), w)
      | (Inr r, w) \<Rightarrow>
          (case apply_templates env data sources w of
             (Inl e, w) \<Rightarrow> (Inl e, w)
           | (Inr rs, w) \<Rightarrow> (Inr (r # rs), w)))"

definition apply_to_list ::
  "('a, 'w) exec_env \<Rightarrow> template_data \<Rightarrow> string list option \<Rightarrow> 'w
    \<Rightarrow> (exec_error, string list option) go_result \<times> 'w" where
  "apply_to_list env data sources w =
     (case sources of
        None \<Rightarrow> (Inr None, w)
      | Some ss \<Rightarrow> (case apply_templates env data ss w of
          (Inl e, w) \<Rightarrow> (Inl e, w) | (Inr rs, w) \<Rightarrow> (Inr (Some rs), w)))"

definition plain_env :: "string \<Rightarrow> string \<Rightarrow> env_var" where
  "plain_env k v = \<lparr>ev_Name = k, ev_Value = v, ev_FieldPath = None\<rparr>"

definition field_env :: "string \<Rightarrow> string \<Rightarrow> env_var" where
  "field_env k path = \<lparr>ev_Name = k, ev_Value = [], ev_FieldPath = Some path\<rparr>"

definition exec_environment :: "('a, 'w) exec_env \<Rightarrow> executor \<Rightarrow> env_var list" where
  "exec_environment env ex =
     (let address = JoinHostPort (ex_DNSName ex) (itoa_int (ex_ServicesPort ex))
      in [plain_env EnvOutputReadyNotifierAddress address,
          plain_env EnvOutputFileSystemServiceAddress address,
          plain_env EnvSnapshotServiceAddress address,
          plain_env EnvFileSystemAddress (xe_Getenv env EnvFileSystemAddress),
          plain_env EnvFileSystemScheme SchemeFile,
          field_env EnvNamespace ''metadata.namespace'',
          field_env EnvPodName ''metadata.name''])"

definition start_build :: "container \<Rightarrow> exec_pod \<Rightarrow> exec_build" where
  "start_build c pod = \<lparr>eb_Container = c, eb_Pod = pod, eb_NodeName = None, eb_Resources = [],
     eb_Inputs = [], eb_Outputs = [], eb_Processors = []\<rparr>"

definition template_data_of :: "('a, 'w) exec_env \<Rightarrow> executor \<Rightarrow> exec_build \<Rightarrow> template_data" where
  "template_data_of env ex b =
     \<lparr>td_Tasks = BuildPipelineDataMap env (ex_Pipeline ex), td_Task = ex_TaskSpec ex,
      td_Inputs = eb_Inputs b, td_Outputs = eb_Outputs b\<rparr>"

definition configureExecContainer ::
  "('a, 'w) exec_env \<Rightarrow> executor \<Rightarrow> 'a InputSnapshot \<Rightarrow> container \<Rightarrow> exec_pod \<Rightarrow> string \<Rightarrow> 'w
    \<Rightarrow> exec_error error_only \<times> exec_build \<times> 'w" where
  "configureExecContainer env ex args c pod ownerRef w =
     (case build_task_inputs env ex args ownerRef (SnapshotInputs (ex_TaskSpec ex)) (start_build c pod) w of
        (Some e, b, w) \<Rightarrow> (Some e, b, w)
      | (None, b, w) \<Rightarrow>
     (case build_task_outputs env ex ownerRef (ts_Outputs (ex_TaskSpec ex)) b w of
        (Some e, b, w) \<Rightarrow> (Some e, b, w)
      | (None, b, w) \<Rightarrow>
     (case apply_to_list env (template_data_of env ex b) (c_Command (eb_Container b)) w of
        (Inl e, w) \<Rightarrow> (Some e, b, w)
      | (Inr command, w) \<Rightarrow>
     (case apply_to_list env (template_data_of env ex b) (c_Args (eb_Container b)) w of
        (Inl e, w) \<Rightarrow> (Some e, b, w)
      | (Inr args', w) \<Rightarrow>
          (None, b\<lparr>eb_Container := (eb_Container b)\<lparr>c_Command := command, c_Args := args',
                     c_Env := c_Env (eb_Container b) @ exec_environment env ex\<rparr>\<rparr>, w)))))"

section \<open>The service proxy\<close>

definition gobetweenConfFileName :: string where "gobetweenConfFileName = ''gobetween.toml''"

definition quoted :: "string \<Rightarrow> string" where
  "quoted s = CHR 0x22 # s @ [CHR 0x22]"

definition proxy_lines :: "ServicePortSpec \<Rightarrow> string list" where
  "proxy_lines sps =
     [''[servers.'' @ sps_Name sps @ '']'',
      ''bind = '' @ quoted ('':'' @ itoa_int (sps_Port sps)),
      ''protocol = '' @ quoted ''tcp'',
      ''[servers.'' @ sps_Name sps @ ''.discovery]'',
      ''kind = '' @ quoted ''static'',
      ''static_list = ['' @ quoted (''127.0.0.1:'' @ itoa_int (sps_LocalPort sps) @ '' weight=1'') @ '']'']"

definition proxy_config_map :: "executor \<Rightarrow> string \<Rightarrow> string list \<Rightarrow> config_map" where
  "proxy_config_map ex ownerRef config =
     \<lparr>cm_Meta = \<lparr>om_Name = om_Name (ex_MyPod ex), om_Namespace = om_Namespace (ex_MyPod ex),
        om_Labels = [], om_Annotations = [], om_Owners = [ownerRef]\<rparr>,
      cm_Data = [(gobetweenConfFileName, join_with [CHR 0x0A] config)], cm_BinaryData = []\<rparr>"

definition ensureProxyConfigMap ::
  "('a, 'w) exec_env \<Rightarrow> executor \<Rightarrow> string \<Rightarrow> 'w \<Rightarrow> (exec_error, string) go_result \<times> 'w" where
  "ensureProxyConfigMap env ex ownerRef w =
     (case ts_Service (ex_TaskSpec ex) of
        None \<Rightarrow> (Inr [], w)
      | Some svc \<Rightarrow>
          let config = concat (map proxy_lines (filter NeedsProxy (svc_Ports svc)))
          in if length config = 0 then (Inr [], w)
             else let cm = proxy_config_map ex ownerRef config
                  in (case EnsureConfigMap (xe_ConfigMaps env) cm w of
                        (Some e, w) \<Rightarrow> (Inl (ExecApi e), w)
                      | (None, w) \<Rightarrow> (Inr (om_Name (cm_Meta cm)), w)))"

text \<open>No proxy without a service or a configuration; the call cannot fail.\<close>

definition createProxyContainer :: "executor \<Rightarrow> string \<Rightarrow> (container \<times> volume list) option" where
  "createProxyContainer ex configMapName =
     (case ts_Service (ex_TaskSpec ex) of
        None \<Rightarrow> None
      | Some svc \<Rightarrow>
          if configMapName = [] then None
          else Some
            (\<lparr>c_Name = ''proxy'', c_Image = ''yyyar/gobetween'',
              c_Command = Some [''gobetween'', ''from-file'',
                path_Join [''/proxy/config'', gobetweenConfFileName]],
              c_Args = None, c_Env = [],
              c_Ports = map (\<lambda>sps. \<lparr>cp_Name = sps_Name sps, cp_ContainerPort = sps_Port sps,
                  cp_Protocol = ''TCP''\<rparr>) (filter NeedsProxy (svc_Ports svc)),
              c_VolumeMounts = [\<lparr>vm_Name = ''proxy-config'', vm_ReadOnly = False,
                  vm_MountPath = ''/proxy/config'', vm_SubPath = []\<rparr>], c_Privileged = None\<rparr>,
             [\<lparr>vol_Name = ''proxy-config'', vol_Source = VS_ConfigMap configMapName None\<rparr>]))"

section \<open>Waiting for the pod\<close>

record container_status =
  cst_Name :: string
  cst_Terminated :: "int option"

text \<open>A nil label map is \<open>None\<close>; a change received from the closed channel is a nil pod.\<close>

record pod_change =
  ch_Name :: string
  ch_Labels :: "(string, string) gomap option"
  ch_Phase :: string
  ch_ContainerStatuses :: "container_status list"

datatype exec_event =
    URIRequest string string bool
  | PodChange "pod_change option"
  | CtxDone

datatype wait_outcome = StillWaiting | PodDone | WaitFailed exec_error | WaitPanic

definition PodSucceeded :: string where "PodSucceeded = ''Succeeded''"

fun container_outcome :: "string \<Rightarrow> container_status list \<Rightarrow> wait_outcome" where
  "container_outcome execName [] = StillWaiting"
| "container_outcome execName (cs # rest) =
     (if cst_Name cs = execName then
        (case cst_Terminated cs of
           None \<Rightarrow> container_outcome execName rest
         | Some code \<Rightarrow> if code = 0 then PodDone else WaitFailed ContainerHasFailed)
      else container_outcome execName rest)"

definition is_my_pod :: "string \<Rightarrow> string \<Rightarrow> pod_change \<Rightarrow> bool" where
  "is_my_pod podName uid change \<longleftrightarrow>
     ch_Name change = podName \<and>
     (case ch_Labels change of
        None \<Rightarrow> True
      | Some lbls \<Rightarrow> (case map_of lbls ''uid'' of Some u \<Rightarrow> u = uid | None \<Rightarrow> uid = []))"

definition on_pod_change :: "string \<Rightarrow> string \<Rightarrow> string \<Rightarrow> pod_change \<Rightarrow> wait_outcome" where
  "on_pod_change podName uid execName change =
     (if \<not> is_my_pod podName uid change then StillWaiting
      else if ch_Phase change = PodSucceeded then PodDone
      else if ch_Phase change = PodFailed then WaitFailed PodHasFailed
      else container_outcome execName (ch_ContainerStatuses change))"

definition createFileSystemURIRequestHandler ::
  "('a, 'w) exec_env \<Rightarrow> fileOutputProcessor list \<Rightarrow> string \<Rightarrow> string \<Rightarrow> bool \<Rightarrow> 'w
    \<Rightarrow> (exec_error, string) go_result \<times> 'w" where
  "createFileSystemURIRequestHandler env processors outputName localPath isDir w =
     (case find (\<lambda>p. fp_OutputName p = outputName) processors of
        None \<Rightarrow> (Inl (UnknownOutput outputName), w)
      | Some p \<Rightarrow> processor_CreateFileURI env p localPath isDir w)"

text \<open>
  The loop over the events that the select statement receives, in that order.  It returns why it
  ended, and the responses of the requests for URIs it has handled.
\<close>

fun wait_loop ::
  "('a, 'w) exec_env \<Rightarrow> fileOutputProcessor list \<Rightarrow> exec_pod \<Rightarrow> string \<Rightarrow> string \<Rightarrow> exec_event list \<Rightarrow> 'w
    \<Rightarrow> wait_outcome \<times> (exec_error, string) go_result list \<times> 'w" where
  "wait_loop env processors pod uid execName [] w = (StillWaiting, [], w)"
| "wait_loop env processors pod uid execName (URIRequest n p d # events) w =
     (case createFileSystemURIRequestHandler env processors n p d w of
        (r, w) \<Rightarrow> (case wait_loop env processors pod uid execName events w of
          (out', rs, w) \<Rightarrow> (out', r # rs, w)))"
| "wait_loop env processors pod uid execName (PodChange change # events) w =
     (case change of
        None \<Rightarrow> (WaitPanic, [], w)
      | Some ch \<Rightarrow>
          if on_pod_change (om_Name (ep_Meta pod)) uid execName ch = StillWaiting
          then wait_loop env processors pod uid execName events w
          else (on_pod_change (om_Name (ep_Meta pod)) uid execName ch, [], w))"
| "wait_loop env processors pod uid execName (CtxDone # events) w =
     (WaitFailed ContextDone, [], snd (xe_Delete env (X_Pod pod) w))"

text \<open>
  What the informer of \<open>Run\<close> hands over: a pod, the last known state of a deleted object, which
  need not be a pod, or something else; only pods are sent into the channel.
\<close>

datatype informer_object = InformerPod pod_change | InformerTombstone "pod_change option" | InformerOther

definition getPod :: "informer_object \<Rightarrow> pod_change option" where
  "getPod obj = (case obj of InformerPod p \<Rightarrow> Some p | InformerTombstone t \<Rightarrow> t | InformerOther \<Rightarrow> None)"

text \<open>The changes that wait in the channel, and the nil pods after \<open>Run\<close> has closed it.\<close>

definition pod_changes :: "informer_object list \<Rightarrow> exec_event list" where
  "pod_changes objs = map (\<lambda>p. PodChange (Some p)) (List.map_filter getPod objs)"

section \<open>Execute\<close>

fun process_results ::
  "('a, 'w) exec_env \<Rightarrow> 'a InputSnapshot \<Rightarrow> fileOutputProcessor list \<Rightarrow> 'w
    \<Rightarrow> (exec_error error_only \<times> 'w) option" where
  "process_results env args [] w = Some (None, w)"
| "process_results env args (p # ps) w =
     (case processor_Process env p args w of
        None \<Rightarrow> None
      | Some (Some e, w) \<Rightarrow> Some (Some e, w)
      | Some (None, w) \<Rightarrow> process_results env args ps w)"

text \<open>The deferred clean-up; a failed deletion is logged.\<close>

definition delete_all :: "('a, 'w) exec_env \<Rightarrow> exec_object list \<Rightarrow> 'w \<Rightarrow> 'w" where
  "delete_all env resources w = foldl (\<lambda>w r. snd (xe_Delete env r w)) w resources"

datatype exec_result = ExecWaiting | ExecPanicked | ExecReturned "exec_error error_only"

definition executor_labels :: "executor \<Rightarrow> (string, string) gomap" where
  "executor_labels ex =
     AList.update ''task'' (ts_Name (ex_TaskSpec ex))
       (AList.update ''pipeline'' (pl_Name (ex_Pipeline ex)) (CloneLabels (ex_TaskExecLabels ex)))"

text \<open>The pod before its container is configured, which is added when it is launched.\<close>

definition new_pod :: "('a, 'w) exec_env \<Rightarrow> executor \<Rightarrow> string \<Rightarrow> string \<Rightarrow> exec_pod" where
  "new_pod env ex uid ownerRef =
     \<lparr>ep_Meta = \<lparr>om_Name = FixupKubernetesName (xe_sha1 env)
          (pl_Name (ex_Pipeline ex) @ ''-x-'' @ ts_Name (ex_TaskSpec ex) @ ''-'' @ uid),
        om_Namespace = om_Namespace (ex_MyPod ex), om_Labels = AList.update ''uid'' uid (executor_labels ex),
        om_Annotations = [], om_Owners = [ownerRef]\<rparr>,
      ep_Containers = [], ep_Volumes = [], ep_NodeName = [], ep_RestartPolicy = ''Never'',
      ep_ServiceAccountName = ex_ServiceName ex\<rparr>"

definition with_containers :: "container \<Rightarrow> (container \<times> volume list) option \<Rightarrow> exec_pod \<Rightarrow> exec_pod" where
  "with_containers c proxy pod =
     (case proxy of
        None \<Rightarrow> pod\<lparr>ep_Containers := [c]\<rparr>
      | Some (pc, vols) \<Rightarrow> pod\<lparr>ep_Containers := [c, pc], ep_Volumes := ep_Volumes pod @ vols\<rparr>)"

text \<open>From the proxy to the launched pod.\<close>

definition launch ::
  "('a, 'w) exec_env \<Rightarrow> executor \<Rightarrow> exec_build \<Rightarrow> string \<Rightarrow> 'w \<Rightarrow> (exec_error, exec_pod) go_result \<times> 'w" where
  "launch env ex b ownerRef w =
     (case ensureProxyConfigMap env ex ownerRef w of
        (Inl e, w) \<Rightarrow> (Inl e, w)
      | (Inr configMapName, w) \<Rightarrow>
          let pod = with_containers (eb_Container b) (createProxyContainer ex configMapName) (eb_Pod b)
          in (case xe_Create env (X_Pod pod) w of
                (Some e, w) \<Rightarrow> (Inl (ExecApi e), w)
              | (None, w) \<Rightarrow> (Inr pod, w)))"

text \<open>After the wait: results are processed and the pod is deleted only when both went well.\<close>

definition finish ::
  "('a, 'w) exec_env \<Rightarrow> 'a InputSnapshot \<Rightarrow> exec_build \<Rightarrow> exec_pod \<Rightarrow> wait_outcome \<Rightarrow> 'w
    \<Rightarrow> (exec_result \<times> 'w) option" where
  "finish env args b pod out' w =
     (case out' of
        StillWaiting \<Rightarrow> Some (ExecWaiting, w)
      | WaitPanic \<Rightarrow> Some (ExecPanicked, w)
      | WaitFailed e \<Rightarrow> Some (ExecReturned (Some e), w)
      | PodDone \<Rightarrow>
          (case process_results env args (eb_Processors b) w of
             None \<Rightarrow> None
           | Some (Some e, w) \<Rightarrow> Some (ExecReturned (Some e), w)
           | Some (None, w) \<Rightarrow> Some (ExecReturned None, snd (xe_Delete env (X_Pod pod) w))))"

text \<open>The deferred function runs unless the call is still waiting.\<close>

definition cleanup :: "('a, 'w) exec_env \<Rightarrow> exec_build \<Rightarrow> exec_result \<Rightarrow> 'w \<Rightarrow> 'w" where
  "cleanup env b r w = (if r = ExecWaiting then w else delete_all env (eb_Resources b) w)"

record exec_run =
  er_Result :: exec_result
  er_Responses :: "(exec_error, string) go_result list"
  er_PodGC :: podGC

definition Execute_configured ::
  "('a, 'w) exec_env \<Rightarrow> executor \<Rightarrow> 'a InputSnapshot \<Rightarrow> exec_event list \<Rightarrow> podGC \<Rightarrow> string \<Rightarrow> string
    \<Rightarrow> exec_build \<Rightarrow> 'w \<Rightarrow> (exec_run \<times> 'w) option" where
  "Execute_configured env ex args events gc uid ownerRef b w =
     (case launch env ex b ownerRef w of
        (Inl e, w) \<Rightarrow>
          Some (\<lparr>er_Result = ExecReturned (Some e), er_Responses = [], er_PodGC = gc\<rparr>,
                cleanup env b (ExecReturned (Some e)) w)
      | (Inr pod, w) \<Rightarrow>
          (case wait_loop env (eb_Processors b) pod uid (c_Name (eb_Container b)) events w of
             (out', responses, w) \<Rightarrow>
               (case finish env args b pod out' w of
                  None \<Rightarrow> None
                | Some (r, w) \<Rightarrow>
                    Some (\<lparr>er_Result = r, er_Responses = responses,
                           er_PodGC = gc_Set (executor_labels ex) (om_Namespace (ep_Meta pod)) gc\<rparr>,
                          cleanup env b r w))))"

definition Execute ::
  "('a, 'w) exec_env \<Rightarrow> executor \<Rightarrow> 'a InputSnapshot \<Rightarrow> exec_event list \<Rightarrow> podGC \<Rightarrow> 'w
    \<Rightarrow> (exec_run \<times> 'w) option" where
  "Execute env ex args events gc w =
     (case xe_NewLen env 6 w of
        (uid, w) \<Rightarrow>
          (case createExecContainer ex of
             Inl e \<Rightarrow> Some (\<lparr>er_Result = ExecReturned (Some e), er_Responses = [], er_PodGC = gc\<rparr>, w)
           | Inr c \<Rightarrow>
               let c = (if c_Name c = [] then c\<lparr>c_Name := ''executor''\<rparr> else c);
                   ownerRef = om_Name (ex_MyPod ex)
               in (case configureExecContainer env ex args c (new_pod env ex uid ownerRef) ownerRef w of
                     (Some e, b, w) \<Rightarrow>
                       Some (\<lparr>er_Result = ExecReturned (Some e), er_Responses = [], er_PodGC = gc\<rparr>,
                             cleanup env b (ExecReturned (Some e)) w)
                   | (None, b, w) \<Rightarrow> Execute_configured env ex args events gc uid ownerRef b w)))"

section \<open>Functions of templates, and the URI of a task\<close>

datatype read_error = ReadDataURI string | ReadFileView string | ReadUnknownScheme string

text \<open>The file system service gives the content of a file.\<close>

definition ReadURI ::
  "(string \<Rightarrow> (string, nat list) go_result) \<Rightarrow> (string \<Rightarrow> bool \<Rightarrow> (string, nat list) go_result) \<Rightarrow> string
    \<Rightarrow> (read_error, nat list) go_result" where
  "ReadURI decode createFileView uri =
     (let scheme = GetDataScheme uri
      in if scheme = SchemeData then
           (case decode uri of Inl e \<Rightarrow> Inl (ReadDataURI e) | Inr d \<Rightarrow> Inr d)
         else if scheme = SchemeFile then
           (case createFileView uri False of Inl e \<Rightarrow> Inl (ReadFileView e) | Inr content \<Rightarrow> Inr content)
         else Inl (ReadUnknownScheme scheme))"

definition newTaskURI :: "(string \<Rightarrow> string) \<Rightarrow> string \<Rightarrow> int \<Rightarrow> string list \<Rightarrow> string" where
  "newTaskURI sha1_hex dnsName port imageIDs =
     ''task://'' @ dnsName @ '':'' @ itoa_int port @ ''/'' @ take 8 (sha1_hex (join_with '','' imageIDs))"

end
