(* ===== verification/Executor_Cleanup.thy ===== *)
theory Executor_Cleanup
  imports Executor
begin

text \<open>
  What the executor leaves behind: the objects it creates and deletes, observed by a client that
  records its calls.
\<close>

section \<open>A recording client\<close>

text \<open>
  The client \<open>recording env\<close> behaves like \<open>env\<close> and keeps a log of the successful creations and
  of all deletions, with their outcome, in its world.  The client of controller-runtime does not look
  at the context of a call (\<open>typed_client.go\<close>), so a deletion after the context has ended is a call
  like any other.
\<close>

datatype api_call = Created exec_object | Deleted exec_object | DeleteFailed exec_object

definition attempt :: "exec_object \<Rightarrow> api_call \<Rightarrow> bool" where
  "attempt x c \<longleftrightarrow> c = Deleted x \<or> c = DeleteFailed x"

type_synonym 'w logged = "'w \<times> api_call list"

definition on_world :: "('w \<Rightarrow> 'r \<times> 'w) \<Rightarrow> 'w logged \<Rightarrow> 'r \<times> 'w logged" where
  "on_world f wl = (case f (fst wl) of (r, w) \<Rightarrow> (r, (w, snd wl)))"

definition recording :: "('a, 'w) exec_env \<Rightarrow> ('a, 'w logged) exec_env" where
  "recording env =
     \<lparr>xe_GetPV = (\<lambda>n wl. xe_GetPV env n (fst wl)), xe_GetPVC = (\<lambda>n ns wl. xe_GetPVC env n ns (fst wl)),
      xe_Create = (\<lambda>x wl. case xe_Create env x (fst wl) of
         (Some e, w) \<Rightarrow> (Some e, (w, snd wl)) | (None, w) \<Rightarrow> (None, (w, snd wl @ [Created x]))),
      xe_Delete = (\<lambda>x wl. case xe_Delete env x (fst wl) of
         (e, w) \<Rightarrow> (e, (w, snd wl @ [if e = None then Deleted x else DeleteFailed x]))),
      xe_ConfigMaps = \<lparr>kc_Get = (\<lambda>n ns wl. kc_Get (xe_ConfigMaps env) n ns (fst wl)),
         kc_Create = (\<lambda>x. on_world (kc_Create (xe_ConfigMaps env) x)),
         kc_Update = (\<lambda>x. on_world (kc_Update (xe_ConfigMaps env) x))\<rparr>,
      xe_CreateVolumeForRead = (\<lambda>u own ns. on_world (xe_CreateVolumeForRead env u own ns)),
      xe_CreateVolumeForWrite = (\<lambda>n own ns. on_world (xe_CreateVolumeForWrite env n own ns)),
      xe_CreateFileURI = (\<lambda>q. on_world (xe_CreateFileURI env q)),
      xe_NewLen = (\<lambda>n. on_world (xe_NewLen env n)),
      xe_DecodeString = xe_DecodeString env,
      xe_ApplyTemplate = (\<lambda>s d. on_world (xe_ApplyTemplate env s d)),
      xe_Publish = (\<lambda>n av sn. on_world (xe_Publish env n av sn)),
      xe_Sleep = (\<lambda>d. on_world (xe_Sleep env d)),
      xe_Getenv = xe_Getenv env, xe_sha1 = xe_sha1 env\<rparr>"

lemma on_world_log: "on_world f wl = (r, wl') \<Longrightarrow> snd wl' = snd wl"
  by (auto simp: on_world_def split: prod.splits)

lemma recording_log:
  "xe_CreateVolumeForRead (recording env) u own ns wl = (r, wl') \<Longrightarrow> snd wl' = snd wl"
  "xe_CreateVolumeForWrite (recording env) u own ns wl = (r, wl') \<Longrightarrow> snd wl' = snd wl"
  "xe_CreateFileURI (recording env) q wl = (r2, wl') \<Longrightarrow> snd wl' = snd wl"
  "xe_NewLen (recording env) n wl = (r3, wl') \<Longrightarrow> snd wl' = snd wl"
  "xe_ApplyTemplate (recording env) s d wl = (r2, wl') \<Longrightarrow> snd wl' = snd wl"
  "xe_Publish (recording env) s av sn wl = (r4, wl') \<Longrightarrow> snd wl' = snd wl"
  "xe_Sleep (recording env) t wl = (r5, wl') \<Longrightarrow> snd wl' = snd wl"
  "xe_Create (recording env) x wl = (Some e, wl') \<Longrightarrow> snd wl' = snd wl"
  "xe_Create (recording env) x wl = (None, wl') \<Longrightarrow> snd wl' = snd wl @ [Created x]"
  "xe_Delete (recording env) x wl = (e', wl') \<Longrightarrow> \<exists>c. snd wl' = snd wl @ [c] \<and> attempt x c"
  by (auto simp: attempt_def recording_def dest: on_world_log split: prod.splits option.splits)

section \<open>The builders keep track of what they create\<close>

text \<open>Between two moments only objects were created, and all of them are among the new resources.\<close>

definition tracks :: "api_call list \<Rightarrow> exec_object list \<Rightarrow> api_call list \<Rightarrow> exec_object list \<Rightarrow> bool" where
  "tracks log resources log' resources' \<longleftrightarrow>
     (\<exists>xs ys. log' = log @ map Created xs \<and> resources' = resources @ ys \<and> set xs \<subseteq> set ys)"

lemma tracks_refl [simp, intro]: "tracks log rs log rs"
  by (auto simp: tracks_def)

lemma tracks_trans: "tracks l1 r1 l2 r2 \<Longrightarrow> tracks l2 r2 l3 r3 \<Longrightarrow> tracks l1 r1 l3 r3"
  unfolding tracks_def
  apply (elim exE conjE)
  subgoal for xs ys xs' ys' by (rule exI [of _ "xs @ ys"], rule exI [of _ "xs' @ ys'"]) auto
  done

lemma tracks_more: "tracks log rs log (rs @ xs)"
  by (auto simp: tracks_def)

lemma tracks_created: "tracks log rs (log @ [Created x]) (rs @ [x])"
  unfolding tracks_def by (rule exI [of _ "[x]"], rule exI [of _ "[x]"]) simp

lemma tracks_shift: "tracks l [] l' ys \<Longrightarrow> tracks l rs l' (rs @ ys)"
  by (auto simp: tracks_def)

lemma mount_created_tracks:
  assumes "mount_created_volume (recording env) cn ns own ro resp v pod rs wl = (r, pod', rs', wl')"
  shows "tracks (snd wl) rs (snd wl') rs'"
proof (cases "xe_GetPV (recording env) (vr_VolumeName resp) wl")
  case (Inr pv)
  define rs1 where "rs1 = (if vr_DeleteAfterUse resp then rs @ [X_PersistentVolume pv] else rs)"
  have more: "tracks l rs l rs1" for l by (simp add: rs1_def tracks_more)
  obtain random w1 where rnd: "xe_NewLen (recording env) 6 wl = (random, w1)" by (rule prod.exhaust)
  define pvc where "pvc = claim_for (FixupKubernetesName (xe_sha1 (recording env)) (cn random)) ns own (vr_VolumeName resp) pv"
  obtain e w2 where cr: "xe_Create (recording env) (X_PersistentVolumeClaim pvc) w1 = (e, w2)" by (rule prod.exhaust)
  show ?thesis
  proof (cases e)
    case None
    then have "wl' = w2 \<and> rs' = rs1 @ [X_PersistentVolumeClaim pvc]"
      using assms Inr rnd cr by (simp add: mount_created_volume_def pvc_def rs1_def Let_def)
    then show ?thesis
      using tracks_trans [OF more tracks_created] recording_log(4) [OF rnd] recording_log(9) [OF cr [unfolded None]]
      by simp
  next
    case (Some err)
    then have "wl' = w2 \<and> rs' = rs1"
      using assms Inr rnd cr by (simp add: mount_created_volume_def pvc_def rs1_def Let_def)
    then show ?thesis using more recording_log(4) [OF rnd] recording_log(8) [OF cr [unfolded Some]] by simp
  qed
qed (use assms in \<open>simp add: mount_created_volume_def\<close>)

lemma mount_existing_tracks:
  "mount_existing_claim (recording env) rb ns ro resp v pod rs wl = (r, pod', rs', wl')
    \<Longrightarrow> tracks (snd wl) rs (snd wl') rs'"
  by (auto simp: mount_existing_claim_def Let_def intro: tracks_more split: sum.splits option.splits if_splits)

lemma mount_host_tracks:
  "mount_host_path resp v pod rs wl = (r, pod', rs', wl') \<Longrightarrow> tracks (snd wl) rs (snd wl') rs'"
  by (auto simp: mount_host_path_def Let_def split: option.splits)

lemma mount_response_tracks:
  "mount_response (recording env) cn rb ns own ro resp v pod rs wl = (r, pod', rs', wl')
    \<Longrightarrow> tracks (snd wl) rs (snd wl') rs'"
  by (auto simp: mount_response_def
      dest: mount_created_tracks mount_existing_tracks mount_host_tracks split: if_splits)

lemma file_input_tracks:
  assumes "fileInputBuilder_Build (recording env) cfg target wl = (r, target', wl')"
  shows "tracks (snd wl) (it_Resources target) (snd wl') (it_Resources target')"
  using assms
  by (auto simp: fileInputBuilder_Build_def Let_def
      dest!: recording_log(1) mount_response_tracks split: prod.splits sum.splits if_splits)

lemma data_input_tracks:
  assumes "dataInputBuilder_Build (recording env) cfg target wl = (r, target', wl')"
  shows "tracks (snd wl) (it_Resources target) (snd wl') (it_Resources target')"
  using assms
  by (auto simp: dataInputBuilder_Build_def Let_def tracks_created
      dest!: recording_log(4,8,9) split: prod.splits sum.splits option.splits)

lemma file_output_tracks:
  assumes "fileOutputBuilder_Build (recording env) cfg target wl = (r, target', wl')"
  shows "tracks (snd wl) (ot_Resources target) (snd wl') (ot_Resources target')"
  using assms
  by (auto simp: fileOutputBuilder_Build_def Let_def
      dest!: recording_log(2) mount_response_tracks split: prod.splits sum.splits)

lemma build_values_tracks:
  "build_values (recording env) ex tis own i avs target wl = (r, target', wl')
    \<Longrightarrow> tracks (snd wl) (it_Resources target) (snd wl') (it_Resources target')"
proof (induction avs arbitrary: i target wl)
  case (Cons av avs)
  show ?case
  proof (cases "GetExecutorInputBuilder (GetDataScheme (av_Data av)) ::
      (('b, 'a logged) exec_env \<Rightarrow> _ \<Rightarrow> _ \<Rightarrow> 'a logged \<Rightarrow> _) option")
    case (Some build)
    obtain e t1 w1 where st: "build (recording env) (input_config ex tis own i av) target wl = (e, t1, w1)"
      by (metis prod_cases3)
    have "tracks (snd wl) (it_Resources target) (snd w1) (it_Resources t1)"
    proof -
      have "build = fileInputBuilder_Build \<or> build = dataInputBuilder_Build"
        using Some by (simp add: GetExecutorInputBuilder_def split: if_splits)
      then show ?thesis using st file_input_tracks data_input_tracks by metis
    qed
    moreover have "tracks (snd w1) (it_Resources t1) (snd wl') (it_Resources target')" if "e = None"
      using Cons.IH [of "Suc i" t1 w1] Cons.prems Some st that by simp
    moreover have "target' = t1 \<and> wl' = w1" if "e \<noteq> None" using Cons.prems Some st that by auto
    ultimately show ?thesis using tracks_trans by metis
  qed (use Cons.prems in auto)
qed simp

lemma build_task_inputs_tracks:
  "build_task_inputs (recording env) ex args own ts b wl = (None, b', wl')
    \<Longrightarrow> tracks (snd wl) (eb_Resources b) (snd wl') (eb_Resources b')"
proof (induction ts arbitrary: b wl)
  case (Cons t ts)
  obtain e t1 w1 where st: "buildTaskInput (recording env) ex t (GetSequence args (tis_Name t)) own
      (input_target b) wl = (e, t1, w1)" by (metis prod_cases3)
  with Cons.prems have "e = None" by (cases e) auto
  have "tracks (snd wl) [] (snd w1) (it_Resources t1)"
    using build_values_tracks [OF st [unfolded buildTaskInput_def]] by (simp add: input_target_def)
  then have "tracks (snd wl) (eb_Resources b) (snd w1) (eb_Resources b @ it_Resources t1)"
    by (rule tracks_shift)
  moreover have "tracks (snd w1) (eb_Resources b @ it_Resources t1) (snd wl') (eb_Resources b')"
    using Cons.IH [OF Cons.prems [simplified st \<open>e = None\<close> build_task_inputs.simps prod.case option.case]] by simp
  ultimately show ?case by (rule tracks_trans)
qed simp

lemma buildTaskOutput_tracks:
  assumes "buildTaskOutput (recording env) ex tos own target wl = (r, target', wl')"
  shows "tracks (snd wl) (ot_Resources target) (snd wl') (ot_Resources target')"
proof -
  define protocol where "protocol =
    (case TypeByName (pl_Spec (ex_Pipeline ex)) (tos_TypeRef tos) of Some t \<Rightarrow> ty_Protocol t | None \<Rightarrow> [])"
  show ?thesis
  proof (cases "protocol = ProtocolFile")
    case True
    then show ?thesis
      using assms file_output_tracks
      by (simp add: buildTaskOutput_def GetExecutorOutputBuilder_def Let_def flip: protocol_def)
  next
    case False
    then show ?thesis
      using assms by (simp add: buildTaskOutput_def GetExecutorOutputBuilder_def Let_def flip: protocol_def)
  qed
qed

lemma build_task_outputs_tracks:
  "build_task_outputs (recording env) ex own ts b wl = (None, b', wl')
    \<Longrightarrow> tracks (snd wl) (eb_Resources b) (snd wl') (eb_Resources b')"
proof (induction ts arbitrary: b wl)
  case (Cons t ts)
  obtain e t1 w1 where st: "buildTaskOutput (recording env) ex t own (output_target b) wl = (e, t1, w1)"
    by (metis prod_cases3)
  with Cons.prems have "e = None" by (cases e) auto
  have "tracks (snd wl) [] (snd w1) (ot_Resources t1)"
    using buildTaskOutput_tracks [OF st] by (simp add: output_target_def)
  then have "tracks (snd wl) (eb_Resources b) (snd w1) (eb_Resources b @ ot_Resources t1)"
    by (rule tracks_shift)
  moreover have "tracks (snd w1) (eb_Resources b @ ot_Resources t1) (snd wl') (eb_Resources b')"
    using Cons.IH [OF Cons.prems [simplified st \<open>e = None\<close> build_task_outputs.simps prod.case option.case]] by simp
  ultimately show ?case by (rule tracks_trans)
qed simp

section \<open>The rest of the execution\<close>

lemma apply_templates_log:
  "apply_templates (recording env) data ss wl = (r, wl') \<Longrightarrow> snd wl' = snd wl"
proof (induction ss arbitrary: r wl wl')
  case (Cons t ss)
  obtain r1 w1 where st: "xe_ApplyTemplate (recording env) t data wl = (r1, w1)" by (rule prod.exhaust)
  obtain r2 w2 where rest: "apply_templates (recording env) data ss w1 = (r2, w2)" by (rule prod.exhaust)
  have "wl' = w1 \<or> wl' = w2" using Cons.prems st rest by (simp split: sum.splits prod.splits)
  then show ?case using Cons.IH [OF rest] recording_log(5) [OF st] by auto
qed simp

lemma apply_to_list_log: "apply_to_list (recording env) data ss wl = (r, wl') \<Longrightarrow> snd wl' = snd wl"
  unfolding apply_to_list_def
  by (cases ss; cases "apply_templates (recording env) data (the ss) wl")
     (auto dest: apply_templates_log split: sum.splits)

lemma configure_tracks:
  assumes "configureExecContainer (recording env) ex args c pod own wl = (None, b, wl')"
  shows "tracks (snd wl) [] (snd wl') (eb_Resources b)"
proof -
  obtain e1 b1 w1 where s1: "build_task_inputs (recording env) ex args own (SnapshotInputs (ex_TaskSpec ex))
      (start_build c pod) wl = (e1, b1, w1)" by (metis prod_cases3)
  obtain e2 b2 w2 where s2: "build_task_outputs (recording env) ex own (ts_Outputs (ex_TaskSpec ex)) b1 w1 = (e2, b2, w2)"
    by (metis prod_cases3)
  obtain r3 w3 where s3: "apply_to_list (recording env) (template_data_of (recording env) ex b2)
      (c_Command (eb_Container b2)) w2 = (r3, w3)" by (rule prod.exhaust)
  obtain r4 w4 where s4: "apply_to_list (recording env) (template_data_of (recording env) ex b2)
      (c_Args (eb_Container b2)) w3 = (r4, w4)" by (rule prod.exhaust)
  have ok: "e1 = None" "e2 = None" "wl' = w4" "eb_Resources b = eb_Resources b2"
    using assms by (auto simp: configureExecContainer_def s1 s2 s3 s4 split: option.splits sum.splits)
  have "snd w4 = snd w2" using apply_to_list_log [OF s3] apply_to_list_log [OF s4] by simp
  moreover have "tracks (snd wl) (eb_Resources (start_build c pod)) (snd w2) (eb_Resources b2)"
    using build_task_inputs_tracks [OF s1 [unfolded ok]] build_task_outputs_tracks [OF s2 [unfolded ok]]
    by (rule tracks_trans)
  ultimately show ?thesis by (simp add: ok start_build_def)
qed

lemma EnsureConfigMap_log:
  "EnsureConfigMap (xe_ConfigMaps (recording env)) cm wl = (r, wl') \<Longrightarrow> snd wl' = snd wl"
  by (auto simp: EnsureConfigMap_def ensure_def recording_def dest: on_world_log split: api_get.splits if_splits)

lemma ensureProxyConfigMap_log:
  assumes "ensureProxyConfigMap (recording env) ex own wl = (r, wl')"
  shows "snd wl' = snd wl"
proof (cases "ts_Service (ex_TaskSpec ex)")
  case (Some svc)
  define config where "config = concat (map proxy_lines (filter NeedsProxy (svc_Ports svc)))"
  obtain e w1 where st: "EnsureConfigMap (xe_ConfigMaps (recording env)) (proxy_config_map ex own config) wl = (e, w1)"
    by (rule prod.exhaust)
  have "wl' = wl \<or> wl' = w1"
    using assms st by (auto simp: ensureProxyConfigMap_def Some Let_def simp flip: config_def split: if_splits option.splits)
  then show ?thesis using EnsureConfigMap_log [OF st] by auto
qed (use assms in \<open>simp add: ensureProxyConfigMap_def\<close>)

lemma publish_loop_log:
  assumes "publish_loop (recording env) n av sn d f wl = Some (r, wl')"
  shows "snd wl' = snd wl"
proof -
  have "env' = recording env \<longrightarrow> snd (snd y) = snd wl" if "publish_loop env' n av sn d f wl = Some y" for env' y
    using that
  proof (rule publish_loop.raw_induct
      [where P = "\<lambda>env' n av sn d f wl y. env' = recording env \<longrightarrow> snd (snd y) = snd wl", rotated])
    fix loop env' n av sn d f wl y
    assume IH: "\<And>env' n av sn d f wl y. loop env' n av sn d f wl = Some y
        \<Longrightarrow> env' = recording env \<longrightarrow> snd (snd y) = snd wl"
      and body: "(case xe_Publish env' n av sn wl of
        (r, w) \<Rightarrow>
          if isl r \<and> Suc f > maxPublishFailures then Some (Some (PublishFailed (projl r)), w)
          else if \<not> isl r \<and> fst (projr r) then Some (None, w)
          else (case xe_Sleep env' d w of
                  (timer, w) \<Rightarrow>
                    if timer then loop env' n av sn (Backoff d 3 2 minute) (if isl r then Suc f else 0) w
                    else Some (Some ContextDone, w))) = Some y"
    show "env' = recording env \<longrightarrow> snd (snd y) = snd wl"
    proof
      assume env: "env' = recording env"
      obtain a w1 where p: "xe_Publish (recording env) n av sn wl = (a, w1)" by (rule prod.exhaust)
      obtain timer w2 where sl: "xe_Sleep (recording env) d w1 = (timer, w2)" by (rule prod.exhaust)
      have logs: "snd w1 = snd wl" "snd w2 = snd wl"
        using recording_log(6) [OF p] recording_log(7) [OF sl] by auto
      consider "y = (Some (PublishFailed (projl a)), w1)" | "y = (None, w1)" | "y = (Some ContextDone, w2)"
        | "loop env' n av sn (Backoff d 3 2 minute) (if isl a then Suc f else 0) w2 = Some y"
        using body unfolding env p sl prod.case by (metis option.inject)
      then show "snd (snd y) = snd wl"
      proof cases
        case 4
        then have "snd (snd y) = snd w2" using IH env by blast
        then show ?thesis using logs by simp
      qed (simp_all add: logs)
    qed
  qed
  from this [OF assms] show ?thesis by simp
qed

lemma process_results_log:
  "process_results (recording env) args ps wl = Some (r, wl') \<Longrightarrow> snd wl' = snd wl"
proof (induction ps arbitrary: wl)
  case (Cons p ps)
  have one: "snd w1 = snd wl" if "processor_Process (recording env) p args wl = Some (e, w1)" for e w1
    using that
    by (auto simp: processor_Process_def dest!: recording_log(3) publish_loop_log
        split: if_splits prod.splits sum.splits)
  show ?case
  proof (cases "processor_Process (recording env) p args wl")
    case (Some ew)
    obtain e w1 where ew: "ew = (e, w1)" by (rule prod.exhaust)
    show ?thesis using Cons Some one [OF Some [unfolded ew]] by (cases e) (auto simp: ew)
  qed (use Cons.prems in simp)
qed simp

lemma request_log:
  "createFileSystemURIRequestHandler (recording env) ps n p d wl = (r, wl') \<Longrightarrow> snd wl' = snd wl"
  by (auto simp: createFileSystemURIRequestHandler_def processor_CreateFileURI_def
      dest!: recording_log(3) split: option.splits prod.splits sum.splits)

lemma wait_loop_log:
  "wait_loop (recording env) ps pod uid x events wl = (out', rs, wl') \<Longrightarrow>
     (if out' = WaitFailed ContextDone then \<exists>c. snd wl' = snd wl @ [c] \<and> attempt (X_Pod pod) c else snd wl' = snd wl)"
proof (induction events arbitrary: wl rs)
  case (Cons ev events)
  show ?case
  proof (cases ev)
    case (URIRequest n p d)
    obtain r w1 where st: "createFileSystemURIRequestHandler (recording env) ps n p d wl = (r, w1)"
      by (rule prod.exhaust)
    obtain o1 rs1 w2 where rest: "wait_loop (recording env) ps pod uid x events w1 = (o1, rs1, w2)"
      by (metis prod_cases3)
    have "o1 = out' \<and> w2 = wl'" using Cons.prems URIRequest st rest by simp
    then show ?thesis using Cons.IH [of w1 rs1] rest unfolding request_log [OF st] by simp
  next
    case (PodChange ch)
    have "on_pod_change (om_Name (ep_Meta pod)) uid x c \<noteq> WaitFailed ContextDone" for c
    proof -
      have "container_outcome x cs \<noteq> WaitFailed ContextDone" for cs
        by (induction cs) (auto split: option.splits)
      then show ?thesis by (simp add: on_pod_change_def)
    qed
    then show ?thesis using Cons.prems Cons.IH [of wl rs] PodChange by (cases ch) (auto split: if_splits)
  next
    case CtxDone
    obtain e w1 where d: "xe_Delete (recording env) (X_Pod pod) wl = (e, w1)" by (rule prod.exhaust)
    then have "out' = WaitFailed ContextDone \<and> wl' = w1" using Cons.prems CtxDone by simp
    then show ?thesis using recording_log(10) [OF d] by simp
  qed
qed simp

lemma delete_all_log:
  "\<exists>calls. snd (delete_all (recording env) rs wl) = snd wl @ calls \<and> list_all2 attempt rs calls"
proof (induction rs arbitrary: wl)
  case (Cons r rs)
  obtain e w1 where d: "xe_Delete (recording env) r wl = (e, w1)" by (rule prod.exhaust)
  obtain c where c: "snd w1 = snd wl @ [c]" "attempt r c" using recording_log(10) [OF d] by blast
  obtain calls where "snd (delete_all (recording env) rs w1) = snd w1 @ calls" "list_all2 attempt rs calls"
    using Cons [of w1] by blast
  then show ?case using c by (intro exI [of _ "c # calls"]) (simp add: delete_all_def d)
qed (simp add: delete_all_def)

section \<open>A configured execution\<close>

text \<open>The name of the container, and the result of configuring it when that succeeds.\<close>

definition named_container :: "container \<Rightarrow> container" where
  "named_container c = (if c_Name c = [] then c\<lparr>c_Name := ''executor''\<rparr> else c)"

definition configuration_of ::
  "('a, 'w) exec_env \<Rightarrow> executor \<Rightarrow> 'a InputSnapshot \<Rightarrow> 'w \<Rightarrow> (string \<times> exec_build \<times> 'w) option" where
  "configuration_of env ex args w =
     (case xe_NewLen env 6 w of
        (uid, w) \<Rightarrow>
          (case createExecContainer ex of
             Inl e \<Rightarrow> None
           | Inr c \<Rightarrow>
               let ownerRef = om_Name (ex_MyPod ex)
               in (case configureExecContainer env ex args (named_container c) (new_pod env ex uid ownerRef) ownerRef w of
                     (Some e, b, w) \<Rightarrow> None
                   | (None, b, w) \<Rightarrow> Some (uid, b, w))))"

lemma configured_Execute:
  "configuration_of env ex args w = Some (uid, b, w1) \<Longrightarrow>
     Execute env ex args events gc w = Execute_configured env ex args events gc uid (om_Name (ex_MyPod ex)) b w1"
  by (auto simp: configuration_of_def Execute_def named_container_def Let_def
      split: prod.splits sum.splits option.splits)

lemma configured_cases:
  assumes "configuration_of env ex args w = Some (uid, b, w1)"
  obtains c w0 where "xe_NewLen env 6 w = (uid, w0)" and "createExecContainer ex = Inr c"
    and "configureExecContainer env ex args (named_container c) (new_pod env ex uid (om_Name (ex_MyPod ex)))
           (om_Name (ex_MyPod ex)) w0 = (None, b, w1)"
  using assms by (auto simp: configuration_of_def Let_def split: prod.splits sum.splits option.splits)

lemma configured_tracks:
  assumes "configuration_of (recording env) ex args wl = Some (uid, b, wl1)"
  shows "tracks (snd wl) [] (snd wl1) (eb_Resources b)"
proof -
  obtain c w0 where "xe_NewLen (recording env) 6 wl = (uid, w0)"
    and "configureExecContainer (recording env) ex args (named_container c)
           (new_pod (recording env) ex uid (om_Name (ex_MyPod ex))) (om_Name (ex_MyPod ex)) w0 = (None, b, wl1)"
    using configured_cases [OF assms] by metis
  then show ?thesis using configure_tracks recording_log(4) by metis
qed

lemma launch_log:
  assumes "launch (recording env) ex b own wl = (r, wl')"
  shows "case r of Inl e \<Rightarrow> snd wl' = snd wl | Inr pod \<Rightarrow> snd wl' = snd wl @ [Created (X_Pod pod)]"
proof -
  obtain r1 w1 where st: "ensureProxyConfigMap (recording env) ex own wl = (r1, w1)" by (rule prod.exhaust)
  show ?thesis
  proof (cases r1)
    case (Inr cm)
    define pod where "pod = with_containers (eb_Container b) (createProxyContainer ex cm) (eb_Pod b)"
    obtain e w2 where cr: "xe_Create (recording env) (X_Pod pod) w1 = (e, w2)" by (rule prod.exhaust)
    show ?thesis
    proof (cases e)
      case None
      then have "r = Inr pod \<and> wl' = w2" using assms cr by (simp add: launch_def st Inr Let_def flip: pod_def)
      then show ?thesis using recording_log(9) [OF cr [unfolded None]] ensureProxyConfigMap_log [OF st] by simp
    next
      case (Some err)
      then have "r = Inl (ExecApi err) \<and> wl' = w2" using assms cr by (simp add: launch_def st Inr Let_def flip: pod_def)
      then show ?thesis using recording_log(8) [OF cr [unfolded Some]] ensureProxyConfigMap_log [OF st] by simp
    qed
  qed (use assms ensureProxyConfigMap_log [OF st] in \<open>auto simp: launch_def st\<close>)
qed

lemma deletions_tried:
  assumes "set created \<subseteq> set resources" and "list_all2 attempt resources deletions" and "x \<in> set created"
  shows "Deleted x \<in> set deletions \<or> DeleteFailed x \<in> set deletions"
proof -
  obtain i where "i < length resources" "resources ! i = x" using assms(1,3) by (metis in_set_conv_nth subsetD)
  then have "attempt x (deletions ! i)" "i < length deletions" using assms(2) by (auto simp: list_all2_conv_all_nth)
  then show ?thesis by (metis attempt_def nth_mem)
qed

text \<open>What a launched execution does to its pod.\<close>

definition pod_calls :: "exec_pod \<Rightarrow> exec_result \<Rightarrow> api_call list \<Rightarrow> bool" where
  "pod_calls pod r calls \<longleftrightarrow>
     (calls = [Created (X_Pod pod)] \<or> (\<exists>c. calls = [Created (X_Pod pod), c] \<and> attempt (X_Pod pod) c))
     \<and> (r = ExecReturned None \<longrightarrow> length calls = 2)"

lemma finish_log:
  assumes "wait_loop (recording env) ps pod uid x events wl = (out', rs, wl1)"
    and "finish (recording env) args b pod out' wl1 = Some (r, wl2)"
    and "snd wl = log @ [Created (X_Pod pod)]"
  shows "\<exists>calls. snd wl2 = log @ calls \<and> pod_calls pod r calls"
proof (cases "out' = PodDone")
  case True
  obtain e w where pr: "process_results (recording env) args (eb_Processors b) wl1 = Some (e, w)"
    using assms(2) True by (auto simp: finish_def split: option.splits)
  have "snd w = snd wl" using process_results_log [OF pr] wait_loop_log [OF assms(1)] True by simp
  moreover obtain d w3 where del: "xe_Delete (recording env) (X_Pod pod) w = (d, w3)" by (rule prod.exhaust)
  moreover have "\<exists>c. snd w3 = snd w @ [c] \<and> attempt (X_Pod pod) c" by (rule recording_log(10) [OF del])
  ultimately show ?thesis
    using assms(2,3) True pr by (cases e) (auto simp: finish_def pod_calls_def)
next
  case False
  then have "wl2 = wl1 \<and> r \<noteq> ExecReturned None"
    using assms(2) by (auto simp: finish_def split: wait_outcome.splits)
  then show ?thesis
    using wait_loop_log [OF assms(1)] assms(3) by (auto simp: pod_calls_def split: if_splits)
qed


section \<open>A failed configuration\<close>

lemma build_task_inputs_append:
  "build_task_inputs env ex args own (pre @ post) b w =
     (case build_task_inputs env ex args own pre b w of
        (Some e, b, w) \<Rightarrow> (Some e, b, w) | (None, b, w) \<Rightarrow> build_task_inputs env ex args own post b w)"
proof (induction pre arbitrary: b w)
  case (Cons t pre)
  obtain e t1 w1 where "buildTaskInput env ex t (GetSequence args (tis_Name t)) own (input_target b) w = (e, t1, w1)"
    by (metis prod_cases3)
  then show ?case using Cons by (cases e) simp_all
qed simp

text \<open>C16: When building an input fails, Execute returns the error and tries to delete exactly the
  resources of the inputs before it.  What the builders created for earlier values of the failing input is not
  among them and stays in the cluster.\<close>

theorem failed_input_leaks:
  assumes "createExecContainer ex = Inr c" and "xe_NewLen (recording env) 6 (w, []) = (uid, wl1)"
    and "SnapshotInputs (ex_TaskSpec ex) = pre @ t # post"
    and "build_task_inputs (recording env) ex args (om_Name (ex_MyPod ex)) pre
           (start_build (named_container c) (new_pod (recording env) ex uid (om_Name (ex_MyPod ex)))) wl1 = (None, b, wl2)"
    and "buildTaskInput (recording env) ex t (GetSequence args (tis_Name t)) (om_Name (ex_MyPod ex)) (input_target b) wl2
           = (Some e, target, wl3)"
  shows "\<exists>xs wl4. Execute (recording env) ex args events gc (w, [])
      = Some (\<lparr>er_Result = ExecReturned (Some e), er_Responses = [], er_PodGC = gc\<rparr>, wl4)
    \<and> snd wl3 = snd wl2 @ map Created xs \<and> set xs \<subseteq> set (it_Resources target)
    \<and> (\<exists>deletions. snd wl4 = snd wl3 @ deletions \<and> list_all2 attempt (eb_Resources b) deletions)"
proof -
  let ?own = "om_Name (ex_MyPod ex)" and ?pod = "new_pod (recording env) ex uid (om_Name (ex_MyPod ex))"
  define b' where "b' = b\<lparr>eb_Container := it_Container target, eb_Pod := it_Pod target\<rparr>"
  have conf: "configureExecContainer (recording env) ex args (named_container c) ?pod ?own wl1 = (Some e, b', wl3)"
    by (simp add: configureExecContainer_def assms(3) build_task_inputs_append assms(4,5) b'_def)
  have "Execute (recording env) ex args events gc (w, [])
      = Some (\<lparr>er_Result = ExecReturned (Some e), er_Responses = [], er_PodGC = gc\<rparr>,
              delete_all (recording env) (eb_Resources b) wl3)"
    using conf by (simp add: Execute_def assms(1,2) Let_def cleanup_def b'_def flip: named_container_def)
  moreover obtain xs where "snd wl3 = snd wl2 @ map Created xs" "set xs \<subseteq> set (it_Resources target)"
    using build_values_tracks [OF assms(5) [unfolded buildTaskInput_def]]
    by (auto simp: tracks_def input_target_def)
  ultimately show ?thesis using delete_all_log by blast
qed

end
