(* ===== verification/Executor_Pod.thy ===== *)
theory Executor_Pod
  imports Executor_Cleanup
begin

text \<open>
  The pod an executor launches for a snapshot, where its container finds the values and puts the
  outputs, and when an execution counts as successful.
\<close>

section \<open>Volumes and mounts\<close>

definition volume_names :: "exec_pod \<Rightarrow> string set" where
  "volume_names pod = vol_Name ` set (ep_Volumes pod)"

text \<open>The container has got the mounts \<open>ms\<close>, at these paths, and the pod has volumes for them.\<close>

definition mounted :: "container \<Rightarrow> exec_pod \<Rightarrow> string list \<Rightarrow> container \<Rightarrow> exec_pod \<Rightarrow> bool" where
  "mounted c pod paths c' pod' \<longleftrightarrow>
     (\<exists>ms. c_VolumeMounts c' = c_VolumeMounts c @ ms \<and> map vm_MountPath ms = paths
        \<and> vm_Name ` set ms \<subseteq> volume_names pod')
     \<and> volume_names pod \<subseteq> volume_names pod' \<and> c_Name c' = c_Name c"

lemma mounted_refl: "mounted c pod [] c pod"
  by (simp add: mounted_def)

lemma mounted_trans:
  assumes "mounted c pod ps c1 pod1" and "mounted c1 pod1 qs c2 pod2"
  shows "mounted c pod (ps @ qs) c2 pod2"
proof -
  obtain ms ms' where "c_VolumeMounts c1 = c_VolumeMounts c @ ms" "map vm_MountPath ms = ps"
    "vm_Name ` set ms \<subseteq> volume_names pod1" "c_VolumeMounts c2 = c_VolumeMounts c1 @ ms'"
    "map vm_MountPath ms' = qs" "vm_Name ` set ms' \<subseteq> volume_names pod2" "volume_names pod1 \<subseteq> volume_names pod2"
    using assms by (auto simp: mounted_def)
  then have "\<exists>ms. c_VolumeMounts c2 = c_VolumeMounts c @ ms \<and> map vm_MountPath ms = ps @ qs
      \<and> vm_Name ` set ms \<subseteq> volume_names pod2"
    by (intro exI [of _ "ms @ ms'"]) auto
  then show ?thesis using assms by (auto simp: mounted_def)
qed

lemma mounted_add:
  "v \<in> volume_names pod' \<Longrightarrow> volume_names pod \<subseteq> volume_names pod'
    \<Longrightarrow> mounted c pod [path] (add_mount v ro path sub c) pod'"
  by (auto simp: mounted_def add_mount_def)

lemma volume_names_add: "volume_names (add_volume v src pod) = insert v (volume_names pod)"
  by (auto simp: volume_names_def add_volume_def)

lemma vol_Name_writable: "vol_Name (set_writable v) = vol_Name v"
  by (simp add: set_writable_def split: volume_source.splits)

lemma volume_names_writable:
  "i < length (ep_Volumes pod) \<Longrightarrow>
     volume_names (pod\<lparr>ep_Volumes := (ep_Volumes pod)[i := set_writable (ep_Volumes pod ! i)]\<rparr>) = volume_names pod"
proof -
  assume i: "i < length (ep_Volumes pod)"
  have "map vol_Name ((ep_Volumes pod)[i := set_writable (ep_Volumes pod ! i)]) = map vol_Name (ep_Volumes pod)"
    using i by (intro nth_equalityI) (auto simp: nth_list_update vol_Name_writable)
  from arg_cong [OF this, of set] show ?thesis by (simp add: volume_names_def)
qed

lemma mount_created_volume_name:
  assumes "mount_created_volume env cn ns own ro resp v pod rs w = (Inr v', pod', rs', w')"
  shows "v' \<in> volume_names pod' \<and> volume_names pod \<subseteq> volume_names pod'"
proof -
  have "v' = v \<and> (\<exists>src. pod' = add_volume v src pod)"
    using assms by (auto simp: mount_created_volume_def Let_def split: sum.splits prod.splits option.splits)
  then show ?thesis by (auto simp: volume_names_add)
qed

lemma mount_existing_volume_name:
  assumes "mount_existing_claim env rb ns ro resp v pod rs w = (Inr v', pod', rs', w')"
  shows "v' \<in> volume_names pod' \<and> volume_names pod \<subseteq> volume_names pod'"
proof (cases "GetVolumeWithForPVC pod (vr_VolumeClaimName resp)")
  case None
  then have "v' = v \<and> (\<exists>src. pod' = add_volume v src pod)"
    using assms by (auto simp: mount_existing_claim_def Let_def split: sum.splits)
  then show ?thesis by (auto simp: volume_names_add)
next
  case (Some i)
  then have i: "i < length (ep_Volumes pod)" using find_index_Some by (auto simp: GetVolumeWithForPVC_def)
  have "v' = vol_Name (ep_Volumes pod ! i)
      \<and> (pod' = pod \<or> pod' = pod\<lparr>ep_Volumes := (ep_Volumes pod)[i := set_writable (ep_Volumes pod ! i)]\<rparr>)"
    using assms Some by (auto simp: mount_existing_claim_def Let_def split: sum.splits if_splits)
  moreover have "vol_Name (ep_Volumes pod ! i) \<in> volume_names pod" using i by (simp add: volume_names_def)
  ultimately show ?thesis using volume_names_writable [OF i] by auto
qed

lemma mount_host_volume_name:
  assumes "mount_host_path resp v pod rs w = (Inr v', pod', rs', w')"
  shows "v' \<in> volume_names pod' \<and> volume_names pod \<subseteq> volume_names pod'"
proof -
  have "volume_names p' = volume_names p" if "pin_to_node n p = Some p'" for n p p'
    using that by (auto simp: pin_to_node_def volume_names_def split: if_splits)
  then show ?thesis
    using assms volume_names_add by (fastforce simp: mount_host_path_def Let_def split: option.splits)
qed

lemma mount_response_volume:
  assumes "mount_response env cn rb ns own ro resp v pod rs w = (Inr v', pod', rs', w')"
  shows "v' \<in> volume_names pod' \<and> volume_names pod \<subseteq> volume_names pod'"
  using assms mount_created_volume_name mount_existing_volume_name mount_host_volume_name
  unfolding mount_response_def by (metis prod.inject sum.distinct(1))

section \<open>The builders\<close>

lemma file_input_mounts:
  assumes "fileInputBuilder_Build env cfg t w = (None, t', w')"
  shows "mounted (it_Container t) (it_Pod t)
      [input_mount_path (tis_Name (ic_InputSpec cfg)) (ic_AnnotatedValueIndex cfg)] (it_Container t') (it_Pod t')"
proof -
  define name where "name = tis_Name (ic_InputSpec cfg)"
  define i where "i = ic_AnnotatedValueIndex cfg"
  obtain r w1 where v: "xe_CreateVolumeForRead env (av_Data (ic_AnnotatedValue cfg)) (ic_OwnerRef cfg)
      (pl_Namespace (ic_Pipeline cfg)) w = (r, w1)" by (rule prod.exhaust)
  obtain resp where resp: "r = Inr resp" using assms v by (cases r) (auto simp: fileInputBuilder_Build_def)
  define t1 where "t1 = (if vr_NodeName resp \<noteq> [] then t\<lparr>it_NodeName := Some (vr_NodeName resp)\<rparr> else t)"
  have t1: "it_Pod t1 = it_Pod t" "it_Resources t1 = it_Resources t" "it_Container t1 = it_Container t"
    by (simp_all add: t1_def)
  obtain m pod rs w2 where mr: "mount_response env (input_claim_name cfg) (vr_VolumeClaimName resp)
      (pl_Namespace (ic_Pipeline cfg)) (ic_OwnerRef cfg) True resp (input_volume_name env name i)
      (it_Pod t) (it_Resources t) w1 = (m, pod, rs, w2)" by (metis prod_cases4)
  have "\<exists>v'. m = Inr v' \<and> it_Pod t' = pod
      \<and> it_Container t' = add_mount v' True (input_mount_path name i) (vr_SubPath resp) (it_Container t)"
    using assms v resp mr t1
    by (cases m) (auto simp: fileInputBuilder_Build_def Let_def simp flip: name_def i_def t1_def)
  then show ?thesis
    using mount_response_volume mr by (fastforce intro: mounted_add simp: name_def i_def)
qed

lemma data_input_mounts:
  assumes "dataInputBuilder_Build env cfg t w = (None, t', w')"
  shows "mounted (it_Container t) (it_Pod t)
      [input_mount_path (tis_Name (ic_InputSpec cfg)) (ic_AnnotatedValueIndex cfg)] (it_Container t') (it_Pod t')"
proof -
  define v where "v = input_volume_name env (tis_Name (ic_InputSpec cfg)) (ic_AnnotatedValueIndex cfg)"
  have "(\<exists>src. it_Pod t' = add_volume v src (it_Pod t))
      \<and> it_Container t' = add_mount v True
          (input_mount_path (tis_Name (ic_InputSpec cfg)) (ic_AnnotatedValueIndex cfg)) [] (it_Container t)"
    using assms by (auto simp: dataInputBuilder_Build_def Let_def v_def split: sum.splits prod.splits option.splits)
  then show ?thesis by (auto intro!: mounted_add simp: volume_names_add)
qed

lemma file_output_mounts:
  assumes "fileOutputBuilder_Build env cfg t w = (None, t', w')"
  shows "mounted (ot_Container t) (ot_Pod t) [output_mount_path (tos_Name (oc_OutputSpec cfg))] (ot_Container t') (ot_Pod t')"
proof -
  define name where "name = tos_Name (oc_OutputSpec cfg)"
  obtain r w1 where v: "xe_CreateVolumeForWrite env (case ot_NodeName t of Some n \<Rightarrow> n | None \<Rightarrow> []) (oc_OwnerRef cfg)
      (pl_Namespace (oc_Pipeline cfg)) w = (r, w1)" by (rule prod.exhaust)
  obtain resp where resp: "r = Inr resp" using assms v by (cases r) (auto simp: fileOutputBuilder_Build_def)
  obtain m pod rs w2 where mr: "mount_response env (output_claim_name cfg) (vr_VolumeName resp)
      (pl_Namespace (oc_Pipeline cfg)) (oc_OwnerRef cfg) False resp (output_volume_name env name)
      (ot_Pod t) (ot_Resources t) w1 = (m, pod, rs, w2)" by (metis prod_cases4)
  have "\<exists>v'. m = Inr v' \<and> ot_Pod t' = pod
      \<and> ot_Container t' = add_mount v' False (output_mount_path name) (vr_SubPath resp) (ot_Container t)"
    using assms v resp mr
    by (cases m) (auto simp: fileOutputBuilder_Build_def Let_def simp flip: name_def)
  then show ?thesis
    using mount_response_volume mr by (fastforce intro: mounted_add simp: name_def)
qed

lemma build_values_Cons:
  assumes "build_values env ex tis own i (av # avs) t w = (None, t', w')"
  obtains t1 w1 where "fileInputBuilder_Build env (input_config ex tis own i av) t w = (None, t1, w1)
      \<or> dataInputBuilder_Build env (input_config ex tis own i av) t w = (None, t1, w1)"
    and "build_values env ex tis own (Suc i) avs t1 w1 = (None, t', w')"
  using assms
  by (auto simp: GetExecutorInputBuilder_def split: if_splits prod.splits option.splits)

lemma build_values_mounts:
  "build_values env ex tis own i avs t w = (None, t', w') \<Longrightarrow>
     mounted (it_Container t) (it_Pod t) (map (input_mount_path (tis_Name tis)) [i..<i + length avs])
       (it_Container t') (it_Pod t')"
proof (induction avs arbitrary: i t w)
  case (Cons av avs)
  obtain t1 w1 where st: "fileInputBuilder_Build env (input_config ex tis own i av) t w = (None, t1, w1)
      \<or> dataInputBuilder_Build env (input_config ex tis own i av) t w = (None, t1, w1)"
    and rest: "build_values env ex tis own (Suc i) avs t1 w1 = (None, t', w')"
    using build_values_Cons [OF Cons.prems] by blast
  have "mounted (it_Container t) (it_Pod t) [input_mount_path (tis_Name tis) i] (it_Container t1) (it_Pod t1)"
    using st file_input_mounts [of env "input_config ex tis own i av" t w t1 w1]
      data_input_mounts [of env "input_config ex tis own i av" t w t1 w1] by (auto simp: input_config_def)
  from mounted_trans [OF this Cons.IH [OF rest]]
  have "mounted (it_Container t) (it_Pod t)
      (map (input_mount_path (tis_Name tis)) (i # [Suc i..<Suc i + length avs])) (it_Container t') (it_Pod t')"
    by simp
  moreover have "[i..<i + length (av # avs)] = i # [Suc i..<Suc i + length avs]"
    by (simp add: upt_conv_Cons del: upt_Suc)
  ultimately show ?case by simp
qed (simp add: mounted_refl)

section \<open>The whole configuration\<close>

definition input_paths :: "'a InputSnapshot \<Rightarrow> TaskInputSpec list \<Rightarrow> string list" where
  "input_paths args ts =
     concat (map (\<lambda>t. map (input_mount_path (tis_Name t)) [0..<length (GetSequence args (tis_Name t))]) ts)"

definition output_paths :: "TaskOutputSpec list \<Rightarrow> string list" where
  "output_paths ts = map (\<lambda>t. output_mount_path (tos_Name t)) ts"

lemma build_task_inputs_mounts:
  "build_task_inputs env ex args own ts b w = (None, b', w') \<Longrightarrow>
     mounted (eb_Container b) (eb_Pod b) (input_paths args ts) (eb_Container b') (eb_Pod b')"
proof (induction ts arbitrary: b w)
  case (Cons t ts)
  obtain e t1 w1 where st: "buildTaskInput env ex t (GetSequence args (tis_Name t)) own (input_target b) w = (e, t1, w1)"
    by (metis prod_cases3)
  have e: "e = None" using Cons.prems st by (cases e) auto
  have "mounted (eb_Container b) (eb_Pod b)
      (map (input_mount_path (tis_Name t)) [0..<length (GetSequence args (tis_Name t))]) (it_Container t1) (it_Pod t1)"
    using build_values_mounts [OF st [unfolded buildTaskInput_def e]] by (simp add: input_target_def)
  moreover have "mounted (it_Container t1) (it_Pod t1) (input_paths args ts) (eb_Container b') (eb_Pod b')"
    using Cons.IH [OF Cons.prems [simplified st e build_task_inputs.simps prod.case option.case]] by simp
  ultimately show ?case by (simp add: input_paths_def mounted_trans)
qed (simp add: mounted_refl input_paths_def)

lemma build_task_outputs_mounts:
  "build_task_outputs env ex own ts b w = (None, b', w') \<Longrightarrow>
     mounted (eb_Container b) (eb_Pod b) (output_paths ts) (eb_Container b') (eb_Pod b')"
proof (induction ts arbitrary: b w)
  case (Cons t ts)
  obtain e t1 w1 where st: "buildTaskOutput env ex t own (output_target b) w = (e, t1, w1)"
    by (metis prod_cases3)
  have e: "e = None" using Cons.prems st by (cases e) auto
  have "mounted (eb_Container b) (eb_Pod b) [output_mount_path (tos_Name t)] (ot_Container t1) (ot_Pod t1)"
  proof -
    define protocol where "protocol =
      (case TypeByName (pl_Spec (ex_Pipeline ex)) (tos_TypeRef t) of Some ty \<Rightarrow> ty_Protocol ty | None \<Rightarrow> [])"
    have "protocol = ProtocolFile"
      using st e by (auto simp: buildTaskOutput_def GetExecutorOutputBuilder_def Let_def simp flip: protocol_def split: if_splits)
    then have "fileOutputBuilder_Build env \<lparr>oc_OutputSpec = t, oc_TaskSpec = ex_TaskSpec ex,
        oc_Pipeline = ex_Pipeline ex, oc_OwnerRef = own\<rparr> (output_target b) w = (None, t1, w1)"
      using st e by (simp add: buildTaskOutput_def GetExecutorOutputBuilder_def Let_def flip: protocol_def)
    from file_output_mounts [OF this] show ?thesis by (simp add: output_target_def)
  qed
  moreover have "mounted (ot_Container t1) (ot_Pod t1) (output_paths ts) (eb_Container b') (eb_Pod b')"
    using Cons.IH [OF Cons.prems [simplified st e build_task_outputs.simps prod.case option.case]] by simp
  ultimately show ?case using mounted_trans by (fastforce simp: output_paths_def)
qed (simp add: mounted_refl output_paths_def)

lemma configure_mounts:
  assumes "configureExecContainer env ex args c pod own w = (None, b, w')"
  shows "mounted c pod (input_paths args (SnapshotInputs (ex_TaskSpec ex)) @ output_paths (ts_Outputs (ex_TaskSpec ex)))
      (eb_Container b) (eb_Pod b)"
proof -
  obtain e1 b1 w1 where s1: "build_task_inputs env ex args own (SnapshotInputs (ex_TaskSpec ex)) (start_build c pod) w = (e1, b1, w1)"
    by (metis prod_cases3)
  obtain e2 b2 w2 where s2: "build_task_outputs env ex own (ts_Outputs (ex_TaskSpec ex)) b1 w1 = (e2, b2, w2)"
    by (metis prod_cases3)
  have ok: "e1 = None" "e2 = None"
    and c: "c_VolumeMounts (eb_Container b) = c_VolumeMounts (eb_Container b2)"
      "c_Name (eb_Container b) = c_Name (eb_Container b2)" "eb_Pod b = eb_Pod b2"
    using assms by (auto simp: configureExecContainer_def s1 s2 split: option.splits sum.splits prod.splits)
  have "mounted c pod (input_paths args (SnapshotInputs (ex_TaskSpec ex)) @ output_paths (ts_Outputs (ex_TaskSpec ex)))
      (eb_Container b2) (eb_Pod b2)"
    using build_task_inputs_mounts [OF s1 [unfolded ok]] build_task_outputs_mounts [OF s2 [unfolded ok]]
    by (auto simp: start_build_def intro: mounted_trans)
  then show ?thesis by (simp add: mounted_def c)
qed

section \<open>Where the values are\<close>

lemma itoa_plain: "plain_part (itoa i)"
proof -
  have "itoa i \<noteq> []" using itoa_first_digit [of i] by auto
  moreover have "set (itoa i) \<subseteq> digit_char ` {..<10}"
  proof (induction i rule: itoa.induct)
    case (1 i)
    then show ?case by (subst itoa.simps) (auto split: if_splits)
  qed
  moreover have "digit_char d \<noteq> CHR ''/'' \<and> digit_char d \<noteq> CHR ''.''" if "d < 10" for d
    using digit_value_char [OF that] by (auto simp: digit_value_def)
  ultimately show ?thesis by (cases "itoa i") (fastforce simp: plain_part_def)+
qed

lemma itoa_inj: "itoa i = itoa j \<Longrightarrow> i = j"
  by (metis digits_value_itoa option.inject)

lemma input_mount_path_plain:
  assumes "plain_part n"
  shows "input_mount_path n i = CHR ''/'' # join_with ''/'' [''koalja'', ''inputs'', n, itoa i]"
proof -
  have "path_Join ((CHR ''/'' # join_with ''/'' [''koalja'']) # [''inputs'', n, itoa i])
      = CHR ''/'' # join_with ''/'' ([''koalja''] @ [''inputs'', n, itoa i])"
    by (rule Join_plain) (use assms itoa_plain in \<open>auto simp: plain_part_def\<close>)
  then show ?thesis by (simp add: input_mount_path_def)
qed

lemma output_mount_path_plain:
  assumes "plain_part n"
  shows "output_mount_path n = CHR ''/'' # join_with ''/'' [''koalja'', ''outputs'', n]"
proof -
  have "path_Join ((CHR ''/'' # join_with ''/'' [''koalja'']) # [''outputs'', n])
      = CHR ''/'' # join_with ''/'' ([''koalja''] @ [''outputs'', n])"
    by (rule Join_plain) (use assms in \<open>auto simp: plain_part_def\<close>)
  then show ?thesis by (simp add: output_mount_path_def)
qed

lemma koalja_parts: "plain_part ''koalja''" "plain_part ''inputs''" "plain_part ''outputs''"
  by (simp_all add: plain_part_def)

lemma input_mount_path_inj:
  assumes "plain_part n" and "plain_part m" and "input_mount_path n i = input_mount_path m j"
  shows "n = m \<and> i = j"
proof -
  have "[''koalja'', ''inputs'', n, itoa i] = [''koalja'', ''inputs'', m, itoa j]"
    by (rule join_plain_inj)
       (use assms(3) in \<open>simp_all only: input_mount_path_plain [OF assms(1)] input_mount_path_plain [OF assms(2)]
          list.inject, simp_all add: assms(1,2) koalja_parts itoa_plain\<close>)
  then show ?thesis using itoa_inj by simp
qed

lemma output_mount_path_inj:
  assumes "plain_part n" and "plain_part m" and "output_mount_path n = output_mount_path m"
  shows "n = m"
proof -
  have "[''koalja'', ''outputs'', n] = [''koalja'', ''outputs'', m]"
    by (rule join_plain_inj)
       (use assms(3) in \<open>simp_all only: output_mount_path_plain [OF assms(1)] output_mount_path_plain [OF assms(2)]
          list.inject, simp_all add: assms(1,2) koalja_parts\<close>)
  then show ?thesis by simp
qed

lemma input_not_output:
  assumes "plain_part n" and "plain_part m"
  shows "input_mount_path n i \<noteq> output_mount_path m"
proof
  assume "input_mount_path n i = output_mount_path m"
  then have "[''koalja'', ''inputs'', n, itoa i] = [''koalja'', ''outputs'', m]"
    by (intro join_plain_inj)
       (simp_all only: input_mount_path_plain [OF assms(1)] output_mount_path_plain [OF assms(2)] list.inject,
        simp_all add: assms koalja_parts itoa_plain)
  then show False by simp
qed

lemma distinct_input_paths:
  assumes "distinct (map tis_Name ts)" and "\<forall>t \<in> set ts. plain_part (tis_Name t)"
  shows "distinct (input_paths args ts)"
  using assms
proof (induction ts)
  case (Cons t ts)
  let ?own = "map (input_mount_path (tis_Name t)) [0..<length (GetSequence args (tis_Name t))]"
  have "inj_on (input_mount_path (tis_Name t)) A" for A
    using input_mount_path_inj Cons.prems(2) by (meson inj_onI list.set_intros(1))
  then have "distinct ?own" by (simp add: distinct_map)
  moreover have "p \<notin> set (input_paths args ts)" if p: "p \<in> set ?own" for p
  proof
    assume "p \<in> set (input_paths args ts)"
    then obtain u j where u: "u \<in> set ts" "p = input_mount_path (tis_Name u) j" by (auto simp: input_paths_def)
    obtain i where "p = input_mount_path (tis_Name t) i" using p by auto
    then have "tis_Name t = tis_Name u" using input_mount_path_inj u Cons.prems(2) by fastforce
    then show False using Cons.prems(1) u(1) by (auto simp: image_iff)
  qed
  ultimately show ?case using Cons by (auto simp: input_paths_def)
qed (simp add: input_paths_def)

lemma distinct_paths:
  assumes "distinct (map tis_Name ts)" and "\<forall>t \<in> set ts. plain_part (tis_Name t)"
    and "distinct (map tos_Name os)" and "\<forall>t \<in> set os. plain_part (tos_Name t)"
  shows "distinct (input_paths args ts @ output_paths os)"
proof -
  have "distinct (output_paths os)"
  proof -
    have "inj_on output_mount_path (tos_Name ` set os)"
      using output_mount_path_inj assms(4) by (auto intro!: inj_onI)
    then have "distinct (map output_mount_path (map tos_Name os))" using assms(3) by (subst distinct_map) simp
    then show ?thesis by (simp add: output_paths_def comp_def)
  qed
  moreover have "set (input_paths args ts) \<inter> set (output_paths os) = {}"
    using input_not_output assms(2,4) by (fastforce simp: input_paths_def output_paths_def)
  ultimately show ?thesis using distinct_input_paths [OF assms(1,2)] by simp
qed

text \<open>C13: In the configured container every value of the snapshot is mounted at its own place
  /koalja/inputs/name/index and every output at /koalja/outputs/name, in this order and after the
  mounts of the container itself; each of these mounts has a volume of the pod, and no two have the
  same path when the names are single path elements.\<close>

theorem snapshot_is_mounted:
  assumes "configuration_of env ex args w = Some (uid, b, w')" and "createExecContainer ex = Inr c"
  shows "\<exists>ms. c_VolumeMounts (eb_Container b) = c_VolumeMounts c @ ms
    \<and> map vm_MountPath ms = concat (map (\<lambda>t. map (input_mount_path (tis_Name t))
           [0..<length (GetSequence args (tis_Name t))]) (SnapshotInputs (ex_TaskSpec ex)))
         @ map (\<lambda>t. output_mount_path (tos_Name t)) (ts_Outputs (ex_TaskSpec ex))
    \<and> (\<forall>m \<in> set ms. \<exists>v \<in> set (ep_Volumes (eb_Pod b)). vol_Name v = vm_Name m)
    \<and> (distinct (map tis_Name (SnapshotInputs (ex_TaskSpec ex)))
        \<and> (\<forall>t \<in> set (SnapshotInputs (ex_TaskSpec ex)). plain_part (tis_Name t))
        \<and> distinct (map tos_Name (ts_Outputs (ex_TaskSpec ex)))
        \<and> (\<forall>t \<in> set (ts_Outputs (ex_TaskSpec ex)). plain_part (tos_Name t))
       \<longrightarrow> distinct (map vm_MountPath ms))"
proof -
  obtain c' w0 where c': "createExecContainer ex = Inr c'"
    and conf: "configureExecContainer env ex args (named_container c') (new_pod env ex uid (om_Name (ex_MyPod ex)))
           (om_Name (ex_MyPod ex)) w0 = (None, b, w')"
    using configured_cases [OF assms(1)] by metis
  have "c_VolumeMounts (named_container c') = c_VolumeMounts c" using c' assms(2) by (simp add: named_container_def)
  then obtain ms where ms: "c_VolumeMounts (eb_Container b) = c_VolumeMounts c @ ms"
    "map vm_MountPath ms = input_paths args (SnapshotInputs (ex_TaskSpec ex)) @ output_paths (ts_Outputs (ex_TaskSpec ex))"
    "vm_Name ` set ms \<subseteq> volume_names (eb_Pod b)"
    using configure_mounts [OF conf] by (auto simp: mounted_def)
  show ?thesis
  proof (intro exI [of _ ms] conjI)
    show "\<forall>m \<in> set ms. \<exists>v \<in> set (ep_Volumes (eb_Pod b)). vol_Name v = vm_Name m"
      using ms(3) by (force simp: volume_names_def)
    show "distinct (map tis_Name (SnapshotInputs (ex_TaskSpec ex)))
        \<and> (\<forall>t \<in> set (SnapshotInputs (ex_TaskSpec ex)). plain_part (tis_Name t))
        \<and> distinct (map tos_Name (ts_Outputs (ex_TaskSpec ex)))
        \<and> (\<forall>t \<in> set (ts_Outputs (ex_TaskSpec ex)). plain_part (tos_Name t))
       \<longrightarrow> distinct (map vm_MountPath ms)"
      unfolding ms(2) by (blast intro: distinct_paths)
  qed (simp_all add: ms(1,2) input_paths_def output_paths_def)
qed


text \<open>
  A name is valid when it contains a letter anywhere, so it may lead out of the directory: the
  input \<open>a/../../../etc\<close> is mounted at \<open>/etc/0\<close>.
\<close>

lemma mount_path_escapes:
  "namePattern_MatchString ''a/../../../etc'' \<and> input_mount_path ''a/../../../etc'' 0 = ''/etc/0''"
  by code_simp

section \<open>Successful executions\<close>

text \<open>A change that tells that the pod, or its executor container, has succeeded, or has failed.\<close>

definition tells_success :: "string \<Rightarrow> pod_change \<Rightarrow> bool" where
  "tells_success execName ch \<longleftrightarrow>
     ch_Phase ch = PodSucceeded
     \<or> ch_Phase ch \<noteq> PodFailed \<and> (\<exists>cs \<in> set (ch_ContainerStatuses ch). cst_Name cs = execName \<and> cst_Terminated cs = Some 0)"

definition tells_failure :: "string \<Rightarrow> pod_change \<Rightarrow> bool" where
  "tells_failure execName ch \<longleftrightarrow>
     ch_Phase ch = PodFailed
     \<or> ch_Phase ch \<noteq> PodSucceeded \<and> (\<exists>cs \<in> set (ch_ContainerStatuses ch). \<exists>code.
          cst_Name cs = execName \<and> cst_Terminated cs = Some code \<and> code \<noteq> 0)"

definition is_request :: "exec_event \<Rightarrow> bool" where
  "is_request ev = (case ev of URIRequest n p d \<Rightarrow> True | _ \<Rightarrow> False)"

lemma container_outcome_success:
  "container_outcome x css = PodDone \<Longrightarrow> \<exists>cs \<in> set css. cst_Name cs = x \<and> cst_Terminated cs = Some 0"
  by (induction css) (auto split: if_splits option.splits)

lemma container_outcome_still:
  "container_outcome x css = StillWaiting \<Longrightarrow> cs \<in> set css \<Longrightarrow> cst_Name cs = x \<Longrightarrow> cst_Terminated cs = None"
  by (induction css) (auto split: if_splits option.splits)

lemma on_pod_change_done: "on_pod_change n uid x ch = PodDone \<Longrightarrow> is_my_pod n uid ch \<and> tells_success x ch"
  using container_outcome_success
  by (auto simp: on_pod_change_def tells_success_def PodFailed_def PodSucceeded_def split: if_splits)

lemma on_pod_change_still:
  "on_pod_change n uid x ch = StillWaiting \<Longrightarrow> is_my_pod n uid ch \<Longrightarrow> \<not> tells_success x ch \<and> \<not> tells_failure x ch"
  using container_outcome_still
  by (fastforce simp: on_pod_change_def tells_success_def tells_failure_def PodFailed_def PodSucceeded_def split: if_splits)

lemma wait_loop_done:
  "wait_loop env ps pod uid x events w = (PodDone, rs, w') \<Longrightarrow>
     \<exists>pre ch post. events = pre @ PodChange (Some ch) # post
       \<and> is_my_pod (om_Name (ep_Meta pod)) uid ch \<and> tells_success x ch
       \<and> length rs = length (filter is_request pre)
       \<and> (\<forall>ev \<in> set pre. is_request ev \<or> (\<exists>c. ev = PodChange (Some c)
            \<and> (is_my_pod (om_Name (ep_Meta pod)) uid c \<longrightarrow> \<not> tells_success x c \<and> \<not> tells_failure x c)))"
proof (induction events arbitrary: w rs)
  case (Cons ev events)
  show ?case
  proof (cases ev)
    case (URIRequest n p d)
    obtain r w1 where st: "createFileSystemURIRequestHandler env ps n p d w = (r, w1)" by (rule prod.exhaust)
    obtain rs1 where rest: "wait_loop env ps pod uid x events w1 = (PodDone, rs1, w')" and rs: "rs = r # rs1"
      using Cons.prems URIRequest st by (auto split: prod.splits)
    obtain pre ch post where "events = pre @ PodChange (Some ch) # post"
      "is_my_pod (om_Name (ep_Meta pod)) uid ch" "tells_success x ch" "length rs1 = length (filter is_request pre)"
      "\<forall>ev \<in> set pre. is_request ev \<or> (\<exists>c. ev = PodChange (Some c)
            \<and> (is_my_pod (om_Name (ep_Meta pod)) uid c \<longrightarrow> \<not> tells_success x c \<and> \<not> tells_failure x c))"
      using Cons.IH [OF rest] by auto
    moreover have "is_request ev" using URIRequest by (simp add: is_request_def)
    ultimately have "ev # events = (ev # pre) @ PodChange (Some ch) # post \<and> is_my_pod (om_Name (ep_Meta pod)) uid ch \<and> tells_success x ch
       \<and> length rs = length (filter is_request (ev # pre))
       \<and> (\<forall>ev \<in> set (ev # pre). is_request ev \<or> (\<exists>c. ev = PodChange (Some c)
            \<and> (is_my_pod (om_Name (ep_Meta pod)) uid c \<longrightarrow> \<not> tells_success x c \<and> \<not> tells_failure x c)))"
      using rs by simp
    then show ?thesis by blast
  next
    case (PodChange c)
    then obtain ch where ch: "c = Some ch" using Cons.prems by (cases c) auto
    show ?thesis
    proof (cases "on_pod_change (om_Name (ep_Meta pod)) uid x ch = StillWaiting")
      case True
      then have "wait_loop env ps pod uid x events w = (PodDone, rs, w')" using Cons.prems PodChange ch by simp
      from Cons.IH [OF this] obtain pre ch' post where "events = pre @ PodChange (Some ch') # post"
        "is_my_pod (om_Name (ep_Meta pod)) uid ch'" "tells_success x ch'" "length rs = length (filter is_request pre)"
        "\<forall>ev \<in> set pre. is_request ev \<or> (\<exists>c. ev = PodChange (Some c)
            \<and> (is_my_pod (om_Name (ep_Meta pod)) uid c \<longrightarrow> \<not> tells_success x c \<and> \<not> tells_failure x c))"
        by auto
      then have "ev # events = (ev # pre) @ PodChange (Some ch') # post \<and> is_my_pod (om_Name (ep_Meta pod)) uid ch' \<and> tells_success x ch'
       \<and> length rs = length (filter is_request (ev # pre))
       \<and> (\<forall>ev \<in> set (ev # pre). is_request ev \<or> (\<exists>c. ev = PodChange (Some c)
            \<and> (is_my_pod (om_Name (ep_Meta pod)) uid c \<longrightarrow> \<not> tells_success x c \<and> \<not> tells_failure x c)))"
        using PodChange ch on_pod_change_still [OF True] by (simp add: is_request_def)
      then show ?thesis by blast
    next
      case False
      then have "on_pod_change (om_Name (ep_Meta pod)) uid x ch = PodDone" "rs = []"
        using Cons.prems PodChange ch by auto
      then have "ev # events = [] @ PodChange (Some ch) # events \<and> is_my_pod (om_Name (ep_Meta pod)) uid ch \<and> tells_success x ch
       \<and> length rs = length (filter is_request ([]))
       \<and> (\<forall>ev \<in> set ([]). is_request ev \<or> (\<exists>c. ev = PodChange (Some c)
            \<and> (is_my_pod (om_Name (ep_Meta pod)) uid c \<longrightarrow> \<not> tells_success x c \<and> \<not> tells_failure x c)))"
        using PodChange ch on_pod_change_done by auto
      then show ?thesis by blast
    qed
  next
    case CtxDone
    then show ?thesis using Cons.prems by simp
  qed
qed simp

lemma process_results_all:
  "process_results env args ps w = Some (None, w') \<Longrightarrow>
     \<exists>ws. length ws = Suc (length ps) \<and> ws ! 0 = w \<and> last ws = w'
       \<and> (\<forall>i < length ps. processor_Process env (ps ! i) args (ws ! i) = Some (None, ws ! Suc i))"
proof (induction ps arbitrary: w)
  case Nil
  then show ?case by (intro exI [of _ "[w]"]) simp
next
  case (Cons p ps)
  obtain w1 where st: "processor_Process env p args w = Some (None, w1)" and rest: "process_results env args ps w1 = Some (None, w')"
    using Cons.prems by (auto split: option.splits)
  from Cons.IH [OF rest] obtain ws where ws: "length ws = Suc (length ps)" "ws ! 0 = w1" "last ws = w'"
    "\<forall>i < length ps. processor_Process env (ps ! i) args (ws ! i) = Some (None, ws ! Suc i)" by auto
  have "processor_Process env ((p # ps) ! i) args ((w # ws) ! i) = Some (None, (w # ws) ! Suc i)"
    if "i < length (p # ps)" for i
    using that ws st by (cases i) auto
  then show ?case using ws by (intro exI [of _ "w # ws"]) auto
qed

text \<open>C14: Execute returns nil only after it has launched a pod and has seen a change of that very pod,
  by name and unique label, that tells of success, with no earlier change of it telling success or
  failure; every request for a URI received before has got one response, and every output of the
  task has been processed without error.\<close>

theorem success_was_reported:
  assumes "Execute env ex args events gc w = Some (run, w')" and "er_Result run = ExecReturned None"
  shows "\<exists>uid b w1 pod w2 pre ch post ws. configuration_of env ex args w = Some (uid, b, w1)
    \<and> launch env ex b (om_Name (ex_MyPod ex)) w1 = (Inr pod, w2)
    \<and> events = pre @ PodChange (Some ch) # post
    \<and> is_my_pod (om_Name (ep_Meta pod)) uid ch \<and> tells_success (c_Name (eb_Container b)) ch
    \<and> (\<forall>ev \<in> set pre. is_request ev \<or> (\<exists>c. ev = PodChange (Some c)
         \<and> (is_my_pod (om_Name (ep_Meta pod)) uid c \<longrightarrow>
              \<not> tells_success (c_Name (eb_Container b)) c \<and> \<not> tells_failure (c_Name (eb_Container b)) c)))
    \<and> length (er_Responses run) = length (filter is_request pre)
    \<and> length ws = Suc (length (eb_Processors b))
    \<and> (\<forall>i < length (eb_Processors b).
         processor_Process env (eb_Processors b ! i) args (ws ! i) = Some (None, ws ! Suc i))"
proof -
  let ?own = "om_Name (ex_MyPod ex)"
  have "\<exists>uid b w1. configuration_of env ex args w = Some (uid, b, w1)"
    using assms by (auto simp: Execute_def configuration_of_def named_container_def Let_def
        split: prod.splits sum.splits option.splits split del: if_split)
  then obtain uid b w1 where conf: "configuration_of env ex args w = Some (uid, b, w1)" by blast
  have run: "Execute_configured env ex args events gc uid ?own b w1 = Some (run, w')"
    using assms(1) configured_Execute [OF conf] by simp
  obtain r w2 where l: "launch env ex b ?own w1 = (r, w2)" by (rule prod.exhaust)
  obtain pod where pod: "r = Inr pod" using run l assms(2) by (cases r) (auto simp: Execute_configured_def)
  obtain out' rs w3 where wt: "wait_loop env (eb_Processors b) pod uid (c_Name (eb_Container b)) events w2 = (out', rs, w3)"
    by (metis prod_cases3)
  obtain res w4 where fin: "finish env args b pod out' w3 = Some (res, w4)"
    using run l pod wt by (auto simp: Execute_configured_def split: option.splits)
  have res: "er_Result run = res" "er_Responses run = rs"
    using run l pod wt fin by (auto simp: Execute_configured_def)
  have fin_ok: "out' = PodDone" using fin res assms(2) by (auto simp: finish_def split: wait_outcome.splits)
  then obtain w5 where pr: "process_results env args (eb_Processors b) w3 = Some (None, w5)"
    using fin res assms(2) by (auto simp: finish_def split: option.splits)
  from wait_loop_done [OF wt [unfolded fin_ok]] process_results_all [OF pr] show ?thesis
    using conf l pod res by metis
qed

end
