(* ===== verification/File_Exchange.thy ===== *)
theory File_Exchange
  imports File_Store FS_Service Executor_Pod
begin

text \<open>
  Executor and file system service together: a file that one task writes to its output volume is
  mounted for the task that receives its URI.
\<close>

section \<open>Mounting the volume of a response\<close>

text \<open>A volume by claim or by host path, as both services answer.\<close>

definition is_place :: "volume_response \<Rightarrow> volume_source \<Rightarrow> bool" where
  "is_place resp src \<longleftrightarrow>
     (if vr_VolumeClaimName resp \<noteq> [] then \<exists>ro. src = VS_PersistentVolumeClaim (vr_VolumeClaimName resp) ro
      else src = VS_HostPath (vr_VolumePath resp))"

definition mounts_place :: "exec_pod \<Rightarrow> container \<Rightarrow> string \<Rightarrow> volume_response \<Rightarrow> bool" where
  "mounts_place pod c mountPath resp \<longleftrightarrow>
     (\<exists>m \<in> set (c_VolumeMounts c). \<exists>v \<in> set (ep_Volumes pod).
        vm_MountPath m = mountPath \<and> vm_SubPath m = vr_SubPath resp \<and> vm_Name m = vol_Name v
        \<and> is_place resp (vol_Source v))"

text \<open>The node a pod must run on for a host path.\<close>

definition on_its_node :: "exec_pod \<Rightarrow> volume_response \<Rightarrow> bool" where
  "on_its_node pod resp \<longleftrightarrow>
     (vr_VolumeClaimName resp = [] \<and> vr_NodeName resp \<noteq> [] \<longrightarrow> ep_NodeName pod = vr_NodeName resp)"

lemma is_place_cong:
  "vr_VolumeClaimName r' = vr_VolumeClaimName r \<Longrightarrow> vr_VolumePath r' = vr_VolumePath r \<Longrightarrow> is_place r' = is_place r"
  by (simp add: is_place_def fun_eq_iff)

lemma mount_existing_place:
  assumes "mount_existing_claim env rb ns ro resp v pod rs w = (Inr v', pod', rs', w')"
    and "vr_VolumeClaimName resp \<noteq> []"
  shows "\<exists>x \<in> set (ep_Volumes pod'). vol_Name x = v' \<and> is_place resp (vol_Source x)"
proof (cases "GetVolumeWithForPVC pod (vr_VolumeClaimName resp)")
  case None
  then have "v' = v \<and> pod' = add_volume v (VS_PersistentVolumeClaim (vr_VolumeClaimName resp) ro) pod"
    using assms by (auto simp: mount_existing_claim_def Let_def split: sum.splits)
  then show ?thesis using assms(2) by (auto simp: add_volume_def is_place_def)
next
  case (Some i)
  then have i: "i < length (ep_Volumes pod)" "uses_claim (vr_VolumeClaimName resp) (ep_Volumes pod ! i)"
    using find_index_Some by (auto simp: GetVolumeWithForPVC_def)
  then obtain r where r: "vol_Source (ep_Volumes pod ! i) = VS_PersistentVolumeClaim (vr_VolumeClaimName resp) r"
    by (auto simp: uses_claim_def split: volume_source.splits)
  have eq: "v' = vol_Name (ep_Volumes pod ! i)
      \<and> pod' = (if ro then pod else pod\<lparr>ep_Volumes := (ep_Volumes pod)[i := set_writable (ep_Volumes pod ! i)]\<rparr>)"
    using assms Some by (auto simp: mount_existing_claim_def Let_def split: sum.splits)
  have "ep_Volumes pod' ! i = (if ro then ep_Volumes pod ! i else set_writable (ep_Volumes pod ! i))"
    and len: "i < length (ep_Volumes pod')" using eq i(1) by simp_all
  then have "vol_Name (ep_Volumes pod' ! i) = v'"
    "is_place resp (vol_Source (ep_Volumes pod' ! i))"
    using eq r assms(2) by (auto simp: is_place_def set_writable_def)
  with len show ?thesis using nth_mem by blast
qed

lemma mount_response_place:
  assumes "mount_response env cn rb ns own ro resp v pod rs w = (Inr v', pod', rs', w')"
    and "vr_VolumeName resp = []"
  shows "(\<exists>x \<in> set (ep_Volumes pod'). vol_Name x = v' \<and> is_place resp (vol_Source x)) \<and> on_its_node pod' resp"
proof (cases "vr_VolumeClaimName resp = []")
  case False
  then show ?thesis
    using mount_existing_place assms by (auto simp: mount_response_def on_its_node_def)
next
  case True
  then have "mount_host_path resp v pod rs w = (Inr v', pod', rs', w')"
    using assms by (auto simp: mount_response_def split: if_splits)
  then show ?thesis using True
    by (auto simp: mount_host_path_def Let_def pin_to_node_def add_volume_def is_place_def on_its_node_def
        split: option.splits if_splits)
qed

section \<open>The builders\<close>

lemma file_input_place:
  assumes "fileInputBuilder_Build env cfg t w = (None, t', w')"
    and "xe_CreateVolumeForRead env (av_Data (ic_AnnotatedValue cfg)) (ic_OwnerRef cfg) (pl_Namespace (ic_Pipeline cfg)) w = (Inr resp, w1)"
    and "vr_VolumeName resp = []"
  shows "mounts_place (it_Pod t') (it_Container t')
      (input_mount_path (tis_Name (ic_InputSpec cfg)) (ic_AnnotatedValueIndex cfg)) resp"
    and "on_its_node (it_Pod t') resp"
    and "map_of (last (it_TemplateData t')) ''path''
      = Some (path_Join [input_mount_path (tis_Name (ic_InputSpec cfg)) (ic_AnnotatedValueIndex cfg), vr_LocalPath resp])"
proof -
  define name where "name = tis_Name (ic_InputSpec cfg)"
  define i where "i = ic_AnnotatedValueIndex cfg"
  define t1 where "t1 = (if vr_NodeName resp \<noteq> [] then t\<lparr>it_NodeName := Some (vr_NodeName resp)\<rparr> else t)"
  have t1: "it_Pod t1 = it_Pod t" "it_Resources t1 = it_Resources t" "it_Container t1 = it_Container t"
    "it_TemplateData t1 = it_TemplateData t"
    by (simp_all add: t1_def)
  obtain m pod rs w2 where mr: "mount_response env (input_claim_name cfg) (vr_VolumeClaimName resp)
      (pl_Namespace (ic_Pipeline cfg)) (ic_OwnerRef cfg) True resp (input_volume_name env name i)
      (it_Pod t) (it_Resources t) w1 = (m, pod, rs, w2)" by (metis prod_cases4)
  obtain v' where m: "m = Inr v'" and pod: "it_Pod t' = pod"
    and c: "it_Container t' = add_mount v' True (input_mount_path name i) (vr_SubPath resp) (it_Container t)"
    and td: "it_TemplateData t' = it_TemplateData t @ [file_input_data resp (input_mount_path name i)]"
    using assms(1,2) mr t1
    by (cases m) (auto simp: fileInputBuilder_Build_def Let_def simp flip: name_def i_def t1_def)
  note pl = mount_response_place [OF mr [unfolded m] assms(3)]
  then show "mounts_place (it_Pod t') (it_Container t') (input_mount_path (tis_Name (ic_InputSpec cfg)) (ic_AnnotatedValueIndex cfg)) resp"
    by (auto simp: mounts_place_def c pod add_mount_def simp flip: name_def i_def)
  from pl show "on_its_node (it_Pod t') resp" by (simp add: pod)
  show "map_of (last (it_TemplateData t')) ''path''
      = Some (path_Join [input_mount_path (tis_Name (ic_InputSpec cfg)) (ic_AnnotatedValueIndex cfg), vr_LocalPath resp])"
    by (simp add: td file_input_data_def name_def i_def)
qed

lemma file_output_place:
  assumes "fileOutputBuilder_Build env cfg t w = (None, t', w')"
  obtains n w0 resp w1 where "xe_CreateVolumeForWrite env n (oc_OwnerRef cfg) (pl_Namespace (oc_Pipeline cfg)) w0 = (Inr resp, w1)"
    and "ot_OutputProcessor t' = Some (file_output_processor (oc_OutputSpec cfg) resp
          (output_mount_path (tos_Name (oc_OutputSpec cfg))) ''output'')"
    and "vr_VolumeName resp = [] \<Longrightarrow>
      mounts_place (ot_Pod t') (ot_Container t') (output_mount_path (tos_Name (oc_OutputSpec cfg))) resp
      \<and> on_its_node (ot_Pod t') resp"
proof -
  define name where "name = tos_Name (oc_OutputSpec cfg)"
  obtain r w1 where v: "xe_CreateVolumeForWrite env (case ot_NodeName t of Some n \<Rightarrow> n | None \<Rightarrow> []) (oc_OwnerRef cfg)
      (pl_Namespace (oc_Pipeline cfg)) w = (r, w1)" by (rule prod.exhaust)
  obtain resp where resp: "r = Inr resp" using assms v by (cases r) (auto simp: fileOutputBuilder_Build_def)
  obtain m pod rs w2 where mr: "mount_response env (output_claim_name cfg) (vr_VolumeName resp)
      (pl_Namespace (oc_Pipeline cfg)) (oc_OwnerRef cfg) False resp (output_volume_name env name)
      (ot_Pod t) (ot_Resources t) w1 = (m, pod, rs, w2)" by (metis prod_cases4)
  obtain v' where m: "m = Inr v'" and pod: "ot_Pod t' = pod"
    and c: "ot_Container t' = add_mount v' False (output_mount_path name) (vr_SubPath resp) (ot_Container t)"
    and p: "ot_OutputProcessor t' = Some (file_output_processor (oc_OutputSpec cfg) resp (output_mount_path name) ''output'')"
    using assms v resp mr
    by (cases m) (auto simp: fileOutputBuilder_Build_def Let_def simp flip: name_def)
  show ?thesis
  proof (rule that [OF v [unfolded resp] p [unfolded name_def]])
    assume "vr_VolumeName resp = []"
    from mount_response_place [OF mr [unfolded m] this]
    show "mounts_place (ot_Pod t') (ot_Container t') (output_mount_path (tos_Name (oc_OutputSpec cfg))) resp
      \<and> on_its_node (ot_Pod t') resp"
      by (auto simp: mounts_place_def c pod add_mount_def simp flip: name_def)
  qed
qed

section \<open>From one task to the next\<close>

text \<open>The same place: what a response says about where its volume is.\<close>

definition exchanged :: "ExecutorOutputBuilderTarget \<Rightarrow> string \<Rightarrow> ExecutorInputBuilderTarget \<Rightarrow> string \<Rightarrow> string \<Rightarrow> bool" where
  "exchanged ot outPath it inPath localPath \<longleftrightarrow>
     (\<exists>resp. mounts_place (ot_Pod ot) (ot_Container ot) outPath resp \<and> on_its_node (ot_Pod ot) resp
        \<and> mounts_place (it_Pod it) (it_Container it) inPath resp \<and> on_its_node (it_Pod it) resp)
     \<and> map_of (last (it_TemplateData it)) ''path'' = Some (path_Join [inPath, localPath])"

lemma valid_file_scheme: "valid_scheme SchemeFile"
  by (simp add: valid_scheme_def SchemeFile_def scheme_char_def alphanum_def to_lower_def lower_char_def)

context file_store
begin

lemma file_exchanged:
  assumes "\<And>n ow ns w r w'. xe_CreateVolumeForWrite E n ow ns w = (Inr r, w') \<Longrightarrow> wrote r"
    and "\<And>req w uri w'. xe_CreateFileURI E req w = (Inr uri, w') \<Longrightarrow> \<exists>w0. create_uri req w0 = Inr uri"
    and "\<And>uri ow ns w r w'. xe_CreateVolumeForRead E' uri ow ns w = (Inr r, w') \<Longrightarrow> \<exists>w1 w2. read_volume uri ns w1 = (Inr r, w2)"
    and out: "fileOutputBuilder_Build E oc ot w = (None, ot', w1)" and p: "ot_OutputProcessor ot' = Some p"
    and uri: "xe_CreateFileURI E (output_uri_request p localPath isDir) w2 = (Inr uri, w3)" and path: "localPath \<noteq> []"
    and inp: "fileInputBuilder_Build E' ic it w4 = (None, it', w5)" and data: "av_Data (ic_AnnotatedValue ic) = uri"
  shows "exchanged ot' (output_mount_path (tos_Name (oc_OutputSpec oc)))
    it' (input_mount_path (tis_Name (ic_InputSpec ic)) (ic_AnnotatedValueIndex ic)) localPath"
proof -
  obtain n w0 resp w1' where resp: "xe_CreateVolumeForWrite E n (oc_OwnerRef oc) (pl_Namespace (oc_Pipeline oc)) w0 = (Inr resp, w1')"
    and proc: "ot_OutputProcessor ot' = Some (file_output_processor (oc_OutputSpec oc) resp
          (output_mount_path (tos_Name (oc_OutputSpec oc))) ''output'')"
    and mo: "vr_VolumeName resp = [] \<Longrightarrow> mounts_place (ot_Pod ot') (ot_Container ot') (output_mount_path (tos_Name (oc_OutputSpec oc))) resp
      \<and> on_its_node (ot_Pod ot') resp"
    by (rule file_output_place [OF out]) (rule that)
  have wr: "wrote resp" by (rule assms(1) [OF resp])
  have req: "output_uri_request p localPath isDir = uri_request SchemeFile resp localPath isDir"
    using p proc by (auto simp: output_uri_request_def uri_request_def file_output_processor_def)
  obtain r6 w6 where rd: "xe_CreateVolumeForRead E' uri (ic_OwnerRef ic) (pl_Namespace (ic_Pipeline ic)) w4 = (r6, w6)"
    by (rule prod.exhaust)
  obtain r where r: "r6 = Inr r" using inp rd data by (cases r6) (auto simp: fileInputBuilder_Build_def)
  obtain w7 where u: "create_uri (uri_request SchemeFile resp localPath isDir) w7 = Inr uri"
    using assms(2) [OF uri] by (auto simp: req)
  obtain w8 w9 where "read_volume uri (pl_Namespace (ic_Pipeline ic)) w8 = (Inr r, w9)"
    using assms(3) [OF rd [unfolded r]] by blast
  from created_uri_read [OF wr valid_file_scheme path u this]
  have same: "r = resp\<lparr>vr_LocalPath := localPath, vr_IsDir := isDir\<rparr>" .
  then have rn: "vr_VolumeName r = []" and rp: "vr_LocalPath r = localPath" using by_claim_or_path [OF wr] by simp_all
  note mi = file_input_place [OF inp rd [unfolded r, folded data] rn]
  have "mounts_place (it_Pod it') (it_Container it') (input_mount_path (tis_Name (ic_InputSpec ic)) (ic_AnnotatedValueIndex ic)) resp"
    using mi(1) is_place_cong [of r resp] by (simp add: mounts_place_def same)
  moreover have "on_its_node (it_Pod it') resp" using mi(2) by (simp add: on_its_node_def same)
  ultimately show ?thesis using mo by_claim_or_path [OF wr] mi(3) rp unfolding exchanged_def by metis
qed

end

section \<open>With each of the services\<close>

text \<open>
  An executor whose file system service is the one on local directories: the panic of a call reaches
  the caller as an error of the connection; \<open>msg\<close> is the text of an error.
\<close>

definition with_local_fs ::
  "'w fs_env \<Rightarrow> localFS \<Rightarrow> (fs_error \<Rightarrow> string) \<Rightarrow> ('a, 'w) exec_env \<Rightarrow> ('a, 'w) exec_env" where
  "with_local_fs fe lfs msg env = env\<lparr>
     xe_CreateVolumeForWrite := (\<lambda>node owner ns w.
       (case local_CreateVolumeForWrite fe lfs node w of
          None \<Rightarrow> (Inl ''unavailable'', w)
        | Some (r, w) \<Rightarrow> (map_sum msg id r, w))),
     xe_CreateFileURI := (\<lambda>req w. (map_sum msg id (local_CreateFileURI fe req w), w)),
     xe_CreateVolumeForRead := (\<lambda>uri owner ns w. (map_sum msg id (local_CreateVolumeForRead lfs uri), w))\<rparr>"

definition with_s3_fs ::
  "(string \<Rightarrow> string) \<Rightarrow> 'w fs_env \<Rightarrow> s3FS \<Rightarrow> (fs_error \<Rightarrow> string) \<Rightarrow> ('a, 'w) exec_env \<Rightarrow> ('a, 'w) exec_env" where
  "with_s3_fs sha1_6 fe fs msg env = env\<lparr>
     xe_CreateVolumeForWrite := (\<lambda>node owner ns w. map_prod (map_sum msg id) id (s3_CreateVolumeForWrite sha1_6 fe fs ns w)),
     xe_CreateFileURI := (\<lambda>req w. (map_sum msg id (s3_CreateFileURI sha1_6 fs req), w)),
     xe_CreateVolumeForRead := (\<lambda>uri owner ns w. map_prod (map_sum msg id) id (s3_CreateVolumeForRead sha1_6 fe fs uri ns w))\<rparr>"

text \<open>The directory of the service is a clean path, nodes have DNS names, and new identifiers can be names of directories.\<close>

definition local_service_ok :: "'w fs_env \<Rightarrow> localFS \<Rightarrow> bool" where
  "local_service_ok fe lfs \<longleftrightarrow>
     clean_prefix (lc_LocalPathPrefix (lf_Config lfs))
     \<and> (\<forall>w nodes. fe_ListNodes fe w = Inr nodes \<longrightarrow> list_all plain_host nodes)
     \<and> (\<forall>n w. 0 < n \<longrightarrow> fst (fe_Intn fe n w) < n)
     \<and> (\<forall>w. plain_part (to_lower (fst (fe_NewID fe w))))"

definition s3_service_ok :: "'w fs_env \<Rightarrow> s3FS \<Rightarrow> bool" where
  "s3_service_ok fe fs \<longleftrightarrow> list_all plain_bucket (s3_Buckets fs) \<and> (\<forall>w. fst (fe_NewID fe w) \<noteq> [])"

lemma map_sum_Inr: "map_sum f id x = Inr y \<longleftrightarrow> x = Inr y"
  by (cases x) auto

text \<open>C19: When a task has written a file under its output and the file system service on local
  directories has made a URI for it, a task that gets this URI as input has the directory of that
  output mounted, on the node that holds it, and its command is given the path of the file there.\<close>

theorem local_file_reaches_next_task:
  assumes "local_service_ok fe lfs"
    and "fileOutputBuilder_Build (with_local_fs fe lfs msg E) oc ot w = (None, ot', w1)" and "ot_OutputProcessor ot' = Some p"
    and "xe_CreateFileURI (with_local_fs fe lfs msg E) (output_uri_request p localPath isDir) w2 = (Inr uri, w3)"
    and "localPath \<noteq> []"
    and "fileInputBuilder_Build (with_local_fs fe lfs msg E') ic it w4 = (None, it', w5)" and "av_Data (ic_AnnotatedValue ic) = uri"
  shows "exchanged ot' (output_mount_path (tos_Name (oc_OutputSpec oc)))
    it' (input_mount_path (tis_Name (ic_InputSpec ic)) (ic_AnnotatedValueIndex ic)) localPath"
proof (rule local_store.file_exchanged [OF _ _ _ assms(2-)])
  fix n ow ns w r w'
  assume "xe_CreateVolumeForWrite (with_local_fs fe lfs msg E) n ow ns w = (Inr r, w')"
  then have "local_CreateVolumeForWrite fe lfs n w = Some (Inr r, w')"
    by (auto simp: with_local_fs_def map_sum_Inr split: option.splits prod.splits)
  then show "local_wrote lfs r"
    by (rule local_answer_wrote) (use assms(1) in \<open>auto simp: local_service_ok_def\<close>)
next
  fix req w uri w'
  assume "xe_CreateFileURI (with_local_fs fe lfs msg E) req w = (Inr uri, w')"
  then show "\<exists>w0. local_CreateFileURI fe req w0 = Inr uri" by (auto simp: with_local_fs_def map_sum_Inr)
next
  fix uri ow ns w r w'
  assume "xe_CreateVolumeForRead (with_local_fs fe lfs msg E') uri ow ns w = (Inr r, w')"
  then show "\<exists>w1 w2. (local_CreateVolumeForRead lfs uri, w1) = (Inr r, w2)" by (auto simp: with_local_fs_def map_sum_Inr)
qed

text \<open>C20: With the file system service on S3 buckets, a task that gets the URI of a file has the same
  directory of the same persistent volume claim mounted that the task which wrote the file had, also
  when several configured buckets share a name or an endpoint.\<close>

theorem s3_file_reaches_next_task:
  assumes "s3_service_ok fe fs"
    and "fileOutputBuilder_Build (with_s3_fs sha1_6 fe fs msg E) oc ot w = (None, ot', w1)" and "ot_OutputProcessor ot' = Some p"
    and "xe_CreateFileURI (with_s3_fs sha1_6 fe fs msg E) (output_uri_request p localPath isDir) w2 = (Inr uri, w3)"
    and "localPath \<noteq> []"
    and "fileInputBuilder_Build (with_s3_fs sha1_6 fe fs msg E') ic it w4 = (None, it', w5)" and "av_Data (ic_AnnotatedValue ic) = uri"
  shows "exchanged ot' (output_mount_path (tos_Name (oc_OutputSpec oc)))
    it' (input_mount_path (tis_Name (ic_InputSpec ic)) (ic_AnnotatedValueIndex ic)) localPath"
proof (rule s3_store.file_exchanged [OF _ _ _ assms(2-)])
  fix n ow ns w r w'
  assume "xe_CreateVolumeForWrite (with_s3_fs sha1_6 fe fs msg E) n ow ns w = (Inr r, w')"
  then obtain w'' where "s3_CreateVolumeForWrite sha1_6 fe fs ns w = (Inr r, w'')"
    by (cases "s3_CreateVolumeForWrite sha1_6 fe fs ns w") (auto simp: with_s3_fs_def map_sum_Inr)
  then show "s3_wrote sha1_6 fs r"
    by (rule s3_answer_wrote) (use assms(1) in \<open>auto simp: s3_service_ok_def\<close>)
next
  fix req w uri w'
  assume "xe_CreateFileURI (with_s3_fs sha1_6 fe fs msg E) req w = (Inr uri, w')"
  then show "\<exists>w0. s3_CreateFileURI sha1_6 fs req = Inr uri" by (auto simp: with_s3_fs_def map_sum_Inr)
next
  fix uri ow ns w r w'
  assume "xe_CreateVolumeForRead (with_s3_fs sha1_6 fe fs msg E') uri ow ns w = (Inr r, w')"
  then show "\<exists>w1 w2. s3_CreateVolumeForRead sha1_6 fe fs uri ns w1 = (Inr r, w2)"
    by (cases "s3_CreateVolumeForRead sha1_6 fe fs uri ns w") (auto simp: with_s3_fs_def map_sum_Inr)
qed

end
