(* ===== verification/Executor_Publish.thy ===== *)
theory Executor_Publish
  imports Executor
begin

text \<open>
  The loop that publishes an output of an executor, described attempt by attempt: what the
  publisher answers, how long the loop waits, and when it ends.
\<close>

section \<open>The attempts of one output\<close>

primrec pub_delay :: "nat \<Rightarrow> int" where
  "pub_delay 0 = 100 * millisecond"
| "pub_delay (Suc k) = Backoff (pub_delay k) 3 2 minute"

text \<open>The world before attempt \<open>k\<close>, when the attempts before it have not ended the loop.\<close>

primrec pub_world ::
  "('a, 'w) exec_env \<Rightarrow> string \<Rightarrow> AnnotatedValue \<Rightarrow> 'a InputSnapshot \<Rightarrow> 'w \<Rightarrow> nat \<Rightarrow> 'w" where
  "pub_world env n av sn w 0 = w"
| "pub_world env n av sn w (Suc k) =
     snd (xe_Sleep env (pub_delay k) (snd (xe_Publish env n av sn (pub_world env n av sn w k))))"

definition pub_answer ::
  "('a, 'w) exec_env \<Rightarrow> string \<Rightarrow> AnnotatedValue \<Rightarrow> 'a InputSnapshot \<Rightarrow> 'w \<Rightarrow> nat
    \<Rightarrow> (string, bool \<times> AnnotatedValue) go_result" where
  "pub_answer env n av sn w k = fst (xe_Publish env n av sn (pub_world env n av sn w k))"

definition pub_timer ::
  "('a, 'w) exec_env \<Rightarrow> string \<Rightarrow> AnnotatedValue \<Rightarrow> 'a InputSnapshot \<Rightarrow> 'w \<Rightarrow> nat \<Rightarrow> bool" where
  "pub_timer env n av sn w k =
     fst (xe_Sleep env (pub_delay k) (snd (xe_Publish env n av sn (pub_world env n av sn w k))))"

definition accepted_at ::
  "('a, 'w) exec_env \<Rightarrow> string \<Rightarrow> AnnotatedValue \<Rightarrow> 'a InputSnapshot \<Rightarrow> 'w \<Rightarrow> nat \<Rightarrow> bool" where
  "accepted_at env n av sn w k \<longleftrightarrow>
     (case pub_answer env n av sn w k of Inl e \<Rightarrow> False | Inr (accepted, av') \<Rightarrow> accepted)"

text \<open>Attempt \<open>k\<close> is the eleventh of eleven failed calls in a row.\<close>

definition eleven_failed_at ::
  "('a, 'w) exec_env \<Rightarrow> string \<Rightarrow> AnnotatedValue \<Rightarrow> 'a InputSnapshot \<Rightarrow> 'w \<Rightarrow> nat \<Rightarrow> bool" where
  "eleven_failed_at env n av sn w k \<longleftrightarrow>
     10 \<le> k \<and> (\<forall>j \<in> {k - 10..k}. isl (pub_answer env n av sn w j))"

primrec pub_failures ::
  "('a, 'w) exec_env \<Rightarrow> string \<Rightarrow> AnnotatedValue \<Rightarrow> 'a InputSnapshot \<Rightarrow> 'w \<Rightarrow> nat \<Rightarrow> nat" where
  "pub_failures env n av sn w 0 = 0"
| "pub_failures env n av sn w (Suc k) =
     (if isl (pub_answer env n av sn w k) then Suc (pub_failures env n av sn w k) else 0)"

section \<open>Lemmas\<close>

lemma pub_delay_range: "100 * millisecond \<le> pub_delay k \<and> pub_delay k \<le> minute \<and> pub_delay k \<le> pub_delay (Suc k)"
proof (induction k)
  case 0
  then show ?case by (simp add: Backoff_def millisecond_def minute_def)
next
  case (Suc k)
  have "d \<le> d * 3 div 2" if "0 \<le> d" for d :: int using that by linarith
  with Suc show ?case
    by (auto simp: Backoff_def Let_def millisecond_def minute_def)
qed

lemma pub_delay_full: "pub_delay 16 = minute"
  by (simp add: eval_nat_numeral Backoff_def millisecond_def minute_def)

lemma pub_failures_le: "pub_failures env n av sn w k \<le> k"
  by (induction k) auto

lemma pub_failures_iff:
  "i \<le> pub_failures env n av sn w k \<longleftrightarrow> i \<le> k \<and> (\<forall>j \<in> {k - i..<k}. isl (pub_answer env n av sn w j))"
proof (induction k arbitrary: i)
  case (Suc k)
  show ?case
  proof (cases i)
    case (Suc i')
    have "{Suc k - i..<Suc k} = insert k {k - i'..<k}" if "i \<le> Suc k" using that Suc by auto
    then show ?thesis using Suc.IH [of i'] Suc by auto
  qed simp
qed simp

lemma eleven_failed_iff:
  "eleven_failed_at env n av sn w k \<longleftrightarrow>
     isl (pub_answer env n av sn w k) \<and> Suc (pub_failures env n av sn w k) > maxPublishFailures"
proof -
  have "{k - 10..k} = insert k {k - 10..<k}" by auto
  then show ?thesis
    using pub_failures_iff [of 10 env n av sn w k] by (auto simp: eleven_failed_at_def maxPublishFailures_def)
qed

text \<open>One turn of the loop, at attempt \<open>k\<close>.\<close>

lemma publish_turn:
  fixes env :: "('a, 'w) exec_env"
  shows "publish_loop env n av sn (pub_delay k) (pub_failures env n av sn w k) (pub_world env n av sn w k) =
     (if eleven_failed_at env n av sn w k
      then Some (Some (PublishFailed (projl (pub_answer env n av sn w k))),
                 snd (xe_Publish env n av sn (pub_world env n av sn w k)))
      else if accepted_at env n av sn w k
      then Some (None, snd (xe_Publish env n av sn (pub_world env n av sn w k)))
      else if pub_timer env n av sn w k
      then publish_loop env n av sn (pub_delay (Suc k)) (pub_failures env n av sn w (Suc k)) (pub_world env n av sn w (Suc k))
      else Some (Some ContextDone, pub_world env n av sn w (Suc k)))"
proof -
  let ?w = "pub_world env n av sn w k" and ?f = "pub_failures env n av sn w k"
  obtain r w1 where p: "xe_Publish env n av sn ?w = (r, w1)" by (rule prod.exhaust)
  obtain t w2 where s: "xe_Sleep env (pub_delay k) w1 = (t, w2)" by (rule prod.exhaust)
  have e: "eleven_failed_at env n av sn w k \<longleftrightarrow> isl r \<and> Suc ?f > maxPublishFailures"
    by (simp add: eleven_failed_iff pub_answer_def p)
  have a: "accepted_at env n av sn w k \<longleftrightarrow> \<not> isl r \<and> fst (projr r)"
    by (cases r) (auto simp: accepted_at_def pub_answer_def p)
  have t: "pub_timer env n av sn w k = t" by (simp add: pub_timer_def p s)
  show ?thesis
    by (subst publish_loop.simps) (simp add: e a t p s pub_answer_def)
qed

definition pub_ends ::
  "('a, 'w) exec_env \<Rightarrow> string \<Rightarrow> AnnotatedValue \<Rightarrow> 'a InputSnapshot \<Rightarrow> 'w \<Rightarrow> nat \<Rightarrow> bool" where
  "pub_ends env n av sn w k \<longleftrightarrow>
     eleven_failed_at env n av sn w k \<or> accepted_at env n av sn w k \<or> \<not> pub_timer env n av sn w k"

lemma publish_until:
  "\<forall>j < k. \<not> pub_ends env n av sn w j \<Longrightarrow>
     publish_loop env n av sn (100 * millisecond) 0 w =
     publish_loop env n av sn (pub_delay k) (pub_failures env n av sn w k) (pub_world env n av sn w k)"
proof (induction k)
  case (Suc k)
  then have "\<not> pub_ends env n av sn w k" by simp
  with Suc show ?case using publish_turn [of env n av sn k w] by (simp add: pub_ends_def)
qed simp

lemma publish_ends:
  assumes "publish_loop env n av sn (pub_delay k) (pub_failures env n av sn w k) (pub_world env n av sn w k) = Some y"
  shows "\<exists>j. pub_ends env n av sn w j"
proof -
  let ?P = "\<lambda>env n av sn d f w' y. \<forall>w k. d = pub_delay k \<and> f = pub_failures env n av sn w k
      \<and> w' = pub_world env n av sn w k \<longrightarrow> (\<exists>j. pub_ends env n av sn w j)"
  have "?P env n av sn (pub_delay k) (pub_failures env n av sn w k) (pub_world env n av sn w k) y"
  proof (rule publish_loop.raw_induct [where P = ?P, OF _ assms], intro allI impI)
    fix loop env n av sn d f w' y w k
    assume IH: "\<And>env n av sn d f w' y. loop env n av sn d f w' = Some y \<Longrightarrow> ?P env n av sn d f w' y"
      and body: "(case xe_Publish env n av sn w' of
        (r, w) \<Rightarrow>
          if isl r \<and> Suc f > maxPublishFailures then Some (Some (PublishFailed (projl r)), w)
          else if \<not> isl r \<and> fst (projr r) then Some (None, w)
          else (case xe_Sleep env d w of
                  (timer, w) \<Rightarrow>
                    if timer then loop env n av sn (Backoff d 3 2 minute) (if isl r then Suc f else 0) w
                    else Some (Some ContextDone, w))) = Some y"
      and at: "d = pub_delay k \<and> f = pub_failures env n av sn w k \<and> w' = pub_world env n av sn w k"
    obtain r w1 where p: "xe_Publish env n av sn w' = (r, w1)" by (rule prod.exhaust)
    obtain t w2 where s: "xe_Sleep env d w1 = (t, w2)" by (rule prod.exhaust)
    have "pub_ends env n av sn w k \<longleftrightarrow>
        isl r \<and> Suc f > maxPublishFailures \<or> \<not> isl r \<and> fst (projr r) \<or> \<not> t"
      using p s at
      by (cases r) (auto simp: pub_ends_def eleven_failed_iff accepted_at_def pub_answer_def pub_timer_def)
    moreover have "loop env n av sn (pub_delay (Suc k)) (pub_failures env n av sn w (Suc k)) (pub_world env n av sn w (Suc k)) = Some y"
      if "\<not> pub_ends env n av sn w k"
    proof -
      have eqs: "d = pub_delay k" "f = pub_failures env n av sn w k" "w' = pub_world env n av sn w k"
        using at by auto
      show ?thesis
        using that calculation body p s unfolding eqs by (simp add: pub_answer_def split: if_splits)
    qed
    ultimately show "\<exists>j. pub_ends env n av sn w j" using IH by blast
  qed
  then show ?thesis by blast
qed

text \<open>While its context lives, the loop that publishes an output tries until the output is
  accepted or eleven calls in a row have failed: it returns nil exactly in the first case, an error
  exactly in the second, at the first attempt at which either holds, and goes on for ever
  otherwise.  The delays between attempts grow from 100 milliseconds to one minute.\<close>

theorem publish_until_accepted:
  assumes "\<And>k. pub_timer env n av sn w k"
  shows "(publish_loop env n av sn (100 * millisecond) 0 w = None
      \<longleftrightarrow> (\<forall>k. \<not> accepted_at env n av sn w k \<and> \<not> eleven_failed_at env n av sn w k))
    \<and> (\<forall>k. (\<forall>j < k. \<not> accepted_at env n av sn w j \<and> \<not> eleven_failed_at env n av sn w j) \<longrightarrow>
        (accepted_at env n av sn w k \<longrightarrow>
           publish_loop env n av sn (100 * millisecond) 0 w
             = Some (None, snd (xe_Publish env n av sn (pub_world env n av sn w k))))
      \<and> (eleven_failed_at env n av sn w k \<longrightarrow>
           publish_loop env n av sn (100 * millisecond) 0 w
             = Some (Some (PublishFailed (projl (pub_answer env n av sn w k))),
                     snd (xe_Publish env n av sn (pub_world env n av sn w k)))))
    \<and> (\<forall>k. pub_delay k \<le> pub_delay (Suc k) \<and> pub_delay k \<le> minute) \<and> pub_delay 16 = minute"
proof (intro conjI)
  let ?loop = "publish_loop env n av sn (100 * millisecond) 0 w"
  have ends: "pub_ends env n av sn w k \<longleftrightarrow> accepted_at env n av sn w k \<or> eleven_failed_at env n av sn w k" for k
    using assms by (auto simp: pub_ends_def)
  have at: "?loop = publish_loop env n av sn (pub_delay k) (pub_failures env n av sn w k) (pub_world env n av sn w k)"
    if "\<forall>j < k. \<not> accepted_at env n av sn w j \<and> \<not> eleven_failed_at env n av sn w j" for k
    by (rule publish_until) (simp add: ends that)
  have excl: "\<not> eleven_failed_at env n av sn w k" if "accepted_at env n av sn w k" for k
    using that by (auto simp: accepted_at_def eleven_failed_iff split: sum.splits)
  show "\<forall>k. (\<forall>j < k. \<not> accepted_at env n av sn w j \<and> \<not> eleven_failed_at env n av sn w j) \<longrightarrow>
        (accepted_at env n av sn w k \<longrightarrow>
           ?loop = Some (None, snd (xe_Publish env n av sn (pub_world env n av sn w k))))
      \<and> (eleven_failed_at env n av sn w k \<longrightarrow>
           ?loop = Some (Some (PublishFailed (projl (pub_answer env n av sn w k))),
                     snd (xe_Publish env n av sn (pub_world env n av sn w k))))"
  proof (intro allI impI conjI)
    fix k assume first: "\<forall>j < k. \<not> accepted_at env n av sn w j \<and> \<not> eleven_failed_at env n av sn w j"
    note turn = trans [OF at [OF first] publish_turn]
    show "?loop = Some (None, snd (xe_Publish env n av sn (pub_world env n av sn w k)))"
      if "accepted_at env n av sn w k"
      by (rule trans [OF turn]) (simp only: excl [OF that] that if_True if_False)
    show "?loop = Some (Some (PublishFailed (projl (pub_answer env n av sn w k))),
        snd (xe_Publish env n av sn (pub_world env n av sn w k)))" if "eleven_failed_at env n av sn w k"
      by (rule trans [OF turn]) (simp only: that if_True)
  qed
  then show "?loop = None \<longleftrightarrow> (\<forall>k. \<not> accepted_at env n av sn w k \<and> \<not> eleven_failed_at env n av sn w k)"
  proof (intro iffI)
    assume some: "\<forall>k. (\<forall>j < k. \<not> accepted_at env n av sn w j \<and> \<not> eleven_failed_at env n av sn w j) \<longrightarrow>
        (accepted_at env n av sn w k \<longrightarrow>
           ?loop = Some (None, snd (xe_Publish env n av sn (pub_world env n av sn w k))))
      \<and> (eleven_failed_at env n av sn w k \<longrightarrow>
           ?loop = Some (Some (PublishFailed (projl (pub_answer env n av sn w k))),
                     snd (xe_Publish env n av sn (pub_world env n av sn w k))))"
    assume none: "?loop = None"
    show "\<forall>k. \<not> accepted_at env n av sn w k \<and> \<not> eleven_failed_at env n av sn w k"
    proof
      fix k show "\<not> accepted_at env n av sn w k \<and> \<not> eleven_failed_at env n av sn w k"
      proof (induction k rule: less_induct)
        case (less k)
        show ?case using mp [OF spec [OF some, of k]] less.IH by (simp add: none)
      qed
    qed
  next
    assume "\<forall>k. \<not> accepted_at env n av sn w k \<and> \<not> eleven_failed_at env n av sn w k"
    then show "?loop = None" using publish_ends [of env n av sn 0 w] ends by (cases ?loop) auto
  qed
  show "\<forall>k. pub_delay k \<le> pub_delay (Suc k) \<and> pub_delay k \<le> minute" using pub_delay_range by blast
  show "pub_delay 16 = minute" by (rule pub_delay_full)
qed

end
