(* ===== verification/Executor_Example.thy ===== *)
theory Executor_Example
  imports Executor_Pod Executor_Publish "HOL-Library.Code_Target_Nat"
begin

text \<open>
  A concrete executor with a small world, a counter, on which the properties of the executor are
  applied.
\<close>

definition example_response :: volume_response where
  "example_response = \<lparr>vr_VolumeName = [], vr_VolumeClaimName = [], vr_VolumePath = ''/var/v'',
     vr_SubPath = [], vr_NodeName = ''n1'', vr_LocalPath = ''output'', vr_IsDir = False, vr_DeleteAfterUse = True\<rparr>"

definition example_volume :: persistent_volume where
  "example_volume = \<lparr>pv_Meta = \<lparr>om_Name = ''pv'', om_Namespace = [], om_Labels = [], om_Annotations = [], om_Owners = []\<rparr>,
     pv_Spec = \<lparr>pv_AccessModes = [''RWO''], pv_Source = OtherVolume [], pv_Capacity = ''8Gi'', pv_StorageClassName = ''local''\<rparr>\<rparr>"

text \<open>The publisher fails twice before it accepts.\<close>

definition example_env :: "(nat, nat) exec_env" where
  "example_env =
     \<lparr>xe_GetPV = (\<lambda>n w. Inr example_volume), xe_GetPVC = (\<lambda>n ns w. Inl (ApiFailure ''none'')),
      xe_Create = (\<lambda>x w. (None, w)), xe_Delete = (\<lambda>x w. (None, w)),
      xe_ConfigMaps = \<lparr>kc_Get = (\<lambda>n ns w. ApiNotFound), kc_Create = (\<lambda>x w. (None, w)), kc_Update = (\<lambda>x w. (None, w))\<rparr>,
      xe_CreateVolumeForRead = (\<lambda>u own ns w. (Inr (example_response\<lparr>vr_VolumePath := [], vr_VolumeName := ''pv''\<rparr>), w)),
      xe_CreateVolumeForWrite = (\<lambda>n own ns w. (Inr example_response, w)),
      xe_CreateFileURI = (\<lambda>q w. (Inr ''koalja-file://n1/v'', w)),
      xe_NewLen = (\<lambda>n w. (itoa w, Suc w)), xe_DecodeString = (\<lambda>u. Inr [1, 2]),
      xe_ApplyTemplate = (\<lambda>s d w. (Inr s, w)),
      xe_Publish = (\<lambda>n av sn w. if w < 5 then (Inl ''unavailable'', Suc w) else (Inr (True, av), w)),
      xe_Sleep = (\<lambda>d w. (True, w)), xe_Getenv = (\<lambda>v. []), xe_sha1 = (\<lambda>s. replicate 40 (CHR ''0''))\<rparr>"

definition executor_input :: TaskInputSpec where
  "executor_input = \<lparr>tis_Name = ''in'', tis_TypeRef = ''t'', tis_RequiredSequenceLength = Some 2,
     tis_MinSequenceLength = None, tis_MaxSequenceLength = None, tis_Slide = None, tis_MergeInto = []\<rparr>"

definition executor_output :: TaskOutputSpec where
  "executor_output = \<lparr>tos_Name = ''out'', tos_TypeRef = ''t'', tos_Ready = [], tos_Options = []\<rparr>"

definition executor_task :: TaskSpec where
  "executor_task = \<lparr>ts_Name = ''task'', ts_Type = [], ts_Inputs = [executor_input], ts_Outputs = [executor_output],
     ts_Executor = Some (empty_container\<lparr>c_Command := Some [''run'']\<rparr>), ts_SnapshotPolicy = ''AllNew'',
     ts_LaunchPolicy = ''Auto'', ts_Service = Some \<lparr>svc_Ports = [\<lparr>sps_Name = ''web'', sps_Port = 80, sps_LocalPort = 8080\<rparr>]\<rparr>\<rparr>"

definition example_executor :: executor where
  "example_executor = \<lparr>ex_Pipeline = \<lparr>pl_Name = ''p'', pl_Namespace = ''ns'', pl_Labels = [],
       pl_Spec = \<lparr>ps_Tasks = [executor_task], ps_Links = [], ps_Types = [\<lparr>ty_Name = ''t'', ty_Protocol = ''File'', ty_Format = []\<rparr>]\<rparr>,
       pl_Status = \<lparr>pst_Domain = [], pst_Revision = []\<rparr>\<rparr>,
     ex_TaskSpec = executor_task, ex_OutputAddresses = [], ex_TaskExecContainer = None, ex_TaskExecLabels = [],
     ex_ServiceName = ''sa'', ex_MyPod = \<lparr>om_Name = ''agent-0'', om_Namespace = ''ns'', om_Labels = [], om_Annotations = [], om_Owners = []\<rparr>,
     ex_DNSName = ''agent.ns.svc'', ex_ServicesPort = 6275\<rparr>"

definition value_at :: "string \<Rightarrow> AnnotatedValue" where
  "value_at uri = \<lparr>av_ID = ''id'', av_SourceTask = [], av_SourceTaskOutput = [], av_Link = [],
     av_SourceInputs = [], av_Data = uri, av_CreatedAt = None\<rparr>"

definition snapshot_of :: "string list \<Rightarrow> nat InputSnapshot" where
  "snapshot_of uris = [(''in'', \<lparr>ip_sequence = map (\<lambda>u. (value_at u, None)) uris, ip_stats = None, ip_minSeqLen = 2\<rparr>)]"

text \<open>A file and a piece of data; the executor pod is named after the first random text.\<close>

abbreviation "example_args \<equiv> snapshot_of [''koalja-file://n1/u'', ''data:,x'']"

definition example_events :: "exec_event list" where
  "example_events = [URIRequest ''out'' ''f'' False, URIRequest ''other'' ''f'' False,
     PodChange (Some \<lparr>ch_Name = ''p-x-task-0'', ch_Labels = Some [(''uid'', ''0'')], ch_Phase = ''Running'', ch_ContainerStatuses = []\<rparr>),
     PodChange (Some \<lparr>ch_Name = ''p-x-task-0'', ch_Labels = Some [(''uid'', ''0'')], ch_Phase = ''Succeeded'', ch_ContainerStatuses = []\<rparr>)]"

definition run_example :: "string list \<Rightarrow> exec_event list \<Rightarrow> (exec_run \<times> nat logged) option" where
  "run_example uris events =
     Execute (recording example_env) example_executor (snapshot_of uris) events NewPodGarbageCollector (0, [])"

section \<open>Applying the properties\<close>

lemma example_configured: "configuration_of (recording example_env) example_executor example_args (0, []) \<noteq> None"
  by code_simp

lemma example_succeeds:
  "map_option (\<lambda>r. er_Result (fst r)) (run_example [''koalja-file://n1/u'', ''data:,x''] example_events)
     = Some (ExecReturned None)"
  by code_simp


lemma failed_input_leaks_witness:
  "\<exists>run cm. run_example [''data:,x'', ''http://x''] [] = Some run
     \<and> er_Result (fst run) = ExecReturned (Some (NoInputBuilder ''http''))
     \<and> snd (snd run) = [Created (X_ConfigMap cm)]"
proof -
  let ?env = "recording example_env" and ?args = "snapshot_of [''data:,x'', ''http://x'']"
  let ?c = "empty_container\<lparr>c_Command := Some [''run'']\<rparr>"
  let ?b = "start_build (named_container ?c) (new_pod ?env example_executor ''0'' ''agent-0'')"
  have own: "om_Name (ex_MyPod example_executor) = ''agent-0''" by (simp add: example_executor_def)
  have args: "GetSequence ?args (tis_Name executor_input) = [value_at ''data:,x'', value_at ''http://x'']" by code_simp
  obtain e target w3 log where st: "buildTaskInput ?env example_executor executor_input
      (GetSequence ?args (tis_Name executor_input)) ''agent-0'' (input_target ?b) (1, []) = (e, target, (w3, log))"
    by (metis prod_cases4)
  have "(case buildTaskInput ?env example_executor executor_input
      [value_at ''data:,x'', value_at ''http://x''] ''agent-0'' (input_target ?b) (1, []) of
        (e, t, (w, l)) \<Rightarrow> e = Some (NoInputBuilder ''http'') \<and>
          (case l of [Created (X_ConfigMap cm)] \<Rightarrow> True | _ \<Rightarrow> False))" by code_simp
  then have e: "e = Some (NoInputBuilder ''http'')"
    and cm: "case log of [Created (X_ConfigMap cm)] \<Rightarrow> True | _ \<Rightarrow> False" using st by (simp_all add: args)
  obtain cm where log: "log = [Created (X_ConfigMap cm)]"
    using cm by (auto split: list.splits api_call.splits exec_object.splits)
  have 1: "createExecContainer example_executor = Inr ?c"
    by (simp add: createExecContainer_def example_executor_def executor_task_def)
  have 2: "xe_NewLen ?env 6 (0, []) = (''0'', (1, []))" by code_simp
  have 3: "SnapshotInputs (ex_TaskSpec example_executor) = [] @ executor_input # []" by code_simp
  have 4: "build_task_inputs ?env example_executor ?args (om_Name (ex_MyPod example_executor)) []
      (start_build (named_container ?c) (new_pod ?env example_executor ''0'' (om_Name (ex_MyPod example_executor)))) (1, [])
      = (None, ?b, (1, []))" by (simp add: own)
  have 5: "buildTaskInput ?env example_executor executor_input (GetSequence ?args (tis_Name executor_input))
      (om_Name (ex_MyPod example_executor)) (input_target ?b) (1, []) = (Some (NoInputBuilder ''http''), target, (w3, log))"
    by (simp only: own st e)
  from failed_input_leaks [OF 1 2 3 4 5, of "[]" NewPodGarbageCollector] obtain xs wl4
    where run: "run_example [''data:,x'', ''http://x''] []
        = Some (\<lparr>er_Result = ExecReturned (Some (NoInputBuilder ''http'')), er_Responses = [],
             er_PodGC = NewPodGarbageCollector\<rparr>, wl4)"
      and "\<exists>deletions. snd wl4 = log @ deletions \<and> list_all2 attempt (eb_Resources ?b) deletions"
    unfolding run_example_def own by auto
  then have "snd wl4 = [Created (X_ConfigMap cm)]" by (auto simp: log start_build_def)
  with run show ?thesis by auto
qed

lemma publish_until_accepted_witness:
  "publish_loop example_env ''out'' (value_at ''u'') (snapshot_of []) (100 * millisecond) 0 2
     = Some (None, 5)"
proof -
  have timer: "pub_timer example_env ''out'' (value_at ''u'') (snapshot_of []) 2 k" for k
    by (simp add: pub_timer_def example_env_def)
  have none: "\<not> accepted_at example_env ''out'' (value_at ''u'') (snapshot_of []) 2 j
      \<and> \<not> eleven_failed_at example_env ''out'' (value_at ''u'') (snapshot_of []) 2 j" if "j < 3" for j
  proof -
    have "j = 0 \<or> j = 1 \<or> j = 2" using that by auto
    then show ?thesis
      by (auto simp: accepted_at_def pub_answer_def eleven_failed_at_def example_env_def numeral_2_eq_2)
  qed
  have "accepted_at example_env ''out'' (value_at ''u'') (snapshot_of []) 2 3" by code_simp
  moreover have "snd (xe_Publish example_env ''out'' (value_at ''u'') (snapshot_of [])
      (pub_world example_env ''out'' (value_at ''u'') (snapshot_of []) 2 3)) = 5" by code_simp
  ultimately show ?thesis
    using publish_until_accepted [of example_env "''out''" "value_at ''u''" "snapshot_of []" 2, OF timer] none
    by (metis (no_types, lifting))
qed

lemma snapshot_is_mounted_witness:
  "\<exists>uid b w' ms. configuration_of (recording example_env) example_executor example_args (0, []) = Some (uid, b, w')
     \<and> c_VolumeMounts (eb_Container b) = ms
     \<and> map vm_MountPath ms = [''/koalja/inputs/in/0'', ''/koalja/inputs/in/1'', ''/koalja/outputs/out'']
     \<and> distinct (map vm_MountPath ms)"
proof -
  obtain uid b w' where conf: "configuration_of (recording example_env) example_executor example_args (0, []) = Some (uid, b, w')"
    using example_configured by (metis not_None_eq prod_cases3)
  have c: "createExecContainer example_executor = Inr (empty_container\<lparr>c_Command := Some [''run'']\<rparr>)"
    by (simp add: createExecContainer_def example_executor_def executor_task_def)
  have paths: "concat (map (\<lambda>t. map (input_mount_path (tis_Name t))
           [0..<length (GetSequence example_args (tis_Name t))]) (SnapshotInputs (ex_TaskSpec example_executor)))
         @ map (\<lambda>t. output_mount_path (tos_Name t)) (ts_Outputs (ex_TaskSpec example_executor))
       = [''/koalja/inputs/in/0'', ''/koalja/inputs/in/1'', ''/koalja/outputs/out'']" by code_simp
  from snapshot_is_mounted [OF conf c] conf paths show ?thesis by (auto simp: empty_container_def)
qed


lemma success_was_reported_witness:
  "\<exists>run w' ch. run_example [''koalja-file://n1/u'', ''data:,x''] example_events = Some (run, w')
     \<and> er_Result run = ExecReturned None
     \<and> PodChange (Some ch) \<in> set example_events \<and> length (er_Responses run) = 2"
proof -
  obtain run w' where run: "run_example [''koalja-file://n1/u'', ''data:,x''] example_events = Some (run, w')"
    and res: "er_Result run = ExecReturned None" using example_succeeds by auto
  have len: "map_option (\<lambda>r. length (er_Responses (fst r)))
      (run_example [''koalja-file://n1/u'', ''data:,x''] example_events) = Some 2" by code_simp
  from success_was_reported [OF run [unfolded run_example_def] res] obtain pre ch post
    where "example_events = pre @ PodChange (Some ch) # post" by blast
  then have "PodChange (Some ch) \<in> set example_events" by (metis in_set_conv_decomp)
  then show ?thesis using run res len by auto
qed

end
