(* ===== verification/FS_Example.thy ===== *)
theory FS_Example
  imports File_Exchange Executor_Example
begin

text \<open>
  A cluster of two nodes and a store with two buckets, on which the properties of the file system
  services are applied.  The world is a counter.
\<close>

section \<open>The services\<close>

definition example_fs_env :: "nat fs_env" where
  "example_fs_env =
     \<lparr>fe_Retry = \<lparr>re_Now = int, re_Deadline = None, re_CtxErr = (\<lambda>w. None), re_Sleep = (\<lambda>d w. (True, w + nat d)),
        re_Random = (\<lambda>lo hi w. (lo, w))\<rparr>,
      fe_GetPod = (\<lambda>n ns d w. (Inr zero_pod, w)), fe_GetStatefulSet = (\<lambda>n ns d w. (Inr zero_workload, w)),
      fe_GetStorageClass = (\<lambda>n d w. (Inl (PlainError ''not found''), w)), fe_CreateStorageClass = (\<lambda>c d w. (None, w)),
      fe_ListNodes = (\<lambda>w. Inr [''node-1'', ''node-2'']), fe_GetPV = (\<lambda>n w. Inl (ApiFailure ''not found'')),
      fe_PersistentVolumes = \<lparr>kc_Get = (\<lambda>n ns w. ApiNotFound), kc_Create = (\<lambda>x w. (None, w)), kc_Update = (\<lambda>x w. (None, w))\<rparr>,
      fe_PersistentVolumeClaims = \<lparr>kc_Get = (\<lambda>n ns w. ApiNotFound), kc_Create = (\<lambda>x w. (None, w)), kc_Update = (\<lambda>x w. (None, w))\<rparr>,
      fe_DaemonSets = \<lparr>kc_Get = (\<lambda>n ns w. ApiNotFound), kc_Create = (\<lambda>x w. (None, w)), kc_Update = (\<lambda>x w. (None, w))\<rparr>,
      fe_Intn = (\<lambda>n w. (w mod n, w)), fe_NewID = (\<lambda>w. (CHR ''U'' # itoa w, Suc w)), fe_Getenv = (\<lambda>v. [])\<rparr>"

definition example_local :: localFS where
  "example_local = \<lparr>lf_Config = \<lparr>lc_PodName = ''fs-0'', lc_Namespace = ''koalja-system'',
       lc_LocalPathPrefix = ''/var/lib/koalja'', lc_StorageClassName = ''koalja-local''\<rparr>,
     lf_nodeRegistryAddress = ''fs:6275'', lf_statefulSetName = ''fs'', lf_image = ''koalja'', lf_owner = zero_workload\<rparr>"

definition example_bucket :: "string \<Rightarrow> bool \<Rightarrow> BucketConfig" where
  "example_bucket n d = \<lparr>bc_Name = n, bc_Endpoint = ''s3.test:9000'', bc_Secure = False, bc_SecretName = ''keys'',
     bc_isDefault = d, bc_accessKey = ''a'', bc_secretKey = ''s''\<rparr>"

definition example_s3 :: s3FS where
  "example_s3 = \<lparr>s3_Config = \<lparr>s3c_PodName = ''fs-0'', s3c_Namespace = ''koalja-system'', s3c_StorageClassName = ''koalja-s3''\<rparr>,
     s3_statefulSetName = ''fs'', s3_owner = zero_workload, s3_Buckets = [example_bucket ''main'' True, example_bucket ''other'' False]\<rparr>"

definition fs_digest :: "string \<Rightarrow> string" where
  "fs_digest s = rev (take 12 (rev s))"

definition error_text :: "fs_error \<Rightarrow> string" where
  "error_text e = (case e of FS_Message m \<Rightarrow> m | _ \<Rightarrow> ''failed'')"

lemma example_id: "plain_part (to_lower (CHR ''U'' # itoa w))"
proof -
  have i: "plain_part (itoa w)" by (rule itoa_plain)
  have "lower_char c \<noteq> CHR ''/''" if "c \<noteq> CHR ''/''" for c
  proof
    assume l: "lower_char c = CHR ''/''"
    show False
    proof (cases "65 \<le> (of_char c :: nat) \<and> (of_char c :: nat) \<le> 90")
      case True
      then have "(of_char (lower_char c) :: nat) = of_char c + 32" by (simp add: lower_char_def)
      then show False using l True by simp
    qed (use l that in \<open>auto simp: lower_char_def\<close>)
  qed
  moreover have "CHR ''/'' \<notin> set (itoa w)" using i by (simp add: plain_part_def)
  ultimately have "CHR ''/'' \<notin> set (to_lower (itoa w))" by (force simp: to_lower_def)
  moreover have "lower_char (CHR ''U'') = CHR ''u''" by code_simp
  ultimately show ?thesis by (simp add: plain_part_def to_lower_def)
qed

lemma example_local_ok: "local_service_ok example_fs_env example_local"
proof -
  have "clean_prefix ''/var/lib/koalja''" by code_simp
  moreover have "list_all plain_host [''node-1'', ''node-2'']" by code_simp
  ultimately show ?thesis
    using example_id by (simp add: local_service_ok_def example_fs_env_def example_local_def)
qed

lemma example_s3_ok: "s3_service_ok example_fs_env example_s3"
proof -
  have "list_all plain_bucket [example_bucket ''main'' True, example_bucket ''other'' False]" by code_simp
  then show ?thesis by (simp add: s3_service_ok_def example_fs_env_def example_s3_def)
qed

section \<open>Writing and reading\<close>

definition output_config :: ExecutorOutputBuilderConfig where
  "output_config = \<lparr>oc_OutputSpec = executor_output, oc_TaskSpec = executor_task, oc_Pipeline = ex_Pipeline example_executor,
     oc_OwnerRef = ''owner''\<rparr>"

definition example_input_config :: "string \<Rightarrow> ExecutorInputBuilderConfig" where
  "example_input_config uri = \<lparr>ic_InputSpec = executor_input, ic_TaskSpec = executor_task, ic_Pipeline = ex_Pipeline example_executor,
     ic_AnnotatedValue = value_at uri, ic_AnnotatedValueIndex = 0, ic_OwnerRef = ''owner''\<rparr>"

definition bare_pod :: exec_pod where
  "bare_pod = \<lparr>ep_Meta = ex_MyPod example_executor, ep_Containers = [], ep_Volumes = [], ep_NodeName = [],
     ep_RestartPolicy = ''Never'', ep_ServiceAccountName = ''sa''\<rparr>"

definition output_target_0 :: ExecutorOutputBuilderTarget where
  "output_target_0 = \<lparr>ot_Container = empty_container, ot_Pod = bare_pod, ot_NodeName = None, ot_TemplateData = [],
     ot_Resources = [], ot_OutputProcessor = None\<rparr>"

definition input_target_0 :: ExecutorInputBuilderTarget where
  "input_target_0 = \<lparr>it_Container = empty_container, it_Pod = bare_pod, it_NodeName = None, it_TemplateData = [], it_Resources = []\<rparr>"

text \<open>A task writes a file, and the next one gets its URI.\<close>

definition written :: "(nat, nat) exec_env \<Rightarrow> exec_error error_only \<times> ExecutorOutputBuilderTarget \<times> nat" where
  "written env = fileOutputBuilder_Build env output_config output_target_0 1"

definition written_uri :: "(nat, nat) exec_env \<Rightarrow> (string, string) go_result \<times> nat" where
  "written_uri env =
     xe_CreateFileURI env (output_uri_request (the (ot_OutputProcessor (fst (snd (written env))))) ''out/a file.csv'' False) 5"

definition read_back :: "(nat, nat) exec_env \<Rightarrow> exec_error error_only \<times> ExecutorInputBuilderTarget \<times> nat" where
  "read_back env = fileInputBuilder_Build env (example_input_config (projr (fst (written_uri env)))) input_target_0 7"

definition runs :: "(nat, nat) exec_env \<Rightarrow> bool" where
  "runs env \<longleftrightarrow> fst (written env) = None \<and> ot_OutputProcessor (fst (snd (written env))) \<noteq> None
     \<and> \<not> isl (fst (written_uri env)) \<and> fst (read_back env) = None"

definition on_local :: "(nat, nat) exec_env" where
  "on_local = with_local_fs example_fs_env example_local error_text example_env"

definition on_s3 :: "(nat, nat) exec_env" where
  "on_s3 = with_s3_fs fs_digest example_fs_env example_s3 error_text example_env"

lemma local_runs: "runs on_local"
  by code_simp

lemma s3_runs: "runs on_s3"
  by code_simp

lemma runs_facts:
  assumes "runs env"
  shows "fileOutputBuilder_Build env output_config output_target_0 1 = (None, fst (snd (written env)), snd (snd (written env)))"
    and "ot_OutputProcessor (fst (snd (written env))) = Some (the (ot_OutputProcessor (fst (snd (written env)))))"
    and "xe_CreateFileURI env (output_uri_request (the (ot_OutputProcessor (fst (snd (written env))))) ''out/a file.csv'' False) 5
      = (Inr (projr (fst (written_uri env))), snd (written_uri env))"
    and "fileInputBuilder_Build env (example_input_config (projr (fst (written_uri env)))) input_target_0 7
      = (None, fst (snd (read_back env)), snd (snd (read_back env)))"
  using assms
  by (simp_all add: runs_def written_def read_back_def prod_eq_iff)
     (cases "fst (written_uri env)"; simp add: written_uri_def written_def prod_eq_iff)+

lemma local_file_reaches_next_task_witness:
  "exchanged (fst (snd (written on_local))) ''/koalja/outputs/out'' (fst (snd (read_back on_local))) ''/koalja/inputs/in/0'' ''out/a file.csv''"
proof -
  note facts = runs_facts [OF local_runs]
  have "exchanged (fst (snd (written on_local))) (output_mount_path (tos_Name (oc_OutputSpec output_config)))
    (fst (snd (read_back on_local))) (input_mount_path (tis_Name (ic_InputSpec (example_input_config (projr (fst (written_uri on_local))))))
      (ic_AnnotatedValueIndex (example_input_config (projr (fst (written_uri on_local)))))) ''out/a file.csv''"
    unfolding on_local_def
    by (rule local_file_reaches_next_task [OF example_local_ok facts(1-3) [unfolded on_local_def] _ facts(4) [unfolded on_local_def]])
       (simp_all add: example_input_config_def value_at_def)
  moreover have "output_mount_path ''out'' = ''/koalja/outputs/out''" "input_mount_path ''in'' 0 = ''/koalja/inputs/in/0''"
    by code_simp+
  ultimately show ?thesis by (simp add: output_config_def example_input_config_def executor_output_def executor_input_def)
qed

lemma s3_file_reaches_next_task_witness:
  "exchanged (fst (snd (written on_s3))) ''/koalja/outputs/out'' (fst (snd (read_back on_s3))) ''/koalja/inputs/in/0'' ''out/a file.csv''"
proof -
  note facts = runs_facts [OF s3_runs]
  have "exchanged (fst (snd (written on_s3))) (output_mount_path (tos_Name (oc_OutputSpec output_config)))
    (fst (snd (read_back on_s3))) (input_mount_path (tis_Name (ic_InputSpec (example_input_config (projr (fst (written_uri on_s3))))))
      (ic_AnnotatedValueIndex (example_input_config (projr (fst (written_uri on_s3)))))) ''out/a file.csv''"
    unfolding on_s3_def
    by (rule s3_file_reaches_next_task [OF example_s3_ok facts(1-3) [unfolded on_s3_def] _ facts(4) [unfolded on_s3_def]])
       (simp_all add: example_input_config_def value_at_def)
  moreover have "output_mount_path ''out'' = ''/koalja/outputs/out''" "input_mount_path ''in'' 0 = ''/koalja/inputs/in/0''"
    by code_simp+
  ultimately show ?thesis by (simp add: output_config_def example_input_config_def executor_output_def executor_input_def)
qed

section \<open>Storage configuration\<close>

definition sort_buckets :: "(BucketConfig \<Rightarrow> BucketConfig \<Rightarrow> bool) \<Rightarrow> BucketConfig list \<Rightarrow> BucketConfig list" where
  "sort_buckets lt bs =
     filter bc_isDefault (sort_key bc_Name bs) @ filter (\<lambda>b. \<not> bc_isDefault b) (sort_key bc_Name bs)"

lemma sort_buckets_sorts: "sorts sort_buckets"
proof -
  have "sorted_wrt (\<lambda>a b. \<not> bc_Name b < bc_Name a) (sort_key bc_Name bs)" for bs
    using sorted_sort_key [of bc_Name bs] by (simp add: sorted_wrt_map not_less)
  then have "sorted_wrt (\<lambda>a b. \<not> bc_Name b < bc_Name a) (filter P (sort_key bc_Name bs))" for bs P
    by (rule sorted_wrt_filter)
  note names = this
  have "sorted_wrt (\<lambda>a b. \<not> bucket_less b a) (filter bc_isDefault (sort_key bc_Name bs))" for bs
    by (rule sorted_wrt_mono_rel [OF _ names]) (simp add: bucket_less_def)
  moreover have "sorted_wrt (\<lambda>a b. \<not> bucket_less b a) (filter (\<lambda>b. \<not> bc_isDefault b) (sort_key bc_Name bs))" for bs
    by (rule sorted_wrt_mono_rel [OF _ names]) (simp add: bucket_less_def)
  ultimately have "sorted_wrt (\<lambda>a b. \<not> bucket_less b a) (sort_buckets lt bs)" for lt bs
    by (auto simp: sort_buckets_def sorted_wrt_append bucket_less_def)
  moreover have "mset (sort_buckets lt bs) = mset bs" for lt bs by (simp add: sort_buckets_def)
  ultimately show ?thesis by (simp add: sorts_def)
qed

definition fs_yaml :: "string \<Rightarrow> (string, BucketConfig) go_result" where
  "fs_yaml v = Inr ((example_bucket v False)\<lparr>bc_Endpoint := ''https://s3.test''\<rparr>)"

definition example_secret :: "string \<Rightarrow> (api_error, s3_secret) go_result" where
  "example_secret n = Inr \<lparr>sec_Data = [(''access-key'', ''a''), (''secret-key'', ''s'')]\<rparr>"

definition example_loaded :: "(storage_error, BucketConfig list) go_result" where
  "example_loaded = newStorageConfigFromConfigMap sort_buckets fs_yaml example_secret [(''a'', ''logs''), (''default'', ''main'')]"

lemma example_loads: "\<not> isl example_loaded"
  by code_simp

lemma default_bucket_is_written_witness:
  "bucket_of_entry fs_yaml example_secret ''default'' ''main'' = Inr (hd (projr example_loaded))"
proof -
  have "newStorageConfigFromConfigMap sort_buckets fs_yaml example_secret [(''a'', ''logs''), (''default'', ''main'')]
      = Inr (projr example_loaded)"
    using example_loads by (cases example_loaded) (simp_all add: example_loaded_def)
  from default_bucket_is_written [OF sort_buckets_sorts this] show ?thesis by auto
qed

text \<open>An endpoint without a scheme.\<close>

definition bare_yaml :: "string \<Rightarrow> (string, BucketConfig) go_result" where
  "bare_yaml v = Inr ((example_bucket v False)\<lparr>bc_Endpoint := ''minio:9000''\<rparr>)"

definition bare_bucket :: BucketConfig where
  "bare_bucket = projr (bucket_of_entry bare_yaml example_secret ''default'' ''main'')"

definition bare_s3 :: s3FS where
  "bare_s3 = example_s3\<lparr>s3_Buckets := [bare_bucket]\<rparr>"

definition bare_response :: volume_response where
  "bare_response = empty_response\<lparr>vr_VolumeClaimName := PersistentVolumeName fs_digest ''fs'' bare_bucket, vr_SubPath := ''u1''\<rparr>"

lemma schemeless_endpoint_unreadable_witness:
  "bc_Endpoint bare_bucket = [] \<and> (\<exists>uri. s3_CreateFileURI fs_digest bare_s3 (uri_request ''file'' bare_response ''f'' False) = Inr uri
    \<and> s3_CreateVolumeForRead fs_digest example_fs_env bare_s3 uri ''ns'' 0
        = (Inl (FS_Message ''Bucket cannot be found for given endpoint & name''), 0))"
proof (rule schemeless_endpoint_unreadable)
  show "bare_yaml ''main'' = Inr ((example_bucket ''main'' False)\<lparr>bc_Endpoint := ''minio:9000''\<rparr>)" by (simp add: bare_yaml_def)
  have "valid_scheme ''minio''" and h: "plain_host ''minio:9000''" by code_simp+
  then have v: "\<exists>s r. valid_scheme s \<and> ''minio:9000'' = s @ CHR '':'' # r"
    by (intro exI [of _ "''minio''"] exI [of _ "''9000''"]) simp
  with h show "without_scheme (bc_Endpoint ((example_bucket ''main'' False)\<lparr>bc_Endpoint := ''minio:9000''\<rparr>))"
    unfolding without_scheme_def using v by auto
  show "plain_host (bc_Name ((example_bucket ''main'' False)\<lparr>bc_Endpoint := ''minio:9000''\<rparr>))" by code_simp
  have "\<not> isl (bucket_of_entry bare_yaml example_secret ''default'' ''main'')" by code_simp
  then show "bucket_of_entry bare_yaml example_secret ''default'' ''main'' = Inr bare_bucket" by (simp add: bare_bucket_def)
  show "bare_bucket \<in> set (s3_Buckets bare_s3)" by (simp add: bare_s3_def)
  have "bc_Name bare_bucket \<noteq> []" by code_simp
  then show "bc_Name b' \<noteq> [] \<and> (PersistentVolumeName fs_digest (s3_statefulSetName bare_s3) b'
      = PersistentVolumeName fs_digest (s3_statefulSetName bare_s3) bare_bucket \<longrightarrow> b' = bare_bucket)"
    if "b' \<in> set (s3_Buckets bare_s3)" for b'
    using that by (simp add: bare_s3_def)
  show "valid_scheme ''file''" by code_simp
  show "bare_response = empty_response\<lparr>vr_VolumeClaimName :=
      PersistentVolumeName fs_digest (s3_statefulSetName bare_s3) bare_bucket, vr_SubPath := ''u1''\<rparr>"
    by (simp add: bare_response_def bare_s3_def example_s3_def)
qed simp_all

section \<open>Views\<close>

definition local_response :: volume_response where
  "local_response = empty_response\<lparr>vr_VolumePath := ''/var/lib/koalja/u1'', vr_NodeName := ''node-1'', vr_DeleteAfterUse := True\<rparr>"

lemma local_response_wrote: "local_wrote example_local local_response"
  unfolding local_wrote_def
proof (intro conjI exI)
  show "clean_prefix (lc_LocalPathPrefix (lf_Config example_local))" by code_simp
  show "plain_host ''node-1''" "plain_part ''u1''" by code_simp+
  have "path_Join [lc_LocalPathPrefix (lf_Config example_local), ''u1''] = ''/var/lib/koalja/u1''" by code_simp
  then show "local_response = empty_response\<lparr>vr_VolumePath := path_Join [lc_LocalPathPrefix (lf_Config example_local), ''u1''],
      vr_NodeName := ''node-1'', vr_DeleteAfterUse := True\<rparr>"
    by (simp add: local_response_def)
qed

lemma view_reads_any_file_witness:
  "\<exists>uri. local_CreateFileURI example_fs_env (uri_request ''file'' local_response ''../../../../etc/passwd'' False) 0 = Inr uri
    \<and> fst (local_CreateFileView example_local Inr (\<lambda>c path preview. Inr (c, path)) uri False
        (RegisterNode 0 ''node-1'' ''10.0.0.1:6275'' [])) = Inr (''10.0.0.1:6275'', ''/etc/passwd'')"
proof -
  note w = local_response_wrote
  have v: "valid_scheme ''file''" by code_simp
  have p: "\<forall>q \<in> set [''etc'', ''passwd'']. plain_part q" "\<forall>q \<in> set [''var'', ''lib'', ''koalja'', ''u1'']. plain_part q"
    by (simp_all add: plain_part_def)
  obtain nodes' where "GetNodeClient Inr (vr_NodeName local_response) (RegisterNode 0 ''node-1'' ''10.0.0.1:6275'' [])
      = (Inr (Some ''10.0.0.1:6275''), nodes')"
    by (simp add: GetNodeClient_def RegisterNode_def local_response_def)
  from view_reads_any_file [OF w v p(1) _ p(2) _ this, of example_fs_env False 0 "\<lambda>c path preview. Inr (c, path)" False]
  show ?thesis by (auto simp: local_response_def eval_nat_numeral)
qed

end
