(* ===== verification/Server_Calls.thy ===== *)
theory Server_Calls
  imports Prelude "HOL-Library.Multiset"
begin

text \<open>
  Calls of a server that share a store.  A call is a sequence of atomic requests: it is either
  finished or about to make a request, which changes the store and yields the rest of the call.
  Calls are composed with \<open>prog_bind\<close>, run alone with \<open>run_prog\<close>, and interleaved by the step
  relation \<open>pool_trans\<close>, in which any number of calls is under way.  What every request of a call
  guarantees about the store (\<open>guar\<close>) carries over to all interleavings.
\<close>

section \<open>Calls\<close>

datatype ('s, 'r) prog = Return 'r | Request "'s \<Rightarrow> ('s, 'r) prog \<times> 's"

lemma prog_induct [case_names Return Request, induct type: prog]:
  fixes p :: "('s, 'r) prog"
  assumes "\<And>r. P (Return r)" and "\<And>f. (\<And>s. P (fst (f s))) \<Longrightarrow> P (Request f)"
  shows "P p"
proof (rule prog.induct [of P])
  fix f :: "'s \<Rightarrow> ('s, 'r) prog \<times> 's"
  assume ih: "\<And>x p. x \<in> range f \<Longrightarrow> p \<in> Basic_BNFs.fsts x \<Longrightarrow> P p"
  have "P (fst (f s))" for s by (rule ih [OF rangeI, of _ s]) (simp add: prod_set_defs)
  then show "P (Request f)" by (rule assms(2))
qed (rule assms(1))

primrec prog_bind :: "('s, 'a) prog \<Rightarrow> ('a \<Rightarrow> ('s, 'b) prog) \<Rightarrow> ('s, 'b) prog" where
  "prog_bind (Return r) k = k r"
| "prog_bind (Request f) k = Request (\<lambda>s. map_prod (\<lambda>p. prog_bind p k) id (f s))"

primrec run_prog :: "('s, 'r) prog \<Rightarrow> 's \<Rightarrow> 'r \<times> 's" where
  "run_prog (Return r) = Pair r"
| "run_prog (Request f) = (\<lambda>s. case map_prod run_prog id (f s) of (g, t) \<Rightarrow> g t)"

definition atomically :: "('s \<Rightarrow> 'a \<times> 's) \<Rightarrow> ('s, 'a) prog" where
  "atomically f = Request (\<lambda>s. map_prod Return id (f s))"

lemma run_atomically [simp]: "run_prog (atomically f) s = f s"
  by (cases "f s") (simp add: atomically_def)

lemma run_bind [simp]:
  "run_prog (prog_bind p k) s = (case run_prog p s of (r, t) \<Rightarrow> run_prog (k r) t)"
  by (induction p arbitrary: s) (simp_all add: case_prod_beta)

lemma bind_assoc: "prog_bind (prog_bind p k) h = prog_bind p (\<lambda>r. prog_bind (k r) h)"
  by (induction p) (simp_all add: fun_eq_iff prod_eq_iff)

section \<open>What a call guarantees\<close>

text \<open>
  \<open>guar A R Q p\<close>: made in a store that satisfies \<open>A\<close>, every request of the call \<open>p\<close> changes the
  store as \<open>R\<close> allows, and the answer of the call satisfies \<open>Q\<close>.
\<close>

primrec guar :: "('s \<Rightarrow> bool) \<Rightarrow> ('s \<Rightarrow> 's \<Rightarrow> bool) \<Rightarrow> ('r \<Rightarrow> bool) \<Rightarrow> ('s, 'r) prog \<Rightarrow> bool" where
  "guar A R Q (Return r) = Q r"
| "guar A R Q (Request f) =
     (\<forall>s. A s \<longrightarrow> (case map_prod (guar A R Q) id (f s) of (g, t) \<Rightarrow> R s t \<and> g))"

lemma guar_Request [simp]:
  "guar A R Q (Request f) \<longleftrightarrow> (\<forall>s. A s \<longrightarrow> R s (snd (f s)) \<and> guar A R Q (fst (f s)))"
  by (auto simp: case_prod_beta)

declare guar.simps(2) [simp del]

lemma guar_atomically:
  "guar A R Q (atomically f) \<longleftrightarrow> (\<forall>s. A s \<longrightarrow> R s (snd (f s)) \<and> Q (fst (f s)))"
  by (simp add: atomically_def case_prod_beta)

lemma guar_bind:
  assumes "guar A R P p" and "\<And>r. P r \<Longrightarrow> guar A R Q (k r)"
  shows "guar A R Q (prog_bind p k)"
  using assms(1)
  by (induction p) (simp_all add: assms(2) case_prod_beta)

lemma guar_mono:
  assumes "guar A R P p" and "\<And>r. P r \<Longrightarrow> Q r"
  shows "guar A R Q p"
  using assms(1) by (induction p) (simp_all add: assms(2) case_prod_beta)


lemma guar_run:
  assumes "guar A R Q p" and "\<And>s t. A s \<Longrightarrow> R s t \<Longrightarrow> A t" and "A s"
  shows "R\<^sup>*\<^sup>* s (snd (run_prog p s)) \<and> A (snd (run_prog p s)) \<and> Q (fst (run_prog p s))"
  using assms(1,3)
proof (induction p arbitrary: s)
  case (Request f)
  then have "R s (snd (f s))" and "guar A R Q (fst (f s))" by (simp_all add: guar_Request)
  moreover from this have "A (snd (f s))" using assms(2) Request.prems(2) by blast
  ultimately show ?case using Request.IH [of s "snd (f s)"]
    by (simp add: case_prod_beta converse_rtranclp_into_rtranclp)
qed simp

section \<open>Interleaved calls\<close>

text \<open>
  A pool is the store with the calls under way.  A step starts one of the calls the server serves,
  makes the next request of a call under way, or takes the answer of a finished call out.
\<close>

type_synonym ('s, 'r) pool = "'s \<times> ('s, 'r) prog multiset"

datatype 'r pool_event = Started | Requested | Answered 'r

inductive pool_trans ::
  "('s, 'r) prog set \<Rightarrow> ('s, 'r) pool \<Rightarrow> 'r pool_event \<Rightarrow> ('s, 'r) pool \<Rightarrow> bool" for calls where
  start: "p \<in> calls \<Longrightarrow> pool_trans calls (s, ps) Started (s, add_mset p ps)"
| request: "Request f \<in># ps \<Longrightarrow>
     pool_trans calls (s, ps) Requested (snd (f s), add_mset (fst (f s)) (ps - {#Request f#}))"
| answer: "Return r \<in># ps \<Longrightarrow> pool_trans calls (s, ps) (Answered r) (s, ps - {#Return r#})"

inductive_cases pool_transE: "pool_trans calls (s, ps) e c"

text \<open>
  A server whose calls guarantee \<open>R\<close> in every store that satisfies \<open>A\<close>, where \<open>R\<close> keeps \<open>A\<close>.
\<close>

locale server =
  fixes calls :: "('s, 'r) prog set" and A :: "'s \<Rightarrow> bool" and R :: "'s \<Rightarrow> 's \<Rightarrow> bool"
    and Q :: "'r \<Rightarrow> bool"
  assumes calls_guar: "p \<in> calls \<Longrightarrow> guar A R Q p"
    and keeps: "A s \<Longrightarrow> R s t \<Longrightarrow> A t"
begin

definition safe_pool :: "('s, 'r) pool \<Rightarrow> bool" where
  "safe_pool c \<longleftrightarrow> A (fst c) \<and> (\<forall>p. p \<in># snd c \<longrightarrow> guar A R Q p)"

lemma safe_step:
  assumes "pool_trans calls c e d" and "safe_pool c"
  shows "safe_pool d \<and> R\<^sup>*\<^sup>* (fst c) (fst d) \<and> (\<forall>r. e = Answered r \<longrightarrow> Q r)"
  using assms
proof (cases rule: pool_trans.cases)
  case (start p s ps)
  with assms(2) show ?thesis by (auto simp: safe_pool_def calls_guar)
next
  case (request f ps s)
  with assms(2) have "guar A R Q (Request f)" and "A s" by (auto simp: safe_pool_def)
  then have "R s (snd (f s))" "guar A R Q (fst (f s))" by (simp_all add: guar_Request)
  with request assms(2) keeps show ?thesis
    by (auto simp: safe_pool_def dest: in_diffD)
next
  case (answer r ps s)
  with assms(2) show ?thesis by (auto simp: safe_pool_def dest: in_diffD)
qed

lemma safe_reach:
  assumes "reach init (pool_trans calls) c" and "\<And>c. init c \<Longrightarrow> safe_pool c"
  shows "safe_pool c"
  using assms by (induction rule: reach.induct) (auto dest: safe_step)

lemma safe_later:
  assumes "reach (\<lambda>d. d = c) (pool_trans calls) d" and "safe_pool c"
  shows "safe_pool d \<and> R\<^sup>*\<^sup>* (fst c) (fst d)"
  using assms by (induction rule: reach.induct) (auto dest: safe_step intro: rtranclp_trans)

end

end
