(* ===== verification/Arango.thy ===== *)
theory Arango
  imports Server_Calls
begin

text \<open>
  The document store behind the database implementations of the link and the registry: the error
  tests of the Go driver (\<open>vendor/github.com/arangodb/go-driver/error.go\<close>), the translation of
  errors to gRPC codes (\<open>arangodb/errors.go\<close>), and a collection of documents with the requests the
  code makes of it.  A document is created under the next key of the collection, an auto-increment
  number.  Every request is atomic; what becomes of it is an argument (\<open>db_outcome\<close>): it works, it
  is refused, or it is carried out and the answer is lost.  A query goes through the documents in an
  unspecified order, given by a rank of the keys.
\<close>

section \<open>Errors\<close>

datatype db_error =
    ArangoError (ae_Code: int) (ae_ErrorNum: int)
  | ClientError
  | WithStack db_error

text \<open>
  \<open>Cause\<close> is a variable of the driver that its users may set; the program leaves it at its default,
  so the driver does not look inside an error that \<open>errors.WithStack\<close> has wrapped.
\<close>

definition driver_Cause :: "db_error \<Rightarrow> db_error" where
  "driver_Cause err = err"

definition IsArangoErrorWithCode :: "db_error \<Rightarrow> int \<Rightarrow> bool" where
  "IsArangoErrorWithCode err code =
     (case driver_Cause err of ArangoError c n \<Rightarrow> c = code | _ \<Rightarrow> False)"

definition IsArangoErrorWithErrorNum :: "db_error \<Rightarrow> int list \<Rightarrow> bool" where
  "IsArangoErrorWithErrorNum err nums =
     (case driver_Cause err of ArangoError c n \<Rightarrow> n \<in> set nums | _ \<Rightarrow> False)"

definition driver_IsUnauthorized :: "db_error \<Rightarrow> bool" where
  "driver_IsUnauthorized err = IsArangoErrorWithCode err 401"

definition driver_IsNotFound :: "db_error \<Rightarrow> bool" where
  "driver_IsNotFound err \<longleftrightarrow>
     IsArangoErrorWithCode err 404 \<or> IsArangoErrorWithErrorNum err [1202, 1203]"

definition driver_IsConflict :: "db_error \<Rightarrow> bool" where
  "driver_IsConflict err \<longleftrightarrow> IsArangoErrorWithCode err 409 \<or> IsArangoErrorWithErrorNum err [1702]"

definition driver_IsPreconditionFailed :: "db_error \<Rightarrow> bool" where
  "driver_IsPreconditionFailed err \<longleftrightarrow>
     IsArangoErrorWithCode err 412 \<or> IsArangoErrorWithErrorNum err [1200, 1210]"

datatype grpc_code =
    Code_NotFound | Code_AlreadyExists | Code_FailedPrecondition | Code_Unauthenticated
  | Code_Unknown | Code_InvalidArgument

definition arangoErrorToGRPC :: "db_error \<Rightarrow> grpc_code" where
  "arangoErrorToGRPC err =
     (if driver_IsNotFound err then Code_NotFound
      else if driver_IsConflict err then Code_AlreadyExists
      else if driver_IsPreconditionFailed err then Code_FailedPrecondition
      else if driver_IsUnauthorized err then Code_Unauthenticated
      else Code_Unknown)"

lemmas driver_tests =
  driver_Cause_def IsArangoErrorWithCode_def IsArangoErrorWithErrorNum_def driver_IsNotFound_def
  driver_IsConflict_def driver_IsPreconditionFailed_def driver_IsUnauthorized_def

lemma wrapped_not_found [simp]: "\<not> driver_IsNotFound (WithStack err)"
  by (simp add: driver_tests)

lemma wrapped_unknown [simp]: "arangoErrorToGRPC (WithStack err) = Code_Unknown"
  by (simp add: arangoErrorToGRPC_def driver_tests)

section \<open>Collections\<close>

record 'a collection =
  col_docs :: "(int, 'a) gomap"
  col_last :: int

definition empty_collection :: "'a collection" where
  "empty_collection = \<lparr>col_docs = [], col_last = 0\<rparr>"

text \<open>\<open>clash new old\<close> says that a unique index keeps \<open>new\<close> out while \<open>old\<close> is in the collection.\<close>

definition CreateDocument ::
  "('a \<Rightarrow> 'a \<Rightarrow> bool) \<Rightarrow> 'a \<Rightarrow> 'a collection \<Rightarrow> (db_error, int) go_result \<times> 'a collection" where
  "CreateDocument clash doc c =
     (if list_ex (\<lambda>(k, d). clash doc d) (col_docs c) then (Inl (ArangoError 409 1210), c)
      else let k = col_last c + 1 in
        (Inr k, \<lparr>col_docs = col_docs c @ [(k, doc)], col_last = k\<rparr>))"

definition ReadDocument :: "int \<Rightarrow> 'a collection \<Rightarrow> (db_error, 'a) go_result \<times> 'a collection" where
  "ReadDocument k c =
     (case map_of (col_docs c) k of
        Some doc \<Rightarrow> (Inr doc, c)
      | None \<Rightarrow> (Inl (ArangoError 404 1202), c))"

definition UpdateDocument ::
  "int \<Rightarrow> ('a \<Rightarrow> 'a) \<Rightarrow> 'a collection \<Rightarrow> (db_error, unit) go_result \<times> 'a collection" where
  "UpdateDocument k f c =
     (case map_of (col_docs c) k of
        Some doc \<Rightarrow> (Inr (), c\<lparr>col_docs := AList.update k (f doc) (col_docs c)\<rparr>)
      | None \<Rightarrow> (Inl (ArangoError 404 1202), c))"

definition RemoveDocument :: "int \<Rightarrow> 'a collection \<Rightarrow> (db_error, unit) go_result \<times> 'a collection" where
  "RemoveDocument k c =
     (case map_of (col_docs c) k of
        Some doc \<Rightarrow> (Inr (), c\<lparr>col_docs := AList.delete k (col_docs c)\<rparr>)
      | None \<Rightarrow> (Inl (ArangoError 404 1202), c))"

text \<open>\<open>FOR doc IN col FILTER p RETURN doc\<close>, and the same with \<open>UPDATE\<close> and \<open>RETURN NEW\<close>.\<close>

definition scan :: "(int \<Rightarrow> int) \<Rightarrow> ('a \<Rightarrow> bool) \<Rightarrow> 'a collection \<Rightarrow> (int \<times> 'a) list" where
  "scan rank p c = sort_key (\<lambda>(k, d). rank k) (filter (\<lambda>(k, d). p d) (col_docs c))"

definition update_where :: "('a \<Rightarrow> bool) \<Rightarrow> ('a \<Rightarrow> 'a) \<Rightarrow> 'a collection \<Rightarrow> 'a collection" where
  "update_where p f c = c\<lparr>col_docs := map (\<lambda>(k, d). (k, if p d then f d else d)) (col_docs c)\<rparr>"

definition scan_updated ::
  "(int \<Rightarrow> int) \<Rightarrow> ('a \<Rightarrow> bool) \<Rightarrow> ('a \<Rightarrow> 'a) \<Rightarrow> 'a collection \<Rightarrow> (int \<times> 'a) list" where
  "scan_updated rank p f c = map (\<lambda>(k, d). (k, f d)) (scan rank p c)"

section \<open>Requests\<close>

datatype db_outcome = Works | Refused db_error | ReplyLost db_error

definition request_db ::
  "db_outcome \<Rightarrow> ('d \<Rightarrow> (db_error, 'a) go_result \<times> 'd) \<Rightarrow> 'd \<Rightarrow> (db_error, 'a) go_result \<times> 'd" where
  "request_db out f d =
     (case out of Works \<Rightarrow> f d | Refused e \<Rightarrow> (Inl e, d) | ReplyLost e \<Rightarrow> (Inl e, snd (f d)))"

text \<open>\<open>maskAny\<close>, i.e. \<open>errors.WithStack\<close>, on the error of a result.\<close>

definition mask_result :: "(db_error, 'a) go_result \<Rightarrow> (db_error, 'a) go_result" where
  "mask_result r = (case r of Inl e \<Rightarrow> Inl (WithStack e) | Inr x \<Rightarrow> Inr x)"

lemma mask_result_simps [simp]:
  "mask_result (Inl e) = Inl (WithStack e)" "mask_result (Inr x) = Inr x"
  by (simp_all add: mask_result_def)

lemma mask_result_Inr [simp]: "mask_result r = Inr x \<longleftrightarrow> r = Inr x"
  by (cases r) simp_all

lemma mask_result_Inl [simp]: "mask_result r = Inl e \<longleftrightarrow> (\<exists>c. r = Inl c \<and> e = WithStack c)"
  by (cases r) auto

lemma snd_request_db: "snd (request_db out f d) = d \<or> snd (request_db out f d) = snd (f d)"
  by (cases out) (simp_all add: request_db_def)

lemma request_db_InrD: "fst (request_db out f d) = Inr x \<Longrightarrow> out = Works \<and> fst (f d) = Inr x"
  by (cases out) (simp_all add: request_db_def)

lemma request_db_Works [simp]: "request_db Works f d = f d"
  by (simp add: request_db_def)

section \<open>Well-formed collections\<close>

definition col_wf :: "'a collection \<Rightarrow> bool" where
  "col_wf c \<longleftrightarrow> gomap_ok (col_docs c) \<and> 0 \<le> col_last c
     \<and> (\<forall>k d. map_of (col_docs c) k = Some d \<longrightarrow> 0 < k \<and> k \<le> col_last c)"

lemma col_wfD:
  "col_wf c \<Longrightarrow> map_of (col_docs c) k = Some d \<Longrightarrow> 0 < k \<and> k \<le> col_last c"
  "col_wf c \<Longrightarrow> gomap_ok (col_docs c)"
  by (auto simp: col_wf_def)

lemma col_wf_fresh: "col_wf c \<Longrightarrow> col_last c < k \<Longrightarrow> map_of (col_docs c) k = None"
  by (cases "map_of (col_docs c) k") (auto dest: col_wfD)

lemma col_wf_new:
  assumes "col_wf c"
  shows "col_wf \<lparr>col_docs = col_docs c @ [(col_last c + 1, doc)], col_last = col_last c + 1\<rparr>"
proof -
  have "map_of (col_docs c) (col_last c + 1) = None" by (rule col_wf_fresh [OF assms]) simp
  then have "col_last c + 1 \<notin> fst ` set (col_docs c)" by (simp add: map_of_eq_None_iff)
  with assms show ?thesis
    by (auto simp: col_wf_def gomap_ok_def map_add_def split: option.splits if_splits)
       (fastforce dest: col_wfD)+
qed

lemma col_wf_update: "col_wf c \<Longrightarrow> map_of (col_docs c) k = Some d \<Longrightarrow>
    col_wf (c\<lparr>col_docs := AList.update k e (col_docs c)\<rparr>)"
  by (auto simp: col_wf_def update_conv' split: if_splits)

lemma col_wf_delete: "col_wf c \<Longrightarrow> col_wf (c\<lparr>col_docs := AList.delete k (col_docs c)\<rparr>)"
  by (auto simp: col_wf_def delete_conv' split: if_splits)

lemma map_of_mapped:
  "map_of (map (\<lambda>(k, d). (k, g d)) m) k = map_option g (map_of m k)"
  by (induction m) auto

lemma docs_update_where:
  "map_of (col_docs (update_where p f c)) k =
     map_option (\<lambda>d. if p d then f d else d) (map_of (col_docs c) k)"
  unfolding update_where_def by (simp add: map_of_mapped [where g = "\<lambda>d. if p d then f d else d"])

lemma col_wf_update_where: "col_wf c \<Longrightarrow> col_wf (update_where p f c)"
proof -
  assume wf: "col_wf c"
  have "map fst (col_docs (update_where p f c)) = map fst (col_docs c)"
    by (induction "col_docs c") (auto simp: update_where_def)
  with wf show ?thesis
    by (auto simp: col_wf_def gomap_ok_def docs_update_where simp del: map_map)
       (auto simp: update_where_def)
qed

lemma set_scan [simp]: "set (scan rank p c) = {(k, d). (k, d) \<in> set (col_docs c) \<and> p d}"
  by (auto simp: scan_def)

lemma scan_in:
  "col_wf c \<Longrightarrow> (k, d) \<in> set (scan rank p c) \<longleftrightarrow> map_of (col_docs c) k = Some d \<and> p d"
  by (auto simp: map_of_eq_Some_iff col_wf_def gomap_ok_def)

lemma empty_collection_wf [simp]: "col_wf empty_collection"
  by (simp add: col_wf_def empty_collection_def)

section \<open>What the requests do\<close>

lemma col_last_request [simp]:
  "col_last (snd (UpdateDocument i f c)) = col_last c"
  "col_last (snd (RemoveDocument i c)) = col_last c"
  "col_last (update_where p f c) = col_last c"
  by (auto simp: UpdateDocument_def RemoveDocument_def update_where_def split: option.splits)

lemma col_last_create: "col_last c \<le> col_last (snd (CreateDocument clash doc c))"
  by (simp add: CreateDocument_def Let_def)

lemma docs_update:
  "map_of (col_docs (snd (UpdateDocument i f c))) k =
     (if k = i then map_option f (map_of (col_docs c) i) else map_of (col_docs c) k)"
  by (auto simp: UpdateDocument_def update_conv' split: option.splits)

lemma docs_remove:
  "map_of (col_docs (snd (RemoveDocument i c))) k =
     (if k = i then None else map_of (col_docs c) k)"
  by (auto simp: RemoveDocument_def delete_conv' split: option.splits)

lemma docs_create:
  assumes "col_wf c"
  shows "map_of (col_docs (snd (CreateDocument clash doc c))) k =
    (if k = col_last c + 1 \<and> \<not> list_ex (\<lambda>(k, d). clash doc d) (col_docs c) then Some doc
     else map_of (col_docs c) k)"
  using col_wf_fresh [OF assms, of "col_last c + 1"]
  by (auto simp: CreateDocument_def Let_def map_add_def split: option.splits)

lemma create_keeps:
  "col_wf c \<Longrightarrow> map_of (col_docs c) k = Some d \<Longrightarrow>
     map_of (col_docs (snd (CreateDocument clash doc c))) k = Some d"
  using col_wfD(1) [of c k d] by (auto simp: docs_create)

lemma create_absent:
  "col_wf c \<Longrightarrow> map_of (col_docs c) k = None \<Longrightarrow> k \<le> col_last c \<Longrightarrow>
     map_of (col_docs (snd (CreateDocument clash doc c))) k = None"
  by (auto simp: docs_create)

lemma wf_request:
  "col_wf c \<Longrightarrow> col_wf (snd (CreateDocument clash doc c))"
  "col_wf c \<Longrightarrow> col_wf (snd (UpdateDocument i f c))"
  "col_wf c \<Longrightarrow> col_wf (snd (RemoveDocument i c))"
  "col_wf c \<Longrightarrow> col_wf (update_where p f c)"
  by (auto simp: CreateDocument_def Let_def col_wf_new UpdateDocument_def col_wf_update
      RemoveDocument_def col_wf_delete col_wf_update_where split: option.splits)

end
