(* ===== verification/Go_Duration.thy ===== *)
theory Go_Duration
  imports Prelude
begin

text \<open>
  Durations on the wire (\<open>vendor/github.com/gogo/protobuf/types/duration.go\<close>): a pair of seconds
  and nanoseconds, and the \<open>time.Duration\<close>, a 64-bit number of nanoseconds, that the calls of the
  link and the registry make of it.
\<close>

section \<open>64-bit numbers\<close>

definition int64 :: "int \<Rightarrow> int" where
  "int64 x = (x + 2 ^ 63) mod 2 ^ 64 - 2 ^ 63"

text \<open>The whole seconds in a number of nanoseconds: \<open>/\<close> of Go rounds towards zero.\<close>

definition whole_seconds :: "int \<Rightarrow> int" where
  "whole_seconds d = (if d < 0 then - (- d div 1000000000) else d div 1000000000)"

lemma int64_range: "- (2 ^ 63) \<le> int64 x \<and> int64 x < 2 ^ 63"
  unfolding int64_def by (simp add: pos_mod_bound pos_mod_sign)

lemma int64_id: "- (2 ^ 63) \<le> x \<Longrightarrow> x < 2 ^ 63 \<Longrightarrow> int64 x = x"
  unfolding int64_def by (simp add: mod_pos_pos_trivial)

lemma int64_above: "2 ^ 63 \<le> x \<Longrightarrow> x < 2 ^ 64 \<Longrightarrow> int64 x = x - 2 ^ 64"
  unfolding int64_def by (subst mod_pos_geq) (auto simp: mod_pos_pos_trivial)

lemma int64_below: "- (2 ^ 64) \<le> x \<Longrightarrow> x < - (2 ^ 63) \<Longrightarrow> int64 x = x + 2 ^ 64"
proof -
  assume x: "- (2 ^ 64) \<le> x" "x < - (2 ^ 63)"
  have "(x + 2 ^ 63) mod 2 ^ 64 = (x + 2 ^ 63 + 2 ^ 64) mod 2 ^ 64"
    by (rule mod_add_self2 [symmetric])
  also have "\<dots> = x + 2 ^ 63 + 2 ^ 64" using x by (intro mod_pos_pos_trivial) auto
  finally show ?thesis by (simp add: int64_def)
qed

lemma whole_seconds_bound:
  assumes "\<bar>d\<bar> \<le> c"
  shows "\<bar>whole_seconds d\<bar> \<le> c div 1000000000"
proof -
  have "\<bar>whole_seconds d\<bar> = \<bar>d\<bar> div 1000000000" by (simp add: whole_seconds_def)
  then show ?thesis using zdiv_mono1 [OF assms, of 1000000000] by simp
qed

lemma whole_seconds_mult: "whole_seconds (s * 1000000000) = s"
proof -
  have "- (s * 1000000000) div 1000000000 = - s"
    using nonzero_mult_div_cancel_right [of 1000000000 "- s"] by simp
  then show ?thesis by (simp add: whole_seconds_def)
qed

section \<open>Durations\<close>

record Duration =
  du_Seconds :: int
  du_Nanos :: int

definition duration_maxSeconds :: int where "duration_maxSeconds = 315576000000"

definition validateDuration :: "Duration option \<Rightarrow> bool" where
  "validateDuration d = (case d of
     None \<Rightarrow> False
   | Some d \<Rightarrow>
       if du_Seconds d < - duration_maxSeconds \<or> duration_maxSeconds < du_Seconds d then False
       else if du_Nanos d \<le> - 1000000000 \<or> 1000000000 \<le> du_Nanos d then False
       else if du_Seconds d < 0 \<and> 0 < du_Nanos d \<or> 0 < du_Seconds d \<and> du_Nanos d < 0 then False
       else True)"

definition DurationFromProto :: "Duration option \<Rightarrow> int option" where
  "DurationFromProto p = (case p of
     None \<Rightarrow> None
   | Some p \<Rightarrow>
       if \<not> validateDuration (Some p) then None
       else let d = int64 (du_Seconds p * 1000000000) in
         if whole_seconds d \<noteq> du_Seconds p then None
         else if du_Nanos p \<noteq> 0 then
           let d = int64 (d + du_Nanos p) in
           if (d < 0) \<noteq> (du_Nanos p < 0) then None else Some d
         else Some d)"

definition DurationProto :: "int \<Rightarrow> Duration" where
  "DurationProto d =
     (let secs = whole_seconds d in \<lparr>du_Seconds = secs, du_Nanos = d - secs * 1000000000\<rparr>)"

lemma seconds_fit:
  assumes "whole_seconds (int64 (s * 1000000000)) = s"
  shows "- (2 ^ 63) \<le> s * 1000000000 \<and> s * 1000000000 < 2 ^ 63"
proof -
  have "\<bar>int64 (s * 1000000000)\<bar> \<le> 2 ^ 63" using int64_range [of "s * 1000000000"] by auto
  then have "\<bar>s\<bar> \<le> 2 ^ 63 div 1000000000" using whole_seconds_bound assms by fastforce
  then show ?thesis by (simp add: abs_le_iff)
qed

lemma seconds_kept:
  assumes "- (2 ^ 63) \<le> s * 1000000000" and "s * 1000000000 < 2 ^ 63"
  shows "int64 (s * 1000000000) = s * 1000000000 \<and> whole_seconds (int64 (s * 1000000000)) = s"
  using assms by (simp add: int64_id whole_seconds_mult)

text \<open>The overflow tests are exact: a duration is refused when, and only when, it is invalid or its
  number of nanoseconds does not fit into 64 bits.\<close>

lemma DurationFromProto_exact:
  "DurationFromProto (Some p) = Some d \<longleftrightarrow>
     validateDuration (Some p) \<and> d = du_Seconds p * 1000000000 + du_Nanos p
     \<and> - (2 ^ 63) \<le> d \<and> d < 2 ^ 63"
proof (cases "validateDuration (Some p) \<and> whole_seconds (int64 (du_Seconds p * 1000000000)) = du_Seconds p")
  case False
  then show ?thesis
    using seconds_kept [of "du_Seconds p"]
    by (auto simp: DurationFromProto_def validateDuration_def Let_def split: if_splits)
next
  case True
  define s n where "s = du_Seconds p * 1000000000" and "n = du_Nanos p"
  have s: "- (2 ^ 63) \<le> s" "s < 2 ^ 63" "int64 s = s"
    using seconds_fit [of "du_Seconds p"] True seconds_kept [of "du_Seconds p"] by (auto simp: s_def)
  have n: "-1000000000 < n" "n < 1000000000" "s < 0 \<Longrightarrow> n \<le> 0" "0 < s \<Longrightarrow> 0 \<le> n"
    using True by (auto simp: validateDuration_def n_def s_def split: if_splits)
  have "(int64 (s + n) < 0) = (n < 0) \<longleftrightarrow> - (2 ^ 63) \<le> s + n \<and> s + n < 2 ^ 63" if "n \<noteq> 0"
  proof (cases "- (2 ^ 63) \<le> s + n \<and> s + n < 2 ^ 63")
    case True
    then have "int64 (s + n) = s + n" by (simp add: int64_id)
    with True that n show ?thesis by (cases "s < 0"; cases "0 < s") auto
  next
    case False
    then have "(int64 (s + n) < 0) \<noteq> (n < 0)"
      using int64_above [of "s + n"] int64_below [of "s + n"] s n by (cases "n < 0") auto
    with False show ?thesis by simp
  qed
  moreover have "int64 (s + n) = s + n" if "- (2 ^ 63) \<le> s + n" "s + n < 2 ^ 63"
    using that by (rule int64_id)
  ultimately show ?thesis using True s int64_range [of "s + n"]
    by (auto simp: DurationFromProto_def Let_def simp flip: s_def n_def)
qed

end
