(* ===== verification/Link_DB.thy ===== *)
theory Link_DB
  imports Arango Annotated_Value Statistics Go_Duration
begin

text \<open>
  The database implementation of a link (\<open>pkg/agent/link/arangodb\<close>): the link agents of a pipeline
  share a collection of queued values and a collection of subscriptions.  Documents of the
  collections (\<open>db_documents.go\<close>), the publisher (\<open>db_publisher.go\<close>) and the source
  (\<open>db_source.go\<close>) with its garbage collection of subscriptions.  Every call is a sequence of
  requests (\<open>Server_Calls\<close>), so any number of calls of any number of agents can be interleaved.
  Times are nanoseconds.
\<close>

section \<open>State\<close>

text \<open>The ID of a document is its key in the collection, an auto-increment number.\<close>

record avDocument =
  avd_LinkName :: string
  avd_SubscriptionID :: int
  avd_Value :: AnnotatedValue

record db_subscription =
  dsub_ClientID :: string
  dsub_LinkName :: string
  dsub_ExpiresAt :: int

type_synonym db_handle = "int \<times> db_subscription"

record link_db =
  db_queueCol :: "avDocument collection"
  db_subscrCol :: "db_subscription collection"

text \<open>\<open>dw_stats\<close> gives the statistics of the agent of each link.\<close>

record 'w db_world =
  dw_db :: link_db
  dw_stats :: "string \<Rightarrow> LinkStatistics"
  dw_registry :: 'w

record db_link =
  dl_linkName :: string
  dl_uri :: string

definition db_subscriptionTTL :: int where "db_subscriptionTTL = 60 * 1000000000"
definition db_maxAnnotatedValuesWaiting :: int where "db_maxAnnotatedValuesWaiting = 10"
definition nextRetryPeriod :: int where "nextRetryPeriod = 100 * 1000000"

datatype db_link_error = Status grpc_code | RecordFailed | ContextDone

text \<open>
  What a call meets: the outcome of its n-th request, its n-th reading of the clock, whether its
  n-th \<open>select\<close> finds the context cancelled, and the order in which its n-th query goes through
  the documents.
\<close>

record call_env =
  ce_db :: "nat \<Rightarrow> db_outcome"
  ce_clock :: "nat \<Rightarrow> int"
  ce_done :: "nat \<Rightarrow> bool"
  ce_rank :: "nat \<Rightarrow> int \<Rightarrow> int"

section \<open>Requests\<close>

definition on_queue ::
  "(avDocument collection \<Rightarrow> 'a \<times> avDocument collection) \<Rightarrow> link_db \<Rightarrow> 'a \<times> link_db" where
  "on_queue f d = (case f (db_queueCol d) of (r, q) \<Rightarrow> (r, d\<lparr>db_queueCol := q\<rparr>))"

definition on_subscr ::
  "(db_subscription collection \<Rightarrow> 'a \<times> db_subscription collection) \<Rightarrow> link_db \<Rightarrow> 'a \<times> link_db" where
  "on_subscr f d = (case f (db_subscrCol d) of (r, c) \<Rightarrow> (r, d\<lparr>db_subscrCol := c\<rparr>))"

definition db_request ::
  "db_outcome \<Rightarrow> (link_db \<Rightarrow> (db_error, 'a) go_result \<times> link_db)
    \<Rightarrow> ('w db_world, (db_error, 'a) go_result) prog" where
  "db_request out f =
     atomically (\<lambda>s. case request_db out f (dw_db s) of (r, d) \<Rightarrow> (r, s\<lparr>dw_db := d\<rparr>))"

definition masked :: "('s, (db_error, 'a) go_result) prog \<Rightarrow> ('s, (db_error, 'a) go_result) prog" where
  "masked p = prog_bind p (\<lambda>r. Return (mask_result r))"

text \<open>\<open>if err != nil { return h(err) }\<close> after a request.\<close>

definition or_fail ::
  "('s, 'e + 'a) prog \<Rightarrow> ('e \<Rightarrow> 'b) \<Rightarrow> ('a \<Rightarrow> ('s, 'b) prog) \<Rightarrow> ('s, 'b) prog" where
  "or_fail p h k = prog_bind p (\<lambda>r. case r of Inl e \<Rightarrow> Return (h e) | Inr x \<Rightarrow> k x)"

definition update_stats :: "string \<Rightarrow> (LinkStatistics \<Rightarrow> LinkStatistics) \<Rightarrow> ('w db_world, unit) prog" where
  "update_stats l f = atomically (\<lambda>s. ((), s\<lparr>dw_stats := (dw_stats s)(l := f (dw_stats s l))\<rparr>))"

section \<open>Documents\<close>

text \<open>The unique index on \<open>client_id\<close>.\<close>

definition same_client :: "db_subscription \<Rightarrow> db_subscription \<Rightarrow> bool" where
  "same_client a b \<longleftrightarrow> dsub_ClientID a = dsub_ClientID b"

definition avDocument_Remove ::
  "db_outcome \<Rightarrow> int \<Rightarrow> ('w db_world, (db_error, unit) go_result) prog" where
  "avDocument_Remove out k = masked (db_request out (on_queue (RemoveDocument k)))"

definition db_IsExpired :: "int \<Rightarrow> db_subscription \<Rightarrow> bool" where
  "db_IsExpired now sub \<longleftrightarrow> dsub_ExpiresAt sub < now"

definition getSubscriptionByID ::
  "db_outcome \<Rightarrow> int \<Rightarrow> ('w db_world, (db_error, db_handle) go_result) prog" where
  "getSubscriptionByID out i =
     masked (db_request out (on_subscr (\<lambda>c. case ReadDocument i c of
       (Inl e, c') \<Rightarrow> (Inl e, c') | (Inr sub, c') \<Rightarrow> (Inr (i, sub), c'))))"

definition findSubscriptionByClientID ::
  "db_outcome \<Rightarrow> (int \<Rightarrow> int) \<Rightarrow> string
    \<Rightarrow> ('w db_world, (db_error, db_handle option) go_result) prog" where
  "findSubscriptionByClientID out rank client =
     masked (db_request out (on_subscr (\<lambda>c.
       (Inr (case scan rank (\<lambda>sub. dsub_ClientID sub = client) c of
          [] \<Rightarrow> None | h # hs \<Rightarrow> Some h), c))))"

definition getExpiredSubscriptions ::
  "db_outcome \<Rightarrow> (int \<Rightarrow> int) \<Rightarrow> (nat \<Rightarrow> int) \<Rightarrow> string
    \<Rightarrow> ('w db_world, (db_error, db_handle list) go_result) prog" where
  "getExpiredSubscriptions out rank clock link =
     masked (db_request out (on_subscr (\<lambda>c.
       (Inr (map snd (filter (\<lambda>(n, k, sub). db_IsExpired (clock n) sub)
          (enumerate 0 (scan rank (\<lambda>sub. dsub_LinkName sub = link) c)))), c))))"

definition RenewExpiresAt_db ::
  "db_outcome \<Rightarrow> int \<Rightarrow> db_handle \<Rightarrow> ('w db_world, (db_error, unit) go_result) prog" where
  "RenewExpiresAt_db out now h =
     masked (db_request out (on_subscr
       (UpdateDocument (fst h) (dsub_ExpiresAt_update (\<lambda>_. now + db_subscriptionTTL)))))"

definition UnassignQueueValues ::
  "db_outcome \<Rightarrow> db_handle \<Rightarrow> ('w db_world, (db_error, unit) go_result) prog" where
  "UnassignQueueValues out h =
     masked (db_request out (on_queue (\<lambda>q.
       (Inr (), update_where (\<lambda>doc. avd_SubscriptionID doc = fst h)
          (avd_SubscriptionID_update (\<lambda>_. 0)) q))))"

definition subscription_Remove ::
  "db_outcome \<Rightarrow> db_handle \<Rightarrow> ('w db_world, (db_error, unit) go_result) prog" where
  "subscription_Remove out h = masked (db_request out (on_subscr (RemoveDocument (fst h))))"

definition unassigned :: "string \<Rightarrow> avDocument \<Rightarrow> bool" where
  "unassigned link doc \<longleftrightarrow> avd_SubscriptionID doc = 0 \<and> avd_LinkName doc = link"

definition AssignFirstValue ::
  "db_outcome \<Rightarrow> (int \<Rightarrow> int) \<Rightarrow> db_handle
    \<Rightarrow> ('w db_world, (db_error, (int \<times> avDocument) option) go_result) prog" where
  "AssignFirstValue out rank h =
     (let p = unassigned (dsub_LinkName (snd h));
          f = avd_SubscriptionID_update (\<lambda>_. fst h) in
      masked (db_request out (on_queue (\<lambda>q.
        (Inr (case scan_updated rank p f q of [] \<Rightarrow> None | d # ds \<Rightarrow> Some d),
         update_where p f q)))))"

definition FindAnnotatedValueByID ::
  "db_outcome \<Rightarrow> (int \<Rightarrow> int) \<Rightarrow> string \<Rightarrow> db_handle
    \<Rightarrow> ('w db_world, (db_error, (int \<times> avDocument) option) go_result) prog" where
  "FindAnnotatedValueByID out rank avID h =
     masked (db_request out (on_queue (\<lambda>q.
       (Inr (case scan rank (\<lambda>doc. avd_SubscriptionID doc = fst h \<and> av_ID (avd_Value doc) = avID) q of
          [] \<Rightarrow> None | d # ds \<Rightarrow> Some d), q))))"

definition collectUnassignedQueueStats ::
  "db_outcome \<Rightarrow> string \<Rightarrow> ('w db_world, (db_error, int) go_result) prog" where
  "collectUnassignedQueueStats out link =
     masked (db_request out (on_queue (\<lambda>q.
       (Inr (int (length (filter (\<lambda>(k, doc). unassigned link doc) (col_docs q)))), q))))"

section \<open>Publisher\<close>

definition db_CanPublish :: "db_link \<Rightarrow> ('w db_world, bool) prog" where
  "db_CanPublish l = atomically (\<lambda>s.
     (ls_AnnotatedValuesWaiting (dw_stats s (dl_linkName l)) < db_maxAnnotatedValuesWaiting, s))"

definition store_waiting :: "db_outcome \<Rightarrow> db_link \<Rightarrow> ('w db_world, unit) prog" where
  "store_waiting out l =
     prog_bind (collectUnassignedQueueStats out (dl_linkName l)) (\<lambda>r. case r of
       Inl e \<Rightarrow> Return ()
     | Inr n \<Rightarrow> update_stats (dl_linkName l) (ls_AnnotatedValuesWaiting_update (\<lambda>_. n)))"

text \<open>\<open>record_av\<close> is the registry the value is recorded in, \<open>None\<close> when it fails.\<close>

definition record_request ::
  "('w \<Rightarrow> AnnotatedValue \<Rightarrow> 'w option) \<Rightarrow> AnnotatedValue \<Rightarrow> ('w db_world, bool) prog" where
  "record_request record_av av = atomically (\<lambda>s. case record_av (dw_registry s) av of
     None \<Rightarrow> (False, s) | Some w \<Rightarrow> (True, s\<lparr>dw_registry := w\<rparr>))"

definition db_Publish ::
  "('w \<Rightarrow> AnnotatedValue \<Rightarrow> 'w option) \<Rightarrow> call_env \<Rightarrow> db_link \<Rightarrow> AnnotatedValue
    \<Rightarrow> ('w db_world, db_link_error error_only) prog" where
  "db_Publish record_av env l req =
     (let av = req\<lparr>av_Link := dl_uri l\<rparr>;
          doc = \<lparr>avd_LinkName = dl_linkName l, avd_SubscriptionID = 0, avd_Value = av\<rparr> in
      prog_bind (record_request record_av av) (\<lambda>ok.
        if \<not> ok then Return (Some RecordFailed)
        else or_fail (db_request (ce_db env 0) (on_queue (CreateDocument (\<lambda>_ _. False) doc)))
               (\<lambda>e. Some (Status (arangoErrorToGRPC e))) (\<lambda>k.
             prog_bind (store_waiting (ce_db env 1) l) (\<lambda>_. Return None))))"

section \<open>Source\<close>

text \<open>The failed lookup of a subscription: the code asks for \<open>NotFound\<close> first.\<close>

definition lookup_error :: "db_error \<Rightarrow> db_link_error" where
  "lookup_error e =
     (if driver_IsNotFound e then Status Code_NotFound else Status (arangoErrorToGRPC e))"

definition grpc_error :: "db_error \<Rightarrow> db_link_error" where
  "grpc_error e = Status (arangoErrorToGRPC e)"

text \<open>A round of \<open>runSubscriptionGC\<close>; failures are only logged.\<close>

fun gc_subscriptions :: "call_env \<Rightarrow> nat \<Rightarrow> db_handle list \<Rightarrow> ('w db_world, unit) prog" where
  "gc_subscriptions env n [] = Return ()"
| "gc_subscriptions env n (h # hs) =
     prog_bind (UnassignQueueValues (ce_db env n) h) (\<lambda>r. case r of
       Inl e \<Rightarrow> gc_subscriptions env (n + 2) hs
     | Inr _ \<Rightarrow> prog_bind (subscription_Remove (ce_db env (n + 1)) h) (\<lambda>r.
         gc_subscriptions env (n + 2) hs))"

definition gc_round :: "call_env \<Rightarrow> db_link \<Rightarrow> ('w db_world, unit) prog" where
  "gc_round env l =
     prog_bind (getExpiredSubscriptions (ce_db env 0) (ce_rank env 0) (ce_clock env) (dl_linkName l))
       (\<lambda>r. case r of Inl e \<Rightarrow> Return () | Inr hs \<Rightarrow> gc_subscriptions env 1 hs)"

text \<open>\<open>envs\<close> holds what the later rounds meet; after them the context is cancelled.\<close>

fun runSubscriptionGC ::
  "db_link \<Rightarrow> call_env \<Rightarrow> call_env list \<Rightarrow> ('w db_world, db_link_error) prog" where
  "runSubscriptionGC l env [] = prog_bind (gc_round env l) (\<lambda>_. Return ContextDone)"
| "runSubscriptionGC l env (env' # envs) =
     prog_bind (gc_round env l) (\<lambda>_. runSubscriptionGC l env' envs)"

text \<open>The answer of \<open>Subscribe\<close> is the ID and the TTL, which only a renewed subscription reports.\<close>

definition db_Subscribe ::
  "call_env \<Rightarrow> db_link \<Rightarrow> string
    \<Rightarrow> ('w db_world, (db_link_error, int \<times> int option) go_result) prog" where
  "db_Subscribe env l client =
     or_fail (findSubscriptionByClientID (ce_db env 0) (ce_rank env 0) client) (Inl \<circ> grpc_error)
       (\<lambda>found. case found of
          Some h \<Rightarrow>
            or_fail (RenewExpiresAt_db (ce_db env 1) (ce_clock env 0) h) (Inl \<circ> grpc_error)
              (\<lambda>_. Return (Inr (fst h, Some db_subscriptionTTL)))
        | None \<Rightarrow>
            let sub = \<lparr>dsub_ClientID = client, dsub_LinkName = dl_linkName l,
                       dsub_ExpiresAt = ce_clock env 0 + db_subscriptionTTL\<rparr> in
            or_fail (db_request (ce_db env 1) (on_subscr (CreateDocument same_client sub)))
              (Inl \<circ> grpc_error) (\<lambda>k. Return (Inr (k, None))))"

definition db_Ping :: "call_env \<Rightarrow> int \<Rightarrow> ('w db_world, db_link_error error_only) prog" where
  "db_Ping env i =
     or_fail (getSubscriptionByID (ce_db env 0) i) (Some \<circ> lookup_error) (\<lambda>h.
     or_fail (RenewExpiresAt_db (ce_db env 1) (ce_clock env 0) h) (Some \<circ> grpc_error) (\<lambda>_.
     Return None))"

definition db_Close :: "call_env \<Rightarrow> int \<Rightarrow> ('w db_world, db_link_error error_only) prog" where
  "db_Close env i =
     or_fail (getSubscriptionByID (ce_db env 0) i) (Some \<circ> lookup_error) (\<lambda>h.
     or_fail (UnassignQueueValues (ce_db env 1) h) (Some \<circ> grpc_error) (\<lambda>_.
     or_fail (subscription_Remove (ce_db env 2) h) (Some \<circ> grpc_error) (\<lambda>_.
     Return None)))"

definition db_delay :: "int \<Rightarrow> int \<Rightarrow> int" where
  "db_delay endTime now =
     (let delay = endTime - now in if delay > nextRetryPeriod then nextRetryPeriod else delay)"

text \<open>
  The loop of \<open>Next\<close>, at most \<open>n\<close> rounds of it: round \<open>r\<close> makes the requests \<open>4 r\<close> to \<open>4 r + 3\<close>
  and reads the clock twice.  \<open>None\<close> when it has not returned after these rounds.
\<close>

fun next_rounds ::
  "nat \<Rightarrow> call_env \<Rightarrow> db_link \<Rightarrow> int \<Rightarrow> int \<Rightarrow> nat
    \<Rightarrow> ('w db_world, (db_link_error, AnnotatedValue option) go_result option) prog" where
  "next_rounds 0 env l i endTime r = Return None"
| "next_rounds (Suc n) env l i endTime r =
     or_fail (getSubscriptionByID (ce_db env (4 * r)) i) (Some \<circ> Inl \<circ> lookup_error) (\<lambda>h.
     or_fail (RenewExpiresAt_db (ce_db env (4 * r + 1)) (ce_clock env (2 * r + 1)) h)
       (Some \<circ> Inl \<circ> grpc_error) (\<lambda>_.
     or_fail (AssignFirstValue (ce_db env (4 * r + 2)) (ce_rank env r) h)
       (Some \<circ> Inl \<circ> grpc_error) (\<lambda>found. case found of
         Some (k, doc) \<Rightarrow>
           prog_bind (update_stats (dl_linkName l)
             (\<lambda>st. st\<lparr>ls_AnnotatedValuesInProgress := ls_AnnotatedValuesInProgress st + 1\<rparr>)) (\<lambda>_.
           prog_bind (store_waiting (ce_db env (4 * r + 3)) l) (\<lambda>_.
           Return (Some (Inr (Some (avd_Value doc))))))
       | None \<Rightarrow>
           let delay = db_delay endTime (ce_clock env (2 * r + 2)) in
           if delay \<le> 0 then Return (Some (Inr None))
           else if ce_done env r then Return (Some (Inl ContextDone))
           else next_rounds n env l i endTime (Suc r))))"

definition db_Next ::
  "nat \<Rightarrow> call_env \<Rightarrow> db_link \<Rightarrow> int \<Rightarrow> Duration option
    \<Rightarrow> ('w db_world, (db_link_error, AnnotatedValue option) go_result option) prog" where
  "db_Next n env l i wait = (case DurationFromProto wait of
     None \<Rightarrow> Return (Some (Inl (Status Code_InvalidArgument)))
   | Some waitTimeout \<Rightarrow> next_rounds n env l i (ce_clock env 0 + waitTimeout) 0)"

definition db_Ack ::
  "call_env \<Rightarrow> db_link \<Rightarrow> int \<Rightarrow> string \<Rightarrow> ('w db_world, db_link_error error_only) prog" where
  "db_Ack env l i avID =
     or_fail (getSubscriptionByID (ce_db env 0) i) (Some \<circ> lookup_error) (\<lambda>h.
     or_fail (RenewExpiresAt_db (ce_db env 1) (ce_clock env 0) h) (Some \<circ> grpc_error) (\<lambda>_.
     or_fail (FindAnnotatedValueByID (ce_db env 2) (ce_rank env 0) avID h) (Some \<circ> grpc_error)
       (\<lambda>found. case found of
         None \<Rightarrow> Return (Some (Status Code_NotFound))
       | Some (k, doc) \<Rightarrow>
           or_fail (avDocument_Remove (ce_db env 3) k) (Some \<circ> grpc_error) (\<lambda>_.
           prog_bind (update_stats (dl_linkName l)
             (\<lambda>st. st\<lparr>ls_AnnotatedValuesInProgress := ls_AnnotatedValuesInProgress st - 1\<rparr>)) (\<lambda>_.
           prog_bind (update_stats (dl_linkName l)
             (\<lambda>st. st\<lparr>ls_AnnotatedValuesAcknowledged := ls_AnnotatedValuesAcknowledged st + 1\<rparr>)) (\<lambda>_.
           Return None))))))"

section \<open>The calls of the agents\<close>

datatype db_call =
    CallPublish AnnotatedValue
  | CallCanPublish
  | CallSubscribe string
  | CallPing int
  | CallClose int
  | CallNext int "Duration option" nat
  | CallAck int string
  | CallGC

datatype db_answer =
    AnsStatus "db_link_error error_only"
  | AnsAllowed bool
  | AnsSubscription "(db_link_error, int \<times> int option) go_result"
  | AnsNext "(db_link_error, AnnotatedValue option) go_result option"
  | AnsGC

definition answered :: "('a \<Rightarrow> 'b) \<Rightarrow> ('s, 'a) prog \<Rightarrow> ('s, 'b) prog" where
  "answered f p = prog_bind p (\<lambda>r. Return (f r))"

fun db_serve ::
  "('w \<Rightarrow> AnnotatedValue \<Rightarrow> 'w option) \<Rightarrow> call_env \<Rightarrow> db_link \<Rightarrow> db_call
    \<Rightarrow> ('w db_world, db_answer) prog" where
  "db_serve record_av env l (CallPublish av) = answered AnsStatus (db_Publish record_av env l av)"
| "db_serve record_av env l CallCanPublish = answered AnsAllowed (db_CanPublish l)"
| "db_serve record_av env l (CallSubscribe client) =
     answered AnsSubscription (db_Subscribe env l client)"
| "db_serve record_av env l (CallPing i) = answered AnsStatus (db_Ping env i)"
| "db_serve record_av env l (CallClose i) = answered AnsStatus (db_Close env i)"
| "db_serve record_av env l (CallNext i wait n) = answered AnsNext (db_Next n env l i wait)"
| "db_serve record_av env l (CallAck i avID) = answered AnsStatus (db_Ack env l i avID)"
| "db_serve record_av env l CallGC = answered (\<lambda>_. AnsGC) (gc_round env l)"

definition db_calls ::
  "('w \<Rightarrow> AnnotatedValue \<Rightarrow> 'w option) \<Rightarrow> (db_call \<Rightarrow> bool) \<Rightarrow> ('w db_world, db_answer) prog set" where
  "db_calls record_av p = {db_serve record_av env l q |env l q. p q}"

end
