(* ===== verification/Link_DB_Safety.thy ===== *)
theory Link_DB_Safety
  imports Link_DB
begin

text \<open>
  What all interleavings of the calls of a pipeline's link agents keep of the shared database.
  The locale \<open>db_invariant\<close> lists what a property of the database must satisfy at each kind of
  request; it then holds in every state of a pool of calls.  Its interpretations show that the
  collections stay well-formed, that a published value stays until it is acknowledged, and
  which values no call can reach any more.
\<close>

section \<open>Requests and guarantees\<close>

lemma guar_or_fail:
  assumes "guar A R (\<lambda>r. case r of Inl e \<Rightarrow> Q (h e) | Inr x \<Rightarrow> P x) p"
    and "\<And>x. P x \<Longrightarrow> guar A R Q (k x)"
  shows "guar A R Q (or_fail p h k)"
  unfolding or_fail_def by (rule guar_bind [OF assms(1)]) (auto split: sum.splits intro: assms(2))

lemma guar_masked: "guar A R (\<lambda>r. Q (mask_result r)) p \<Longrightarrow> guar A R Q (masked p)"
  unfolding masked_def by (rule guar_bind) auto

lemma guar_answered: "guar A R (\<lambda>_. True) p \<Longrightarrow> guar A R (\<lambda>_. True) (answered f p)"
  unfolding answered_def by (rule guar_bind) auto

text \<open>The guarantee to keep \<open>dbi\<close>, a property of the database.\<close>

abbreviation keeps_inv :: "(link_db \<Rightarrow> bool) \<Rightarrow> ('r \<Rightarrow> bool) \<Rightarrow> ('w db_world, 'r) prog \<Rightarrow> bool" where
  "keeps_inv I Q q \<equiv> guar (\<lambda>s. I (dw_db s)) (\<lambda>s t. I (dw_db t)) Q q"

text \<open>\<open>ok_value P r\<close>: the value of a result that is no error satisfies \<open>P\<close>.\<close>

definition ok_value :: "('a \<Rightarrow> bool) \<Rightarrow> 'e + 'a \<Rightarrow> bool" where
  "ok_value P r \<longleftrightarrow> (case r of Inl e \<Rightarrow> True | Inr x \<Rightarrow> P x)"

lemma ok_value_simps [simp]: "ok_value P (Inl e)" "ok_value P (Inr x) \<longleftrightarrow> P x"
  "ok_value P (mask_result r) \<longleftrightarrow> ok_value P r"
  by (auto simp: ok_value_def mask_result_def split: sum.splits)

lemma keeps_request:
  assumes "\<And>d. dbi d \<Longrightarrow> dbi (snd (f d)) \<and> ok_value P (fst (f d))"
  shows "keeps_inv dbi (ok_value P) (db_request out f)"
  unfolding db_request_def guar_atomically
  by (cases out) (auto simp: request_db_def case_prod_beta assms)

lemma keeps_masked:
  assumes "\<And>d. dbi d \<Longrightarrow> dbi (snd (f d)) \<and> ok_value P (fst (f d))"
  shows "keeps_inv dbi (ok_value P) (masked (db_request out f))"
  by (rule guar_masked, unfold ok_value_simps) (rule keeps_request, rule assms)

lemma keeps_or_fail:
  assumes "keeps_inv dbi (ok_value P) p" and "\<And>x. P x \<Longrightarrow> keeps_inv dbi (\<lambda>_. True) (k x)"
  shows "keeps_inv dbi (\<lambda>_. True) (or_fail p h k)"
  by (rule guar_or_fail [OF guar_mono [OF assms(1)]]) (auto simp: assms(2) split: sum.splits)

lemma keeps_bind_ok:
  assumes "keeps_inv dbi (ok_value P) p" and "\<And>r. ok_value P r \<Longrightarrow> keeps_inv dbi (\<lambda>_. True) (k r)"
  shows "keeps_inv dbi (\<lambda>_. True) (prog_bind p k)"
  using assms by (rule guar_bind)

lemma keeps_stats [simp]: "keeps_inv dbi (\<lambda>_. True) (update_stats l f)"
  by (simp add: update_stats_def guar_atomically)

lemma keeps_record [simp]: "keeps_inv dbi (\<lambda>_. True) (record_request record_av av)"
  by (auto simp: record_request_def guar_atomically split: option.splits)

lemma keeps_can_publish [simp]: "keeps_inv dbi (\<lambda>_. True) (db_CanPublish l)"
  by (simp add: db_CanPublish_def guar_atomically)

lemma keeps_bind_True:
  assumes "keeps_inv dbi (\<lambda>_. True) p" and "\<And>r. keeps_inv dbi (\<lambda>_. True) (k r)"
  shows "keeps_inv dbi (\<lambda>_. True) (prog_bind p k)"
  by (rule guar_bind [OF assms(1)]) (rule assms(2))

lemma keeps_store_waiting [simp]: "keeps_inv dbi (\<lambda>_. True) (store_waiting out l)"
  unfolding store_waiting_def collectUnassignedQueueStats_def
  by (rule keeps_bind_ok [OF keeps_masked [where P = "\<lambda>_. True"]])
     (auto simp: on_queue_def split: sum.splits)

lemma on_simps [simp]:
  "snd (on_queue f d) = d\<lparr>db_queueCol := snd (f (db_queueCol d))\<rparr>"
  "fst (on_queue f d) = fst (f (db_queueCol d))"
  "snd (on_subscr g d) = d\<lparr>db_subscrCol := snd (g (db_subscrCol d))\<rparr>"
  "fst (on_subscr g d) = fst (g (db_subscrCol d))"
  by (simp_all add: on_queue_def on_subscr_def case_prod_beta)

section \<open>Invariants of the database\<close>

definition renew_doc :: "int \<Rightarrow> db_subscription \<Rightarrow> db_subscription" where
  "renew_doc now = dsub_ExpiresAt_update (\<lambda>_. now + db_subscriptionTTL)"

text \<open>
  \<open>okh\<close> and \<open>okk\<close> hold for the subscriptions and the queue keys that a call may carry from one
  request to the next; \<open>p\<close> selects the calls that the agents serve.
\<close>

locale db_invariant =
  fixes dbi :: "link_db \<Rightarrow> bool"
    and okh :: "int \<Rightarrow> bool"
    and okk :: "int \<Rightarrow> bool"
    and p :: "db_call \<Rightarrow> bool"
    and record_av :: "'w \<Rightarrow> AnnotatedValue \<Rightarrow> 'w option"
  assumes read_ok: "dbi d \<Longrightarrow> map_of (col_docs (db_subscrCol d)) i = Some sub \<Longrightarrow> okh i"
    and create_value: "dbi d \<Longrightarrow> avd_SubscriptionID doc = 0 \<Longrightarrow>
      dbi (d\<lparr>db_queueCol := snd (CreateDocument (\<lambda>_ _. False) doc (db_queueCol d))\<rparr>)"
    and create_subscription: "dbi d \<Longrightarrow>
      dbi (d\<lparr>db_subscrCol := snd (CreateDocument same_client sub (db_subscrCol d))\<rparr>)"
    and renew: "dbi d \<Longrightarrow> okh i \<Longrightarrow>
      dbi (d\<lparr>db_subscrCol := snd (UpdateDocument i (renew_doc now) (db_subscrCol d))\<rparr>)"
    and assign: "dbi d \<Longrightarrow> okh i \<Longrightarrow>
      dbi (d\<lparr>db_queueCol := update_where (unassigned link) (avd_SubscriptionID_update (\<lambda>_. i))
                              (db_queueCol d)\<rparr>)"
    and unassign: "dbi d \<Longrightarrow> okh i \<Longrightarrow> p (CallClose j) \<or> p CallGC \<Longrightarrow>
      dbi (d\<lparr>db_queueCol := update_where (\<lambda>doc. avd_SubscriptionID doc = i)
                              (avd_SubscriptionID_update (\<lambda>_. 0)) (db_queueCol d)\<rparr>)"
    and remove_subscription: "dbi d \<Longrightarrow> okh i \<Longrightarrow> p (CallClose j) \<or> p CallGC \<Longrightarrow>
      dbi (d\<lparr>db_subscrCol := snd (RemoveDocument i (db_subscrCol d))\<rparr>)"
    and found_ok: "dbi d \<Longrightarrow> okh i \<Longrightarrow> p (CallAck j avID) \<Longrightarrow>
      map_of (col_docs (db_queueCol d)) k = Some doc \<Longrightarrow> avd_SubscriptionID doc = i \<Longrightarrow>
      av_ID (avd_Value doc) = avID \<Longrightarrow> okk k"
    and remove_value: "dbi d \<Longrightarrow> okk k \<Longrightarrow>
      dbi (d\<lparr>db_queueCol := snd (RemoveDocument k (db_queueCol d))\<rparr>)"
    and wf_queue: "dbi d \<Longrightarrow> col_wf (db_queueCol d)"
    and wf_subscr: "dbi d \<Longrightarrow> col_wf (db_subscrCol d)"
begin

abbreviation kept :: "('w db_world, 'r) prog \<Rightarrow> bool" where
  "kept \<equiv> keeps_inv dbi (\<lambda>_. True)"

lemma kept_get: "keeps_inv dbi (ok_value (\<lambda>h. okh (fst h))) (getSubscriptionByID out i)"
  unfolding getSubscriptionByID_def
  by (rule keeps_masked) (auto simp: ReadDocument_def read_ok split: option.splits)

lemma kept_find:
  "keeps_inv dbi (ok_value (\<lambda>r. \<forall>h. r = Some h \<longrightarrow> okh (fst h)))
     (findSubscriptionByClientID out rank client)"
  unfolding findSubscriptionByClientID_def
proof (rule keeps_masked)
  fix d :: link_db
  assume dbi: "dbi d"
  have "okh (fst h)" if "scan rank (\<lambda>sub. dsub_ClientID sub = client) (db_subscrCol d) = h # hs" for h hs
  proof -
    have "h \<in> set (scan rank (\<lambda>sub. dsub_ClientID sub = client) (db_subscrCol d))"
      by (simp only: that list.set_intros)
    then have "map_of (col_docs (db_subscrCol d)) (fst h) = Some (snd h)"
      using scan_in [OF wf_subscr [OF dbi], of "fst h" "snd h"] by simp
    then show ?thesis by (rule read_ok [OF dbi])
  qed
  then show "dbi (snd (on_subscr (\<lambda>c. (Inr (case scan rank (\<lambda>sub. dsub_ClientID sub = client) c of
      [] \<Rightarrow> None | h # hs \<Rightarrow> Some h), c)) d)) \<and> ok_value (\<lambda>r. \<forall>h. r = Some h \<longrightarrow> okh (fst h))
      (fst (on_subscr (\<lambda>c. (Inr (case scan rank (\<lambda>sub. dsub_ClientID sub = client) c of
      [] \<Rightarrow> None | h # hs \<Rightarrow> Some h), c)) d))"
    using dbi by (auto split: list.splits)
qed

lemma kept_renew: "okh (fst h) \<Longrightarrow> keeps_inv dbi (ok_value (\<lambda>_. True)) (RenewExpiresAt_db out now h)"
  unfolding RenewExpiresAt_db_def
  by (rule keeps_masked) (auto simp: renew [unfolded renew_doc_def] ok_value_def split: sum.splits)

lemma kept_unassign:
  assumes "okh (fst h)" and "p (CallClose j) \<or> p CallGC"
  shows "keeps_inv dbi (ok_value (\<lambda>_. True)) (UnassignQueueValues out h)"
  unfolding UnassignQueueValues_def
  by (rule keeps_masked) (auto simp: unassign [OF _ assms])

lemma kept_remove_subscription:
  assumes "okh (fst h)" and "p (CallClose j) \<or> p CallGC"
  shows "keeps_inv dbi (ok_value (\<lambda>_. True)) (subscription_Remove out h)"
  unfolding subscription_Remove_def
  by (rule keeps_masked) (auto simp: remove_subscription [OF _ assms] ok_value_def split: sum.splits)

lemma kept_assign:
  "okh (fst h) \<Longrightarrow> keeps_inv dbi (ok_value (\<lambda>_. True)) (AssignFirstValue out rank h)"
  unfolding AssignFirstValue_def Let_def by (rule keeps_masked) (auto simp: assign)

lemma kept_find_value:
  assumes "okh (fst h)" and "p (CallAck j avID)"
  shows "keeps_inv dbi (ok_value (\<lambda>r. \<forall>k doc. r = Some (k, doc) \<longrightarrow> okk k))
    (FindAnnotatedValueByID out rank avID h)"
  unfolding FindAnnotatedValueByID_def
proof (rule keeps_masked)
  fix d :: link_db
  let ?P = "\<lambda>doc. avd_SubscriptionID doc = fst h \<and> av_ID (avd_Value doc) = avID"
  assume dbi: "dbi d"
  have "okk k" if "scan rank ?P (db_queueCol d) = (k, doc) # ds" for k doc ds
  proof -
    have "(k, doc) \<in> set (scan rank ?P (db_queueCol d))" by (simp only: that list.set_intros)
    then have "map_of (col_docs (db_queueCol d)) k = Some doc \<and> ?P doc"
      by (simp only: scan_in [OF wf_queue [OF dbi]])
    then show ?thesis using found_ok [OF dbi assms, of k doc] by simp
  qed
  then show "dbi (snd (on_queue (\<lambda>q. (Inr (case scan rank ?P q of
      [] \<Rightarrow> None | d # ds \<Rightarrow> Some d), q)) d)) \<and> ok_value (\<lambda>r. \<forall>k doc. r = Some (k, doc) \<longrightarrow> okk k)
      (fst (on_queue (\<lambda>q. (Inr (case scan rank ?P q of [] \<Rightarrow> None | d # ds \<Rightarrow> Some d), q)) d))"
    using dbi by (auto split: list.splits)
qed

lemma kept_remove_value: "okk k \<Longrightarrow> keeps_inv dbi (ok_value (\<lambda>_. True)) (avDocument_Remove out k)"
  unfolding avDocument_Remove_def
  by (rule keeps_masked) (auto simp: remove_value ok_value_def split: sum.splits)

lemma kept_gc_subscriptions:
  assumes "p CallGC"
  shows "\<forall>h \<in> set hs. okh (fst h) \<Longrightarrow> kept (gc_subscriptions env n hs)"
proof (induction hs arbitrary: n)
  case (Cons h hs)
  have ok: "okh (fst h)" and rest: "\<And>n. kept (gc_subscriptions env n hs)"
    using Cons by simp_all
  have gc: "p (CallClose 0) \<or> p CallGC" using assms by simp
  have "kept (prog_bind (subscription_Remove out h) (\<lambda>r. gc_subscriptions env (n + 2) hs))" for out
    by (rule keeps_bind_ok [OF kept_remove_subscription [OF ok gc]]) (rule rest)
  then show ?case unfolding gc_subscriptions.simps
    by (intro keeps_bind_ok [OF kept_unassign [OF ok gc]]) (simp add: rest split: sum.splits)
qed simp

lemma expired_in_scan:
  "h \<in> set (map snd (filter (\<lambda>(n, k, sub). db_IsExpired (clock n) sub) (enumerate 0 hs)))
    \<Longrightarrow> h \<in> set hs"
  by (auto simp: enumerate_eq_zip dest: set_zip_rightD)

lemma kept_expired:
  "keeps_inv dbi (ok_value (\<lambda>hs. \<forall>h \<in> set hs. okh (fst h)))
     (getExpiredSubscriptions out rank clock link)"
  unfolding getExpiredSubscriptions_def
proof (rule keeps_masked)
  fix d :: link_db
  let ?l = "\<lambda>c. map snd (filter (\<lambda>(n, k, sub). db_IsExpired (clock n) sub)
      (enumerate 0 (scan rank (\<lambda>sub. dsub_LinkName sub = link) c)))"
  assume dbi: "dbi d"
  have "okh (fst h)" if "h \<in> set (?l (db_subscrCol d))" for h
  proof -
    have "h \<in> set (scan rank (\<lambda>sub. dsub_LinkName sub = link) (db_subscrCol d))"
      using that by (rule expired_in_scan)
    then have "map_of (col_docs (db_subscrCol d)) (fst h) = Some (snd h)"
      using scan_in [OF wf_subscr [OF dbi], of "fst h" "snd h"] by simp
    then show ?thesis by (rule read_ok [OF dbi])
  qed
  then show "dbi (snd (on_subscr (\<lambda>c. (Inr (?l c), c)) d))
      \<and> ok_value (\<lambda>hs. \<forall>h \<in> set hs. okh (fst h)) (fst (on_subscr (\<lambda>c. (Inr (?l c), c)) d))"
    using dbi by (simp del: set_map)
qed

lemma kept_gc:
  assumes "p CallGC"
  shows "kept (gc_round env l)"
  unfolding gc_round_def
proof (rule keeps_bind_ok [OF kept_expired])
  fix r :: "db_error + db_handle list"
  assume "ok_value (\<lambda>hs. \<forall>h \<in> set hs. okh (fst h)) r"
  then show "kept (case r of Inl e \<Rightarrow> Return () | Inr hs \<Rightarrow> gc_subscriptions env 1 hs)"
    by (cases r) (simp_all only: sum.case guar.simps ok_value_simps kept_gc_subscriptions [OF assms])
qed

lemma kept_publish: "kept (db_Publish record_av env l av)"
  unfolding db_Publish_def Let_def
  by (auto intro!: keeps_bind_True keeps_or_fail [OF keeps_request [where P = "\<lambda>_. True"]]
      simp: create_value ok_value_def split: sum.splits)

lemma kept_subscribe: "kept (db_Subscribe env l client)"
  unfolding db_Subscribe_def
proof (rule keeps_or_fail [OF kept_find])
  fix found :: "db_handle option"
  assume found: "\<forall>h. found = Some h \<longrightarrow> okh (fst h)"
  have new: "kept (or_fail (db_request out (on_subscr (CreateDocument same_client sub)))
      (Inl \<circ> grpc_error) (\<lambda>k. Return (Inr (k, None))))" for out sub
    by (rule keeps_or_fail [OF keeps_request [where P = "\<lambda>_. True"]])
       (auto simp: create_subscription ok_value_def split: sum.splits)
  have old: "kept (or_fail (RenewExpiresAt_db out now h) (Inl \<circ> grpc_error)
      (\<lambda>_. Return (Inr (fst h, Some db_subscriptionTTL))))" if "found = Some h" for h out now
    by (rule keeps_or_fail [OF kept_renew]) (use found that in auto)
  show "kept (case found of
      Some h \<Rightarrow> or_fail (RenewExpiresAt_db (ce_db env 1) (ce_clock env 0) h) (Inl \<circ> grpc_error)
        (\<lambda>_. Return (Inr (fst h, Some db_subscriptionTTL)))
    | None \<Rightarrow> let sub = \<lparr>dsub_ClientID = client, dsub_LinkName = dl_linkName l,
          dsub_ExpiresAt = ce_clock env 0 + db_subscriptionTTL\<rparr> in
        or_fail (db_request (ce_db env 1) (on_subscr (CreateDocument same_client sub)))
          (Inl \<circ> grpc_error) (\<lambda>k. Return (Inr (k, None))))"
    using old by (cases found) (simp_all add: new Let_def)
qed

lemma kept_ping: "kept (db_Ping env i)"
  unfolding db_Ping_def
  by (rule keeps_or_fail [OF kept_get], rule keeps_or_fail [OF kept_renew]) simp_all

lemma kept_close: "p (CallClose j) \<Longrightarrow> kept (db_Close env i)"
  unfolding db_Close_def
  by (rule keeps_or_fail [OF kept_get], rule keeps_or_fail [OF kept_unassign], assumption, blast,
      rule keeps_or_fail [OF kept_remove_subscription], assumption, blast) simp

lemma kept_rounds: "kept (next_rounds n env l i endTime r)"
proof (induction n arbitrary: r)
  case (Suc n)
  show ?case unfolding next_rounds.simps
  proof (rule keeps_or_fail [OF kept_get], rule keeps_or_fail [OF kept_renew], assumption,
      rule keeps_or_fail [OF kept_assign], assumption)
    fix found :: "(int \<times> avDocument) option"
    show "kept (case found of
        Some (k, doc) \<Rightarrow>
          prog_bind (update_stats (dl_linkName l)
            (\<lambda>st. st\<lparr>ls_AnnotatedValuesInProgress := ls_AnnotatedValuesInProgress st + 1\<rparr>)) (\<lambda>_.
          prog_bind (store_waiting (ce_db env (4 * r + 3)) l) (\<lambda>_.
          Return (Some (Inr (Some (avd_Value doc))))))
      | None \<Rightarrow>
          let delay = db_delay endTime (ce_clock env (2 * r + 2)) in
          if delay \<le> 0 then Return (Some (Inr None))
          else if ce_done env r then Return (Some (Inl ContextDone))
          else next_rounds n env l i endTime (Suc r))"
      using Suc.IH by (auto intro!: keeps_bind_True simp: Let_def split: option.splits)
  qed
qed simp

lemma kept_next: "kept (db_Next n env l i wait)"
  by (auto simp: db_Next_def kept_rounds split: option.splits)

lemma kept_ack:
  assumes "p (CallAck j avID)"
  shows "kept (db_Ack env l i avID)"
  unfolding db_Ack_def
proof (rule keeps_or_fail [OF kept_get], rule keeps_or_fail [OF kept_renew], assumption,
    rule keeps_or_fail [OF kept_find_value [OF _ assms]], assumption)
  fix found :: "(int \<times> avDocument) option"
  assume found: "\<forall>k doc. found = Some (k, doc) \<longrightarrow> okk k"
  have "kept (or_fail (avDocument_Remove out k) (Some \<circ> grpc_error) (\<lambda>_.
      prog_bind (update_stats n f) (\<lambda>_. prog_bind (update_stats n g) (\<lambda>_. Return None))))"
    if "okk k" for out k n f g
    by (rule keeps_or_fail [OF kept_remove_value [OF that]]) (auto intro!: keeps_bind_True)
  then show "kept (case found of
      None \<Rightarrow> Return (Some (Status Code_NotFound))
    | Some (k, doc) \<Rightarrow> or_fail (avDocument_Remove (ce_db env 3) k) (Some \<circ> grpc_error) (\<lambda>_.
        prog_bind (update_stats (dl_linkName l)
          (\<lambda>st. st\<lparr>ls_AnnotatedValuesInProgress := ls_AnnotatedValuesInProgress st - 1\<rparr>)) (\<lambda>_.
        prog_bind (update_stats (dl_linkName l)
          (\<lambda>st. st\<lparr>ls_AnnotatedValuesAcknowledged := ls_AnnotatedValuesAcknowledged st + 1\<rparr>)) (\<lambda>_.
        Return None))))"
    using found by (auto split: option.splits)
qed

lemma kept_serve: "p q \<Longrightarrow> kept (db_serve record_av env l q)"
  by (cases q) (auto intro!: guar_answered kept_publish kept_subscribe kept_ping kept_close kept_next
      kept_ack kept_gc)

end

sublocale db_invariant \<subseteq> db_server: server "db_calls record_av p"
    "\<lambda>s. dbi (dw_db s)" "\<lambda>s t. dbi (dw_db t)" "\<lambda>_. True"
  by unfold_locales (auto simp: db_calls_def kept_serve)

context db_invariant
begin

lemma invariant_later:
  assumes "reach (\<lambda>c. c = (s, {#})) (pool_trans (db_calls record_av p)) (t, ps)" and "dbi (dw_db s)"
  shows "dbi (dw_db t)"
  using db_server.safe_later [OF assms(1)] assms(2) by (simp add: db_server.safe_pool_def)

lemma invariant_run:
  assumes "p q" and "dbi (dw_db s)"
  shows "dbi (dw_db (snd (run_prog (db_serve record_av env l q) s)))"
  using guar_run [OF kept_serve [OF assms(1)], of s] assms(2) by blast

end

end
