(* ===== verification/Link_DB_Values.thy ===== *)
theory Link_DB_Values
  imports Link_DB_Safety
begin

text \<open>
  Where the values of a pipeline's queue are: interpretations of \<open>db_invariant\<close> on the database of
  the link agents, and what follows for the values that clients wait for.
\<close>

section \<open>Well-formed databases\<close>

definition db_wf :: "link_db \<Rightarrow> bool" where
  "db_wf d \<longleftrightarrow> col_wf (db_queueCol d) \<and> col_wf (db_subscrCol d)
     \<and> (\<forall>k a j b. map_of (col_docs (db_subscrCol d)) k = Some a
          \<longrightarrow> map_of (col_docs (db_subscrCol d)) j = Some b
          \<longrightarrow> dsub_ClientID a = dsub_ClientID b \<longrightarrow> k = j)"

lemma db_wfD:
  "db_wf d \<Longrightarrow> col_wf (db_queueCol d)" "db_wf d \<Longrightarrow> col_wf (db_subscrCol d)"
  by (simp_all add: db_wf_def)

lemma db_wf_queue [simp]: "db_wf d \<Longrightarrow> col_wf q \<Longrightarrow> db_wf (d\<lparr>db_queueCol := q\<rparr>)"
  by (simp add: db_wf_def)

lemma db_wf_create_subscription [simp]:
  assumes "db_wf d"
  shows "db_wf (d\<lparr>db_subscrCol := snd (CreateDocument same_client sub (db_subscrCol d))\<rparr>)"
proof -
  have wf: "col_wf (db_subscrCol d)" by (rule db_wfD [OF assms])
  have "dsub_ClientID b \<noteq> dsub_ClientID sub"
    if "\<not> list_ex (\<lambda>(k, b). same_client sub b) (col_docs (db_subscrCol d))"
      and "map_of (col_docs (db_subscrCol d)) j = Some b" for j b
    using that map_of_SomeD [OF that(2)] by (auto simp: list_ex_iff same_client_def)
  then show ?thesis using assms
    by (simp add: db_wf_def wf_request docs_create [OF wf]) (metis (no_types, lifting))
qed

lemma db_wf_renew [simp]:
  "db_wf d \<Longrightarrow> db_wf (d\<lparr>db_subscrCol := snd (UpdateDocument i (renew_doc now) (db_subscrCol d))\<rparr>)"
  by (auto simp: db_wf_def wf_request docs_update renew_doc_def split: if_splits)

lemma db_wf_remove_subscription [simp]:
  "db_wf d \<Longrightarrow> db_wf (d\<lparr>db_subscrCol := snd (RemoveDocument i (db_subscrCol d))\<rparr>)"
  by (auto simp: db_wf_def wf_request docs_remove)

interpretation wf_db: db_invariant db_wf "\<lambda>_. True" "\<lambda>_. True" "\<lambda>_. True" record_av for record_av
  by unfold_locales (auto simp: wf_request db_wfD)

section \<open>Values that stay\<close>

text \<open>The value \<open>v\<close> is queued for the link under the key \<open>k\<close>.\<close>

definition holds_value :: "int \<Rightarrow> AnnotatedValue \<Rightarrow> string \<Rightarrow> link_db \<Rightarrow> bool" where
  "holds_value k v link d \<longleftrightarrow> db_wf d
     \<and> (case map_of (col_docs (db_queueCol d)) k of
          Some doc \<Rightarrow> avd_Value doc = v \<and> avd_LinkName doc = link | None \<Rightarrow> False)"

definition acks :: "string \<Rightarrow> db_call \<Rightarrow> bool" where
  "acks avID q \<longleftrightarrow> (case q of CallAck i a \<Rightarrow> a = avID | _ \<Rightarrow> False)"

interpretation stays: db_invariant "holds_value k v link" "\<lambda>i. 0 < i" "\<lambda>j. j \<noteq> k"
    "\<lambda>q. \<not> acks (av_ID v) q" record_av for k v link record_av
  by unfold_locales
    (auto simp: holds_value_def wf_request db_wfD docs_update_where docs_remove acks_def create_keeps
      split: option.splits dest: col_wfD(1) [OF db_wfD(2)])

text \<open>
  A value assigned to a subscription that does not exist any more.  IDs of subscriptions are not
  used again.
\<close>

definition orphaned :: "int \<Rightarrow> avDocument \<Rightarrow> link_db \<Rightarrow> bool" where
  "orphaned k doc d \<longleftrightarrow> db_wf d \<and> map_of (col_docs (db_queueCol d)) k = Some doc
     \<and> map_of (col_docs (db_subscrCol d)) (avd_SubscriptionID doc) = None
     \<and> 0 < avd_SubscriptionID doc \<and> avd_SubscriptionID doc \<le> col_last (db_subscrCol d)"

interpretation orphan: db_invariant "orphaned k doc" "\<lambda>i. 0 < i \<and> i \<noteq> avd_SubscriptionID doc"
    "\<lambda>j. j \<noteq> k" "\<lambda>_. True" record_av for k doc record_av
  by unfold_locales
    (auto simp: orphaned_def wf_request db_wfD docs_update_where docs_remove docs_update create_keeps
      create_absent unassigned_def
      intro: order_trans [OF _ col_last_create] dest: col_wfD(1) [OF db_wfD(2)])

text \<open>A value assigned to a subscription, in a time in which no subscription is closed or expires.\<close>

definition assigned :: "int \<Rightarrow> avDocument \<Rightarrow> link_db \<Rightarrow> bool" where
  "assigned k doc d \<longleftrightarrow> db_wf d \<and> map_of (col_docs (db_queueCol d)) k = Some doc
     \<and> 0 < avd_SubscriptionID doc"

definition gives_back :: "db_call \<Rightarrow> bool" where
  "gives_back q \<longleftrightarrow> (case q of CallClose i \<Rightarrow> True | CallGC \<Rightarrow> True | _ \<Rightarrow> False)"

interpretation stranded: db_invariant "assigned k doc" "\<lambda>i. 0 < i" "\<lambda>j. j \<noteq> k"
    "\<lambda>q. \<not> gives_back q \<and> \<not> acks (av_ID (avd_Value doc)) q" record_av for k doc record_av
  by unfold_locales
    (auto simp: assigned_def wf_request db_wfD docs_update_where docs_remove acks_def create_keeps
      gives_back_def unassigned_def dest: col_wfD(1) [OF db_wfD(2)])

end
