(* ===== verification/Link_DB_Runs.thy ===== *)
theory Link_DB_Runs
  imports Link_DB_Values
begin

text \<open>
  Calls of the database link that run alone: what \<open>Next\<close>, \<open>Subscribe\<close>, \<open>Ping\<close>, \<open>Close\<close> and \<open>Ack\<close>
  answer and do when every request works, what they answer whatever the database does, and how
  long \<open>Next\<close> waits.
\<close>

section \<open>Runs of requests\<close>

lemma run_db_request:
  "run_prog (db_request out f) s =
     (fst (request_db out f (dw_db s)), s\<lparr>dw_db := snd (request_db out f (dw_db s))\<rparr>)"
  by (simp add: db_request_def case_prod_beta)

lemma run_masked: "run_prog (masked p) s = (mask_result (fst (run_prog p s)), snd (run_prog p s))"
  by (simp add: masked_def case_prod_beta)

lemma run_or_fail:
  "run_prog (or_fail p h k) s = (case fst (run_prog p s) of
     Inl e \<Rightarrow> (h e, snd (run_prog p s)) | Inr x \<Rightarrow> run_prog (k x) (snd (run_prog p s)))"
  by (auto simp: or_fail_def case_prod_beta split: sum.splits)

lemma run_update_stats [simp]:
  "run_prog (update_stats l f) s = ((), s\<lparr>dw_stats := (dw_stats s)(l := f (dw_stats s l))\<rparr>)"
  by (simp add: update_stats_def)

abbreviation subscr_docs :: "'w db_world \<Rightarrow> (int, db_subscription) gomap" where
  "subscr_docs s \<equiv> col_docs (db_subscrCol (dw_db s))"

abbreviation queue_docs :: "'w db_world \<Rightarrow> (int, avDocument) gomap" where
  "queue_docs s \<equiv> col_docs (db_queueCol (dw_db s))"

definition set_queue :: "(avDocument collection \<Rightarrow> avDocument collection) \<Rightarrow> 'w db_world \<Rightarrow> 'w db_world" where
  "set_queue f s = s\<lparr>dw_db := (dw_db s)\<lparr>db_queueCol := f (db_queueCol (dw_db s))\<rparr>\<rparr>"

definition set_subscr :: "(db_subscription collection \<Rightarrow> db_subscription collection) \<Rightarrow> 'w db_world \<Rightarrow> 'w db_world" where
  "set_subscr f s = s\<lparr>dw_db := (dw_db s)\<lparr>db_subscrCol := f (db_subscrCol (dw_db s))\<rparr>\<rparr>"

lemma set_simps [simp]:
  "db_queueCol (dw_db (set_queue f s)) = f (db_queueCol (dw_db s))"
  "db_subscrCol (dw_db (set_queue f s)) = db_subscrCol (dw_db s)"
  "db_queueCol (dw_db (set_subscr g s)) = db_queueCol (dw_db s)"
  "db_subscrCol (dw_db (set_subscr g s)) = g (db_subscrCol (dw_db s))"
  "dw_stats (set_queue f s) = dw_stats s" "dw_stats (set_subscr g s) = dw_stats s"
  "dw_registry (set_queue f s) = dw_registry s" "dw_registry (set_subscr g s) = dw_registry s"
  by (simp_all add: set_queue_def set_subscr_def)

lemma run_get:
  "run_prog (getSubscriptionByID Works i) s =
     (case map_of (subscr_docs s) i of
        Some sub \<Rightarrow> (Inr (i, sub), s) | None \<Rightarrow> (Inl (WithStack (ArangoError 404 1202)), s))"
  by (auto simp: getSubscriptionByID_def run_masked run_db_request on_subscr_def ReadDocument_def
      split: option.splits)

lemma run_renew:
  "map_of (subscr_docs s) (fst h) = Some sub \<Longrightarrow>
     run_prog (RenewExpiresAt_db Works now h) s =
       (Inr (), set_subscr (\<lambda>c. snd (UpdateDocument (fst h) (renew_doc now) c)) s)"
  by (simp add: RenewExpiresAt_db_def run_masked run_db_request UpdateDocument_def set_subscr_def
      renew_doc_def)

lemma run_unassign:
  "run_prog (UnassignQueueValues Works h) s =
     (Inr (), set_queue (update_where (\<lambda>doc. avd_SubscriptionID doc = fst h)
        (avd_SubscriptionID_update (\<lambda>_. 0))) s)"
  by (simp add: UnassignQueueValues_def run_masked run_db_request set_queue_def)

lemma run_remove_subscription:
  "map_of (subscr_docs s) (fst h) = Some sub \<Longrightarrow>
     run_prog (subscription_Remove Works h) s =
       (Inr (), set_subscr (\<lambda>c. snd (RemoveDocument (fst h) c)) s)"
  by (simp add: subscription_Remove_def run_masked run_db_request RemoveDocument_def set_subscr_def)

definition first_of :: "'a list \<Rightarrow> 'a option" where
  "first_of xs = (case xs of [] \<Rightarrow> None | x # ys \<Rightarrow> Some x)"

lemma first_of_simps [simp]: "first_of [] = None" "first_of (x # xs) = Some x"
  "first_of (map f xs) = map_option f (first_of xs)"
  by (auto simp: first_of_def split: list.splits)

lemma first_of_None [simp]: "first_of xs = None \<longleftrightarrow> xs = []"
  by (simp add: first_of_def split: list.splits)

lemma first_of_in: "first_of xs = Some x \<Longrightarrow> x \<in> set xs"
  by (auto simp: first_of_def split: list.splits)

lemma run_assign:
  "run_prog (AssignFirstValue Works rank h) s =
     (Inr (map_option (\<lambda>(k, d). (k, d\<lparr>avd_SubscriptionID := fst h\<rparr>))
        (first_of (scan rank (unassigned (dsub_LinkName (snd h))) (db_queueCol (dw_db s))))),
      set_queue (update_where (unassigned (dsub_LinkName (snd h)))
        (avd_SubscriptionID_update (\<lambda>_. fst h))) s)"
  by (simp add: AssignFirstValue_def Let_def run_masked run_db_request set_queue_def scan_updated_def
      flip: first_of_def)

definition waiting_docs :: "string \<Rightarrow> 'w db_world \<Rightarrow> int" where
  "waiting_docs link s = int (length (filter (\<lambda>(k, doc). unassigned link doc) (queue_docs s)))"

lemma run_store_waiting:
  "run_prog (store_waiting Works l) s =
     ((), s\<lparr>dw_stats := (dw_stats s)(dl_linkName l :=
        (dw_stats s (dl_linkName l))\<lparr>ls_AnnotatedValuesWaiting := waiting_docs (dl_linkName l) s\<rparr>)\<rparr>)"
  by (simp add: store_waiting_def collectUnassignedQueueStats_def case_prod_beta run_masked
      run_db_request waiting_docs_def)

definition all_work :: "call_env \<Rightarrow> bool" where
  "all_work env \<longleftrightarrow> (\<forall>n. ce_db env n = Works)"

lemma scan_empty: "scan rank p c = [] \<longleftrightarrow> (\<forall>k d. (k, d) \<in> set (col_docs c) \<longrightarrow> \<not> p d)"
proof -
  have "scan rank p c = [] \<longleftrightarrow> set (scan rank p c) = {}" by (simp only: set_empty)
  then show ?thesis by auto
qed

text \<open>One round of \<open>Next\<close> with a value waiting.\<close>

lemma run_next_found:
  assumes "all_work env" and "map_of (subscr_docs s) i = Some sub"
    and "first_of (scan (ce_rank env r) (unassigned (dsub_LinkName sub)) (db_queueCol (dw_db s))) = Some (k, doc)"
    and "run_prog (next_rounds (Suc n) env l i endTime r) s = (a, t)"
  shows "a = Some (Inr (Some (avd_Value doc)))
    \<and> db_queueCol (dw_db t) = update_where (unassigned (dsub_LinkName sub))
        (avd_SubscriptionID_update (\<lambda>_. i)) (db_queueCol (dw_db s))
    \<and> ls_AnnotatedValuesInProgress (dw_stats t (dl_linkName l)) =
        ls_AnnotatedValuesInProgress (dw_stats s (dl_linkName l)) + 1
    \<and> ls_AnnotatedValuesWaiting (dw_stats t (dl_linkName l)) = waiting_docs (dl_linkName l) t"
proof -
  have w: "ce_db env n = Works" for n using assms(1) by (simp add: all_work_def)
  have "map_of (subscr_docs s) (fst (i, sub)) = Some sub" using assms(2) by simp
  note renew = run_renew [OF this]
  show ?thesis using assms(4)
    by (auto simp: run_or_fail run_get assms(2,3) w renew run_assign run_store_waiting waiting_docs_def)
qed

lemma run_next_empty:
  assumes "all_work env" and "map_of (subscr_docs s) i = Some sub"
    and "scan (ce_rank env r) (unassigned (dsub_LinkName sub)) (db_queueCol (dw_db s)) = []"
  shows "\<exists>t. run_prog (next_rounds (Suc n) env l i endTime r) s =
      (if db_delay endTime (ce_clock env (2 * r + 2)) \<le> 0 then (Some (Inr None), t)
       else if ce_done env r then (Some (Inl ContextDone), t)
       else run_prog (next_rounds n env l i endTime (Suc r)) t)
    \<and> db_queueCol (dw_db t) = db_queueCol (dw_db s)
    \<and> (\<exists>sub'. map_of (subscr_docs t) i = Some sub' \<and> dsub_LinkName sub' = dsub_LinkName sub)"
proof -
  have w: "ce_db env n = Works" for n using assms(1) by (simp add: all_work_def)
  have "map_of (subscr_docs s) (fst (i, sub)) = Some sub" using assms(2) by simp
  note renew = run_renew [OF this]
  let ?t = "set_queue (update_where (unassigned (dsub_LinkName sub)) (avd_SubscriptionID_update (\<lambda>_. i)))
      (set_subscr (\<lambda>c. snd (UpdateDocument i (renew_doc (ce_clock env (2 * r + 1))) c)) s)"
  have "\<forall>k d. (k, d) \<in> set (queue_docs s) \<longrightarrow> \<not> unassigned (dsub_LinkName sub) d"
    using assms(3) by (simp only: scan_empty)
  then have "update_where (unassigned (dsub_LinkName sub)) (avd_SubscriptionID_update (\<lambda>_. i))
      (db_queueCol (dw_db s)) = db_queueCol (dw_db s)"
    by (auto simp: update_where_def intro!: collection.equality map_idI)
  moreover have "run_prog (next_rounds (Suc n) env l i endTime r) s =
      (if db_delay endTime (ce_clock env (2 * r + 2)) \<le> 0 then (Some (Inr None), ?t)
       else if ce_done env r then (Some (Inl ContextDone), ?t)
       else run_prog (next_rounds n env l i endTime (Suc r)) ?t)"
    by (simp add: run_or_fail run_get assms(2,3) w renew run_assign Let_def)
  ultimately show ?thesis using assms(2) by (intro exI [of _ ?t]) (simp add: docs_update renew_doc_def)
qed

text \<open>A value that \<open>Next\<close> returns was waiting for the link of the subscription.\<close>

lemma run_next_value:
  assumes "all_work env" and "map_of (subscr_docs s) i = Some sub"
    and "fst (run_prog (next_rounds n env l i endTime r) s) = Some (Inr (Some v))"
  shows "\<exists>k doc. (k, doc) \<in> set (queue_docs s) \<and> unassigned (dsub_LinkName sub) doc \<and> avd_Value doc = v"
  using assms(2,3)
proof (induction n arbitrary: s sub r)
  case (Suc n)
  let ?w = "scan (ce_rank env r) (unassigned (dsub_LinkName sub)) (db_queueCol (dw_db s))"
  show ?case
  proof (cases "first_of ?w")
    case None
    then obtain t sub' where t: "run_prog (next_rounds (Suc n) env l i endTime r) s =
        (if db_delay endTime (ce_clock env (2 * r + 2)) \<le> 0 then (Some (Inr None), t)
         else if ce_done env r then (Some (Inl ContextDone), t)
         else run_prog (next_rounds n env l i endTime (Suc r)) t)"
      "db_queueCol (dw_db t) = db_queueCol (dw_db s)"
      "map_of (subscr_docs t) i = Some sub'" "dsub_LinkName sub' = dsub_LinkName sub"
      using run_next_empty [OF assms(1) Suc.prems(1), of r n l endTime] by auto
    then have "fst (run_prog (next_rounds n env l i endTime (Suc r)) t) = Some (Inr (Some v))"
      using Suc.prems(2) by (simp only: t(1)) (simp split: if_splits)
    from Suc.IH [OF t(3) this] t(2,4) show ?thesis by simp
  next
    case (Some d)
    obtain k doc where d: "d = (k, doc)" by (cases d)
    obtain a t where run: "run_prog (next_rounds (Suc n) env l i endTime r) s = (a, t)" by (cases "run_prog (next_rounds (Suc n) env l i endTime r) s")
    have "avd_Value doc = v"
      using run_next_found [OF assms(1) Suc.prems(1) Some [unfolded d] run] Suc.prems(2) run by simp
    moreover have "(k, doc) \<in> set ?w" using first_of_in [OF Some] d by (simp only:)
    ultimately show ?thesis by auto
  qed
qed simp

section \<open>Waiting\<close>

text \<open>\<open>time.After(delay)\<close> fires when at least \<open>delay\<close> has passed.\<close>

definition timer_fires :: "call_env \<Rightarrow> int \<Rightarrow> bool" where
  "timer_fires env endTime \<longleftrightarrow> (\<forall>r. 0 < db_delay endTime (ce_clock env (2 * r + 2)) \<longrightarrow>
     ce_clock env (2 * r + 2) + db_delay endTime (ce_clock env (2 * r + 2)) \<le> ce_clock env (2 * r + 4))"

lemma guar_any: "guar (\<lambda>_. True) (\<lambda>_ _. True) (\<lambda>_. True) p"
  by (induction p) simp_all

lemma answers_or_fail:
  assumes "\<And>x. guar (\<lambda>_. True) (\<lambda>_ _. True) (\<lambda>a. a \<noteq> None) (k x)"
  shows "guar (\<lambda>_. True) (\<lambda>_ _. True) (\<lambda>a. a \<noteq> None) (or_fail p (Some \<circ> h) k)"
  unfolding or_fail_def
proof (rule guar_bind [OF guar_any])
  show "guar (\<lambda>_. True) (\<lambda>_ _. True) (\<lambda>a. a \<noteq> None)
      (case r of Inl e \<Rightarrow> Return ((Some \<circ> h) e) | Inr x \<Rightarrow> k x)" for r
    by (cases r) (simp_all add: assms [simplified])
qed

lemma rounds_answer:
  assumes "timer_fires env endTime" and "endTime - ce_clock env (2 * r + 2) \<le> int n * nextRetryPeriod"
  shows "guar (\<lambda>_. True) (\<lambda>_ _. True) (\<lambda>a. a \<noteq> None)
    (next_rounds (Suc n) env l i endTime r :: ('w db_world, (db_link_error, AnnotatedValue option) go_result option) prog)"
  using assms(2)
proof (induction n arbitrary: r)
  have round: "guar (\<lambda>_. True) (\<lambda>_ _. True) (\<lambda>a. a \<noteq> None)
      (next_rounds (Suc m) env l i endTime r :: ('w db_world, (db_link_error, AnnotatedValue option) go_result option) prog)"
    if "db_delay endTime (ce_clock env (2 * r + 2)) > 0 \<Longrightarrow>
      guar (\<lambda>_. True) (\<lambda>_ _. True) (\<lambda>a. a \<noteq> None)
        (next_rounds m env l i endTime (Suc r) :: ('w db_world, (db_link_error, AnnotatedValue option) go_result option) prog)" for m r
    using that unfolding next_rounds.simps comp_assoc
    by (intro answers_or_fail) (auto simp: Let_def not_le intro!: guar_bind [OF guar_any]
        split: option.splits)
  {
    case 0
    then show ?case using round [of r 0] by (simp add: db_delay_def Let_def nextRetryPeriod_def split: if_splits)
  next
    case (Suc n)
    have "endTime - ce_clock env (2 * Suc r + 2) \<le> int n * nextRetryPeriod"
      if "db_delay endTime (ce_clock env (2 * r + 2)) > 0"
    proof -
      define now later where "now = ce_clock env (2 * r + 2)" and "later = ce_clock env (2 * r + 4)"
      have "2 * Suc r + 2 = 2 * r + 4" by simp
      then have later: "ce_clock env (2 * Suc r + 2) = later" unfolding later_def by (rule arg_cong)
      have "now + db_delay endTime now \<le> later"
        using assms(1) that by (simp only: timer_fires_def now_def later_def)
      moreover have "endTime - now \<le> int (Suc n) * nextRetryPeriod"
        using Suc.prems by (simp only: now_def)
      ultimately show ?thesis unfolding later
        by (auto simp: db_delay_def Let_def nextRetryPeriod_def algebra_simps split: if_splits)
    qed
    then show ?case using round [of r "Suc n"] Suc.IH [of "Suc r"] by simp
  }
qed

end
