(* ===== verification/Link_DB_Delivery.thy ===== *)
theory Link_DB_Delivery
  imports Link_DB_Runs
begin

text \<open>
  What the database link promises to the tasks at its two ends, and where it does not keep it: the
  properties of \<open>Link_DB\<close>, with a small database as the example.
\<close>

section \<open>Calls that are interrupted\<close>

text \<open>One request of the first call of a pool, and a call made without interruption.\<close>

primrec step_prog :: "('s, 'r) prog \<Rightarrow> 's \<Rightarrow> ('s, 'r) prog \<times> 's" where
  "step_prog (Return r) s = (Return r, s)"
| "step_prog (Request f) s = f s"

lemma reach_step_prog:
  assumes "reach init (pool_trans calls) (s, add_mset q ps)"
  shows "reach init (pool_trans calls) (snd (step_prog q s), add_mset (fst (step_prog q s)) ps)"
proof (cases q)
  case (Request f)
  have "pool_trans calls (s, add_mset q ps) Requested
      (snd (f s), add_mset (fst (f s)) (add_mset q ps - {#Request f#}))"
    using Request by (intro pool_trans.request) simp
  with assms Request show ?thesis by (auto intro: reach_step)
qed (use assms in simp)

lemma reach_finish:
  assumes "reach init (pool_trans calls) (s, add_mset q ps)"
  shows "reach init (pool_trans calls) (snd (run_prog q s), ps)"
  using assms
proof (induction q arbitrary: s)
  case (Return r)
  have "pool_trans calls (s, add_mset (Return r) ps) (Answered r) (s, add_mset (Return r) ps - {#Return r#})"
    by (rule pool_trans.answer) simp
  with Return show ?case by (auto intro: reach_step)
next
  case (Request f)
  then have "reach init (pool_trans calls) (snd (f s), add_mset (fst (f s)) ps)"
    using reach_step_prog [of init calls s "Request f" ps] by simp
  from Request.IH [OF this] show ?case by (simp add: case_prod_beta)
qed

lemma reach_start:
  assumes "reach init (pool_trans calls) (s, ps)" and "q \<in> calls"
  shows "reach init (pool_trans calls) (s, add_mset q ps)"
  using assms by (auto intro: reach_step pool_trans.start)

section \<open>An example\<close>

definition sure :: call_env where
  "sure = \<lparr>ce_db = \<lambda>_. Works, ce_clock = \<lambda>_. 0, ce_done = \<lambda>_. False, ce_rank = \<lambda>_ k. k\<rparr>"

definition link_a :: db_link where "link_a = \<lparr>dl_linkName = ''a'', dl_uri = ''uri-a''\<rparr>"
definition link_b :: db_link where "link_b = \<lparr>dl_linkName = ''b'', dl_uri = ''uri-b''\<rparr>"

definition keep_no_record :: "unit \<Rightarrow> AnnotatedValue \<Rightarrow> unit option" where
  "keep_no_record u av = Some ()"

definition empty_world :: "unit db_world" where
  "empty_world = \<lparr>dw_db = \<lparr>db_queueCol = empty_collection, db_subscrCol = empty_collection\<rparr>,
     dw_stats = \<lambda>l. \<lparr>ls_Name = l, ls_URI = [], ls_AnnotatedValuesWaiting = 0,
       ls_AnnotatedValuesInProgress = 0, ls_AnnotatedValuesAcknowledged = 0\<rparr>,
     dw_registry = ()\<rparr>"

fun serve_all :: "(db_link \<times> db_call) list \<Rightarrow> unit db_world \<Rightarrow> unit db_world" where
  "serve_all [] s = s"
| "serve_all ((l, q) # qs) s = serve_all qs (snd (run_prog (db_serve keep_no_record sure l q) s))"

text \<open>Values \<open>x\<close> and \<open>y\<close> wait in link \<open>a\<close>, to which the client \<open>me\<close> has subscribed.\<close>

definition two_waiting :: "unit db_world" where
  "two_waiting = serve_all [(link_a, CallPublish (example_av ''x'' [])),
     (link_a, CallPublish (example_av ''y'' [])), (link_a, CallSubscribe ''me'')] empty_world"

definition no_wait :: "Duration option" where
  "no_wait = Some \<lparr>du_Seconds = 0, du_Nanos = 0\<rparr>"

lemma no_wait_zero: "DurationFromProto no_wait = Some 0"
  by (simp add: no_wait_def DurationFromProto_def validateDuration_def duration_maxSeconds_def
      int64_def whole_seconds_def)

lemma sure_works [simp]: "all_work sure" by (simp add: all_work_def sure_def)

lemma two_waiting_facts:
  "map (\<lambda>(k, d). (k, avd_LinkName d, avd_SubscriptionID d, av_ID (avd_Value d))) (queue_docs two_waiting)
     = [(1, ''a'', 0, ''x''), (2, ''a'', 0, ''y'')]"
  "map (\<lambda>(k, sub). (k, dsub_ClientID sub, dsub_LinkName sub)) (subscr_docs two_waiting) = [(1, ''me'', ''a'')]"
  by code_simp+


lemma two_waiting_wf: "db_wf (dw_db two_waiting)"
proof -
  have start: "db_wf (dw_db empty_world)" by (simp add: db_wf_def empty_world_def)
      (simp add: empty_collection_def)
  have "db_wf (dw_db s) \<Longrightarrow> db_wf (dw_db (serve_all qs s))" for qs s
    by (induction qs s rule: serve_all.induct)
       (simp_all add: wf_db.invariant_run [where record_av = keep_no_record])
  with start show ?thesis by (simp only: two_waiting_def)
qed

lemma two_waiting_lookups:
  "map_option (\<lambda>d. (avd_LinkName d, avd_SubscriptionID d, av_ID (avd_Value d))) (map_of (queue_docs two_waiting) 1)
     = Some (''a'', 0, ''x'')"
  "map_option (\<lambda>d. (avd_LinkName d, avd_SubscriptionID d, av_ID (avd_Value d))) (map_of (queue_docs two_waiting) 2)
     = Some (''a'', 0, ''y'')"
  "map_option (\<lambda>sub. (dsub_ClientID sub, dsub_LinkName sub)) (map_of (subscr_docs two_waiting) 1)
     = Some (''me'', ''a'')"
  by code_simp+

section \<open>Properties\<close>

text \<open>C3: A published value stays in the database until it is acknowledged: as long as no call
  acknowledges its ID, it is queued for its link, under any interleaving of the calls of any number
  of link agents, with requests that fail or whose answers are lost, with subscriptions that are
  closed and garbage collected.\<close>

theorem value_stays_until_acked:
  assumes "db_wf (dw_db s)" and "map_of (queue_docs s) k = Some doc"
    and "reach (\<lambda>c. c = (s, {#})) (pool_trans (db_calls record_av (\<lambda>q. \<not> acks (av_ID (avd_Value doc)) q)))
      (t, ps)"
  shows "\<exists>doc'. map_of (queue_docs t) k = Some doc' \<and> avd_Value doc' = avd_Value doc
    \<and> avd_LinkName doc' = avd_LinkName doc"
  using stays.invariant_later [OF assms(3), where link = "avd_LinkName doc" and k = k] assms(1,2)
  by (auto simp: holds_value_def split: option.splits)

lemma value_stays_until_acked_witness:
  "\<exists>doc'. map_of (queue_docs two_waiting) 1 = Some doc' \<and> avd_LinkName doc' = ''a''"
proof -
  obtain doc where doc: "map_of (queue_docs two_waiting) 1 = Some doc" "avd_LinkName doc = ''a''"
    using two_waiting_lookups(1) by auto
  have "reach (\<lambda>c. c = (two_waiting, {#})) (pool_trans (db_calls keep_no_record
      (\<lambda>q. \<not> acks (av_ID (avd_Value doc)) q))) (two_waiting, {#})"
    by (rule reach_init) (rule refl)
  from value_stays_until_acked [OF two_waiting_wf doc(1) this] doc(2) show ?thesis by auto
qed

text \<open>C4: One call of \<open>Next\<close> takes all values that wait in the link and returns one of them: the
  query of \<open>AssignFirstValue\<close> has no limit, so all of them are assigned to the subscription.  The
  waiting count falls to zero while the in-progress count rises by one, so the publisher may go on,
  and as long as no subscription is closed or expires and none of the IDs is acknowledged, the other
  values stay assigned, and no later call of \<open>Next\<close> looks at them.\<close>

theorem next_takes_all_waiting:
  assumes "db_wf (dw_db s)" and "all_work env" and "map_of (subscr_docs s) i = Some sub"
    and "dsub_LinkName sub = dl_linkName l" and "DurationFromProto wait = Some w"
    and "map_of (queue_docs s) k = Some doc" and "unassigned (dl_linkName l) doc"
    and "run_prog (db_Next (Suc n) env l i wait) s = (a, t)"
  shows "(\<exists>j first. map_of (queue_docs s) j = Some first \<and> unassigned (dl_linkName l) first
      \<and> a = Some (Inr (Some (avd_Value first))))
    \<and> ls_AnnotatedValuesWaiting (dw_stats t (dl_linkName l)) = 0
    \<and> ls_AnnotatedValuesInProgress (dw_stats t (dl_linkName l)) =
        ls_AnnotatedValuesInProgress (dw_stats s (dl_linkName l)) + 1
    \<and> fst (run_prog (db_CanPublish l) t)
    \<and> (reach (\<lambda>c. c = (t, {#})) (pool_trans (db_calls record_av
          (\<lambda>q. \<not> gives_back q \<and> \<not> acks (av_ID (avd_Value doc)) q))) (u, ps)
        \<longrightarrow> map_of (queue_docs u) k = Some (doc\<lparr>avd_SubscriptionID := i\<rparr>))"
proof -
  let ?q = "db_queueCol (dw_db s)" and ?p = "unassigned (dl_linkName l)"
  have wf: "col_wf ?q" and i: "0 < i"
    using assms(1) col_wfD(1) [OF db_wfD(2) assms(3)] by (auto simp: db_wfD)
  have mem: "(k, doc) \<in> set (scan (ce_rank env 0) ?p ?q)"
    using assms(6,7) by (simp only: scan_in [OF wf])
  obtain j first where f: "first_of (scan (ce_rank env 0) ?p ?q) = Some (j, first)"
    using mem by (cases "scan (ce_rank env 0) ?p ?q") auto
  have "(j, first) \<in> set (scan (ce_rank env 0) ?p ?q)" using f by (rule first_of_in)
  then have first: "map_of (queue_docs s) j = Some first" "?p first"
    by (simp_all only: scan_in [OF wf])
  have t: "a = Some (Inr (Some (avd_Value first)))"
    "db_queueCol (dw_db t) = update_where ?p (avd_SubscriptionID_update (\<lambda>_. i)) ?q"
    "ls_AnnotatedValuesInProgress (dw_stats t (dl_linkName l)) =
        ls_AnnotatedValuesInProgress (dw_stats s (dl_linkName l)) + 1"
    "ls_AnnotatedValuesWaiting (dw_stats t (dl_linkName l)) = waiting_docs (dl_linkName l) t"
    using run_next_found [of env s i sub 0 j first n l "ce_clock env 0 + w" a t] f assms(2-5,8)
    by (simp_all add: db_Next_def)
  have "map_of (queue_docs t) k = Some (doc\<lparr>avd_SubscriptionID := i\<rparr>)"
    using assms(6,7) by (simp add: t(2) docs_update_where)
  moreover have "db_wf (dw_db t)"
    using wf_db.invariant_run [where q = "CallNext i wait (Suc n)" and s = s and env = env and l = l]
      assms(1,8) by (simp add: answered_def)
  ultimately have "assigned k (doc\<lparr>avd_SubscriptionID := i\<rparr>) (dw_db t)"
    using i by (simp add: assigned_def)
  then have later: "map_of (queue_docs u) k = Some (doc\<lparr>avd_SubscriptionID := i\<rparr>)"
    if "reach (\<lambda>c. c = (t, {#})) (pool_trans (db_calls record_av
          (\<lambda>q. \<not> gives_back q \<and> \<not> acks (av_ID (avd_Value doc)) q))) (u, ps)"
    using stranded.invariant_later [where s = t and t = u and ps = ps and record_av = record_av
        and doc = "doc\<lparr>avd_SubscriptionID := i\<rparr>" and k = k] that by (simp add: assigned_def)
  have "waiting_docs (dl_linkName l) t = 0"
    using i by (auto simp: waiting_docs_def t(2) update_where_def unassigned_def filter_empty_conv
        split: if_splits)
  then show ?thesis using t first later
    by (auto simp: db_CanPublish_def db_maxAnnotatedValuesWaiting_def)
qed

lemma two_waiting_subscription:
  "\<exists>sub. map_of (subscr_docs two_waiting) 1 = Some sub \<and> dsub_LinkName sub = dl_linkName link_a
     \<and> dsub_ClientID sub = ''me''"
  using two_waiting_lookups(3) by (auto simp: link_a_def)

lemma two_waiting_values:
  "\<exists>x y. map_of (queue_docs two_waiting) 1 = Some x \<and> unassigned (dl_linkName link_a) x
     \<and> map_of (queue_docs two_waiting) 2 = Some y \<and> unassigned (dl_linkName link_a) y
     \<and> av_ID (avd_Value x) = ''x'' \<and> av_ID (avd_Value y) = ''y''"
  using two_waiting_lookups(1,2) by (auto simp: link_a_def unassigned_def)

definition after_next :: "unit db_world" where
  "after_next = snd (run_prog (db_Next 1 sure link_a 1 no_wait) two_waiting)"

lemma after_next_run:
  "run_prog (db_Next 1 sure link_a 1 no_wait) two_waiting =
     (fst (run_prog (db_Next 1 sure link_a 1 no_wait) two_waiting), after_next)"
  by (simp add: after_next_def)

lemma next_takes_all_waiting_witness:
  "map_option avd_SubscriptionID (map_of (queue_docs after_next) 1) = Some 1
   \<and> map_option avd_SubscriptionID (map_of (queue_docs after_next) 2) = Some 1
   \<and> fst (run_prog (db_CanPublish link_a) after_next)"
proof -
  obtain sub where sub: "map_of (subscr_docs two_waiting) 1 = Some sub"
    "dsub_LinkName sub = dl_linkName link_a" using two_waiting_subscription by blast
  obtain x y where xy: "map_of (queue_docs two_waiting) 1 = Some x" "unassigned (dl_linkName link_a) x"
    "map_of (queue_docs two_waiting) 2 = Some y" "unassigned (dl_linkName link_a) y"
    using two_waiting_values by blast
  have start: "reach (\<lambda>c. c = (after_next, {#})) tr (after_next, {#})" for tr
    by (rule reach_init) (rule refl)
  have run: "run_prog (db_Next (Suc 0) sure link_a 1 no_wait) two_waiting =
      (fst (run_prog (db_Next 1 sure link_a 1 no_wait) two_waiting), after_next)"
    using after_next_run by simp
  note step = next_takes_all_waiting [OF two_waiting_wf sure_works sub no_wait_zero _ _ run,
      where record_av = keep_no_record and u = after_next and ps = "{#}"]
  have "map_of (queue_docs after_next) 1 = Some (x\<lparr>avd_SubscriptionID := 1\<rparr>)"
    using step [OF xy(1,2)] start by blast
  moreover have "map_of (queue_docs after_next) 2 = Some (y\<lparr>avd_SubscriptionID := 1\<rparr>)"
    using step [OF xy(3,4)] start by blast
  ultimately show ?thesis using step [OF xy(1,2)] by simp
qed

section \<open>Orphaned values\<close>

text \<open>C5: When a subscription is gone while a value is still assigned to it, no call that starts
  later delivers, gives back or acknowledges the value: whatever calls are made, it stays assigned
  to a subscription that nobody can use, for IDs of subscriptions are not used again.\<close>

theorem orphaned_value_is_lost:
  assumes "db_wf (dw_db s)" and "map_of (queue_docs s) k = Some doc"
    and "map_of (subscr_docs s) (avd_SubscriptionID doc) = None"
    and "0 < avd_SubscriptionID doc" and "avd_SubscriptionID doc \<le> col_last (db_subscrCol (dw_db s))"
    and "reach (\<lambda>c. c = (s, {#})) (pool_trans (db_calls record_av (\<lambda>_. True))) (t, ps)"
  shows "map_of (queue_docs t) k = Some doc
    \<and> map_of (subscr_docs t) (avd_SubscriptionID doc) = None"
  using orphan.invariant_later [OF assms(6), where k = k and doc = doc] assms(1-5)
  by (simp add: orphaned_def)

text \<open>The schedule that orphans the two values of the example: a call of \<open>Next\<close> reads and renews its
  subscription, the subscription is closed, and the call goes on.\<close>

definition next_prog :: "(unit db_world, db_answer) prog" where
  "next_prog = db_serve keep_no_record sure link_a (CallNext 1 no_wait 1)"

definition next_read :: "(unit db_world, db_answer) prog \<times> unit db_world" where
  "next_read = (case step_prog next_prog two_waiting of (q, s) \<Rightarrow> step_prog q s)"

definition closed_meanwhile :: "unit db_world" where
  "closed_meanwhile = snd (run_prog (db_serve keep_no_record sure link_a (CallClose 1)) (snd next_read))"

definition orphaned_world :: "unit db_world" where
  "orphaned_world = snd (run_prog (fst next_read) closed_meanwhile)"

lemma orphaned_world_reachable:
  "reach (\<lambda>c. c = (two_waiting, {#})) (pool_trans (db_calls keep_no_record (\<lambda>_. True)))
     (orphaned_world, {#})"
proof -
  let ?init = "\<lambda>c. c = (two_waiting, {#})" and ?calls = "db_calls keep_no_record (\<lambda>_. True)"
  let ?close = "db_serve keep_no_record sure link_a (CallClose 1)"
  have calls: "next_prog \<in> ?calls" "?close \<in> ?calls"
    unfolding db_calls_def next_prog_def by blast+
  have "reach ?init (pool_trans ?calls) (two_waiting, {#})" by (rule reach_init) (rule refl)
  then have "reach ?init (pool_trans ?calls) (two_waiting, {#next_prog#})"
    using calls(1) by (rule reach_start)
  then have "reach ?init (pool_trans ?calls) (snd next_read, {#fst next_read#})"
    by (auto simp: next_read_def case_prod_beta dest!: reach_step_prog)
  then have "reach ?init (pool_trans ?calls) (snd next_read, {#?close, fst next_read#})"
    using calls(2) by (rule reach_start)
  then have "reach ?init (pool_trans ?calls) (closed_meanwhile, {#fst next_read#})"
    unfolding closed_meanwhile_def by (rule reach_finish)
  then show ?thesis unfolding orphaned_world_def by (rule reach_finish)
qed

lemma orphaned_world_facts:
  "map_option avd_SubscriptionID (map_of (queue_docs orphaned_world) 2) = Some 1"
  "map_of (subscr_docs orphaned_world) 1 = None"
  "col_last (db_subscrCol (dw_db orphaned_world)) = 1"
  by code_simp+

lemma orphaned_value_is_lost_witness:
  "reach (\<lambda>c. c = (two_waiting, {#})) (pool_trans (db_calls keep_no_record (\<lambda>_. True)))
     (orphaned_world, {#})
   \<and> map_of (subscr_docs orphaned_world) 1 = None
   \<and> map_option avd_SubscriptionID (map_of (queue_docs orphaned_world) 2) = Some 1
   \<and> db_wf (dw_db orphaned_world)"
proof -
  have wf: "db_wf (dw_db orphaned_world)"
    using wf_db.invariant_later [OF orphaned_world_reachable] two_waiting_wf by simp
  obtain doc where doc: "map_of (queue_docs orphaned_world) 2 = Some doc" "avd_SubscriptionID doc = 1"
    using orphaned_world_facts(1) by auto
  have start: "reach (\<lambda>c. c = (orphaned_world, {#})) (pool_trans (db_calls keep_no_record (\<lambda>_. True)))
      (orphaned_world, {#})"
    by (rule reach_init) (rule refl)
  from orphaned_value_is_lost [OF wf doc(1) _ _ _ start] orphaned_world_facts(2,3) doc(2) wf
  show ?thesis by (auto simp: doc orphaned_world_reachable)
qed

section \<open>Missing subscriptions\<close>

definition wrapped :: "(db_error, 'a) go_result \<Rightarrow> bool" where
  "wrapped r \<longleftrightarrow> (case r of Inl e \<Rightarrow> \<exists>c. e = WithStack c | Inr x \<Rightarrow> True)"

lemma masked_wrapped: "guar (\<lambda>_. True) (\<lambda>_ _. True) wrapped (masked p)"
  unfolding masked_def
  by (rule guar_bind [OF guar_any]) (auto simp: wrapped_def split: sum.splits)

lemma masked_wrapped_defs:
  "guar (\<lambda>_. True) (\<lambda>_ _. True) wrapped (getSubscriptionByID out i)"
  "guar (\<lambda>_. True) (\<lambda>_ _. True) wrapped (RenewExpiresAt_db out now h)"
  "guar (\<lambda>_. True) (\<lambda>_ _. True) wrapped (UnassignQueueValues out h)"
  "guar (\<lambda>_. True) (\<lambda>_ _. True) wrapped (subscription_Remove out h)"
  "guar (\<lambda>_. True) (\<lambda>_ _. True) wrapped (AssignFirstValue out rank h)"
  by (simp_all only: getSubscriptionByID_def RenewExpiresAt_db_def UnassignQueueValues_def
      subscription_Remove_def AssignFirstValue_def Let_def masked_wrapped)

lemma wrapped_or_fail:
  assumes "guar (\<lambda>_. True) (\<lambda>_ _. True) wrapped p" and "\<And>c. Q (h (WithStack c))"
    and "\<And>x. guar (\<lambda>_. True) (\<lambda>_ _. True) Q (k x)"
  shows "guar (\<lambda>_. True) (\<lambda>_ _. True) Q (or_fail p h k)"
  unfolding or_fail_def
  by (rule guar_bind [OF assms(1)]) (auto simp: wrapped_def assms(2,3) split: sum.splits)

lemma wrapped_errors [simp]:
  "lookup_error (WithStack c) = Status Code_Unknown" "grpc_error (WithStack c) = Status Code_Unknown"
  by (simp_all add: lookup_error_def grpc_error_def)

lemma next_never_not_found:
  "guar (\<lambda>_. True) (\<lambda>_ _. True) (\<lambda>a. a \<noteq> Some (Inl (Status Code_NotFound)))
     (next_rounds n env l i endTime r)"
proof (induction n arbitrary: r)
  case (Suc n)
  show ?case unfolding next_rounds.simps
    using Suc.IH
    by (intro wrapped_or_fail masked_wrapped_defs)
       (auto simp: Let_def intro!: guar_bind [OF guar_any] split: option.splits)
qed simp

text \<open>\<open>Ping\<close>, \<open>Close\<close> and \<open>Next\<close> never answer \<open>NotFound\<close>, whatever the database does and whatever
  other calls do in between: the error of a missing subscription is wrapped by \<open>maskAny\<close> before
  \<open>driver.IsNotFound\<close> and \<open>arangoErrorToGRPC\<close> look at it, so it is answered with \<open>Unknown\<close>, and the
  branches that answer \<open>NotFound\<close> are dead.\<close>

theorem missing_subscription_is_unknown:
  assumes "all_work env" and "map_of (subscr_docs s) i = None"
  shows "guar (\<lambda>_. True) (\<lambda>_ _. True) (\<lambda>r. r \<in> {None, Some (Status Code_Unknown)}) (db_Ping any j)
    \<and> guar (\<lambda>_. True) (\<lambda>_ _. True) (\<lambda>r. r \<in> {None, Some (Status Code_Unknown)}) (db_Close any j)
    \<and> guar (\<lambda>_. True) (\<lambda>_ _. True) (\<lambda>a. a \<noteq> Some (Inl (Status Code_NotFound))) (db_Next n any l j wait)
    \<and> fst (run_prog (db_Ping env i) s) = Some (Status Code_Unknown)"
proof (intro conjI)
  show "guar (\<lambda>_. True) (\<lambda>_ _. True) (\<lambda>r. r \<in> {None, Some (Status Code_Unknown)}) (db_Ping any j)"
    unfolding db_Ping_def by (intro wrapped_or_fail masked_wrapped_defs) simp_all
  show "guar (\<lambda>_. True) (\<lambda>_ _. True) (\<lambda>r. r \<in> {None, Some (Status Code_Unknown)}) (db_Close any j)"
    unfolding db_Close_def by (intro wrapped_or_fail masked_wrapped_defs) simp_all
  show "guar (\<lambda>_. True) (\<lambda>_ _. True) (\<lambda>a. a \<noteq> Some (Inl (Status Code_NotFound))) (db_Next n any l j wait)"
    unfolding db_Next_def by (auto simp: next_never_not_found split: option.split)
  show "fst (run_prog (db_Ping env i) s) = Some (Status Code_Unknown)"
    using assms by (simp add: db_Ping_def run_or_fail run_get all_work_def)
qed

lemma missing_subscription_is_unknown_witness:
  "fst (run_prog (db_Ping sure 1) orphaned_world) = Some (Status Code_Unknown)"
  using missing_subscription_is_unknown [OF sure_works orphaned_world_facts(2)] by blast

section \<open>Waiting for a value\<close>

text \<open>C27: \<open>Next\<close> always answers: when its timers fire no earlier than they are set for, it needs at
  most one round more than there are retry periods in its wait time, whatever the database does and
  whatever other calls do in between.\<close>

theorem db_next_answers:
  assumes "DurationFromProto wait = Some w" and "timer_fires env (ce_clock env 0 + w)"
    and "ce_clock env 0 \<le> ce_clock env 2" and "w \<le> int n * 100000000"
  shows "guar (\<lambda>_. True) (\<lambda>_ _. True) (\<lambda>a. a \<noteq> None) (db_Next (Suc n) env l i wait)
    \<and> fst (run_prog (db_Next (Suc n) env l i wait) s) \<noteq> None"
proof -
  have "guar (\<lambda>_. True) (\<lambda>_ _. True) (\<lambda>a. a \<noteq> None) (next_rounds (Suc n) env l i (ce_clock env 0 + w) 0)"
    by (rule rounds_answer [OF assms(2)]) (use assms(3,4) in \<open>simp add: nextRetryPeriod_def numeral_2_eq_2\<close>)
  then have g: "guar (\<lambda>_. True) (\<lambda>_ _. True) (\<lambda>a. a \<noteq> None) (db_Next (Suc n) env l i wait)"
    using assms(1) by (simp add: db_Next_def)
  with guar_run [OF g, of s] show ?thesis by blast
qed

definition ticking :: call_env where
  "ticking = \<lparr>ce_db = \<lambda>_. Works, ce_clock = \<lambda>n. int n * 100000000, ce_done = \<lambda>_. False,
     ce_rank = \<lambda>_ k. k\<rparr>"

lemma db_next_answers_witness:
  "fst (run_prog (db_Next 11 ticking link_b 1 (Some \<lparr>du_Seconds = 1, du_Nanos = 0\<rparr>)) two_waiting) \<noteq> None"
proof -
  have w: "DurationFromProto (Some \<lparr>du_Seconds = 1, du_Nanos = 0\<rparr>) = Some 1000000000"
    by (simp add: DurationFromProto_exact validateDuration_def duration_maxSeconds_def)
  have "timer_fires ticking (ce_clock ticking 0 + 1000000000)"
    by (auto simp: timer_fires_def ticking_def db_delay_def Let_def nextRetryPeriod_def split: if_splits)
  moreover have "ce_clock ticking 0 \<le> ce_clock ticking 2" by (simp add: ticking_def)
  ultimately show ?thesis using db_next_answers [OF w, of ticking 10 link_b 1 two_waiting] by auto
qed

section \<open>Subscriptions of several links\<close>

text \<open>C6: The subscriptions of all links of a pipeline are found by their client alone: a task that
  subscribes with its one client ID to a second input gets the subscription of the first, and every
  value that \<open>Next\<close> then returns for the second input comes from the link of the first.\<close>

theorem second_input_reads_first_link:
  assumes "db_wf (dw_db s)" and "all_work env" and "map_of (subscr_docs s) i = Some sub"
    and "dsub_ClientID sub = client" and "run_prog (db_Subscribe env l client) s = (a, t)"
    and "all_work env'" and "fst (run_prog (db_Next n env' l i wait) t) = Some (Inr (Some v))"
  shows "a = Inr (i, Some db_subscriptionTTL)
    \<and> (\<exists>k doc. map_of (queue_docs t) k = Some doc \<and> avd_Value doc = v
         \<and> avd_LinkName doc = dsub_LinkName sub)"
proof -
  let ?f = "scan (ce_rank env 0) (\<lambda>sub. dsub_ClientID sub = client) (db_subscrCol (dw_db s))"
  have wf: "col_wf (db_subscrCol (dw_db s))" using assms(1) by (rule db_wfD)
  have "(i, sub) \<in> set ?f" using assms(3,4) by (simp only: scan_in [OF wf])
  then obtain j b where f: "first_of ?f = Some (j, b)" by (cases ?f) auto
  then have "(j, b) \<in> set ?f" by (rule first_of_in)
  then have "map_of (subscr_docs s) j = Some b" "dsub_ClientID b = client"
    by (simp_all only: scan_in [OF wf])
  moreover from this have "j = i" using assms(1,3,4) unfolding db_wf_def by blast
  ultimately have jb: "j = i" "b = sub" using assms(3) by simp_all
  have w: "ce_db env n = Works" for n using assms(2) by (simp add: all_work_def)
  have find: "run_prog (findSubscriptionByClientID Works (ce_rank env 0) client) s = (Inr (Some (i, sub)), s)"
    using f by (simp add: findSubscriptionByClientID_def run_masked run_db_request on_subscr_def jb
        flip: first_of_def)
  have "map_of (subscr_docs s) (fst (i, sub)) = Some sub" using assms(3) by simp
  note renew = run_renew [OF this]
  have t: "a = Inr (i, Some db_subscriptionTTL)"
    "t = set_subscr (\<lambda>c. snd (UpdateDocument i (renew_doc (ce_clock env 0)) c)) s"
    using assms(5) by (simp_all add: db_Subscribe_def run_or_fail w find renew)
  have sub': "map_of (subscr_docs t) i = Some (renew_doc (ce_clock env 0) sub)"
    using assms(3) by (simp add: t(2) docs_update)
  obtain w where "DurationFromProto wait = Some w"
    using assms(7) by (cases "DurationFromProto wait") (auto simp: db_Next_def)
  then have "fst (run_prog (next_rounds n env' l i (ce_clock env' 0 + w) 0) t) = Some (Inr (Some v))"
    using assms(7) by (simp add: db_Next_def)
  from run_next_value [OF assms(6) sub' this] obtain k doc where
    kd: "(k, doc) \<in> set (queue_docs t)" "unassigned (dsub_LinkName sub) doc" "avd_Value doc = v"
    by (auto simp: renew_doc_def)
  have "col_wf (db_queueCol (dw_db t))" using assms(1) by (simp add: t(2) db_wfD)
  with kd(1) have "map_of (queue_docs t) k = Some doc" by (simp add: col_wf_def gomap_ok_def)
  with t(1) kd show ?thesis by (auto simp: unassigned_def)
qed

definition subscribed_b :: "unit db_world" where
  "subscribed_b = snd (run_prog (db_Subscribe sure link_b ''me'') two_waiting)"

lemma second_input_reads_first_link_witness:
  "\<exists>k doc. map_of (queue_docs subscribed_b) k = Some doc \<and> av_ID (avd_Value doc) = ''x''
     \<and> avd_LinkName doc = ''a''"
proof -
  obtain sub where sub: "map_of (subscr_docs two_waiting) 1 = Some sub"
    "dsub_LinkName sub = ''a''" "dsub_ClientID sub = ''me''"
    using two_waiting_subscription by (auto simp: link_a_def)
  have run: "run_prog (db_Subscribe sure link_b ''me'') two_waiting =
      (fst (run_prog (db_Subscribe sure link_b ''me'') two_waiting), subscribed_b)"
    by (simp add: subscribed_b_def)
  have "(case fst (run_prog (db_Next 1 sure link_b 1 no_wait) subscribed_b) of
      Some (Inr (Some v)) \<Rightarrow> av_ID v | _ \<Rightarrow> []) = ''x''"
    by code_simp
  then obtain v where v: "fst (run_prog (db_Next 1 sure link_b 1 no_wait) subscribed_b) = Some (Inr (Some v))"
    "av_ID v = ''x''"
    by (auto split: option.splits sum.splits)
  from second_input_reads_first_link [OF two_waiting_wf sure_works sub(1,3) run sure_works v(1)] v(2) sub(2)
  show ?thesis by auto
qed

end
