(* ===== verification/Registry_DB.thy ===== *)
theory Registry_DB
  imports Arango Annotated_Value
begin

text \<open>
  The database implementation of the annotated value registry
  (\<open>pkg/annotatedvalue/registry/arangodb/db.go\<close>): every call makes one request of the collection of
  values.  Recording a value again adds a document, where the in-memory registry replaces the
  value; the locale \<open>value_lookup\<close> is what both registries promise, and enough for trees.
\<close>

section \<open>Calls\<close>

type_synonym dbReg = "AnnotatedValue collection"

definition dbReg_Record :: "db_outcome \<Rightarrow> AnnotatedValue \<Rightarrow> dbReg \<Rightarrow> grpc_code error_only \<times> dbReg" where
  "dbReg_Record out e col =
     (case request_db out (CreateDocument (\<lambda>_ _. False) e) col of
        (Inl err, c) \<Rightarrow> (Some (arangoErrorToGRPC err), c)
      | (Inr k, c) \<Rightarrow> (None, c))"

text \<open>The rest of \<open>GetByID\<close> and \<open>GetByTaskAndData\<close> after their query, which has \<open>LIMIT 1\<close>.\<close>

definition fetch_one ::
  "(db_error, (int \<times> AnnotatedValue) list) go_result \<Rightarrow> (grpc_code, AnnotatedValue) go_result" where
  "fetch_one r = (case r of
     Inl err \<Rightarrow> Inl (arangoErrorToGRPC err)
   | Inr docs \<Rightarrow> (case take 1 docs of [] \<Rightarrow> Inl Code_NotFound | (k, av) # _ \<Rightarrow> Inr av))"

definition dbReg_GetByID ::
  "db_outcome \<Rightarrow> (int \<Rightarrow> int) \<Rightarrow> string \<Rightarrow> dbReg \<Rightarrow> (grpc_code, AnnotatedValue) go_result" where
  "dbReg_GetByID out rank i col =
     fetch_one (fst (request_db out (\<lambda>c. (Inr (scan rank (\<lambda>x. av_ID x = i) c), c)) col))"

text \<open>
  The filter of \<open>GetByTaskAndData\<close> is \<open>x.source_task==@sourceTask AND data==@data\<close>: \<open>data\<close> is not an
  attribute of \<open>x\<close>, but the name of a collection.  The database refuses the query when there is no
  such collection (\<open>unknown_name\<close> is its error); otherwise the name stands for a list of documents,
  which equals no string.
\<close>

definition dbReg_GetByTaskAndData ::
  "db_outcome \<Rightarrow> (int \<Rightarrow> int) \<Rightarrow> db_error option \<Rightarrow> string \<Rightarrow> string \<Rightarrow> dbReg
    \<Rightarrow> (grpc_code, AnnotatedValue) go_result" where
  "dbReg_GetByTaskAndData out rank unknown_name task data' col =
     fetch_one (fst (request_db out (\<lambda>c. case unknown_name of
         Some err \<Rightarrow> (Inl err, c)
       | None \<Rightarrow> (Inr (scan rank (\<lambda>x. av_SourceTask x = task \<and> False) c), c)) col))"

text \<open>The filter that \<open>Get\<close> puts together, and the loop over its documents.\<close>

definition filters_of :: "GetRequest \<Rightarrow> (AnnotatedValue \<Rightarrow> bool) list" where
  "filters_of req =
     (let filters = (if length (gr_IDs req) > 0 then [\<lambda>x. av_ID x \<in> set (gr_IDs req)] else []);
          filters = (if length (gr_SourceTasks req) > 0
            then filters @ [\<lambda>x. av_SourceTask x \<in> set (gr_SourceTasks req)] else filters) in
      if length (gr_Data req) > 0 then filters @ [\<lambda>x. av_Data x \<in> set (gr_Data req)] else filters)"

definition all_filters :: "(AnnotatedValue \<Rightarrow> bool) list \<Rightarrow> AnnotatedValue \<Rightarrow> bool" where
  "all_filters filters x = list_all (\<lambda>f. f x) filters"

fun matching_docs :: "GetRequest \<Rightarrow> (int \<times> AnnotatedValue) list \<Rightarrow> AnnotatedValue list" where
  "matching_docs req [] = []"
| "matching_docs req ((k, doc) # docs) =
     (if IsMatch doc req then doc # matching_docs req docs else matching_docs req docs)"

definition dbReg_Get ::
  "db_outcome \<Rightarrow> (int \<Rightarrow> int) \<Rightarrow> GetRequest \<Rightarrow> dbReg \<Rightarrow> (grpc_code, AnnotatedValue list) go_result" where
  "dbReg_Get out rank req col =
     (case fst (request_db out (\<lambda>c. (Inr (scan rank (all_filters (filters_of req)) c), c)) col) of
        Inl err \<Rightarrow> Inl (arangoErrorToGRPC err)
      | Inr docs \<Rightarrow> Inr (matching_docs req docs))"

section \<open>Recorded values\<close>

definition record_all :: "AnnotatedValue list \<Rightarrow> dbReg" where
  "record_all avs = foldl (\<lambda>c av. snd (dbReg_Record Works av c)) empty_collection avs"

lemma record_works:
  "dbReg_Record Works av c =
     (None, \<lparr>col_docs = col_docs c @ [(col_last c + 1, av)], col_last = col_last c + 1\<rparr>)"
  by (simp add: dbReg_Record_def CreateDocument_def Let_def list_ex_iff)

lemma record_all_snoc:
  "record_all (avs @ [av]) = \<lparr>col_docs = col_docs (record_all avs) @ [(col_last (record_all avs) + 1, av)],
     col_last = col_last (record_all avs) + 1\<rparr>"
  by (simp add: record_all_def record_works)

lemma record_all_docs: "map snd (col_docs (record_all avs)) = avs"
  by (induction avs rule: rev_induct)
     (simp_all add: record_all_snoc, simp add: record_all_def empty_collection_def)

lemma record_all_wf: "col_wf (record_all avs)"
proof (induction avs rule: rev_induct)
  case (snoc av avs)
  then show ?case by (simp add: record_all_snoc col_wf_new)
qed (simp add: record_all_def)

lemma matching_docs_filter: "matching_docs req docs = filter (selects req) (map snd docs)"
  by (induction req docs rule: matching_docs.induct) (auto simp: IsMatch_selects)

lemma selects_filters: "selects req av \<Longrightarrow> all_filters (filters_of req) av"
  by (auto simp: selects_def all_filters_def filters_of_def Let_def)

lemma mset_scan: "mset (scan rank p c) = filter_mset (\<lambda>(k, d). p d) (mset (col_docs c))"
  by (simp add: scan_def)

lemma scan_values: "mset (map snd (scan rank p c)) = filter_mset p (mset (map snd (col_docs c)))"
proof -
  have "image_mset snd (filter_mset (\<lambda>(k, d). p d) M) = filter_mset p (image_mset snd M)" for M :: "(int \<times> 'a) multiset"
    by (induction M) auto
  then show ?thesis by (simp add: mset_scan)
qed

section \<open>What the registries promise\<close>

text \<open>
  A lookup among the values \<open>avs\<close> that were recorded: it returns one of the values with the ID, and
  returns one when there is any.
\<close>

locale value_lookup =
  fixes get :: "string \<Rightarrow> ('e, AnnotatedValue) go_result" and avs :: "AnnotatedValue list"
  assumes found_recorded: "get i = Inr av \<Longrightarrow> av \<in> set avs \<and> av_ID av = i"
    and recorded_found: "av \<in> set avs \<Longrightarrow> \<exists>b. get (av_ID av) = Inr b"
begin

lemma same_sources:
  assumes "recorded_in_order Map.empty avs" and "get i = Inr b"
  shows "\<exists>c. GetByID (foldl Record NewStub_registry avs) i = Inr c
    \<and> av_SourceInputs c = av_SourceInputs b"
  using registry.recorded_sources [OF assms(1)] found_recorded [OF assms(2)] by blast

lemma lookup_layered:
  assumes "recorded_in_order Map.empty avs"
  shows "\<exists>rank. layered get rank \<and> (\<forall>i. rank i < Suc (length avs))
    \<and> (\<forall>i b. get i = Inr b \<longrightarrow> rank i < length avs)"
proof -
  let ?stub = "GetByID (foldl Record NewStub_registry avs)"
  obtain rank where lay: "layered ?stub rank" and rank: "\<And>i. rank i < Suc (length avs)"
    "\<And>i av. ?stub i = Inr av \<Longrightarrow> rank i < length avs"
    using registry.records_layered [OF assms] by blast
  have "distinct_inputs b \<and> (\<forall>j \<in> set (source_ids b). rank j < rank i \<and> (\<exists>src. get j = Inr src))"
    if b: "get i = Inr b" for i b
  proof -
    obtain c where c: "?stub i = Inr c" "av_SourceInputs c = av_SourceInputs b"
      using same_sources [OF assms b] by blast
    then have "distinct_inputs c"
      and src: "\<forall>j \<in> set (source_ids c). rank j < rank i \<and> (\<exists>src. ?stub j = Inr src)"
      using lay unfolding layered_def by blast+
    moreover have "\<exists>src. get j = Inr src" if stub: "?stub j = Inr d" for j d
      using registry.get_mem [OF stub] recorded_found by auto
    ultimately have "\<forall>j \<in> set (source_ids c). rank j < rank i \<and> (\<exists>src. get j = Inr src)" by blast
    with \<open>distinct_inputs c\<close> show ?thesis using c(2)
      by (simp add: distinct_inputs_def source_ids_def)
  qed
  then have "layered get rank" unfolding layered_def by blast
  moreover have "rank i < length avs" if b: "get i = Inr b" for i b
    using same_sources [OF assms b] rank(2) by blast
  ultimately show ?thesis using rank(1) by blast
qed

lemma lookup_tree:
  assumes "recorded_in_order Map.empty avs" and "av \<in> set avs" and "length avs \<le> n"
  shows "\<exists>t. Build n get av = Some (Inr t) \<and> (\<forall>x. ContainsID t x \<longleftrightarrow> derives get av x)"
proof -
  obtain rank where lay: "layered get rank" and rank: "\<And>i b. get i = Inr b \<Longrightarrow> rank i < length avs"
    using lookup_layered [OF assms(1)] by blast
  obtain b where b: "get (av_ID av) = Inr b" using recorded_found [OF assms(2)] by blast
  obtain c d where c: "GetByID (foldl Record NewStub_registry avs) (av_ID av) = Inr c"
      "av_SourceInputs c = av_SourceInputs b"
    and d: "GetByID (foldl Record NewStub_registry avs) (av_ID av) = Inr d"
      "av_SourceInputs d = av_SourceInputs av"
    using same_sources [OF assms(1) b] registry.recorded_sources [OF assms(1,2)] by blast
  then have "av_SourceInputs b = av_SourceInputs av" by simp
  then have src: "source_ids av = source_ids b" "distinct_inputs av = distinct_inputs b"
    by (simp_all add: source_ids_def distinct_inputs_def)
  obtain m where m: "n = Suc m" using assms(2,3) by (cases avs; cases n) auto
  show ?thesis unfolding m
  proof (rule Build_contains)
    fix j assume "j \<in> set (source_ids av)"
    then obtain s where s: "get j = Inr s" "rank j < rank (av_ID av)"
      using lay b src(1) unfolding layered_def by fastforce
    moreover have "rank (av_ID av) < Suc m" using rank [OF b] m assms(3) by simp
    ultimately show "\<exists>src t. get j = Inr src \<and> Build m get src = Some (Inr t)
        \<and> (\<forall>x. ContainsID t x \<longleftrightarrow> derives get src x)"
      using layered_tree [OF lay, of j s m] by auto
  qed (use lay b src(2) in \<open>simp add: layered_def\<close>)
qed

end

sublocale av_registry \<subseteq> stored: value_lookup "get_by_id (foldl record_av empty avs)" avs for avs
  by unfold_locales (use get_mem get_total in auto)

lemma fetch_one_docs:
  "fetch_one (Inr docs) = Inr av \<Longrightarrow> \<exists>k. (k, av) \<in> set docs"
  "d \<in> set docs \<Longrightarrow> \<exists>av. fetch_one (Inr docs) = Inr av"
  by (cases docs; auto simp: fetch_one_def)+

interpretation db_lookup: value_lookup "\<lambda>i. dbReg_GetByID Works (rank i) i (record_all avs)" avs
  for rank :: "string \<Rightarrow> int \<Rightarrow> int" and avs
proof
  fix i av
  assume "dbReg_GetByID Works (rank i) i (record_all avs) = Inr av"
  then obtain k where "(k, av) \<in> set (scan (rank i) (\<lambda>x. av_ID x = i) (record_all avs))"
    by (auto simp: dbReg_GetByID_def simp del: set_scan dest!: fetch_one_docs(1))
  then have "av_ID av = i" "av \<in> set (map snd (col_docs (record_all avs)))" by force+
  then show "av \<in> set avs \<and> av_ID av = i" by (simp add: record_all_docs)
next
  fix av
  assume "av \<in> set avs"
  then have "av \<in> set (map snd (col_docs (record_all avs)))" by (simp add: record_all_docs)
  then obtain k where "(k, av) \<in> set (scan (rank (av_ID av)) (\<lambda>x. av_ID x = av_ID av) (record_all avs))"
    by auto
  then show "\<exists>b. dbReg_GetByID Works (rank (av_ID av)) (av_ID av) (record_all avs) = Inr b"
    by (simp add: dbReg_GetByID_def fetch_one_docs(2) del: set_scan)
qed

lemma stub_distinct:
  "distinct (map av_ID avs) \<Longrightarrow>
     foldl Record NewStub_registry avs = map (\<lambda>av. (av_ID av, av)) avs"
proof (induction avs rule: rev_induct)
  case (snoc av avs)
  then have "map_of (map (\<lambda>av. (av_ID av, av)) avs) (av_ID av) = None"
    by (auto simp: map_of_eq_None_iff)
  with snoc show ?case by (simp add: Record_def update_new)
qed (simp add: NewStub_registry_def)

lemma filtered_scan:
  "filter (selects req) (map snd (scan rank (all_filters (filters_of req)) c))
     = filter (selects req) (map snd (scan rank (\<lambda>_. True) c))"
proof -
  have "filter (\<lambda>e. selects req (snd e)) (scan rank p c)
      = filter (\<lambda>e. selects req (snd e) \<and> p (snd e)) (scan rank (\<lambda>_. True) c)" for p
    unfolding scan_def
    by (auto simp: filter_sort intro!: arg_cong [where f = "sort_key (\<lambda>(k, d). rank k)"] filter_cong)
  from this [of "all_filters (filters_of req)"] show ?thesis
    by (simp add: filter_map comp_def case_prod_beta selects_filters cong: conj_cong)
qed

section \<open>Properties\<close>

text \<open>A query to the database registry answers with exactly the recorded values that the request
  selects, every recording of a value on its own: the filter put into the query leaves none of them
  out.  When no ID is recorded twice, the answer holds the same values as that of the in-memory
  registry.\<close>

theorem db_query_selects:
  "\<exists>found. dbReg_Get Works rank req (record_all avs) = Inr found
     \<and> mset found = filter_mset (selects req) (mset avs)
     \<and> (distinct (map av_ID avs) \<longrightarrow> map_order es (foldl Record NewStub_registry avs)
          \<longrightarrow> mset found = mset (Get es req))"
proof -
  let ?found = "filter (selects req) (map snd (scan rank (\<lambda>_. True) (record_all avs)))"
  have "dbReg_Get Works rank req (record_all avs) = Inr ?found"
    by (simp add: dbReg_Get_def matching_docs_filter filtered_scan)
  moreover have found: "mset ?found = filter_mset (selects req) (mset avs)"
    using scan_values [of rank "\<lambda>_. True" "record_all avs"] by (simp add: record_all_docs)
  moreover have "mset ?found = mset (Get es req)"
    if "distinct (map av_ID avs)" and o: "map_order es (foldl Record NewStub_registry avs)"
  proof -
    have "mset es = mset (map (\<lambda>av. (av_ID av, av)) avs)"
      using o unfolding map_order_def stub_distinct [OF that(1)] .
    then have "mset (map snd es) = mset (map snd (map (\<lambda>av. (av_ID av, av)) avs))"
      by (metis mset_map)
    then show ?thesis by (simp only: found) (simp add: Get_filter comp_def)
  qed
  ultimately show ?thesis by blast
qed

lemma db_query_selects_witness:
  "\<exists>found. dbReg_Get Works (\<lambda>k. - k) example_request (record_all [example_av ''a'' [], example_av ''b'' [''a'']])
     = Inr found \<and> mset found = mset (Get [(''b'', example_av ''b'' [''a'']), (''a'', example_av ''a'' [])] example_request)"
proof -
  have "map_order [(''b'', example_av ''b'' [''a'']), (''a'', example_av ''a'' [])]
      (foldl Record NewStub_registry [example_av ''a'' [], example_av ''b'' [''a'']])"
    by (simp add: map_order_def NewStub_registry_def Record_def example_av_def)
  moreover have "distinct (map av_ID [example_av ''a'' [], example_av ''b'' [''a'']])"
    by (simp add: example_av_def)
  ultimately show ?thesis using db_query_selects [of "\<lambda>k. - k" example_request] by blast
qed

text \<open>With the database registry too, the tree of any recorded value can be built and contains
  exactly the IDs of the values it derives from, whichever of its recordings every lookup returns.\<close>

theorem db_tree_of_recorded_value:
  assumes "recorded_in_order Map.empty avs" and "av \<in> set avs"
  shows "\<exists>t. Build (length avs) (\<lambda>i. dbReg_GetByID Works (rank i) i (record_all avs)) av = Some (Inr t)
    \<and> (\<forall>x. ContainsID t x \<longleftrightarrow> derives (\<lambda>i. dbReg_GetByID Works (rank i) i (record_all avs)) av x)"
  by (rule db_lookup.lookup_tree [OF assms order_refl])

lemma db_tree_of_recorded_value_witness:
  "\<exists>t. Build (length example_values)
     (\<lambda>i. dbReg_GetByID Works (\<lambda>k. - k) i (record_all example_values)) (example_av ''b'' [''a'']) = Some (Inr t)"
proof -
  have "example_av ''b'' [''a''] \<in> set example_values" by (simp add: example_values_def)
  from db_tree_of_recorded_value [OF example_values_facts(1) this, of "\<lambda>i k. - k"]
  show ?thesis by blast
qed

text \<open>\<open>GetByTaskAndData\<close> never returns a value, whatever is recorded and whatever the database
  does, because its filter names a collection where it means an attribute.\<close>

theorem by_task_and_data_fails:
  "dbReg_GetByTaskAndData out rank unknown_name task data' col \<noteq> Inr av"
proof -
  have "scan rank (\<lambda>x. av_SourceTask x = task \<and> False) col = []" by (simp add: scan_def)
  then show ?thesis
    by (cases out; cases unknown_name)
       (simp_all add: dbReg_GetByTaskAndData_def request_db_def fetch_one_def)
qed

end
