(* ===== verification/Arango_Setup.thy ===== *)
theory Arango_Setup
  imports Link_DB Registry_DB
begin

text \<open>
  How an agent opens its collections (\<open>link/arangodb/db.go\<close>, \<open>NewRegistry\<close> of
  \<open>registry/arangodb/db.go\<close>): the checks of the configuration, and the database, the collections and
  the index that are created when they do not exist.  The server is its databases with the
  collections in them; connections are not modelled beyond whether they can be made.
\<close>

section \<open>State\<close>

record arango_config =
  ac_Endpoints :: "string list"
  ac_Username :: string
  ac_Password :: string
  ac_Database :: string

record collection_info =
  ci_autoIncrement :: bool
  ci_uniqueIndexes :: "string list list"

type_synonym arango_server = "(string, (string, collection_info) gomap) gomap"

record link_dependencies =
  ld_Namespace :: string
  ld_PipelineName :: string
  ld_LinkName :: string
  ld_URI :: string

datatype setup_error = MissingEndpoints | MissingDatabase | SetupFailed db_error

definition queueColName :: "link_dependencies \<Rightarrow> string" where
  "queueColName deps = ''lqueue_'' @ ld_Namespace deps @ ''_'' @ ld_PipelineName deps"

definition subscrColName :: "link_dependencies \<Rightarrow> string" where
  "subscrColName deps = ''lsubscr_'' @ ld_Namespace deps @ ''_'' @ ld_PipelineName deps"

definition avColName :: "string \<Rightarrow> string" where
  "avColName namespace = ''av_'' @ namespace"

section \<open>Operations\<close>

text \<open>Requests of the server: \<open>Database\<close>, \<open>CreateDatabase\<close>, \<open>Collection\<close>, \<open>CreateCollection\<close> and
  \<open>EnsureHashIndex\<close>.\<close>

definition lookup_database :: "string \<Rightarrow> arango_server \<Rightarrow> (db_error, unit) go_result \<times> arango_server" where
  "lookup_database d srv =
     (if map_of srv d = None then (Inl (ArangoError 404 1228), srv) else (Inr (), srv))"

definition create_database :: "string \<Rightarrow> arango_server \<Rightarrow> (db_error, unit) go_result \<times> arango_server" where
  "create_database d srv =
     (if map_of srv d \<noteq> None then (Inl (ArangoError 409 1207), srv)
      else (Inr (), AList.update d [] srv))"

definition collections_of :: "string \<Rightarrow> arango_server \<Rightarrow> (string, collection_info) gomap" where
  "collections_of d srv = (case map_of srv d of Some cols \<Rightarrow> cols | None \<Rightarrow> [])"

definition lookup_collection ::
  "string \<Rightarrow> string \<Rightarrow> arango_server \<Rightarrow> (db_error, unit) go_result \<times> arango_server" where
  "lookup_collection d c srv =
     (if map_of (collections_of d srv) c = None then (Inl (ArangoError 404 1203), srv) else (Inr (), srv))"

definition create_collection ::
  "string \<Rightarrow> string \<Rightarrow> bool \<Rightarrow> arango_server \<Rightarrow> (db_error, unit) go_result \<times> arango_server" where
  "create_collection d c auto srv =
     (if map_of (collections_of d srv) c \<noteq> None then (Inl (ArangoError 409 1207), srv)
      else (Inr (), AList.update d (AList.update c \<lparr>ci_autoIncrement = auto, ci_uniqueIndexes = []\<rparr>
        (collections_of d srv)) srv))"

definition ensure_hash_index ::
  "string \<Rightarrow> string \<Rightarrow> string list \<Rightarrow> arango_server \<Rightarrow> (db_error, unit) go_result \<times> arango_server" where
  "ensure_hash_index d c attrs srv =
     (case map_of (collections_of d srv) c of
        None \<Rightarrow> (Inl (ArangoError 404 1203), srv)
      | Some info \<Rightarrow> (Inr (),
          if attrs \<in> set (ci_uniqueIndexes info) then srv
          else AList.update d (AList.update c (info\<lparr>ci_uniqueIndexes := ci_uniqueIndexes info @ [attrs]\<rparr>)
            (collections_of d srv)) srv))"

text \<open>\<open>look\<close>, and \<open>create\<close> when it reports that there is nothing.\<close>

definition look_or_create ::
  "(db_error, unit) go_result \<times> arango_server
    \<Rightarrow> (arango_server \<Rightarrow> (db_error, unit) go_result \<times> arango_server)
    \<Rightarrow> setup_error error_only \<times> arango_server" where
  "look_or_create looked create =
     (case looked of
        (Inr _, srv) \<Rightarrow> (None, srv)
      | (Inl err, srv) \<Rightarrow>
          if driver_IsNotFound err then
            (case create srv of
               (Inl err, srv') \<Rightarrow> (Some (SetupFailed err), srv')
             | (Inr _, srv') \<Rightarrow> (None, srv'))
          else (Some (SetupFailed err), srv))"

text \<open>
  \<open>connect\<close> is the error of making the connection or the client, which are made before any request;
  \<open>outs n\<close> is the outcome of the n-th request.
\<close>

definition openDatabase ::
  "arango_config \<Rightarrow> db_error option \<Rightarrow> (nat \<Rightarrow> db_outcome) \<Rightarrow> arango_server
    \<Rightarrow> setup_error error_only \<times> arango_server" where
  "openDatabase cfg connect outs srv =
     (if length (ac_Endpoints cfg) = 0 then (Some MissingEndpoints, srv)
      else if length (ac_Database cfg) = 0 then (Some MissingDatabase, srv)
      else case connect of
        Some err \<Rightarrow> (Some (SetupFailed err), srv)
      | None \<Rightarrow> look_or_create (request_db (outs 0) (lookup_database (ac_Database cfg)) srv)
                  (request_db (outs 1) (create_database (ac_Database cfg))))"

definition ensureCollection ::
  "string \<Rightarrow> string \<Rightarrow> bool \<Rightarrow> (nat \<Rightarrow> db_outcome) \<Rightarrow> nat \<Rightarrow> arango_server
    \<Rightarrow> setup_error error_only \<times> arango_server" where
  "ensureCollection d c auto outs n srv =
     look_or_create (request_db (outs n) (lookup_collection d c) srv)
       (request_db (outs (n + 1)) (create_collection d c auto))"

definition ensureQueueCollection ::
  "string \<Rightarrow> link_dependencies \<Rightarrow> (nat \<Rightarrow> db_outcome) \<Rightarrow> arango_server
    \<Rightarrow> setup_error error_only \<times> arango_server" where
  "ensureQueueCollection d deps outs srv = ensureCollection d (queueColName deps) True outs 2 srv"

definition ensureSubscriptionCollection ::
  "string \<Rightarrow> link_dependencies \<Rightarrow> (nat \<Rightarrow> db_outcome) \<Rightarrow> arango_server
    \<Rightarrow> setup_error error_only \<times> arango_server" where
  "ensureSubscriptionCollection d deps outs srv =
     (case ensureCollection d (subscrColName deps) True outs 4 srv of
        (Some e, srv') \<Rightarrow> (Some e, srv')
      | (None, srv') \<Rightarrow>
          (case request_db (outs 6) (ensure_hash_index d (subscrColName deps) [''client_id'']) srv' of
             (Inl err, srv'') \<Rightarrow> (Some (SetupFailed err), srv'')
           | (Inr _, srv'') \<Rightarrow> (None, srv'')))"

definition deps_link :: "link_dependencies \<Rightarrow> db_link" where
  "deps_link deps = \<lparr>dl_linkName = ld_LinkName deps, dl_uri = ld_URI deps\<rparr>"

definition NewAnnotatedValuePublisher ::
  "arango_config \<Rightarrow> db_error option \<Rightarrow> (nat \<Rightarrow> db_outcome) \<Rightarrow> link_dependencies \<Rightarrow> arango_server
    \<Rightarrow> (setup_error, db_link) go_result \<times> arango_server" where
  "NewAnnotatedValuePublisher cfg connect outs deps srv =
     (case openDatabase cfg connect outs srv of
        (Some e, srv1) \<Rightarrow> (Inl e, srv1)
      | (None, srv1) \<Rightarrow>
          (case ensureQueueCollection (ac_Database cfg) deps outs srv1 of
             (Some e, srv2) \<Rightarrow> (Inl e, srv2)
           | (None, srv2) \<Rightarrow> (Inr (deps_link deps), srv2)))"

definition NewAnnotatedValueSource ::
  "arango_config \<Rightarrow> db_error option \<Rightarrow> (nat \<Rightarrow> db_outcome) \<Rightarrow> link_dependencies \<Rightarrow> arango_server
    \<Rightarrow> (setup_error, db_link) go_result \<times> arango_server" where
  "NewAnnotatedValueSource cfg connect outs deps srv =
     (case openDatabase cfg connect outs srv of
        (Some e, srv1) \<Rightarrow> (Inl e, srv1)
      | (None, srv1) \<Rightarrow>
          (case ensureQueueCollection (ac_Database cfg) deps outs srv1 of
             (Some e, srv2) \<Rightarrow> (Inl e, srv2)
           | (None, srv2) \<Rightarrow>
               (case ensureSubscriptionCollection (ac_Database cfg) deps outs srv2 of
                  (Some e, srv3) \<Rightarrow> (Inl e, srv3)
                | (None, srv3) \<Rightarrow> (Inr (deps_link deps), srv3))))"

text \<open>\<open>NewRegistry\<close> has the same steps for its one collection, which has no key options.\<close>

definition NewRegistry ::
  "arango_config \<Rightarrow> db_error option \<Rightarrow> (nat \<Rightarrow> db_outcome) \<Rightarrow> string \<Rightarrow> arango_server
    \<Rightarrow> (setup_error, string) go_result \<times> arango_server" where
  "NewRegistry cfg connect outs namespace srv =
     (let colName = avColName namespace in
      if length (ac_Endpoints cfg) = 0 then (Inl MissingEndpoints, srv)
      else if length (ac_Database cfg) = 0 then (Inl MissingDatabase, srv)
      else case connect of
        Some err \<Rightarrow> (Inl (SetupFailed err), srv)
      | None \<Rightarrow>
          (case look_or_create (request_db (outs 0) (lookup_database (ac_Database cfg)) srv)
                  (request_db (outs 1) (create_database (ac_Database cfg))) of
             (Some e, srv1) \<Rightarrow> (Inl e, srv1)
           | (None, srv1) \<Rightarrow>
               (case look_or_create (request_db (outs 2) (lookup_collection (ac_Database cfg) colName) srv1)
                       (request_db (outs 3) (create_collection (ac_Database cfg) colName False)) of
                  (Some e, srv2) \<Rightarrow> (Inl e, srv2)
                | (None, srv2) \<Rightarrow> (Inr colName, srv2))))"

section \<open>What is set up\<close>

definition has_collection :: "arango_server \<Rightarrow> string \<Rightarrow> string \<Rightarrow> bool" where
  "has_collection srv d c \<longleftrightarrow> map_of (collections_of d srv) c \<noteq> None"

definition has_unique_index :: "arango_server \<Rightarrow> string \<Rightarrow> string \<Rightarrow> string list \<Rightarrow> bool" where
  "has_unique_index srv d c attrs \<longleftrightarrow>
     (\<exists>info. map_of (collections_of d srv) c = Some info \<and> attrs \<in> set (ci_uniqueIndexes info))"

lemma collections_update [simp]:
  "collections_of d (AList.update e cols srv) = (if d = e then cols else collections_of d srv)"
  by (simp add: collections_of_def update_conv')

lemma index_has_collection: "has_unique_index srv d c attrs \<Longrightarrow> has_collection srv d c"
  by (auto simp: has_unique_index_def has_collection_def)

lemmas server_requests =
  lookup_collection_def create_collection_def ensure_hash_index_def has_collection_def
  has_unique_index_def request_db_def

lemma ensureCollection_ok:
  assumes "ensureCollection d c auto outs n srv = (None, t)"
  shows "has_collection t d c \<and> (\<forall>e f. has_collection srv e f \<longrightarrow> has_collection t e f)"
  using assms
  by (auto simp: ensureCollection_def look_or_create_def server_requests update_conv'
      split: db_outcome.splits sum.splits if_splits)

lemma ensureSubscriptionCollection_ok:
  assumes "ensureSubscriptionCollection d deps outs srv = (None, t)"
  shows "has_unique_index t d (subscrColName deps) [''client_id'']
    \<and> (\<forall>e f. has_collection srv e f \<longrightarrow> has_collection t e f)"
proof -
  obtain s where s: "ensureCollection d (subscrColName deps) True outs 4 srv = (None, s)"
    and t: "request_db (outs 6) (ensure_hash_index d (subscrColName deps) [''client_id'']) s = (Inr (), t)"
    using assms by (auto simp: ensureSubscriptionCollection_def split: prod.splits option.splits sum.splits)
  have "has_unique_index t d (subscrColName deps) [''client_id'']"
    "has_collection s e f \<Longrightarrow> has_collection t e f" for e f
    using t by (auto simp: server_requests update_conv' split: db_outcome.splits option.splits if_splits)
  with ensureCollection_ok [OF s] show ?thesis by blast
qed

text \<open>The collections of different pipelines are different: names of namespaces have no underscore.\<close>

lemma joined_names:
  "c \<notin> set a \<Longrightarrow> c \<notin> set b \<Longrightarrow> a @ c # x = b @ c # y \<longleftrightarrow> a = b \<and> x = y"
proof (induction a arbitrary: b)
  case Nil
  then show ?case by (cases b) auto
next
  case (Cons z a)
  then show ?case by (cases b) auto
qed

lemma collection_names:
  assumes "CHR ''_'' \<notin> set (ld_Namespace a)" and "CHR ''_'' \<notin> set (ld_Namespace b)"
  shows "queueColName a = queueColName b \<longleftrightarrow>
      ld_Namespace a = ld_Namespace b \<and> ld_PipelineName a = ld_PipelineName b"
    and "subscrColName a = subscrColName b \<longleftrightarrow>
      ld_Namespace a = ld_Namespace b \<and> ld_PipelineName a = ld_PipelineName b"
    and "queueColName a \<noteq> subscrColName b" "queueColName a \<noteq> avColName n" "subscrColName a \<noteq> avColName n"
  using joined_names [OF assms] by (simp_all add: queueColName_def subscrColName_def avColName_def)

lemma openDatabase_keeps:
  assumes "openDatabase cfg connect outs srv = (None, t)"
  shows "ac_Endpoints cfg \<noteq> [] \<and> ac_Database cfg \<noteq> [] \<and> connect = None
    \<and> (\<forall>d c. has_collection srv d c \<longrightarrow> has_collection t d c)
    \<and> map_of t (ac_Database cfg) \<noteq> None"
  using assms
  by (auto simp: openDatabase_def look_or_create_def lookup_database_def create_database_def
      request_db_def has_collection_def collections_of_def update_conv'
      split: db_outcome.splits sum.splits if_splits option.splits)

text \<open>A server on which everything is set up is left alone.\<close>

lemma look_finds [simp]: "look_or_create (Inr (), srv) create = (None, srv)"
  by (simp add: look_or_create_def)

lemma openDatabase_again:
  assumes "ac_Endpoints cfg \<noteq> []" and "ac_Database cfg \<noteq> []" and "map_of srv (ac_Database cfg) \<noteq> None"
  shows "openDatabase cfg None (\<lambda>_. Works) srv = (None, srv)"
  using assms by (auto simp: openDatabase_def lookup_database_def)

lemma ensureCollection_again:
  "has_collection srv d c \<Longrightarrow> ensureCollection d c auto (\<lambda>_. Works) n srv = (None, srv)"
  by (auto simp: ensureCollection_def lookup_collection_def has_collection_def)

lemma ensureSubscription_again:
  assumes "has_unique_index srv d (subscrColName deps) [''client_id'']"
  shows "ensureSubscriptionCollection d deps (\<lambda>_. Works) srv = (None, srv)"
proof -
  have "ensureCollection d (subscrColName deps) True (\<lambda>_. Works) 4 srv = (None, srv)"
    by (rule ensureCollection_again [OF index_has_collection [OF assms]])
  moreover have "ensure_hash_index d (subscrColName deps) [''client_id''] srv = (Inr (), srv)"
    using assms by (auto simp: ensure_hash_index_def has_unique_index_def)
  ultimately show ?thesis by (simp add: ensureSubscriptionCollection_def)
qed

lemma has_collection_database: "has_collection srv d c \<Longrightarrow> map_of srv d \<noteq> None"
  by (auto simp: has_collection_def collections_of_def split: option.splits)

section \<open>Properties\<close>

text \<open>When the source of a link has been built, on whatever server and whatever became of the
  requests on the way, the pipeline's queue and subscription collections exist, clients are unique
  among the subscriptions, every collection that existed still does, and building it again, or the
  publisher of the same pipeline, changes nothing on the server.\<close>

theorem source_setup:
  assumes "NewAnnotatedValueSource cfg connect outs deps srv = (Inr l, t)"
  shows "has_collection t (ac_Database cfg) (queueColName deps)
    \<and> has_unique_index t (ac_Database cfg) (subscrColName deps) [''client_id'']
    \<and> (\<forall>d c. has_collection srv d c \<longrightarrow> has_collection t d c)
    \<and> NewAnnotatedValueSource cfg None (\<lambda>_. Works) deps t = (Inr l, t)
    \<and> NewAnnotatedValuePublisher cfg None (\<lambda>_. Works) deps t = (Inr l, t)"
proof -
  obtain s1 s2 where 1: "openDatabase cfg connect outs srv = (None, s1)"
    and 2: "ensureCollection (ac_Database cfg) (queueColName deps) True outs 2 s1 = (None, s2)"
    and 3: "ensureSubscriptionCollection (ac_Database cfg) deps outs s2 = (None, t)"
    and l: "l = deps_link deps"
    using assms by (auto simp: NewAnnotatedValueSource_def ensureQueueCollection_def
        split: prod.splits option.splits)
  note k1 = openDatabase_keeps [OF 1] and k2 = ensureCollection_ok [OF 2]
    and k3 = ensureSubscriptionCollection_ok [OF 3]
  have q: "has_collection t (ac_Database cfg) (queueColName deps)" using k2 k3 by blast
  have opened: "openDatabase cfg None (\<lambda>_. Works) t = (None, t)"
    by (rule openDatabase_again) (use k1 has_collection_database [OF q] in auto)
  have queue: "ensureQueueCollection (ac_Database cfg) deps (\<lambda>_. Works) t = (None, t)"
    unfolding ensureQueueCollection_def by (rule ensureCollection_again [OF q])
  have sub: "ensureSubscriptionCollection (ac_Database cfg) deps (\<lambda>_. Works) t = (None, t)"
    by (rule ensureSubscription_again) (use k3 in blast)
  show ?thesis
    using q k1 k2 k3 by (simp add: NewAnnotatedValueSource_def NewAnnotatedValuePublisher_def
        opened queue sub l)
qed

definition example_config :: arango_config where
  "example_config = \<lparr>ac_Endpoints = [''http://db:8529''], ac_Username = ''root'', ac_Password = [],
     ac_Database = ''koalja''\<rparr>"

definition example_dependencies :: link_dependencies where
  "example_dependencies = \<lparr>ld_Namespace = ''ns'', ld_PipelineName = ''p'', ld_LinkName = ''a'', ld_URI = ''uri-a''\<rparr>"

lemma source_setup_witness:
  "has_collection (snd (NewAnnotatedValueSource example_config None (\<lambda>_. Works) example_dependencies []))
     ''koalja'' ''lqueue_ns_p''"
proof -
  have "fst (NewAnnotatedValueSource example_config None (\<lambda>_. Works) example_dependencies [])
      = Inr (deps_link example_dependencies)"
    by code_simp
  then have "NewAnnotatedValueSource example_config None (\<lambda>_. Works) example_dependencies [] =
      (Inr (deps_link example_dependencies),
       snd (NewAnnotatedValueSource example_config None (\<lambda>_. Works) example_dependencies []))"
    by (metis prod.collapse)
  from source_setup [OF this] show ?thesis
    by (simp add: example_config_def example_dependencies_def queueColName_def)
qed

end
