(* ===== verification/Agent_Loop.thy ===== *)
theory Agent_Loop
  imports Retry Agent_Registry
begin

text \<open>
  How an agent keeps itself known to the pipeline agent (\<open>runUpdateAgentRegistration\<close> of
  \<open>pkg/agent/link/service.go\<close> and \<open>pkg/agent/task/service.go\<close>): it registers when its last
  registration is more than a minute old, and publishes its statistics when their hash has changed or
  it has just registered.  Both calls are retried.  A variable that the retried operation assigns is
  part of the world the retries run in (\<open>with_variable\<close>).  A round whose value is \<open>None\<close> holds a retry
  that does not return.
\<close>

section \<open>The loop\<close>

text \<open>The time of the last registration is the zero time, here \<open>None\<close>, before the first one.  The flag
  \<open>alp_registered\<close> says that the channel \<open>agentRegistered\<close> has been closed.\<close>

record agent_loop =
  alp_lastRegistration :: "int option"
  alp_lastHash :: string
  alp_delay :: int
  alp_registered :: bool

text \<open>What the loop uses of its agent: the two calls of the pipeline agent, the statistics as they are
  now, and the hash of statistics.\<close>

record ('w, 'st) agent_ops =
  ao_Register :: "int \<Rightarrow> 'w \<Rightarrow> go_error error_only \<times> 'w"
  ao_Publish :: "'st \<Rightarrow> int \<Rightarrow> 'w \<Rightarrow> go_error error_only \<times> 'w"
  ao_Stats :: "'w \<Rightarrow> 'st"
  ao_Hash :: "'st \<Rightarrow> string"

definition util_Hash :: "(string \<Rightarrow> string) \<Rightarrow> ('v \<Rightarrow> (string, string) go_result) \<Rightarrow> 'v \<Rightarrow> string" where
  "util_Hash sha1_hex json v = (case json v of Inl err \<Rightarrow> err | Inr encoded \<Rightarrow> take 8 (sha1_hex encoded))"

definition TimeoutRegisterAgent :: int where "TimeoutRegisterAgent = 60 * one_second"
definition minDelay :: int where "minDelay = one_second"
definition maxDelay :: int where "maxDelay = 15 * one_second"

definition new_agent_loop :: agent_loop where
  "new_agent_loop = \<lparr>alp_lastRegistration = None, alp_lastHash = [], alp_delay = minDelay,
     alp_registered = False\<rparr>"

definition registration_due :: "int \<Rightarrow> agent_loop \<Rightarrow> bool" where
  "registration_due now l = (case alp_lastRegistration l of
     None \<Rightarrow> True | Some t \<Rightarrow> now - t > 60 * one_second)"

text \<open>The first half of a round; the answer says whether the agent has registered in it.\<close>

definition register_if_due ::
  "'w retry_env \<Rightarrow> ('w, 'st) agent_ops \<Rightarrow> agent_loop \<Rightarrow> 'w \<Rightarrow> ((bool \<times> agent_loop) \<times> 'w) option" where
  "register_if_due env ops l w =
     (if registration_due (re_Now env w) l then
        (case retry_Do env (ao_Register ops) [Timeout TimeoutRegisterAgent] w of
           None \<Rightarrow> None
         | Some (Some e, w) \<Rightarrow> Some ((False, l), w)
         | Some (None, w) \<Rightarrow>
             Some ((True, l\<lparr>alp_lastRegistration := Some (re_Now env w), alp_registered := True\<rparr>), w))
      else Some ((False, l), w))"

text \<open>The operation that publishes: \<open>read\<close> is how it gets the statistics.\<close>

definition publish_changed ::
  "('w, 'st) agent_ops \<Rightarrow> ('w \<Rightarrow> 'st) \<Rightarrow> bool \<Rightarrow> int \<Rightarrow> 'w \<times> string \<Rightarrow> go_error error_only \<times> 'w \<times> string" where
  "publish_changed ops read registered d wh =
     (let stats = read (fst wh); newHash = ao_Hash ops stats in
      if newHash \<noteq> snd wh \<or> registered then
        (case ao_Publish ops stats d (fst wh) of
           (Some e, w) \<Rightarrow> (Some e, (w, snd wh))
         | (None, w) \<Rightarrow> (None, (w, newHash)))
      else (None, wh))"

definition raised_delay :: "int \<Rightarrow> int" where
  "raised_delay delay = (let delay = delay * 3 div 2 in if delay > maxDelay then maxDelay else delay)"

text \<open>The second half of a round; the answer says whether it was run without an error.\<close>

definition publish_if_registered ::
  "'w retry_env \<Rightarrow> ('w, 'st) agent_ops \<Rightarrow> ('w \<Rightarrow> 'st) \<Rightarrow> bool \<Rightarrow> agent_loop \<Rightarrow> 'w
    \<Rightarrow> ((bool \<times> agent_loop) \<times> 'w) option" where
  "publish_if_registered env ops read registered l w =
     (if alp_registered l then
        (case retry_Do (with_variable env) (publish_changed ops read registered)
                [Timeout TimeoutRegisterAgent] (w, alp_lastHash l) of
           None \<Rightarrow> None
         | Some (Some e, (w, h)) \<Rightarrow>
             Some ((False, l\<lparr>alp_lastHash := h, alp_delay := raised_delay (alp_delay l)\<rparr>), w)
         | Some (None, (w, h)) \<Rightarrow> Some ((True, l\<lparr>alp_lastHash := h, alp_delay := minDelay\<rparr>), w))
      else Some ((False, l), w))"

text \<open>One round.  \<open>read\<close> gets the world in which publishing starts, and the world of an attempt.\<close>

definition agent_round ::
  "('w \<Rightarrow> 'w \<Rightarrow> 'st) \<Rightarrow> 'w retry_env \<Rightarrow> ('w, 'st) agent_ops \<Rightarrow> agent_loop \<Rightarrow> 'w
    \<Rightarrow> ((bool \<times> bool \<times> agent_loop) \<times> 'w) option" where
  "agent_round read env ops l w =
     (case register_if_due env ops l w of
        None \<Rightarrow> None
      | Some ((registered, l), w) \<Rightarrow>
          (case publish_if_registered env ops (read w) registered l w of
             None \<Rightarrow> None
           | Some ((published, l), w) \<Rightarrow> Some ((registered, published, l), w)))"

text \<open>The link agent reads its statistics at every attempt, the task agent copies them once before.\<close>

definition link_round ::
  "'w retry_env \<Rightarrow> ('w, LinkStatistics) agent_ops \<Rightarrow> agent_loop \<Rightarrow> 'w \<Rightarrow> ((bool \<times> bool \<times> agent_loop) \<times> 'w) option" where
  "link_round env ops = agent_round (\<lambda>w0 w. ao_Stats ops w) env ops"

definition task_round ::
  "'w retry_env \<Rightarrow> ('w, TaskStatistics) agent_ops \<Rightarrow> agent_loop \<Rightarrow> 'w \<Rightarrow> ((bool \<times> bool \<times> agent_loop) \<times> 'w) option" where
  "task_round env ops = agent_round (\<lambda>w0 w. TaskStatistics_Add (zero_task []) (ao_Stats ops w0)) env ops"

text \<open>The loop runs until its context ends; \<open>None\<close> when it does not.\<close>

partial_function (option) runUpdateAgentRegistration ::
  "(agent_loop \<Rightarrow> 'w \<Rightarrow> ((bool \<times> bool \<times> agent_loop) \<times> 'w) option) \<Rightarrow> 'w retry_env \<Rightarrow> agent_loop \<Rightarrow> 'w \<Rightarrow> 'w option" where
  "runUpdateAgentRegistration round env l w =
     (case round l w of
        None \<Rightarrow> None
      | Some ((registered, published, l), w) \<Rightarrow>
          (case re_Sleep env (alp_delay l) w of
             (timer, w) \<Rightarrow> if timer then runUpdateAgentRegistration round env l w else Some w))"

declare runUpdateAgentRegistration.simps [code]

section \<open>Rounds return\<close>

lemma with_variable_clock:
  fixes env :: "'w retry_env"
  assumes "clock_ok env"
  shows "clock_ok (with_variable env :: ('w \<times> 'v) retry_env)"
  unfolding clock_ok_def
proof (intro conjI allI impI)
  fix d :: int and wv :: "'w \<times> 'v"
  assume d: "0 \<le> d"
  obtain w v where w: "wv = (w, v)" by (rule prod.exhaust)
  obtain timer w' where s: "re_Sleep env d w = (timer, w')" by (rule prod.exhaust)
  show "if fst (re_Sleep (with_variable env) d wv)
      then re_Now (with_variable env) (snd (re_Sleep (with_variable env) d wv)) = re_Now (with_variable env) wv + d
      else re_Now (with_variable env) wv \<le> re_Now (with_variable env) (snd (re_Sleep (with_variable env) d wv))
        \<and> re_Now (with_variable env) (snd (re_Sleep (with_variable env) d wv)) \<le> re_Now (with_variable env) wv + d"
    using clock_sleep [OF assms s d] by (simp add: with_variable_def w s)
next
  fix lo hi :: int and wv :: "'w \<times> 'v"
  assume lo: "lo \<le> hi"
  obtain w v where w: "wv = (w, v)" by (rule prod.exhaust)
  obtain d w' where r: "re_Random env lo hi w = (d, w')" by (rule prod.exhaust)
  note b = clock_random [OF assms r lo]
  show "lo \<le> fst (re_Random (with_variable env) lo hi wv)" using b by (simp add: with_variable_def w r)
  show "fst (re_Random (with_variable env) lo hi wv) \<le> hi" using b by (simp add: with_variable_def w r)
  show "re_Now (with_variable env) (snd (re_Random (with_variable env) lo hi wv)) = re_Now (with_variable env) wv"
    using b by (simp add: with_variable_def w r)
qed

lemma publish_in_time:
  assumes "\<And>st. ends_in_time env (ao_Publish ops st)"
  shows "ends_in_time (with_variable env) (publish_changed ops read registered)"
proof -
  have "re_Now env w \<le> re_Now env w' \<and> re_Now env w' \<le> re_Now env w + d"
    if "ao_Publish ops (read w) d w = (e, w')" "0 \<le> d" for d w e w'
    using assms [of "read w"] that by (auto simp: ends_in_time_def) (metis snd_conv)+
  then show ?thesis
    by (auto simp: ends_in_time_def with_variable_def publish_changed_def Let_def split: prod.splits option.splits)
qed

definition delay_ok :: "agent_loop \<Rightarrow> bool" where
  "delay_ok l \<longleftrightarrow> minDelay \<le> alp_delay l \<and> alp_delay l \<le> maxDelay"

lemma raised_delay_ok:
  "minDelay \<le> d \<Longrightarrow> d \<le> maxDelay \<Longrightarrow> minDelay \<le> raised_delay d \<and> raised_delay d \<le> maxDelay"
  by (auto simp: raised_delay_def Let_def minDelay_def maxDelay_def one_second_def)

lemma register_returns:
  assumes "clock_ok env" and "ends_in_time env (ao_Register ops)" and "delay_ok l"
  shows "\<exists>b l' w'. register_if_due env ops l w = Some ((b, l'), w') \<and> delay_ok l'
    \<and> re_Now env w' \<le> re_Now env w + 2 * TimeoutRegisterAgent"
proof -
  obtain r w' where r: "retry_Do env (ao_Register ops) [Timeout TimeoutRegisterAgent] w = Some (r, w')"
    "re_Now env w' \<le> re_Now env w + 2 * TimeoutRegisterAgent"
    using retry_Do_returns [OF assms(1,2), of TimeoutRegisterAgent w]
    by (auto simp: TimeoutRegisterAgent_def one_second_def)
  show ?thesis
    using r assms(3)
    by (cases r) (auto simp: register_if_due_def delay_ok_def TimeoutRegisterAgent_def one_second_def)
qed

lemma publish_returns:
  assumes "clock_ok env" and "\<And>st. ends_in_time env (ao_Publish ops st)" and "delay_ok l"
  shows "\<exists>b l' w'. publish_if_registered env ops read registered l w = Some ((b, l'), w') \<and> delay_ok l'
    \<and> re_Now env w' \<le> re_Now env w + 2 * TimeoutRegisterAgent"
proof -
  obtain r w' h where r: "retry_Do (with_variable env) (publish_changed ops read registered)
      [Timeout TimeoutRegisterAgent] (w, alp_lastHash l) = Some (r, (w', h))"
    "re_Now env w' \<le> re_Now env w + 2 * TimeoutRegisterAgent"
    using retry_Do_returns [OF with_variable_clock [OF assms(1)] publish_in_time [OF assms(2)],
        of TimeoutRegisterAgent read registered "(w, alp_lastHash l)"]
    by (auto simp: with_variable_def TimeoutRegisterAgent_def one_second_def)
  show ?thesis
    using r assms(3) raised_delay_ok [of "alp_delay l"]
    by (cases r)
       (auto simp: publish_if_registered_def delay_ok_def TimeoutRegisterAgent_def minDelay_def maxDelay_def one_second_def)
qed

text \<open>A round of the loop by which an agent keeps itself known always returns, if only the calls of
  the pipeline agent end when their contexts end: within four minutes, and the loop then waits between
  one second and fifteen seconds, however often publishing has failed.\<close>
theorem agent_round_returns:
  assumes "clock_ok env" and "ends_in_time env (ao_Register ops)" and "\<And>st. ends_in_time env (ao_Publish ops st)"
    and "delay_ok l"
  shows "\<exists>registered published l' w'.
    agent_round read env ops l w = Some ((registered, published, l'), w')
    \<and> re_Now env w' \<le> re_Now env w + 240 * one_second
    \<and> one_second \<le> alp_delay l' \<and> alp_delay l' \<le> 15 * one_second"
proof -
  obtain b l1 w1 where r: "register_if_due env ops l w = Some ((b, l1), w1)" "delay_ok l1"
    "re_Now env w1 \<le> re_Now env w + 2 * TimeoutRegisterAgent"
    using register_returns [OF assms(1,2,4)] by blast
  obtain p l2 w2 where p: "publish_if_registered env ops (read w1) b l1 w1 = Some ((p, l2), w2)" "delay_ok l2"
    "re_Now env w2 \<le> re_Now env w1 + 2 * TimeoutRegisterAgent"
    using publish_returns [OF assms(1,3) r(2)] by blast
  show ?thesis
    using r p by (auto simp: agent_round_def delay_ok_def minDelay_def maxDelay_def TimeoutRegisterAgent_def)
qed
end
