(* ===== verification/Agent_Reports.thy ===== *)
theory Agent_Reports
  imports Agent_Loop
begin

text \<open>
  The loop of an agent together with the registry of the pipeline agent it talks to
  (\<open>Agent_Registry\<close>): what the registry holds after a round.  The laws the loop relies on are a locale,
  interpreted on the registry for link agents and for task agents.
\<close>

section \<open>The last attempt\<close>

text \<open>A retry that returns nil ends with a call of the operation that returned nil; what every step keeps
  holds before that call and after it.\<close>

definition kept_by :: "('w \<Rightarrow> bool) \<Rightarrow> 'w retry_env \<Rightarrow> (int \<Rightarrow> 'w \<Rightarrow> go_error error_only \<times> 'w) \<Rightarrow> bool" where
  "kept_by I env op \<longleftrightarrow> (\<forall>d w. I w \<longrightarrow> I (snd (op d w))) \<and> (\<forall>d w. I w \<longrightarrow> I (snd (re_Sleep env d w)))
     \<and> (\<forall>lo hi w. I w \<longrightarrow> I (snd (re_Random env lo hi w)))"

lemma kept_byD:
  assumes "kept_by I env op" and "I w"
  shows "op d w = (r, w') \<Longrightarrow> I w'" and "re_Sleep env d w = (timer, w') \<Longrightarrow> I w'"
    and "NextBackOff env b w = (n, w') \<Longrightarrow> I w'"
proof -
  have k: "I (snd (op d w))" "I (snd (re_Sleep env d w))" "\<forall>lo hi. I (snd (re_Random env lo hi w))"
    using assms by (auto simp: kept_by_def)
  show "op d w = (r, w') \<Longrightarrow> I w'" "re_Sleep env d w = (timer, w') \<Longrightarrow> I w'" using k by auto
  show "NextBackOff env b w = (n, w') \<Longrightarrow> I w'"
    using assms(2) k(3) by (auto simp: NextBackOff_def split: if_splits prod.splits) (metis snd_conv)+
qed

definition ends_well ::
  "('w \<Rightarrow> bool) \<Rightarrow> 'w retry_env \<Rightarrow> (int \<Rightarrow> 'w \<Rightarrow> go_error error_only \<times> 'w) \<Rightarrow> 'w \<Rightarrow> go_error error_only \<times> 'w \<Rightarrow> bool" where
  "ends_well I env op w y \<longleftrightarrow> (kept_by I env op \<longrightarrow> I w \<longrightarrow>
     I (snd y) \<and> (fst y = None \<longrightarrow> (\<exists>d w0. I w0 \<and> op d w0 = (None, snd y))))"

lemma retry_loop_ends:
  assumes "retry_loop env op b w = Some y"
  shows "ends_well I env op w y"
proof (rule retry_loop.raw_induct [where P = "\<lambda>env op b w y. ends_well I env op w y", OF _ assms])
  fix self env op b w y
  assume IH: "\<And>env op b w y. self env op b w = Some y \<Longrightarrow> ends_well I env op w y"
    and body: "(case retry_attempt env op b w of
        (err, w) \<Rightarrow>
          (case err of
             None \<Rightarrow> Some (None, w)
           | Some e \<Rightarrow>
               (case e of
                  PermanentError p \<Rightarrow> Some (Some p, w)
                | _ \<Rightarrow>
                    (case NextBackOff env b w of
                       ((next, b), w) \<Rightarrow>
                         (case next of
                            None \<Rightarrow> Some (Some e, w)
                          | Some d \<Rightarrow>
                              (case re_Sleep env d w of
                                 (timer, w) \<Rightarrow>
                                   if timer then self env op b w else Some (Some e, w))))))) = Some y"
  show "ends_well I env op w y" unfolding ends_well_def
  proof (intro impI)
    assume k: "kept_by I env op" and I: "I w"
    obtain err w1 where a: "retry_attempt env op b w = (err, w1)" by (rule prod.exhaust)
    obtain n b' w2 where nb: "NextBackOff env b w1 = ((n, b'), w2)" by (metis prod.exhaust)
    have I1: "I w1" using kept_byD(1) [OF k I] a
      by (auto simp: retry_attempt_def split: prod.splits option.splits)
    have I2: "I w2" by (rule kept_byD(3) [OF k I1 nb])
    have I3: "re_Sleep env d w2 = (timer, w3) \<Longrightarrow> I w3" for d timer w3 by (rule kept_byD(2) [OF k I2])
    have s: "err = None \<Longrightarrow> op (bo_MaxInterval b) w = (None, w1)"
      using a by (auto simp: retry_attempt_def split: prod.splits option.splits)
    have rec: "self env op b'' w'' = Some y \<Longrightarrow> I w'' \<Longrightarrow>
        I (snd y) \<and> (fst y = None \<longrightarrow> (\<exists>d w0. I w0 \<and> op d w0 = (None, snd y)))" for b'' w''
      using IH [of env op b'' w'' y] k unfolding ends_well_def by blast
    show "I (snd y) \<and> (fst y = None \<longrightarrow> (\<exists>d w0. I w0 \<and> op d w0 = (None, snd y)))"
    proof (cases err)
      case None
      then have "y = (None, w1)" using body by (simp add: a)
      then show ?thesis using I I1 s [OF None] by auto
    next
      case (Some e)
      then show ?thesis
        using body I1 I2
        by (auto simp: a nb split: option.splits go_error.splits if_splits prod.splits dest: I3 rec)
    qed
  qed
qed

lemma retry_Do_ends:
  assumes "retry_Do env op opts w = Some (r, w')" and "kept_by I env op" and "I w"
  shows "I w'" and "r = None \<Longrightarrow> \<exists>d w0. I w0 \<and> op d w0 = (None, w')"
proof -
  obtain b where "retry_loop env op b w = Some (r, w')"
    using assms(1) by (auto simp: retry_Do_def split: option.splits)
  from retry_loop_ends [OF this, of I] show "I w'" "r = None \<Longrightarrow> \<exists>d w0. I w0 \<and> op d w0 = (None, w')"
    using assms(2,3) by (simp_all add: ends_well_def)
qed

section \<open>What a sink of statistics promises\<close>

text \<open>
  \<open>ok\<close> is what every step of the world keeps, \<open>shown\<close> what the sink shows for the agent, \<open>noted\<close> how it
  notes a report.  Only a report of the agent's own (\<open>own\<close>) that is answered without an error has to be
  shown.
\<close>

locale statistics_sink =
  fixes env :: "'w retry_env" and ops :: "('w, 'st) agent_ops"
    and ok :: "'w \<Rightarrow> bool" and own :: "'st \<Rightarrow> bool" and shown :: "'w \<Rightarrow> 'st option" and noted :: "'st \<Rightarrow> 'st"
  assumes register_ok: "ok w \<Longrightarrow> ok (snd (ao_Register ops d w))"
    and publish_ok: "ok w \<Longrightarrow> ok (snd (ao_Publish ops st d w))"
    and sleep_ok: "ok w \<Longrightarrow> ok (snd (re_Sleep env d w))"
    and random_ok: "ok w \<Longrightarrow> ok (snd (re_Random env lo hi w))"
    and publish_shown: "ok w \<Longrightarrow> own st \<Longrightarrow> ao_Publish ops st d w = (None, w') \<Longrightarrow> shown w' = Some (noted st)"
begin

lemma registered_ok:
  assumes "register_if_due env ops l w = Some ((registered, l'), w')" and "ok w"
  shows "ok w'" and "alp_lastHash l' = alp_lastHash l" and "registered \<Longrightarrow> alp_registered l'"
proof -
  have "kept_by ok env (ao_Register ops)" by (simp add: kept_by_def register_ok sleep_ok random_ok)
  then show "ok w'" using assms retry_Do_ends(1) [of env "ao_Register ops" _ w _ w' ok]
    by (auto simp: register_if_due_def split: if_splits option.splits)
  show "alp_lastHash l' = alp_lastHash l" "registered \<Longrightarrow> alp_registered l'" using assms
    by (auto simp: register_if_due_def split: if_splits option.splits)
qed

lemma publish_kept:
  "kept_by (\<lambda>wh. ok (fst wh)) (with_variable env) (publish_changed ops read registered)"
proof -
  have p: "ok (fst (snd (publish_changed ops read registered d wh)))" if "ok (fst wh)" for d wh
  proof -
    obtain e w' where o: "ao_Publish ops (read (fst wh)) d (fst wh) = (e, w')" by (rule prod.exhaust)
    have "ok w'" using publish_ok [OF that, of "read (fst wh)" d] o by simp
    then show ?thesis using that by (cases e) (simp_all add: publish_changed_def Let_def o)
  qed
  have s: "ok (fst (snd (re_Sleep (with_variable env) d wh)))" if "ok (fst wh)" for d and wh :: "'w \<times> string"
  proof -
    obtain timer w' where o: "re_Sleep env d (fst wh) = (timer, w')" by (rule prod.exhaust)
    then show ?thesis using sleep_ok [OF that, of d] by (simp add: with_variable_def case_prod_beta)
  qed
  have r: "ok (fst (snd (re_Random (with_variable env) lo hi wh)))" if "ok (fst wh)" for lo hi and wh :: "'w \<times> string"
    using random_ok [OF that, of lo hi] by (simp add: with_variable_def case_prod_beta)
  show ?thesis using p s r by (simp add: kept_by_def)
qed

text \<open>In a round that has registered, a report answered without an error is shown at its end.\<close>

lemma published_shown:
  assumes "publish_if_registered env ops read True l w = Some ((True, l'), w')" and "ok w" and "\<And>w. own (read w)"
  shows "\<exists>w1. ok w1 \<and> shown w' = Some (noted (read w1)) \<and> alp_lastHash l' = ao_Hash ops (read w1)"
proof -
  obtain h where r: "retry_Do (with_variable env) (publish_changed ops read True)
      [Timeout TimeoutRegisterAgent] (w, alp_lastHash l) = Some (None, (w', h))" and h: "alp_lastHash l' = h"
    using assms(1) unfolding publish_if_registered_def by (auto split: if_splits option.splits prod.splits)
  obtain d wh where I: "ok (fst wh)" and o: "publish_changed ops read True d wh = (None, (w', h))"
    using retry_Do_ends(2) [OF r publish_kept] assms(2) by auto
  obtain e w2 where p: "ao_Publish ops (read (fst wh)) d (fst wh) = (e, w2)" by (rule prod.exhaust)
  have e: "e = None" "w2 = w'" "ao_Hash ops (read (fst wh)) = h"
    using o by (simp_all add: publish_changed_def p split: option.splits)
  have "shown w' = Some (noted (read (fst wh)))" by (rule publish_shown [OF I assms(3)]) (use p e in simp)
  then show ?thesis using I h e by (intro exI [of _ "fst wh"]) simp
qed

lemma round_shown:
  assumes "agent_round read env ops l w = Some ((True, True, l'), w')" and "ok w" and "\<And>w0 w1. own (read w0 w1)"
  shows "\<exists>w0 w1. ok w1 \<and> shown w' = Some (noted (read w0 w1)) \<and> alp_lastHash l' = ao_Hash ops (read w0 w1)"
proof -
  obtain l1 w0 where r: "register_if_due env ops l w = Some ((True, l1), w0)"
    and p: "publish_if_registered env ops (read w0) True l1 w0 = Some ((True, l'), w')"
    using assms(1) by (auto simp: agent_round_def split: option.splits)
  show ?thesis using published_shown [OF p registered_ok(1) [OF r assms(2)] assms(3)] by blast
qed

end

section \<open>The pipeline agent behind the network\<close>

text \<open>A call may get through, be lost, or be carried out with its answer lost.\<close>

datatype delivery = Delivered | CallLost go_error | AnswerLost go_error

text \<open>
  The rest of the world, of which the network takes a step at every call: the time at the pipeline
  agent, its order of agents with equal times, the statistics of the agent, and the calls of other
  agents that the pipeline agent serves while this one waits.
\<close>

record 'x agent_network =
  an_Deliver :: "'x \<Rightarrow> delivery \<times> 'x"
  an_Now :: "'x \<Rightarrow> int"
  an_Links :: "LinkStatistics agent list \<Rightarrow> LinkStatistics agent list"
  an_Tasks :: "TaskStatistics agent list \<Rightarrow> TaskStatistics agent list"
  an_Others :: "'x \<Rightarrow> registry_call list"

definition send_call :: "'x agent_network \<Rightarrow> registry_call \<Rightarrow> agent_registry \<times> 'x \<Rightarrow> go_error error_only \<times> agent_registry \<times> 'x" where
  "send_call net c rx =
     (case an_Deliver net (snd rx) of
        (Delivered, x) \<Rightarrow> (None, (registry_step (an_Links net) (an_Tasks net) c (fst rx), x))
      | (CallLost e, x) \<Rightarrow> (Some e, (fst rx, x))
      | (AnswerLost e, x) \<Rightarrow> (Some e, (registry_step (an_Links net) (an_Tasks net) c (fst rx), x)))"

definition others_step :: "'x agent_network \<Rightarrow> agent_registry \<times> 'x \<Rightarrow> agent_registry \<times> 'x" where
  "others_step net rx =
     (foldl (\<lambda>s c. registry_step (an_Links net) (an_Tasks net) c s) (fst rx) (an_Others net (snd rx)), snd rx)"

definition with_registry :: "'x agent_network \<Rightarrow> 'x retry_env \<Rightarrow> (agent_registry \<times> 'x) retry_env" where
  "with_registry net env =
     \<lparr>re_Now = (\<lambda>rx. re_Now env (snd rx)), re_Deadline = re_Deadline env, re_CtxErr = (\<lambda>rx. re_CtxErr env (snd rx)),
      re_Sleep = (\<lambda>d rx. (case re_Sleep env d (snd rx) of (timer, x) \<Rightarrow> (timer, others_step net (fst rx, x)))),
      re_Random = (\<lambda>lo hi rx. (case re_Random env lo hi (snd rx) of (d, x) \<Rightarrow> (d, (fst rx, x))))\<rparr>"

text \<open>The loops of the agent of the link, or of the task, with the name and the URI.\<close>

definition link_ops ::
  "'x agent_network \<Rightarrow> (LinkStatistics \<Rightarrow> string) \<Rightarrow> ('x \<Rightarrow> LinkStatistics) \<Rightarrow> string \<Rightarrow> string
    \<Rightarrow> (agent_registry \<times> 'x, LinkStatistics) agent_ops" where
  "link_ops net hash stats name uri =
     \<lparr>ao_Register = (\<lambda>d. send_call net (LinkCall (CallRegister name uri))),
      ao_Publish = (\<lambda>st d rx. send_call net (LinkCall (CallReport (ls_Name st) (ls_URI st) (an_Now net (snd rx)) st)) rx),
      ao_Stats = (\<lambda>rx. stats (snd rx)), ao_Hash = hash\<rparr>"

definition task_ops ::
  "'x agent_network \<Rightarrow> (TaskStatistics \<Rightarrow> string) \<Rightarrow> ('x \<Rightarrow> TaskStatistics) \<Rightarrow> string \<Rightarrow> string
    \<Rightarrow> (agent_registry \<times> 'x, TaskStatistics) agent_ops" where
  "task_ops net hash stats name uri =
     \<lparr>ao_Register = (\<lambda>d. send_call net (TaskCall (CallRegister name uri))),
      ao_Publish = (\<lambda>st d rx. send_call net (TaskCall (CallReport (tst_Name st) (tst_URI st) (an_Now net (snd rx)) st)) rx),
      ao_Stats = (\<lambda>rx. stats (snd rx)), ao_Hash = hash\<rparr>"

text \<open>Sorting agents by time keeps them.\<close>

definition resorts :: "'x agent_network \<Rightarrow> bool" where
  "resorts net \<longleftrightarrow> (\<forall>l. mset (an_Links net l) = mset l) \<and> (\<forall>l. mset (an_Tasks net l) = mset l)"

text \<open>The registry only ever holds what calls have made of it.\<close>

definition registry_known :: "'x agent_network \<Rightarrow> agent_registry \<times> 'x \<Rightarrow> bool" where
  "registry_known net rx \<longleftrightarrow> resorts net \<and> (\<exists>cs. fst rx = run_registry (an_Links net) (an_Tasks net) cs)"

definition link_shown :: "string \<Rightarrow> string \<Rightarrow> agent_registry \<times> 'x \<Rightarrow> LinkStatistics option" where
  "link_shown name uri rx = data_of (agents_named (ar_linkAgents (fst rx)) name) uri"

definition task_shown :: "string \<Rightarrow> string \<Rightarrow> agent_registry \<times> 'x \<Rightarrow> TaskStatistics option" where
  "task_shown name uri rx = data_of (agents_named (ar_taskAgents (fst rx)) name) uri"

lemma run_registry_snoc: "run_registry rl rt (cs @ [c]) = registry_step rl rt c (run_registry rl rt cs)"
  by (simp add: run_registry_def)

lemma run_registry_append:
  "run_registry rl rt (cs @ ds) = foldl (\<lambda>s c. registry_step rl rt c s) (run_registry rl rt cs) ds"
  by (simp add: run_registry_def)

lemma known_after:
  "resorts net \<Longrightarrow> reg = run_registry (an_Links net) (an_Tasks net) cs \<Longrightarrow> registry_known net (reg, x)"
  unfolding registry_known_def by (rule conjI, assumption, rule exI) simp

lemma send_call_known:
  assumes "registry_known net rx"
  shows "registry_known net (snd (send_call net c rx))"
proof -
  obtain cs where cs: "fst rx = run_registry (an_Links net) (an_Tasks net) cs"
    using assms by (auto simp: registry_known_def)
  have "registry_known net (registry_step (an_Links net) (an_Tasks net) c (fst rx), x)" for x
    by (rule known_after [where cs = "cs @ [c]"])
       (use assms in \<open>simp_all add: registry_known_def run_registry_snoc cs\<close>)
  then show ?thesis using assms
    by (auto simp: send_call_def registry_known_def split: prod.splits delivery.splits)
qed

lemma wait_known:
  assumes "registry_known net rx"
  shows "registry_known net (snd (re_Sleep (with_registry net env) d rx))"
    and "registry_known net (snd (re_Random (with_registry net env) lo hi rx))"
proof -
  obtain cs where cs: "fst rx = run_registry (an_Links net) (an_Tasks net) cs"
    using assms by (auto simp: registry_known_def)
  have "registry_known net (others_step net (fst rx, x))" for x
    unfolding others_step_def fst_conv snd_conv
    by (rule known_after [where cs = "cs @ an_Others net x"])
       (use assms in \<open>simp_all add: registry_known_def run_registry_append cs\<close>)
  then show "registry_known net (snd (re_Sleep (with_registry net env) d rx))"
    by (simp add: with_registry_def case_prod_beta)
  show "registry_known net (snd (re_Random (with_registry net env) lo hi rx))"
    using assms by (simp add: with_registry_def case_prod_beta registry_known_def)
qed

lemma answered_call:
  "send_call net c rx = (None, w') \<Longrightarrow> fst w' = registry_step (an_Links net) (an_Tasks net) c (fst rx)"
  by (auto simp: send_call_def split: prod.splits delivery.splits)

text \<open>A report made in a known registry is what the registry has for the agent.\<close>

lemma report_data:
  assumes "agents_inv zero add calls m" and "\<And>l. mset (resort l) = mset l"
  shows "data_of (agents_named (publish_report resort zero add n uri now d m) n) uri = Some (add zero d)"
  using agents_inv_report [OF assms, of n uri now d]
  by (simp add: agents_inv_def agents_seen_snoc latest_report_snoc)

lemma known_inv:
  assumes "registry_known net rx"
  shows "\<exists>calls. agents_inv (zero_link []) LinkStatistics_Add calls (ar_linkAgents (fst rx))"
    and "\<exists>calls. agents_inv (zero_task []) TaskStatistics_Add calls (ar_taskAgents (fst rx))"
proof -
  obtain cs where cs: "fst rx = run_registry (an_Links net) (an_Tasks net) cs"
    using assms by (auto simp: registry_known_def)
  have r: "\<And>l. mset (an_Links net l) = mset l" "\<And>l. mset (an_Tasks net l) = mset l"
    using assms by (simp_all add: registry_known_def resorts_def)
  note run = run_registry_agents [of "an_Links net" "an_Tasks net" cs]
  show "\<exists>calls. agents_inv (zero_link []) LinkStatistics_Add calls (ar_linkAgents (fst rx))"
    using run agents_inv_calls [OF r(1)] unfolding cs by metis
  show "\<exists>calls. agents_inv (zero_task []) TaskStatistics_Add calls (ar_taskAgents (fst rx))"
    using run agents_inv_calls [OF r(2)] unfolding cs by metis
qed

lemma link_report_shown:
  assumes "registry_known net rx"
    and "ao_Publish (link_ops net hash stats name uri) st d rx = (None, w')"
  shows "link_shown (ls_Name st) (ls_URI st) w' = Some (LinkStatistics_Add (zero_link []) st)"
proof -
  let ?c = "LinkCall (CallReport (ls_Name st) (ls_URI st) (an_Now net (snd rx)) st)"
  obtain calls where inv: "agents_inv (zero_link []) LinkStatistics_Add calls (ar_linkAgents (fst rx))"
    using known_inv(1) [OF assms(1)] by blast
  have r: "\<And>l. mset (an_Links net l) = mset l" using assms(1) by (simp add: registry_known_def resorts_def)
  have "send_call net ?c rx = (None, w')" using assms(2) by (simp add: link_ops_def)
  from answered_call [OF this] show ?thesis
    using report_data [OF inv r, of "ls_Name st" "ls_URI st" "an_Now net (snd rx)" st]
    by (simp add: link_shown_def PublishLinkStatistics_def)
qed

lemma task_report_shown:
  assumes "registry_known net rx"
    and "ao_Publish (task_ops net hash stats name uri) st d rx = (None, w')"
  shows "task_shown (tst_Name st) (tst_URI st) w' = Some (TaskStatistics_Add (zero_task []) st)"
proof -
  let ?c = "TaskCall (CallReport (tst_Name st) (tst_URI st) (an_Now net (snd rx)) st)"
  obtain calls where inv: "agents_inv (zero_task []) TaskStatistics_Add calls (ar_taskAgents (fst rx))"
    using known_inv(2) [OF assms(1)] by blast
  have r: "\<And>l. mset (an_Tasks net l) = mset l" using assms(1) by (simp add: registry_known_def resorts_def)
  have "send_call net ?c rx = (None, w')" using assms(2) by (simp add: task_ops_def)
  from answered_call [OF this] show ?thesis
    using report_data [OF inv r, of "tst_Name st" "tst_URI st" "an_Now net (snd rx)" st]
    by (simp add: task_shown_def PublishTaskStatistics_def)
qed

definition own_link :: "string \<Rightarrow> string \<Rightarrow> LinkStatistics \<Rightarrow> bool" where
  "own_link name uri st \<longleftrightarrow> ls_Name st = name \<and> ls_URI st = uri"

definition own_task :: "string \<Rightarrow> string \<Rightarrow> TaskStatistics \<Rightarrow> bool" where
  "own_task name uri st \<longleftrightarrow> tst_Name st = name \<and> tst_URI st = uri"

interpretation link_sink: statistics_sink "with_registry net env" "link_ops net hash stats name uri"
  "registry_known net" "own_link name uri" "link_shown name uri" "LinkStatistics_Add (zero_link [])"
  for net :: "'x agent_network" and env hash stats name uri
proof
  fix w w' :: "agent_registry \<times> 'x" and st d
  assume "registry_known net w" "own_link name uri st" "ao_Publish (link_ops net hash stats name uri) st d w = (None, w')"
  then show "link_shown name uri w' = Some (LinkStatistics_Add (zero_link []) st)"
    using link_report_shown [of net w hash stats name uri st d w'] by (simp add: own_link_def)
qed (simp_all add: link_ops_def send_call_known wait_known)

interpretation task_sink: statistics_sink "with_registry net env" "task_ops net hash stats name uri"
  "registry_known net" "own_task name uri" "task_shown name uri" "TaskStatistics_Add (zero_task [])"
  for net :: "'x agent_network" and env hash stats name uri
proof
  fix w w' :: "agent_registry \<times> 'x" and st d
  assume "registry_known net w" "own_task name uri st" "ao_Publish (task_ops net hash stats name uri) st d w = (None, w')"
  then show "task_shown name uri w' = Some (TaskStatistics_Add (zero_task []) st)"
    using task_report_shown [of net w hash stats name uri st d w'] by (simp add: own_task_def)
qed (simp_all add: task_ops_def send_call_known wait_known)

section \<open>Properties\<close>

lemma add_to_zero_link: "LinkStatistics_Add (zero_link []) st = st"
  by (simp add: LinkStatistics_Add_def zero_link_def)

text \<open>C28: What the pipeline agent shows of a link. A round of the link agent that registers and then
  publishes without an error leaves in the registry of the pipeline agent, as the latest report of this
  agent, the very statistics the agent had at some moment of the round, and remembers their hash; however
  many calls were lost or answered in vain before, and whatever other agents have reported meanwhile.\<close>
theorem link_round_reports:
  assumes "link_round (with_registry net env) (link_ops net hash stats name uri) l (reg, x) = Some ((True, True, l'), w')"
    and "resorts net" and "reg = run_registry (an_Links net) (an_Tasks net) cs"
    and "\<And>x. ls_Name (stats x) = name \<and> ls_URI (stats x) = uri"
  shows "\<exists>x1. data_of (agents_named (ar_linkAgents (fst w')) name) uri = Some (stats x1)
    \<and> alp_lastHash l' = hash (stats x1)"
proof -
  have "registry_known net (reg, x)" using assms(2,3) by (auto simp: registry_known_def)
  from link_sink.round_shown [OF assms(1) [unfolded link_round_def] this] show ?thesis
    using assms(4) by (auto simp: own_link_def link_ops_def link_shown_def add_to_zero_link)
qed

lemma task_round_reports:
  assumes "task_round (with_registry net env) (task_ops net hash stats name uri) l (reg, x) = Some ((True, True, l'), w')"
    and "resorts net" and "reg = run_registry (an_Links net) (an_Tasks net) cs"
    and "\<And>x. own_task name uri (TaskStatistics_Add (zero_task []) (stats x))"
  shows "\<exists>x1. data_of (agents_named (ar_taskAgents (fst w')) name) uri
      = Some (TaskStatistics_Add (zero_task []) (TaskStatistics_Add (zero_task []) (stats x1)))
    \<and> alp_lastHash l' = hash (TaskStatistics_Add (zero_task []) (stats x1))"
proof -
  have "registry_known net (reg, x)" using assms(2,3) by (auto simp: registry_known_def)
  from task_sink.round_shown [OF assms(1) [unfolded task_round_def] this] show ?thesis
    using assms(4) by (auto simp: task_ops_def task_shown_def)
qed

section \<open>A report that failed\<close>

text \<open>Nothing but the time-out ends the retries: no deadline, no end of the context, no permanent error.\<close>

definition never_permanent :: "go_error error_only \<Rightarrow> bool" where
  "never_permanent r = (case r of None \<Rightarrow> True | Some e \<Rightarrow> (case root_cause e of PermanentError p \<Rightarrow> False | _ \<Rightarrow> True))"

definition undisturbed :: "'w retry_env \<Rightarrow> (int \<Rightarrow> 'w \<Rightarrow> go_error error_only \<times> 'w) \<Rightarrow> bool" where
  "undisturbed env op \<longleftrightarrow> re_Deadline env = None \<and> (\<forall>w. re_CtxErr env w = None) \<and> (\<forall>d w. fst (re_Sleep env d w))
     \<and> (\<forall>d w. never_permanent (fst (op d w)))
     \<and> (\<forall>lo hi w. re_Now env (snd (re_Random env lo hi w)) = re_Now env w)"

definition fails_late :: "'w retry_env \<Rightarrow> (int \<Rightarrow> 'w \<Rightarrow> go_error error_only \<times> 'w) \<Rightarrow> ExponentialBackOff
    \<Rightarrow> go_error error_only \<times> 'w \<Rightarrow> bool" where
  "fails_late env op b y \<longleftrightarrow> (undisturbed env op \<longrightarrow> bo_MaxElapsedTime b \<noteq> 0 \<longrightarrow> fst y \<noteq> None \<longrightarrow>
     re_Now env (snd y) - bo_startTime b > bo_MaxElapsedTime b)"

lemma undisturbed_attempt:
  assumes "undisturbed env op"
  shows "retry_attempt env op b w \<noteq> (Some (PermanentError p), w')"
proof
  assume a: "retry_attempt env op b w = (Some (PermanentError p), w')"
  obtain r w1 where o: "op (bo_MaxInterval b) w = (r, w1)" by (rule prod.exhaust)
  have n: "never_permanent r" "re_CtxErr env w1 = None"
    using assms o by (auto simp: undisturbed_def) (metis fst_conv)
  then show False
    using a by (cases r) (auto simp: retry_attempt_def o lctx_Err_def never_permanent_def split: if_splits)
qed

lemma undisturbed_stop:
  assumes "undisturbed env op" and "bo_MaxElapsedTime b \<noteq> 0" and "NextBackOff env b w = ((n, b'), w')"
  shows "n = None \<Longrightarrow> re_Now env w' - bo_startTime b > bo_MaxElapsedTime b"
    and "bo_startTime b' = bo_startTime b" and "bo_MaxElapsedTime b' = bo_MaxElapsedTime b"
  using assms
  by (auto simp: NextBackOff_def undisturbed_def split: if_splits prod.splits)

lemma retry_loop_late:
  assumes "retry_loop env op b w = Some y"
  shows "fails_late env op b y"
proof (rule retry_loop.raw_induct [where P = "\<lambda>env op b w y. fails_late env op b y", OF _ assms])
  fix self env op b w y
  assume IH: "\<And>env op b w y. self env op b w = Some y \<Longrightarrow> fails_late env op b y"
    and body: "(case retry_attempt env op b w of
        (err, w) \<Rightarrow>
          (case err of
             None \<Rightarrow> Some (None, w)
           | Some e \<Rightarrow>
               (case e of
                  PermanentError p \<Rightarrow> Some (Some p, w)
                | _ \<Rightarrow>
                    (case NextBackOff env b w of
                       ((next, b), w) \<Rightarrow>
                         (case next of
                            None \<Rightarrow> Some (Some e, w)
                          | Some d \<Rightarrow>
                              (case re_Sleep env d w of
                                 (timer, w) \<Rightarrow>
                                   if timer then self env op b w else Some (Some e, w))))))) = Some y"
  show "fails_late env op b y" unfolding fails_late_def
  proof (intro impI)
    assume u: "undisturbed env op" and m: "bo_MaxElapsedTime b \<noteq> 0" and f: "fst y \<noteq> None"
    obtain err w1 where a: "retry_attempt env op b w = (err, w1)" by (rule prod.exhaust)
    obtain e where e: "err = Some e" "\<forall>p. e \<noteq> PermanentError p"
    proof (cases err)
      case None
      then have "y = (None, w1)" using body by (simp add: a)
      then show ?thesis using f by simp
    next
      case (Some e)
      then show ?thesis using that undisturbed_attempt [OF u, of b w _ w1] a by auto
    qed
    obtain n b' w2 where nb: "NextBackOff env b w1 = ((n, b'), w2)" by (metis prod.exhaust)
    note stop = undisturbed_stop [OF u m nb]
    have body': "(case n of None \<Rightarrow> Some (Some e, w2)
        | Some d \<Rightarrow> (case re_Sleep env d w2 of (timer, w) \<Rightarrow>
            if timer then self env op b' w else Some (Some e, w))) = Some y"
      using body unfolding a e(1) using e(2) by (auto simp: nb split: go_error.splits)
    show "re_Now env (snd y) - bo_startTime b > bo_MaxElapsedTime b"
    proof (cases n)
      case None
      then show ?thesis using stop(1) body' by auto
    next
      case (Some d)
      obtain timer w3 where s: "re_Sleep env d w2 = (timer, w3)" by (rule prod.exhaust)
      have timer using u s unfolding undisturbed_def by (metis fst_conv)
      then have "self env op b' w3 = Some y" using body' Some s by simp
      from IH [OF this] show ?thesis using u m f stop(2,3) by (simp add: fails_late_def)
    qed
  qed
qed

lemma retry_Do_late:
  assumes "retry_Do env op [Timeout t] w = Some (Some e, w')" and "undisturbed env op" and "t \<noteq> 0"
  shows "re_Now env w' - re_Now env w > t"
proof -
  obtain b where b: "retry_config env [Timeout t] w = Some b" "bo_MaxElapsedTime b = t"
    by (simp add: retry_config_def Let_def)
  with assms(1) have "retry_loop env op (backoff_Reset (re_Now env w) b) w = Some (Some e, w')"
    by (simp add: retry_Do_def)
  from retry_loop_late [OF this] show ?thesis
    using assms(2,3) b(2) by (simp add: fails_late_def backoff_Reset_def)
qed

lemma publish_undisturbed:
  assumes "\<And>st. undisturbed env (ao_Publish ops st)"
  shows "undisturbed (with_variable env) (publish_changed ops read registered)"
proof -
  have p: "never_permanent (fst (publish_changed ops read registered d wh))" for d wh
  proof -
    obtain r w' where o: "ao_Publish ops (read (fst wh)) d (fst wh) = (r, w')" by (rule prod.exhaust)
    have "never_permanent r" using assms [of "read (fst wh)"] o unfolding undisturbed_def by (metis fst_conv)
    then show ?thesis by (cases r) (simp_all add: publish_changed_def Let_def o never_permanent_def)
  qed
  show ?thesis
    using assms [of undefined] p
    by (simp add: undisturbed_def with_variable_def case_prod_beta)
qed

text \<open>A report that failed is made up for. If the round that registered an agent could not publish its
  statistics, then the next round is due to register again, and so publishes them whether or not they
  have changed: the retries of a report go on for as long as a registration lasts, so that the agent
  does not need to remember that its report is missing.  This is so as long as nothing but their time-out
  ends the retries.\<close>
theorem failed_report_registers_again:
  assumes "agent_round read env ops l w = Some ((True, False, l'), w')"
    and "\<And>st. undisturbed env (ao_Publish ops st)" and "re_Now env w' \<le> now"
  shows "registration_due now l' \<and> alp_registered l'"
proof -
  obtain l1 w1 where r: "register_if_due env ops l w = Some ((True, l1), w1)"
    and p: "publish_if_registered env ops (read w1) True l1 w1 = Some ((False, l'), w')"
    using assms(1) by (auto simp: agent_round_def split: option.splits)
  have l1: "alp_lastRegistration l1 = Some (re_Now env w1)" "alp_registered l1"
    using r by (auto simp: register_if_due_def split: if_splits option.splits)
  obtain e h where "retry_Do (with_variable env) (publish_changed ops (read w1) True)
      [Timeout TimeoutRegisterAgent] (w1, alp_lastHash l1) = Some (Some e, (w', h))"
    and l': "l' = l1\<lparr>alp_lastHash := h, alp_delay := raised_delay (alp_delay l1)\<rparr>"
    using p l1(2) unfolding publish_if_registered_def by (auto split: option.splits prod.splits)
  from retry_Do_late [OF this(1) publish_undisturbed [OF assms(2)]]
  have "re_Now env w' - re_Now env w1 > 60 * one_second"
    by (simp add: with_variable_def TimeoutRegisterAgent_def one_second_def)
  then show ?thesis using l1 l' assms(3) by (simp add: registration_due_def)
qed

text \<open>A world of the time and the number of calls made; the pipeline agent is reached by the first call,
  then not before the time \<open>until\<close>.\<close>

definition flaky_net :: "int \<Rightarrow> (int \<times> int) agent_network" where
  "flaky_net until = \<lparr>an_Deliver = (\<lambda>(now, n). (if n = 0 \<or> now \<ge> until then Delivered
       else if n = 1 then AnswerLost (PlainError ''reset'') else CallLost (PlainError ''unreachable''), (now, n + 1))),
     an_Now = fst, an_Links = id, an_Tasks = id, an_Others = (\<lambda>_. [])\<rparr>"

definition ticking_env :: "(int \<times> int) retry_env" where
  "ticking_env = \<lparr>re_Now = fst, re_Deadline = None, re_CtxErr = (\<lambda>w. None),
     re_Sleep = (\<lambda>d (now, n). (True, (now + d, n))), re_Random = (\<lambda>lo hi w. (lo, w))\<rparr>"

definition waiting_hash :: "LinkStatistics \<Rightarrow> string" where
  "waiting_hash st = replicate (nat (ls_AnnotatedValuesWaiting st)) CHR ''x''"

definition call_stats :: "int \<times> int \<Rightarrow> LinkStatistics" where
  "call_stats = (\<lambda>(now, n). \<lparr>ls_Name = ''l'', ls_URI = ''u'', ls_AnnotatedValuesWaiting = n,
     ls_AnnotatedValuesInProgress = 0, ls_AnnotatedValuesAcknowledged = 0\<rparr>)"

definition flaky_round :: "int \<Rightarrow> (int \<times> int \<Rightarrow> LinkStatistics) \<Rightarrow> agent_loop
    \<Rightarrow> ((bool \<times> bool \<times> agent_loop) \<times> agent_registry \<times> int \<times> int) option" where
  "flaky_round until stats l = link_round (with_registry (flaky_net until) ticking_env)
     (link_ops (flaky_net until) waiting_hash stats ''l'' ''u'') l (newAgentRegistry, (0, 0))"

lemma flaky_round_reports:
  "flaky_round (3 * one_second) call_stats new_agent_loop
    = Some ((True, True, \<lparr>alp_lastRegistration = Some 0, alp_lastHash = ''xxxx'', alp_delay = minDelay, alp_registered = True\<rparr>),
        (\<lparr>ar_linkAgents = [(''l'', [\<lparr>ag_URI = ''u'', ag_Timestamp = Some 4750000000, ag_Data = call_stats (0, 4)\<rparr>])],
          ar_taskAgents = [], ar_notified = 2\<rparr>, (4750000000, 5)))"
  by code_simp

lemma link_round_reports_witness:
  "\<exists>w l. flaky_round (3 * one_second) call_stats new_agent_loop = Some ((True, True, l), w)
     \<and> (\<exists>x1. data_of (agents_named (ar_linkAgents (fst w)) ''l'') ''u'' = Some (call_stats x1)
          \<and> alp_lastHash l = waiting_hash (call_stats x1))"
proof -
  have reg: "newAgentRegistry = run_registry (an_Links (flaky_net (3 * one_second))) (an_Tasks (flaky_net (3 * one_second))) []"
    by (simp add: run_registry_def)
  have "resorts (flaky_net (3 * one_second))" by (simp add: resorts_def flaky_net_def)
  from link_round_reports [OF flaky_round_reports [unfolded flaky_round_def] this reg] show ?thesis
    using flaky_round_reports by (auto simp: call_stats_def split: prod.splits)
qed

text \<open>The pipeline agent is gone for longer than a minute, right after it has registered the agent.\<close>

lemma flaky_round_fails:
  "flaky_round (100 * one_second) (\<lambda>_. call_stats (0, 2)) (new_agent_loop\<lparr>alp_lastHash := ''xx''\<rparr>)
    = Some ((True, False, \<lparr>alp_lastRegistration = Some 0, alp_lastHash = ''xx'', alp_delay = 1500000000, alp_registered = True\<rparr>),
        (\<lparr>ar_linkAgents = [(''l'', [\<lparr>ag_URI = ''u'', ag_Timestamp = Some 0, ag_Data = call_stats (0, 2)\<rparr>])],
          ar_taskAgents = [], ar_notified = 1\<rparr>, (60781250000, 12)))"
  by code_simp

lemma failed_report_registers_again_witness:
  "\<exists>w l. flaky_round (100 * one_second) (\<lambda>_. call_stats (0, 2)) (new_agent_loop\<lparr>alp_lastHash := ''xx''\<rparr>) = Some ((True, False, l), w)
     \<and> registration_due (fst (snd w) + alp_delay l) l"
proof -
  have u: "undisturbed (with_registry (flaky_net until) ticking_env)
      (ao_Publish (link_ops (flaky_net until) waiting_hash stats n uri) st)" for until stats n uri st
    by (simp add: undisturbed_def with_registry_def ticking_env_def link_ops_def send_call_def flaky_net_def
        never_permanent_def case_prod_beta)
  from failed_report_registers_again [OF flaky_round_fails [unfolded flaky_round_def link_round_def] u, of 62281250000]
  show ?thesis using flaky_round_fails by (simp add: with_registry_def ticking_env_def)
qed

definition idle_ops :: "(int, LinkStatistics) agent_ops" where
  "idle_ops = \<lparr>ao_Register = slow_start, ao_Publish = (\<lambda>st. slow_start), ao_Stats = (\<lambda>w. zero_link ''l''),
     ao_Hash = (\<lambda>st. [])\<rparr>"

lemma agent_round_returns_witness:
  "\<exists>registered published l' w'. link_round clock_env idle_ops new_agent_loop 0 = Some ((registered, published, l'), w')
     \<and> one_second \<le> alp_delay l' \<and> w' \<le> 240 * one_second"
proof -
  have t: "ends_in_time clock_env slow_start" by (simp add: ends_in_time_def clock_env_def slow_start_def)
  from agent_round_returns [OF clock_env_ok, of idle_ops new_agent_loop "\<lambda>w0 w. ao_Stats idle_ops w" 0]
  show ?thesis using t by (auto simp: idle_ops_def delay_ok_def new_agent_loop_def minDelay_def maxDelay_def
      one_second_def clock_env_def link_round_def)
qed

end
