(* ===== verification/Agent_Process.thy ===== *)
theory Agent_Process
  imports Executor Input_Loop Output_Publisher Snapshot_Service Arango_Setup
begin

text \<open>
  How a link agent and a task agent start (\<open>NewService\<close> of \<open>pkg/agent/link/service.go\<close> and
  \<open>pkg/agent/task/service.go\<close>), with the clients they make of the addresses in their environment.
  The loops of the running agents are in the theories of their parts and in \<open>Agent_Loop\<close>.  A function
  that retries has the value \<open>None\<close> when a retry does not return.
\<close>

section \<open>Starting\<close>

record agent_pod =
  ap_Meta :: object_meta
  ap_ImageIDs :: "string list"

datatype process_error =
    PE_Retry go_error
  | PE_Env string
  | PE_Port
  | PE_Dial string
  | PE_Cache string
  | PE_Builder string
  | PE_TaskNotFound string string
  | PE_NoAnnotation string
  | PE_Executor exec_error

record 'w agent_env =
  ae_Retry :: "'w retry_env"
  ae_Getenv :: "string \<Rightarrow> string"
  ae_sha1 :: "string \<Rightarrow> string"
  ae_NewClient :: "int \<Rightarrow> 'w \<Rightarrow> go_error error_only \<times> 'w"
  ae_GetPod :: "string \<Rightarrow> string \<Rightarrow> int \<Rightarrow> 'w \<Rightarrow> (go_error, agent_pod) go_result \<times> 'w"
  ae_GetPipeline :: "string \<Rightarrow> string \<Rightarrow> int \<Rightarrow> 'w \<Rightarrow> (go_error, Pipeline) go_result \<times> 'w"
  ae_Dial :: "string \<Rightarrow> string error_only"

definition newLinkURI :: "(string \<Rightarrow> string) \<Rightarrow> string \<Rightarrow> int \<Rightarrow> agent_pod \<Rightarrow> string" where
  "newLinkURI sha1_hex dnsName port pod =
     ''link://'' @ dnsName @ '':'' @ itoa_int port @ ''/''
       @ take 8 (sha1_hex (join_with '','' (ap_ImageIDs pod)))"

text \<open>A client is the address it is connected to; \<open>grpc.Dial\<close> may refuse an address.\<close>

definition dial :: "'w agent_env \<Rightarrow> string \<Rightarrow> (process_error, string) go_result" where
  "dial env addr = (case ae_Dial env addr of Some e \<Rightarrow> Inl (PE_Dial e) | None \<Rightarrow> Inr addr)"

definition NewAnnotatedValuePublisherClient :: "'w agent_env \<Rightarrow> string \<Rightarrow> (process_error, string) go_result" where
  "NewAnnotatedValuePublisherClient env address = dial env address"

definition NewAnnotatedValueSourceClient :: "'w agent_env \<Rightarrow> string \<Rightarrow> (process_error, string) go_result" where
  "NewAnnotatedValueSourceClient env address = dial env address"

definition dial_env :: "'w agent_env \<Rightarrow> string \<Rightarrow> (process_error, string) go_result" where
  "dial_env env name =
     (let addr = ae_Getenv env name in if addr = [] then Inl (PE_Env name) else dial env addr)"

definition NewAnnotatedValueRegistryClient :: "'w agent_env \<Rightarrow> (process_error, string) go_result" where
  "NewAnnotatedValueRegistryClient env = dial_env env EnvAnnotatedValueRegistryAddress"

definition CreateAgentRegistryClient :: "'w agent_env \<Rightarrow> (process_error, string) go_result" where
  "CreateAgentRegistryClient env = dial_env env EnvAgentRegistryAddress"

definition CreateStatisticsSinkClient :: "'w agent_env \<Rightarrow> (process_error, string) go_result" where
  "CreateStatisticsSinkClient env = dial_env env EnvStatisticsSinkAddress"

definition NewFileSystemClient :: "'w agent_env \<Rightarrow> (process_error, string) go_result" where
  "NewFileSystemClient env = dial_env env EnvFileSystemAddress"

text \<open>The clients of a program run in the pod of a task.\<close>

definition CreateOutputReadyNotifierClient :: "'w agent_env \<Rightarrow> (process_error, string) go_result" where
  "CreateOutputReadyNotifierClient env = dial_env env EnvOutputReadyNotifierAddress"

definition CreateOutputFileSystemServiceClient :: "'w agent_env \<Rightarrow> (process_error, string) go_result" where
  "CreateOutputFileSystemServiceClient env = dial_env env EnvOutputFileSystemServiceAddress"

definition CreateSnapshotServiceClient :: "'w agent_env \<Rightarrow> (process_error, string) go_result" where
  "CreateSnapshotServiceClient env = dial_env env EnvSnapshotServiceAddress"

text \<open>The steps of a function that returns its first error.\<close>

definition get_env ::
  "((string \<Rightarrow> string) \<Rightarrow> (string, string) go_result) \<Rightarrow> 'w agent_env \<Rightarrow> (process_error, string) go_result" where
  "get_env get env = (case get (ae_Getenv env) of Inl v \<Rightarrow> Inl (PE_Env v) | Inr x \<Rightarrow> Inr x)"

definition get_port :: "'w agent_env \<Rightarrow> (process_error, int) go_result" where
  "get_port env = (case GetAPIPort (ae_Getenv env) of None \<Rightarrow> Inl PE_Port | Some p \<Rightarrow> Inr p)"

definition and_then ::
  "(process_error, 'a) go_result \<Rightarrow> 'w \<Rightarrow> ('a \<Rightarrow> ((process_error, 'b) go_result \<times> 'w) option)
    \<Rightarrow> ((process_error, 'b) go_result \<times> 'w) option" where
  "and_then r w k = (case r of Inl e \<Rightarrow> Some (Inl e, w) | Inr x \<Rightarrow> k x)"

definition and_retry ::
  "((go_error, 'a) go_result \<times> 'w) option \<Rightarrow> ('a \<Rightarrow> 'w \<Rightarrow> ((process_error, 'b) go_result \<times> 'w) option)
    \<Rightarrow> ((process_error, 'b) go_result \<times> 'w) option" where
  "and_retry r k = (case r of
     None \<Rightarrow> None | Some (Inl e, w) \<Rightarrow> Some (Inl (PE_Retry e), w) | Some (Inr x, w) \<Rightarrow> k x w)"

definition new_client :: "'w agent_env \<Rightarrow> 'w \<Rightarrow> ((go_error, unit) go_result \<times> 'w) option" where
  "new_client env w = (case retry_Do (ae_Retry env) (ae_NewClient env) [Timeout TimeoutK8sClient] w of
     None \<Rightarrow> None | Some (Some e, w) \<Rightarrow> Some (Inl e, w) | Some (None, w) \<Rightarrow> Some (Inr (), w))"

definition empty_pod :: agent_pod where
  "empty_pod = \<lparr>ap_Meta = \<lparr>om_Name = [], om_Namespace = [], om_Labels = [], om_Annotations = [], om_Owners = []\<rparr>, ap_ImageIDs = []\<rparr>"

definition empty_pipeline :: Pipeline where
  "empty_pipeline = \<lparr>pl_Name = [], pl_Namespace = [], pl_Labels = [],
     pl_Spec = \<lparr>ps_Tasks = [], ps_Links = [], ps_Types = []\<rparr>, pl_Status = \<lparr>pst_Domain = [], pst_Revision = []\<rparr>\<rparr>"

section \<open>The link agent\<close>

text \<open>The client of the API server, which the builders do not use, is left out.\<close>

record link_deps = link_dependencies +
  ldp_Registry :: string
  ldp_AgentRegistry :: string
  ldp_Statistics :: LinkStatistics

record ('p, 's) link_service =
  lsv_port :: int
  lsv_linkName :: string
  lsv_uri :: string
  lsv_statistics :: LinkStatistics
  lsv_avPublisher :: 'p
  lsv_avSource :: 's
  lsv_avRegistry :: string
  lsv_agentRegistry :: string
  lsv_statisticsSink :: string

text \<open>The builder of the publisher and the source is a parameter, with the error it may return.\<close>

definition link_NewService ::
  "'w agent_env \<Rightarrow> (link_deps \<Rightarrow> 'w \<Rightarrow> (string, 'p) go_result \<times> 'w)
    \<Rightarrow> (link_deps \<Rightarrow> 'w \<Rightarrow> (string, 's) go_result \<times> 'w) \<Rightarrow> 'w
    \<Rightarrow> ((process_error, ('p, 's) link_service) go_result \<times> 'w) option" where
  "link_NewService env publisher source w =
     and_retry (new_client env w) (\<lambda>_ w.
     and_then (get_env GetNamespace env) w (\<lambda>ns.
     and_then (get_env GetPodName env) w (\<lambda>podName.
     and_then (get_env GetPipelineName env) w (\<lambda>pipelineName.
     and_then (get_env GetLinkName env) w (\<lambda>linkName.
     and_then (get_port env) w (\<lambda>port.
     and_then (get_env GetDNSName env) w (\<lambda>dnsName.
     and_retry (retry_get (ae_Retry env) [Timeout TimeoutAPIServer] empty_pod (ae_GetPod env podName ns) w) (\<lambda>p w.
     and_then (NewAnnotatedValueRegistryClient env) w (\<lambda>avReg.
     and_then (CreateAgentRegistryClient env) w (\<lambda>agentReg.
     and_then (CreateStatisticsSinkClient env) w (\<lambda>statsSink.
       (let uri = newLinkURI (ae_sha1 env) dnsName port p;
            statistics = \<lparr>ls_Name = linkName, ls_URI = uri, ls_AnnotatedValuesWaiting = 0,
              ls_AnnotatedValuesInProgress = 0, ls_AnnotatedValuesAcknowledged = 0\<rparr>;
            deps = \<lparr>ld_Namespace = ns, ld_PipelineName = pipelineName, ld_LinkName = linkName, ld_URI = uri,
              ldp_Registry = avReg, ldp_AgentRegistry = agentReg, ldp_Statistics = statistics\<rparr>
        in case publisher deps w of
             (Inl e, w) \<Rightarrow> Some (Inl (PE_Builder e), w)
           | (Inr avPublisher, w) \<Rightarrow>
               (case source deps w of
                  (Inl e, w) \<Rightarrow> Some (Inl (PE_Builder e), w)
                | (Inr avSource, w) \<Rightarrow>
                    Some (Inr \<lparr>lsv_port = port, lsv_linkName = linkName, lsv_uri = uri,
                      lsv_statistics = statistics, lsv_avPublisher = avPublisher, lsv_avSource = avSource,
                      lsv_avRegistry = avReg, lsv_agentRegistry = agentReg,
                      lsv_statisticsSink = statsSink\<rparr>, w))))))))))))))"

section \<open>The task agent\<close>

text \<open>The statistics of a new task agent: an entry for every input and output, in their order.\<close>

definition initial_task_statistics :: "TaskSpec \<Rightarrow> string \<Rightarrow> string \<Rightarrow> TaskStatistics" where
  "initial_task_statistics spec taskName uri =
     \<lparr>tst_Name = taskName, tst_URI = uri, tst_SnapshotsWaiting = 0, tst_SnapshotsInProgress = 0,
      tst_SnapshotsSucceeded = 0, tst_SnapshotsFailed = 0,
      tst_Inputs = map (\<lambda>x. new_input_stat (tis_Name x)) (ts_Inputs spec),
      tst_Outputs = map (\<lambda>x. new_output_stat (tos_Name x)) (ts_Outputs spec)\<rparr>"

record 'a task_service =
  tsv_inputAddresses :: "(string, string) gomap"
  tsv_inputLoop :: "'a input_loop"
  tsv_executor :: executor
  tsv_snapshotService :: snapshot_service
  tsv_outputAddresses :: "(string, string list) gomap"
  tsv_podGC :: podGC
  tsv_port :: int
  tsv_taskName :: string
  tsv_uri :: string
  tsv_statistics :: TaskStatistics
  tsv_agentRegistry :: string
  tsv_statisticsSink :: string

definition no_annotation :: "(string, 'x) go_result \<Rightarrow> (process_error, 'x) go_result" where
  "no_annotation r = (case r of Inl e \<Rightarrow> Inl (PE_NoAnnotation e) | Inr x \<Rightarrow> Inr x)"

definition executor_result :: "(exec_error, 'x) go_result \<Rightarrow> (process_error, 'x) go_result" where
  "executor_result r = (case r of Inl e \<Rightarrow> Inl (PE_Executor e) | Inr x \<Rightarrow> Inr x)"

text \<open>
  The parts of a task agent share its pod, its task and its statistics.  \<open>new_cache\<close> is the error of
  the cache of the API server, the environment \<open>xe\<close> what the executor uses otherwise.
\<close>

definition task_parts ::
  "'w agent_env \<Rightarrow> ('a, 'x) exec_env \<Rightarrow> (string \<Rightarrow> (string, container) go_result)
    \<Rightarrow> (string \<Rightarrow> (string, (string, string) gomap) go_result)
    \<Rightarrow> Pipeline \<Rightarrow> TaskSpec \<Rightarrow> agent_pod \<Rightarrow> int \<Rightarrow> string \<Rightarrow> string \<Rightarrow> string \<Rightarrow> string \<Rightarrow> 'w
    \<Rightarrow> ((process_error, 'a task_service) go_result \<times> 'w) option" where
  "task_parts env xe container_of labels_of pl taskSpec pod port taskName agentReg statsSink uri w =
     (let annotations = om_Annotations (ap_Meta pod);
          statistics = initial_task_statistics taskSpec taskName uri in
      and_then (no_annotation (newOutputPublisher (ae_sha1 env) taskSpec annotations)) w (\<lambda>op.
      and_then (executor_result (NewExecutor (xe\<lparr>xe_Getenv := ae_Getenv env, xe_sha1 := ae_sha1 env\<rparr>)
          container_of labels_of pl taskSpec (ap_Meta pod) port)) w (\<lambda>executor.
      and_then (no_annotation (newInputLoop (ae_sha1 env) taskSpec annotations statistics)) w (\<lambda>(addresses, il).
        Some (Inr \<lparr>tsv_inputAddresses = addresses, tsv_inputLoop = il, tsv_executor = executor,
          tsv_snapshotService = NewSnapshotService, tsv_outputAddresses = op, tsv_podGC = NewPodGarbageCollector,
          tsv_port = port, tsv_taskName = taskName, tsv_uri = uri, tsv_statistics = statistics,
          tsv_agentRegistry = agentReg, tsv_statisticsSink = statsSink\<rparr>, w)))))"

definition task_NewService ::
  "'w agent_env \<Rightarrow> string error_only \<Rightarrow> ('a, 'x) exec_env \<Rightarrow> (string \<Rightarrow> (string, container) go_result)
    \<Rightarrow> (string \<Rightarrow> (string, (string, string) gomap) go_result) \<Rightarrow> 'w
    \<Rightarrow> ((process_error, 'a task_service) go_result \<times> 'w) option" where
  "task_NewService env new_cache xe container_of labels_of w =
     and_then (get_env GetPipelineName env) w (\<lambda>pipelineName.
     and_then (get_env GetTaskName env) w (\<lambda>taskName.
     and_then (get_env GetNamespace env) w (\<lambda>ns.
     and_then (get_env GetPodName env) w (\<lambda>podName.
     and_then (get_port env) w (\<lambda>port.
     and_then (get_env GetDNSName env) w (\<lambda>dnsName.
     and_retry (new_client env w) (\<lambda>_ w.
     and_then (case new_cache of Some e \<Rightarrow> Inl (PE_Cache e) | None \<Rightarrow> Inr ()) w (\<lambda>_.
     and_then (NewFileSystemClient env) w (\<lambda>fileSystem.
     and_retry (retry_get (ae_Retry env) [Timeout TimeoutAPIServer] empty_pipeline (ae_GetPipeline env pipelineName ns) w) (\<lambda>pl w.
     and_then (case TaskByName (pl_Spec pl) taskName of
         None \<Rightarrow> Inl (PE_TaskNotFound taskName pipelineName) | Some t \<Rightarrow> Inr t) w (\<lambda>taskSpec.
     and_retry (retry_get (ae_Retry env) [Timeout TimeoutAPIServer] empty_pod (ae_GetPod env podName ns) w) (\<lambda>pod w.
     and_then (CreateAgentRegistryClient env) w (\<lambda>agentReg.
     and_then (CreateStatisticsSinkClient env) w (\<lambda>statsSink.
       task_parts env xe container_of labels_of pl taskSpec pod port taskName agentReg statsSink
         (newTaskURI (ae_sha1 env) dnsName port (ap_ImageIDs pod)) w))))))))))))))"

end
