(* ===== verification/Agent_Deploy.thy ===== *)
theory Agent_Deploy
  imports Agent_Process Pipeline_Wiring Agent_Reports Executor_Example
begin

text \<open>
  The controller and the agents it deploys: the environment of the containers of
  \<open>Pipeline_Controller\<close> is what \<open>NewService\<close> of the agents reads.
\<close>

section \<open>The environment of a deployed container\<close>

text \<open>What a process reads: the values of the container, and for a field of the pod its value.\<close>

definition process_env :: "(string \<Rightarrow> string) \<Rightarrow> env_var list \<Rightarrow> string \<Rightarrow> string" where
  "process_env field evs name = (case env_lookup evs name of
     None \<Rightarrow> [] | Some (v, None) \<Rightarrow> v | Some (v, Some path) \<Rightarrow> field path)"

text \<open>The container of the agent's resource: its variables are its own.\<close>

definition agent_image_ok :: "container \<Rightarrow> bool" where
  "agent_image_ok c \<longleftrightarrow> distinct (env_names (c_Env c)) \<and> EnvNamespace \<notin> set (env_names (c_Env c))
     \<and> EnvPodName \<notin> set (env_names (c_Env c))"

lemma deployed_env:
  assumes "gomap_ok vars" and "map_order es vars" and "agent_image_ok c"
    and "EnvNamespace \<notin> fst ` set vars" and "EnvPodName \<notin> fst ` set vars"
  shows "process_env field (c_Env (SetContainerEnvVars es (SetAgentContainerDefaults c b))) n =
     (if n = EnvNamespace then field ''metadata.namespace'' else if n = EnvPodName then field ''metadata.name''
      else case map_of vars n of Some v \<Rightarrow> v | None \<Rightarrow> process_env field (c_Env c) n)"
proof -
  have c: "c_Env (SetAgentContainerDefaults c b) = c_Env c"
    by (simp add: SetAgentContainerDefaults_def Let_def)
  have "\<forall>n. env_lookup (c_Env (SetContainerEnvVars es (SetAgentContainerDefaults c b))) n =
       (if n = EnvNamespace then Some ([], Some ''metadata.namespace'')
        else if n = EnvPodName then Some ([], Some ''metadata.name'')
        else case map_of vars n of Some v \<Rightarrow> Some (v, None) | None \<Rightarrow> env_lookup (c_Env c) n)"
    using container_environment [OF assms(1,2), of "SetAgentContainerDefaults c b"] assms(3-5)
    unfolding c agent_image_ok_def by simp
  then show ?thesis by (simp add: process_env_def split: option.split)
qed

lemma address_nonempty: "JoinHostPort h p \<noteq> []" by (simp add: JoinHostPort_def)

lemma svc_dns_nonempty: "svc_dns n ns \<noteq> []" by (simp add: svc_dns_def)

lemma agent_port_read: "Atoi (itoa AgentAPIPort) = Some (int AgentAPIPort)"
  by (rule Atoi_itoa) (simp add: AgentAPIPort_def)

section \<open>Link agents\<close>

text \<open>What the start of an agent relies on: the calls of the API server succeed, connections are made.\<close>

definition link_agent_field :: "Pipeline \<Rightarrow> (string \<Rightarrow> string) \<Rightarrow> bool" where
  "link_agent_field p field \<longleftrightarrow> field ''metadata.namespace'' = pl_Namespace p \<and> pl_Namespace p \<noteq> []
     \<and> field ''metadata.name'' \<noteq> []"

lemma link_env_read:
  assumes "map_order (rc_env_order r (link_agent_env r p l)) (link_agent_env r p l)" and "agent_image_ok c"
    and "link_agent_field p field" and "pl_Name p \<noteq> []" and "lk_Name l \<noteq> []"
    and "ae_Getenv env = process_env field (c_Env (link_agent_container r p l c))"
    and "\<And>a. ae_Dial env a = None"
  shows "get_env GetNamespace env = Inr (pl_Namespace p)"
    and "get_env GetPodName env = Inr (field ''metadata.name'')"
    and "get_env GetPipelineName env = Inr (pl_Name p)"
    and "get_env GetLinkName env = Inr (lk_Name l)"
    and "get_port env = Inr (int AgentAPIPort)"
    and "get_env GetDNSName env = Inr (CreateLinkAgentDNSName (rc_sha1 r) (pl_Name p) (lk_Name l) (pl_Namespace p))"
    and "NewAnnotatedValueRegistryClient env
      = Inr (CreateAnnotatedValueRegistryAddress (rc_sha1 r) (pl_Name p) (pl_Namespace p))"
    and "CreateAgentRegistryClient env = Inr (CreateAgentRegistryAddress (rc_sha1 r) (pl_Name p) (pl_Namespace p))"
    and "CreateStatisticsSinkClient env = Inr (CreateAgentRegistryAddress (rc_sha1 r) (pl_Name p) (pl_Namespace p))"
proof -
  let ?vars = "link_agent_env r p l"
  have vars: "gomap_ok ?vars" "EnvNamespace \<notin> fst ` set ?vars" "EnvPodName \<notin> fst ` set ?vars"
    by (simp_all add: gomap_ok_def link_agent_env_def Let_def env_constants)
  have e: "ae_Getenv env n = (if n = EnvNamespace then field ''metadata.namespace''
      else if n = EnvPodName then field ''metadata.name''
      else case map_of ?vars n of Some v \<Rightarrow> v | None \<Rightarrow> process_env field (c_Env c) n)" for n
    unfolding assms(6) link_agent_container_def
    by (rule deployed_env [OF vars(1) assms(1,2) vars(2,3)])
  note get = get_env_def required_env_def get_port_def GetAPIPort_def e link_agent_env_def Let_def env_constants
  show "get_env GetNamespace env = Inr (pl_Namespace p)" "get_env GetPodName env = Inr (field ''metadata.name'')"
    "get_env GetPipelineName env = Inr (pl_Name p)" "get_env GetLinkName env = Inr (lk_Name l)"
    using assms(3-5)
    by (simp_all add: get GetNamespace_def GetPodName_def GetPipelineName_def GetLinkName_def link_agent_field_def)
  show "get_port env = Inr (int AgentAPIPort)" by (simp add: get agent_port_read)
  show "get_env GetDNSName env = Inr (CreateLinkAgentDNSName (rc_sha1 r) (pl_Name p) (lk_Name l) (pl_Namespace p))"
    by (simp add: get GetDNSName_def CreateLinkAgentDNSName_def svc_dns_nonempty)
  show "NewAnnotatedValueRegistryClient env
      = Inr (CreateAnnotatedValueRegistryAddress (rc_sha1 r) (pl_Name p) (pl_Namespace p))"
    "CreateAgentRegistryClient env = Inr (CreateAgentRegistryAddress (rc_sha1 r) (pl_Name p) (pl_Namespace p))"
    "CreateStatisticsSinkClient env = Inr (CreateAgentRegistryAddress (rc_sha1 r) (pl_Name p) (pl_Namespace p))"
    by (simp_all add: get dial_env_def dial_def assms(7) NewAnnotatedValueRegistryClient_def CreateAgentRegistryClient_def
      CreateStatisticsSinkClient_def CreateAnnotatedValueRegistryAddress_def CreateAgentRegistryAddress_def
      address_nonempty)
qed

text \<open>A link agent deployed by the controller starts. In the environment the controller gives its
  container, whatever the order of the variables, \<open>NewService\<close> finds all it needs: when the API server
  can be read, connections can be made and the queue can be built, the agent serves the port at which
  the task agents look for it, reports to the pipeline agent and the registry of its own pipeline under
  the name of its link and a URI that names its service, and its builders get the names of its
  namespace, pipeline and link.\<close>
theorem deployed_link_agent_starts:
  assumes "map_order (rc_env_order r (link_agent_env r p l)) (link_agent_env r p l)" and "agent_image_ok c"
    and "link_agent_field p field" and "pl_Name p \<noteq> []" and "lk_Name l \<noteq> []"
    and "ae_Getenv env = process_env field (c_Env (link_agent_container r p l c))"
    and "\<And>a. ae_Dial env a = None"
    and "new_client env w = Some (Inr (), w1)"
    and "retry_get (ae_Retry env) [Timeout TimeoutAPIServer] empty_pod
      (ae_GetPod env (field ''metadata.name'') (pl_Namespace p)) w1 = Some (Inr pod, w2)"
    and "\<And>deps. publisher deps w2 = (Inr (pub deps), w3)" and "\<And>deps. source deps w3 = (Inr (src deps), w4)"
  defines "h \<equiv> rc_sha1 r"
  shows "\<exists>svc deps. link_NewService env publisher source w = Some (Inr svc, w4)
    \<and> JoinHostPort (CreateLinkAgentDNSName h (pl_Name p) (lk_Name l) (pl_Namespace p)) (itoa (nat (lsv_port svc)))
        = CreateLinkAgentAnnotatedValueSourceAddress h (pl_Name p) (lk_Name l) (pl_Namespace p)
    \<and> lsv_linkName svc = lk_Name l \<and> lsv_statistics svc = (zero_link (lk_Name l))\<lparr>ls_URI := lsv_uri svc\<rparr>
    \<and> lsv_uri svc = ''link://'' @ CreateLinkAgentDNSName h (pl_Name p) (lk_Name l) (pl_Namespace p) @ '':''
        @ itoa AgentAPIPort @ ''/'' @ take 8 (ae_sha1 env (join_with '','' (ap_ImageIDs pod)))
    \<and> lsv_avRegistry svc = CreateAnnotatedValueRegistryAddress h (pl_Name p) (pl_Namespace p)
    \<and> lsv_agentRegistry svc = CreateAgentRegistryAddress h (pl_Name p) (pl_Namespace p)
    \<and> lsv_statisticsSink svc = CreateAgentRegistryAddress h (pl_Name p) (pl_Namespace p)
    \<and> lsv_avPublisher svc = pub deps \<and> lsv_avSource svc = src deps
    \<and> ld_Namespace deps = pl_Namespace p \<and> ld_PipelineName deps = pl_Name p \<and> ld_LinkName deps = lk_Name l
    \<and> ld_URI deps = lsv_uri svc"
proof -
  note e = link_env_read [OF assms(1-7)]
  have port: "itoa_int (int AgentAPIPort) = itoa AgentAPIPort" by (simp add: itoa_int_def)
  show ?thesis
    unfolding link_NewService_def h_def
    by (simp add: e and_then_def and_retry_def assms(8-11) Let_def newLinkURI_def port zero_link_def
      CreateLinkAgentAnnotatedValueSourceAddress_def)
      (intro exI conjI, (rule refl | simp)+)
qed

section \<open>Task agents\<close>

lemma Fixup_nonempty: "s \<noteq> [] \<Longrightarrow> FixupKubernetesName h s \<noteq> []"
  by (auto simp: FixupKubernetesName_def name_suffix_def Let_def to_lower_def)

lemma executor_addresses:
  "addresses_of_outputs h outs ann m = Inr m' \<Longrightarrow> exec_output_addresses h outs ann m = Inr m'"
  by (induction h outs ann m rule: addresses_of_outputs.induct)
     (auto simp: Let_def split: if_splits option.splits)

lemma task_env_read:
  assumes "map_order (rc_env_order r (task_agent_env r p t fs)) (task_agent_env r p t fs)" and "agent_image_ok c"
    and "link_agent_field p field" and "pl_Name p \<noteq> []" and "ts_Name t \<noteq> []" and "fs \<noteq> []"
    and "ae_Getenv env = process_env field (c_Env (task_agent_container r p t fs c))"
    and "\<And>a. ae_Dial env a = None"
  shows "get_env GetNamespace env = Inr (pl_Namespace p)"
    and "get_env GetPodName env = Inr (field ''metadata.name'')"
    and "get_env GetPipelineName env = Inr (pl_Name p)"
    and "get_env GetTaskName env = Inr (ts_Name t)"
    and "get_port env = Inr (int AgentAPIPort)"
    and "get_env GetDNSName env = Inr (CreateTaskAgentDNSName (rc_sha1 r) (pl_Name p) (ts_Name t) (pl_Namespace p))"
    and "GetDNSName (ae_Getenv env) = Inr (CreateTaskAgentDNSName (rc_sha1 r) (pl_Name p) (ts_Name t) (pl_Namespace p))"
    and "GetServiceAccountName (ae_Getenv env) = Inr (CreatePipelineExecutorsServiceAccountName (rc_sha1 r) (pl_Name p))"
    and "NewFileSystemClient env = Inr fs"
    and "CreateAgentRegistryClient env = Inr (CreateAgentRegistryAddress (rc_sha1 r) (pl_Name p) (pl_Namespace p))"
    and "CreateStatisticsSinkClient env = Inr (CreateAgentRegistryAddress (rc_sha1 r) (pl_Name p) (pl_Namespace p))"
proof -
  let ?vars = "task_agent_env r p t fs"
  have vars: "gomap_ok ?vars" "EnvNamespace \<notin> fst ` set ?vars" "EnvPodName \<notin> fst ` set ?vars"
    by (simp_all add: gomap_ok_def task_agent_env_def Let_def env_constants)
  have e: "ae_Getenv env n = (if n = EnvNamespace then field ''metadata.namespace''
      else if n = EnvPodName then field ''metadata.name''
      else case map_of ?vars n of Some v \<Rightarrow> v | None \<Rightarrow> process_env field (c_Env c) n)" for n
    unfolding assms(7) task_agent_container_def
    by (rule deployed_env [OF vars(1) assms(1,2) vars(2,3)])
  note get = get_env_def required_env_def get_port_def GetAPIPort_def e task_agent_env_def Let_def env_constants
  show "get_env GetNamespace env = Inr (pl_Namespace p)" "get_env GetPodName env = Inr (field ''metadata.name'')"
    "get_env GetPipelineName env = Inr (pl_Name p)" "get_env GetTaskName env = Inr (ts_Name t)"
    using assms(3-5)
    by (simp_all add: get GetNamespace_def GetPodName_def GetPipelineName_def GetTaskName_def link_agent_field_def)
  show "get_port env = Inr (int AgentAPIPort)" by (simp add: get agent_port_read)
  show "get_env GetDNSName env = Inr (CreateTaskAgentDNSName (rc_sha1 r) (pl_Name p) (ts_Name t) (pl_Namespace p))"
    "GetDNSName (ae_Getenv env) = Inr (CreateTaskAgentDNSName (rc_sha1 r) (pl_Name p) (ts_Name t) (pl_Namespace p))"
    by (simp_all add: get GetDNSName_def CreateTaskAgentDNSName_def svc_dns_nonempty)
  have "CreatePipelineExecutorsServiceAccountName (rc_sha1 r) (pl_Name p) \<noteq> []"
    unfolding CreatePipelineExecutorsServiceAccountName_def by (rule Fixup_nonempty) simp
  then show "GetServiceAccountName (ae_Getenv env) = Inr (CreatePipelineExecutorsServiceAccountName (rc_sha1 r) (pl_Name p))"
    by (simp add: get GetServiceAccountName_def)
  show "NewFileSystemClient env = Inr fs"
    "CreateAgentRegistryClient env = Inr (CreateAgentRegistryAddress (rc_sha1 r) (pl_Name p) (pl_Namespace p))"
    "CreateStatisticsSinkClient env = Inr (CreateAgentRegistryAddress (rc_sha1 r) (pl_Name p) (pl_Namespace p))"
    using assms(6)
    by (simp_all add: get dial_env_def dial_def assms(8) NewFileSystemClient_def CreateAgentRegistryClient_def
      CreateStatisticsSinkClient_def CreateAgentRegistryAddress_def address_nonempty)
qed


section \<open>Applying the properties\<close>

text \<open>The agents of the pipeline of \<open>Pipeline_Example\<close>: an API server that answers at once.\<close>

definition chain_field :: "string \<Rightarrow> string" where
  "chain_field path = (if path = ''metadata.namespace'' then ''ns'' else ''pod-0'')"

definition chain_pod :: "(string, string) gomap \<Rightarrow> agent_pod" where
  "chain_pod annotations = \<lparr>ap_Meta = \<lparr>om_Name = ''pod-0'', om_Namespace = ''ns'', om_Labels = [],
     om_Annotations = annotations, om_Owners = []\<rparr>, ap_ImageIDs = [''i1'']\<rparr>"

definition chain_agent_env :: "container \<Rightarrow> (string, string) gomap \<Rightarrow> int agent_env" where
  "chain_agent_env c annotations = \<lparr>ae_Retry = clock_env, ae_Getenv = process_env chain_field (c_Env c),
     ae_sha1 = example_digest, ae_NewClient = (\<lambda>d w. (None, w)),
     ae_GetPod = (\<lambda>name ns d w. (Inr (chain_pod annotations), w)),
     ae_GetPipeline = (\<lambda>name ns d w. (Inr chain_updated, w)), ae_Dial = (\<lambda>a. None)\<rparr>"

lemma chain_answers:
  "new_client (chain_agent_env c annotations) 0 = Some (Inr (), 0)"
  "retry_get (ae_Retry (chain_agent_env c annotations)) [Timeout TimeoutAPIServer] empty_pod
     (ae_GetPod (chain_agent_env c annotations) name ns) 0 = Some (Inr (chain_pod annotations), 0)"
  "retry_get (ae_Retry (chain_agent_env c annotations)) [Timeout TimeoutAPIServer] empty_pipeline
     (ae_GetPipeline (chain_agent_env c annotations) name ns) 0 = Some (Inr chain_updated, 0)"
  by (simp_all add: new_client_def retry_get_def chain_agent_env_def retry_Do_def retry_config_def Let_def
      retry_loop.simps retry_attempt_def lctx_Err_def clock_env_def with_variable_def filling_def
      TimeoutK8sClient_def TimeoutAPIServer_def one_second_def backoff_Reset_def)

definition chain_link_env :: "int agent_env" where
  "chain_link_env = chain_agent_env (link_agent_container example_reconciler chain_updated
     (ps_Links chain_spec ! 0) (agent_image ''li'')) []"

definition chain_task_env :: "int agent_env" where
  "chain_task_env = chain_agent_env (task_agent_container example_reconciler chain_updated
     (ps_Tasks chain_spec ! 1) ''fs.sys.svc:7000'' (agent_image ''ti''))
     [(''koalja.aljabr.io/input-link-address-in'', ''demo-l-l.ns.svc:6275'')]"

lemma chain_image_ok: "agent_image_ok (agent_image i)"
  by (simp add: agent_image_ok_def agent_image_def empty_container_def env_names_def)

lemma chain_fields: "link_agent_field chain_updated chain_field" "pl_Name chain_updated \<noteq> []"
  by (simp_all add: link_agent_field_def chain_updated_def chain_pipeline_def chain_field_def)

lemma deployed_link_agent_starts_witness:
  "\<exists>svc. link_NewService chain_link_env (\<lambda>deps w. (Inr (ld_LinkName deps), w)) (\<lambda>deps w. (Inr (ld_LinkName deps), w)) 0
      = Some (Inr svc, 0)
    \<and> lsv_linkName svc = ''l'' \<and> lsv_avSource svc = ''l''"
proof -
  have l: "lk_Name (ps_Links chain_spec ! 0) = ''l''" "lk_Name (ps_Links chain_spec ! 0) \<noteq> []"
    by (simp_all add: chain_spec_def)
  have o: "map_order (rc_env_order example_reconciler m) m" for m
    by (simp add: example_reconciler_def map_order_def)
  have d: "ae_Dial chain_link_env a = None" for a by (simp add: chain_link_env_def chain_agent_env_def)
  have g: "ae_Getenv chain_link_env = process_env chain_field (c_Env (link_agent_container example_reconciler
      chain_updated (ps_Links chain_spec ! 0) (agent_image ''li'')))"
    by (simp add: chain_link_env_def chain_agent_env_def)
  have a: "new_client chain_link_env 0 = Some (Inr (), 0)"
    "retry_get (ae_Retry chain_link_env) [Timeout TimeoutAPIServer] empty_pod
       (ae_GetPod chain_link_env name ns) 0 = Some (Inr (chain_pod []), 0)" for name ns
    unfolding chain_link_env_def by (rule chain_answers)+
  let ?b = "\<lambda>deps w. (Inr (ld_LinkName deps), w)"
  have b: "?b deps w = (Inr (ld_LinkName deps), w)" for deps w by (rule refl)
  show ?thesis
    using deployed_link_agent_starts [where publisher = ?b and pub = ld_LinkName and source = ?b and src = ld_LinkName,
        OF o chain_image_ok chain_fields l(2) g d a b b] l(1) by auto
qed

end
