(* ===== verification/Task_Notify.thy ===== *)
theory Task_Notify
  imports Retry Snapshot_Service Output_Publisher
begin

text \<open>
  What the ready-made tasks of \<open>pkg/task\<close> share: data URIs (vendored package \<open>dataurl\<close>), the loop
  \<open>outputReady\<close> that hands a value to the task agent until the agent takes it, and what the agent
  makes of the request (\<open>OutputReady\<close> of \<open>pkg/agent/task/output_publisher.go\<close>).  Bytes are characters.
\<close>

section \<open>Data URIs\<close>

definition base64_digit :: "nat \<Rightarrow> char" where
  "base64_digit i = ''ABCDEFGHIJKLMNOPQRSTUVWXYZabcdefghijklmnopqrstuvwxyz0123456789+/'' ! i"

definition byte_of :: "char \<Rightarrow> nat" where "byte_of c = of_char c"

fun base64_encode :: "string \<Rightarrow> string" where
  "base64_encode [] = []"
| "base64_encode [a] =
     [base64_digit (byte_of a div 4), base64_digit (byte_of a mod 4 * 16), CHR ''='', CHR ''='']"
| "base64_encode [a, b] =
     [base64_digit (byte_of a div 4), base64_digit (byte_of a mod 4 * 16 + byte_of b div 16),
      base64_digit (byte_of b mod 16 * 4), CHR ''='']"
| "base64_encode (a # b # c # cs) =
     base64_digit (byte_of a div 4) # base64_digit (byte_of a mod 4 * 16 + byte_of b div 16)
       # base64_digit (byte_of b mod 16 * 4 + byte_of c div 64) # base64_digit (byte_of c mod 64)
       # base64_encode cs"

text \<open>\<open>dataurl.New\<close> panics (\<open>None\<close>) unless the media type has exactly one slash.\<close>

definition data_uri :: "string \<Rightarrow> string \<Rightarrow> string option" where
  "data_uri bytes mediatype =
     (if length (split_on (CHR ''/'') mediatype) = 2
      then Some (''data:'' @ mediatype @ '';base64,'' @ base64_encode bytes) else None)"

section \<open>The request and its loop\<close>

record output_ready_request =
  orq_AnnotatedValueData :: string
  orq_OutputName :: string
  orq_Snapshot :: "(string \<times> AnnotatedValue list) list option"

text \<open>The answer to an accepted request holds the ID of the value; \<open>nt_Sleep\<close> waits for a time or for
  the end of the context, and tells whether the time has passed.\<close>

record 'w notifier =
  nt_OutputReady :: "output_ready_request \<Rightarrow> 'w \<Rightarrow> (string, bool \<times> string) go_result \<times> 'w"
  nt_Sleep :: "int \<Rightarrow> 'w \<Rightarrow> bool \<times> 'w"

datatype task_error =
    MissingArgument string
  | TaskFailed string
  | TooManyFailures string
  | TaskCancelled

definition maxOutputReadyFailures :: nat where "maxOutputReadyFailures = 10"

definition firstOutputReadyDelay :: int where "firstOutputReadyDelay = one_second div 10"

partial_function (option) outputReady_loop ::
  "'w notifier \<Rightarrow> output_ready_request \<Rightarrow> int \<Rightarrow> nat \<Rightarrow> 'w \<Rightarrow> ((task_error, string) go_result \<times> 'w) option" where
  "outputReady_loop nt req delay recentFailures w =
     (case nt_OutputReady nt req w of
        (resp, w) \<Rightarrow>
          (let recentFailures = (if isl resp then Suc recentFailures else 0) in
           if isl resp \<and> recentFailures > maxOutputReadyFailures
           then Some (Inl (TooManyFailures (projl resp)), w)
           else if \<not> isl resp \<and> fst (projr resp) then Some (Inr (snd (projr resp)), w)
           else case nt_Sleep nt delay w of
                  (timer, w) \<Rightarrow>
                    if timer then outputReady_loop nt req (Backoff delay 3 2 (60 * one_second)) recentFailures w
                    else Some (Inl TaskCancelled, w)))"

declare outputReady_loop.simps [code]

text \<open>No task passes a snapshot on.\<close>

definition outputReady ::
  "'w notifier \<Rightarrow> string \<Rightarrow> string \<Rightarrow> 'w \<Rightarrow> ((task_error, string) go_result \<times> 'w) option" where
  "outputReady nt annotatedValueData outputName =
     outputReady_loop nt
       \<lparr>orq_AnnotatedValueData = annotatedValueData, orq_OutputName = outputName, orq_Snapshot = None\<rparr>
       firstOutputReadyDelay 0"

section \<open>What the agent makes of a request\<close>

text \<open>The value that \<open>OutputReady\<close> publishes when it is accepted, with a fresh ID and the time.\<close>

definition output_ready_value ::
  "TaskSpec \<Rightarrow> string \<Rightarrow> Timestamp \<Rightarrow> output_ready_request \<Rightarrow> AnnotatedValue" where
  "output_ready_value spec newID now req =
     fill_blanks spec (orq_OutputName req)
       (inputSnapshotForTaskSnapshot (orq_Snapshot req) :: unit InputSnapshot option) newID now
       \<lparr>av_ID = [], av_SourceTask = [], av_SourceTaskOutput = [], av_Link = [], av_SourceInputs = [],
        av_Data = orq_AnnotatedValueData req, av_CreatedAt = None\<rparr>"

text \<open>What every call and every pause keeps, the loop keeps.\<close>

lemma outputReady_loop_rel:
  assumes "outputReady_loop nt req d f w = Some y"
    and refl: "\<And>w. R w w" and trans: "\<And>u v w. R u v \<Longrightarrow> R v w \<Longrightarrow> R u w"
    and call: "\<And>req w. R w (snd (nt_OutputReady nt req w))" and sleep: "\<And>d w. R w (snd (nt_Sleep nt d w))"
  shows "R w (snd y)"
proof -
  let ?P = "\<lambda>nt' req d f w y. nt' = nt \<longrightarrow> R w (snd y)"
  have "?P nt req d f w y"
  proof (rule outputReady_loop.raw_induct [where P = ?P, OF _ assms(1)], intro impI)
    fix self nt' req d f w y
    assume IH: "\<And>nt' req d f w y. self nt' req d f w = Some y \<Longrightarrow> ?P nt' req d f w y"
      and body: "(case nt_OutputReady nt' req w of
        (resp, w) \<Rightarrow>
          (let recentFailures = (if isl resp then Suc f else 0) in
           if isl resp \<and> recentFailures > maxOutputReadyFailures
           then Some (Inl (TooManyFailures (projl resp)), w)
           else if \<not> isl resp \<and> fst (projr resp) then Some (Inr (snd (projr resp)), w)
           else case nt_Sleep nt' d w of
                  (timer, w) \<Rightarrow>
                    if timer then self nt' req (Backoff d 3 2 (60 * one_second)) recentFailures w
                    else Some (Inl TaskCancelled, w))) = Some y"
      and nt': "nt' = nt"
    obtain r w1 where r: "nt_OutputReady nt req w = (r, w1)" by (rule prod.exhaust)
    obtain t w2 where t: "nt_Sleep nt d w1 = (t, w2)" by (rule prod.exhaust)
    have k: "R w w1" "R w w2" using call [of w req] sleep [of w1 d] trans [of w w1 w2] r t by auto
    have rec: "self nt req d' f' w2 = Some y \<Longrightarrow> R w (snd y)" for d' f'
      using IH [of nt req d' f' w2 y] k(2) trans by blast
    show "R w (snd y)" using body k by (auto simp: nt' r t Let_def split: if_splits dest: rec)
  qed
  then show ?thesis by simp
qed

section \<open>The calls of a task\<close>

text \<open>A notifier that keeps a record of the calls and their answers.\<close>

type_synonym call_record = "(output_ready_request \<times> (string, bool \<times> string) go_result) list"

definition recorded :: "'w notifier \<Rightarrow> ('w \<times> call_record) notifier" where
  "recorded nt =
     \<lparr>nt_OutputReady = (\<lambda>req wl. case nt_OutputReady nt req (fst wl) of
        (r, w) \<Rightarrow> (r, (w, snd wl @ [(req, r)]))),
      nt_Sleep = (\<lambda>d wl. case nt_Sleep nt d (fst wl) of (timer, w) \<Rightarrow> (timer, (w, snd wl)))\<rparr>"

definition taken_call :: "output_ready_request \<times> (string, bool \<times> string) go_result \<Rightarrow> bool" where
  "taken_call c = (case snd c of Inl e \<Rightarrow> False | Inr (accepted, i) \<Rightarrow> accepted)"

definition taken_requests :: "call_record \<Rightarrow> output_ready_request list" where
  "taken_requests cs = map fst (filter taken_call cs)"

lemma taken_requests_append [simp]: "taken_requests (a @ b) = taken_requests a @ taken_requests b"
  by (simp add: taken_requests_def)

lemma taken_requests_nil [simp]: "taken_requests [] = []" by (simp add: taken_requests_def)

lemma taken_requests_one:
  "taken_requests [(req, r)] = (if \<not> isl r \<and> fst (projr r) then [req] else [])"
  by (cases r) (auto simp: taken_requests_def taken_call_def)

text \<open>The loop makes only its own request; the agent takes it exactly when the loop returns an ID.\<close>

definition hands_over ::
  "output_ready_request \<Rightarrow> 'w \<times> call_record \<Rightarrow> (task_error, string) go_result \<times> 'w \<times> call_record \<Rightarrow> bool" where
  "hands_over req wl y \<longleftrightarrow> (\<exists>calls. snd (snd y) = snd wl @ calls \<and> fst ` set calls \<subseteq> {req}
     \<and> taken_requests calls = (if isl (fst y) then [] else [req]))"

lemma outputReady_loop_calls:
  assumes "outputReady_loop (recorded nt) req d f wl = Some y"
  shows "hands_over req wl y"
proof -
  let ?P = "\<lambda>nt' req d f wl y. nt' = recorded nt \<longrightarrow> hands_over req wl y"
  have "?P (recorded nt) req d f wl y"
  proof (rule outputReady_loop.raw_induct [where P = ?P, OF _ assms], intro impI)
    fix self nt' req d f wl y
    assume IH: "\<And>nt' req d f wl y. self nt' req d f wl = Some y \<Longrightarrow> ?P nt' req d f wl y"
      and body: "(case nt_OutputReady nt' req wl of
        (resp, w) \<Rightarrow>
          (let recentFailures = (if isl resp then Suc f else 0) in
           if isl resp \<and> recentFailures > maxOutputReadyFailures
           then Some (Inl (TooManyFailures (projl resp)), w)
           else if \<not> isl resp \<and> fst (projr resp) then Some (Inr (snd (projr resp)), w)
           else case nt_Sleep nt' d w of
                  (timer, w) \<Rightarrow>
                    if timer then self nt' req (Backoff d 3 2 (60 * one_second)) recentFailures w
                    else Some (Inl TaskCancelled, w))) = Some y"
      and nt': "nt' = recorded nt"
    obtain r w1 where o: "nt_OutputReady nt req (fst wl) = (r, w1)" by (rule prod.exhaust)
    obtain t w2 where s: "nt_Sleep nt d w1 = (t, w2)" by (rule prod.exhaust)
    let ?l = "snd wl @ [(req, r)]"
    have o': "nt_OutputReady nt' req wl = (r, (w1, ?l))" "nt_Sleep nt' d (w1, ?l) = (t, (w2, ?l))"
      by (simp_all add: nt' recorded_def o s)
    consider (fail) "isl r" "fst y = Inl (TooManyFailures (projl r))" "snd (snd y) = ?l"
      | (ok) "\<not> isl r" "fst (projr r)" "fst y = Inr (snd (projr r))" "snd (snd y) = ?l"
      | (again) f' where "\<not> (\<not> isl r \<and> fst (projr r))"
          "self nt' req (Backoff d 3 2 (60 * one_second)) f' (w2, ?l) = Some y"
      | (cancel) "\<not> (\<not> isl r \<and> fst (projr r))" "fst y = Inl TaskCancelled" "snd (snd y) = ?l"
      using body by (auto simp: o' Let_def split: if_splits)
    then show "hands_over req wl y"
    proof cases
      case again
      from IH [OF this(2)] nt' obtain calls where c: "snd (snd y) = ?l @ calls" "fst ` set calls \<subseteq> {req}"
        "taken_requests calls = (if isl (fst y) then [] else [req])"
        by (auto simp: hands_over_def)
      show ?thesis unfolding hands_over_def
        by (rule exI [of _ "(req, r) # calls"])
           (use c again(1) taken_requests_append [of "[(req, r)]" calls] in \<open>auto simp: taken_requests_one\<close>)
    qed (auto simp: hands_over_def taken_requests_one intro!: exI [of _ "[(req, r)]"])
  qed
  then show ?thesis by simp
qed

lemma outputReady_calls:
  assumes "outputReady (recorded nt) data name (w, log) = Some (r, (w', log'))"
  defines "req \<equiv> \<lparr>orq_AnnotatedValueData = data, orq_OutputName = name, orq_Snapshot = None\<rparr>"
  shows "\<exists>calls. log' = log @ calls \<and> fst ` set calls \<subseteq> {req} \<and> taken_requests calls = (if isl r then [] else [req])"
  using outputReady_loop_calls [OF assms(1) [unfolded outputReady_def], folded req_def]
  by (simp add: hands_over_def)

end
