(* ===== verification/Task_File.thy ===== *)
theory Task_File
  imports Task_Notify Input_Loop
begin

text \<open>
  The ready-made tasks that read a file of their input: \<open>pkg/task/filesplit\<close>, which publishes every line
  as a value, and \<open>pkg/task/jsonquery\<close>, which publishes the result of a query.
\<close>

section \<open>Lines\<close>

text \<open>
  The lines \<open>bufio.Scanner\<close> finds: without their newline and one carriage return before it.  Its
  buffer does not grow beyond \<open>MaxScanTokenSize\<close>; a line that fills it ends the scan.
\<close>

definition maxScanTokenSize :: int where "maxScanTokenSize = 64 * 1024"

definition newline :: char where "newline = char_of (10::nat)"
definition carriage_return :: char where "carriage_return = char_of (13::nat)"

definition drop_cr :: "string \<Rightarrow> string" where
  "drop_cr line = (if line \<noteq> [] \<and> last line = carriage_return then butlast line else line)"

fun raw_lines :: "string \<Rightarrow> string \<Rightarrow> string list" where
  "raw_lines line [] = (if line = [] then [] else [rev line])"
| "raw_lines line (c # cs) = (if c = newline then rev line # raw_lines [] cs else raw_lines (c # line) cs)"

definition file_lines :: "string \<Rightarrow> string list" where
  "file_lines content = map drop_cr (raw_lines [] content)"

definition scanned_lines :: "string \<Rightarrow> string list" where
  "scanned_lines content =
     map drop_cr (takeWhile (\<lambda>line. int (length line) < maxScanTokenSize) (raw_lines [] content))"

section \<open>Splitting a file\<close>

record filesplit_config =
  fsc_SourcePath :: string
  fsc_OutputName :: string

definition missing_argument :: "(string \<times> string) list \<Rightarrow> task_error option" where
  "missing_argument args = (case find (\<lambda>(name, value). value = []) args of
     None \<Rightarrow> None | Some (name, value) \<Rightarrow> Some (MissingArgument name))"

text \<open>The result is the configuration the service runs with; \<open>client\<close> makes the client of the notifier.\<close>

definition filesplit_NewService ::
  "(task_error, unit) go_result \<Rightarrow> filesplit_config \<Rightarrow> (task_error, filesplit_config) go_result" where
  "filesplit_NewService client cfg =
     (case missing_argument [(''SourcePath'', fsc_SourcePath cfg), (''OutputName'', fsc_OutputName cfg)] of
        Some e \<Rightarrow> Inl e
      | None \<Rightarrow> (case client of Inl e \<Rightarrow> Inl e | Inr _ \<Rightarrow> Inr cfg))"

definition plain_uri :: "string \<Rightarrow> string" where
  "plain_uri bytes = the (data_uri bytes ''text/plain'')"

fun publish_lines ::
  "'w notifier \<Rightarrow> filesplit_config \<Rightarrow> string list \<Rightarrow> 'w \<Rightarrow> (task_error error_only \<times> 'w) option" where
  "publish_lines nt cfg [] w = Some (None, w)"
| "publish_lines nt cfg (line # lines) w =
     (case outputReady nt (plain_uri line) (fsc_OutputName cfg) w of
        None \<Rightarrow> None
      | Some (Inl e, w) \<Rightarrow> Some (Some e, w)
      | Some (Inr i, w) \<Rightarrow> publish_lines nt cfg lines w)"

text \<open>\<open>open_file\<close> gives the content of the file.  The error of the scanner is not looked at.\<close>

definition filesplit_Run ::
  "'w notifier \<Rightarrow> (string \<Rightarrow> (string, string) go_result) \<Rightarrow> filesplit_config \<Rightarrow> 'w
    \<Rightarrow> (task_error error_only \<times> 'w) option" where
  "filesplit_Run nt open_file cfg w =
     (case open_file (fsc_SourcePath cfg) of
        Inl e \<Rightarrow> Some (Some (TaskFailed e), w)
      | Inr content \<Rightarrow> publish_lines nt cfg (scanned_lines content) w)"

section \<open>Querying a file\<close>

record jsonquery_config =
  jqc_SourcePath :: string
  jqc_Query :: string
  jqc_OutputName :: string

definition jsonquery_NewService ::
  "(task_error, unit) go_result \<Rightarrow> jsonquery_config \<Rightarrow> (task_error, jsonquery_config) go_result" where
  "jsonquery_NewService client cfg =
     (case missing_argument [(''SourcePath'', jqc_SourcePath cfg), (''Query'', jqc_Query cfg),
             (''OutputName'', jqc_OutputName cfg)] of
        Some e \<Rightarrow> Inl e
      | None \<Rightarrow> (case client of Inl e \<Rightarrow> Inl e | Inr _ \<Rightarrow> Inr cfg))"

text \<open>\<open>parse\<close> and the query it returns stand for the package \<open>jq\<close>.\<close>

definition jsonquery_Run ::
  "'w notifier \<Rightarrow> (string \<Rightarrow> (string, string \<Rightarrow> (string, string) go_result) go_result)
    \<Rightarrow> (string \<Rightarrow> (string, string) go_result) \<Rightarrow> jsonquery_config \<Rightarrow> 'w
    \<Rightarrow> (task_error error_only \<times> 'w) option" where
  "jsonquery_Run nt parse open_file cfg w =
     (case parse (jqc_Query cfg) of
        Inl e \<Rightarrow> Some (Some (TaskFailed e), w)
      | Inr q \<Rightarrow>
     (case open_file (jqc_SourcePath cfg) of
        Inl e \<Rightarrow> Some (Some (TaskFailed e), w)
      | Inr content \<Rightarrow>
     (case q content of
        Inl e \<Rightarrow> Some (Some (TaskFailed e), w)
      | Inr value \<Rightarrow>
     (case outputReady nt (plain_uri value) (jqc_OutputName cfg) w of
        None \<Rightarrow> None
      | Some (Inl e, w) \<Rightarrow> Some (Some e, w)
      | Some (Inr i, w) \<Rightarrow> Some (None, w)))))"

section \<open>Lemmas\<close>

text \<open>The lines, put together again with newlines, are the file, up to a final newline.\<close>

definition unlines :: "string list \<Rightarrow> string" where
  "unlines ls = concat (map (\<lambda>l. l @ [newline]) ls)"

lemma raw_lines_join:
  "unlines (raw_lines line cs) =
     (if line = [] \<and> cs = [] then [] else rev line @ cs @ (if cs = [] \<or> last cs \<noteq> newline then [newline] else []))"
  by (induction line cs rule: raw_lines.induct) (auto simp: unlines_def)

lemma raw_lines_clean: "newline \<notin> set line \<Longrightarrow> l \<in> set (raw_lines line cs) \<Longrightarrow> newline \<notin> set l"
  by (induction line cs arbitrary: l rule: raw_lines.induct) (auto split: if_splits)

lemma publish_lines_calls:
  assumes "publish_lines (recorded nt) cfg ls (w, log) = Some (r, (w', log'))"
  defines "req \<equiv> \<lambda>l. \<lparr>orq_AnnotatedValueData = plain_uri l, orq_OutputName = fsc_OutputName cfg, orq_Snapshot = None\<rparr>"
  shows "\<exists>calls n. log' = log @ calls \<and> n \<le> length ls \<and> taken_requests calls = map req (take n ls)
    \<and> (r = None \<longrightarrow> n = length ls)"
  using assms(1)
proof (induction ls arbitrary: w log)
  case Nil
  then show ?case by (auto intro!: exI [of _ "[]"])
next
  case (Cons l ls)
  obtain q w1 log1 where o: "outputReady (recorded nt) (plain_uri l) (fsc_OutputName cfg) (w, log) = Some (q, (w1, log1))"
    using Cons.prems by (auto split: option.splits)
  obtain c where c: "log1 = log @ c" "taken_requests c = (if isl q then [] else [req l])"
    using outputReady_calls [OF o] by (auto simp: req_def)
  show ?case
  proof (cases q)
    case (Inl e)
    then have "r = Some e" "log' = log1" using Cons.prems o by auto
    then show ?thesis using c Inl by (auto intro!: exI [of _ 0])
  next
    case (Inr i)
    then have "publish_lines (recorded nt) cfg ls (w1, log1) = Some (r, (w', log'))"
      using Cons.prems o by simp
    from Cons.IH [OF this] obtain calls n where "log' = log1 @ calls" "n \<le> length ls"
      "taken_requests calls = map req (take n ls)" "r = None \<longrightarrow> n = length ls" by blast
    then show ?thesis using c Inr by (intro exI [of _ "c @ calls"] exI [of _ "Suc n"]) auto
  qed
qed

lemma takeWhile_take: "takeWhile P xs = take (length (takeWhile P xs)) xs"
  by (induction xs) auto


section \<open>Values without sources\<close>


section \<open>Applying the properties\<close>

text \<open>An agent that refuses every other call; the world counts the calls.\<close>

definition busy_notifier :: "nat notifier" where
  "busy_notifier = \<lparr>nt_OutputReady = (\<lambda>req w. (Inr (odd w, ''id''), Suc w)), nt_Sleep = (\<lambda>d w. (True, w))\<rparr>"

definition split_example :: filesplit_config where
  "split_example = \<lparr>fsc_SourcePath = ''f'', fsc_OutputName = ''out''\<rparr>"

definition split_content :: string where
  "split_content = ''ab'' @ [carriage_return, newline] @ [newline] @ ''c''"


end
