(* ===== verification/Task_Drop.thy ===== *)
theory Task_Drop
  imports Task_File Agent_Process Go_Path
begin

text \<open>
  The ready-made task \<open>pkg/task/filedrop\<close>: an HTTP server that stores every upload in a file of the
  output volume and publishes its URI.  Also \<open>filepath.Rel\<close>, with which it names the file.
\<close>

section \<open>Relative paths\<close>

text \<open>The elements of a cleaned path; a relative path that is empty has a dot as target.\<close>

definition path_elements :: "string \<Rightarrow> string list" where
  "path_elements s = clean_parts (is_rooted s) [] (split_on (CHR ''/'') s)"

definition target_elements :: "string \<Rightarrow> string list" where
  "target_elements s = (if path_elements s = [] \<and> \<not> is_rooted s then [''.''] else path_elements s)"

fun strip_common :: "string list \<Rightarrow> string list \<Rightarrow> string list \<times> string list" where
  "strip_common (b # bs) (t # ts) = (if b = t then strip_common bs ts else (b # bs, t # ts))"
| "strip_common bs ts = (bs, ts)"

definition path_Rel :: "string \<Rightarrow> string \<Rightarrow> (string, string) go_result" where
  "path_Rel base targ =
     (if path_Clean targ = path_Clean base then Inr ''.''
      else if is_rooted base \<noteq> is_rooted targ then Inl ''cannot make relative''
      else case strip_common (path_elements base) (target_elements targ) of
             (bs, ts) \<Rightarrow>
               if bs \<noteq> [] \<and> ts \<noteq> [] \<and> hd bs = ''..'' then Inl ''cannot make relative''
               else Inr (join_with ''/'' (replicate (length bs) ''..'' @ ts)))"

lemma strip_common_below: "strip_common ps (ps @ qs) = ([], qs)"
  by (induction ps) (cases qs; simp)+

lemma elements_plain:
  assumes "\<forall>p \<in> set ps. plain_part p"
  shows "path_elements (CHR ''/'' # join_with ''/'' ps) = ps"
proof (cases "ps = []")
  case False
  then have "split_on (CHR ''/'') (join_with ''/'' ps) = ps"
    using split_join [of ps "CHR ''/''"] assms by (auto simp: plain_part_def)
  then show ?thesis using clean_parts_plain [OF assms] by (simp add: path_elements_def is_rooted_def)
qed (simp add: path_elements_def is_rooted_def)

text \<open>A path below another one is reached by the elements in between.\<close>

lemma Rel_below:
  assumes "\<forall>p \<in> set (ps @ qs). plain_part p" and "ps \<noteq> []" and "qs \<noteq> []"
  shows "path_Rel (CHR ''/'' # join_with ''/'' ps) (CHR ''/'' # join_with ''/'' (ps @ qs)) = Inr (join_with ''/'' qs)"
proof -
  have p: "\<forall>p \<in> set ps. plain_part p" using assms(1) by simp
  have "path_Clean (CHR ''/'' # join_with ''/'' ps) \<noteq> path_Clean (CHR ''/'' # join_with ''/'' (ps @ qs))"
    using Clean_rooted_plain [OF assms(2) p] Clean_rooted_plain [of "ps @ qs"] join_plain_inj [OF p assms(1)] assms(1,3)
    by auto
  then show ?thesis
    using elements_plain [OF p] elements_plain [OF assms(1)] strip_common_below [of ps qs]
    by (simp add: path_Rel_def is_rooted_def target_elements_def)
qed

section \<open>The service\<close>

record filedrop_config =
  fdc_DropFolder :: string
  fdc_MountPath :: string
  fdc_OutputName :: string

text \<open>A service does not start when an argument is missing or a client cannot be made.\<close>

type_synonym start_error = "task_error + process_error"

definition start_result :: "(process_error, 'a) go_result \<Rightarrow> (start_error, 'a) go_result" where
  "start_result r = (case r of Inl e \<Rightarrow> Inl (Inr e) | Inr x \<Rightarrow> Inr x)"

text \<open>The clients are the addresses they are connected to.\<close>

record filedrop_service = filedrop_config +
  fds_ofsClient :: string
  fds_fsScheme :: string
  fds_ornClient :: string

definition filedrop_NewService ::
  "'w agent_env \<Rightarrow> filedrop_config \<Rightarrow> (start_error, filedrop_service) go_result" where
  "filedrop_NewService env cfg =
     (case missing_argument [(''DropFolder'', fdc_DropFolder cfg), (''MountPath'', fdc_MountPath cfg),
             (''OutputName'', fdc_OutputName cfg)] of
        Some e \<Rightarrow> Inl (Inl e)
      | None \<Rightarrow>
     (case start_result (CreateOutputFileSystemServiceClient env) of Inl e \<Rightarrow> Inl e | Inr ofsClient \<Rightarrow>
     (case start_result (get_env GetFileSystemScheme env) of Inl e \<Rightarrow> Inl e | Inr fsScheme \<Rightarrow>
     (case start_result (CreateOutputReadyNotifierClient env) of Inl e \<Rightarrow> Inl e | Inr ornClient \<Rightarrow>
        Inr (filedrop_config.extend cfg
          \<lparr>fds_ofsClient = ofsClient, fds_fsScheme = fsScheme, fds_ornClient = ornClient\<rparr>)))))"

section \<open>Uploads\<close>

text \<open>
  The world of a request: random names, the files, the services.  \<open>up_Copy\<close> copies the body of the
  request into a file; errors of \<open>MkdirAll\<close> are not looked at.
\<close>

record 'w upload_env =
  up_Notifier :: "'w notifier"
  up_NewLen :: "'w \<Rightarrow> string \<times> 'w"
  up_MkdirAll :: "string \<Rightarrow> 'w \<Rightarrow> 'w"
  up_Create :: "string \<Rightarrow> 'w \<Rightarrow> string error_only \<times> 'w"
  up_Copy :: "string \<Rightarrow> 'w \<Rightarrow> string error_only \<times> 'w"
  up_CreateFileURI :: "string \<Rightarrow> string \<Rightarrow> bool \<Rightarrow> 'w \<Rightarrow> (string, string) go_result \<times> 'w"

text \<open>The answer to an upload: a status with the members of a JSON object, or nothing at all.\<close>

datatype upload_answer =
    InternalServerError
  | StatusOK "(string \<times> string) list"
  | NotAnswered

partial_function (option) announce ::
  "'w notifier \<Rightarrow> output_ready_request \<Rightarrow> int \<Rightarrow> 'w \<Rightarrow> (upload_answer \<times> 'w) option" where
  "announce nt req delay w =
     (case nt_OutputReady nt req w of
        (resp, w) \<Rightarrow>
          if isl resp then Some (InternalServerError, w)
          else if fst (projr resp) then Some (StatusOK [(''annotatedvalue-id'', snd (projr resp))], w)
          else case nt_Sleep nt delay w of
                 (timer, w) \<Rightarrow>
                   if timer then announce nt req (Backoff delay 3 2 (60 * one_second)) w
                   else Some (NotAnswered, w))"

declare announce.simps [code]

definition upload_path :: "filedrop_config \<Rightarrow> string \<Rightarrow> string" where
  "upload_path cfg random = path_Join [fdc_DropFolder cfg, ''upload-'' @ random]"

definition upload_request :: "filedrop_config \<Rightarrow> string \<Rightarrow> output_ready_request" where
  "upload_request cfg uri = \<lparr>orq_AnnotatedValueData = uri, orq_OutputName = fdc_OutputName cfg, orq_Snapshot = None\<rparr>"

definition uploadHandler :: "'w upload_env \<Rightarrow> filedrop_config \<Rightarrow> 'w \<Rightarrow> (upload_answer \<times> 'w) option" where
  "uploadHandler env cfg w =
     (case up_NewLen env w of (random, w) \<Rightarrow>
       (let localPath = upload_path cfg random;
            w = up_MkdirAll env (fdc_DropFolder cfg) w in
        case up_Create env localPath w of
          (Some e, w) \<Rightarrow> Some (InternalServerError, w)
        | (None, w) \<Rightarrow>
       (case up_Copy env localPath w of
          (Some e, w) \<Rightarrow> Some (InternalServerError, w)
        | (None, w) \<Rightarrow>
       (case path_Rel (fdc_MountPath cfg) localPath of
          Inl e \<Rightarrow> Some (InternalServerError, w)
        | Inr relLocalPath \<Rightarrow>
       (case up_CreateFileURI env (fdc_OutputName cfg) relLocalPath False w of
          (Inl e, w) \<Rightarrow> Some (InternalServerError, w)
        | (Inr uri, w) \<Rightarrow> announce (up_Notifier env) (upload_request cfg uri) firstOutputReadyDelay w)))))"

section \<open>What an upload leaves\<close>

datatype upload_event =
    Stored string
  | GaveURI string string bool string
  | Announced output_ready_request "(string, bool \<times> string) go_result"

definition logged :: "('w \<Rightarrow> 'r \<times> 'w) \<Rightarrow> ('r \<Rightarrow> upload_event list) \<Rightarrow> 'w \<times> upload_event list \<Rightarrow> 'r \<times> 'w \<times> upload_event list" where
  "logged f ev wl = (case f (fst wl) of (r, w) \<Rightarrow> (r, (w, snd wl @ ev r)))"

text \<open>The environment with a record of the files stored, the URIs made and the calls of the agent.\<close>

definition recorded_upload :: "'w upload_env \<Rightarrow> ('w \<times> upload_event list) upload_env" where
  "recorded_upload env =
     \<lparr>up_Notifier = \<lparr>
        nt_OutputReady = (\<lambda>req. logged (nt_OutputReady (up_Notifier env) req) (\<lambda>r. [Announced req r])),
        nt_Sleep = (\<lambda>d. logged (nt_Sleep (up_Notifier env) d) (\<lambda>_. []))\<rparr>,
      up_NewLen = logged (up_NewLen env) (\<lambda>_. []),
      up_MkdirAll = (\<lambda>path wl. (up_MkdirAll env path (fst wl), snd wl)),
      up_Create = (\<lambda>path. logged (up_Create env path) (\<lambda>_. [])),
      up_Copy = (\<lambda>path. logged (up_Copy env path) (\<lambda>r. if r = None then [Stored path] else [])),
      up_CreateFileURI = (\<lambda>name path isDir. logged (up_CreateFileURI env name path isDir)
        (\<lambda>r. case r of Inl e \<Rightarrow> [] | Inr uri \<Rightarrow> [GaveURI name path isDir uri]))\<rparr>"

text \<open>Calls that were answered, but did not take the value.\<close>

definition refusals :: "output_ready_request \<Rightarrow> upload_event list \<Rightarrow> bool" where
  "refusals req es \<longleftrightarrow> list_all (\<lambda>e. \<exists>i. e = Announced req (Inr (False, i))) es"

definition announced :: "output_ready_request \<Rightarrow> upload_answer \<Rightarrow> upload_event list \<Rightarrow> bool" where
  "announced req ans es \<longleftrightarrow> (\<exists>rs. refusals req rs \<and> (case ans of
       StatusOK fs \<Rightarrow> \<exists>i. fs = [(''annotatedvalue-id'', i)] \<and> es = rs @ [Announced req (Inr (True, i))]
     | InternalServerError \<Rightarrow> \<exists>e. es = rs @ [Announced req (Inl e)]
     | NotAnswered \<Rightarrow> es = rs))"

lemma announced_refused:
  "announced req ans es \<Longrightarrow> announced req ans (Announced req (Inr (False, i)) # es)"
proof -
  assume "announced req ans es"
  then obtain rs where rs: "refusals req rs" and c: "case ans of
       StatusOK fs \<Rightarrow> \<exists>i. fs = [(''annotatedvalue-id'', i)] \<and> es = rs @ [Announced req (Inr (True, i))]
     | InternalServerError \<Rightarrow> \<exists>e. es = rs @ [Announced req (Inl e)]
     | NotAnswered \<Rightarrow> es = rs"
    by (auto simp: announced_def)
  show ?thesis unfolding announced_def
    by (rule exI [of _ "Announced req (Inr (False, i)) # rs"])
       (use rs c in \<open>auto simp: refusals_def split: upload_answer.splits\<close>)
qed

lemma announce_log:
  assumes "announce (up_Notifier (recorded_upload env)) req d wl = Some y"
  shows "\<exists>es. snd (snd y) = snd wl @ es \<and> announced req (fst y) es"
proof -
  let ?P = "\<lambda>nt req d wl y. nt = up_Notifier (recorded_upload env)
    \<longrightarrow> (\<exists>es. snd (snd y) = snd wl @ es \<and> announced req (fst y) es)"
  have "?P (up_Notifier (recorded_upload env)) req d wl y"
  proof (rule announce.raw_induct [where P = ?P, OF _ assms], intro impI)
    fix self nt req d wl y
    assume IH: "\<And>nt req d wl y. self nt req d wl = Some y \<Longrightarrow> ?P nt req d wl y"
      and body: "(case nt_OutputReady nt req wl of
        (resp, w) \<Rightarrow>
          if isl resp then Some (InternalServerError, w)
          else if fst (projr resp) then Some (StatusOK [(''annotatedvalue-id'', snd (projr resp))], w)
          else case nt_Sleep nt d w of
                 (timer, w) \<Rightarrow>
                   if timer then self nt req (Backoff d 3 2 (60 * one_second)) w
                   else Some (NotAnswered, w)) = Some y"
      and nt: "nt = up_Notifier (recorded_upload env)"
    obtain r w1 where o: "nt_OutputReady (up_Notifier env) req (fst wl) = (r, w1)" by (rule prod.exhaust)
    obtain t w2 where s: "nt_Sleep (up_Notifier env) d w1 = (t, w2)" by (rule prod.exhaust)
    let ?l = "snd wl @ [Announced req r]"
    have o': "nt_OutputReady nt req wl = (r, (w1, ?l))" "nt_Sleep nt d (w1, ?l) = (t, (w2, ?l))"
      by (simp_all add: nt recorded_upload_def logged_def o s)
    show "\<exists>es. snd (snd y) = snd wl @ es \<and> announced req (fst y) es"
    proof (cases "isl r \<or> fst (projr r)")
      case True
      then have "snd (snd y) = snd wl @ [Announced req r] \<and> announced req (fst y) [Announced req r]"
        using body by (cases r) (auto simp: o' announced_def refusals_def intro!: exI [of _ "[]"])
      then show ?thesis by blast
    next
      case False
      then obtain i where r: "r = Inr (False, i)" by (cases r) auto
      show ?thesis
      proof (cases t)
        case True
        then have "self nt req (Backoff d 3 2 (60 * one_second)) (w2, ?l) = Some y"
          using body r by (simp add: o' [unfolded r])
        from IH [OF this] nt obtain es where "snd (snd y) = ?l @ es" "announced req (fst y) es" by auto
        then show ?thesis using announced_refused [of req "fst y" es i] r by auto
      next
        case False
        then have "y = (NotAnswered, (w2, ?l))" using body by (simp add: o' [unfolded r] r)
        then show ?thesis using r by (auto simp: announced_def refusals_def)
      qed
    qed
  qed
  then show ?thesis by simp
qed

text \<open>The name of the file leads from the mount path to the file.\<close>

lemma upload_relative:
  assumes "fdc_MountPath cfg = CHR ''/'' # join_with ''/'' ps" and "fdc_DropFolder cfg = CHR ''/'' # join_with ''/'' (ps @ ds)"
    and "ps \<noteq> []" and "\<forall>p \<in> set (ps @ ds). plain_part p" and "CHR ''/'' \<notin> set random"
  shows "\<exists>rel. path_Rel (fdc_MountPath cfg) (upload_path cfg random) = Inr rel
    \<and> path_Join [fdc_MountPath cfg, rel] = upload_path cfg random"
proof -
  let ?f = "''upload-'' @ random"
  let ?qs = "ds @ [?f]"
  have f: "plain_part ?f" using assms(5) by (simp add: plain_part_def)
  have all: "\<forall>p \<in> set (ps @ ?qs). plain_part p" and p: "\<forall>p \<in> set (ps @ ds). plain_part p" using f assms(4) by auto
  have path: "upload_path cfg random = CHR ''/'' # join_with ''/'' (ps @ ?qs)"
    using Join_plain [of "ps @ ds" "[?f]"] assms(3) p f by (simp add: upload_path_def assms(2))
  moreover have "path_Rel (fdc_MountPath cfg) (CHR ''/'' # join_with ''/'' (ps @ ?qs)) = Inr (join_with ''/'' ?qs)"
    unfolding assms(1) by (rule Rel_below [OF all assms(3)]) simp
  moreover have "join_with ''/'' [CHR ''/'' # join_with ''/'' ps, join_with ''/'' ?qs] = CHR ''/'' # join_with ''/'' (ps @ ?qs)"
    using join_with_append [OF assms(3), of ?qs "''/''"] by simp
  then have "path_Join [fdc_MountPath cfg, join_with ''/'' ?qs] = CHR ''/'' # join_with ''/'' (ps @ ?qs)"
    using Clean_rooted_plain [OF _ all] assms(3) by (simp add: path_Join_def assms(1))
  ultimately show ?thesis by auto
qed


section \<open>Applying the properties\<close>

text \<open>An agent that refuses the first two calls.\<close>

definition example_upload :: "nat upload_env" where
  "example_upload =
     \<lparr>up_Notifier = \<lparr>nt_OutputReady = (\<lambda>req w. (Inr (w \<ge> 2, ''id''), Suc w)), nt_Sleep = (\<lambda>d w. (True, w))\<rparr>,
      up_NewLen = (\<lambda>w. (''a1b2c3'', w)), up_MkdirAll = (\<lambda>path w. w), up_Create = (\<lambda>path w. (None, w)),
      up_Copy = (\<lambda>path w. (None, w)), up_CreateFileURI = (\<lambda>name path isDir w. (Inr ''koalja-file:///v/1'', w))\<rparr>"

definition example_drop :: filedrop_config where
  "example_drop = \<lparr>fdc_DropFolder = ''/koalja/outputs/out/drop'', fdc_MountPath = ''/koalja/outputs/out'', fdc_OutputName = ''out''\<rparr>"


end
