(* ===== verification/Task_Query.thy ===== *)
theory Task_Query
  imports Task_Drop "HOL-Library.Sublist"
begin

text \<open>
  The ready-made task \<open>pkg/task/dbquery\<close> with its ArangoDB implementation: it runs a query again and
  again and publishes the documents it finds.  The query gets the key of the last published document.
\<close>

section \<open>Starting\<close>

record dbquery_config =
  dqc_LargeDataFolder :: string
  dqc_MountPath :: string
  dqc_NodeName :: string
  dqc_OutputName :: string
  dqc_DatabaseConfigMap :: string
  dqc_Query :: string
  dqc_Namespace :: string

record dbquery_service = dbquery_config +
  dqs_ofsClient :: string
  dqs_fsScheme :: string
  dqs_ornClient :: string

definition dbquery_NewService ::
  "'w agent_env \<Rightarrow> dbquery_config \<Rightarrow> 'w \<Rightarrow> ((start_error, dbquery_service) go_result \<times> 'w) option" where
  "dbquery_NewService env cfg w =
     (case missing_argument [(''LargeDataFolder'', dqc_LargeDataFolder cfg), (''MountPath'', dqc_MountPath cfg),
             (''NodeName'', dqc_NodeName cfg), (''OutputName'', dqc_OutputName cfg),
             (''DatabaseConfigMap'', dqc_DatabaseConfigMap cfg), (''Query'', dqc_Query cfg)] of
        Some e \<Rightarrow> Some (Inl (Inl e), w)
      | None \<Rightarrow> map_option (\<lambda>(r, w). (start_result r, w))
          (and_then (if dqc_Namespace cfg = [] then get_env GetNamespace env else Inr (dqc_Namespace cfg)) w (\<lambda>ns.
           and_retry (new_client env w) (\<lambda>_ w.
           and_then (CreateOutputFileSystemServiceClient env) w (\<lambda>ofsClient.
           and_then (get_env GetFileSystemScheme env) w (\<lambda>fsScheme.
           and_then (CreateOutputReadyNotifierClient env) w (\<lambda>ornClient.
             Some (Inr (dbquery_config.extend (cfg\<lparr>dqc_Namespace := ns\<rparr>)
               \<lparr>dqs_ofsClient = ofsClient, dqs_fsScheme = fsScheme, dqs_ornClient = ornClient\<rparr>), w))))))))"

section \<open>Cursors\<close>

text \<open>
  A cursor of the vendored driver holds a batch of raw documents (\<open>None\<close> for the value null) and
  fetches the next batch when it has been read.  What is no document has the empty key.
\<close>

record cursor_data =
  cu_ID :: string
  cu_Result :: "string option list"
  cu_HasMore :: bool

record cursor = cursor_data +
  cu_Index :: nat

record db_login =
  dl_Username :: string
  dl_Password :: string

record 'w query_env =
  qe_Notifier :: "'w notifier"
  qe_Now :: "'w \<Rightarrow> int"
  qe_Connect :: "string \<Rightarrow> db_login option \<Rightarrow> string \<Rightarrow> 'w \<Rightarrow> string error_only \<times> 'w"
  qe_Query :: "string \<Rightarrow> string \<Rightarrow> 'w \<Rightarrow> (string, cursor_data) go_result \<times> 'w"
  qe_Fetch :: "string \<Rightarrow> 'w \<Rightarrow> (string, cursor_data) go_result \<times> 'w"
  qe_MetaKey :: "string \<Rightarrow> string"
  qe_Unmarshal :: "string \<Rightarrow> (string, string) go_result"
  qe_Marshal :: "string \<Rightarrow> (string, string) go_result"

definition at_start :: "cursor_data \<Rightarrow> cursor" where
  "at_start b = cursor_data.extend b \<lparr>cu_Index = 0\<rparr>"

datatype read_result =
    NoMoreDocuments
  | ReadFailed string
  | ReadDoc string string

definition fetch_batch :: "'w query_env \<Rightarrow> cursor \<Rightarrow> 'w \<Rightarrow> string error_only \<times> cursor \<times> 'w" where
  "fetch_batch env cur w =
     (if cu_Index cur \<ge> length (cu_Result cur) \<and> cu_HasMore cur
      then case qe_Fetch env (cu_ID cur) w of
             (Inl e, w) \<Rightarrow> (Some e, cur, w)
           | (Inr b, w) \<Rightarrow> (None, at_start b, w)
      else (None, cur, w))"

definition ReadDocument :: "'w query_env \<Rightarrow> cursor \<Rightarrow> 'w \<Rightarrow> read_result \<times> cursor \<times> 'w" where
  "ReadDocument env cur w =
     (case fetch_batch env cur w of
        (Some e, cur, w) \<Rightarrow> (ReadFailed e, cur, w)
      | (None, cur, w) \<Rightarrow>
          if cu_Index cur \<ge> length (cu_Result cur) then (NoMoreDocuments, cur, w)
          else ((case cu_Result cur ! cu_Index cur of
                   None \<Rightarrow> ReadDoc [] ''null''
                 | Some raw \<Rightarrow> (case qe_Unmarshal env raw of
                     Inl e \<Rightarrow> ReadFailed e | Inr v \<Rightarrow> ReadDoc (qe_MetaKey env raw) v)),
                cur\<lparr>cu_Index := Suc (cu_Index cur)\<rparr>, w))"

section \<open>Running the query\<close>

definition publish_document ::
  "'w query_env \<Rightarrow> string \<Rightarrow> string \<Rightarrow> 'w \<Rightarrow> (task_error error_only \<times> 'w) option" where
  "publish_document env outputName doc w =
     (case qe_Marshal env doc of
        Inl e \<Rightarrow> Some (Some (TaskFailed e), w)
      | Inr encoded \<Rightarrow>
          (case outputReady (qe_Notifier env) (the (data_uri encoded ''text/json'')) outputName w of
             None \<Rightarrow> None
           | Some (Inl e, w) \<Rightarrow> Some (Some e, w)
           | Some (Inr i, w) \<Rightarrow> Some (None, w)))"

text \<open>The result of a round is its error and the key of the last published document.\<close>

partial_function (option) read_loop ::
  "'w query_env \<Rightarrow> string \<Rightarrow> string \<Rightarrow> cursor \<Rightarrow> 'w \<Rightarrow> (task_error error_only \<times> string \<times> 'w) option" where
  "read_loop env outputName lastKey cur w =
     (case ReadDocument env cur w of
        (r, cur, w) \<Rightarrow>
          (case r of
             NoMoreDocuments \<Rightarrow> Some (None, lastKey, w)
           | ReadFailed e \<Rightarrow> read_loop env outputName lastKey cur w
           | ReadDoc key doc \<Rightarrow>
               (case publish_document env outputName doc w of
                  None \<Rightarrow> None
                | Some (published, w) \<Rightarrow>
                    (case published of
                       Some e \<Rightarrow> Some (Some e, lastKey, w)
                     | None \<Rightarrow> read_loop env outputName key cur w))))"

declare read_loop.simps [code]

definition queryOnce ::
  "'w query_env \<Rightarrow> dbquery_config \<Rightarrow> string \<Rightarrow> 'w \<Rightarrow> (task_error error_only \<times> string \<times> 'w) option" where
  "queryOnce env cfg lastKey w =
     (case qe_Query env (dqc_Query cfg) lastKey w of
        (Inl e, w) \<Rightarrow> Some (Some (TaskFailed e), lastKey, w)
      | (Inr b, w) \<Rightarrow> read_loop env (dqc_OutputName cfg) lastKey (at_start b) w)"

definition minQueryTime :: int where "minQueryTime = 5 * one_second"

partial_function (option) query_loop ::
  "'w query_env \<Rightarrow> dbquery_config \<Rightarrow> string \<Rightarrow> 'w \<Rightarrow> (task_error error_only \<times> 'w) option" where
  "query_loop env cfg lastKey w =
     (case queryOnce env cfg lastKey w of
        None \<Rightarrow> None
      | Some (result, lastKey, w1) \<Rightarrow>
          (case result of
             Some e \<Rightarrow> Some (Some e, w1)
           | None \<Rightarrow>
               (let duration = qe_Now env w1 - qe_Now env w in
                if duration < minQueryTime
                then (case nt_Sleep (qe_Notifier env) (minQueryTime - duration) w1 of
                        (timer, w2) \<Rightarrow>
                          if timer then query_loop env cfg lastKey w2 else Some (Some TaskCancelled, w2))
                else query_loop env cfg lastKey w1)))"

declare query_loop.simps [code]

record database_config =
  dbc_Type :: string
  dbc_Address :: string
  dbc_AuthenticationSecret :: string
  dbc_Database :: string

definition connectAndQuery ::
  "'w query_env \<Rightarrow> dbquery_config \<Rightarrow> database_config \<Rightarrow> db_login option \<Rightarrow> 'w \<Rightarrow> (task_error error_only \<times> 'w) option" where
  "connectAndQuery env cfg dbCfg auth w =
     (case qe_Connect env (dbc_Address dbCfg) auth (dbc_Database dbCfg) w of
        (Some e, w) \<Rightarrow> Some (Some (TaskFailed e), w)
      | (None, w) \<Rightarrow> query_loop env cfg [] w)"

definition secret_value :: "(string, string) gomap \<Rightarrow> string \<Rightarrow> string" where
  "secret_value m key = (case map_of m key of None \<Rightarrow> [] | Some v \<Rightarrow> v)"

definition arangodb_Query ::
  "'w query_env \<Rightarrow> dbquery_config \<Rightarrow> database_config \<Rightarrow> (string, string) gomap option \<Rightarrow> 'w
    \<Rightarrow> (task_error error_only \<times> 'w) option" where
  "arangodb_Query env cfg dbCfg secret w =
     connectAndQuery env cfg dbCfg
       (map_option (\<lambda>s. \<lparr>dl_Username = secret_value s ''username'', dl_Password = secret_value s ''password''\<rparr>) secret) w"

section \<open>The service\<close>

type_synonym 'w database =
  "'w query_env \<Rightarrow> dbquery_config \<Rightarrow> database_config \<Rightarrow> (string, string) gomap option \<Rightarrow> 'w
    \<Rightarrow> (task_error error_only \<times> 'w) option"

definition RegisterDatabase :: "string \<Rightarrow> 'w database \<Rightarrow> (string, 'w database) gomap \<Rightarrow> (string, 'w database) gomap" where
  "RegisterDatabase dbType db dbs = AList.update dbType db dbs"

definition DatabaseTypeArangoDB :: string where "DatabaseTypeArangoDB = ''ArangoDB''"

definition databases :: "(string, 'w database) gomap" where
  "databases = RegisterDatabase DatabaseTypeArangoDB arangodb_Query []"

definition GetDatabaseByType :: "string \<Rightarrow> (task_error, 'w database) go_result" where
  "GetDatabaseByType dbType = (case map_of databases dbType of
     None \<Rightarrow> Inl (TaskFailed (''Database with type '' @ dbType @ '' not found'')) | Some db \<Rightarrow> Inr db)"

definition databaseConfigFileName :: string where "databaseConfigFileName = ''config.yaml''"

text \<open>\<open>parse_yaml\<close> stands for the package \<open>yaml\<close>.\<close>

definition NewDatabaseConfigFromConfigMap ::
  "(string \<Rightarrow> (string, database_config) go_result) \<Rightarrow> (string, string) gomap \<Rightarrow> (task_error, database_config) go_result" where
  "NewDatabaseConfigFromConfigMap parse_yaml data =
     (case map_of data databaseConfigFileName of
        None \<Rightarrow> Inl (TaskFailed ''No config found in database ConfigMap'')
      | Some rawConfig \<Rightarrow> (case parse_yaml rawConfig of Inl e \<Rightarrow> Inl (TaskFailed e) | Inr dbCfg \<Rightarrow> Inr dbCfg))"

text \<open>\<open>get_data\<close> reads the data of a config map or of a secret.\<close>

definition dbquery_Run ::
  "'w query_env \<Rightarrow> (string \<Rightarrow> (string, database_config) go_result)
    \<Rightarrow> (string \<Rightarrow> string \<Rightarrow> 'w \<Rightarrow> (string, (string, string) gomap) go_result \<times> 'w)
    \<Rightarrow> (string \<Rightarrow> string \<Rightarrow> 'w \<Rightarrow> (string, (string, string) gomap) go_result \<times> 'w)
    \<Rightarrow> dbquery_config \<Rightarrow> 'w \<Rightarrow> (task_error error_only \<times> 'w) option" where
  "dbquery_Run env parse_yaml get_map get_secret cfg w =
     (case get_map (dqc_DatabaseConfigMap cfg) (dqc_Namespace cfg) w of
        (Inl e, w) \<Rightarrow> Some (Some (TaskFailed e), w)
      | (Inr data, w) \<Rightarrow>
     (case NewDatabaseConfigFromConfigMap parse_yaml data of
        Inl e \<Rightarrow> Some (Some e, w)
      | Inr dbCfg \<Rightarrow>
     (case GetDatabaseByType (dbc_Type dbCfg) of
        Inl e \<Rightarrow> Some (Some e, w)
      | Inr db \<Rightarrow>
          if dbc_AuthenticationSecret dbCfg \<noteq> []
          then (case get_secret (dbc_AuthenticationSecret dbCfg) (dqc_Namespace cfg) w of
                  (Inl e, w) \<Rightarrow> Some (Some (TaskFailed e), w)
                | (Inr secret, w) \<Rightarrow> db env cfg dbCfg (Some secret) w)
          else db env cfg dbCfg None w)))"

section \<open>A database that grows\<close>

text \<open>
  What the task relies on: documents are only added, at the end; the query answers, through its cursor,
  the documents after the one with the given key; a failed fetch takes nothing from the cursor, and a
  fetched batch is empty only when it is the last.
  \<open>docs\<close> are the raw documents, \<open>pending\<close> what the server still holds for a cursor.
\<close>

definition cursor_docs :: "('w \<Rightarrow> string \<Rightarrow> string list) \<Rightarrow> cursor \<Rightarrow> 'w \<Rightarrow> string option list" where
  "cursor_docs pending cur w =
     drop (cu_Index cur) (cu_Result cur) @ (if cu_HasMore cur then map Some (pending w (cu_ID cur)) else [])"

definition docs_after :: "(string \<Rightarrow> string) \<Rightarrow> string \<Rightarrow> string list \<Rightarrow> string list" where
  "docs_after key k ds = (if k = [] then ds else tl (dropWhile (\<lambda>d. key d \<noteq> k) ds))"

definition grown :: "('w \<Rightarrow> string list) \<Rightarrow> ('w \<Rightarrow> string \<Rightarrow> string list) \<Rightarrow> 'w \<Rightarrow> 'w \<Rightarrow> bool" where
  "grown docs pending w w' \<longleftrightarrow> prefix (docs w) (docs w') \<and> pending w' = pending w"

definition growing_database ::
  "'w query_env \<Rightarrow> ('w \<Rightarrow> string list) \<Rightarrow> ('w \<Rightarrow> string \<Rightarrow> string list) \<Rightarrow> bool" where
  "growing_database env docs pending \<longleftrightarrow>
     (\<forall>w. distinct (map (qe_MetaKey env) (docs w)) \<and> [] \<notin> qe_MetaKey env ` set (docs w)
        \<and> (\<forall>d \<in> set (docs w). \<not> isl (qe_Unmarshal env d) \<and> \<not> isl (qe_Marshal env (projr (qe_Unmarshal env d))))) \<and>
     (\<forall>w req. grown docs pending w (snd (nt_OutputReady (qe_Notifier env) req w))) \<and>
     (\<forall>w d. grown docs pending w (snd (nt_Sleep (qe_Notifier env) d w))) \<and>
     (\<forall>w q k. case qe_Query env q k w of
        (Inl e, w') \<Rightarrow> prefix (docs w) (docs w')
      | (Inr b, w') \<Rightarrow> prefix (docs w) (docs w') \<and>
          cursor_docs pending (at_start b) w' = map Some (docs_after (qe_MetaKey env) k (docs w'))) \<and>
     (\<forall>w i. case qe_Fetch env i w of
        (Inl e, w') \<Rightarrow> grown docs pending w w'
      | (Inr b, w') \<Rightarrow> prefix (docs w) (docs w') \<and> cursor_docs pending (at_start b) w' = map Some (pending w i)
          \<and> (cu_HasMore b \<longrightarrow> cu_Result b \<noteq> []))"

text \<open>The request for a document, and the key of the last of the first \<open>n\<close> documents.\<close>

definition document_request :: "'w query_env \<Rightarrow> string \<Rightarrow> string \<Rightarrow> output_ready_request" where
  "document_request env outputName d =
     \<lparr>orq_AnnotatedValueData = the (data_uri (projr (qe_Marshal env (projr (qe_Unmarshal env d)))) ''text/json''),
      orq_OutputName = outputName, orq_Snapshot = None\<rparr>"

definition key_at :: "(string \<Rightarrow> string) \<Rightarrow> nat \<Rightarrow> string list \<Rightarrow> string" where
  "key_at key n ds = (if n = 0 then [] else key (ds ! (n - 1)))"

lemma docs_after_key:
  assumes "distinct (map key ds)" and "[] \<notin> key ` set ds" and "n \<le> length ds"
  shows "docs_after key (key_at key n ds) ds = drop n ds"
proof (cases n)
  case (Suc m)
  then have m: "m < length ds" using assms(3) by simp
  have "dropWhile (\<lambda>d. key d \<noteq> key (ds ! m)) ds = drop m ds"
  proof -
    have "key d \<noteq> key (ds ! m)" if "d \<in> set (take m ds)" for d
    proof -
      from that obtain i where "i < m" "d = ds ! i" using m by (auto simp: in_set_conv_nth)
      then show ?thesis using nth_eq_iff_index_eq [OF assms(1), of i m] m by simp
    qed
    then have "dropWhile (\<lambda>d. key d \<noteq> key (ds ! m)) (take m ds @ drop m ds)
        = dropWhile (\<lambda>d. key d \<noteq> key (ds ! m)) (drop m ds)"
      by (intro dropWhile_append2)
    also have "\<dots> = drop m ds"
      using Cons_nth_drop_Suc [OF m] by (metis (mono_tags, lifting) dropWhile.simps(2))
    finally show ?thesis by (simp only: append_take_drop_id)
  qed
  moreover have "key (ds ! m) \<noteq> []" using assms(2) m by (metis image_eqI nth_mem)
  ultimately show ?thesis using Suc m by (simp add: docs_after_def key_at_def drop_Suc tl_drop)
qed (simp add: docs_after_def key_at_def)

lemma prefix_take: "prefix ds ds' \<Longrightarrow> n \<le> length ds \<Longrightarrow> take n ds' = take n ds"
  by (auto simp: prefix_def)

lemma key_at_prefix: "prefix ds ds' \<Longrightarrow> n \<le> length ds \<Longrightarrow> key_at key n ds' = key_at key n ds"
  by (auto simp: prefix_def key_at_def nth_append)

lemma grown_refl: "grown docs pending w w" by (simp add: grown_def)

lemma grown_trans: "grown docs pending u v \<Longrightarrow> grown docs pending v w \<Longrightarrow> grown docs pending u w"
  by (auto simp: grown_def)

section \<open>What has been published\<close>

text \<open>The environment with a record of the calls of the task agent.\<close>

definition on_left :: "('w \<Rightarrow> 'r \<times> 'w) \<Rightarrow> 'w \<times> 'l \<Rightarrow> 'r \<times> 'w \<times> 'l" where
  "on_left f wl = (case f (fst wl) of (r, w) \<Rightarrow> (r, (w, snd wl)))"

definition recorded_query :: "'w query_env \<Rightarrow> ('w \<times> call_record) query_env" where
  "recorded_query env =
     \<lparr>qe_Notifier = recorded (qe_Notifier env), qe_Now = (\<lambda>wl. qe_Now env (fst wl)),
      qe_Connect = (\<lambda>a l d. on_left (qe_Connect env a l d)), qe_Query = (\<lambda>q k. on_left (qe_Query env q k)),
      qe_Fetch = (\<lambda>i. on_left (qe_Fetch env i)), qe_MetaKey = qe_MetaKey env,
      qe_Unmarshal = qe_Unmarshal env, qe_Marshal = qe_Marshal env\<rparr>"

text \<open>The agent has taken the first \<open>n\<close> documents, and the key is that of the last of them.\<close>

definition published_first ::
  "'w query_env \<Rightarrow> string \<Rightarrow> ('w \<Rightarrow> string list) \<Rightarrow> nat \<Rightarrow> string \<Rightarrow> 'w \<times> call_record \<Rightarrow> bool" where
  "published_first env outputName docs n k wl \<longleftrightarrow> n \<le> length (docs (fst wl))
     \<and> taken_requests (snd wl) = map (document_request env outputName) (take n (docs (fst wl)))
     \<and> k = key_at (qe_MetaKey env) n (docs (fst wl))"

lemma published_first_grows:
  assumes "published_first env outputName docs n k wl" and "prefix (docs (fst wl)) (docs (fst wl'))"
    and "snd wl' = snd wl"
  shows "published_first env outputName docs n k wl'"
  using assms prefix_take [OF assms(2)] key_at_prefix [OF assms(2)] prefix_length_le [OF assms(2)]
  by (auto simp: published_first_def)

lemma growing_recorded:
  assumes "growing_database env docs pending"
  shows "grown docs pending (fst wl) (fst (snd (nt_OutputReady (qe_Notifier (recorded_query env)) req wl)))"
    and "grown docs pending (fst wl) (fst (snd (nt_Sleep (qe_Notifier (recorded_query env)) d wl)))"
proof -
  have o: "grown docs pending w (snd (nt_OutputReady (qe_Notifier env) req w))"
    and s: "grown docs pending w (snd (nt_Sleep (qe_Notifier env) d w))" for w
    using assms by (simp_all add: growing_database_def)
  show "grown docs pending (fst wl) (fst (snd (nt_OutputReady (qe_Notifier (recorded_query env)) req wl)))"
    using o [of "fst wl"] by (simp add: recorded_query_def recorded_def case_prod_beta)
  show "grown docs pending (fst wl) (fst (snd (nt_Sleep (qe_Notifier (recorded_query env)) d wl)))"
    using s [of "fst wl"] by (simp add: recorded_query_def recorded_def case_prod_beta)
qed

lemma growing_query:
  assumes "growing_database env docs pending"
  shows "case qe_Query env q k w of
      (Inl e, w') \<Rightarrow> prefix (docs w) (docs w')
    | (Inr b, w') \<Rightarrow> prefix (docs w) (docs w') \<and>
        cursor_docs pending (at_start b) w' = map Some (docs_after (qe_MetaKey env) k (docs w'))"
  by (rule assms [unfolded growing_database_def, THEN conjunct2, THEN conjunct2, THEN conjunct2, THEN conjunct1,
      THEN spec, THEN spec, THEN spec])

lemma growing_fetch:
  assumes "growing_database env docs pending"
  shows "case qe_Fetch env i w of
      (Inl e, w') \<Rightarrow> grown docs pending w w'
    | (Inr b, w') \<Rightarrow> prefix (docs w) (docs w') \<and> cursor_docs pending (at_start b) w' = map Some (pending w i)
        \<and> (cu_HasMore b \<longrightarrow> cu_Result b \<noteq> [])"
  by (rule assms [unfolded growing_database_def, THEN conjunct2, THEN conjunct2, THEN conjunct2, THEN conjunct2,
      THEN spec, THEN spec])

lemma recorded_fields:
  "qe_Notifier (recorded_query env) = recorded (qe_Notifier env)"
  "qe_Query (recorded_query env) q k = on_left (qe_Query env q k)"
  "qe_Fetch (recorded_query env) i = on_left (qe_Fetch env i)"
  "qe_MetaKey (recorded_query env) = qe_MetaKey env"
  "qe_Unmarshal (recorded_query env) = qe_Unmarshal env"
  "qe_Marshal (recorded_query env) = qe_Marshal env"
  by (simp_all add: recorded_query_def)

lemma read_step:
  assumes g: "growing_database env docs pending"
    and r: "ReadDocument (recorded_query env) cur wl = (r, cur', wl')"
    and c: "cursor_docs pending cur (fst wl) = map Some (drop m ds)" and ds: "set ds \<subseteq> set (docs (fst wl))"
  shows "snd wl' = snd wl \<and> prefix (docs (fst wl)) (docs (fst wl')) \<and> (case r of
      NoMoreDocuments \<Rightarrow> length ds \<le> m
    | ReadFailed e \<Rightarrow> cursor_docs pending cur' (fst wl') = map Some (drop m ds)
    | ReadDoc key doc \<Rightarrow> m < length ds \<and> key = qe_MetaKey env (ds ! m) \<and> doc = projr (qe_Unmarshal env (ds ! m))
        \<and> cursor_docs pending cur' (fst wl') = map Some (drop (Suc m) ds))"
proof -
  obtain x w1 where f: "qe_Fetch env (cu_ID cur) (fst wl) = (x, w1)" by (rule prod.exhaust)
  have F: "case x of Inl e \<Rightarrow> grown docs pending (fst wl) w1
      | Inr b \<Rightarrow> prefix (docs (fst wl)) (docs w1) \<and> cursor_docs pending (at_start b) w1 = map Some (pending (fst wl) (cu_ID cur))
          \<and> (cu_HasMore b \<longrightarrow> cu_Result b \<noteq> [])"
    using growing_fetch [OF g, of "fst wl" "cu_ID cur"] by (simp add: f split: sum.splits)
  have readable: "\<not> isl (qe_Unmarshal env d)" if "d \<in> set ds" for d
    using g ds that by (auto simp: growing_database_def)
  text \<open>Reading from a batch that holds the next document.\<close>
  have doc: "m < length ds \<and> cu_Result b ! cu_Index b = Some (ds ! m) \<and> \<not> isl (qe_Unmarshal env (ds ! m))
      \<and> cursor_docs pending (b\<lparr>cu_Index := Suc (cu_Index b)\<rparr>) w = map Some (drop (Suc m) ds)"
    if "cursor_docs pending b w = map Some (drop m ds)" "cu_Index b < length (cu_Result b)" for b w
  proof -
    have b: "cursor_docs pending b w = cu_Result b ! cu_Index b # cursor_docs pending (b\<lparr>cu_Index := Suc (cu_Index b)\<rparr>) w"
      using that(2) Cons_nth_drop_Suc [OF that(2)] by (simp add: cursor_docs_def)
    then have m: "m < length ds" using that(1) by (metis drop_eq_Nil2 leI list.distinct(1) list.map_disc_iff)
    then have "drop m ds = ds ! m # drop (Suc m) ds" by (rule Cons_nth_drop_Suc [symmetric])
    then show ?thesis using b that(1) m readable [of "ds ! m"] by simp
  qed
  show ?thesis
  proof (cases "cu_Index cur \<ge> length (cu_Result cur) \<and> cu_HasMore cur")
    case True
    then have p: "map Some (pending (fst wl) (cu_ID cur)) = map Some (drop m ds)" using c by (simp add: cursor_docs_def)
    show ?thesis
    proof (cases x)
      case (Inl e)
      then have "(r, cur', wl') = (ReadFailed e, cur, (w1, snd wl))"
        using r True unfolding ReadDocument_def fetch_batch_def recorded_fields by (simp add: on_left_def f)
      then show ?thesis using F Inl c by (auto simp: grown_def cursor_docs_def)
    next
      case (Inr b)
      have R: "(r, cur', wl') = (if cu_Index (at_start b) \<ge> length (cu_Result (at_start b))
          then (NoMoreDocuments, at_start b, (w1, snd wl))
          else ((case cu_Result (at_start b) ! cu_Index (at_start b) of None \<Rightarrow> ReadDoc [] ''null''
               | Some raw \<Rightarrow> (case qe_Unmarshal env raw of Inl e \<Rightarrow> ReadFailed e | Inr v \<Rightarrow> ReadDoc (qe_MetaKey env raw) v)),
             (at_start b)\<lparr>cu_Index := Suc (cu_Index (at_start b))\<rparr>, (w1, snd wl)))"
        using r True Inr unfolding ReadDocument_def fetch_batch_def recorded_fields by (simp add: on_left_def f)
      have cb: "cursor_docs pending (at_start b) w1 = map Some (drop m ds)" and pre: "prefix (docs (fst wl)) (docs w1)"
        using F Inr p by auto
      show ?thesis
      proof (cases "cu_Result b = []")
        case True
        then have "\<not> cu_HasMore b" using F Inr by auto
        then have "drop m ds = []" using cb True by (simp add: cursor_docs_def at_start_def cursor_data.extend_def)
        then show ?thesis using R True pre by (simp add: at_start_def cursor_data.extend_def)
      next
        case False
        then have index: "cu_Index (at_start b) < length (cu_Result (at_start b))"
          by (simp add: at_start_def cursor_data.extend_def)
        then show ?thesis using R pre doc [OF cb index] by (cases "qe_Unmarshal env (ds ! m)") simp_all
      qed
    qed
  next
    case False
    have R: "(r, cur', wl') = (if cu_Index cur \<ge> length (cu_Result cur) then (NoMoreDocuments, cur, wl)
        else ((case cu_Result cur ! cu_Index cur of None \<Rightarrow> ReadDoc [] ''null''
             | Some raw \<Rightarrow> (case qe_Unmarshal env raw of Inl e \<Rightarrow> ReadFailed e | Inr v \<Rightarrow> ReadDoc (qe_MetaKey env raw) v)),
           cur\<lparr>cu_Index := Suc (cu_Index cur)\<rparr>, wl))"
      using r False unfolding ReadDocument_def fetch_batch_def recorded_fields by simp
    show ?thesis
    proof (cases "cu_Index cur \<ge> length (cu_Result cur)")
      case True
      then have "drop m ds = []" using c False by (simp add: cursor_docs_def)
      then show ?thesis using R True by simp
    next
      case index: False
      then have "cu_Index cur < length (cu_Result cur)" by simp
      from doc [OF c this] show ?thesis using R index by (cases "qe_Unmarshal env (ds ! m)") simp_all
    qed
  qed
qed

text \<open>A publication that succeeds adds the next document; one that fails adds none.\<close>

lemma publish_document_step:
  assumes g: "growing_database env docs pending"
    and p: "publish_document (recorded_query env) outputName (projr (qe_Unmarshal env d)) wl = Some (r, wl')"
    and d: "d \<in> set (docs (fst wl))"
  shows "grown docs pending (fst wl) (fst wl')
    \<and> taken_requests (snd wl') = taken_requests (snd wl) @ (if r = None then [document_request env outputName d] else [])"
proof -
  let ?v = "projr (qe_Unmarshal env d)"
  have "\<not> isl (qe_Marshal env ?v)" using g d by (auto simp: growing_database_def)
  then obtain enc where enc: "qe_Marshal env ?v = Inr enc" by (cases "qe_Marshal env ?v") auto
  let ?uri = "the (data_uri enc ''text/json'')"
  obtain x where x: "outputReady (recorded (qe_Notifier env)) ?uri outputName wl = Some (x, wl')" "r = None \<longleftrightarrow> \<not> isl x"
    using p unfolding publish_document_def recorded_fields by (auto simp: enc split: option.splits sum.splits)
  have "grown docs pending (fst wl) (fst (snd (x, wl')))"
    by (rule outputReady_loop_rel [where R = "\<lambda>u v. grown docs pending (fst u) (fst v)",
          OF x(1) [unfolded outputReady_def]])
       (use growing_recorded [OF g] in \<open>auto simp: recorded_fields grown_refl intro: grown_trans\<close>)
  moreover obtain calls where "snd wl' = snd wl @ calls"
      "taken_requests calls = (if isl x then [] else [document_request env outputName d])"
    using outputReady_calls [of "qe_Notifier env" ?uri outputName "fst wl" "snd wl" x "fst wl'" "snd wl'"] x(1)
    by (auto simp: document_request_def enc)
  ultimately show ?thesis using x(2) by simp
qed

text \<open>The state of a round that is reading the documents \<open>ds\<close> of its query and has published \<open>m\<close>.\<close>

definition reading ::
  "'w query_env \<Rightarrow> string \<Rightarrow> ('w \<Rightarrow> string list) \<Rightarrow> ('w \<Rightarrow> string \<Rightarrow> string list) \<Rightarrow> string list \<Rightarrow> nat \<Rightarrow> string
    \<Rightarrow> cursor \<Rightarrow> 'w \<times> call_record \<Rightarrow> bool" where
  "reading env outputName docs pending ds m k cur wl \<longleftrightarrow>
     prefix ds (docs (fst wl)) \<and> m \<le> length ds \<and> cursor_docs pending cur (fst wl) = map Some (drop m ds)
     \<and> published_first env outputName docs m k wl"

definition round_result ::
  "'w query_env \<Rightarrow> string \<Rightarrow> ('w \<Rightarrow> string list) \<Rightarrow> string list \<Rightarrow> nat
    \<Rightarrow> task_error error_only \<times> string \<times> 'w \<times> call_record \<Rightarrow> bool" where
  "round_result env outputName docs ds m y \<longleftrightarrow> (\<exists>m' \<ge> m. published_first env outputName docs m' (fst (snd y)) (snd (snd y))
     \<and> prefix ds (docs (fst (snd (snd y)))) \<and> (fst y = None \<longrightarrow> length ds \<le> m'))"

lemma reading_step:
  assumes g: "growing_database env docs pending" and r: "reading env outputName docs pending ds m k cur wl"
    and d: "ReadDocument (recorded_query env) cur wl = (r, cur', wl')"
  shows "case r of
      NoMoreDocuments \<Rightarrow> round_result env outputName docs ds m (None, k, wl')
    | ReadFailed e \<Rightarrow> reading env outputName docs pending ds m k cur' wl'
    | ReadDoc key doc \<Rightarrow> (\<forall>wl''. (\<forall>e. publish_document (recorded_query env) outputName doc wl' = Some (Some e, wl'')
          \<longrightarrow> round_result env outputName docs ds m (Some e, k, wl''))
        \<and> (publish_document (recorded_query env) outputName doc wl' = Some (None, wl'')
          \<longrightarrow> reading env outputName docs pending ds (Suc m) key cur' wl''))"
proof -
  have ds: "prefix ds (docs (fst wl))" "m \<le> length ds" and pub: "published_first env outputName docs m k wl"
    and c: "cursor_docs pending cur (fst wl) = map Some (drop m ds)"
    using r by (auto simp: reading_def)
  note step = read_step [OF g d c set_mono_prefix [OF ds(1)]]
  have ds': "prefix ds (docs (fst wl'))" using step ds(1) by (meson prefix_order.trans)
  have pub': "published_first env outputName docs m k wl'" using published_first_grows [OF pub] step by blast
  show ?thesis
  proof (cases r)
    case NoMoreDocuments
    then show ?thesis using step pub' ds' by (auto simp: round_result_def)
  next
    case (ReadFailed e)
    then show ?thesis using step pub' ds' ds(2) by (simp add: reading_def)
  next
    case (ReadDoc key doc)
    then have m: "m < length ds" and key: "key = qe_MetaKey env (ds ! m)" and doc: "doc = projr (qe_Unmarshal env (ds ! m))"
      and c': "cursor_docs pending cur' (fst wl') = map Some (drop (Suc m) ds)"
      using step by auto
    have mem: "ds ! m \<in> set (docs (fst wl'))" using m set_mono_prefix [OF ds'] nth_mem by blast
    show ?thesis
    proof (simp only: ReadDoc read_result.case, intro allI conjI impI)
      fix wl'' e
      assume p: "publish_document (recorded_query env) outputName doc wl' = Some (Some e, wl'')"
      note s = publish_document_step [OF g p [unfolded doc] mem]
      then have pre: "prefix (docs (fst wl')) (docs (fst wl''))" by (simp add: grown_def)
      have "published_first env outputName docs m k wl''"
        using pub' s prefix_take [OF pre] key_at_prefix [OF pre] prefix_length_le [OF pre]
        by (auto simp: published_first_def)
      moreover have "prefix ds (docs (fst wl''))" using ds' pre by (rule prefix_order.trans)
      ultimately show "round_result env outputName docs ds m (Some e, k, wl'')" by (auto simp: round_result_def)
    next
      fix wl''
      assume p: "publish_document (recorded_query env) outputName doc wl' = Some (None, wl'')"
      note s = publish_document_step [OF g p [unfolded doc] mem]
      then have pre: "prefix (docs (fst wl')) (docs (fst wl''))" and pend: "pending (fst wl'') = pending (fst wl')"
        by (simp_all add: grown_def)
      have pds: "prefix ds (docs (fst wl''))" using ds' pre by (rule prefix_order.trans)
      have "take (Suc m) (docs (fst wl'')) = take m (docs (fst wl'')) @ [ds ! m]" and "docs (fst wl'') ! m = ds ! m"
        using pds m by (auto simp: prefix_def take_Suc_conv_app_nth nth_append)
      then have "published_first env outputName docs (Suc m) key wl''"
        using pub' s prefix_take [OF pre] prefix_length_le [OF pds] m key
        by (auto simp: published_first_def key_at_def)
      then show "reading env outputName docs pending ds (Suc m) key cur' wl''"
        using pds m c' by (auto simp: reading_def cursor_docs_def pend split: if_splits)
    qed
  qed
qed

lemma round_result_later: "round_result env outputName docs ds (Suc m) y \<Longrightarrow> round_result env outputName docs ds m y"
  unfolding round_result_def by (meson Suc_leD)

lemma read_loop_publishes:
  assumes "growing_database env docs pending" and "read_loop (recorded_query env) outputName k cur wl = Some y"
    and "reading env outputName docs pending ds m k cur wl"
  shows "round_result env outputName docs ds m y"
proof -
  let ?P = "\<lambda>env' name k cur wl y. env' = recorded_query env \<longrightarrow> name = outputName \<longrightarrow>
    (\<forall>m. reading env outputName docs pending ds m k cur wl \<longrightarrow> round_result env outputName docs ds m y)"
  have "?P (recorded_query env) outputName k cur wl y"
  proof (rule read_loop.raw_induct [where P = ?P, OF _ assms(2)], intro impI allI)
    fix self env' name k cur wl y m
    assume IH: "\<And>env' name k cur wl y. self env' name k cur wl = Some y \<Longrightarrow> ?P env' name k cur wl y"
      and body: "(case ReadDocument env' cur wl of
        (r, cur, w) \<Rightarrow>
          (case r of
             NoMoreDocuments \<Rightarrow> Some (None, k, w)
           | ReadFailed e \<Rightarrow> self env' name k cur w
           | ReadDoc key doc \<Rightarrow>
               (case publish_document env' name doc w of
                  None \<Rightarrow> None
                | Some (published, w) \<Rightarrow>
                    (case published of
                       Some e \<Rightarrow> Some (Some e, k, w)
                     | None \<Rightarrow> self env' name key cur w)))) = Some y"
      and e: "env' = recorded_query env" "name = outputName"
      and r: "reading env outputName docs pending ds m k cur wl"
    obtain x cur' wl' where d: "ReadDocument (recorded_query env) cur wl = (x, cur', wl')" by (metis prod.exhaust)
    note step = reading_step [OF assms(1) r d]
    have rec: "self (recorded_query env) outputName k' cur'' wl'' = Some y
        \<Longrightarrow> reading env outputName docs pending ds m' k' cur'' wl'' \<Longrightarrow> round_result env outputName docs ds m' y"
      for k' cur'' wl'' m' using IH by blast
    show "round_result env outputName docs ds m y"
    proof (cases x)
      case NoMoreDocuments
      then show ?thesis using body step by (simp add: e d)
    next
      case (ReadFailed f)
      then show ?thesis using body step rec by (simp add: e d)
    next
      case (ReadDoc key doc)
      then obtain p wl'' where p: "publish_document (recorded_query env) outputName doc wl' = Some (p, wl'')"
        using body by (auto simp: e d split: option.splits)
      show ?thesis
      proof (cases p)
        case None
        have "reading env outputName docs pending ds (Suc m) key cur' wl''"
          using step p unfolding ReadDoc None by (simp only: read_result.case)
        moreover have "self (recorded_query env) outputName key cur' wl'' = Some y"
          using body p ReadDoc None by (simp add: e d)
        ultimately show ?thesis using rec round_result_later by blast
      next
        case (Some f)
        have "round_result env outputName docs ds m (Some f, k, wl'')"
          using step p unfolding ReadDoc Some by (simp only: read_result.case)
        moreover have "y = (Some f, k, wl'')" using body p ReadDoc Some by (simp add: e d)
        ultimately show ?thesis by simp
      qed
    qed
  qed
  then show ?thesis using assms(3) by simp
qed


section \<open>A query that cannot be stopped\<close>

text \<open>C32: The query task cannot be stopped while it waits for documents. An error of the cursor is only
  logged and the next document is asked for at once, so when every request for the next batch fails, as
  it does once the context is cancelled, a round that has read its batch and has more to fetch never
  returns, and the task with it.\<close>
theorem query_never_stops:
  assumes "\<And>w. isl (fst (qe_Fetch env (cu_ID cur) w))" and "cu_HasMore cur" and "length (cu_Result cur) \<le> cu_Index cur"
  shows "read_loop env outputName lastKey cur w = None"
proof (rule ccontr)
  assume "read_loop env outputName lastKey cur w \<noteq> None"
  then obtain y where run: "read_loop env outputName lastKey cur w = Some y" by auto
  let ?P = "\<lambda>env' name k cur' w y. env' = env \<longrightarrow> cur' = cur \<longrightarrow> False"
  have "?P env outputName lastKey cur w y"
  proof (rule read_loop.raw_induct [where P = ?P, OF _ run], intro impI)
    fix self env' name k cur' w y
    assume IH: "\<And>env' name k cur' w y. self env' name k cur' w = Some y \<Longrightarrow> ?P env' name k cur' w y"
      and body: "(case ReadDocument env' cur' w of
        (r, cur, w) \<Rightarrow>
          (case r of
             NoMoreDocuments \<Rightarrow> Some (None, k, w)
           | ReadFailed e \<Rightarrow> self env' name k cur w
           | ReadDoc key doc \<Rightarrow>
               (case publish_document env' name doc w of
                  None \<Rightarrow> None
                | Some (published, w) \<Rightarrow>
                    (case published of
                       Some e \<Rightarrow> Some (Some e, k, w)
                     | None \<Rightarrow> self env' name key cur w)))) = Some y"
      and e: "env' = env" "cur' = cur"
    obtain x w1 where f: "qe_Fetch env (cu_ID cur) w = (x, w1)" by (rule prod.exhaust)
    then obtain err where "x = Inl err" using assms(1) [of w] by (cases x) auto
    then have "ReadDocument env cur w = (ReadFailed err, cur, w1)"
      using assms(2,3) f by (simp add: ReadDocument_def fetch_batch_def)
    then show False using body IH [of env name k cur w1 y] by (simp add: e)
  qed
  then show False by simp
qed

section \<open>Applying the properties\<close>

text \<open>A world is the number of calls so far and the number of documents already in the database; the
  server hands out one document per batch, and every second request for a batch fails.\<close>

definition example_docs :: "string list" where "example_docs = [''1'', ''2'', ''3'']"

definition query_config :: dbquery_config where
  "query_config = \<lparr>dqc_LargeDataFolder = ''/d'', dqc_MountPath = ''/m'', dqc_NodeName = ''n'', dqc_OutputName = ''out'',
     dqc_DatabaseConfigMap = ''cm'', dqc_Query = ''FOR d IN c FILTER d._key > @lastKey RETURN d'', dqc_Namespace = ''ns''\<rparr>"

record query_world =
  qw_Calls :: nat
  qw_Docs :: nat
  qw_Pending :: "string list"

definition batch_of :: "string list \<Rightarrow> cursor_data" where
  "batch_of ds = \<lparr>cu_ID = ''c'', cu_Result = map Some (take 1 ds), cu_HasMore = (length ds > 1)\<rparr>"

definition example_query :: "query_world query_env" where
  "example_query =
     \<lparr>qe_Notifier = \<lparr>nt_OutputReady = (\<lambda>req w. (Inr (True, ''id''), w\<lparr>qw_Docs := min 3 (Suc (qw_Docs w))\<rparr>)), nt_Sleep = (\<lambda>d w. (False, w))\<rparr>,
      qe_Now = (\<lambda>w. int (qw_Calls w)), qe_Connect = (\<lambda>a l d w. (None, w)),
      qe_Query = (\<lambda>q k w. let ds = docs_after id k (take (qw_Docs w) example_docs) in (Inr (batch_of ds), w\<lparr>qw_Pending := drop 1 ds\<rparr>)),
      qe_Fetch = (\<lambda>i w. if even (qw_Calls w) then (Inl ''unavailable'', w\<lparr>qw_Calls := Suc (qw_Calls w)\<rparr>)
        else (Inr (batch_of (qw_Pending w)), w\<lparr>qw_Calls := Suc (qw_Calls w), qw_Pending := drop 1 (qw_Pending w)\<rparr>)),
      qe_MetaKey = id, qe_Unmarshal = Inr, qe_Marshal = Inr\<rparr>"

definition query_start :: query_world where
  "query_start = \<lparr>qw_Calls = 0, qw_Docs = 2, qw_Pending = []\<rparr>"

lemma example_growing:
  "growing_database example_query (\<lambda>w. take (qw_Docs w) example_docs) (\<lambda>w i. qw_Pending w)"
proof -
  have p: "prefix (take n ds) (take m ds)" if "n \<le> m" for n m and ds :: "string list"
    using that take_is_prefix [of n "take m ds"] by (simp add: min_absorb1)
  have d: "distinct (take n example_docs)" "[] \<notin> set (take n example_docs)" for n
    using distinct_take [of example_docs n] in_set_takeD [of "[]" n example_docs] by (auto simp: example_docs_def)
  have q: "prefix (take n example_docs) (take (Suc (min 2 n)) example_docs)" for n
  proof (cases "n \<le> 2")
    case False
    then show ?thesis by (simp add: example_docs_def)
  qed (simp add: p)
  have b: "map Some (take (Suc 0) ds) @ map Some (drop (Suc 0) ds) = map Some ds" for ds :: "string list"
    by (simp flip: map_append)
  show ?thesis
    unfolding growing_database_def
    by (intro conjI allI)
       (auto simp: example_query_def grown_def d q b Let_def cursor_docs_def at_start_def batch_of_def
          cursor_data.extend_def)
qed


text \<open>The context is cancelled after the first document of a batch of one.\<close>

definition cancelled_query :: "query_world query_env" where
  "cancelled_query = example_query\<lparr>qe_Fetch := (\<lambda>i w. (Inl ''context canceled'', w))\<rparr>"

definition read_cursor :: cursor where
  "read_cursor = (fst (snd (ReadDocument cancelled_query (at_start (batch_of [''1'', ''2''])) query_start)))"

lemma query_never_stops_witness:
  "cu_Index read_cursor = 1 \<and> read_loop cancelled_query ''out'' ''1'' read_cursor query_start = None"
proof -
  have c: "cu_Index read_cursor = 1" "length (cu_Result read_cursor) \<le> 1" "cu_HasMore read_cursor"
    by (simp_all add: read_cursor_def ReadDocument_def fetch_batch_def at_start_def batch_of_def cursor_data.extend_def
        cancelled_query_def example_query_def)
  have "isl (fst (qe_Fetch cancelled_query (cu_ID read_cursor) w))" for w by (simp add: cancelled_query_def)
  from query_never_stops [OF this c(3)] show ?thesis using c by simp
qed

end
