(* ===== verification/Frontend_Hub.thy ===== *)
theory Frontend_Hub
  imports Prelude
begin

text \<open>
  The hub of the web front end in the pipeline agent (\<open>pkg/agent/pipeline/frontend/hub.go\<close> and
  \<open>client.go\<close>): it hands messages to the clients that are registered, each with a buffered channel that
  its write pump empties.  One event is one hand-over on a channel or one turn of a loop.
\<close>

section \<open>State\<close>

definition send_capacity :: nat where "send_capacity = 256"
definition broadcast_capacity :: nat where "broadcast_capacity = 32"

text \<open>The channel of a client.\<close>

record send_channel =
  sc_buffer :: "string list"
  sc_closed :: bool

text \<open>
  Clients are numbers; \<open>clients\<close> are the registered ones, in any order.  Goroutines wait to register or
  to unregister, read or write.  \<open>panicked\<close> tells that a goroutine closed a closed channel or sent on
  one.  Not in the program: the messages handed out so far, how many of them came before a client was
  registered, and what its write pump has taken.
\<close>

record hub_state =
  hs_clients :: "nat list"
  hs_broadcast :: "string list"
  hs_send :: "nat \<Rightarrow> send_channel"
  hs_known :: "nat list"
  hs_joining :: "nat list"
  hs_reading :: "nat list"
  hs_leaving :: "nat list"
  hs_writing :: "nat list"
  hs_cancelled :: bool
  hs_panicked :: bool
  hs_sent :: "string list"
  hs_since :: "nat \<Rightarrow> nat"
  hs_taken :: "nat \<Rightarrow> string list"

definition NewHub :: hub_state where
  "NewHub = \<lparr>hs_clients = [], hs_broadcast = [], hs_send = (\<lambda>_. \<lparr>sc_buffer = [], sc_closed = False\<rparr>), hs_known = [],
     hs_joining = [], hs_reading = [], hs_leaving = [], hs_writing = [], hs_cancelled = False, hs_panicked = False,
     hs_sent = [], hs_since = (\<lambda>_. 0), hs_taken = (\<lambda>_. [])\<rparr>"

section \<open>The loop of the hub\<close>

text \<open>Closing the channel of a client that leaves the map.\<close>

definition drop_client :: "nat \<Rightarrow> hub_state \<Rightarrow> hub_state" where
  "drop_client c s =
     (if sc_closed (hs_send s c) then s\<lparr>hs_panicked := True\<rparr>
      else s\<lparr>hs_send := (hs_send s)(c := (hs_send s c)\<lparr>sc_closed := True\<rparr>),
             hs_clients := remove1 c (hs_clients s)\<rparr>)"

text \<open>A send that does not wait; a client whose buffer is full is dropped.\<close>

definition offer :: "string \<Rightarrow> nat \<Rightarrow> hub_state \<Rightarrow> hub_state" where
  "offer message c s =
     (if sc_closed (hs_send s c) then s\<lparr>hs_panicked := True\<rparr>
      else if length (sc_buffer (hs_send s c)) < send_capacity
      then s\<lparr>hs_send := (hs_send s)(c := (hs_send s c)\<lparr>sc_buffer := sc_buffer (hs_send s c) @ [message]\<rparr>)\<rparr>
      else drop_client c s)"

text \<open>The order in which a loop meets the clients of the map is an argument.\<close>

datatype hub_event =
    Connect nat
  | Register nat
  | ReadFails nat
  | Unregister nat
  | StatisticsChanged
  | Broadcast "nat list"
  | CancelHub
  | ContextDone "nat list"
  | WriteMessage nat
  | WriteFails nat
  | WriteClose nat

definition statistics_changed :: string where
  "statistics_changed = ''{'' @ [CHR 0x22] @ ''type'' @ [CHR 0x22] @ '':'' @ [CHR 0x22] @ ''statistics-changed'' @ [CHR 0x22] @ ''}''"

text \<open>The select statement of \<open>Run\<close>, which goes on when the context is done.\<close>

definition hub_select :: "hub_event \<Rightarrow> hub_state \<Rightarrow> hub_state option" where
  "hub_select e s =
     (case e of
        Register c \<Rightarrow>
          if c \<in> set (hs_joining s)
          then Some (s\<lparr>hs_joining := removeAll c (hs_joining s), hs_clients := List.insert c (hs_clients s),
                 hs_reading := c # hs_reading s, hs_writing := c # hs_writing s,
                 hs_since := (hs_since s)(c := length (hs_sent s))\<rparr>)
          else None
      | Unregister c \<Rightarrow>
          if c \<in> set (hs_leaving s)
          then (let s = s\<lparr>hs_leaving := removeAll c (hs_leaving s)\<rparr> in
                Some (if c \<in> set (hs_clients s) then drop_client c s else s))
          else None
      | Broadcast order \<Rightarrow>
          (case hs_broadcast s of
             [] \<Rightarrow> None
           | m # ms \<Rightarrow>
               if distinct order \<and> set order = set (hs_clients s)
               then Some (fold (offer m) order (s\<lparr>hs_broadcast := ms, hs_sent := hs_sent s @ [m]\<rparr>))
               else None)
      | ContextDone order \<Rightarrow>
          if hs_cancelled s \<and> distinct order \<and> set order = set (hs_clients s)
          then Some (fold drop_client order s) else None
      | _ \<Rightarrow> None)"

section \<open>The other goroutines\<close>

definition take_message :: "nat \<Rightarrow> hub_state \<Rightarrow> hub_state" where
  "take_message c s =
     (case sc_buffer (hs_send s c) of
        [] \<Rightarrow> s
      | m # ms \<Rightarrow> s\<lparr>hs_send := (hs_send s)(c := (hs_send s c)\<lparr>sc_buffer := ms\<rparr>),
                   hs_taken := (hs_taken s)(c := hs_taken s c @ [m])\<rparr>)"

text \<open>
  \<open>Connect\<close> is the handler up to its send to the hub, \<open>ReadFails\<close> the end of a read pump,
  \<open>WriteMessage\<close> and \<open>WriteFails\<close> a turn of a write pump that takes a message if there is one and goes
  on or ends, \<open>WriteClose\<close> its end after the channel was closed.
\<close>

definition hub_trans :: "hub_event \<Rightarrow> hub_state \<Rightarrow> hub_state option" where
  "hub_trans e s =
     (case e of
        Connect c \<Rightarrow>
          if c \<notin> set (hs_known s)
          then Some (s\<lparr>hs_known := c # hs_known s, hs_joining := c # hs_joining s\<rparr>) else None
      | ReadFails c \<Rightarrow>
          if c \<in> set (hs_reading s)
          then Some (s\<lparr>hs_reading := removeAll c (hs_reading s), hs_leaving := c # hs_leaving s\<rparr>) else None
      | StatisticsChanged \<Rightarrow>
          if length (hs_broadcast s) < broadcast_capacity
          then Some (s\<lparr>hs_broadcast := hs_broadcast s @ [statistics_changed]\<rparr>) else None
      | CancelHub \<Rightarrow> Some (s\<lparr>hs_cancelled := True\<rparr>)
      | WriteMessage c \<Rightarrow>
          if c \<in> set (hs_writing s) \<and> sc_buffer (hs_send s c) \<noteq> [] then Some (take_message c s) else None
      | WriteFails c \<Rightarrow>
          if c \<in> set (hs_writing s)
          then Some ((take_message c s)\<lparr>hs_writing := removeAll c (hs_writing s)\<rparr>) else None
      | WriteClose c \<Rightarrow>
          if c \<in> set (hs_writing s) \<and> sc_buffer (hs_send s c) = [] \<and> sc_closed (hs_send s c)
          then Some (s\<lparr>hs_writing := removeAll c (hs_writing s)\<rparr>) else None
      | _ \<Rightarrow> hub_select e s)"

primrec hub_run :: "hub_event list \<Rightarrow> hub_state \<Rightarrow> hub_state option" where
  "hub_run [] s = Some s"
| "hub_run (e # es) s = (case hub_trans e s of None \<Rightarrow> None | Some s' \<Rightarrow> hub_run es s')"

section \<open>Invariant\<close>

text \<open>What a client has been given and not lost: what its pump took and what waits in its channel.\<close>

definition handed :: "hub_state \<Rightarrow> nat \<Rightarrow> string list" where
  "handed s c = hs_taken s c @ sc_buffer (hs_send s c)"

definition client_inv :: "hub_state \<Rightarrow> nat \<Rightarrow> bool" where
  "client_inv s c \<longleftrightarrow>
     (c \<in> set (hs_clients s) \<longrightarrow> c \<in> set (hs_known s) \<and> c \<notin> set (hs_joining s)
        \<and> \<not> sc_closed (hs_send s c) \<and> handed s c = drop (hs_since s c) (hs_sent s)) \<and>
     (c \<notin> set (hs_known s) \<longrightarrow> c \<notin> set (hs_joining s)) \<and>
     (c \<notin> set (hs_known s) \<or> c \<in> set (hs_joining s) \<longrightarrow> hs_send s c = \<lparr>sc_buffer = [], sc_closed = False\<rparr> \<and> hs_taken s c = []) \<and>
     hs_since s c \<le> length (hs_sent s) \<and>
     take (length (handed s c)) (drop (hs_since s c) (hs_sent s)) = handed s c"

definition hub_inv :: "hub_state \<Rightarrow> bool" where
  "hub_inv s \<longleftrightarrow> \<not> hs_panicked s \<and> distinct (hs_clients s) \<and> (\<forall>c. client_inv s c)"

lemma take_of_append: "take (length h) xs = h \<Longrightarrow> take (length h) (xs @ ys) = h"
  by (metis append_eq_conv_conj append_take_drop_id append.assoc)

lemma client_inv_cong:
  assumes "c \<in> set (hs_clients s') \<longleftrightarrow> c \<in> set (hs_clients s)" and "c \<in> set (hs_known s') \<longleftrightarrow> c \<in> set (hs_known s)"
    and "c \<in> set (hs_joining s') \<longleftrightarrow> c \<in> set (hs_joining s)" and "hs_send s' c = hs_send s c"
    and "hs_taken s' c = hs_taken s c" and "hs_since s' c = hs_since s c" and "hs_sent s' = hs_sent s"
  shows "client_inv s' c \<longleftrightarrow> client_inv s c"
  using assms by (simp add: client_inv_def handed_def)

text \<open>Dropping a registered client, whose channel is open, keeps what the others have.\<close>

lemma drop_client_eq:
  "\<not> sc_closed (hs_send s c) \<Longrightarrow> drop_client c s =
     s\<lparr>hs_send := (hs_send s)(c := (hs_send s c)\<lparr>sc_closed := True\<rparr>), hs_clients := remove1 c (hs_clients s)\<rparr>"
  by (simp add: drop_client_def)

text \<open>In the middle of a loop over the registered clients: \<open>rest\<close> are still to be offered the last message.\<close>

definition waiting_inv :: "hub_state \<Rightarrow> nat \<Rightarrow> bool" where
  "waiting_inv s c \<longleftrightarrow> c \<in> set (hs_clients s) \<and> c \<in> set (hs_known s) \<and> c \<notin> set (hs_joining s) \<and> \<not> sc_closed (hs_send s c)
     \<and> hs_since s c < length (hs_sent s) \<and> handed s c @ [last (hs_sent s)] = drop (hs_since s c) (hs_sent s)"

definition loop_inv_hub :: "nat list \<Rightarrow> hub_state \<Rightarrow> bool" where
  "loop_inv_hub rest s \<longleftrightarrow> \<not> hs_panicked s \<and> distinct (hs_clients s) \<and> distinct rest
     \<and> (\<forall>c. if c \<in> set rest then waiting_inv s c else client_inv s c)"

lemma waiting_inv_cong:
  assumes "c \<in> set (hs_clients s') \<longleftrightarrow> c \<in> set (hs_clients s)" and "hs_known s' = hs_known s"
    and "hs_joining s' = hs_joining s" and "hs_send s' c = hs_send s c"
    and "hs_taken s' = hs_taken s" and "hs_since s' = hs_since s" and "hs_sent s' = hs_sent s"
  shows "waiting_inv s' c \<longleftrightarrow> waiting_inv s c"
  using assms by (simp add: waiting_inv_def handed_def)

lemma waiting_dropped:
  assumes "waiting_inv s c" and "distinct (hs_clients s)"
  shows "client_inv (drop_client c s) c"
proof -
  have w: "\<not> sc_closed (hs_send s c)" "c \<in> set (hs_known s)" "c \<notin> set (hs_joining s)" "hs_since s c < length (hs_sent s)"
    "handed s c @ [last (hs_sent s)] = drop (hs_since s c) (hs_sent s)"
    using assms(1) by (auto simp: waiting_inv_def)
  have "handed (drop_client c s) c = handed s c" by (simp add: drop_client_eq [OF w(1)] handed_def)
  moreover have "take (length (handed s c)) (drop (hs_since s c) (hs_sent s)) = handed s c"
    using w(5) by (metis append_eq_conv_conj)
  ultimately show ?thesis using w assms(2) by (simp add: drop_client_eq [OF w(1)] client_inv_def)
qed

lemma waiting_offered:
  assumes "waiting_inv s c" and "length (sc_buffer (hs_send s c)) < send_capacity"
  shows "client_inv (offer (last (hs_sent s)) c s) c"
proof -
  have w: "\<not> sc_closed (hs_send s c)" "c \<in> set (hs_clients s)" "c \<in> set (hs_known s)" "c \<notin> set (hs_joining s)"
    "hs_since s c < length (hs_sent s)" "handed s c @ [last (hs_sent s)] = drop (hs_since s c) (hs_sent s)"
    using assms(1) by (auto simp: waiting_inv_def)
  let ?s = "offer (last (hs_sent s)) c s"
  have "handed ?s c = drop (hs_since ?s c) (hs_sent ?s)"
    using w(6) assms(2) by (simp add: offer_def w(1) handed_def)
  then show ?thesis using w(1-5) assms(2) by (simp add: client_inv_def) (simp add: offer_def)
qed

lemma offer_step:
  assumes "loop_inv_hub (c # rest) s"
  shows "loop_inv_hub rest (offer (last (hs_sent s)) c s)" and "hs_sent (offer (last (hs_sent s)) c s) = hs_sent s"
proof -
  let ?s = "offer (last (hs_sent s)) c s"
  have w: "waiting_inv s c" and d: "distinct (hs_clients s)" "c \<notin> set rest" "distinct rest" "\<not> hs_panicked s"
    using assms by (auto simp: loop_inv_hub_def split: if_splits)
  then have o: "\<not> sc_closed (hs_send s c)" by (simp add: waiting_inv_def)
  have fields: "hs_known ?s = hs_known s" "hs_joining ?s = hs_joining s" "hs_taken ?s = hs_taken s"
    "hs_since ?s = hs_since s" "hs_sent ?s = hs_sent s" "hs_panicked ?s = hs_panicked s" "distinct (hs_clients ?s)"
    and other: "\<And>x. x \<noteq> c \<Longrightarrow> hs_send ?s x = hs_send s x \<and> (x \<in> set (hs_clients ?s) \<longleftrightarrow> x \<in> set (hs_clients s))"
    using d(1) by (auto simp: offer_def drop_client_eq o)
  show "hs_sent ?s = hs_sent s" by (rule fields)
  have "client_inv ?s c"
  proof (cases "length (sc_buffer (hs_send s c)) < send_capacity")
    case False
    then show ?thesis using waiting_dropped [OF w d(1)] by (simp add: offer_def o)
  qed (rule waiting_offered [OF w])
  moreover have "waiting_inv ?s x" if "x \<in> set rest" for x
    using waiting_inv_cong [of x ?s s] other [of x] fields that d(2) assms by (auto simp: loop_inv_hub_def split: if_splits)
  moreover have "client_inv ?s x" if "x \<notin> set rest" "x \<noteq> c" for x
    using client_inv_cong [of x ?s s] other [of x] fields that assms by (auto simp: loop_inv_hub_def split: if_splits)
  ultimately show "loop_inv_hub rest ?s"
    using fields d by (auto simp: loop_inv_hub_def)
qed

lemma offer_all:
  assumes "loop_inv_hub order s"
  shows "hub_inv (fold (offer (last (hs_sent s))) order s)"
  using assms
proof (induction order arbitrary: s)
  case Nil
  then show ?case by (simp add: loop_inv_hub_def hub_inv_def)
next
  case (Cons c order)
  show ?case using Cons.IH [OF offer_step(1) [OF Cons.prems]] offer_step(2) [OF Cons.prems] by simp
qed

lemma dropped_inv:
  assumes "hub_inv s" and "c \<in> set (hs_clients s)"
  shows "hub_inv (drop_client c s)" and "hs_clients (drop_client c s) = remove1 c (hs_clients s)"
proof -
  have i: "client_inv s c" and d: "distinct (hs_clients s)" using assms(1) by (auto simp: hub_inv_def)
  then have o: "\<not> sc_closed (hs_send s c)" using assms(2) by (simp add: client_inv_def)
  show "hs_clients (drop_client c s) = remove1 c (hs_clients s)" by (simp add: drop_client_eq [OF o])
  have "client_inv (drop_client c s) x" for x
  proof (cases "x = c")
    case True
    have "handed (drop_client c s) c = handed s c" by (simp add: drop_client_eq [OF o] handed_def)
    then show ?thesis using i d assms(2) True by (simp add: client_inv_def drop_client_eq [OF o])
  next
    case False
    then show ?thesis using assms(1) client_inv_cong [of x "drop_client c s" s] by (simp add: hub_inv_def drop_client_eq [OF o])
  qed
  then show "hub_inv (drop_client c s)" using assms(1) by (simp add: hub_inv_def drop_client_eq [OF o])
qed

lemma drop_all:
  "hub_inv s \<Longrightarrow> distinct order \<Longrightarrow> set order \<subseteq> set (hs_clients s) \<Longrightarrow> hub_inv (fold drop_client order s)"
proof (induction order arbitrary: s)
  case (Cons c order)
  then have c: "c \<in> set (hs_clients s)" by simp
  have "set order \<subseteq> set (hs_clients (drop_client c s))"
    unfolding dropped_inv(2) [OF Cons.prems(1) c] using Cons.prems by (auto simp: hub_inv_def)
  then show ?case using Cons.IH [OF dropped_inv(1) [OF Cons.prems(1) c]] Cons.prems(2) by simp
qed simp

lemma take_message_inv:
  assumes "hub_inv s"
  shows "hub_inv (take_message c s)"
proof (cases "sc_buffer (hs_send s c)")
  case (Cons m ms)
  have "handed (take_message c s) x = handed s x" for x by (simp add: handed_def take_message_def Cons)
  moreover have "client_inv s c" using assms by (simp add: hub_inv_def)
  ultimately show ?thesis using assms Cons by (auto simp: hub_inv_def client_inv_def take_message_def)
qed (use assms in \<open>simp add: take_message_def\<close>)

lemma hub_inv_step:
  assumes "hub_inv s" and "hub_trans e s = Some s'"
  shows "hub_inv s'"
proof -
  note keep = assms(1) [unfolded hub_inv_def client_inv_def handed_def]
  show ?thesis
  proof (cases e)
    case (Connect c)
    then show ?thesis using assms(2) keep
      by (auto simp: hub_trans_def hub_inv_def client_inv_def handed_def split: if_splits)
  next
    case (Register c)
    then show ?thesis using assms(2) keep
      by (auto simp: hub_trans_def hub_select_def hub_inv_def client_inv_def handed_def distinct_insert split: if_splits)
  next
    case (ReadFails c)
    then show ?thesis using assms(2) keep
      by (auto simp: hub_trans_def hub_inv_def client_inv_def handed_def split: if_splits)
  next
    case (Unregister c)
    let ?s = "s\<lparr>hs_leaving := removeAll c (hs_leaving s)\<rparr>"
    have "hub_inv ?s" using assms(1) client_inv_cong [of _ ?s s] by (simp add: hub_inv_def)
    then show ?thesis using assms(2) Unregister dropped_inv(1) [of ?s c]
      by (auto simp: hub_trans_def hub_select_def Let_def split: if_splits)
  next
    case StatisticsChanged
    then show ?thesis using assms(2) keep
      by (auto simp: hub_trans_def hub_inv_def client_inv_def handed_def split: if_splits)
  next
    case (Broadcast order)
    then obtain m ms where b: "hs_broadcast s = m # ms" and o: "distinct order" "set order = set (hs_clients s)"
      and s': "s' = fold (offer m) order (s\<lparr>hs_broadcast := ms, hs_sent := hs_sent s @ [m]\<rparr>)"
      using assms(2) by (auto simp: hub_trans_def hub_select_def split: list.splits if_splits)
    let ?s = "s\<lparr>hs_broadcast := ms, hs_sent := hs_sent s @ [m]\<rparr>"
    have "waiting_inv ?s c" if "c \<in> set order" for c
      using keep o(2) that by (auto simp: waiting_inv_def handed_def)
    moreover have "client_inv ?s c" if "c \<notin> set order" for c
    proof -
      have "client_inv s c" using assms(1) by (simp add: hub_inv_def)
      then have "hs_since s c \<le> length (hs_sent s)"
        and "take (length (handed s c)) (drop (hs_since s c) (hs_sent s)) = handed s c"
        by (simp_all add: client_inv_def)
      from take_of_append [OF this(2), of "[m]"] this(1)
      have "take (length (handed s c)) (drop (hs_since s c) (hs_sent s @ [m])) = handed s c"
        by (simp only: drop_append diff_is_0_eq' drop_0)
      then show ?thesis using \<open>client_inv s c\<close> that o(2) by (simp add: client_inv_def handed_def)
    qed
    ultimately have "loop_inv_hub order ?s" using assms(1) o(1) by (simp add: loop_inv_hub_def hub_inv_def)
    from offer_all [OF this] show ?thesis by (simp add: s')
  next
    case CancelHub
    then show ?thesis using assms(2) keep by (auto simp: hub_trans_def hub_inv_def client_inv_def handed_def)
  next
    case (ContextDone order)
    then show ?thesis using assms(2) drop_all [OF assms(1)]
      by (auto simp: hub_trans_def hub_select_def split: if_splits)
  next
    case (WriteMessage c)
    then show ?thesis using assms(2) take_message_inv [OF assms(1)] by (auto simp: hub_trans_def split: if_splits)
  next
    case (WriteFails c)
    then have "s' = (take_message c s)\<lparr>hs_writing := removeAll c (hs_writing s)\<rparr>"
      using assms(2) by (auto simp: hub_trans_def split: if_splits)
    moreover have "client_inv (t\<lparr>hs_writing := l\<rparr>) x \<longleftrightarrow> client_inv t x" for t l x by (rule client_inv_cong) simp_all
    ultimately show ?thesis using take_message_inv [OF assms(1), of c] by (simp add: hub_inv_def)
  next
    case (WriteClose c)
    then show ?thesis using assms(2) keep
      by (auto simp: hub_trans_def hub_inv_def client_inv_def handed_def split: if_splits)
  qed
qed

lemma hub_inv_start: "hub_inv NewHub" by (simp add: hub_inv_def NewHub_def client_inv_def handed_def)

lemma hub_run_inv: "hub_run es s = Some s' \<Longrightarrow> hub_inv s \<Longrightarrow> hub_inv s'"
  by (induction es arbitrary: s) (auto split: option.splits dest: hub_inv_step)

text \<open>C37: The hub of the front end loses no message between two it delivers. However clients connect,
  leave, are slow or are dropped, no goroutine closes a channel twice or sends on a closed one, and what a
  client has been handed is the messages the hub has dealt with since it registered, in order and without
  a gap: all of them while it is registered, the first of them after it was dropped.\<close>
theorem hub_delivers_in_order:
  assumes "hub_run es NewHub = Some s"
  shows "\<not> hs_panicked s \<and> (\<exists>n. handed s c = take n (drop (hs_since s c) (hs_sent s))
    \<and> (c \<in> set (hs_clients s) \<longrightarrow> handed s c = drop (hs_since s c) (hs_sent s) \<and> \<not> sc_closed (hs_send s c)))"
proof -
  have "hub_inv s" by (rule hub_run_inv [OF assms hub_inv_start])
  then have "\<not> hs_panicked s" and "client_inv s c" by (auto simp: hub_inv_def)
  then show ?thesis unfolding client_inv_def by metis
qed

text \<open>The hub does not end with its context. Once the context is cancelled its loop can always take
  that branch again, which closes the clients and goes on: with no client it turns without effect for
  ever, clients that connect later are still registered, and the deferred closing of its channels never
  runs.\<close>
theorem hub_outlives_context:
  assumes "hub_run es NewHub = Some s" and "hs_cancelled s"
  shows "\<exists>s'. hub_trans (ContextDone (hs_clients s)) s = Some s' \<and> hub_trans (ContextDone []) s' = Some s'
    \<and> (\<forall>c. c \<notin> set (hs_known s) \<longrightarrow> (\<exists>s'' t. hub_trans (Connect c) s' = Some s'' \<and> hub_trans (Register c) s'' = Some t
         \<and> hs_clients t = [c] \<and> hs_cancelled t))"
proof -
  have i: "hub_inv s" by (rule hub_run_inv [OF assms(1) hub_inv_start])
  have d: "distinct (hs_clients s)" using i by (simp add: hub_inv_def)
  have all: "hs_clients (fold drop_client cs t) = [] \<and> hs_cancelled (fold drop_client cs t) = hs_cancelled t
      \<and> hs_known (fold drop_client cs t) = hs_known t"
    if "hub_inv t" "cs = hs_clients t" for cs t
    using that
  proof (induction cs arbitrary: t)
    case (Cons c cs)
    then have c: "c \<in> set (hs_clients t)" by (metis list.set_intros(1))
    have "\<not> sc_closed (hs_send t c)" using Cons.prems(1) c by (simp add: hub_inv_def client_inv_def)
    moreover have "cs = hs_clients (drop_client c t)"
      unfolding dropped_inv(2) [OF Cons.prems(1) c] Cons.prems(2) [symmetric] by simp
    ultimately show ?case using Cons.IH [OF dropped_inv(1) [OF Cons.prems(1) c]] by (simp add: drop_client_eq)
  qed simp
  let ?s = "fold drop_client (hs_clients s) s"
  note a = all [OF i refl]
  have "hub_trans (ContextDone (hs_clients s)) s = Some ?s" and "hub_trans (ContextDone []) ?s = Some ?s"
    using assms(2) d a by (simp_all add: hub_trans_def hub_select_def)
  moreover have "\<exists>s'' t. hub_trans (Connect c) ?s = Some s'' \<and> hub_trans (Register c) s'' = Some t
      \<and> hs_clients t = [c] \<and> hs_cancelled t" if "c \<notin> set (hs_known s)" for c
    using that a assms(2) by (simp add: hub_trans_def hub_select_def)
  ultimately show ?thesis by blast
qed

section \<open>Applying the properties\<close>

definition example_hub_run :: "hub_event list" where
  "example_hub_run = [Connect 1, Register 1, StatisticsChanged, Broadcast [1], Connect 2, Register 2, StatisticsChanged,
     WriteMessage 1, Broadcast [2, 1], ReadFails 2, Unregister 2, CancelHub]"

lemma example_hub:
  obtains s where "hub_run example_hub_run NewHub = Some s" and "hs_clients s = [1]" and "hs_cancelled s"
    and "hs_known s = [2, 1]" and "length (hs_sent s) = 2" and "hs_since s 1 = 0" and "hs_since s 2 = 1"
proof -
  have "map_option (\<lambda>s. (hs_clients s, hs_cancelled s, hs_known s, length (hs_sent s), hs_since s 1, hs_since s 2))
      (hub_run example_hub_run NewHub) = Some ([1], True, [2, 1], 2, 0, 1)"
    by code_simp
  then show ?thesis using that by auto
qed

lemma hub_delivers_in_order_witness:
  "\<exists>s. hub_run example_hub_run NewHub = Some s \<and> \<not> hs_panicked s \<and> handed s 1 = hs_sent s \<and> length (handed s 1) = 2
     \<and> (\<exists>n. handed s 2 = take n (drop 1 (hs_sent s)))"
proof -
  obtain s where s: "hub_run example_hub_run NewHub = Some s" "hs_clients s = [1]" "length (hs_sent s) = 2"
    "hs_since s 1 = 0" "hs_since s 2 = 1" using example_hub by metis
  show ?thesis
    using hub_delivers_in_order [OF s(1), of 1] hub_delivers_in_order [OF s(1), of 2] s by auto
qed

lemma hub_outlives_context_witness:
  "\<exists>s s' s'' t. hub_run example_hub_run NewHub = Some s \<and> hub_trans (ContextDone [1]) s = Some s'
     \<and> hub_trans (ContextDone []) s' = Some s' \<and> hub_trans (Connect 3) s' = Some s''
     \<and> hub_trans (Register 3) s'' = Some t \<and> hs_clients t = [3] \<and> hs_cancelled t"
proof -
  obtain s where s: "hub_run example_hub_run NewHub = Some s" "hs_clients s = [1]" "hs_cancelled s" "hs_known s = [2, 1]"
    using example_hub by metis
  have "3 \<notin> set (hs_known s)" using s(4) by simp
  then show ?thesis using hub_outlives_context [OF s(1,3)] s by auto
qed

end
