(* ===== verification/Task_Rest.thy ===== *)
theory Task_Rest
  imports Task_File
begin

text \<open>
  The ready-made task that makes an HTTP request per snapshot (\<open>pkg/task/rest/service.go\<close>).  It pulls
  snapshots from the snapshot service of its task agent, builds the request with templates, and
  publishes the body of the response.  Templates, the parsing of headers and the HTTP client are
  parameters; an \<open>api_snapshot\<close> is what the snapshot service returns.
\<close>

section \<open>Requests and responses\<close>

record http_request =
  hq_Method :: string
  hq_URL :: string
  hq_Body :: string
  hq_Header :: "(string, string list) gomap"

record http_response =
  hr_StatusCode :: int
  hr_ContentType :: string
  hr_Body :: "(string, string) go_result"

record rest_config =
  rtc_OutputName :: string
  rtc_URLTemplate :: string
  rtc_MethodTemplate :: string
  rtc_BodyTemplate :: string
  rtc_HeadersTemplate :: string

text \<open>\<open>rs_CheckRequest\<close> is the error of \<open>http.NewRequest\<close> for a method and a URL.\<close>

record 'w rest_env =
  rs_Notifier :: "'w notifier"
  rs_CtxErr :: "'w \<Rightarrow> string option"
  rs_Next :: "'w \<Rightarrow> (string, api_snapshot option) go_result \<times> 'w"
  rs_Ack :: "string \<Rightarrow> 'w \<Rightarrow> string error_only \<times> 'w"
  rs_ExecuteTemplate :: "string \<Rightarrow> api_snapshot \<Rightarrow> 'w \<Rightarrow> (string, string) go_result \<times> 'w"
  rs_ReadMIMEHeader :: "string \<Rightarrow> (string, (string, string list) gomap) go_result"
  rs_CheckRequest :: "string \<Rightarrow> string \<Rightarrow> string option"
  rs_Do :: "http_request \<Rightarrow> 'w \<Rightarrow> (string, http_response) go_result \<times> 'w"

definition rest_NewService ::
  "(task_error, unit) go_result \<Rightarrow> (task_error, unit) go_result \<Rightarrow> rest_config \<Rightarrow> (task_error, rest_config) go_result" where
  "rest_NewService snapshot_client client cfg =
     (case missing_argument [(''OutputName'', rtc_OutputName cfg), (''URLTemplate'', rtc_URLTemplate cfg),
             (''MethodTemplate'', rtc_MethodTemplate cfg)] of
        Some e \<Rightarrow> Inl e
      | None \<Rightarrow>
     (case snapshot_client of
        Inl e \<Rightarrow> Inl e
      | Inr _ \<Rightarrow> (case client of Inl e \<Rightarrow> Inl e | Inr _ \<Rightarrow> Inr cfg)))"

section \<open>One snapshot\<close>

definition white_space :: "char \<Rightarrow> bool" where
  "white_space c \<longleftrightarrow> of_char c \<in> {9, 10, 11, 12, 13, 32 :: nat}"

definition blank :: "string \<Rightarrow> bool" where "blank s \<longleftrightarrow> list_all white_space s"

definition executeTemplate ::
  "'w rest_env \<Rightarrow> string \<Rightarrow> api_snapshot \<Rightarrow> 'w \<Rightarrow> (task_error, string) go_result \<times> 'w" where
  "executeTemplate env templateSource snapshot w =
     (if blank templateSource then (Inr [], w)
      else case rs_ExecuteTemplate env templateSource snapshot w of
             (Inl e, w) \<Rightarrow> (Inl (TaskFailed e), w)
           | (Inr result, w) \<Rightarrow> (Inr result, w))"

definition buildRequest ::
  "'w rest_env \<Rightarrow> rest_config \<Rightarrow> api_snapshot \<Rightarrow> 'w \<Rightarrow> (task_error, http_request) go_result \<times> 'w" where
  "buildRequest env cfg snapshot w =
     (case executeTemplate env (rtc_MethodTemplate cfg) snapshot w of
        (Inl e, w) \<Rightarrow> (Inl e, w)
      | (Inr method, w) \<Rightarrow>
     (case executeTemplate env (rtc_URLTemplate cfg) snapshot w of
        (Inl e, w) \<Rightarrow> (Inl e, w)
      | (Inr url, w) \<Rightarrow>
     (case executeTemplate env (rtc_BodyTemplate cfg) snapshot w of
        (Inl e, w) \<Rightarrow> (Inl e, w)
      | (Inr body, w) \<Rightarrow>
     (case executeTemplate env (rtc_HeadersTemplate cfg) snapshot w of
        (Inl e, w) \<Rightarrow> (Inl e, w)
      | (Inr headers, w) \<Rightarrow>
     (case (if blank headers then Inr [] else rs_ReadMIMEHeader env headers) of
        Inl e \<Rightarrow> (Inl (TaskFailed e), w)
      | Inr hdr \<Rightarrow>
     (case rs_CheckRequest env method url of
        Some e \<Rightarrow> (Inl (TaskFailed e), w)
      | None \<Rightarrow>
          (Inr \<lparr>hq_Method = method, hq_URL = url, hq_Body = body,
             hq_Header = fold (\<lambda>(k, v). AList.update k v) hdr []\<rparr>, w)))))))"

text \<open>A panic ends the whole program.\<close>

datatype process_result = Processed "task_error error_only" | Panicked

definition processSnapshot ::
  "'w rest_env \<Rightarrow> rest_config \<Rightarrow> api_snapshot \<Rightarrow> 'w \<Rightarrow> (process_result \<times> 'w) option" where
  "processSnapshot env cfg snapshot w =
     (case buildRequest env cfg snapshot w of
        (Inl e, w) \<Rightarrow> Some (Processed (Some e), w)
      | (Inr req, w) \<Rightarrow>
     (case rs_Do env req w of
        (Inl e, w) \<Rightarrow> Some (Processed (Some (TaskFailed e)), w)
      | (Inr resp, w) \<Rightarrow>
     (case hr_Body resp of
        Inl e \<Rightarrow> Some (Processed (Some (TaskFailed e)), w)
      | Inr body \<Rightarrow>
          if hr_StatusCode resp < 200 \<or> hr_StatusCode resp \<ge> 300
          then Some (Processed (Some (TaskFailed ''Invalid response status'')), w)
          else (case data_uri body (if hr_ContentType resp = [] then ''text/plain'' else hr_ContentType resp) of
                  None \<Rightarrow> Some (Panicked, w)
                | Some dataURI \<Rightarrow>
                    (case outputReady (rs_Notifier env) dataURI (rtc_OutputName cfg) w of
                       None \<Rightarrow> None
                     | Some (Inl e, w) \<Rightarrow> Some (Processed (Some e), w)
                     | Some (Inr i, w) \<Rightarrow> Some (Processed None, w))))))"

section \<open>The loop\<close>

datatype run_end = RunCancelled string | RunPanicked

definition rest_minDelay :: int where "rest_minDelay = 1"

text \<open>The snapshot of a round, if it got one: it is acknowledged whatever became of it.\<close>

definition handle_snapshot ::
  "'w rest_env \<Rightarrow> rest_config \<Rightarrow> (string, api_snapshot option) go_result \<Rightarrow> 'w \<Rightarrow> (run_end option \<times> 'w) option" where
  "handle_snapshot env cfg resp w =
     (case resp of
        Inr (Some snapshot) \<Rightarrow>
          (case processSnapshot env cfg snapshot w of
             None \<Rightarrow> None
           | Some (Panicked, w) \<Rightarrow> Some (Some RunPanicked, w)
           | Some (Processed e, w) \<Rightarrow> Some (None, snd (rs_Ack env (as_ID snapshot) w)))
      | _ \<Rightarrow> Some (None, w))"

partial_function (option) rest_Run ::
  "'w rest_env \<Rightarrow> rest_config \<Rightarrow> int \<Rightarrow> 'w \<Rightarrow> (run_end \<times> 'w) option" where
  "rest_Run env cfg delay w =
     (case rs_CtxErr env w of
        Some e \<Rightarrow> Some (RunCancelled e, w)
      | None \<Rightarrow>
          (case rs_Next env w of
             (resp, w) \<Rightarrow>
               (let delay = (if isl resp then Backoff delay 3 2 (5 * one_second) else rest_minDelay) in
                case handle_snapshot env cfg resp w of
                  None \<Rightarrow> None
                | Some (ended, w) \<Rightarrow>
                    (case ended of
                       Some e \<Rightarrow> Some (e, w)
                     | None \<Rightarrow>
                         if delay > rest_minDelay
                         then (case nt_Sleep (rs_Notifier env) delay w of
                                 (timer, w) \<Rightarrow>
                                   if timer then rest_Run env cfg delay w
                                   else Some (RunCancelled ''context canceled'', w))
                         else rest_Run env cfg delay w))))"

declare rest_Run.simps [code]

lemma rest_delay_stays: "Backoff rest_minDelay 3 2 (5 * one_second) = rest_minDelay"
  by (simp add: Backoff_def rest_minDelay_def one_second_def)

section \<open>No waiting\<close>

text \<open>The world after \<open>n\<close> calls of \<open>Next\<close>, with nothing else in between.\<close>

primrec after_calls :: "'w rest_env \<Rightarrow> nat \<Rightarrow> 'w \<Rightarrow> 'w" where
  "after_calls env 0 w = w"
| "after_calls env (Suc n) w = snd (rs_Next env (after_calls env n w))"

lemma failed_round:
  assumes "rs_CtxErr env w = None" and "rs_Next env w = (Inl e, w')"
  shows "rest_Run env cfg rest_minDelay w = rest_Run env cfg rest_minDelay w'"
  by (subst rest_Run.simps) (simp add: assms Let_def handle_snapshot_def rest_delay_stays)

text \<open>The REST task does not wait after a failure. Its delay starts at one nanosecond, and one and a
  half nanoseconds are cut to one again, so it never grows: when the snapshot service fails \<open>n\<close> calls in
  a row, the task makes them one right after the other, for every \<open>n\<close>.\<close>
theorem rest_retries_at_once:
  assumes "\<And>j. j < n \<Longrightarrow> rs_CtxErr env (after_calls env j w) = None \<and> isl (fst (rs_Next env (after_calls env j w)))"
  shows "rest_Run env cfg rest_minDelay w = rest_Run env cfg rest_minDelay (after_calls env n w)"
  using assms
proof (induction n)
  case (Suc n)
  obtain r w' where r: "rs_Next env (after_calls env n w) = (r, w')" by (rule prod.exhaust)
  then obtain e where "r = Inl e" using Suc.prems [of n] by (cases r) auto
  then show ?case
    using Suc.IH Suc.prems failed_round [of env "after_calls env n w" e w'] r by simp
qed simp

section \<open>Snapshots and acknowledgements\<close>

datatype rest_event = Took string | Acked string

text \<open>An environment that keeps a record of the snapshots taken and acknowledged.\<close>

definition watched :: "'w rest_env \<Rightarrow> ('w \<times> rest_event list) rest_env" where
  "watched env =
     \<lparr>rs_Notifier = \<lparr>
        nt_OutputReady = (\<lambda>req wl. case nt_OutputReady (rs_Notifier env) req (fst wl) of (r, w) \<Rightarrow> (r, (w, snd wl))),
        nt_Sleep = (\<lambda>d wl. case nt_Sleep (rs_Notifier env) d (fst wl) of (t, w) \<Rightarrow> (t, (w, snd wl)))\<rparr>,
      rs_CtxErr = (\<lambda>wl. rs_CtxErr env (fst wl)),
      rs_Next = (\<lambda>wl. case rs_Next env (fst wl) of (r, w) \<Rightarrow>
        (r, (w, snd wl @ (case r of Inr (Some sn) \<Rightarrow> [Took (as_ID sn)] | _ \<Rightarrow> [])))),
      rs_Ack = (\<lambda>i wl. case rs_Ack env i (fst wl) of (r, w) \<Rightarrow> (r, (w, snd wl @ [Acked i]))),
      rs_ExecuteTemplate = (\<lambda>t sn wl. case rs_ExecuteTemplate env t sn (fst wl) of (r, w) \<Rightarrow> (r, (w, snd wl))),
      rs_ReadMIMEHeader = rs_ReadMIMEHeader env, rs_CheckRequest = rs_CheckRequest env,
      rs_Do = (\<lambda>req wl. case rs_Do env req (fst wl) of (r, w) \<Rightarrow> (r, (w, snd wl)))\<rparr>"

fun acked_in_turn :: "rest_event list \<Rightarrow> bool" where
  "acked_in_turn [] = True"
| "acked_in_turn (Took i # Acked j # es) = (i = j \<and> acked_in_turn es)"
| "acked_in_turn es = False"

lemma acked_in_turn_snoc: "acked_in_turn es \<Longrightarrow> acked_in_turn (es @ [Took i, Acked i])"
  by (induction es rule: acked_in_turn.induct) auto

text \<open>What happens to a snapshot leaves the record alone.\<close>

lemma watched_keeps [simp]:
  "snd (snd (nt_OutputReady (rs_Notifier (watched env)) req wl)) = snd wl"
  "snd (snd (nt_Sleep (rs_Notifier (watched env)) d wl)) = snd wl"
  "snd (snd (rs_ExecuteTemplate (watched env) t sn wl)) = snd wl"
  "snd (snd (rs_Do (watched env) hreq wl)) = snd wl"
  by (simp_all add: watched_def case_prod_beta)

lemma outputReady_keeps:
  assumes "outputReady (rs_Notifier (watched env)) u n wl = Some y"
  shows "snd (snd y) = snd wl"
proof -
  have "(\<lambda>u v. snd v = snd u) wl (snd y)"
    by (rule outputReady_loop_rel [where R = "\<lambda>u v. snd v = snd u", OF assms [unfolded outputReady_def]]) simp_all
  then show ?thesis .
qed

lemma template_keeps: "snd (snd (executeTemplate (watched env) t sn wl)) = snd wl"
proof (cases "blank t")
  case False
  obtain r w' where "rs_ExecuteTemplate (watched env) t sn wl = (r, w')" by (rule prod.exhaust)
  then show ?thesis using watched_keeps(3) [of env t sn wl] False
    by (simp add: executeTemplate_def split: sum.split)
qed (simp add: executeTemplate_def)

lemma template_result:
  "executeTemplate (watched env) t sn wl = (r, wl') \<Longrightarrow> snd wl' = snd wl"
  using template_keeps [of env t sn wl] by simp

lemma request_result:
  "buildRequest (watched env) cfg sn wl = (r, wl') \<Longrightarrow> snd wl' = snd wl"
  by (auto simp: buildRequest_def split: prod.splits sum.splits option.splits dest!: template_result)

lemma process_keeps:
  assumes "processSnapshot (watched env) cfg sn wl = Some (r, wl')"
  shows "snd wl' = snd wl"
proof -
  obtain q w1 where b: "buildRequest (watched env) cfg sn wl = (q, w1)" by (rule prod.exhaust)
  note k = request_result [OF b]
  have d: "rs_Do (watched env) req w1 = (p, w2) \<Longrightarrow> snd w2 = snd w1" for req p w2
    using watched_keeps(4) [of env req w1] by simp
  have o: "outputReady (rs_Notifier (watched env)) u n w2 = Some (x, w3) \<Longrightarrow> snd w3 = snd w2" for u n w2 x w3
    using outputReady_keeps [of env u n w2 "(x, w3)"] by simp
  show ?thesis using assms k
    by (auto simp: processSnapshot_def b split: prod.splits sum.splits option.splits if_splits dest!: d o)
qed

lemma handle_keeps:
  assumes "handle_snapshot (watched env) cfg resp wl = Some (ended, wl')"
  shows "snd wl' = snd wl @ (case resp of Inr (Some sn) \<Rightarrow> if ended = None then [Acked (as_ID sn)] else [] | _ \<Rightarrow> [])"
proof -
  have a: "snd (snd (rs_Ack (watched env) i wl)) = snd wl @ [Acked i]" for i wl
    by (simp add: watched_def case_prod_beta)
  show ?thesis using assms process_keeps [of env cfg _ wl]
    by (auto simp: handle_snapshot_def a split: sum.splits option.splits process_result.splits)
qed

lemma next_record:
  assumes "rs_Next (watched env) wl = (resp, wl')"
  shows "snd wl' = snd wl @ (case resp of Inr (Some sn) \<Rightarrow> [Took (as_ID sn)] | _ \<Rightarrow> [])"
  using assms by (auto simp: watched_def case_prod_beta)

definition acks_at_end :: "(run_end \<times> 'w \<times> rest_event list) \<Rightarrow> bool" where
  "acks_at_end y \<longleftrightarrow> (case fst y of RunCancelled e \<Rightarrow> acked_in_turn (snd (snd y))
     | RunPanicked \<Rightarrow> \<exists>es i. snd (snd y) = es @ [Took i] \<and> acked_in_turn es)"

lemma rest_Run_acks:
  assumes "rest_Run (watched env) cfg d wl = Some y" and "acked_in_turn (snd wl)"
  shows "acks_at_end y"
proof -
  let ?P = "\<lambda>env' cfg d wl y. env' = watched env \<longrightarrow> acked_in_turn (snd wl) \<longrightarrow> acks_at_end y"
  have "?P (watched env) cfg d wl y"
  proof (rule rest_Run.raw_induct [where P = ?P, OF _ assms(1)], intro impI)
    fix self env' cfg d wl y
    assume IH: "\<And>env' cfg d wl y. self env' cfg d wl = Some y \<Longrightarrow> ?P env' cfg d wl y"
      and body: "(case rs_CtxErr env' wl of
        Some e \<Rightarrow> Some (RunCancelled e, wl)
      | None \<Rightarrow>
          (case rs_Next env' wl of
             (resp, w) \<Rightarrow>
               (let delay = (if isl resp then Backoff d 3 2 (5 * one_second) else rest_minDelay) in
                case handle_snapshot env' cfg resp w of
                  None \<Rightarrow> None
                | Some (ended, w) \<Rightarrow>
                    (case ended of
                       Some e \<Rightarrow> Some (e, w)
                     | None \<Rightarrow>
                         if delay > rest_minDelay
                         then (case nt_Sleep (rs_Notifier env') delay w of
                                 (timer, w) \<Rightarrow>
                                   if timer then self env' cfg delay w
                                   else Some (RunCancelled ''context canceled'', w))
                         else self env' cfg delay w)))) = Some y"
      and e: "env' = watched env" and ok: "acked_in_turn (snd wl)"
    obtain resp w1 where n: "rs_Next (watched env) wl = (resp, w1)" by (rule prod.exhaust)
    note k1 = next_record [OF n]
    show "acks_at_end y"
    proof (cases "rs_CtxErr (watched env) wl")
      case (Some c)
      then show ?thesis using body ok by (auto simp: e acks_at_end_def)
    next
      case None
      then obtain ended w2 where h: "handle_snapshot (watched env) cfg resp w1 = Some (ended, w2)"
        using body by (auto simp: e n Let_def split: option.splits)
      note k2 = handle_keeps [OF h]
      have sleep: "nt_Sleep (rs_Notifier (watched env)) x w2 = (t, w3) \<Longrightarrow> snd w3 = snd w2" for x t w3
        using watched_keeps(2) [of env x w2] by simp
      show ?thesis
      proof (cases ended)
        case (Some r)
        then have y: "y = (r, w2)" using body None h by (simp add: e n Let_def)
        then obtain sn where sn: "resp = Inr (Some sn)" "r = RunPanicked"
          using h Some by (auto simp: handle_snapshot_def split: sum.splits option.splits process_result.splits)
        then show ?thesis using y k1 k2 Some ok by (auto simp: acks_at_end_def)
      next
        case ended: None
        have ok2: "acked_in_turn (snd w2)"
          using k1 k2 ok ended by (auto simp: acked_in_turn_snoc split: sum.splits option.splits)
        have rec: "self (watched env) cfg d' w3 = Some y \<Longrightarrow> snd w3 = snd w2 \<Longrightarrow> acks_at_end y" for d' w3
          using IH [of "watched env" cfg d' w3 y] ok2 by simp
        have stop: "snd w3 = snd w2 \<Longrightarrow> acks_at_end (RunCancelled c, w3)" for c w3
          using ok2 by (simp add: acks_at_end_def)
        show ?thesis using body None h ended
          by (auto simp: e n Let_def split: if_splits prod.splits intro: stop dest: sleep rec [OF _ sleep] rec [OF _ refl])
      qed
    qed
  qed
  then show ?thesis using assms(2) by simp
qed

text \<open>C30: The REST task acknowledges what it takes. However its requests, templates and publications end,
  each snapshot the task gets is acknowledged once, before the next one is asked for; only a panic leaves
  a snapshot open, and then it is the last.\<close>
theorem rest_acknowledges_once:
  assumes "rest_Run (watched env) cfg d (w, []) = Some (r, (w', events))"
  shows "case r of RunCancelled e \<Rightarrow> acked_in_turn events
    | RunPanicked \<Rightarrow> \<exists>es i. events = es @ [Took i] \<and> acked_in_turn es"
  using rest_Run_acks [OF assms] by (cases r) (simp_all add: acks_at_end_def)

section \<open>Applying the properties\<close>

text \<open>A world that counts calls: the snapshot service fails at first, then has two snapshots, then the
  context ends; the second response has a content type that is no media type.\<close>

definition example_rest :: "nat rest_env" where
  "example_rest =
     \<lparr>rs_Notifier = \<lparr>nt_OutputReady = (\<lambda>req w. (Inr (True, ''id''), w)), nt_Sleep = (\<lambda>d w. (True, w))\<rparr>,
      rs_CtxErr = (\<lambda>w. if w > 4 then Some ''context canceled'' else None),
      rs_Next = (\<lambda>w. (if w < 2 then Inl ''unavailable'' else Inr (Some \<lparr>as_ID = itoa w, as_Inputs = []\<rparr>), Suc w)),
      rs_Ack = (\<lambda>i w. (None, Suc w)),
      rs_ExecuteTemplate = (\<lambda>t sn w. (Inr t, w)),
      rs_ReadMIMEHeader = (\<lambda>h. Inr []), rs_CheckRequest = (\<lambda>m u. None),
      rs_Do = (\<lambda>req w. (Inr \<lparr>hr_StatusCode = 200, hr_ContentType = (if w < 5 then [] else ''text''), hr_Body = Inr ''ok''\<rparr>, w))\<rparr>"

definition example_rest_config :: rest_config where
  "example_rest_config = \<lparr>rtc_OutputName = ''out'', rtc_URLTemplate = ''http://h'', rtc_MethodTemplate = ''GET'',
     rtc_BodyTemplate = [], rtc_HeadersTemplate = []\<rparr>"

lemma rest_retries_at_once_witness:
  "rest_Run example_rest example_rest_config rest_minDelay 0 = rest_Run example_rest example_rest_config rest_minDelay 2"
proof -
  have "rs_CtxErr example_rest (after_calls example_rest j 0) = None \<and> isl (fst (rs_Next example_rest (after_calls example_rest j 0)))"
    if "j < 2" for j
    using that by (auto simp: less_2_cases_iff example_rest_def)
  from rest_retries_at_once [OF this, of 2 example_rest_config] show ?thesis by (simp add: example_rest_def numeral_2_eq_2)
qed

lemma rest_acknowledges_once_witness:
  "\<exists>events. rest_Run (watched example_rest) example_rest_config rest_minDelay (0, []) = Some (RunPanicked, (5, events))
     \<and> (\<exists>es. events = es @ [Took ''4''] \<and> acked_in_turn es \<and> length es = 2)"
proof -
  have r: "rest_Run (watched example_rest) example_rest_config rest_minDelay (0, [])
      = Some (RunPanicked, (5, [Took ''2'', Acked ''2'', Took ''4'']))"
    by code_simp
  show ?thesis using rest_acknowledges_once [OF r] r
    by (intro exI [of _ "[Took ''2'', Acked ''2'', Took ''4'']"]) auto
qed
end
