(* ===== verification/Data_URL.thy ===== *)
theory Data_URL
  imports Task_Rest Executor_Example
begin

text \<open>
  Reading a data URI (vendored package \<open>dataurl\<close>), and the way of a value from a ready-made task, which
  makes the URI, to the task that gets it as an input file.
\<close>

section \<open>Base64\<close>

definition base64_alphabet :: string where
  "base64_alphabet = ''ABCDEFGHIJKLMNOPQRSTUVWXYZabcdefghijklmnopqrstuvwxyz0123456789+/''"

definition base64_value :: "char \<Rightarrow> nat option" where
  "base64_value c = index_of c base64_alphabet"

definition three_bytes :: "nat \<Rightarrow> nat \<Rightarrow> nat \<Rightarrow> nat \<Rightarrow> string" where
  "three_bytes a b c d = [char_of (a * 4 + b div 16), char_of (b mod 16 * 16 + c div 4), char_of (c mod 4 * 64 + d)]"

text \<open>Four digits at a time, without the newlines; padding only at the end.\<close>

fun base64_decode :: "string \<Rightarrow> string option" where
  "base64_decode [] = Some []"
| "base64_decode (a # b # c # d # rest) =
     (case (base64_value a, base64_value b) of
        (Some x, Some y) \<Rightarrow>
          if d = CHR ''=''
          then (if rest \<noteq> [] then None
                else if c = CHR ''='' then Some (take 1 (three_bytes x y 0 0))
                else map_option (\<lambda>z. take 2 (three_bytes x y z 0)) (base64_value c))
          else (case (base64_value c, base64_value d, base64_decode rest) of
                  (Some z, Some u, Some bytes) \<Rightarrow> Some (three_bytes x y z u @ bytes)
                | _ \<Rightarrow> None)
      | _ \<Rightarrow> None)"
| "base64_decode _ = None"

lemma digit_alphabet: "base64_digit i = base64_alphabet ! i"
  by (simp add: base64_digit_def base64_alphabet_def)

lemma digit_facts:
  assumes "i < 64"
  shows "base64_value (base64_digit i) = Some i" and "base64_digit i \<noteq> CHR ''=''" and "base64_digit i \<in> set base64_alphabet"
proof -
  have "list_all (\<lambda>i. base64_value (base64_digit i) = Some i \<and> base64_digit i \<noteq> CHR ''='' \<and> base64_digit i \<in> set base64_alphabet)
      [0..<64]"
    by code_simp
  then show "base64_value (base64_digit i) = Some i" "base64_digit i \<noteq> CHR ''=''" "base64_digit i \<in> set base64_alphabet"
    using assms by (auto simp: list_all_iff)
qed

lemma byte_small: "byte_of c < 256" by (simp add: byte_of_def)

lemma byte_back: "char_of (byte_of c) = c" by (simp add: byte_of_def)

text \<open>Putting the digits of three bytes together again.\<close>

lemma digits_of_bytes:
  fixes a b c :: nat
  assumes "a < 256" and "b < 256" and "c < 256"
  shows "a div 4 * 4 + (a mod 4 * 16 + b div 16) div 16 = a
    \<and> (a mod 4 * 16 + b div 16) mod 16 * 16 + (b mod 16 * 4 + c div 64) div 4 = b
    \<and> (b mod 16 * 4 + c div 64) mod 4 * 64 + c mod 64 = c
    \<and> a div 4 < 64 \<and> a mod 4 * 16 + b div 16 < 64 \<and> b mod 16 * 4 + c div 64 < 64"
proof -
  have d: "b div 16 < 16" "c div 64 < 4" "a div 4 < 64" using assms by (simp_all add: div_less_iff_less_mult)
  then have "(a mod 4 * 16 + b div 16) div 16 = a mod 4" "(a mod 4 * 16 + b div 16) mod 16 = b div 16"
    "(b mod 16 * 4 + c div 64) div 4 = b mod 16" "(b mod 16 * 4 + c div 64) mod 4 = c div 64"
    by simp_all
  moreover have "a mod 4 < 4" "b mod 16 < 16" by simp_all
  then have "a mod 4 * 16 + b div 16 < 64" "b mod 16 * 4 + c div 64 < 64" using d by linarith+
  ultimately show ?thesis using d(3) by simp
qed

lemma base64_roundtrip: "base64_decode (base64_encode bytes) = Some bytes"
proof (induction bytes rule: base64_encode.induct)
  case (2 a)
  note d = digits_of_bytes [of "byte_of a" 0 0]
  show ?case using d byte_small [of a] digit_facts(1) [of "byte_of a div 4"] digit_facts(1) [of "byte_of a mod 4 * 16"]
    by (simp add: three_bytes_def byte_back)
next
  case (3 a b)
  note d = digits_of_bytes [of "byte_of a" "byte_of b" 0]
  show ?case using d byte_small [of a] byte_small [of b] digit_facts [of "byte_of a div 4"]
      digit_facts [of "byte_of a mod 4 * 16 + byte_of b div 16"] digit_facts [of "byte_of b mod 16 * 4"]
    by (simp add: three_bytes_def byte_back)
next
  case (4 a b c cs)
  note d = digits_of_bytes [of "byte_of a" "byte_of b" "byte_of c"]
  show ?case using 4 d byte_small [of a] byte_small [of b] byte_small [of c] digit_facts [of "byte_of a div 4"]
      digit_facts [of "byte_of a mod 4 * 16 + byte_of b div 16"] digit_facts [of "byte_of b mod 16 * 4 + byte_of c div 64"]
      digit_facts [of "byte_of c mod 64"]
    by (simp add: three_bytes_def byte_back)
qed simp

lemma encoded_chars: "set (base64_encode bytes) \<subseteq> insert (CHR ''='') (set base64_alphabet)"
proof (induction bytes rule: base64_encode.induct)
  case (2 a)
  show ?case using byte_small [of a] digit_facts(3) [of "byte_of a div 4"] digit_facts(3) [of "byte_of a mod 4 * 16"]
    digits_of_bytes [of "byte_of a" 0 0] by simp
next
  case (3 a b)
  show ?case using byte_small [of a] byte_small [of b] digit_facts(3) [of "byte_of a div 4"]
      digit_facts(3) [of "byte_of a mod 4 * 16 + byte_of b div 16"] digit_facts(3) [of "byte_of b mod 16 * 4"]
      digits_of_bytes [of "byte_of a" "byte_of b" 0] by simp
next
  case (4 a b c cs)
  then show ?case using byte_small [of a] byte_small [of b] byte_small [of c] digit_facts(3) [of "byte_of a div 4"]
      digit_facts(3) [of "byte_of a mod 4 * 16 + byte_of b div 16"] digit_facts(3) [of "byte_of b mod 16 * 4 + byte_of c div 64"]
      digit_facts(3) [of "byte_of c mod 64"] digits_of_bytes [of "byte_of a" "byte_of b" "byte_of c"] by simp
qed simp

section \<open>The lexer\<close>

definition token_rune :: "char \<Rightarrow> bool" where
  "token_rune c \<longleftrightarrow> 33 \<le> byte_of c \<and> byte_of c < 127
     \<and> c \<notin> set (''()<>@,;:/[]?='' @ [CHR 0x22, CHR 0x5C])"

definition url_rune :: "char \<Rightarrow> bool" where
  "url_rune c \<longleftrightarrow> 33 \<le> byte_of c \<and> byte_of c < 127 \<and> c \<notin> set (''<>#{}|^[]'' @ [CHR 0x22, CHR 0x5C, CHR 0x60])"

definition base64_rune :: "char \<Rightarrow> bool" where
  "base64_rune c \<longleftrightarrow> c \<in> set base64_alphabet \<or> c = CHR ''='' \<or> c = char_of (10 :: nat)"

text \<open>A type that starts with x and a dash is accepted as it is.\<close>

definition known_type :: "string \<Rightarrow> bool" where
  "known_type t \<longleftrightarrow> list_ex (\<lambda>p. take (length p) t = p)
     [''text'', ''image'', ''audio'', ''video'', ''application'', ''message'', ''multipart'', ''x-'', ''X-'']"

fun rfc2396_unescape :: "string \<Rightarrow> string option" where
  "rfc2396_unescape [] = Some []"
| "rfc2396_unescape (c # cs) =
     (if c = CHR ''%''
      then (case cs of
              a # b # rest \<Rightarrow>
                (case (index_of a ''0123456789abcdef'', index_of b ''0123456789abcdef'',
                       index_of a ''0123456789ABCDEF'', index_of b ''0123456789ABCDEF'') of
                   (Some x, Some y, _, _) \<Rightarrow> map_option (Cons (char_of (x * 16 + y))) (rfc2396_unescape rest)
                 | (Some x, _, _, Some y) \<Rightarrow> map_option (Cons (char_of (x * 16 + y))) (rfc2396_unescape rest)
                 | (_, Some y, Some x, _) \<Rightarrow> map_option (Cons (char_of (x * 16 + y))) (rfc2396_unescape rest)
                 | (_, _, Some x, Some y) \<Rightarrow> map_option (Cons (char_of (x * 16 + y))) (rfc2396_unescape rest)
                 | _ \<Rightarrow> None)
            | _ \<Rightarrow> None)
      else map_option (Cons c) (rfc2396_unescape cs))"

text \<open>A quoted value with its backslashes, and what follows its closing quote.\<close>

fun scan_quoted :: "string \<Rightarrow> (string \<times> string) option" where
  "scan_quoted [] = None"
| "scan_quoted (c # cs) =
     (if byte_of c = 34 then Some ([], cs)
      else if byte_of c = 92
      then (case cs of
              [] \<Rightarrow> None
            | d # ds \<Rightarrow> if byte_of d < 128 then map_option (\<lambda>(v, r). (c # d # v, r)) (scan_quoted ds) else None)
      else if byte_of c < 128 then map_option (\<lambda>(v, r). (c # v, r)) (scan_quoted cs) else None)"

text \<open>
  From the end of the media type to the data.  The result holds the parameters, whether the data is
  in base64, and the data.  \<open>unquote\<close> stands for \<open>strconv.Unquote\<close>; \<open>quote\<close> is the flag of the parser
  that the next value is quoted, which an empty quoted value leaves set.  \<open>n\<close> bounds the number of
  parameters.
\<close>

fun lex_parameters ::
  "(string \<Rightarrow> string option) \<Rightarrow> nat \<Rightarrow> bool \<Rightarrow> (string, string) gomap \<Rightarrow> string
    \<Rightarrow> ((string, string) gomap \<times> bool \<times> string) option" where
  "lex_parameters unquote n quote params [] = None"
| "lex_parameters unquote n quote params (c # s) =
     (if c = CHR '','' then Some (params, False, s)
      else if c \<noteq> CHR '';'' then None
      else
        (case (takeWhile token_rune s, dropWhile token_rune s, n) of
           (attr, d # v, Suc n) \<Rightarrow>
             if attr = [] then None
             else if d = CHR '',''
             then (if attr = ''base64'' then Some (params, True, v) else None)
             else if d \<noteq> CHR ''='' then None
             else
               (case v of
                  [] \<Rightarrow> None
                | q # v' \<Rightarrow>
                    if byte_of q = 34
                    then (case scan_quoted v' of
                            None \<Rightarrow> None
                          | Some (raw, rest) \<Rightarrow>
                              if raw = [] then lex_parameters unquote n True params rest
                              else (case unquote raw of
                                      None \<Rightarrow> None
                                    | Some val \<Rightarrow> lex_parameters unquote n False (AList.update attr val params) rest))
                    else if takeWhile token_rune v = [] then None
                    else (case (if quote then unquote (takeWhile token_rune v) else rfc2396_unescape (takeWhile token_rune v)) of
                            None \<Rightarrow> None
                          | Some val \<Rightarrow> lex_parameters unquote n False (AList.update attr val params) (dropWhile token_rune v)))
         | _ \<Rightarrow> None))"

record data_url =
  du_Type :: string
  du_Subtype :: string
  du_Params :: "(string, string) gomap"
  du_Base64 :: bool
  du_Data :: string

definition decode_data :: "bool \<Rightarrow> string \<Rightarrow> string option" where
  "decode_data base64 s =
     (if base64 then (if list_all base64_rune s then base64_decode (filter (\<lambda>c. c \<noteq> char_of (10 :: nat)) s) else None)
      else if list_all url_rune s then rfc2396_unescape s else None)"

definition finish_url ::
  "(string \<Rightarrow> string option) \<Rightarrow> string \<Rightarrow> string \<Rightarrow> (string, string) gomap \<Rightarrow> string \<Rightarrow> data_url option" where
  "finish_url unquote typ subtype params s =
     (case lex_parameters unquote (length s) False params s of
        None \<Rightarrow> None
      | Some (params, base64, d) \<Rightarrow>
          map_option (\<lambda>bytes. \<lparr>du_Type = typ, du_Subtype = subtype, du_Params = params, du_Base64 = base64, du_Data = bytes\<rparr>)
            (decode_data base64 d))"

text \<open>Errors are \<open>None\<close>; their texts are left out.\<close>

definition DecodeString :: "(string \<Rightarrow> string option) \<Rightarrow> string \<Rightarrow> data_url option" where
  "DecodeString unquote s =
     (let r = drop 5 s; typ = takeWhile token_rune r; rest = dropWhile token_rune r in
      if take 5 s \<noteq> ''data:'' then None
      else if typ = []
      then (case r of
              [] \<Rightarrow> None
            | c # _ \<Rightarrow> if c = CHR '';'' \<or> c = CHR '','' then finish_url unquote ''text'' ''plain'' [(''charset'', ''US-ASCII'')] r else None)
      else (case rest of
              [] \<Rightarrow> None
            | c # rest' \<Rightarrow>
                if c \<noteq> CHR ''/'' \<or> \<not> known_type typ then None
                else (let subtype = takeWhile token_rune rest'
                      in finish_url unquote typ (if subtype = [] then ''plain'' else subtype) [] (dropWhile token_rune rest'))))"

section \<open>Reading what was written\<close>

lemma no_tokens: "\<not> token_rune (CHR ''/'')" "\<not> token_rune (CHR '';'')" "\<not> token_rune (CHR '','')" "\<not> token_rune (CHR '' '')"
  by code_simp+

lemma span_tokens:
  assumes "list_all token_rune t" and "\<not> token_rune c"
  shows "takeWhile token_rune (t @ c # s) = t" and "dropWhile token_rune (t @ c # s) = c # s"
  using assms by (simp_all add: takeWhile_append dropWhile_append list_all_iff)

lemma lex_base64: "lex_parameters unquote (Suc n) quote params ('';base64,'' @ s) = Some (params, True, s)"
proof -
  have t: "list_all token_rune ''base64''" by code_simp
  have "takeWhile token_rune (''base64,'' @ s) = ''base64''" "dropWhile token_rune (''base64,'' @ s) = CHR '','' # s"
    using span_tokens [OF t no_tokens(3), of s] by simp_all
  then show ?thesis by simp
qed

lemma lex_space: "lex_parameters unquote n quote params (CHR '';'' # CHR '' '' # s) = None"
  using no_tokens(4) by (cases n) simp_all

lemma decode_encoded: "decode_data True (base64_encode bytes) = Some bytes"
proof -
  have c: "c \<noteq> char_of (10 :: nat)" if "c \<in> insert (CHR ''='') (set base64_alphabet)" for c
  proof -
    have "list_all (\<lambda>c. c \<noteq> char_of (10 :: nat)) (CHR ''='' # base64_alphabet)" by code_simp
    then show ?thesis using that by (auto simp: list_all_iff)
  qed
  then have "filter (\<lambda>c. c \<noteq> char_of (10 :: nat)) (base64_encode bytes) = base64_encode bytes"
    using encoded_chars [of bytes] by (simp add: filter_id_conv) blast
  moreover have "list_all base64_rune (base64_encode bytes)"
    using encoded_chars [of bytes] by (auto simp: list_all_iff base64_rune_def)
  ultimately show ?thesis by (simp add: decode_data_def base64_roundtrip)
qed

text \<open>A media type that both sides agree on: of a kind the lexer knows, made of tokens.\<close>

definition plain_media_type :: "string \<Rightarrow> string \<Rightarrow> bool" where
  "plain_media_type t sub \<longleftrightarrow> t \<noteq> [] \<and> list_all token_rune t \<and> known_type t \<and> sub \<noteq> [] \<and> list_all token_rune sub"

lemma slash_free: "list_all token_rune t \<Longrightarrow> CHR ''/'' \<notin> set t"
  using no_tokens(1) by (auto simp: list_all_iff)

lemma data_uri_written:
  assumes "CHR ''/'' \<notin> set t" and "CHR ''/'' \<notin> set rest"
  shows "data_uri bytes (t @ ''/'' @ rest) = Some (''data:'' @ t @ ''/'' @ rest @ '';base64,'' @ base64_encode bytes)"
proof -
  have "split_on (CHR ''/'') (t @ CHR ''/'' # rest) = [t, rest]"
    using split_join [of "[t, rest]" "CHR ''/''"] assms by simp
  then show ?thesis by (simp add: data_uri_def)
qed

lemma data_url_roundtrip:
  assumes "plain_media_type t sub"
  shows "\<exists>uri. data_uri bytes (t @ ''/'' @ sub) = Some uri
    \<and> DecodeString unquote uri = Some \<lparr>du_Type = t, du_Subtype = sub, du_Params = [], du_Base64 = True, du_Data = bytes\<rparr>"
proof -
  have m: "t \<noteq> []" "list_all token_rune t" "known_type t" "sub \<noteq> []" "list_all token_rune sub"
    using assms by (auto simp: plain_media_type_def)
  let ?tail = "'';base64,'' @ base64_encode bytes"
  have "DecodeString unquote (''data:'' @ t @ ''/'' @ sub @ ?tail) = finish_url unquote t sub [] ?tail"
    using m span_tokens [OF m(2) no_tokens(1), of "sub @ ?tail"] span_tokens [OF m(5) no_tokens(2), of "tl ?tail"]
    by (simp add: DecodeString_def Let_def)
  also have "\<dots> = Some \<lparr>du_Type = t, du_Subtype = sub, du_Params = [], du_Base64 = True, du_Data = bytes\<rparr>"
    using lex_base64 [of unquote "length ?tail - 1" False "[]" "base64_encode bytes"]
    by (simp add: finish_url_def decode_encoded)
  finally show ?thesis using data_uri_written [OF slash_free [OF m(2)] slash_free [OF m(5)], of bytes] by simp
qed

lemma spaced_media_type_unreadable:
  assumes "list_all token_rune t" and "list_all token_rune sub"
  shows "DecodeString unquote (''data:'' @ t @ ''/'' @ sub @ ''; '' @ rest) = None"
proof (cases "t = []")
  case False
  then show ?thesis
    using span_tokens [OF assms(1) no_tokens(1), of "sub @ ''; '' @ rest"] span_tokens [OF assms(2) no_tokens(2), of "'' '' @ rest"]
      lex_space [of unquote _ False "[]" rest]
    by (simp add: DecodeString_def Let_def finish_url_def)
qed (use no_tokens(1) in \<open>simp add: DecodeString_def Let_def\<close>)

section \<open>From a ready-made task to the next task\<close>

text \<open>The executor of \<open>Executor\<close> with this package.\<close>

definition with_data_urls :: "(string \<Rightarrow> string option) \<Rightarrow> ('a, 'w) exec_env \<Rightarrow> ('a, 'w) exec_env" where
  "with_data_urls unquote env = env\<lparr>xe_DecodeString := (\<lambda>u. case DecodeString unquote u of
     None \<Rightarrow> Inl ''invalid data URI'' | Some d \<Rightarrow> Inr (map byte_of (du_Data d)))\<rparr>"

text \<open>C35: What a ready-made task publishes arrives. The bytes of a line, of the result of a query or of a
  document, published as a data URI of a plain media type, can always be read by the agent of the next
  task: when the API server takes the config map, the input of the task is a volume of exactly these
  bytes, mounted at the path of the input.\<close>
theorem published_data_arrives:
  assumes "plain_media_type t sub" and "data_uri bytes (t @ ''/'' @ sub) = Some (av_Data (ic_AnnotatedValue cfg))"
    and "xe_NewLen env 16 w = (path, w1)" and "xe_NewLen env 8 w1 = (random, w2)"
    and "\<And>o'. xe_Create env o' w2 = (None, w3)"
  shows "\<exists>target' name vol. dataInputBuilder_Build (with_data_urls unquote env) cfg target w = (None, target', w3)
    \<and> it_Resources target' = it_Resources target @ [X_ConfigMap (data_config_map cfg name path (map byte_of bytes))]
    \<and> it_Pod target' = add_volume vol (VS_ConfigMap name (Some 292)) (it_Pod target)
    \<and> it_Container target' = add_mount vol True
        (input_mount_path (tis_Name (ic_InputSpec cfg)) (ic_AnnotatedValueIndex cfg)) [] (it_Container target)"
proof -
  obtain uri where "data_uri bytes (t @ ''/'' @ sub) = Some uri"
    and d: "DecodeString unquote uri = Some \<lparr>du_Type = t, du_Subtype = sub, du_Params = [], du_Base64 = True, du_Data = bytes\<rparr>"
    using data_url_roundtrip [OF assms(1)] by blast
  then have "uri = av_Data (ic_AnnotatedValue cfg)" using assms(2) by simp
  then show ?thesis using d assms(3-5)
    by (simp add: dataInputBuilder_Build_def with_data_urls_def Let_def data_config_map_def)
      (intro exI conjI, (rule refl)+)
qed

text \<open>C34: A response whose content type has parameters cannot be used. For a media type followed by a
  semicolon and a space, the way servers write a character set, the REST task makes a URI of the header as
  it is and hands it over as the value of its output; the agent of every task that gets this value cannot
  read the URI, so its execution fails, each time.\<close>
theorem rest_parameters_unreadable:
  assumes "buildRequest env cfg sn w = (Inr req, w1)" and "rs_Do env req w1 = (Inr resp, w2)"
    and "hr_Body resp = Inr body" and "200 \<le> hr_StatusCode resp" and "hr_StatusCode resp < 300"
    and "hr_ContentType resp = t @ ''/'' @ sub @ ''; '' @ rest" and "list_all token_rune t" and "list_all token_rune sub"
    and "CHR ''/'' \<notin> set rest"
    and "\<And>req. nt_OutputReady (rs_Notifier env) req w2 = (Inr (True, i), acc req)"
  shows "\<exists>uri. processSnapshot env cfg sn w
      = Some (Processed None, acc \<lparr>orq_AnnotatedValueData = uri, orq_OutputName = rtc_OutputName cfg, orq_Snapshot = None\<rparr>)
    \<and> (\<forall>ic (xe :: ('a, 'x) exec_env) target u. av_Data (ic_AnnotatedValue ic) = uri
        \<longrightarrow> dataInputBuilder_Build (with_data_urls unquote xe) ic target u = (Some (BadDataURI ''invalid data URI''), target, u))"
proof -
  let ?sub = "sub @ ''; '' @ rest"
  have s: "CHR ''/'' \<notin> set ?sub" using slash_free [OF assms(8)] assms(9) by simp
  let ?uri = "''data:'' @ t @ ''/'' @ ?sub @ '';base64,'' @ base64_encode body"
  have uri: "data_uri body (hr_ContentType resp) = Some ?uri"
    unfolding assms(6) by (rule data_uri_written [OF slash_free [OF assms(7)] s])
  have ct: "hr_ContentType resp \<noteq> []" by (simp add: assms(6))
  have "outputReady (rs_Notifier env) ?uri (rtc_OutputName cfg) w2
      = Some (Inr i, acc \<lparr>orq_AnnotatedValueData = ?uri, orq_OutputName = rtc_OutputName cfg, orq_Snapshot = None\<rparr>)"
    unfolding outputReady_def by (subst outputReady_loop.simps) (simp add: assms(10))
  then have p: "processSnapshot env cfg sn w
      = Some (Processed None, acc \<lparr>orq_AnnotatedValueData = ?uri, orq_OutputName = rtc_OutputName cfg, orq_Snapshot = None\<rparr>)"
    using assms(1-5) uri ct by (simp add: processSnapshot_def)
  have "DecodeString unquote ?uri = None"
    using spaced_media_type_unreadable [OF assms(7,8), of unquote "rest @ '';base64,'' @ base64_encode body"] by simp
  then have "dataInputBuilder_Build (with_data_urls unquote xe) ic target u = (Some (BadDataURI ''invalid data URI''), target, u)"
    if "av_Data (ic_AnnotatedValue ic) = ?uri" for ic target u and xe :: "('a, 'x) exec_env"
    using that by (simp add: dataInputBuilder_Build_def with_data_urls_def Let_def)
  with p show ?thesis by (intro exI [of _ ?uri] conjI allI impI) blast+
qed

section \<open>Applying the properties\<close>

text \<open>A server that answers with JSON and a character set.\<close>

definition json_response :: http_response where
  "json_response = \<lparr>hr_StatusCode = 200, hr_ContentType = ''application/json; charset=utf-8'', hr_Body = Inr ''{}''\<rparr>"

definition json_rest :: "output_ready_request list rest_env" where
  "json_rest =
     \<lparr>rs_Notifier = \<lparr>nt_OutputReady = (\<lambda>req w. (Inr (True, ''id''), w @ [req])), nt_Sleep = (\<lambda>d w. (True, w))\<rparr>,
      rs_CtxErr = (\<lambda>w. None), rs_Next = (\<lambda>w. (Inr None, w)), rs_Ack = (\<lambda>i w. (None, w)),
      rs_ExecuteTemplate = (\<lambda>t sn w. (Inr t, w)), rs_ReadMIMEHeader = (\<lambda>h. Inr []), rs_CheckRequest = (\<lambda>m u. None),
      rs_Do = (\<lambda>req w. (Inr json_response, w))\<rparr>"

definition data_value :: "string \<Rightarrow> ExecutorInputBuilderConfig" where
  "data_value uri = \<lparr>ic_InputSpec = executor_input, ic_TaskSpec = executor_task, ic_Pipeline = ex_Pipeline example_executor,
     ic_AnnotatedValue = value_at uri, ic_AnnotatedValueIndex = 0, ic_OwnerRef = ''agent-0''\<rparr>"

definition data_target :: ExecutorInputBuilderTarget where
  "data_target = \<lparr>it_Container = empty_container, it_Pod = new_pod example_env example_executor ''0'' ''agent-0'',
     it_NodeName = None, it_TemplateData = [], it_Resources = []\<rparr>"

lemma published_data_arrives_witness:
  "data_uri ''hi'' ''text/plain'' = Some ''data:text/plain;base64,aGk=''
   \<and> (\<exists>target name. dataInputBuilder_Build (with_data_urls Some example_env) (data_value ''data:text/plain;base64,aGk='') data_target 0
        = (None, target, 2)
      \<and> it_Resources target = [X_ConfigMap (data_config_map (data_value ''data:text/plain;base64,aGk='') name ''0'' [104, 105])])"
proof -
  let ?cfg = "data_value ''data:text/plain;base64,aGk=''"
  have u: "data_uri ''hi'' ''text/plain'' = Some ''data:text/plain;base64,aGk=''" by code_simp
  have m: "plain_media_type ''text'' ''plain''" by code_simp
  have v: "data_uri ''hi'' (''text'' @ ''/'' @ ''plain'') = Some (av_Data (ic_AnnotatedValue ?cfg))"
    using u by (simp add: data_value_def value_at_def)
  have e: "xe_NewLen example_env 16 0 = (''0'', 1)" "xe_NewLen example_env 8 1 = (''1'', 2)" by code_simp+
  have c: "xe_Create example_env o' 2 = (None, 2)" for o' by (simp add: example_env_def)
  have b: "map byte_of ''hi'' = [104, 105]" by code_simp
  show ?thesis
    using published_data_arrives [OF m v e c, of Some data_target] u b by (auto simp: data_target_def)
qed

lemma rest_parameters_unreadable_witness:
  "\<exists>uri. processSnapshot json_rest example_rest_config \<lparr>as_ID = ''s'', as_Inputs = []\<rparr> []
      = Some (Processed None, [\<lparr>orq_AnnotatedValueData = uri, orq_OutputName = ''out'', orq_Snapshot = None\<rparr>])
    \<and> dataInputBuilder_Build (with_data_urls Some example_env) (data_value uri) data_target 0
        = (Some (BadDataURI ''invalid data URI''), data_target, 0)"
proof -
  let ?sn = "\<lparr>as_ID = ''s'', as_Inputs = []\<rparr> :: api_snapshot"
  have b: "buildRequest json_rest example_rest_config ?sn []
      = (Inr \<lparr>hq_Method = ''GET'', hq_URL = ''http://h'', hq_Body = [], hq_Header = []\<rparr>, [])"
    by code_simp
  have r: "rs_Do json_rest req [] = (Inr json_response, [])" for req by (simp add: json_rest_def)
  have j: "hr_Body json_response = Inr ''{}''" "200 \<le> hr_StatusCode json_response" "hr_StatusCode json_response < 300"
    "hr_ContentType json_response = ''application'' @ ''/'' @ ''json'' @ ''; '' @ ''charset=utf-8''"
    by (simp_all add: json_response_def)
  have t: "list_all token_rune ''application''" "list_all token_rune ''json''" "CHR ''/'' \<notin> set ''charset=utf-8''"
    by code_simp+
  have n: "nt_OutputReady (rs_Notifier json_rest) req [] = (Inr (True, ''id''), [] @ [req])" for req
    by (simp add: json_rest_def)
  have o: "rtc_OutputName example_rest_config = ''out''" by (simp add: example_rest_config_def)
  have "\<exists>uri. processSnapshot json_rest example_rest_config ?sn []
      = Some (Processed None, [] @ [\<lparr>orq_AnnotatedValueData = uri, orq_OutputName = rtc_OutputName example_rest_config, orq_Snapshot = None\<rparr>])
    \<and> (\<forall>ic (xe :: (nat, nat) exec_env) target u. av_Data (ic_AnnotatedValue ic) = uri
        \<longrightarrow> dataInputBuilder_Build (with_data_urls Some xe) ic target u = (Some (BadDataURI ''invalid data URI''), target, u))"
    by (rule rest_parameters_unreadable [OF b r j t n])
  then obtain uri where
    p: "processSnapshot json_rest example_rest_config ?sn []
      = Some (Processed None, [\<lparr>orq_AnnotatedValueData = uri, orq_OutputName = ''out'', orq_Snapshot = None\<rparr>])"
    and d: "\<And>ic (xe :: (nat, nat) exec_env) target u. av_Data (ic_AnnotatedValue ic) = uri
      \<Longrightarrow> dataInputBuilder_Build (with_data_urls Some xe) ic target u = (Some (BadDataURI ''invalid data URI''), target, u)"
    unfolding o by auto
  have "av_Data (ic_AnnotatedValue (data_value uri)) = uri" by (simp add: data_value_def value_at_def)
  then show ?thesis using p d by blast
qed

end
