(* ===== verification/Pipeline_Agent.thy ===== *)
theory Pipeline_Agent
  imports Agent_Deploy Agent_Registry Output_Store Frontend_Hub Data_URL FS_Example
begin

text \<open>
  The process of a pipeline agent (\<open>pkg/agent/pipeline/service.go\<close>): the parts the in-memory builder
  makes (\<open>stub/stub.go\<close>), how the process starts, the views of data it offers to the front end
  (\<open>builders/dataview\<close>, \<open>data_view_builder.go\<close>) and the routes of its web server (\<open>server_frontend.go\<close>).
\<close>

section \<open>Parts made on demand\<close>

text \<open>
  The builder keeps pointers to the one agent registry and the one output store it makes.  Objects are
  numbered in the order in which they are made.
\<close>

record pipeline_deps =
  pd_Namespace :: string
  pd_AnnotatedValueRegistry :: string
  pd_FileSystem :: string
  pd_Pipeline :: Pipeline

record store_object = output_store +
  sob_agentRegistry :: nat
  sob_avRegistry :: string
  sob_pipeline :: Pipeline
  sob_fileSystem :: string

record stub_builder =
  sb_agentRegistry :: "nat option"
  sb_outputStore :: "nat option"
  sb_registries :: "agent_registry list"
  sb_stores :: "store_object list"

definition NewStub :: stub_builder where
  "NewStub = \<lparr>sb_agentRegistry = None, sb_outputStore = None, sb_registries = [], sb_stores = []\<rparr>"

definition getOrCreateAgentRegistry :: "stub_builder \<Rightarrow> nat \<times> stub_builder" where
  "getOrCreateAgentRegistry s =
     (case sb_agentRegistry s of
        Some r \<Rightarrow> (r, s)
      | None \<Rightarrow>
          let r = length (sb_registries s)
          in (r, s\<lparr>sb_agentRegistry := Some r, sb_registries := sb_registries s @ [newAgentRegistry]\<rparr>))"

definition getOrCreateOutputStore :: "pipeline_deps \<Rightarrow> stub_builder \<Rightarrow> nat \<times> stub_builder" where
  "getOrCreateOutputStore deps s =
     (case getOrCreateAgentRegistry s of
        (r, s) \<Rightarrow>
          (case sb_outputStore s of
             Some x \<Rightarrow> (x, s)
           | None \<Rightarrow>
               let x = length (sb_stores s);
                   obj = output_store.extend newOutputStore
                     \<lparr>sob_agentRegistry = r, sob_avRegistry = pd_AnnotatedValueRegistry deps,
                      sob_pipeline = pd_Pipeline deps, sob_fileSystem = pd_FileSystem deps\<rparr>
               in (x, s\<lparr>sb_outputStore := Some x, sb_stores := sb_stores s @ [obj]\<rparr>)))"

definition stub_NewAnnotatedValuePublisher :: "pipeline_deps \<Rightarrow> stub_builder \<Rightarrow> (string, nat) go_result \<times> stub_builder" where
  "stub_NewAnnotatedValuePublisher deps s = (case getOrCreateOutputStore deps s of (x, s) \<Rightarrow> (Inr x, s))"

definition stub_NewAgentRegistry :: "pipeline_deps \<Rightarrow> stub_builder \<Rightarrow> (string, nat) go_result \<times> stub_builder" where
  "stub_NewAgentRegistry deps s = (case getOrCreateAgentRegistry s of (r, s) \<Rightarrow> (Inr r, s))"

definition stub_NewStatisticsSink :: "pipeline_deps \<Rightarrow> stub_builder \<Rightarrow> (string, nat) go_result \<times> stub_builder" where
  "stub_NewStatisticsSink deps s = (case getOrCreateAgentRegistry s of (r, s) \<Rightarrow> (Inr r, s))"

definition stub_NewFrontend :: "pipeline_deps \<Rightarrow> stub_builder \<Rightarrow> (string, nat) go_result \<times> stub_builder" where
  "stub_NewFrontend deps s = (case getOrCreateOutputStore deps s of (x, s) \<Rightarrow> (Inr x, s))"

text \<open>The specification of the pipeline the front end shows.\<close>

definition store_GetPipeline :: "store_object \<Rightarrow> PipelineSpec" where
  "store_GetPipeline o' = pl_Spec (sob_pipeline o')"

section \<open>The process\<close>

record 'b api_builder =
  ab_NewAnnotatedValuePublisher :: "pipeline_deps \<Rightarrow> 'b \<Rightarrow> (string, nat) go_result \<times> 'b"
  ab_NewAgentRegistry :: "pipeline_deps \<Rightarrow> 'b \<Rightarrow> (string, nat) go_result \<times> 'b"
  ab_NewStatisticsSink :: "pipeline_deps \<Rightarrow> 'b \<Rightarrow> (string, nat) go_result \<times> 'b"
  ab_NewFrontend :: "pipeline_deps \<Rightarrow> 'b \<Rightarrow> (string, nat) go_result \<times> 'b"

definition stub_builder_ops :: "stub_builder api_builder" where
  "stub_builder_ops =
     \<lparr>ab_NewAnnotatedValuePublisher = stub_NewAnnotatedValuePublisher, ab_NewAgentRegistry = stub_NewAgentRegistry,
      ab_NewStatisticsSink = stub_NewStatisticsSink, ab_NewFrontend = stub_NewFrontend\<rparr>"

record pipeline_service =
  psv_Namespace :: string
  psv_avPublisher :: nat
  psv_agentRegistry :: nat
  psv_statisticsSink :: nat
  psv_avRegistry :: string
  psv_frontend :: nat
  psv_frontendHub :: hub_state

definition pipeline_dependencies ::
  "'w agent_env \<Rightarrow> 'w \<Rightarrow> ((process_error, pipeline_deps) go_result \<times> 'w) option" where
  "pipeline_dependencies env w =
     and_retry (new_client env w) (\<lambda>_ w.
     and_then (get_env GetNamespace env) w (\<lambda>ns.
     and_then (get_env GetPipelineName env) w (\<lambda>pipelineName.
     and_retry (retry_get (ae_Retry env) [Timeout TimeoutAPIServer] empty_pipeline (ae_GetPipeline env pipelineName ns) w) (\<lambda>pl w.
     and_then (NewAnnotatedValueRegistryClient env) w (\<lambda>avReg.
     and_then (NewFileSystemClient env) w (\<lambda>fileSystem.
       Some (Inr \<lparr>pd_Namespace = ns, pd_AnnotatedValueRegistry = avReg, pd_FileSystem = fileSystem, pd_Pipeline = pl\<rparr>, w)))))))"

definition pipeline_parts ::
  "'b api_builder \<Rightarrow> pipeline_deps \<Rightarrow> 'b \<Rightarrow> (process_error, pipeline_service) go_result \<times> 'b" where
  "pipeline_parts ops deps b =
     (case ab_NewAnnotatedValuePublisher ops deps b of (Inl e, b) \<Rightarrow> (Inl (PE_Builder e), b) | (Inr avPublisher, b) \<Rightarrow>
     (case ab_NewAgentRegistry ops deps b of (Inl e, b) \<Rightarrow> (Inl (PE_Builder e), b) | (Inr agentRegistry, b) \<Rightarrow>
     (case ab_NewStatisticsSink ops deps b of (Inl e, b) \<Rightarrow> (Inl (PE_Builder e), b) | (Inr statisticsSink, b) \<Rightarrow>
     (case ab_NewFrontend ops deps b of (Inl e, b) \<Rightarrow> (Inl (PE_Builder e), b) | (Inr frontend, b) \<Rightarrow>
        (Inr \<lparr>psv_Namespace = pd_Namespace deps, psv_avPublisher = avPublisher, psv_agentRegistry = agentRegistry,
           psv_statisticsSink = statisticsSink, psv_avRegistry = pd_AnnotatedValueRegistry deps,
           psv_frontend = frontend, psv_frontendHub = NewHub\<rparr>, b)))))"

definition pipeline_NewService ::
  "'w agent_env \<Rightarrow> 'b api_builder \<Rightarrow> 'b \<Rightarrow> 'w \<Rightarrow> ((process_error, pipeline_service) go_result \<times> 'b \<times> 'w) option" where
  "pipeline_NewService env ops b w =
     (case pipeline_dependencies env w of
        None \<Rightarrow> None
      | Some (Inl e, w) \<Rightarrow> Some (Inl e, b, w)
      | Some (Inr deps, w) \<Rightarrow> (case pipeline_parts ops deps b of (r, b) \<Rightarrow> Some (r, b, w)))"

text \<open>The ports \<open>Run\<close> reads before it starts the servers and the hub: of the API and of the web pages.\<close>

definition pipeline_ports :: "'w agent_env \<Rightarrow> (process_error, int \<times> int) go_result" where
  "pipeline_ports env =
     (case GetAPIPort (ae_Getenv env) of
        None \<Rightarrow> Inl PE_Port
      | Some port \<Rightarrow>
          (case GetAPIHTTPPort (ae_Getenv env) of None \<Rightarrow> Inl PE_Port | Some httpPort \<Rightarrow> Inr (port, httpPort)))"

section \<open>Views of data\<close>

record data_view_request =
  dv_Data :: string
  dv_Preview :: bool

text \<open>A view is the content with its type; \<open>createFileView\<close> is the call of the file system service.\<close>

type_synonym data_view = "nat list \<times> string"

type_synonym 'w view_builder = "data_view_request \<Rightarrow> 'w \<Rightarrow> (string, data_view) go_result \<times> 'w"

definition dataViewBuilder :: "(string \<Rightarrow> string option) \<Rightarrow> 'w view_builder" where
  "dataViewBuilder unquote req w =
     (case DecodeString unquote (dv_Data req) of
        None \<Rightarrow> (Inl ''invalid data URI'', w)
      | Some durl \<Rightarrow> (Inr (map byte_of (du_Data durl), du_Type durl @ ''/'' @ du_Subtype durl), w))"

definition fileViewBuilder ::
  "(string \<Rightarrow> bool \<Rightarrow> 'w \<Rightarrow> (string, data_view) go_result \<times> 'w) \<Rightarrow> 'w view_builder" where
  "fileViewBuilder createFileView req w = createFileView (dv_Data req) (dv_Preview req) w"

definition RegisterDataViewBuilder ::
  "string \<Rightarrow> 'w view_builder \<Rightarrow> (string, 'w view_builder) gomap \<Rightarrow> (string, 'w view_builder) gomap" where
  "RegisterDataViewBuilder scheme builder bs = AList.update scheme builder bs"

definition registeredDataViewBuilders ::
  "(string \<Rightarrow> string option) \<Rightarrow> (string \<Rightarrow> bool \<Rightarrow> 'w \<Rightarrow> (string, data_view) go_result \<times> 'w)
    \<Rightarrow> (string, 'w view_builder) gomap" where
  "registeredDataViewBuilders unquote createFileView =
     RegisterDataViewBuilder SchemeFile (fileViewBuilder createFileView)
       (RegisterDataViewBuilder SchemeData (dataViewBuilder unquote) [])"

definition GetDataView ::
  "(string, 'w view_builder) gomap \<Rightarrow> data_view_request \<Rightarrow> 'w \<Rightarrow> (string, data_view) go_result \<times> 'w" where
  "GetDataView builders req w =
     (case map_of builders (GetDataScheme (dv_Data req)) of
        Some builder \<Rightarrow> builder req w
      | None \<Rightarrow>
          (Inr (map byte_of (''Unknown scheme '' @ [CHR 0x27] @ GetDataScheme (dv_Data req) @ [CHR 0x27]), ''text/plain''), w))"

section \<open>The web server\<close>

datatype route = RootPage | RedirectToRoot | Dispatch string

text \<open>\<open>createHandler\<close>: where a request for a path goes.\<close>

definition route_of :: "string \<Rightarrow> route" where
  "route_of urlPath =
     (let path = TrimPrefix urlPath ''/'' in
      if path = [] then RootPage
      else if to_lower path = ''index.html'' then RedirectToRoot
      else Dispatch urlPath)"

definition TrimSuffix :: "string \<Rightarrow> string \<Rightarrow> string" where
  "TrimSuffix s suffix = rev (TrimPrefix (rev s) (rev suffix))"

text \<open>The operations and the pool of the pattern for a path: each element is a literal.\<close>

definition parsePattern :: "string \<Rightarrow> nat list \<times> string list" where
  "parsePattern localPath =
     (let localPath = TrimSuffix (TrimPrefix localPath ''/'') ''/'' in
      if localPath = [] then ([], [])
      else let parts = split_on (CHR ''/'') localPath
           in (concat (map (\<lambda>i. [2, i]) [0..<length parts]), parts))"

datatype decoded_request = Decoded data_view_request | DecodeEOF | DecodeError

datatype http_reply =
    StatusBadRequest
  | StatusInternalServerError
  | DataPage "(string \<times> string) list" "nat list"

definition createGetDataViewHandler ::
  "('body \<Rightarrow> decoded_request) \<Rightarrow> (data_view_request \<Rightarrow> 'w \<Rightarrow> (string, data_view) go_result \<times> 'w)
    \<Rightarrow> 'body \<Rightarrow> 'w \<Rightarrow> http_reply \<times> 'w" where
  "createGetDataViewHandler decode getDataView body w =
     (case (case decode body of
              Decoded req \<Rightarrow> Some req
            | DecodeEOF \<Rightarrow> Some \<lparr>dv_Data = [], dv_Preview = False\<rparr>
            | DecodeError \<Rightarrow> None) of
        None \<Rightarrow> (StatusBadRequest, w)
      | Some req \<Rightarrow>
          (case getDataView req w of
             (Inl e, w) \<Rightarrow> (StatusInternalServerError, w)
           | (Inr (content, contentType), w) \<Rightarrow>
               (DataPage [(''Content-Length'', itoa (length content)), (''Content-Type'', contentType)] content, w)))"

section \<open>A deployed pipeline agent\<close>

lemma pipeline_env_read:
  assumes "map_order (rc_env_order r (pipeline_agent_env r p fs)) (pipeline_agent_env r p fs)" and "agent_image_ok c"
    and "link_agent_field p field" and "pl_Name p \<noteq> []" and "fs \<noteq> []"
    and "ae_Getenv env = process_env field (c_Env (pipeline_agent_container r p fs c))"
    and "\<And>a. ae_Dial env a = None"
  shows "get_env GetNamespace env = Inr (pl_Namespace p)"
    and "get_env GetPipelineName env = Inr (pl_Name p)"
    and "pipeline_ports env = Inr (int AgentAPIPort, int AgentAPIHTTPPort)"
    and "NewAnnotatedValueRegistryClient env = Inr (JoinHostPort ''localhost'' (itoa AnnotatedValueRegistryAPIPort))"
    and "NewFileSystemClient env = Inr fs"
proof -
  let ?vars = "pipeline_agent_env r p fs"
  have vars: "gomap_ok ?vars" "EnvNamespace \<notin> fst ` set ?vars" "EnvPodName \<notin> fst ` set ?vars"
    by (simp_all add: gomap_ok_def pipeline_agent_env_def Let_def env_constants)
  have e: "ae_Getenv env n = (if n = EnvNamespace then field ''metadata.namespace''
      else if n = EnvPodName then field ''metadata.name''
      else case map_of ?vars n of Some v \<Rightarrow> v | None \<Rightarrow> process_env field (c_Env c) n)" for n
    unfolding assms(6) pipeline_agent_container_def
    by (rule deployed_env [OF vars(1) assms(1,2) vars(2,3)])
  note get = get_env_def required_env_def e pipeline_agent_env_def Let_def env_constants
  show "get_env GetNamespace env = Inr (pl_Namespace p)" "get_env GetPipelineName env = Inr (pl_Name p)"
    using assms(3,4) by (simp_all add: get GetNamespace_def GetPipelineName_def link_agent_field_def)
  have "Atoi (itoa AgentAPIHTTPPort) = Some (int AgentAPIHTTPPort)" by (rule Atoi_itoa) (simp add: AgentAPIHTTPPort_def)
  then show "pipeline_ports env = Inr (int AgentAPIPort, int AgentAPIHTTPPort)"
    by (simp add: pipeline_ports_def GetAPIPort_def GetAPIHTTPPort_def get agent_port_read)
  show "NewAnnotatedValueRegistryClient env = Inr (JoinHostPort ''localhost'' (itoa AnnotatedValueRegistryAPIPort))"
    "NewFileSystemClient env = Inr fs"
    using assms(5)
    by (simp_all add: get dial_env_def dial_def assms(7) NewAnnotatedValueRegistryClient_def NewFileSystemClient_def
      address_nonempty)
qed

text \<open>C38: A pipeline agent deployed by the controller starts, and its services share their state. With an API
  server that can be read and connections that can be made, one output store takes the values of the
  pipeline and answers the front end, one registry takes the registrations and the reports of the agents,
  the store asks this same registry for statistics, and the agent serves the port at which link and task
  agents report and the last tasks publish.\<close>
theorem deployed_pipeline_agent_starts:
  assumes "map_order (rc_env_order r (pipeline_agent_env r p fs)) (pipeline_agent_env r p fs)" and "agent_image_ok c"
    and "link_agent_field p field" and "pl_Name p \<noteq> []" and "fs \<noteq> []"
    and "ae_Getenv env = process_env field (c_Env (pipeline_agent_container r p fs c))"
    and "\<And>a. ae_Dial env a = None"
    and "new_client env w = Some (Inr (), w1)"
    and "retry_get (ae_Retry env) [Timeout TimeoutAPIServer] empty_pipeline
      (ae_GetPipeline env (pl_Name p) (pl_Namespace p)) w1 = Some (Inr pl, w2)"
  defines "h \<equiv> rc_sha1 r"
  shows "\<exists>svc b obj. pipeline_NewService env stub_builder_ops NewStub w = Some (Inr svc, b, w2)
    \<and> psv_avPublisher svc = psv_frontend svc \<and> psv_agentRegistry svc = psv_statisticsSink svc
    \<and> sb_stores b = [obj] \<and> psv_frontend svc = 0 \<and> sob_agentRegistry obj = psv_agentRegistry svc
    \<and> sb_registries b ! psv_agentRegistry svc = newAgentRegistry \<and> sto_annotatedValues obj = []
    \<and> store_GetPipeline obj = pl_Spec pl
    \<and> (\<exists>port httpPort. pipeline_ports env = Inr (port, httpPort)
        \<and> CreateAgentRegistryAddress h (pl_Name p) (pl_Namespace p)
            = JoinHostPort (CreatePipelineAgentDNSName h (pl_Name p) (pl_Namespace p)) (itoa (nat port))
        \<and> CreatePipelineAgentAnnotatedValuePublisherAddress h (pl_Name p) (pl_Namespace p)
            = JoinHostPort (CreatePipelineAgentDNSName h (pl_Name p) (pl_Namespace p)) (itoa (nat port)))"
proof -
  note e = pipeline_env_read [OF assms(1-7)]
  have "pipeline_dependencies env w = Some (Inr \<lparr>pd_Namespace = pl_Namespace p,
      pd_AnnotatedValueRegistry = JoinHostPort ''localhost'' (itoa AnnotatedValueRegistryAPIPort), pd_FileSystem = fs, pd_Pipeline = pl\<rparr>, w2)"
    by (simp add: pipeline_dependencies_def e and_then_def and_retry_def assms(8,9))
  then show ?thesis
    by (simp add: pipeline_NewService_def pipeline_parts_def stub_builder_ops_def stub_NewAnnotatedValuePublisher_def
        stub_NewAgentRegistry_def stub_NewStatisticsSink_def stub_NewFrontend_def getOrCreateOutputStore_def
        getOrCreateAgentRegistry_def NewStub_def Let_def output_store.extend_def newOutputStore_def store_GetPipeline_def
        e CreateAgentRegistryAddress_def CreatePipelineAgentAnnotatedValuePublisherAddress_def)
qed

section \<open>Any file of any node\<close>

lemma uri_scheme:
  assumes "local_CreateFileURI env (uri_request s resp p d) w = Inr uri" and "CHR '':'' \<notin> set s" and "s \<noteq> []"
  shows "GetDataScheme uri = s"
proof -
  obtain u where "uri = url_String u" "u_Scheme u = s" "u_Opaque u = []"
    using assms(1) by (auto simp: local_CreateFileURI_def uri_request_def split: if_splits sum.splits)
  then obtain rest where "uri = s @ CHR '':'' # rest" using assms(3) by (simp add: url_String_def Let_def)
  then show ?thesis using index_of_append [OF assms(2)] assms(3) by (simp add: GetDataScheme_def)
qed


section \<open>Applying the properties\<close>

definition chain_pipeline_env :: "int agent_env" where
  "chain_pipeline_env = chain_agent_env (pipeline_agent_container example_reconciler chain_updated
     ''fs.sys.svc:7000'' (agent_image ''pi'')) []"

lemma deployed_pipeline_agent_starts_witness:
  "\<exists>svc b obj. pipeline_NewService chain_pipeline_env stub_builder_ops NewStub 0 = Some (Inr svc, b, 0)
     \<and> psv_avPublisher svc = psv_frontend svc \<and> psv_agentRegistry svc = psv_statisticsSink svc
     \<and> sb_stores b = [obj] \<and> store_GetPipeline obj = pl_Spec chain_updated"
proof -
  have o: "map_order (rc_env_order example_reconciler m) m" for m
    by (simp add: example_reconciler_def map_order_def)
  have d: "ae_Dial chain_pipeline_env a = None" for a by (simp add: chain_pipeline_env_def chain_agent_env_def)
  have g: "ae_Getenv chain_pipeline_env = process_env chain_field (c_Env (pipeline_agent_container example_reconciler
      chain_updated ''fs.sys.svc:7000'' (agent_image ''pi'')))"
    by (simp add: chain_pipeline_env_def chain_agent_env_def)
  have a: "new_client chain_pipeline_env 0 = Some (Inr (), 0)"
    "retry_get (ae_Retry chain_pipeline_env) [Timeout TimeoutAPIServer] empty_pipeline
       (ae_GetPipeline chain_pipeline_env name ns) 0 = Some (Inr chain_updated, 0)" for name ns
    unfolding chain_pipeline_env_def by (rule chain_answers)+
  show ?thesis
    using deployed_pipeline_agent_starts [OF o chain_image_ok chain_fields _ g d a] by fastforce
qed


end
