(* ===== verification/Spec2Isabelle.thy ===== *)
theory Spec2Isabelle
  imports Koalja_API Statistics Annotated_Value Link_Stub Input_Snapshot Input_Loop Output_Publisher
    Snapshot_Service Agent_Registry Output_Store Pod_GC Names Resource_Diff Ensure Controller_Config
    Reconcile_Util Pipeline_Wiring FS_Example Link_DB_Delivery Arango_Setup
    Agent_Reports Agent_Deploy Task_Query Pipeline_Agent
begin

text \<open>
  Koalja runs data pipelines on Kubernetes.  A pipeline names tasks and the links between them.  The
  pipeline controller turns it into a pipeline agent, one agent per link and one per task.  A task
  agent takes annotated values from its input links, builds snapshots of them, executes the task
  on each snapshot and publishes the values of its outputs to the output links; the registry keeps
  every annotated value so that its provenance can be traced.  This library models these parts,
  translated from the Go sources under src/, and proves what makes them correct, alone and together.

  \<^bold>\<open>Foundations.\<close>  \<open>Prelude\<close>: results, strings, Go maps as association lists with an explicit order of
  iteration, reachability with its invariant rule.  \<open>Kube_Types\<close>: the Kubernetes objects as data.
  \<open>Koalja_API\<close> (pkg/apis/koalja/v1alpha1): pipeline specifications, their lookups and their
  validation, decided by a declarative well-formedness.  \<open>Statistics\<close> (pkg/tracking).  \<open>Names\<close>
  (pkg/util/names.go, pkg/constants, the naming part of reconcile_util.go).

  \<^bold>\<open>Data plane.\<close>  \<open>Annotated_Value\<close> (pkg/annotatedvalue: helper.go, registry/stub, tree): the registry and
  the tree of a value, built with a fuel that is the number of values recorded, which is enough
  because a value is recorded after its sources.  \<open>Link_Stub\<close> (pkg/agent/link/stub): the queues of a
  link; one definition per critical section, interleaved by \<open>link_step\<close>; every published value is in
  exactly one place.  \<open>Input_Snapshot\<close>, \<open>Input_Loop\<close> (pkg/agent/task/input_snapshot.go, input_loop.go):
  the input loop of a task agent as a step relation over its goroutines, with the snapshots of every
  policy.  \<open>Output_Publisher\<close> (output_publisher.go): the two-phase publication as a step relation over
  channel hand-overs.  \<open>Snapshot_Service\<close> (snapshot_service.go): custom tasks that pull snapshots.
  \<open>Output_Store\<close>, \<open>Agent_Registry\<close> (pkg/agent/pipeline/stub): the pipeline agent's queries and
  statistics.  \<open>Pod_GC\<close> (pod_gc.go): the collection of failed pods.

  \<^bold>\<open>Control plane.\<close>  \<open>Resource_Diff\<close>, \<open>Ensure\<close> (pkg/util/k8s_resource_diff.go, k8s_resources.go and their
  Contour counterparts): comparing and writing each kind of resource, over an interface \<open>ensured\<close> that
  every kind implements.  \<open>Controller_Config\<close> (pkg/controller/pipeline/config, list_util.go),
  \<open>Reconcile_Util\<close> (reconcile_util.go).  \<open>Cluster_API\<close>: the API server as a parameter with the laws of
  its documented behaviour, and the abstract operation \<open>ensure_object\<close>.  \<open>Pipeline_Controller\<close>
  (pipeline_controller.go, network.go, contour/reconciler.go): the reconciler, step by step.
  \<open>Pipeline_Plan\<close>: its specification, the list of wanted objects, the proof that a run ensures
  exactly this list, and convergence.  \<open>Pipeline_Example\<close>: a concrete cluster.  \<open>Pipeline_Runs\<close>: when a
  pipeline is looked at again, and the owners of what is created.  \<open>Pipeline_Wiring\<close>: the addresses
  the controller writes are those the task agents read.

  \<^bold>\<open>Executing a task.\<close>  \<open>Environment\<close> (pkg/constants): what a process reads from its environment.
  \<open>Go_Path\<close>, \<open>Go_URL\<close>, \<open>Go_Duration\<close>, \<open>Retry\<close>: the parts of Go's library and of vendored packages
  the code leans on, and pkg/util/retry.  \<open>Exec_Types\<close>, \<open>Exec_Builders\<close>, \<open>Executor\<close> (pkg/agent/task/executor.go,
  its builders, template_data.go, template_functions.go, uri.go): the pod of one execution, its wait
  for the end of the pod and the processing of outputs.  \<open>Executor_Publish\<close>, \<open>Executor_Cleanup\<close>,
  \<open>Executor_Pod\<close>: when publishing ends, what is deleted, and what is mounted where; \<open>Executor_Example\<close>.

  \<^bold>\<open>Files.\<close>  \<open>FS_Api\<close>, \<open>FS_Types\<close>: the interface of the file system services.  \<open>Local_FS\<close>, \<open>S3_FS\<close>,
  \<open>FS_Service\<close> (pkg/fs/service): directories of nodes and buckets as volumes.  \<open>File_Store\<close> is what both
  promise, as a locale; \<open>File_Exchange\<close> and \<open>FS_Example\<close> put it between two tasks: a file one writes is
  what the next one is given.

  \<^bold>\<open>Database.\<close>  \<open>Server_Calls\<close>: a handler as a sequence of atomic requests, and pools of handlers that
  interleave.  \<open>Arango\<close>: the collections, failed requests and lost answers, and the driver's errors.
  \<open>Link_DB\<close> (pkg/agent/link/arangodb): the link queue with its subscriptions, \<open>Link_DB_Safety\<close>,
  \<open>Link_DB_Values\<close>, \<open>Link_DB_Runs\<close> and \<open>Link_DB_Delivery\<close> what becomes of a published value.
  \<open>Registry_DB\<close> (pkg/annotatedvalue/registry/arangodb) answers as the registry in memory does.
  \<open>Arango_Setup\<close>: opening the database and making the collections.

  \<^bold>\<open>Agent processes.\<close>  \<open>Agent_Loop\<close> (runUpdateAgentRegistration of pkg/agent/link/service.go and
  pkg/agent/task/service.go): registration and reports; \<open>Agent_Reports\<close> puts it before the registry of
  the pipeline agent, over a network that loses calls and answers.  \<open>Agent_Process\<close> (NewService of both,
  and the clients): how an agent starts; \<open>Agent_Deploy\<close>: it starts with the environment the controller
  gives it.  \<open>Pipeline_Agent\<close> (pkg/agent/pipeline/service.go, stub/stub.go, server_frontend.go and the builders
  of data views): the pipeline agent with its shared parts, and the web page that shows any file of a node.
  \<open>Frontend_Hub\<close> (frontend/hub.go, client.go): the hub and the pumps of its clients as a step relation.

  \<^bold>\<open>Ready-made tasks.\<close>  \<open>Task_Notify\<close>: making data URIs, the loop that hands a value to the task agent, and
  what the agent makes of it.  \<open>Task_File\<close> (pkg/task/filesplit, jsonquery), \<open>Task_Rest\<close> (rest), \<open>Task_Drop\<close>
  (filedrop, with \<open>filepath.Rel\<close>), \<open>Task_Query\<close> (dbquery, with the cursor of the vendored driver): each
  with its construction, its run and what reaches the agent.  \<open>Data_URL\<close>: the lexer of the vendored
  package, so that what a ready-made task publishes is followed to the input of the next task.

  This theory composes the data plane: along a run of valid tasks, the provenance of every
  published value can be rebuilt and contains the values it was made from.

  \<^bold>\<open>Fuel and loops.\<close>  A loop that may go on for ever is a \<open>partial_function\<close> into an option, with
  \<open>None\<close> for a run that does not end; where it does end this is proved, with a bound.  The tree of a
  value is built with fuel, and the number of recorded values is proved to be enough.

  \<^bold>\<open>Not modelled.\<close>  Network transport (gRPC and HTTP servers, web sockets, reconnection), logging and
  the main programs that parse flags: input and output only.  Generated code (protocol buffers, the HTTP
  gateway, deep copies).  The drivers that mount buckets on a node (pkg/fs/service/s3/flexdriver), which
  run commands of the operating system.  The logger of concept graphs in pkg/history, which nothing in
  the operator calls.  The API server, JSON, YAML, hashing, template execution and the database server
  are parameters.  Time is a parameter where the code reads the clock.
\<close>

section \<open>From task snapshots to provenance\<close>

text \<open>
  One publication: the task (with the pipeline it was validated in), the snapshot it was executed
  on, the value of the executor, the fresh ID and the time, and the links of the output, each of
  which records the value with its own URI.
\<close>

record 'a publication =
  pb_pipeline :: PipelineSpec
  pb_spec :: TaskSpec
  pb_output :: string
  pb_snapshot :: "'a InputSnapshot"
  pb_id :: string
  pb_now :: Timestamp
  pb_av :: AnnotatedValue
  pb_links :: "string list"

definition pub_value :: "'a publication \<Rightarrow> AnnotatedValue" where
  "pub_value p = fill_blanks (pb_spec p) (pb_output p) (Some (pb_snapshot p)) (pb_id p) (pb_now p) (pb_av p)"

definition pub_records :: "'a publication \<Rightarrow> AnnotatedValue list" where
  "pub_records p = map (\<lambda>l. (pub_value p)\<lparr>av_Link := l\<rparr>) (pb_links p)"

text \<open>
  Tasks are valid, executors leave the ID and the sources to the agent (as \<open>OutputReady\<close> does), IDs
  are fresh, and the values in the snapshot of a task were published before.
\<close>

fun publications_ok :: "string set \<Rightarrow> 'a publication list \<Rightarrow> bool" where
  "publications_ok known [] = True"
| "publications_ok known (p # ps) =
     (TaskSpec_Validate (pb_spec p) (pb_pipeline p) = None
      \<and> av_ID (pb_av p) = [] \<and> av_SourceInputs (pb_av p) = []
      \<and> pb_id p \<notin> known \<and> pb_links p \<noteq> []
      \<and> list_all (\<lambda>inp. list_all (\<lambda>av. av_ID av \<in> known) (GetSequence (pb_snapshot p) (tis_Name inp)))
          (ts_Inputs (pb_spec p))
      \<and> publications_ok (insert (pb_id p) known) ps)"

lemma pub_value_fields:
  assumes "av_ID (pb_av p) = []" and "av_SourceInputs (pb_av p) = []"
  shows "av_ID (pub_value p) = pb_id p"
    and "av_SourceInputs (pub_value p) = source_inputs_of (pb_spec p) (pb_snapshot p)"
  using assms by (simp_all add: pub_value_def fill_blanks_def Let_def)

lemma records_of_known_value:
  "m (av_ID v) = Some (av_SourceInputs v) \<Longrightarrow>
     recorded_in_order m (map (\<lambda>l. v\<lparr>av_Link := l\<rparr>) ls @ rest) \<longleftrightarrow> recorded_in_order m rest"
  by (induction ls) (auto simp: map_upd_triv)

lemma publications_recorded:
  assumes "publications_ok (dom m) ps"
  shows "recorded_in_order m (concat (map pub_records ps))"
  using assms
proof (induction ps arbitrary: m)
  case (Cons p ps)
  let ?v = "pub_value p"
  let ?m = "m(pb_id p \<mapsto> source_inputs_of (pb_spec p) (pb_snapshot p))"
  have p: "TaskSpec_Validate (pb_spec p) (pb_pipeline p) = None" "av_ID (pb_av p) = []"
      "av_SourceInputs (pb_av p) = []" "m (pb_id p) = None" "pb_links p \<noteq> []"
    and known: "\<And>inp av. inp \<in> set (ts_Inputs (pb_spec p)) \<Longrightarrow>
      av \<in> set (GetSequence (pb_snapshot p) (tis_Name inp)) \<Longrightarrow> m (av_ID av) \<noteq> None"
    and rest: "publications_ok (dom ?m) ps"
    using Cons.prems by (auto simp: list_all_iff domIff)
  note v = pub_value_fields [OF p(2,3)]
  have "distinct (map tis_Name (ts_Inputs (pb_spec p)))" using p(1) by (simp add: task_valid task_ok_def)
  then have "distinct_inputs ?v"
    by (simp add: distinct_inputs_def v source_inputs_of_def comp_def)
  moreover have "list_all (\<lambda>i. m i \<noteq> None) (source_ids ?v)"
    using known by (auto simp: list_all_iff source_ids_def v source_inputs_of_def)
  moreover obtain l ls where "pub_records p = ?v\<lparr>av_Link := l\<rparr> # map (\<lambda>l. ?v\<lparr>av_Link := l\<rparr>) ls"
    using p(5) by (cases "pb_links p") (auto simp: pub_records_def)
  moreover have "recorded_in_order ?m (map (\<lambda>l. ?v\<lparr>av_Link := l\<rparr>) ls @ concat (map pub_records ps))"
  proof -
    have known_v: "?m (av_ID ?v) = Some (av_SourceInputs ?v)" by (simp add: v)
    show ?thesis using Cons.IH [of ?m] rest records_of_known_value [of ?m ?v ls "concat (map pub_records ps)"] known_v by blast
  qed
  ultimately show ?case
    by (simp add: v p(4) distinct_inputs_def source_ids_def)
qed simp

text \<open>C1: provenance end to end. When valid tasks publish values for snapshots of values published
  before, over any number of links, the tree of every recorded value can be built, and it contains
  the value's own ID and the ID of every value of the snapshot it was made from.\<close>
theorem published_value_provenance:
  assumes "publications_ok {} ps" and "p \<in> set ps" and "v \<in> set (pub_records p)"
  shows "\<exists>t. Build (length (concat (map pub_records ps)))
      (GetByID (foldl Record NewStub_registry (concat (map pub_records ps)))) v = Some (Inr t)
    \<and> ContainsID t (av_ID v)
    \<and> (\<forall>inp \<in> set (ts_Inputs (pb_spec p)). \<forall>av \<in> set (GetSequence (pb_snapshot p) (tis_Name inp)).
         ContainsID t (av_ID av))"
proof -
  let ?avs = "concat (map pub_records ps)"
  let ?get = "GetByID (foldl Record NewStub_registry ?avs)"
  have rec: "recorded_in_order Map.empty ?avs" by (rule publications_recorded) (simp add: assms(1))
  have v: "v \<in> set ?avs" using assms(2,3) by auto
  obtain t where t: "Build (length ?avs) ?get v = Some (Inr t)" "\<And>x. ContainsID t x \<longleftrightarrow> derives ?get v x"
    using registry.tree_complete [OF rec v order_refl] by blast
  have blank: "av_ID (pb_av p) = [] \<and> av_SourceInputs (pb_av p) = []"
    if "publications_ok known ps" for known
    using that assms(2) by (induction ps arbitrary: known) auto
  then have "av_SourceInputs v = source_inputs_of (pb_spec p) (pb_snapshot p)"
    using assms(1,3) pub_value_fields(2) [of p] by (auto simp: pub_records_def)
  then have src: "av_ID av \<in> set (source_ids v)"
    if "inp \<in> set (ts_Inputs (pb_spec p))" "av \<in> set (GetSequence (pb_snapshot p) (tis_Name inp))" for inp av
    using that by (auto simp: source_ids_def source_inputs_of_def)
  obtain b rank where b: "?get (av_ID v) = Inr b" "av_SourceInputs b = av_SourceInputs v"
    and lay: "layered ?get rank"
    using registry.recorded_sources [OF rec v] registry.records_layered [OF rec] by blast
  have "ContainsID t i" if "i \<in> set (source_ids v)" for i
  proof -
    have "\<exists>s. ?get i = Inr s" using that b lay unfolding layered_def source_ids_def by auto
    then obtain s where s: "?get i = Inr s" by blast
    then have "av_ID s = i" using registry.get_mem by blast
    then have "derives ?get s i" using derives_self [of ?get s] by simp
    with s that show ?thesis by (auto simp: t(2) intro: derives_source)
  qed
  moreover have "ContainsID t (av_ID v)" by (simp add: t(2) derives_self)
  ultimately show ?thesis using t(1) src by blast
qed

text \<open>A first value that goes to two links, made from an empty snapshot, and a second made from it.\<close>

definition example_publication :: "nat InputSnapshot \<Rightarrow> string \<Rightarrow> string list \<Rightarrow> nat publication" where
  "example_publication snapshot i links = \<lparr>pb_pipeline = example_pipeline, pb_spec = pairs_task,
     pb_output = ''out'', pb_snapshot = snapshot, pb_id = i, pb_now = \<lparr>tm_Seconds = 7, tm_Nanos = 0\<rparr>,
     pb_av = blank_value, pb_links = links\<rparr>"

definition example_publications :: "nat publication list" where
  "example_publications =
     [example_publication [] ''a'' [''l1'', ''l2''],
      example_publication
        [(''a'', \<lparr>ip_sequence = [(example_av ''a'' [], None)], ip_stats = None, ip_minSeqLen = 1\<rparr>)]
        ''b'' [''l3'']]"

lemma published_value_provenance_witness:
  "\<exists>t. Build 3 (GetByID (foldl Record NewStub_registry (concat (map pub_records example_publications))))
       (concat (map pub_records example_publications) ! 2) = Some (Inr t)
     \<and> ContainsID t ''b'' \<and> ContainsID t ''a''"
proof -
  let ?p = "example_publications ! 1"
  let ?v = "concat (map pub_records example_publications) ! 2"
  have ok: "publications_ok {} example_publications"
    by code_simp
  have p: "?p \<in> set example_publications" by (simp add: example_publications_def)
  have v: "?v \<in> set (pub_records ?p)"
    by (simp add: example_publications_def pub_records_def example_publication_def)
  have len: "length (concat (map pub_records example_publications)) = 3"
    by (simp add: example_publications_def pub_records_def example_publication_def)
  have i: "av_ID ?v = ''b''"
    by (simp add: example_publications_def pub_records_def example_publication_def pub_value_def
        fill_blanks_def blank_value_def Let_def)
  have inp: "loop_input ''a'' 2 1 \<in> set (ts_Inputs (pb_spec ?p))"
    by (simp add: example_publications_def example_publication_def pairs_task_def loop_task_def)
  have av: "example_av ''a'' [] \<in> set (GetSequence (pb_snapshot ?p) (tis_Name (loop_input ''a'' 2 1)))"
    by (simp add: example_publications_def example_publication_def GetSequence_def pair_GetSequence_def loop_input_def)
  have a: "av_ID (example_av ''a'' []) = ''a''" by (simp add: example_av_def)
  obtain t where t: "Build 3 (GetByID (foldl Record NewStub_registry (concat (map pub_records example_publications)))) ?v
      = Some (Inr t)" "ContainsID t ''b''"
    "\<forall>inp \<in> set (ts_Inputs (pb_spec ?p)). \<forall>av \<in> set (GetSequence (pb_snapshot ?p) (tis_Name inp)). ContainsID t (av_ID av)"
    using published_value_provenance [OF ok p v] unfolding len i by blast
  then have "ContainsID t ''a''" using inp av a by metis
  with t(1,2) show ?thesis by blast
qed

end
